(* ===== verification/Prefix_Index.thy ===== *)
theory Prefix_Index
  imports Prelude
begin

section \<open>The interface of a prefix index\<close>

text \<open>
  What \<open>ext/revoker\<close> relies on when it keeps its prefix rules in \<open>internal/trie\<close>: an index
  from non-empty keys to values, an insertion that refuses a key it already holds, and a walk
  over the stored prefixes of a string, shortest first, that a callback can stop. The callback's
  captured variables are an explicit state, threaded through the calls.
\<close>

text \<open>Calling a Go callback on a sequence of matches until it returns true.\<close>

fun run_cb :: "('s \<Rightarrow> 'v \<Rightarrow> string \<Rightarrow> 's \<times> bool) \<Rightarrow> 's \<Rightarrow> ('v \<times> string) list \<Rightarrow> 's \<times> bool" where
  "run_cb fn st [] = (st, False)"
| "run_cb fn st ((v, k) # ms) =
     (case fn st v k of (st', stop) \<Rightarrow> if stop then (st', True) else run_cb fn st' ms)"

lemma run_cb_append:
  "run_cb fn st (xs @ ys) =
     (case run_cb fn st xs of (st', stop) \<Rightarrow> if stop then (st', True) else run_cb fn st' ys)"
  by (induction fn st xs rule: run_cb.induct) (auto split: prod.splits)

text \<open>The matches of a string against a lookup function, by increasing length.\<close>

definition prefix_matches :: "(string \<Rightarrow> 'v option) \<Rightarrow> string \<Rightarrow> ('v \<times> string) list" where
  "prefix_matches look s =
     List.map_filter (\<lambda>k. map_option (\<lambda>v. (v, k)) (look k)) (prefixes s)"

lemma prefix_matches_iff:
  "(v, k) \<in> set (prefix_matches look s) \<longleftrightarrow> prefix k s \<and> look k = Some v"
  by (force simp: prefix_matches_def map_filter_def)

text \<open>
  A callback whose decision does not depend on its state, as the revoker's: it stops at the
  first match that satisfies the test, with the state it computes there.
\<close>

lemma run_cb_find:
  assumes "\<And>s v k. fn s v k = (if P v k then (g v k, True) else (s, False))"
  shows "run_cb fn st ms =
    (case find (\<lambda>(v, k). P v k) ms of None \<Rightarrow> (st, False) | Some (v, k) \<Rightarrow> (g v k, True))"
proof (induction ms)
  case Nil
  then show ?case by simp
next
  case (Cons m ms)
  then show ?case by (cases m) (simp add: assms)
qed

locale prefix_index =
  fixes inv :: "'t \<Rightarrow> bool"
    and empty :: "'t"
    and look :: "'t \<Rightarrow> string \<Rightarrow> 'v option"
    and ins :: "'t \<Rightarrow> string \<Rightarrow> 'v \<Rightarrow> 'e + 't"
    and match :: "('s \<Rightarrow> 'v \<Rightarrow> string \<Rightarrow> 's \<times> bool) \<Rightarrow> 's \<Rightarrow> 't \<Rightarrow> string \<Rightarrow> 's \<times> bool"
  assumes inv_empty: "inv empty"
    and look_empty: "look empty k = None"
    and ins_ok: "inv t \<Longrightarrow> k \<noteq> [] \<Longrightarrow> look t k = None \<Longrightarrow>
        \<exists>t'. ins t k v = Inr t' \<and> inv t' \<and> look t' = (look t)(k \<mapsto> v)"
    and ins_dup: "inv t \<Longrightarrow> look t k = Some w \<Longrightarrow> \<exists>e. ins t k v = Inl e"
    and ins_nil: "\<exists>e. ins t [] v = Inl e"
    and match_run: "inv t \<Longrightarrow> match fn st t s = run_cb fn st (prefix_matches (look t) s)"
begin

text \<open>An insertion whose error is ignored, as the revoker's.\<close>

lemma ins_ignoring_error:
  assumes "inv t"
  shows "inv (case ins t k v of Inl e \<Rightarrow> t | Inr t' \<Rightarrow> t')"
    and "look (case ins t k v of Inl e \<Rightarrow> t | Inr t' \<Rightarrow> t') =
      (if k = [] \<or> look t k \<noteq> None then look t else (look t)(k \<mapsto> v))"
proof -
  have *: "inv (case ins t k v of Inl e \<Rightarrow> t | Inr t' \<Rightarrow> t') \<and>
    look (case ins t k v of Inl e \<Rightarrow> t | Inr t' \<Rightarrow> t') =
      (if k = [] \<or> look t k \<noteq> None then look t else (look t)(k \<mapsto> v))"
  proof (cases "k = [] \<or> look t k \<noteq> None")
    case True
    then obtain e where "ins t k v = Inl e" using ins_nil ins_dup [OF assms] by blast
    with True assms show ?thesis by simp
  next
    case False
    then obtain t' where "ins t k v = Inr t'" "inv t'" "look t' = (look t)(k \<mapsto> v)"
      using ins_ok [OF assms] by blast
    with False show ?thesis by simp
  qed
  then show "inv (case ins t k v of Inl e \<Rightarrow> t | Inr t' \<Rightarrow> t')"
    and "look (case ins t k v of Inl e \<Rightarrow> t | Inr t' \<Rightarrow> t') =
      (if k = [] \<or> look t k \<noteq> None then look t else (look t)(k \<mapsto> v))"
    by auto
qed

text \<open>A stopping walk stops exactly when some stored prefix passes the test.\<close>

lemma match_test:
  assumes "inv t"
    and "\<And>s v k. fn s v k = (if P v k then (g v k, True) else (s, False))"
  shows "snd (match fn st t s) \<longleftrightarrow> (\<exists>k v. prefix k s \<and> look t k = Some v \<and> P v k)"
proof -
  have "snd (match fn st t s) \<longleftrightarrow> (\<exists>(v, k) \<in> set (prefix_matches (look t) s). P v k)"
    (is "_ \<longleftrightarrow> ?ex")
  proof (cases "find (\<lambda>(v, k). P v k) (prefix_matches (look t) s)")
    case None
    then have "\<not> ?ex" by (auto simp: find_None_iff)
    with None show ?thesis by (simp add: match_run [OF assms(1)] run_cb_find [OF assms(2)])
  next
    case (Some m)
    then have ?ex by (auto dest!: find_SomeD split: prod.splits intro!: bexI [of _ m])
    with Some show ?thesis
      by (simp add: match_run [OF assms(1)] run_cb_find [OF assms(2)] split: prod.splits)
  qed
  then show ?thesis by (auto simp: prefix_matches_iff)
qed

lemma match_no_stop:
  assumes "inv t"
    and "\<And>s v k. fn s v k = (if P v k then (g v k, True) else (s, False))"
    and "\<not> snd (match fn st t s)"
  shows "match fn st t s = (st, False)"
  using assms(3)
  by (auto simp: match_run [OF assms(1)] run_cb_find [OF assms(2)] split: option.splits prod.splits)

end

end
