(* ===== verification/Radix_Trie.thy ===== *)
theory Radix_Trie
  imports Prefix_Index
begin

section \<open>The radix trie of internal/trie\<close>

text \<open>
  \<open>internal/trie/trie.go\<close>. A node keeps its edge label, its children in insertion order and
  its value; \<open>hasValue\<close> and \<open>value\<close> are one option. A trie is its root node. The lock makes each
  call atomic and is not modelled. \<open>insert_children\<close> is the body of \<open>node.insert\<close>: it works on
  the receiver's child list, which is all of the receiver the method reads or writes.
\<close>

datatype 'v node = Node (nprefix: string) (children: "'v node list") (nvalue: "'v option")

datatype trie_error = ErrEmptyKey | ErrNotFound | ErrDuplicate

definition newTrie :: "'v node" where
  "newTrie = Node [] [] None"

fun longestCommonPrefix :: "string \<Rightarrow> string \<Rightarrow> nat" where
  "longestCommonPrefix (a # as) (b # bs) = (if a = b then Suc (longestCommonPrefix as bs) else 0)"
| "longestCommonPrefix _ _ = 0"

definition hasPrefix :: "string \<Rightarrow> string \<Rightarrow> bool" where
  "hasPrefix s p = (if length s < length p then False else take (length p) s = p)"

fun insert_children :: "string \<Rightarrow> 'v \<Rightarrow> 'v node list \<Rightarrow> trie_error + 'v node list" where
  "insert_children key v [] = Inr [Node key [] (Some v)]"
| "insert_children key v (Node p gs ov # cs) =
     (let common = longestCommonPrefix key p in
      if common = 0 then
        (case insert_children key v cs of Inl e \<Rightarrow> Inl e | Inr cs' \<Rightarrow> Inr (Node p gs ov # cs'))
      else if common = length p \<and> common = length key then
        (case ov of Some _ \<Rightarrow> Inl ErrDuplicate | None \<Rightarrow> Inr (Node p gs (Some v) # cs))
      else if common = length p then
        (case insert_children (drop common key) v gs of
           Inl e \<Rightarrow> Inl e | Inr gs' \<Rightarrow> Inr (Node p gs' ov # cs))
      else
        (let split = Node (drop common p) gs ov; remaining = drop common key in
         if remaining = [] then Inr (Node (take common p) [split] (Some v) # cs)
         else Inr (Node (take common p) [split, Node remaining [] (Some v)] None # cs)))"

definition trie_Insert :: "'v node \<Rightarrow> string \<Rightarrow> 'v \<Rightarrow> trie_error + 'v node" where
  "trie_Insert t key v =
     (if key = [] then Inl ErrEmptyKey
      else case insert_children key v (children t) of
             Inl e \<Rightarrow> Inl e
           | Inr cs \<Rightarrow> Inr (Node (nprefix t) cs (nvalue t)))"

lemma size_find_child [termination_simp]:
  "find P cs = Some c \<Longrightarrow> size c < Suc (size_list size cs)"
  by (induction cs) (auto split: if_splits)

text \<open>\<open>MatchAll\<close>'s loop: the callback at the current node, then the first child whose label fits.\<close>

function match_loop ::
  "('s \<Rightarrow> 'v \<Rightarrow> string \<Rightarrow> 's \<times> bool) \<Rightarrow> 's \<Rightarrow> 'v node \<Rightarrow> string \<Rightarrow> string \<Rightarrow> 's \<times> bool" where
  "match_loop fn st (Node p cs ov) search matched =
     (let (st', stop) = (case ov of Some v \<Rightarrow> fn st v matched | None \<Rightarrow> (st, False)) in
      if stop then (st', True)
      else case find (\<lambda>c. hasPrefix search (nprefix c)) cs of
             None \<Rightarrow> (st', False)
           | Some c \<Rightarrow> match_loop fn st' c (drop (length (nprefix c)) search) (matched @ nprefix c))"
  by pat_completeness auto
termination
  by (relation "measure (\<lambda>(fn, st, n, search, matched). size n)")
    (auto dest: size_find_child)

definition trie_MatchAll ::
  "('s \<Rightarrow> 'v \<Rightarrow> string \<Rightarrow> 's \<times> bool) \<Rightarrow> 's \<Rightarrow> 'v node \<Rightarrow> string \<Rightarrow> 's \<times> bool" where
  "trie_MatchAll fn st t s = match_loop fn st t s []"

function shortest_loop :: "'v node \<Rightarrow> string \<Rightarrow> string \<Rightarrow> ('v \<times> string) option" where
  "shortest_loop (Node p cs ov) search matched =
     (case ov of
        Some v \<Rightarrow> Some (v, matched)
      | None \<Rightarrow>
          (case find (\<lambda>c. hasPrefix search (nprefix c)) cs of
             None \<Rightarrow> None
           | Some c \<Rightarrow> shortest_loop c (drop (length (nprefix c)) search) (matched @ nprefix c)))"
  by pat_completeness auto
termination
  by (relation "measure (\<lambda>(n, search, matched). size n)") (auto dest: size_find_child)

definition trie_ShortestMatch :: "'v node \<Rightarrow> string \<Rightarrow> ('v \<times> string) option" where
  "trie_ShortestMatch t s = shortest_loop t s []"

declare match_loop.simps [simp del] shortest_loop.simps [simp del]

subsection \<open>Well-formed tries and the map they represent\<close>

text \<open>
  The invariant: labels are non-empty and the labels of siblings start with different bytes
  (so at most one child can match). The abstraction is exact lookup along the labels.
\<close>

fun wf_children :: "'v node list \<Rightarrow> bool" where
  "wf_children [] = True"
| "wf_children (Node p gs ov # cs) =
     (p \<noteq> [] \<and> wf_children gs \<and> wf_children cs \<and> (\<forall>c \<in> set cs. hd (nprefix c) \<noteq> hd p))"

fun lookup_children :: "'v node list \<Rightarrow> string \<Rightarrow> 'v option" where
  "lookup_children [] k = None"
| "lookup_children (Node p gs ov # cs) k =
     (if prefix p k then (if k = p then ov else lookup_children gs (drop (length p) k))
      else lookup_children cs k)"

definition wf_trie :: "'v node \<Rightarrow> bool" where
  "wf_trie t \<longleftrightarrow> nprefix t = [] \<and> nvalue t = None \<and> wf_children (children t)"

definition trie_lookup :: "'v node \<Rightarrow> string \<Rightarrow> 'v option" where
  "trie_lookup t k = (if k = [] then nvalue t else lookup_children (children t) k)"

lemma hasPrefix_iff: "hasPrefix s p \<longleftrightarrow> prefix p s"
  by (auto simp: hasPrefix_def prefix_def) (metis append_take_drop_id)

lemma lookup_children_Nil_key: "wf_children cs \<Longrightarrow> lookup_children cs [] = None"
  by (induction cs rule: wf_children.induct) auto

lemma lookup_children_other_head:
  "wf_children cs \<Longrightarrow> k \<noteq> [] \<Longrightarrow> \<forall>c \<in> set cs. hd (nprefix c) \<noteq> hd k \<Longrightarrow> lookup_children cs k = None"
  by (induction cs rule: wf_children.induct) (auto simp: prefix_def hd_append)

lemma lookup_children_mem:
  "wf_children cs \<Longrightarrow> Node q gs ow \<in> set cs \<Longrightarrow> k \<noteq> [] \<Longrightarrow> hd k = hd q \<Longrightarrow>
    lookup_children cs k =
      (if prefix q k then (if k = q then ow else lookup_children gs (drop (length q) k)) else None)"
proof (induction cs rule: wf_children.induct)
  case 1
  then show ?case by simp
next
  case (2 p hs ov cs)
  show ?case
  proof (cases "Node q gs ow = Node p hs ov")
    case True
    with 2 show ?thesis by (auto intro: lookup_children_other_head)
  next
    case False
    with "2.prems" have m: "Node q gs ow \<in> set cs" and "wf_children cs" by auto
    with "2.prems" have "hd q \<noteq> hd p" by force
    with "2.prems" have "\<not> prefix p k" by (auto simp: prefix_def hd_append)
    with 2 m show ?thesis by simp
  qed
qed

lemma wf_children_mem: "wf_children cs \<Longrightarrow> Node q gs ow \<in> set cs \<Longrightarrow> q \<noteq> [] \<and> wf_children gs"
  by (induction cs rule: wf_children.induct) auto

subsection \<open>Insertion\<close>

lemma lcp_take: "take (longestCommonPrefix a b) a = take (longestCommonPrefix a b) b"
  by (induction a b rule: longestCommonPrefix.induct) auto

lemma lcp_le1: "longestCommonPrefix a b \<le> length a"
  by (induction a b rule: longestCommonPrefix.induct) auto

lemma lcp_le2: "longestCommonPrefix a b \<le> length b"
  by (induction a b rule: longestCommonPrefix.induct) auto

lemma lcp_0: "longestCommonPrefix a b = 0 \<longleftrightarrow> a = [] \<or> b = [] \<or> hd a \<noteq> hd b"
  by (cases "(a, b)" rule: longestCommonPrefix.cases) auto

lemma lcp_full: "longestCommonPrefix a b = length b \<longleftrightarrow> prefix b a"
  by (induction a b rule: longestCommonPrefix.induct) auto

text \<open>What one insertion promises of a sibling list.\<close>

definition insert_spec ::
  "string \<Rightarrow> 'v \<Rightarrow> 'v node list \<Rightarrow> trie_error + 'v node list \<Rightarrow> bool" where
  "insert_spec key v cs r \<longleftrightarrow>
     (case lookup_children cs key of
        Some w \<Rightarrow> r = Inl ErrDuplicate
      | None \<Rightarrow> (\<exists>cs'. r = Inr cs' \<and> wf_children cs' \<and>
          (\<forall>k. lookup_children cs' k = (if k = key then Some v else lookup_children cs k)) \<and>
          (\<forall>c \<in> set cs'. hd (nprefix c) = hd key \<or> (\<exists>d \<in> set cs. hd (nprefix c) = hd (nprefix d)))))"

lemma insert_spec_cons:
  assumes "wf_children (Node p gs ov # cs)" "key \<noteq> []" "hd p \<noteq> hd key"
    and "insert_spec key v cs r"
  shows "insert_spec key v (Node p gs ov # cs)
    (case r of Inl e \<Rightarrow> Inl e | Inr cs' \<Rightarrow> Inr (Node p gs ov # cs'))"
proof -
  have np: "\<not> prefix p key" using assms(1-3) by (auto simp: prefix_def hd_append)
  show ?thesis
  proof (cases "lookup_children cs key")
    case (Some w)
    with np assms(4) show ?thesis by (simp add: insert_spec_def)
  next
    case None
    with assms(4) obtain cs' where r: "r = Inr cs'" "wf_children cs'"
      "\<forall>k. lookup_children cs' k = (if k = key then Some v else lookup_children cs k)"
      "\<forall>c \<in> set cs'. hd (nprefix c) = hd key \<or> (\<exists>d \<in> set cs. hd (nprefix c) = hd (nprefix d))"
      by (auto simp: insert_spec_def)
    have "\<forall>c \<in> set cs'. hd (nprefix c) \<noteq> hd p" using r(4) assms(1,3) by fastforce
    with None r np assms(1) show ?thesis by (fastforce simp: insert_spec_def)
  qed
qed

lemma insert_spec_descend:
  assumes wf: "wf_children (Node p gs ov # cs)" and p: "prefix p key" and ne: "key \<noteq> p"
    and "insert_spec (drop (length p) key) v gs r"
  shows "insert_spec key v (Node p gs ov # cs)
    (case r of Inl e \<Rightarrow> Inl e | Inr gs' \<Rightarrow> Inr (Node p gs' ov # cs))"
proof (cases "lookup_children gs (drop (length p) key)")
  case (Some w)
  with assms show ?thesis by (simp add: insert_spec_def)
next
  case None
  with assms(4) obtain gs' where r: "r = Inr gs'" "wf_children gs'"
    "\<forall>k. lookup_children gs' k = (if k = drop (length p) key then Some v else lookup_children gs k)"
    by (auto simp: insert_spec_def)
  have "drop (length p) k = drop (length p) key \<longleftrightarrow> k = key" if "prefix p k" for k
    using that p by (auto simp: prefix_def)
  with None r wf p ne show ?thesis
    by (auto simp: insert_spec_def)
qed

lemma insert_spec_exact:
  "wf_children (Node p gs ov # cs) \<Longrightarrow> insert_spec p v (Node p gs ov # cs)
    (case ov of Some _ \<Rightarrow> Inl ErrDuplicate | None \<Rightarrow> Inr (Node p gs (Some v) # cs))"
  by (cases ov) (auto simp: insert_spec_def)

lemma lcp_append: "longestCommonPrefix (q @ a) (q @ b) = length q + longestCommonPrefix a b"
  by (induction q) auto

lemma insert_spec_split:
  assumes wf: "wf_children (Node (q @ rest) gs ov # cs)"
    and q: "q \<noteq> []" and rest: "rest \<noteq> []" and new: "new = [] \<or> hd new \<noteq> hd rest"
  shows "insert_spec (q @ new) v (Node (q @ rest) gs ov # cs)
    (Inr (if new = [] then Node q [Node rest gs ov] (Some v) # cs
     else Node q [Node rest gs ov, Node new [] (Some v)] None # cs))"
    (is "insert_spec _ _ _ (Inr ?cs')")
proof -
  have heads: "\<forall>c \<in> set cs. hd (nprefix c) \<noteq> hd q" using wf q by simp
  have others: "lookup_children cs (q @ k) = None" for k
    using wf q heads by (intro lookup_children_other_head) auto
  have nr: "\<not> prefix rest new" using rest new by (cases rest; cases new) auto
  have nr': "new \<noteq> [] \<Longrightarrow> \<not> (prefix rest k \<and> prefix new k)" for k
    using rest new by (cases rest; cases new) (auto simp: prefix_Cons prefix_def)
  have "lookup_children (Node (q @ rest) gs ov # cs) (q @ new) = None"
    using nr others by simp
  moreover have "wf_children ?cs'" using wf q rest new heads by auto
  moreover have "lookup_children ?cs' k =
      (if k = q @ new then Some v else lookup_children (Node (q @ rest) gs ov # cs) k)" for k
  proof (cases "prefix q k")
    case True
    then obtain k' where k: "k = q @ k'" by (auto simp: prefix_def)
    show ?thesis
      using others [of k'] nr' [of k'] nr rest by (auto simp: k)
  next
    case False
    then have "\<not> prefix (q @ rest) k" by (auto simp: prefix_def)
    with False show ?thesis by auto
  qed
  moreover have "\<forall>c \<in> set ?cs'. hd (nprefix c) = hd (q @ new) \<or>
      (\<exists>d \<in> set (Node (q @ rest) gs ov # cs). hd (nprefix c) = hd (nprefix d))"
    using q by auto
  ultimately show ?thesis by (simp only: insert_spec_def option.case sum.inject) blast
qed

lemma lcp_split:
  assumes "n = longestCommonPrefix key p"
  obtains q new rest where "key = q @ new" "p = q @ rest" "length q = n"
    "new = [] \<or> rest = [] \<or> hd new \<noteq> hd rest"
proof
  let ?q = "take n p"
  show key: "key = ?q @ drop n key"
    using lcp_take [of key p] assms by (metis append_take_drop_id)
  show p: "p = ?q @ drop n p" by simp
  show l: "length ?q = n" using lcp_le2 [of key p] assms by simp
  have "n = length ?q + longestCommonPrefix (drop n key) (drop n p)"
    using assms key p lcp_append by metis
  with l have "longestCommonPrefix (drop n key) (drop n p) = 0" by simp
  then show "drop n key = [] \<or> drop n p = [] \<or> hd (drop n key) \<noteq> hd (drop n p)"
    by (simp add: lcp_0)
qed

lemma insert_children_spec:
  "wf_children cs \<Longrightarrow> key \<noteq> [] \<Longrightarrow> insert_spec key v cs (insert_children key v cs)"
proof (induction key v cs rule: insert_children.induct)
  case (1 key v)
  then show ?case by (auto simp: insert_spec_def)
next
  case (2 key v p gs ov cs)
  define n where "n = longestCommonPrefix key p"
  obtain q new rest where kp: "key = q @ new" "p = q @ rest" "length q = n"
    "new = [] \<or> rest = [] \<or> hd new \<noteq> hd rest"
    using lcp_split [OF n_def] by blast
  have lq: "longestCommonPrefix (q @ new) (q @ rest) = length q" using kp n_def by simp
  consider (none) "n = 0" | (exact) "n \<noteq> 0" "rest = []" "new = []"
    | (descend) "n \<noteq> 0" "rest = []" "new \<noteq> []" | (split) "n \<noteq> 0" "rest \<noteq> []"
    by blast
  then show ?case
  proof cases
    case none
    then have "hd p \<noteq> hd key" using "2.prems" lcp_0 [of key p] n_def by auto
    moreover have "insert_spec key v cs (insert_children key v cs)"
      using "2.IH"(1) [OF n_def] none "2.prems" by simp
    ultimately have "insert_spec key v (Node p gs ov # cs)
        (case insert_children key v cs of Inl e \<Rightarrow> Inl e | Inr cs' \<Rightarrow> Inr (Node p gs ov # cs'))"
      using "2.prems" by (intro insert_spec_cons)
    with none show ?thesis by (simp add: n_def [symmetric])
  next
    case exact
    with kp lq have lp: "key = p" "longestCommonPrefix p p = length p" "p \<noteq> []" by auto
    then have "insert_children key v (Node p gs ov # cs) =
        (case ov of Some _ \<Rightarrow> Inl ErrDuplicate | None \<Rightarrow> Inr (Node p gs (Some v) # cs))"
      by (simp split: option.split)
    with insert_spec_exact [OF "2.prems"(1)] lp(1) show ?thesis by simp
  next
    case descend
    have pl: "n = length p" "n < length key" "prefix p key" "key \<noteq> p"
      using descend kp(3) by (auto simp: kp(1,2))
    have "drop n key \<noteq> []" "\<not> (n = length p \<and> n = length key)" "wf_children gs"
      using pl "2.prems"(1) by auto
    then have "insert_spec (drop n key) v gs (insert_children (drop n key) v gs)"
      using "2.IH"(2) [OF n_def] pl(1) descend(1) by blast
    then have "insert_spec key v (Node p gs ov # cs)
        (case insert_children (drop n key) v gs of Inl e \<Rightarrow> Inl e | Inr gs' \<Rightarrow> Inr (Node p gs' ov # cs))"
      using insert_spec_descend [OF "2.prems"(1) pl(3,4)] pl(1) by simp
    moreover have "insert_children key v (Node p gs ov # cs) =
        (case insert_children (drop n key) v gs of Inl e \<Rightarrow> Inl e | Inr gs' \<Rightarrow> Inr (Node p gs' ov # cs))"
      using pl(1,2) descend(1) n_def by (simp add: Let_def)
    ultimately show ?thesis by simp
  next
    case split
    have "insert_spec (q @ new) v (Node (q @ rest) gs ov # cs)
      (Inr (if new = [] then Node q [Node rest gs ov] (Some v) # cs
       else Node q [Node rest gs ov, Node new [] (Some v)] None # cs))"
      using split kp(3,4) "2.prems"(1)
      by (intro insert_spec_split) (auto simp: kp(2))
    moreover have "length q \<noteq> 0" "length q \<noteq> length (q @ rest)" using split kp(3) by auto
    then have "insert_children (q @ new) v (Node (q @ rest) gs ov # cs) =
      Inr (if new = [] then Node q [Node rest gs ov] (Some v) # cs
       else Node q [Node rest gs ov, Node new [] (Some v)] None # cs)"
      using lq by (simp add: Let_def)
    ultimately show ?thesis by (simp only: kp(1,2))
  qed
qed

subsection \<open>Matching\<close>

lemma prefix_matches_found:
  assumes wf: "wf_children cs" and mem: "Node q gs ow \<in> set cs" and pq: "prefix q s"
  shows "prefix_matches (lookup_children cs) s =
    (case ow of None \<Rightarrow> [] | Some w \<Rightarrow> [(w, q)]) @
    map (\<lambda>(v, k). (v, q @ k)) (prefix_matches (lookup_children gs) (drop (length q) s))"
proof -
  obtain s' where s: "s = q @ s'" using pq by (auto simp: prefix_def)
  have qgs: "q \<noteq> []" "wf_children gs" using wf_children_mem [OF wf mem] by auto
  obtain q0 x where q0: "q = q0 @ [x]" using qgs(1) by (cases q rule: rev_cases) auto
  let ?f = "\<lambda>cs k. map_option (\<lambda>v. (v, k)) (lookup_children cs k)"
  have below: "lookup_children cs k = None" if "k \<in> set (prefixes q0)" for k
  proof (cases k)
    case Nil
    then show ?thesis using wf lookup_children_Nil_key by simp
  next
    case (Cons a as)
    with that have "hd k = hd q" "\<not> prefix q k"
      using q0 by (auto simp: prefix_def)
    with Cons show ?thesis using lookup_children_mem [OF wf mem, of k] by simp
  qed
  have at: "lookup_children cs q = ow"
    using lookup_children_mem [OF wf mem, of q] qgs(1) by simp
  have above: "lookup_children cs (q @ k) = lookup_children gs k" if "k \<noteq> []" for k
    using lookup_children_mem [OF wf mem, of "q @ k"] qgs(1) that by simp
  have tl: "prefixes s' = [] # tl (prefixes s')" by (cases s') auto
  have ne: "k \<in> set (tl (prefixes s')) \<Longrightarrow> k \<noteq> []" for k by (cases s') auto
  have "List.map_filter (?f cs) (prefixes q0) = []"
    using below by (auto simp: map_filter_def filter_empty_conv)
  then have 1: "List.map_filter (?f cs) (prefixes q) =
      (case ow of None \<Rightarrow> [] | Some w \<Rightarrow> [(w, q)])"
    using at by (simp add: q0 map_filter_def split: option.splits)
  have shift: "\<forall>k \<in> set ks. k \<noteq> [] \<Longrightarrow> List.map_filter (?f cs) (map (\<lambda>k. q @ k) ks) =
      map (\<lambda>(v, k). (v, q @ k)) (List.map_filter (?f gs) ks)" for ks
    by (induction ks) (auto simp: map_filter_def above)
  have 2: "List.map_filter (?f cs) (map (\<lambda>k. q @ k) (tl (prefixes s'))) =
      map (\<lambda>(v, k). (v, q @ k)) (List.map_filter (?f gs) (tl (prefixes s')))"
    using shift [of "tl (prefixes s')"] ne by simp
  have 3: "List.map_filter (?f gs) (prefixes s') = List.map_filter (?f gs) (tl (prefixes s'))"
    by (subst tl) (simp add: map_filter_def lookup_children_Nil_key qgs(2))
  show ?thesis
    using 1 2 3 by (simp add: prefix_matches_def s prefixes_append map_filter_def)
qed


lemma prefix_matches_not_found:
  assumes wf: "wf_children cs" and none: "\<forall>c \<in> set cs. \<not> prefix (nprefix c) s"
  shows "prefix_matches (lookup_children cs) s = []"
proof -
  have "lookup_children cs k = None" if "prefix k s" for k
    using wf none that
  proof (induction cs rule: wf_children.induct)
    case 1
    then show ?case by simp
  next
    case (2 p gs ov cs)
    then have "\<not> prefix p k" using prefix_order.trans by fastforce
    with 2 show ?case by simp
  qed
  then show ?thesis by (auto simp: prefix_matches_def map_filter_def filter_empty_conv)
qed

definition node_matches :: "'v node \<Rightarrow> string \<Rightarrow> string \<Rightarrow> ('v \<times> string) list" where
  "node_matches n search matched =
     (case nvalue n of None \<Rightarrow> [] | Some v \<Rightarrow> [(v, matched)]) @
     map (\<lambda>(v, k). (v, matched @ k)) (prefix_matches (lookup_children (children n)) search)"

lemma node_matches_step:
  assumes wf: "wf_children (children n)"
  shows "node_matches n search matched =
    (case nvalue n of None \<Rightarrow> [] | Some v \<Rightarrow> [(v, matched)]) @
    (case find (\<lambda>c. hasPrefix search (nprefix c)) (children n) of
       None \<Rightarrow> []
     | Some c \<Rightarrow> node_matches c (drop (length (nprefix c)) search) (matched @ nprefix c))"
proof (cases "find (\<lambda>c. hasPrefix search (nprefix c)) (children n)")
  case None
  then have "\<forall>c \<in> set (children n). \<not> prefix (nprefix c) search"
    by (auto simp: find_None_iff hasPrefix_iff)
  with None wf show ?thesis by (simp add: node_matches_def prefix_matches_not_found)
next
  case (Some c)
  then have "c \<in> set (children n)" "prefix (nprefix c) search"
    by (auto dest!: find_SomeD simp: hasPrefix_iff)
  with wf Some show ?thesis
    using prefix_matches_found [of "children n" "nprefix c" "children c" "nvalue c" search]
    by (auto simp: node_matches_def o_def split: option.split)
qed

lemma wf_find:
  assumes "wf_children cs" "find P cs = Some c"
  shows "wf_children (children c)"
  using assms by (cases c) (auto dest!: find_SomeD dest: wf_children_mem)

lemma match_loop_run:
  "wf_children (children n) \<Longrightarrow> match_loop fn st n search matched = run_cb fn st (node_matches n search matched)"
proof (induction fn st n search matched rule: match_loop.induct)
  case (1 fn st p cs ov search matched)
  then have wf: "wf_children cs" by simp
  show ?case
  proof (cases "find (\<lambda>c. hasPrefix search (nprefix c)) cs")
    case None
    with wf show ?thesis
      by (auto simp: match_loop.simps node_matches_step split: option.splits prod.splits)
  next
    case (Some c)
    obtain st' stop where e: "(case ov of Some v \<Rightarrow> fn st v matched | None \<Rightarrow> (st, False)) = (st', stop)"
      by (cases "case ov of Some v \<Rightarrow> fn st v matched | None \<Rightarrow> (st, False)") auto
    have IH: "\<not> stop \<Longrightarrow> match_loop fn st' c (drop (length (nprefix c)) search) (matched @ nprefix c) =
        run_cb fn st' (node_matches c (drop (length (nprefix c)) search) (matched @ nprefix c))"
      using "1.IH" [OF e [symmetric] refl _ Some wf_find [OF wf Some]] by blast
    have 2: "run_cb fn st (case ov of None \<Rightarrow> [] | Some v \<Rightarrow> [(v, matched)]) = (st', stop)"
      using e by (auto split: option.splits prod.splits)
    show ?thesis
      using IH 2 e wf Some
      by (simp add: match_loop.simps node_matches_step [of "Node p cs ov"] run_cb_append)
  qed
qed

lemma shortest_loop_run:
  "shortest_loop n search matched =
    fst (match_loop (\<lambda>_ v k. (Some (v, k), True)) None n search matched)"
  by (induction n search matched rule: shortest_loop.induct)
    (auto simp: shortest_loop.simps match_loop.simps split: option.splits)

lemma wf_trie_lookup: "wf_trie t \<Longrightarrow> trie_lookup t = lookup_children (children t)"
  by (auto simp: wf_trie_def trie_lookup_def fun_eq_iff lookup_children_Nil_key)

lemma wf_node_matches: "wf_trie t \<Longrightarrow> node_matches t s [] = prefix_matches (trie_lookup t) s"
  by (auto simp: node_matches_def wf_trie_lookup) (simp add: wf_trie_def)

subsection \<open>The trie provides the prefix index\<close>

interpretation tri: prefix_index wf_trie newTrie trie_lookup trie_Insert trie_MatchAll
proof (unfold_locales, goal_cases)
  case 1
  show ?case by (simp add: wf_trie_def newTrie_def)
next
  case (2 k)
  show ?case by (simp add: trie_lookup_def newTrie_def)
next
  case (3 t k v)
  then obtain cs' where "insert_children k v (children t) = Inr cs'" "wf_children cs'"
    "\<forall>j. lookup_children cs' j = (if j = k then Some v else lookup_children (children t) j)"
    using insert_children_spec [of "children t" k v]
    by (auto simp: wf_trie_def trie_lookup_def insert_spec_def)
  with 3 show ?case
    by (auto simp: trie_Insert_def wf_trie_def trie_lookup_def fun_eq_iff)
next
  case (4 t k w v)
  then show ?case
    using insert_children_spec [of "children t" k v]
    by (auto simp: wf_trie_def trie_lookup_def insert_spec_def trie_Insert_def split: if_splits)
next
  case (5 t v)
  show ?case by (simp add: trie_Insert_def)
next
  case (6 t fn st s)
  then have "wf_children (children t)" by (simp add: wf_trie_def)
  then show ?case by (simp add: trie_MatchAll_def match_loop_run wf_node_matches [OF 6])
qed

lemma trie_Insert_outcome:
  assumes "wf_trie t"
  shows "trie_Insert t k v =
    (if k = [] then Inl ErrEmptyKey else if trie_lookup t k \<noteq> None then Inl ErrDuplicate
     else trie_Insert t k v)"
  using assms insert_children_spec [of "children t" k v]
  by (auto simp: trie_Insert_def wf_trie_def insert_spec_def trie_lookup_def split: option.splits)

text \<open>C20. An insertion into a well-formed trie refuses the empty key and a key it holds, each
  with its own error, and otherwise returns a well-formed trie that holds exactly one more key,
  whatever node splits the insertion makes.\<close>

theorem trie_insert_correct:
  assumes "wf_trie t"
  shows "(k = [] \<longrightarrow> trie_Insert t k v = Inl ErrEmptyKey) \<and>
    (k \<noteq> [] \<and> trie_lookup t k \<noteq> None \<longrightarrow> trie_Insert t k v = Inl ErrDuplicate) \<and>
    (k \<noteq> [] \<and> trie_lookup t k = None \<longrightarrow>
      (\<exists>t'. trie_Insert t k v = Inr t' \<and> wf_trie t' \<and> trie_lookup t' = (trie_lookup t)(k \<mapsto> v)))"
  using trie_Insert_outcome [OF assms, of k v] tri.ins_ok [OF assms, of k v] by auto

definition trie_example :: "nat node" where
  "trie_example =
     Node [] [Node ''/foo'' [Node ''bar'' [] (Some 1), Node ''x'' [] (Some 3)] (Some 2)] None"

theorem trie_insert_correct_witness:
  "wf_trie trie_example \<and>
   trie_Insert trie_example ''/foobaz'' 4 =
     Inr (Node [] [Node ''/foo'' [Node ''ba'' [Node ''r'' [] (Some 1), Node ''z'' [] (Some 4)] None,
       Node ''x'' [] (Some 3)] (Some 2)] None) \<and>
   trie_lookup trie_example ''/foobar'' = Some 1 \<and>
   trie_Insert trie_example ''/foobar'' 4 = Inl ErrDuplicate"
proof -
  have wf: "wf_trie trie_example" by (simp add: wf_trie_def trie_example_def)
  moreover have "trie_lookup trie_example ''/foobar'' = Some 1" by code_simp
  moreover have "trie_Insert trie_example ''/foobaz'' 4 =
     Inr (Node [] [Node ''/foo'' [Node ''ba'' [Node ''r'' [] (Some 1), Node ''z'' [] (Some 4)] None,
       Node ''x'' [] (Some 3)] (Some 2)] None)" by code_simp
  ultimately show ?thesis using trie_insert_correct [OF wf, of "''/foobar''" 4] by simp
qed

text \<open>C21. \<open>MatchAll\<close> calls its callback on exactly the stored prefixes of the searched string,
  shortest first, each with the value stored for it, and stops at the first call that returns
  true; \<open>ShortestMatch\<close> returns the first of these matches.\<close>

theorem trie_match_correct:
  assumes "wf_trie t"
  shows "trie_MatchAll fn st t s = run_cb fn st (prefix_matches (trie_lookup t) s) \<and>
    trie_ShortestMatch t s =
      (case prefix_matches (trie_lookup t) s of [] \<Rightarrow> None | m # _ \<Rightarrow> Some m)"
proof -
  have "wf_children (children t)" using assms by (simp add: wf_trie_def)
  then have "trie_ShortestMatch t s =
      fst (run_cb (\<lambda>_ v k. (Some (v, k), True)) None (prefix_matches (trie_lookup t) s))"
    by (simp add: trie_ShortestMatch_def shortest_loop_run match_loop_run wf_node_matches [OF assms])
  then show ?thesis
    by (simp add: tri.match_run [OF assms] split: list.splits prod.splits)
qed

theorem trie_match_correct_witness:
  "trie_MatchAll (\<lambda>acc v k. (acc @ [(v, k)], False)) [] trie_example ''/foobar/1'' =
     ([(2, ''/foo''), (1, ''/foobar'')], False) \<and>
   trie_ShortestMatch trie_example ''/foobar/1'' = Some (2, ''/foo'')"
proof -
  have wf: "wf_trie trie_example" by (simp add: wf_trie_def trie_example_def)
  have pm: "prefix_matches (trie_lookup trie_example) ''/foobar/1'' = [(2, ''/foo''), (1, ''/foobar'')]"
    by code_simp
  show ?thesis
    using trie_match_correct [OF wf, of "\<lambda>acc v k. (acc @ [(v, k)], False)" "[]" "''/foobar/1''"]
    by (simp add: pm)
qed

end
