(* ===== verification/Revoker.thy ===== *)
theory Revoker
  imports Radix_Trie
begin

section \<open>Token revocation: ext/revoker\<close>

text \<open>
  \<open>ext/revoker/revoker.go\<close>. Exact scopes live in \<open>revokeMaps\<close>, prefix scopes in the tries of
  \<open>revokeBuckets\<close>, newest first. The two atomic pointers are the two list fields. An operation
  that indexes element 0 of an empty slice panics, which is \<open>None\<close>. \<open>time.Now()\<close> is the
  argument \<open>now\<close>; \<open>t.Unix()\<close> rounds down to seconds.
\<close>

record revokeSet =
  rs_when :: int
  rs_reason :: string

record revokeMap =
  rm_since :: time
  rm_kvs :: "string \<rightharpoonup> revokeSet"

record revokeBucket =
  rb_since :: time
  rb_trie :: "revokeSet node"

record revoker =
  revokeRotateInterval :: duration
  revokeKeepBuckets :: nat
  revokeBuckets :: "revokeBucket list"
  revokeMaps :: "revokeMap list"

definition unix_sec :: "time \<Rightarrow> int" where
  "unix_sec t = t div second"

definition from_unix :: "int \<Rightarrow> time" where
  "from_unix s = s * second"

definition newRevoker :: "time \<Rightarrow> revoker" where
  "newRevoker now =
     \<lparr>revokeRotateInterval = 3600 * second, revokeKeepBuckets = 24,
      revokeBuckets = [\<lparr>rb_since = now, rb_trie = newTrie\<rparr>],
      revokeMaps = [\<lparr>rm_since = now, rm_kvs = Map.empty\<rparr>]\<rparr>"

text \<open>One tick of \<open>revokeRotator\<close>.\<close>

definition revokeRotate :: "time \<Rightarrow> revoker \<Rightarrow> revoker" where
  "revokeRotate now r =
     (let next = \<lparr>rb_since = now, rb_trie = newTrie\<rparr> # revokeBuckets r in
      r\<lparr>revokeBuckets :=
          (if length next > revokeKeepBuckets r then take (revokeKeepBuckets r) next else next)\<rparr>)"

definition revoker_Insert :: "string \<Rightarrow> time \<Rightarrow> string \<Rightarrow> revoker \<Rightarrow> revoker option" where
  "revoker_Insert scope t reason r =
     (case revokeMaps r of
        [] \<Rightarrow> None
      | m # ms \<Rightarrow> Some (r\<lparr>revokeMaps :=
          m\<lparr>rm_kvs := (rm_kvs m)(scope \<mapsto> \<lparr>rs_when = unix_sec t, rs_reason = reason\<rparr>)\<rparr> # ms\<rparr>))"

text \<open>\<open>InsertPrefix\<close> drops the error of \<open>trie.Insert\<close>.\<close>

definition revoker_InsertPrefix :: "string \<Rightarrow> time \<Rightarrow> string \<Rightarrow> revoker \<Rightarrow> revoker option" where
  "revoker_InsertPrefix scope t reason r =
     (case revokeBuckets r of
        [] \<Rightarrow> None
      | b # bs \<Rightarrow> Some (r\<lparr>revokeBuckets :=
          b\<lparr>rb_trie :=
              (case trie_Insert (rb_trie b) scope \<lparr>rs_when = unix_sec t, rs_reason = reason\<rparr> of
                 Inl e \<Rightarrow> rb_trie b | Inr t' \<Rightarrow> t')\<rparr> # bs\<rparr>))"

text \<open>The two fanout messages and the choice \<open>Revoke\<close> makes between them.\<close>

datatype revoke_msg = RevokeExact string time string | RevokePrefix string time string

definition revoke_message :: "string \<Rightarrow> time \<Rightarrow> string \<Rightarrow> revoke_msg" where
  "revoke_message scope t reason =
     (case index_of CHR ''*'' scope of
        None \<Rightarrow> RevokeExact scope t reason
      | Some idx \<Rightarrow> RevokePrefix (take idx scope) t reason)"

fun handle_revoke :: "revoke_msg \<Rightarrow> revoker \<Rightarrow> revoker option" where
  "handle_revoke (RevokeExact scope t reason) r = revoker_Insert scope t reason r"
| "handle_revoke (RevokePrefix scope t reason) r = revoker_InsertPrefix scope t reason r"

text \<open>\<open>isRevoked\<close> and \<open>isRevokedPrefix\<close>: \<open>(false, "")\<close> or \<open>(true, reason)\<close>.\<close>

fun isRevoked :: "revokeMap list \<Rightarrow> string \<Rightarrow> time \<Rightarrow> bool \<times> string" where
  "isRevoked [] scope issuedAt = (False, [])"
| "isRevoked (b # bs) scope issuedAt =
     (case rm_kvs b scope of
        Some t \<Rightarrow> if \<not> issuedAt > from_unix (rs_when t) then (True, rs_reason t)
                  else isRevoked bs scope issuedAt
      | None \<Rightarrow> isRevoked bs scope issuedAt)"

definition revoke_callback ::
  "time \<Rightarrow> bool \<times> string \<Rightarrow> revokeSet \<Rightarrow> string \<Rightarrow> (bool \<times> string) \<times> bool" where
  "revoke_callback issuedAt st v matched =
     (if \<not> issuedAt > from_unix (rs_when v) then ((True, rs_reason v), True) else (st, False))"

fun isRevokedPrefix :: "bool \<times> string \<Rightarrow> revokeBucket list \<Rightarrow> string \<Rightarrow> time \<Rightarrow> bool \<times> string" where
  "isRevokedPrefix st [] scope issuedAt = st"
| "isRevokedPrefix st (b # bs) scope issuedAt =
     (let (st', stopped) = trie_MatchAll (revoke_callback issuedAt) st (rb_trie b) scope in
      if stopped then st' else isRevokedPrefix st' bs scope issuedAt)"

definition IsRevoked :: "revoker \<Rightarrow> string \<Rightarrow> time \<Rightarrow> bool \<times> string" where
  "IsRevoked r scope issuedAt =
     (let (revoked, reason) = isRevoked (revokeMaps r) scope issuedAt in
      if revoked then (True, reason)
      else isRevokedPrefix (False, []) (revokeBuckets r) scope issuedAt)"

text \<open>
  The package variable \<open>revoker\<close> and the \<open>OnAuthZ\<close> hook: a call through the nil pointer panics
  (\<open>None\<close>). A token is its subject and its \<open>iat\<close> in seconds.
\<close>

datatype authz = Accepted | Refused string

definition OnAuthZ :: "bool \<Rightarrow> revoker option \<Rightarrow> string \<Rightarrow> int \<Rightarrow> authz option" where
  "OnAuthZ useLoginRevoke global subject issuedAt =
     (if useLoginRevoke then
        (case global of
           None \<Rightarrow> None
         | Some r \<Rightarrow> (let (revoked, reason) = IsRevoked r subject (from_unix issuedAt) in
                     if revoked then Some (Refused reason) else Some Accepted))
      else Some Accepted)"

subsection \<open>Well-formedness\<close>

definition wf_revoker :: "revoker \<Rightarrow> bool" where
  "wf_revoker r \<longleftrightarrow> revokeMaps r \<noteq> [] \<and> revokeBuckets r \<noteq> [] \<and> 0 < revokeKeepBuckets r \<and>
     length (revokeBuckets r) \<le> revokeKeepBuckets r \<and>
     (\<forall>b \<in> set (revokeBuckets r). wf_trie (rb_trie b))"

lemma wf_newRevoker [inv_intros]: "wf_revoker (newRevoker now)"
  using tri.inv_empty by (simp add: wf_revoker_def newRevoker_def)

lemma wf_revokeRotate [inv_intros]: "wf_revoker r \<Longrightarrow> wf_revoker (revokeRotate now r)"
  using tri.inv_empty
  by (auto simp: wf_revoker_def revokeRotate_def Let_def dest!: in_set_takeD)

lemma wf_handle_revoke [inv_intros]:
  assumes "wf_revoker r"
  shows "\<exists>r'. handle_revoke m r = Some r' \<and> wf_revoker r'"
proof (cases m)
  case (RevokeExact scope t reason)
  with assms show ?thesis
    by (cases "revokeMaps r") (auto simp: revoker_Insert_def wf_revoker_def)
next
  case (RevokePrefix scope t reason)
  obtain b bs where b: "revokeBuckets r = b # bs" "wf_trie (rb_trie b)"
    using assms by (cases "revokeBuckets r") (auto simp: wf_revoker_def)
  with assms RevokePrefix tri.ins_ignoring_error(1) [OF b(2)] show ?thesis
    by (auto simp: revoker_InsertPrefix_def wf_revoker_def)
qed

subsection \<open>What a revocation check answers\<close>

definition exact_hit :: "revoker \<Rightarrow> string \<Rightarrow> time \<Rightarrow> bool" where
  "exact_hit r scope issuedAt \<longleftrightarrow>
     (\<exists>m \<in> set (revokeMaps r). \<exists>v. rm_kvs m scope = Some v \<and> issuedAt \<le> from_unix (rs_when v))"

definition prefix_hit :: "revoker \<Rightarrow> string \<Rightarrow> time \<Rightarrow> bool" where
  "prefix_hit r scope issuedAt \<longleftrightarrow>
     (\<exists>b \<in> set (revokeBuckets r). \<exists>k v. prefix k scope \<and> trie_lookup (rb_trie b) k = Some v \<and>
        issuedAt \<le> from_unix (rs_when v))"

lemma fst_isRevoked:
  "fst (isRevoked ms scope issuedAt) \<longleftrightarrow>
     (\<exists>m \<in> set ms. \<exists>v. rm_kvs m scope = Some v \<and> issuedAt \<le> from_unix (rs_when v))"
  by (induction ms) (auto split: option.splits)

lemma revoke_callback_test:
  "revoke_callback issuedAt st v k =
    (if issuedAt \<le> from_unix (rs_when v) then ((True, rs_reason v), True) else (st, False))"
  by (simp add: revoke_callback_def not_less)

lemma match_stop_revoked:
  assumes "wf_trie t" and "snd (trie_MatchAll (revoke_callback issuedAt) st t scope)"
  shows "fst (fst (trie_MatchAll (revoke_callback issuedAt) st t scope))"
  using assms(2)
  by (auto simp: tri.match_run [OF assms(1)]
      run_cb_find [where fn = "revoke_callback issuedAt", OF revoke_callback_test]
      split: option.splits prod.splits)

lemma fst_isRevokedPrefix:
  "\<forall>b \<in> set bs. wf_trie (rb_trie b) \<Longrightarrow>
    fst (isRevokedPrefix (False, []) bs scope issuedAt) \<longleftrightarrow>
     (\<exists>b \<in> set bs. \<exists>k v. prefix k scope \<and> trie_lookup (rb_trie b) k = Some v \<and>
        issuedAt \<le> from_unix (rs_when v))"
proof (induction bs)
  case Nil
  then show ?case by simp
next
  case (Cons b bs)
  let ?m = "trie_MatchAll (revoke_callback issuedAt) (False, []) (rb_trie b) scope"
  have wf: "wf_trie (rb_trie b)" using Cons.prems by simp
  have test: "snd ?m \<longleftrightarrow> (\<exists>k v. prefix k scope \<and> trie_lookup (rb_trie b) k = Some v \<and>
      issuedAt \<le> from_unix (rs_when v))"
    by (rule tri.match_test [OF wf revoke_callback_test])
  show ?case
  proof (cases "snd ?m")
    case True
    with test match_stop_revoked [OF wf True] show ?thesis by (auto split: prod.splits)
  next
    case False
    then have "?m = ((False, []), False)" by (rule tri.match_no_stop [OF wf revoke_callback_test])
    with Cons False test show ?thesis by auto
  qed
qed

lemma IsRevoked_iff:
  "wf_revoker r \<Longrightarrow>
    fst (IsRevoked r scope issuedAt) \<longleftrightarrow> exact_hit r scope issuedAt \<or> prefix_hit r scope issuedAt"
  using fst_isRevoked [of "revokeMaps r" scope issuedAt]
    fst_isRevokedPrefix [of "revokeBuckets r" scope issuedAt]
  by (auto simp: IsRevoked_def exact_hit_def prefix_hit_def wf_revoker_def split: prod.splits)


lemma prefix_hit_cons:
  "revokeBuckets r = b # bs \<Longrightarrow> prefix_hit r s at \<longleftrightarrow>
     (\<exists>k v. prefix k s \<and> trie_lookup (rb_trie b) k = Some v \<and> at \<le> from_unix (rs_when v)) \<or>
     prefix_hit (r\<lparr>revokeBuckets := bs\<rparr>) s at"
  by (simp add: prefix_hit_def)

lemma exact_insert_effect:
  assumes "wf_revoker r" and "revoker_Insert scope t reason r = Some r'"
  shows "(s \<noteq> scope \<longrightarrow> fst (IsRevoked r' s at) = fst (IsRevoked r s at)) \<and>
    (at \<le> from_unix (unix_sec t) \<longrightarrow> fst (IsRevoked r' scope at))"
proof -
  obtain m ms where m: "revokeMaps r = m # ms"
    using assms(1) by (cases "revokeMaps r") (auto simp: wf_revoker_def)
  have r': "r' = r\<lparr>revokeMaps :=
      m\<lparr>rm_kvs := (rm_kvs m)(scope \<mapsto> \<lparr>rs_when = unix_sec t, rs_reason = reason\<rparr>)\<rparr> # ms\<rparr>"
    using assms(2) m by (simp add: revoker_Insert_def)
  have wf': "wf_revoker r'" using assms(1) by (simp add: r' wf_revoker_def)
  have p: "prefix_hit r' s at = prefix_hit r s at" for s by (simp add: r' prefix_hit_def)
  have "s \<noteq> scope \<Longrightarrow> exact_hit r' s at = exact_hit r s at" by (simp add: r' m exact_hit_def)
  moreover have "at \<le> from_unix (unix_sec t) \<Longrightarrow> exact_hit r' scope at"
    by (simp add: r' exact_hit_def)
  ultimately show ?thesis by (auto simp: IsRevoked_iff [OF wf'] IsRevoked_iff [OF assms(1)] p)
qed

lemma prefix_insert_effect:
  assumes "wf_revoker r" and "revoker_InsertPrefix scope t reason r = Some r'"
    and "revokeBuckets r = b # bs"
  shows "fst (IsRevoked r' s at) \<longleftrightarrow> fst (IsRevoked r s at) \<or>
    (scope \<noteq> [] \<and> trie_lookup (rb_trie b) scope = None \<and> prefix scope s \<and>
     at \<le> from_unix (unix_sec t))"
proof -
  have wfb: "wf_trie (rb_trie b)" using assms(1,3) by (simp add: wf_revoker_def)
  have wf': "wf_revoker r'"
    using wf_handle_revoke [OF assms(1), of "RevokePrefix scope t reason"] assms(2) by auto
  let ?t' = "case trie_Insert (rb_trie b) scope \<lparr>rs_when = unix_sec t, rs_reason = reason\<rparr> of
    Inl e \<Rightarrow> rb_trie b | Inr t' \<Rightarrow> t'"
  have r': "r' = r\<lparr>revokeBuckets := b\<lparr>rb_trie := ?t'\<rparr> # bs\<rparr>"
    using assms(2,3) by (simp add: revoker_InsertPrefix_def)
  have "exact_hit r' s at = exact_hit r s at" by (simp add: r' exact_hit_def)
  moreover have "prefix_hit r' s at \<longleftrightarrow> prefix_hit r s at \<or>
    (scope \<noteq> [] \<and> trie_lookup (rb_trie b) scope = None \<and> prefix scope s \<and>
     at \<le> from_unix (unix_sec t))"
    using tri.ins_ignoring_error(2)
      [OF wfb, of scope "\<lparr>rs_when = unix_sec t, rs_reason = reason\<rparr>"]
    by (auto simp: prefix_hit_def r' assms(3) split: if_splits)
  ultimately show ?thesis by (auto simp: IsRevoked_iff [OF wf'] IsRevoked_iff [OF assms(1)])
qed

text \<open>C22. Handling a revocation request. A request without a star revokes every token of exactly
  that subject issued up to the second of the request and changes nothing for other subjects. A
  request \<open>p*\<close> whose prefix is not empty and is not yet in the current bucket adds exactly the
  tokens of subjects that start with \<open>p\<close> issued up to that second.\<close>

theorem revoke_effect:
  assumes "wf_revoker r" and "handle_revoke (revoke_message scope t reason) r = Some r'"
  shows "(CHR ''*'' \<notin> set scope \<longrightarrow>
      (at \<le> from_unix (unix_sec t) \<longrightarrow> fst (IsRevoked r' scope at)) \<and>
      (s \<noteq> scope \<longrightarrow> fst (IsRevoked r' s at) = fst (IsRevoked r s at))) \<and>
    (\<forall>i. index_of CHR ''*'' scope = Some i \<and> take i scope \<noteq> [] \<and>
      trie_lookup (rb_trie (hd (revokeBuckets r))) (take i scope) = None \<longrightarrow>
      (fst (IsRevoked r' s at) \<longleftrightarrow> fst (IsRevoked r s at) \<or>
        (prefix (take i scope) s \<and> at \<le> from_unix (unix_sec t))))"
proof (cases "index_of CHR ''*'' scope")
  case None
  with assms(2) have "revoker_Insert scope t reason r = Some r'" by (simp add: revoke_message_def)
  from exact_insert_effect [OF assms(1) this] None show ?thesis by auto
next
  case (Some i)
  then have "CHR ''*'' \<in> set scope" using index_of_None [of "CHR ''*''" scope] by auto
  moreover have "revoker_InsertPrefix (take i scope) t reason r = Some r'"
    using assms(2) Some by (simp add: revoke_message_def)
  moreover obtain b bs where "revokeBuckets r = b # bs"
    using assms(1) by (cases "revokeBuckets r") (auto simp: wf_revoker_def)
  ultimately show ?thesis
    using prefix_insert_effect [OF assms(1), of "take i scope" t reason r' b bs s at] Some by auto
qed

theorem revoke_effect_witness:
  "fst (IsRevoked (the (handle_revoke (revoke_message ''tenant1/*'' (5 * second) ''leak'') (newRevoker 0)))
     ''tenant1/bob'' (5 * second)) \<and>
   \<not> fst (IsRevoked (newRevoker 0) ''tenant1/bob'' (5 * second))"
proof -
  let ?r = "newRevoker 0" and ?m = "revoke_message ''tenant1/*'' (5 * second) ''leak''"
  obtain r' where r': "handle_revoke ?m ?r = Some r'" using wf_handle_revoke [OF wf_newRevoker] by blast
  have i: "index_of CHR ''*'' ''tenant1/*'' = Some 8" by code_simp
  have e: "trie_lookup (rb_trie (hd (revokeBuckets ?r))) ''tenant1/'' = None"
    by (simp add: newRevoker_def tri.look_empty)
  have no: "\<not> fst (IsRevoked ?r ''tenant1/bob'' (5 * second))" by code_simp
  have "fst (IsRevoked r' ''tenant1/bob'' (5 * second)) \<longleftrightarrow>
      fst (IsRevoked ?r ''tenant1/bob'' (5 * second)) \<or>
      (prefix ''tenant1/'' ''tenant1/bob'' \<and> 5 * second \<le> from_unix (unix_sec (5 * second)))"
    using revoke_effect [OF wf_newRevoker r', of "5 * second" "''tenant1/bob''"] i e by simp
  then show ?thesis using r' no by (simp add: unix_sec_def from_unix_def)
qed

text \<open>Two requests are lost without an error: \<open>Revoke\<close> of the scope \<open>*\<close> (the empty prefix is
  refused by the trie), and a second revocation of a prefix the current bucket already holds,
  whatever its later time, so tokens issued between the two stay accepted.\<close>

theorem revoke_lost:
  assumes "wf_revoker r" and "index_of CHR ''*'' scope = Some i"
    and "take i scope = [] \<or> trie_lookup (rb_trie (hd (revokeBuckets r))) (take i scope) \<noteq> None"
  shows "handle_revoke (revoke_message scope t reason) r = Some r"
proof -
  obtain b bs where b: "revokeBuckets r = b # bs"
    using assms(1) by (cases "revokeBuckets r") (auto simp: wf_revoker_def)
  then have wfb: "wf_trie (rb_trie b)" using assms(1) by (simp add: wf_revoker_def)
  let ?v = "\<lparr>rs_when = unix_sec t, rs_reason = reason\<rparr>"
  have "\<exists>e. trie_Insert (rb_trie b) (take i scope) ?v = Inl e"
  proof (cases "take i scope = []")
    case True
    show ?thesis unfolding True by (rule tri.ins_nil)
  next
    case False
    with assms(3) b obtain w where "trie_lookup (rb_trie b) (take i scope) = Some w" by auto
    then show ?thesis by (rule tri.ins_dup [OF wfb])
  qed
  then obtain e where "trie_Insert (rb_trie b) (take i scope) ?v = Inl e" ..
  with b show ?thesis by (simp add: revoke_message_def assms(2) revoker_InsertPrefix_def)
qed

theorem revoke_lost_witness:
  "handle_revoke (revoke_message ''*'' (5 * second) ''all'') (newRevoker 0) = Some (newRevoker 0)"
proof -
  have i: "index_of CHR ''*'' ''*'' = Some 0" by simp
  show ?thesis using revoke_lost [OF wf_newRevoker i, of 0 "5 * second" "''all''"] by simp
qed

subsection \<open>Rotation\<close>

fun rotations :: "time list \<Rightarrow> revoker \<Rightarrow> revoker" where
  "rotations [] r = r"
| "rotations (t # ts) r = rotations ts (revokeRotate t r)"

lemma revokeRotate_fields [simp]:
  "revokeKeepBuckets (revokeRotate t r) = revokeKeepBuckets r"
  "revokeMaps (revokeRotate t r) = revokeMaps r"
  by (simp_all add: revokeRotate_def Let_def)

lemma prefix_hit_rotate:
  assumes "wf_revoker r"
  shows "revokeBuckets (revokeRotate t r) =
    \<lparr>rb_since = t, rb_trie = newTrie\<rparr> # take (revokeKeepBuckets r - 1) (revokeBuckets r)"
  using assms by (cases "revokeKeepBuckets r") (auto simp: revokeRotate_def Let_def wf_revoker_def)

lemma wf_rotations: "wf_revoker r \<Longrightarrow> wf_revoker (rotations ts r)"
  by (induction ts arbitrary: r) (auto intro: inv_intros)

lemma prefix_hit_rotations:
  "wf_revoker r \<Longrightarrow> prefix_hit (rotations ts r) s at \<longleftrightarrow>
    prefix_hit (r\<lparr>revokeBuckets := take (revokeKeepBuckets r - length ts) (revokeBuckets r)\<rparr>) s at"
proof (induction ts arbitrary: r)
  case Nil
  then show ?case by (simp add: wf_revoker_def prefix_hit_def)
next
  case (Cons t ts)
  then have "prefix_hit (rotations (t # ts) r) s at \<longleftrightarrow>
    prefix_hit ((revokeRotate t r)\<lparr>revokeBuckets :=
      take (revokeKeepBuckets r - length ts) (revokeBuckets (revokeRotate t r))\<rparr>) s at"
    by (simp add: wf_revokeRotate)
  also have "\<dots> \<longleftrightarrow> prefix_hit (r\<lparr>revokeBuckets :=
      take (revokeKeepBuckets r - length (t # ts)) (revokeBuckets r)\<rparr>) s at"
  proof (cases "revokeKeepBuckets r - length ts")
    case 0
    then show ?thesis by (simp add: prefix_hit_def)
  next
    case (Suc n)
    then have "revokeKeepBuckets r - Suc (length ts) = n" "min n (revokeKeepBuckets r - Suc 0) = n"
      by auto
    with Suc show ?thesis
      by (simp add: prefix_hit_def prefix_hit_rotate [OF Cons.prems] tri.look_empty)
  qed
  finally show ?case .
qed

text \<open>Rotation keeps the revocation state well-formed and never touches exact scopes, but it
  drops prefix rules: after as many rotations as buckets are kept (24 hourly ones) no prefix rule
  is left and only exact scopes still revoke.\<close>

theorem rotation_forgets_prefixes:
  assumes "wf_revoker r" and "revokeKeepBuckets r \<le> length ts"
  shows "wf_revoker (rotations ts r) \<and>
    (fst (IsRevoked (rotations ts r) s at) \<longleftrightarrow> exact_hit r s at)"
proof -
  have maps: "revokeMaps (rotations ts r) = revokeMaps r" by (induction ts arbitrary: r) auto
  have "\<not> prefix_hit (rotations ts r) s at"
    using prefix_hit_rotations [OF assms(1), of ts s at] assms(2) by (simp add: prefix_hit_def)
  moreover have "exact_hit (rotations ts r) s at = exact_hit r s at" by (simp add: exact_hit_def maps)
  ultimately show ?thesis
    using wf_rotations [OF assms(1)] IsRevoked_iff [OF wf_rotations [OF assms(1)], of ts s at] by simp
qed

theorem rotation_forgets_prefixes_witness:
  "\<not> fst (IsRevoked (rotations (replicate 24 0)
      (the (handle_revoke (revoke_message ''tenant1/*'' (5 * second) ''leak'') (newRevoker 0))))
     ''tenant1/bob'' (5 * second))"
proof -
  obtain r' where r': "handle_revoke (revoke_message ''tenant1/*'' (5 * second) ''leak'') (newRevoker 0) = Some r'"
    "wf_revoker r'"
    using wf_handle_revoke [OF wf_newRevoker] by blast
  then have k: "revokeKeepBuckets r' = 24" and m: "revokeMaps r' = revokeMaps (newRevoker 0)"
    by (auto simp: revoke_message_def revoker_InsertPrefix_def newRevoker_def)
  have "\<not> exact_hit r' ''tenant1/bob'' (5 * second)"
    by (simp add: exact_hit_def m newRevoker_def)
  then show ?thesis
    using rotation_forgets_prefixes [OF r'(2), of "replicate 24 0" "''tenant1/bob''" "5 * second"] r'(1) k
    by simp
qed

text \<open>The package variable \<open>revoker\<close> is never assigned, so with the configuration flag on, the
  authorisation hook panics for every token; with a revoker in place it refuses exactly the tokens
  an exact or a prefix rule covers, and with the flag off it accepts every token.\<close>

theorem onauthz_decision:
  assumes "\<And>r. global = Some r \<Longrightarrow> wf_revoker r"
  shows "OnAuthZ False global subject iat = Some Accepted \<and>
    (OnAuthZ True global subject iat = None \<longleftrightarrow> global = None) \<and>
    (\<forall>r. global = Some r \<longrightarrow>
      (OnAuthZ True global subject iat = Some Accepted \<longleftrightarrow>
        \<not> exact_hit r subject (from_unix iat) \<and> \<not> prefix_hit r subject (from_unix iat)))"
proof (cases global)
  case None
  then show ?thesis by (simp add: OnAuthZ_def)
next
  case (Some r)
  with assms have "wf_revoker r" by simp
  from IsRevoked_iff [OF this, of subject "from_unix iat"] Some show ?thesis
    by (cases "IsRevoked r subject (from_unix iat)") (auto simp: OnAuthZ_def)
qed

theorem onauthz_decision_witness:
  "OnAuthZ True None ''alice'' 7 = None \<and> OnAuthZ True (Some (newRevoker 0)) ''alice'' 7 = Some Accepted"
proof -
  have wf: "\<And>r. Some (newRevoker 0) = Some r \<Longrightarrow> wf_revoker r" using wf_newRevoker by auto
  have "\<not> exact_hit (newRevoker 0) ''alice'' (from_unix 7)" "\<not> prefix_hit (newRevoker 0) ''alice'' (from_unix 7)"
    by (auto simp: exact_hit_def prefix_hit_def newRevoker_def tri.look_empty)
  then show ?thesis
    using onauthz_decision [where global = None and subject = "''alice''" and iat = 7]
      onauthz_decision [where global = "Some (newRevoker 0)" and subject = "''alice''" and iat = 7, OF wf]
    by simp
qed

end
