(* ===== verification/Time_Wheel.thy ===== *)
theory Time_Wheel
  imports Prelude "HOL-Library.Signed_Division"
begin

section \<open>The time wheel: internal/timewheel\<close>

text \<open>
  \<open>internal/timewheel/timewheel.go\<close>. Tasks are shared pointers (a caller may cancel one while
  it sits in a slot), so the wheel has a heap \<open>tw_heap\<close> of tasks and the slots hold indices
  into it. A callback is an opaque value. Go's \<open>/\<close> and \<open>%\<close> truncate: they are \<open>sdiv\<close> and
  \<open>smod\<close>. Division by a zero interval, a negative slot index and a ticker with a non-positive
  interval panic (\<open>None\<close>). The lock makes each operation atomic.
\<close>

record 'f twTask =
  rounds :: int
  delay :: duration
  tfn :: 'f
  canceled :: bool

record 'f timeWheel =
  slots :: "nat list list"
  current :: nat
  tickInterval :: duration
  tw_heap :: "'f twTask list"

definition tw_New :: "int \<Rightarrow> duration \<Rightarrow> 'f timeWheel" where
  "tw_New slotCount interval =
     (let n = (if slotCount \<le> 0 then 32 else slotCount) in
      \<lparr>slots = replicate (nat n) [], current = 0, tickInterval = interval, tw_heap = []\<rparr>)"

definition tw_ticks :: "duration \<Rightarrow> duration \<Rightarrow> int" where
  "tw_ticks d interval =
     (let ticks = d sdiv interval in if ticks < 1 \<and> d > 0 then 1 else ticks)"

definition tw_Add :: "duration \<Rightarrow> 'f \<Rightarrow> 'f timeWheel \<Rightarrow> (nat \<times> 'f timeWheel) option" where
  "tw_Add d f w =
     (if tickInterval w = 0 then None
      else
        let slotCount = int (length (slots w));
            ticks = tw_ticks d (tickInterval w);
            idx = (int (current w) + ticks) smod slotCount;
            t = length (tw_heap w)
        in if idx < 0 then None
           else Some (t, w\<lparr>slots := (slots w)[nat idx := slots w ! nat idx @ [t]],
                          tw_heap := tw_heap w @ [\<lparr>rounds = ticks sdiv slotCount, delay = d,
                                                   tfn = f, canceled = False\<rparr>]\<rparr>))"

definition tw_Cancel :: "nat \<Rightarrow> 'f timeWheel \<Rightarrow> 'f timeWheel" where
  "tw_Cancel t w = w\<lparr>tw_heap := (tw_heap w)[t := (tw_heap w ! t)\<lparr>canceled := True\<rparr>]\<rparr>"

definition tw_Reset :: "nat \<Rightarrow> duration \<Rightarrow> 'f timeWheel \<Rightarrow> (nat \<times> 'f timeWheel) option" where
  "tw_Reset t d w = (let w' = tw_Cancel t w in tw_Add d (tfn (tw_heap w' ! t)) w')"

text \<open>One tick: the loop over the current slot, giving the heap, the kept tasks and the tasks to run.\<close>

fun tick_scan :: "'f twTask list \<Rightarrow> nat list \<Rightarrow> 'f twTask list \<times> nat list \<times> nat list" where
  "tick_scan h [] = (h, [], [])"
| "tick_scan h (t # ts) =
     (if canceled (h ! t) then tick_scan h ts
      else if rounds (h ! t) > 0 then
        (case tick_scan (h[t := (h ! t)\<lparr>rounds := rounds (h ! t) - 1\<rparr>]) ts of
           (h', kept, run) \<Rightarrow> (h', t # kept, run))
      else (case tick_scan h ts of (h', kept, run) \<Rightarrow> (h', kept, t # run)))"

definition tw_tick :: "'f timeWheel \<Rightarrow> nat list \<times> 'f timeWheel" where
  "tw_tick w =
     (case tick_scan (tw_heap w) (slots w ! current w) of
        (h', kept, run) \<Rightarrow>
          (run, w\<lparr>slots := (slots w)[current w := kept],
                  current := (current w + 1) mod length (slots w), tw_heap := h'\<rparr>))"

text \<open>The goroutine of a task that ran: it is added again when its callback returned true.\<close>

definition tw_ran :: "nat \<Rightarrow> bool \<Rightarrow> 'f timeWheel \<Rightarrow> 'f timeWheel option" where
  "tw_ran t again w =
     (if again then map_option snd (tw_Add (delay (tw_heap w ! t)) (tfn (tw_heap w ! t)) w)
      else Some w)"

text \<open>Everything that can happen to a wheel, and a run: the tasks started by each tick.\<close>

datatype 'f tw_event = TwTick | TwAdd duration 'f | TwCancel nat | TwReset nat duration | TwRan nat bool

definition quiet :: "'f timeWheel option \<Rightarrow> (nat list option \<times> 'f timeWheel) option" where
  "quiet r = map_option (Pair None) r"

fun tw_step :: "'f tw_event \<Rightarrow> 'f timeWheel \<Rightarrow> (nat list option \<times> 'f timeWheel) option" where
  "tw_step TwTick w = (case tw_tick w of (run, w') \<Rightarrow> Some (Some run, w'))"
| "tw_step (TwAdd d f) w = quiet (map_option snd (tw_Add d f w))"
| "tw_step (TwCancel t) w = quiet (Some (tw_Cancel t w))"
| "tw_step (TwReset t d) w = quiet (map_option snd (tw_Reset t d w))"
| "tw_step (TwRan t again) w = quiet (tw_ran t again w)"

fun tw_run :: "'f tw_event list \<Rightarrow> 'f timeWheel \<Rightarrow> (nat list list \<times> 'f timeWheel) option" where
  "tw_run [] w = Some ([], w)"
| "tw_run (e # es) w =
     (case tw_step e w of
        None \<Rightarrow> None
      | Some (fired, w') \<Rightarrow>
          map_option (\<lambda>(rs, w''). (case fired of None \<Rightarrow> rs | Some run \<Rightarrow> run # rs, w'')) (tw_run es w'))"

subsection \<open>The invariant and the ticks left to a task\<close>

definition wf_wheel :: "'f timeWheel \<Rightarrow> bool" where
  "wf_wheel w \<longleftrightarrow> current w < length (slots w) \<and> 0 < tickInterval w \<and>
     (\<forall>i < length (slots w). distinct (slots w ! i) \<and>
        (\<forall>t \<in> set (slots w ! i). t < length (tw_heap w))) \<and>
     (\<forall>i < length (slots w). \<forall>j < length (slots w). i \<noteq> j \<longrightarrow>
        set (slots w ! i) \<inter> set (slots w ! j) = {})"

definition tw_due :: "'f timeWheel \<Rightarrow> nat \<Rightarrow> nat \<Rightarrow> nat" where
  "tw_due w t i = (i + length (slots w) - current w) mod length (slots w) +
     nat (rounds (tw_heap w ! t)) * length (slots w)"

text \<open>\<open>waiting w t d\<close>: task \<open>t\<close> is live, sits in a slot, and \<open>d\<close> ticks pass before the one that runs it.\<close>

definition waiting :: "'f timeWheel \<Rightarrow> nat \<Rightarrow> nat \<Rightarrow> bool" where
  "waiting w t d \<longleftrightarrow> \<not> canceled (tw_heap w ! t) \<and>
     (\<exists>i < length (slots w). t \<in> set (slots w ! i) \<and> tw_due w t i = d)"

definition retired :: "'f timeWheel \<Rightarrow> nat \<Rightarrow> bool" where
  "retired w t \<longleftrightarrow> t < length (tw_heap w) \<and>
     (canceled (tw_heap w ! t) \<or> (\<forall>i < length (slots w). t \<notin> set (slots w ! i)))"

lemma tick_scan_spec:
  assumes "distinct ts" and "\<forall>t \<in> set ts. t < length h"
  shows "case tick_scan h ts of (h', kept, run) \<Rightarrow>
    run = filter (\<lambda>t. \<not> canceled (h ! t) \<and> rounds (h ! t) \<le> 0) ts \<and>
    kept = filter (\<lambda>t. \<not> canceled (h ! t) \<and> 0 < rounds (h ! t)) ts \<and>
    length h' = length h \<and>
    (\<forall>t. h' ! t = (if t \<in> set kept then (h ! t)\<lparr>rounds := rounds (h ! t) - 1\<rparr> else h ! t))"
  using assms
proof (induction h ts rule: tick_scan.induct)
  case (1 h)
  then show ?case by simp
next
  case (2 h t ts)
  show ?case
  proof (cases "\<not> canceled (h ! t) \<and> 0 < rounds (h ! t)")
    case True
    let ?h = "h[t := (h ! t)\<lparr>rounds := rounds (h ! t) - 1\<rparr>]"
    have f: "filter (\<lambda>u. \<not> canceled (?h ! u) \<and> rounds (?h ! u) \<le> 0) ts =
        filter (\<lambda>u. \<not> canceled (h ! u) \<and> rounds (h ! u) \<le> 0) ts"
      "filter (\<lambda>u. \<not> canceled (?h ! u) \<and> 0 < rounds (?h ! u)) ts =
        filter (\<lambda>u. \<not> canceled (h ! u) \<and> 0 < rounds (h ! u)) ts"
      using "2.prems" by (auto intro!: filter_cong simp: nth_list_update)
    from True 2 f show ?thesis by (auto split: prod.splits simp: nth_list_update)
  next
    case False
    with 2 show ?thesis by (auto split: prod.splits)
  qed
qed

lemma tw_tick_eq:
  assumes "wf_wheel w"
  defines "ts \<equiv> slots w ! current w" and "h \<equiv> tw_heap w"
  shows "fst (tw_tick w) = filter (\<lambda>t. \<not> canceled (h ! t) \<and> rounds (h ! t) \<le> 0) ts"
    and "slots (snd (tw_tick w)) =
      (slots w)[current w := filter (\<lambda>t. \<not> canceled (h ! t) \<and> 0 < rounds (h ! t)) ts]"
    and "current (snd (tw_tick w)) = (current w + 1) mod length (slots w)"
    and "tickInterval (snd (tw_tick w)) = tickInterval w"
    and "length (tw_heap (snd (tw_tick w))) = length h"
    and "tw_heap (snd (tw_tick w)) ! t =
      (if t \<in> set ts \<and> \<not> canceled (h ! t) \<and> 0 < rounds (h ! t)
       then (h ! t)\<lparr>rounds := rounds (h ! t) - 1\<rparr> else h ! t)"
proof -
  have "distinct ts" "\<forall>t \<in> set ts. t < length h"
    using assms by (auto simp: wf_wheel_def)
  from tick_scan_spec [OF this]
  show "fst (tw_tick w) = filter (\<lambda>t. \<not> canceled (h ! t) \<and> rounds (h ! t) \<le> 0) ts"
    "slots (snd (tw_tick w)) =
      (slots w)[current w := filter (\<lambda>t. \<not> canceled (h ! t) \<and> 0 < rounds (h ! t)) ts]"
    "current (snd (tw_tick w)) = (current w + 1) mod length (slots w)"
    "tickInterval (snd (tw_tick w)) = tickInterval w"
    "length (tw_heap (snd (tw_tick w))) = length h"
    "tw_heap (snd (tw_tick w)) ! t =
      (if t \<in> set ts \<and> \<not> canceled (h ! t) \<and> 0 < rounds (h ! t)
       then (h ! t)\<lparr>rounds := rounds (h ! t) - 1\<rparr> else h ! t)"
    by (auto simp: tw_tick_def ts_def h_def split: prod.splits)
qed

lemma offset_mod:
  assumes "i < n" "c < (n::nat)"
  shows "(i + n - c) mod n = (if c \<le> i then i - c else i + n - c)"
proof (cases "c \<le> i")
  case True
  then have "i + n - c = (i - c) + n" by simp
  with True assms show ?thesis by (metis less_imp_diff_less mod_add_self2 mod_less)
next
  case False
  with assms show ?thesis by simp
qed

lemma offset_step:
  assumes "i < n" "c < (n::nat)"
  shows "(i + n - c) mod n =
    (if i = c then 0 else Suc ((i + n - (c + 1) mod n) mod n))"
    and "i = c \<Longrightarrow> (i + n - (c + 1) mod n) mod n = n - 1"
proof -
  have c': "(c + 1) mod n = (if c + 1 = n then 0 else c + 1)" using assms by auto
  then have "(c + 1) mod n < n" using assms by auto
  note o = offset_mod [OF assms(1,2)] offset_mod [OF assms(1) this]
  show "(i + n - c) mod n = (if i = c then 0 else Suc ((i + n - (c + 1) mod n) mod n))"
    unfolding o unfolding c' using assms by auto
  show "i = c \<Longrightarrow> (i + n - (c + 1) mod n) mod n = n - 1"
    unfolding o unfolding c' using assms by auto
qed

lemma wf_wheel_slot:
  "wf_wheel w \<Longrightarrow> i < length (slots w) \<Longrightarrow> j < length (slots w) \<Longrightarrow> t \<in> set (slots w ! i) \<Longrightarrow>
    t \<in> set (slots w ! j) \<Longrightarrow> i = j"
  unfolding wf_wheel_def by blast

lemma wf_tick [inv_intros]:
  assumes "wf_wheel w"
  shows "wf_wheel (snd (tw_tick w))"
proof -
  have c: "current w < length (slots w)" using assms by (simp add: wf_wheel_def)
  then have "(current w + 1) mod length (slots w) < length (slots w)"
    by (intro mod_less_divisor) auto
  with assms c show ?thesis
    by (simp add: wf_wheel_def tw_tick_eq [OF assms] nth_list_update) blast
qed

lemma waiting_tick:
  assumes wf: "wf_wheel w" and w: "waiting w t d"
  shows "t \<in> set (fst (tw_tick w)) \<longleftrightarrow> d = 0"
    and "d = Suc e \<Longrightarrow> waiting (snd (tw_tick w)) t e"
    and "d = 0 \<Longrightarrow> retired (snd (tw_tick w)) t"
proof -
  let ?n = "length (slots w)" and ?c = "current w" and ?w' = "snd (tw_tick w)"
  obtain i where i: "i < ?n" "t \<in> set (slots w ! i)" "tw_due w t i = d"
    and live: "\<not> canceled (tw_heap w ! t)"
    using w by (auto simp: waiting_def)
  have c: "?c < ?n" using wf by (simp add: wf_wheel_def)
  have tl: "t < length (tw_heap w)" using wf i by (auto simp: wf_wheel_def)
  have in_cur: "t \<in> set (slots w ! ?c) \<longleftrightarrow> i = ?c" using wf_wheel_slot [OF wf i(1) c i(2)] i(2) by auto
  have d0: "d = 0 \<longleftrightarrow> i = ?c \<and> rounds (tw_heap w ! t) \<le> 0"
  proof -
    have "(i + ?n - ?c) mod ?n = 0 \<longleftrightarrow> i = ?c" unfolding offset_step(1) [OF i(1) c] by simp
    with i(3) c show ?thesis unfolding tw_due_def by auto
  qed
  show "t \<in> set (fst (tw_tick w)) \<longleftrightarrow> d = 0"
    using in_cur live d0 by (auto simp: tw_tick_eq [OF wf])
  show "retired ?w' t" if "d = 0"
  proof -
    have "t \<notin> set (slots w ! j)" if "j < ?n" "j \<noteq> ?c" for j
      using wf_wheel_slot [OF wf i(1) that(1) i(2)] d0 \<open>d = 0\<close> that(2) by auto
    with d0 that tl c show ?thesis by (auto simp: retired_def tw_tick_eq [OF wf] nth_list_update)
  qed
  show "waiting ?w' t e" if "d = Suc e"
  proof (cases "i = ?c")
    case True
    with that d0 have r: "0 < rounds (tw_heap w ! t)" by auto
    then have "nat (rounds (tw_heap w ! t)) = Suc (nat (rounds (tw_heap w ! t) - 1))" by simp
    with True i(1,3) that offset_step [OF i(1) c]
    have "(i + ?n - (?c + 1) mod ?n) mod ?n + nat (rounds (tw_heap w ! t) - 1) * ?n = e"
      by (simp add: tw_due_def)
    with True i(1,2) r live c show ?thesis
      by (auto simp: waiting_def tw_due_def tw_tick_eq [OF wf] intro!: exI [of _ i])
  next
    case False
    with i(3) that offset_step(1) [OF i(1) c]
    have "(i + ?n - (?c + 1) mod ?n) mod ?n + nat (rounds (tw_heap w ! t)) * ?n = e"
      by (simp add: tw_due_def)
    with False i(1,2) live in_cur show ?thesis
      by (auto simp: waiting_def tw_due_def tw_tick_eq [OF wf] intro!: exI [of _ i])
  qed
qed

lemma retired_tick:
  assumes "wf_wheel w" "retired w t"
  shows "t \<notin> set (fst (tw_tick w))" and "retired (snd (tw_tick w)) t"
  using assms by (auto simp: retired_def tw_tick_eq [OF assms(1)] nth_list_update wf_wheel_def)

lemma sdiv_nonneg: "0 \<le> a \<Longrightarrow> 0 < b \<Longrightarrow> (a::int) sdiv b = a div b"
  by (cases "a = 0") (auto simp: signed_divide_int_def)

lemma smod_nonneg: "0 \<le> a \<Longrightarrow> 0 < b \<Longrightarrow> (a::int) smod b = a mod b"
  by (cases "a = 0") (auto simp: signed_modulo_int_def)

lemma smod_less: "0 < b \<Longrightarrow> (a::int) smod b < b"
  by (cases a "0::int" rule: linorder_cases)
    (auto simp: signed_modulo_int_def intro: le_less_trans [where y = 0])

lemma tw_ticks_nonneg:
  "0 \<le> d \<Longrightarrow> 0 < iv \<Longrightarrow> tw_ticks d iv = (if d = 0 then 0 else max 1 (d div iv))"
  by (auto simp: tw_ticks_def sdiv_nonneg Let_def max_def)

text \<open>The shape of a successful addition: one slot grows by the new task.\<close>

lemma tw_Add_shape:
  assumes wf: "wf_wheel w" and a: "tw_Add d f w = Some (t, w')"
  obtains i where "i < length (slots w)" "t = length (tw_heap w)"
    "slots w' = (slots w)[i := slots w ! i @ [t]]" "current w' = current w"
    "tickInterval w' = tickInterval w"
    "tw_heap w' = tw_heap w @ [\<lparr>rounds = tw_ticks d (tickInterval w) sdiv int (length (slots w)),
       delay = d, tfn = f, canceled = False\<rparr>]"
    "int i = (int (current w) + tw_ticks d (tickInterval w)) smod int (length (slots w))"
proof -
  let ?idx = "(int (current w) + tw_ticks d (tickInterval w)) smod int (length (slots w))"
  have n: "0 < length (slots w)" using wf by (auto simp: wf_wheel_def)
  then have "?idx < int (length (slots w))" by (intro smod_less) simp
  moreover have idx: "0 \<le> ?idx" using a by (auto simp: tw_Add_def Let_def split: if_splits)
  ultimately have "nat ?idx < length (slots w)" by (simp add: nat_less_iff)
  then show ?thesis
    by (rule that [of "nat ?idx"])
      (use a idx in \<open>auto simp: tw_Add_def Let_def split: if_splits\<close>)
qed

lemma wf_Add [inv_intros]:
  assumes wf: "wf_wheel w" and a: "tw_Add d f w = Some (t, w')"
  shows "wf_wheel w'"
proof (rule tw_Add_shape [OF wf a], goal_cases)
  case (1 i)
  let ?n = "length (slots w)" and ?h = "length (tw_heap w)"
  have slot: "slots w' ! j = (if j = i then slots w ! i @ [?h] else slots w ! j)" if "j < ?n" for j
    using 1 that by (simp add: nth_list_update)
  have old: "u < ?h" if "j < ?n" "u \<in> set (slots w ! j)" for j u
    using wf that by (simp add: wf_wheel_def)
  have dist: "distinct (slots w ! j)" if "j < ?n" for j using wf that by (simp add: wf_wheel_def)
  have "distinct (slots w' ! j)" if "j < ?n" for j
    using slot [OF that] dist [OF that] old [OF that] by auto
  moreover have "u < length (tw_heap w')" if "j < ?n" "u \<in> set (slots w' ! j)" for j u
    using slot [OF that(1)] old [OF that(1)] that(2) 1(6) by (auto split: if_splits simp: less_SucI)
  moreover have "set (slots w' ! j) \<inter> set (slots w' ! k) = {}" if "j < ?n" "k < ?n" "j \<noteq> k" for j k
    using slot [OF that(1)] slot [OF that(2)] old [OF that(1)] old [OF that(2)] that(3)
      wf_wheel_slot [OF wf that(1,2)] by (auto split: if_splits)
  ultimately show ?case using wf 1(1,3,4,5) by (simp add: wf_wheel_def)
qed

lemma old_task_Add:
  assumes wf: "wf_wheel w" and a: "tw_Add d f w = Some (t, w')" and u: "u < length (tw_heap w)"
  shows "canceled (tw_heap w' ! u) = canceled (tw_heap w ! u)"
    and "j < length (slots w) \<Longrightarrow> u \<in> set (slots w' ! j) \<longleftrightarrow> u \<in> set (slots w ! j)"
    and "length (slots w') = length (slots w)"
    and "tw_due w' u j = tw_due w u j"
    and "length (tw_heap w) < length (tw_heap w')"
  by (rule tw_Add_shape [OF wf a]; use u in \<open>auto simp: nth_append nth_list_update tw_due_def\<close>)+

lemma waiting_bound: "wf_wheel w \<Longrightarrow> waiting w t d \<Longrightarrow> t < length (tw_heap w)"
  by (auto simp: waiting_def wf_wheel_def)

lemma waiting_Add:
  assumes "wf_wheel w" "tw_Add d f w = Some (t, w')" "waiting w u e"
  shows "waiting w' u e"
  using assms(3) old_task_Add [OF assms(1,2) waiting_bound [OF assms(1,3)]] by (auto simp: waiting_def)

lemma retired_Add:
  assumes "wf_wheel w" "tw_Add d f w = Some (t, w')" "retired w u"
  shows "retired w' u"
proof -
  have "u < length (tw_heap w)" using assms(3) by (simp add: retired_def)
  from assms(3) old_task_Add [OF assms(1,2) this] show ?thesis by (auto simp: retired_def)
qed

lemma wf_Cancel [inv_intros]: "wf_wheel w \<Longrightarrow> wf_wheel (tw_Cancel t w)"
  by (simp add: wf_wheel_def tw_Cancel_def)

lemma waiting_Cancel: "waiting w u d \<Longrightarrow> u \<noteq> t \<Longrightarrow> waiting (tw_Cancel t w) u d"
  by (simp add: waiting_def tw_Cancel_def tw_due_def)

lemma retired_Cancel: "retired w u \<Longrightarrow> retired (tw_Cancel t w) u"
  by (cases "u = t") (auto simp: retired_def tw_Cancel_def)

lemma Cancel_retires: "t < length (tw_heap w) \<Longrightarrow> retired (tw_Cancel t w) t"
  by (simp add: retired_def tw_Cancel_def)

lemma waiting_new:
  assumes wf: "wf_wheel w" and a: "tw_Add d f w = Some (t, w')" and d: "0 \<le> d"
  shows "waiting w' t (nat (tw_ticks d (tickInterval w)))"
proof (rule tw_Add_shape [OF wf a], goal_cases)
  case (1 i)
  let ?n = "length (slots w)" and ?c = "current w"
  have iv: "0 < tickInterval w" and c: "?c < ?n" using wf by (auto simp: wf_wheel_def)
  then have "0 \<le> tw_ticks d (tickInterval w)" using d by (simp add: tw_ticks_nonneg le_max_iff_disj)
  then obtain k where k: "tw_ticks d (tickInterval w) = int k" by (rule nonneg_int_cases)
  have n: "0 < ?n" using c by auto
  have "int i = (int ?c + int k) mod int ?n" using 1(7) n by (simp add: k smod_nonneg)
  then have i: "i = (?c + k) mod ?n" by (metis of_nat_add of_nat_eq_iff zmod_int)
  have "int (((?c + k) mod ?n + ?n - ?c) mod ?n) = ((int ?c + int k) mod int ?n + int ?n - int ?c) mod int ?n"
    using c by (simp add: zmod_int)
  also have "\<dots> = ((int ?c + int k) mod int ?n - int ?c + int ?n) mod int ?n"
    by (simp add: algebra_simps)
  also have "\<dots> = (int ?c + int k - int ?c) mod int ?n"
    by (simp only: mod_add_self2 mod_diff_left_eq)
  also have "\<dots> = int (k mod ?n)" by (simp add: zmod_int)
  finally have m: "((?c + k) mod ?n + ?n - ?c) mod ?n = k mod ?n" by simp
  have "nat (int k sdiv int ?n) = k div ?n" using n by (simp add: sdiv_nonneg zdiv_int [symmetric])
  with 1 m show ?case by (auto simp: i k waiting_def tw_due_def nth_append intro!: exI [of _ i])
qed

lemma tw_Add_succeeds:
  assumes "wf_wheel w" "0 \<le> d"
  shows "\<exists>w'. tw_Add d f w = Some (length (tw_heap w), w')"
proof -
  have "0 < tickInterval w" "0 < int (length (slots w))" using assms(1) by (auto simp: wf_wheel_def)
  moreover from this assms(2) have "0 \<le> (int (current w) + tw_ticks d (tickInterval w)) smod int (length (slots w))"
    by (subst smod_nonneg) (auto simp: tw_ticks_nonneg)
  ultimately show ?thesis by (simp add: tw_Add_def Let_def)
qed

lemma tw_step_cases:
  assumes "tw_step e w = Some (fired, w')"
  obtains "e = TwTick" "fired = Some (fst (tw_tick w))" "w' = snd (tw_tick w)"
  | "e \<noteq> TwTick" "fired = None"
  using assms by (cases e) (auto simp: quiet_def split: prod.splits)

lemma wf_step [inv_intros]:
  "wf_wheel w \<Longrightarrow> tw_step e w = Some (fired, w') \<Longrightarrow> wf_wheel w'"
  by (cases e)
    (auto simp: quiet_def tw_Reset_def tw_ran_def Let_def split: if_splits prod.splits
      intro: wf_Add wf_Cancel dest: wf_tick)

lemma retired_step:
  "wf_wheel w \<Longrightarrow> retired w u \<Longrightarrow> tw_step e w = Some (fired, w') \<Longrightarrow> retired w' u"
  by (cases e)
    (auto simp: quiet_def tw_Reset_def tw_ran_def Let_def split: if_splits prod.splits
      intro: retired_Add wf_Cancel retired_Cancel dest: retired_tick(2))

lemma waiting_step:
  "wf_wheel w \<Longrightarrow> waiting w u d \<Longrightarrow> e \<noteq> TwTick \<Longrightarrow> e \<noteq> TwCancel u \<and> (\<forall>d. e \<noteq> TwReset u d) \<Longrightarrow>
    tw_step e w = Some (fired, w') \<Longrightarrow> waiting w' u d"
  by (cases e)
    (auto simp: quiet_def tw_Reset_def tw_ran_def Let_def split: if_splits
      intro: waiting_Add wf_Cancel waiting_Cancel)

lemma tw_run_ConsE:
  assumes "tw_run (e # es) w = Some (fired, w')"
  obtains f v rs where "tw_step e w = Some (f, v)" "tw_run es v = Some (rs, w')"
    "fired = (case f of None \<Rightarrow> rs | Some run \<Rightarrow> run # rs)"
  using assms by (auto split: option.splits)

lemma retired_run:
  "tw_run es w = Some (fired, w') \<Longrightarrow> wf_wheel w \<Longrightarrow> retired w t \<Longrightarrow> m < length fired \<Longrightarrow>
    t \<notin> set (fired ! m)"
proof (induction es arbitrary: w fired m)
  case Nil
  then show ?case by simp
next
  case (Cons e es)
  obtain f v rs where s: "tw_step e w = Some (f, v)" "tw_run es v = Some (rs, w')"
    "fired = (case f of None \<Rightarrow> rs | Some run \<Rightarrow> run # rs)"
    using Cons.prems(1) by (rule tw_run_ConsE)
  have IH: "n < length rs \<Longrightarrow> t \<notin> set (rs ! n)" for n
    by (rule Cons.IH [OF s(2) wf_step [OF Cons.prems(2) s(1)] retired_step [OF Cons.prems(2,3) s(1)]])
  from s(1) show ?case
  proof (cases rule: tw_step_cases)
    case 1
    then show ?thesis
      using s(3) Cons.prems(4) IH retired_tick(1) [OF Cons.prems(2,3)] by (cases m) auto
  next
    case 2
    then show ?thesis using s(3) Cons.prems(4) IH by simp
  qed
qed

lemma waiting_run:
  "tw_run es w = Some (fired, w') \<Longrightarrow> wf_wheel w \<Longrightarrow> waiting w t d \<Longrightarrow>
    \<forall>e \<in> set es. e \<noteq> TwCancel t \<and> (\<forall>d. e \<noteq> TwReset t d) \<Longrightarrow> m < length fired \<Longrightarrow>
    t \<in> set (fired ! m) \<longleftrightarrow> m = d"
proof (induction es arbitrary: w fired m d)
  case Nil
  then show ?case by simp
next
  case (Cons e es)
  obtain f v rs where s: "tw_step e w = Some (f, v)" "tw_run es v = Some (rs, w')"
    "fired = (case f of None \<Rightarrow> rs | Some run \<Rightarrow> run # rs)"
    using Cons.prems(1) by (rule tw_run_ConsE)
  note wf = wf_step [OF Cons.prems(2) s(1)]
  have es: "\<forall>e \<in> set es. e \<noteq> TwCancel t \<and> (\<forall>d. e \<noteq> TwReset t d)" using Cons.prems(4) by simp
  from s(1) show ?case
  proof (cases rule: tw_step_cases)
    case 1
    show ?thesis
    proof (cases d)
      case 0
      have "n < length rs \<Longrightarrow> t \<notin> set (rs ! n)" for n
        using retired_run [OF s(2) wf] waiting_tick(3) [OF Cons.prems(2,3) 0] 1(3) by simp
      with 0 1 s(3) Cons.prems(5) waiting_tick(1) [OF Cons.prems(2,3)] show ?thesis by (cases m) auto
    next
      case (Suc d')
      have "n < length rs \<Longrightarrow> t \<in> set (rs ! n) \<longleftrightarrow> n = d'" for n
        using Cons.IH [OF s(2) wf _ es] waiting_tick(2) [OF Cons.prems(2,3) Suc] 1(3) by simp
      with Suc 1 s(3) Cons.prems(5) waiting_tick(1) [OF Cons.prems(2,3)] show ?thesis by (cases m) auto
    qed
  next
    case 2
    have "waiting v t d" using waiting_step [OF Cons.prems(2,3) 2(1) _ s(1)] Cons.prems(4) by simp
    from Cons.IH [OF s(2) wf this es] 2 s(3) Cons.prems(5) show ?thesis by simp
  qed
qed

text \<open>C23. Adding a task with a delay of \<open>k\<close> whole ticks (at least one for a positive delay) to a
  well-formed wheel succeeds, and over any later run that does not cancel or reset it, whatever
  else is added, cancelled, reset or run again, the task is started by tick number \<open>k\<close> after the
  addition (counting from 0) and by no other.\<close>

theorem wheel_fires_exactly:
  assumes "wf_wheel w" and "0 \<le> d"
  shows "\<exists>t w'. tw_Add d f w = Some (t, w') \<and> wf_wheel w' \<and>
    (\<forall>es fired w''. tw_run es w' = Some (fired, w'') \<and>
       (\<forall>e \<in> set es. e \<noteq> TwCancel t \<and> (\<forall>d'. e \<noteq> TwReset t d')) \<longrightarrow>
       (\<forall>m < length fired. t \<in> set (fired ! m) \<longleftrightarrow>
          int m = (if d = 0 then 0 else max 1 (d div tickInterval w))))"
proof -
  obtain w' where a: "tw_Add d f w = Some (length (tw_heap w), w')"
    using tw_Add_succeeds [OF assms] by blast
  have iv: "0 < tickInterval w" using assms(1) by (simp add: wf_wheel_def)
  note wf' = wf_Add [OF assms(1) a]
  have "m < length fired \<Longrightarrow> length (tw_heap w) \<in> set (fired ! m) \<longleftrightarrow>
      int m = (if d = 0 then 0 else max 1 (d div tickInterval w))"
    if "tw_run es w' = Some (fired, w'')"
      "\<forall>e \<in> set es. e \<noteq> TwCancel (length (tw_heap w)) \<and> (\<forall>d'. e \<noteq> TwReset (length (tw_heap w)) d')"
    for es fired w'' m
    using waiting_run [OF that(1) wf' waiting_new [OF assms(1) a assms(2)] that(2)]
    by (auto simp: tw_ticks_nonneg [OF assms(2) iv])
  with a wf' show ?thesis by blast
qed

lemma wf_New: "0 < iv \<Longrightarrow> wf_wheel (tw_New n iv)"
  by (simp add: wf_wheel_def tw_New_def Let_def)

theorem wheel_fires_exactly_witness:
  "\<exists>t w'. tw_Add (7 * second) ''ping'' (tw_New 3 second) = Some (t, w') \<and>
     (\<exists>fired w''. tw_run (replicate 9 TwTick) w' = Some (fired, w'') \<and>
        t \<in> set (fired ! 7) \<and> t \<notin> set (fired ! 6))"
proof -
  have wf: "wf_wheel (tw_New 3 second :: string timeWheel)" by (rule wf_New) simp
  have iv: "tickInterval (tw_New 3 second :: string timeWheel) = second" by (simp add: tw_New_def)
  have "\<exists>t w'. tw_Add (7 * second) ''ping'' (tw_New 3 second) = Some (t, w') \<and>
    (\<forall>es fired w''. tw_run es w' = Some (fired, w'') \<and>
       (\<forall>e \<in> set es. e \<noteq> TwCancel t \<and> (\<forall>d'. e \<noteq> TwReset t d')) \<longrightarrow>
       (\<forall>m < length fired. t \<in> set (fired ! m) \<longleftrightarrow> int m = 7))"
    using wheel_fires_exactly [OF wf, of "7 * second" "''ping''"] unfolding iv by simp blast
  then obtain t w' where a: "tw_Add (7 * second) ''ping'' (tw_New 3 second) = Some (t, w')"
    and run: "\<And>es fired w''. tw_run es w' = Some (fired, w'') \<Longrightarrow>
       (\<forall>e \<in> set es. e \<noteq> TwCancel t \<and> (\<forall>d'. e \<noteq> TwReset t d')) \<Longrightarrow>
       (\<forall>m < length fired. t \<in> set (fired ! m) \<longleftrightarrow> int m = 7)"
    by blast
  have ticks: "\<exists>fired w''. tw_run (replicate n TwTick) v = Some (fired, w'') \<and> length fired = n"
    for n and v :: "string timeWheel"
  proof (induction n arbitrary: v)
    case (Suc n)
    obtain rs w'' where "tw_run (replicate n TwTick) (snd (tw_tick v)) = Some (rs, w'')" "length rs = n"
      using Suc.IH by blast
    then show ?case by (cases "tw_tick v") simp
  qed simp
  obtain fired w'' where f: "tw_run (replicate 9 TwTick) w' = Some (fired, w'')" "length fired = 9"
    using ticks [of 9 w'] by auto
  from run [OF f(1)] f(2) have "\<forall>m < 9. t \<in> set (fired ! m) \<longleftrightarrow> int m = 7" by auto
  then have "t \<in> set (fired ! 7)" "t \<notin> set (fired ! 6)" by auto
  with a f show ?thesis by blast
qed

text \<open>A cancelled task never runs again, whatever happens to the wheel afterwards; a reset
  cancels the task and starts its callback instead after the new delay.\<close>

theorem wheel_cancel:
  assumes "wf_wheel w" and "t < length (tw_heap w)" and "0 \<le> d"
  shows "(tw_run es (tw_Cancel t w) = Some (fired, w'') \<longrightarrow> (\<forall>run \<in> set fired. t \<notin> set run)) \<and>
    (\<exists>t' w'. tw_Reset t d w = Some (t', w') \<and> t' \<noteq> t \<and> retired w' t \<and>
       tfn (tw_heap w' ! t') = tfn (tw_heap w ! t) \<and>
       waiting w' t' (nat (tw_ticks d (tickInterval w))))"
proof (intro conjI impI ballI)
  fix run assume "tw_run es (tw_Cancel t w) = Some (fired, w'')" "run \<in> set fired"
  then show "t \<notin> set run"
    using retired_run [OF _ wf_Cancel [OF assms(1)] Cancel_retires [OF assms(2)]]
    by (metis in_set_conv_nth)
next
  note wf = wf_Cancel [OF assms(1), of t]
  let ?f = "tfn (tw_heap (tw_Cancel t w) ! t)"
  obtain w' where a: "tw_Add d ?f (tw_Cancel t w) = Some (length (tw_heap (tw_Cancel t w)), w')"
    using tw_Add_succeeds [OF wf assms(3)] by blast
  have l: "length (tw_heap (tw_Cancel t w)) = length (tw_heap w)"
    and iv: "tickInterval (tw_Cancel t w) = tickInterval w"
    and f: "?f = tfn (tw_heap w ! t)" using assms(2) by (simp_all add: tw_Cancel_def)
  have "tfn (tw_heap w' ! length (tw_heap w)) = tfn (tw_heap w ! t)"
    by (rule tw_Add_shape [OF wf a]) (use l f in \<open>simp add: nth_append\<close>)
  then show "\<exists>t' w'. tw_Reset t d w = Some (t', w') \<and> t' \<noteq> t \<and> retired w' t \<and>
       tfn (tw_heap w' ! t') = tfn (tw_heap w ! t) \<and>
       waiting w' t' (nat (tw_ticks d (tickInterval w)))"
    using a l assms(2) retired_Add [OF wf a Cancel_retires [OF assms(2)]] waiting_new [OF wf a assms(3)] iv
    by (auto simp: tw_Reset_def Let_def)
qed

theorem wheel_cancel_witness:
  "\<exists>t w. tw_Add (2 * second) ''ping'' (tw_New 3 second) = Some (t, w) \<and>
     (\<forall>fired w'. tw_run (replicate 9 TwTick) (tw_Cancel t w) = Some (fired, w') \<longrightarrow>
        (\<forall>run \<in> set fired. t \<notin> set run))"
proof -
  have wf: "wf_wheel (tw_New 3 second :: string timeWheel)" by (rule wf_New) simp
  obtain w where a: "tw_Add (2 * second) ''ping'' (tw_New 3 second :: string timeWheel) = Some (0, w)"
    using tw_Add_succeeds [OF wf, of "2 * second" "''ping''"] by (auto simp: tw_New_def)
  have "0 < length (tw_heap w)" by (rule tw_Add_shape [OF wf a]) simp
  from wheel_cancel [OF wf_Add [OF wf a] this, of 0 "replicate 9 TwTick"] a show ?thesis by auto
qed

end
