(* ===== verification/Rand_Cron.thy ===== *)
theory Rand_Cron
  imports Prelude "HOL-Library.Word"
begin

unbundle bit_operations_syntax

section \<open>Randomised cron expressions: internal/randcron\<close>

text \<open>
  \<open>internal/randcron/randcron.go\<close>. Expressions and seeds are ASCII byte strings. The hash is
  the 32-bit FNV-1a of the standard library, computed on words; the range arithmetic is on a
  64-bit \<open>int\<close> with its wrap-around written out, and a zero modulus panics (\<open>None\<close>).
\<close>

datatype cron_error = FieldCount | InvalidRandomRange string | BadNumber string
  | InvalidRange string | UnsupportedRandom string

definition wrap64 :: "int \<Rightarrow> int" where
  "wrap64 x = (x + 2 ^ 63) mod 2 ^ 64 - 2 ^ 63"

text \<open>\<open>strings.Fields\<close> on ASCII text.\<close>

fun fields_from :: "string \<Rightarrow> string \<Rightarrow> string list" where
  "fields_from cur [] = (if cur = [] then [] else [cur])"
| "fields_from cur (c # cs) =
     (if is_space c then (if cur = [] then fields_from [] cs else cur # fields_from [] cs)
      else fields_from (cur @ [c]) cs)"

definition string_fields :: "string \<Rightarrow> string list" where
  "string_fields s = fields_from [] s"

text \<open>\<open>fnv.New32a\<close>, \<open>Write\<close> and \<open>Sum32\<close>.\<close>

definition fnv32a :: "string \<Rightarrow> 32 word" where
  "fnv32a s = foldl (\<lambda>h c. (h XOR of_nat (of_char c)) * 16777619) 2166136261 s"

definition randomInRange :: "string \<Rightarrow> nat \<Rightarrow> int \<Rightarrow> int \<Rightarrow> int option" where
  "randomInRange seed pos lo hi =
     (let n = uint (fnv32a (seed @ '':'' @ itoa (int pos)));
          m = wrap64 (hi - lo + 1)
      in if m = 0 then None else Some (wrap64 (lo + n mod \<bar>m\<bar>)))"

definition expandField :: "string \<Rightarrow> int \<Rightarrow> int \<Rightarrow> string \<Rightarrow> nat \<Rightarrow> (cron_error + string) option" where
  "expandField field lo hi seed pos =
     (if CHR ''?'' \<notin> set field then Some (Inr field)
      else if field = ''?'' then map_option (\<lambda>n. Inr (itoa n)) (randomInRange seed pos lo hi)
      else if suffix ''?'' field then
        (case split_on CHR ''-'' (trim_suffix ''?'' field) of
           [a, b] \<Rightarrow>
             (case atoi a of
                None \<Rightarrow> Some (Inl (BadNumber a))
              | Some start \<Rightarrow>
                  (case atoi b of
                     None \<Rightarrow> Some (Inl (BadNumber b))
                   | Some end' \<Rightarrow>
                       if start > end' then Some (Inl (InvalidRange field))
                       else map_option (\<lambda>n. Inr (itoa n)) (randomInRange seed pos start end')))
         | _ \<Rightarrow> Some (Inl (InvalidRandomRange field)))
      else Some (Inl (UnsupportedRandom field)))"

definition cron_ranges :: "(int \<times> int) list" where
  "cron_ranges = [(0, 59), (0, 23), (1, 31), (1, 12), (0, 6)]"

text \<open>The loop over the fields, left to right, with the position of the next field.\<close>

fun expand_fields ::
  "string \<Rightarrow> nat \<Rightarrow> (string \<times> int \<times> int) list \<Rightarrow> (cron_error + string list) option" where
  "expand_fields seed i [] = Some (Inr [])"
| "expand_fields seed i ((f, lo, hi) # fs) =
     (case expandField f lo hi seed i of
        None \<Rightarrow> None
      | Some (Inl e) \<Rightarrow> Some (Inl e)
      | Some (Inr v) \<Rightarrow>
          (case expand_fields seed (Suc i) fs of
             None \<Rightarrow> None
           | Some (Inl e) \<Rightarrow> Some (Inl e)
           | Some (Inr vs) \<Rightarrow> Some (Inr (v # vs))))"

definition Expand :: "string \<Rightarrow> string \<Rightarrow> (cron_error + string) option" where
  "Expand expr seed =
     (let fields = string_fields expr in
      if length fields \<noteq> 5 then Some (Inl FieldCount)
      else (case expand_fields seed 0 (zip fields cron_ranges) of
              None \<Rightarrow> None
            | Some (Inl e) \<Rightarrow> Some (Inl e)
            | Some (Inr vs) \<Rightarrow> Some (Inr (join_with '' '' vs))))"

subsection \<open>Fields\<close>

definition plain_field :: "string \<Rightarrow> bool" where
  "plain_field f \<longleftrightarrow> f \<noteq> [] \<and> (\<forall>c \<in> set f. \<not> is_space c)"

lemma fields_from_plain:
  "\<forall>c \<in> set cur. \<not> is_space c \<Longrightarrow> f \<in> set (fields_from cur s) \<Longrightarrow> plain_field f"
proof (induction cur s rule: fields_from.induct)
  case (1 cur)
  then show ?case by (simp add: plain_field_def split: if_splits)
next
  case (2 cur c cs)
  show ?case
  proof (cases "is_space c")
    case True
    with 2 show ?thesis by (auto simp: plain_field_def split: if_splits)
  next
    case False
    with 2 show ?thesis by simp
  qed
qed

lemma fields_from_word:
  "\<forall>c \<in> set f. \<not> is_space c \<Longrightarrow> fields_from cur (f @ s) = fields_from (cur @ f) s"
  by (induction f arbitrary: cur) auto

lemma string_fields_join:
  "\<forall>f \<in> set vs. plain_field f \<Longrightarrow> string_fields (join_with '' '' vs) = vs"
  unfolding string_fields_def
proof (induction "'' ''" vs rule: join_with.induct)
  case 1
  then show ?case by simp
next
  case (2 f)
  then show ?case using fields_from_word [of f "[]" "[]"] by (simp add: plain_field_def)
next
  case (3 f g fs)
  then show ?case
    using fields_from_word [of f "[]" "'' '' @ join_with '' '' (g # fs)"]
    by (simp add: plain_field_def is_space_def)
qed

lemma plain_itoa: "plain_field (itoa i)" "CHR ''?'' \<notin> set (itoa i)"
proof -
  have "\<not> is_space c" if "c \<in> set (itoa i)" for c
    using itoa_chars [OF that] by (auto simp: is_space_def is_digit_def)
  then show "plain_field (itoa i)" by (simp add: plain_field_def)
  show "CHR ''?'' \<notin> set (itoa i)"
    using itoa_chars [of "CHR ''?''" i] by (auto simp: is_digit_def)
qed

subsection \<open>Ranges\<close>

lemma wrap64_id: "in_int64 x \<Longrightarrow> wrap64 x = x"
  by (simp add: wrap64_def in_int64_def)

lemma in_int64_between: "in_int64 lo \<Longrightarrow> in_int64 hi \<Longrightarrow> lo \<le> n \<Longrightarrow> n \<le> hi \<Longrightarrow> in_int64 n"
  by (simp add: in_int64_def)

lemma wrap64_high:
  assumes "2 ^ 63 \<le> x" "x < 2 ^ 64 + 2 ^ 63"
  shows "wrap64 x = x - 2 ^ 64"
proof -
  have "(x + 2 ^ 63) mod 2 ^ 64 = (x - 2 ^ 63 + 2 ^ 64) mod 2 ^ 64"
    by (simp add: add.commute)
  also have "\<dots> = (x - 2 ^ 63) mod 2 ^ 64" by (rule mod_add_self2)
  also have "\<dots> = x - 2 ^ 63" using assms by (intro mod_pos_pos_trivial) auto
  finally show ?thesis by (simp add: wrap64_def)
qed

lemma wrap64_span:
  assumes "in_int64 lo" "in_int64 hi" "lo \<le> hi"
  shows "wrap64 (hi - lo + 1) =
    (if hi - lo + 1 < 2 ^ 63 then hi - lo + 1 else hi - lo + 1 - 2 ^ 64)"
proof (cases "hi - lo + 1 < 2 ^ 63")
  case True
  with assms(3) show ?thesis by (simp add: wrap64_id in_int64_def)
next
  case False
  with assms show ?thesis using wrap64_high [of "hi - lo + 1"] by (simp add: in_int64_def)
qed

lemma randomInRange_None:
  assumes "in_int64 lo" "in_int64 hi" "lo \<le> hi"
  shows "randomInRange seed pos lo hi = None \<longleftrightarrow> hi - lo + 1 = 2 ^ 64"
  using assms(3) by (auto simp: randomInRange_def Let_def wrap64_span [OF assms])

lemma randomInRange_bounds:
  assumes "in_int64 lo" "in_int64 hi" "lo \<le> hi" and r: "randomInRange seed pos lo hi = Some n"
  shows "lo \<le> n \<and> n \<le> hi"
proof -
  define h where "h = uint (fnv32a (seed @ '':'' @ itoa (int pos)))"
  define m where "m = wrap64 (hi - lo + 1)"
  have h: "0 \<le> h" "h < 2 ^ 32"
    using uint_lt2p [of "fnv32a (seed @ '':'' @ itoa (int pos))"] by (simp_all add: h_def)
  have m0: "m \<noteq> 0" and n: "n = wrap64 (lo + h mod \<bar>m\<bar>)"
    using r by (auto simp: randomInRange_def h_def m_def Let_def split: if_splits)
  define q where "q = h mod \<bar>m\<bar>"
  have q: "q \<le> h" "q < \<bar>m\<bar>" "0 \<le> q"
    using h(1) m0 by (simp_all add: q_def zmod_le_nonneg_dividend)
  have "h < 2 ^ 63" using h(2) by (rule less_le_trans) simp
  moreover have "m = hi - lo + 1 \<or> hi - lo + 1 \<ge> 2 ^ 63"
    using wrap64_span [OF assms(1-3)] by (auto simp: m_def)
  ultimately have "lo + q \<le> hi" using q assms(3) by linarith
  moreover have "lo \<le> lo + q" using q(3) by simp
  ultimately have "in_int64 (lo + q)" using in_int64_between [OF assms(1,2)] by blast
  then have "n = lo + q" unfolding n q_def [symmetric] by (rule wrap64_id)
  with \<open>lo + q \<le> hi\<close> \<open>lo \<le> lo + q\<close> show ?thesis by simp
qed

subsection \<open>Expansion\<close>

text \<open>What a field of the result may be, for a field of the input and its position's range.\<close>

definition field_ok :: "string \<Rightarrow> int \<Rightarrow> int \<Rightarrow> string \<Rightarrow> bool" where
  "field_ok f lo hi v \<longleftrightarrow>
     (CHR ''?'' \<notin> set f \<and> v = f) \<or>
     (f = ''?'' \<and> (\<exists>n. v = itoa n \<and> lo \<le> n \<and> n \<le> hi)) \<or>
     (\<exists>a b start end' n. f = a @ ''-'' @ b @ ''?'' \<and> atoi a = Some start \<and> atoi b = Some end' \<and>
        v = itoa n \<and> start \<le> n \<and> n \<le> end')"

lemma atoi_range: "atoi s = Some n \<Longrightarrow> in_int64 n"
  by (auto simp: atoi_def Let_def split: option.splits if_splits prod.splits)

lemma trim_question: "suffix ''?'' f \<Longrightarrow> f = trim_suffix ''?'' f @ ''?''"
  by (auto simp: trim_suffix_def suffix_def)

lemma expandField_ok:
  assumes "in_int64 lo" "in_int64 hi" "lo \<le> hi"
    and e: "expandField f lo hi seed pos = Some (Inr v)" and p: "plain_field f"
  shows "field_ok f lo hi v \<and> plain_field v \<and> CHR ''?'' \<notin> set v"
proof -
  consider "CHR ''?'' \<notin> set f" | "f = ''?''" | "CHR ''?'' \<in> set f" "f \<noteq> ''?''" by blast
  then show ?thesis
  proof cases
    case 1
    with e p show ?thesis by (simp add: expandField_def field_ok_def)
  next
    case 2
    with e obtain n where "randomInRange seed pos lo hi = Some n" "v = itoa n"
      by (auto simp: expandField_def)
    with 2 randomInRange_bounds [OF assms(1-3)] show ?thesis
      by (auto simp: field_ok_def plain_itoa)
  next
    case 3
    with e have s: "suffix ''?'' f" by (auto simp: expandField_def split: if_splits)
    with e 3 obtain a b start end' n where ab: "split_on CHR ''-'' (trim_suffix ''?'' f) = [a, b]"
      "atoi a = Some start" "atoi b = Some end'" "start \<le> end'"
      "randomInRange seed pos start end' = Some n" "v = itoa n"
      by (auto simp: expandField_def split: list.splits option.splits if_splits)
    have "trim_suffix ''?'' f = a @ ''-'' @ b"
      using join_split_on [of "CHR ''-''" "trim_suffix ''?'' f"] ab(1) by simp
    then have "f = a @ ''-'' @ b @ ''?''" using trim_question [OF s] by simp
    moreover have "start \<le> n \<and> n \<le> end'"
      using randomInRange_bounds [OF atoi_range [OF ab(2)] atoi_range [OF ab(3)] ab(4,5)] .
    ultimately have "field_ok f lo hi v" unfolding field_ok_def using ab(2,3,6) by blast
    then show ?thesis by (simp add: ab(6) plain_itoa)
  qed
qed

lemma expand_fields_ok:
  "expand_fields seed i fs = Some (Inr vs) \<Longrightarrow>
    \<forall>(f, lo, hi) \<in> set fs. plain_field f \<and> in_int64 lo \<and> in_int64 hi \<and> lo \<le> hi \<Longrightarrow>
    list_all2 (\<lambda>(f, lo, hi) v. field_ok f lo hi v \<and> plain_field v \<and> CHR ''?'' \<notin> set v) fs vs"
proof (induction seed i fs arbitrary: vs rule: expand_fields.induct)
  case (1 seed i)
  then show ?case by simp
next
  case (2 seed i f lo hi fs)
  then obtain v ws where v: "expandField f lo hi seed i = Some (Inr v)"
    "expand_fields seed (Suc i) fs = Some (Inr ws)" "vs = v # ws"
    by (auto split: option.splits sum.splits)
  with 2 expandField_ok [of lo hi f seed i v] show ?case by simp
qed

text \<open>When \<open>Expand\<close> succeeds, the result splits into five fields again, none holds a question
  mark, a field without one is unchanged, \<open>?\<close> has become a number of its position's range and
  \<open>a-b?\<close> a number between \<open>a\<close> and \<open>b\<close> (whatever the position's range is), for every seed.\<close>

theorem expand_in_range:
  assumes "Expand expr seed = Some (Inr s)"
  shows "length (string_fields expr) = 5 \<and> length (string_fields s) = 5 \<and>
    (\<forall>i < 5. CHR ''?'' \<notin> set (string_fields s ! i) \<and>
       field_ok (string_fields expr ! i) (fst (cron_ranges ! i)) (snd (cron_ranges ! i))
         (string_fields s ! i))"
proof -
  let ?fs = "string_fields expr"
  have l: "length ?fs = 5" using assms by (auto simp: Expand_def Let_def split: if_splits)
  then obtain vs where vs: "expand_fields seed 0 (zip ?fs cron_ranges) = Some (Inr vs)"
    and s: "s = join_with '' '' vs"
    using assms by (auto simp: Expand_def Let_def split: option.splits sum.splits)
  have plain: "f \<in> set ?fs \<Longrightarrow> plain_field f" for f
    using fields_from_plain [of "[]" f expr] by (simp add: string_fields_def)
  have "list_all2 (\<lambda>(f, lo, hi) v. field_ok f lo hi v \<and> plain_field v \<and> CHR ''?'' \<notin> set v)
      (zip ?fs cron_ranges) vs"
  proof (rule expand_fields_ok [OF vs], clarify)
    fix f lo hi assume z: "(f, lo, hi) \<in> set (zip ?fs cron_ranges)"
    show "plain_field f \<and> in_int64 lo \<and> in_int64 hi \<and> lo \<le> hi"
      using plain [OF set_zip_leftD [OF z]] set_zip_rightD [OF z]
      by (auto simp: cron_ranges_def in_int64_def)
  qed
  then have all: "length vs = 5"
    "\<And>i. i < 5 \<Longrightarrow> field_ok (?fs ! i) (fst (cron_ranges ! i)) (snd (cron_ranges ! i)) (vs ! i) \<and>
       plain_field (vs ! i) \<and> CHR ''?'' \<notin> set (vs ! i)"
    using l by (auto simp: list_all2_conv_all_nth cron_ranges_def case_prod_beta)
  then have "string_fields s = vs"
    unfolding s by (intro string_fields_join) (auto simp: in_set_conv_nth)
  with all l show ?thesis by simp
qed

theorem expand_in_range_witness:
  "Expand ''? 10-20? * * 1'' ''job'' = Some (Inr ''10 16 * * 1'') \<and>
   field_ok (string_fields ''? 10-20? * * 1'' ! 1) 0 23 (string_fields ''10 16 * * 1'' ! 1)"
proof -
  have e: "Expand ''? 10-20? * * 1'' ''job'' = Some (Inr ''10 16 * * 1'')" by code_simp
  have "field_ok (string_fields ''? 10-20? * * 1'' ! 1) (fst (cron_ranges ! 1)) (snd (cron_ranges ! 1))
      (string_fields ''10 16 * * 1'' ! 1)"
    using expand_in_range [OF e] by auto
  with e show ?thesis by (simp add: cron_ranges_def)
qed

end
