(* ===== verification/Ema.thy ===== *)
theory Ema
  imports Complex_Main
begin

section \<open>The exponential moving average: internal/ema\<close>

text \<open>
  \<open>internal/ema/ema.go\<close>. The job manager feeds it the id gap of every dequeue. A \<open>float64\<close>
  is an exact rational here; rounding is not modelled.
\<close>

record emaCalculator =
  CurrentAverage :: rat
  Alpha :: rat
  IsInitialized :: bool

definition newEMACalculator :: "rat \<Rightarrow> emaCalculator" where
  "newEMACalculator alpha = \<lparr>CurrentAverage = 0, Alpha = alpha, IsInitialized = False\<rparr>"

definition ema_Update :: "rat \<Rightarrow> emaCalculator \<Rightarrow> emaCalculator" where
  "ema_Update x e =
     (if \<not> IsInitialized e then e\<lparr>CurrentAverage := x, IsInitialized := True\<rparr>
      else e\<lparr>CurrentAverage := Alpha e * x + (1 - Alpha e) * CurrentAverage e\<rparr>)"

lemma convex_bounds:
  fixes a x y :: rat
  assumes "0 \<le> a" "a \<le> 1" "lo \<le> x" "x \<le> hi" "lo \<le> y" "y \<le> hi"
  shows "lo \<le> a * x + (1 - a) * y \<and> a * x + (1 - a) * y \<le> hi"
proof -
  have "a * lo \<le> a * x" "(1 - a) * lo \<le> (1 - a) * y" "a * x \<le> a * hi" "(1 - a) * y \<le> (1 - a) * hi"
    using assms by (auto intro!: mult_left_mono)
  moreover have "a * lo + (1 - a) * lo = lo" "a * hi + (1 - a) * hi = hi"
    by (simp_all add: algebra_simps)
  ultimately show ?thesis by linarith
qed

definition ema_run :: "rat list \<Rightarrow> emaCalculator \<Rightarrow> emaCalculator" where
  "ema_run xs e = fold ema_Update xs e"

lemma ema_run_bounds:
  "0 \<le> Alpha e \<Longrightarrow> Alpha e \<le> 1 \<Longrightarrow> IsInitialized e \<Longrightarrow> lo \<le> CurrentAverage e \<Longrightarrow>
    CurrentAverage e \<le> hi \<Longrightarrow> \<forall>x \<in> set xs. lo \<le> x \<and> x \<le> hi \<Longrightarrow>
    lo \<le> CurrentAverage (fold ema_Update xs e) \<and> CurrentAverage (fold ema_Update xs e) \<le> hi"
proof (induction xs arbitrary: e)
  case Nil
  then show ?case by simp
next
  case (Cons x xs)
  have "lo \<le> CurrentAverage (ema_Update x e) \<and> CurrentAverage (ema_Update x e) \<le> hi"
    using Cons.prems convex_bounds [of "Alpha e" lo x hi "CurrentAverage e"]
    by (simp add: ema_Update_def)
  moreover have "Alpha (ema_Update x e) = Alpha e" "IsInitialized (ema_Update x e)"
    using Cons.prems by (simp_all add: ema_Update_def)
  ultimately show ?case using Cons.IH [of "ema_Update x e"] Cons.prems by simp
qed

text \<open>With a smoothing factor between 0 and 1 the average never leaves the range of the
  values it was fed, and its first value is taken as it is.\<close>

theorem ema_in_range:
  assumes "0 \<le> \<alpha>" and "\<alpha> \<le> 1" and "xs \<noteq> []" and "\<forall>x \<in> set xs. lo \<le> x \<and> x \<le> hi"
  shows "lo \<le> CurrentAverage (ema_run xs (newEMACalculator \<alpha>)) \<and>
    CurrentAverage (ema_run xs (newEMACalculator \<alpha>)) \<le> hi \<and>
    CurrentAverage (ema_run [hd xs] (newEMACalculator \<alpha>)) = hd xs"
proof -
  obtain x ys where xs: "xs = x # ys" using assms(3) by (cases xs) auto
  let ?e = "ema_Update x (newEMACalculator \<alpha>)"
  have "Alpha ?e = \<alpha>" "IsInitialized ?e" "CurrentAverage ?e = x"
    by (simp_all add: ema_Update_def newEMACalculator_def)
  with ema_run_bounds [of ?e lo hi ys] assms xs show ?thesis by (simp add: ema_run_def)
qed

end
