(* ===== verification/Job_Table.thy ===== *)
theory Job_Table
  imports Prelude "HOL-Library.AList"
begin

section \<open>The tables of the job store\<close>

text \<open>
  The schema of \<open>callSQLStrategy.Init\<close> in \<open>typedhandler_job_sql.go\<close>: \<open>executions\<close> with the
  three triggers that keep \<open>execution_counts\<close>, and \<open>executions_results\<close>. A table is the list of
  its rows in insertion order. A column the code can leave NULL is an option; \<open>parentid\<close> and
  \<open>rootid\<close> are always bound to a Go string, so they are strings. The code's timestamps compare
  as times. \<open>execution_counts\<close> is an association list keyed by root id and status.
\<close>

text \<open>\<open>statusQueued\<close> to \<open>statusError\<close> and \<open>sqlStatusCodeStrings\<close>.\<close>

abbreviation statusQueued :: int where "statusQueued \<equiv> 0"
abbreviation statusLeased :: int where "statusLeased \<equiv> 1"
abbreviation statusDone :: int where "statusDone \<equiv> 2"
abbreviation statusError :: int where "statusError \<equiv> 3"

definition sqlStatusCodeStrings :: "string list" where
  "sqlStatusCodeStrings = [''queued'', ''leased'', ''done'', ''error'']"

record jobMeta =
  m_version :: string
  m_status :: int
  m_parent :: string
  m_root :: string
  m_ttl :: "time option"
  m_priority :: int

record exec_row =
  e_id :: int
  e_key :: string
  e_handler :: string
  e_version :: string
  e_status :: int
  e_parent :: string
  e_root :: string
  e_input :: "bytes option"
  e_output :: "bytes option"
  e_error :: "bytes option"
  e_retry :: "int option"
  e_priority :: int
  e_ttl :: "time option"
  e_run_at :: time
  e_created :: time
  e_updated :: time
  e_leased :: "time option"

record result_row =
  r_key :: string
  r_handler :: string
  r_version :: string
  r_status :: int
  r_parent :: string
  r_root :: string
  r_ttl :: "time option"
  r_input :: "bytes option"
  r_output :: "bytes option"
  r_error :: "bytes option"
  r_created :: time
  r_updated :: time

type_synonym count_key = "string \<times> int"

record job_db =
  executions :: "exec_row list"
  next_id :: int
  counts :: "(count_key \<times> int) list"
  results :: "result_row list"

definition empty_db :: job_db where
  "empty_db = \<lparr>executions = [], next_id = 1, counts = [], results = []\<rparr>"

subsection \<open>The counting triggers\<close>

text \<open>\<open>INSERT ... VALUES (k, 1) ON CONFLICT DO UPDATE SET count = count + 1\<close>.\<close>

definition bump :: "count_key \<Rightarrow> (count_key \<times> int) list \<Rightarrow> (count_key \<times> int) list" where
  "bump k cs = (case map_of cs k of None \<Rightarrow> cs @ [(k, 1)] | Some n \<Rightarrow> AList.update k (n + 1) cs)"

text \<open>\<open>UPDATE execution_counts SET count = count - 1 WHERE ...\<close>.\<close>

definition drop_count :: "count_key \<Rightarrow> (count_key \<times> int) list \<Rightarrow> (count_key \<times> int) list" where
  "drop_count k cs = (case map_of cs k of None \<Rightarrow> cs | Some n \<Rightarrow> AList.update k (n - 1) cs)"

definition executions_after_insert :: "exec_row \<Rightarrow> (count_key \<times> int) list \<Rightarrow> (count_key \<times> int) list" where
  "executions_after_insert new cs = bump (e_root new, e_status new) (bump (''*'', e_status new) cs)"

definition executions_after_delete :: "exec_row \<Rightarrow> (count_key \<times> int) list \<Rightarrow> (count_key \<times> int) list" where
  "executions_after_delete old cs =
     drop_count (e_root old, e_status old) (drop_count (''*'', e_status old) cs)"

definition executions_after_update ::
  "exec_row \<Rightarrow> exec_row \<Rightarrow> (count_key \<times> int) list \<Rightarrow> (count_key \<times> int) list" where
  "executions_after_update old new cs =
     (if e_status old \<noteq> e_status new \<or> e_root old \<noteq> e_root new
      then executions_after_insert new (executions_after_delete old cs) else cs)"

subsection \<open>Statements\<close>

text \<open>
  A statement runs on every row it selects, firing the row's trigger. \<open>sql_insert\<close> is an insert
  without a conflict; \<open>AUTOINCREMENT\<close> gives ids that are never used again.
\<close>

definition sql_insert :: "(int \<Rightarrow> exec_row) \<Rightarrow> job_db \<Rightarrow> job_db" where
  "sql_insert mk db =
     (let row = mk (next_id db) in
      db\<lparr>executions := executions db @ [row], next_id := next_id db + 1,
         counts := executions_after_insert row (counts db)\<rparr>)"

definition sql_update :: "(exec_row \<Rightarrow> bool) \<Rightarrow> (exec_row \<Rightarrow> exec_row) \<Rightarrow> job_db \<Rightarrow> job_db" where
  "sql_update P f db =
     db\<lparr>executions := map (\<lambda>r. if P r then f r else r) (executions db),
        counts := fold (\<lambda>r. executions_after_update r (f r)) (filter P (executions db)) (counts db)\<rparr>"

definition sql_delete :: "(exec_row \<Rightarrow> bool) \<Rightarrow> job_db \<Rightarrow> job_db" where
  "sql_delete P db =
     db\<lparr>executions := filter (\<lambda>r. \<not> P r) (executions db),
        counts := fold executions_after_delete (filter P (executions db)) (counts db)\<rparr>"

definition find_exec :: "job_db \<Rightarrow> string \<Rightarrow> exec_row option" where
  "find_exec db key = find (\<lambda>r. e_key r = key) (executions db)"

definition find_result :: "job_db \<Rightarrow> string \<Rightarrow> result_row option" where
  "find_result db key = find (\<lambda>r. r_key r = key) (results db)"

text \<open>\<open>RowsAffected\<close> of an update.\<close>

definition rows_affected :: "(exec_row \<Rightarrow> bool) \<Rightarrow> job_db \<Rightarrow> nat" where
  "rows_affected P db = length (filter P (executions db))"

subsection \<open>Invariants of the tables\<close>

text \<open>Unique keys (the \<open>UNIQUE\<close> constraints) and ids below the next one.\<close>

definition wf_keys :: "job_db \<Rightarrow> bool" where
  "wf_keys db \<longleftrightarrow> distinct (map e_key (executions db)) \<and> distinct (map e_id (executions db)) \<and>
     (\<forall>r \<in> set (executions db). e_id r < next_id db) \<and> distinct (map r_key (results db))"

text \<open>The counter table against the rows it counts.\<close>

definition count_of :: "(count_key \<times> int) list \<Rightarrow> count_key \<Rightarrow> int" where
  "count_of cs k = (case map_of cs k of None \<Rightarrow> 0 | Some n \<Rightarrow> n)"

definition row_weight :: "exec_row \<Rightarrow> count_key \<Rightarrow> int" where
  "row_weight r k =
     (if k = (''*'', e_status r) then 1 else 0) + (if k = (e_root r, e_status r) then 1 else 0)"

definition counts_match :: "(count_key \<times> int) list \<Rightarrow> exec_row list \<Rightarrow> bool" where
  "counts_match cs rows \<longleftrightarrow> distinct (map fst cs) \<and>
     (\<forall>k. count_of cs k = (\<Sum>r \<leftarrow> rows. row_weight r k)) \<and>
     (\<forall>r \<in> set rows. map_of cs (''*'', e_status r) \<noteq> None \<and> map_of cs (e_root r, e_status r) \<noteq> None)"

definition wf_counts :: "job_db \<Rightarrow> bool" where
  "wf_counts db \<longleftrightarrow> counts_match (counts db) (executions db)"

lemma distinct_bump: "distinct (map fst cs) \<Longrightarrow> distinct (map fst (bump k cs))"
  by (auto simp: bump_def distinct_update map_of_eq_None_iff split: option.splits)

lemma distinct_drop: "distinct (map fst cs) \<Longrightarrow> distinct (map fst (drop_count k cs))"
  by (auto simp: drop_count_def distinct_update split: option.splits)

lemma count_of_bump: "count_of (bump k cs) j = count_of cs j + (if j = k then 1 else 0)"
  by (auto simp: count_of_def bump_def update_conv' map_add_def split: option.splits)

lemma count_of_drop:
  "map_of cs k \<noteq> None \<Longrightarrow> count_of (drop_count k cs) j = count_of cs j - (if j = k then 1 else 0)"
  by (auto simp: count_of_def drop_count_def update_conv' split: option.splits)

lemma present_bump: "map_of (bump k cs) j \<noteq> None \<longleftrightarrow> j = k \<or> map_of cs j \<noteq> None"
  by (auto simp: bump_def update_conv' map_add_def split: option.splits)

lemma present_drop: "map_of (drop_count k cs) j \<noteq> None \<longleftrightarrow> map_of cs j \<noteq> None"
  by (auto simp: drop_count_def update_conv' split: option.splits)

lemma count_of_insert:
  "count_of (executions_after_insert r cs) k = count_of cs k + row_weight r k"
  by (simp add: executions_after_insert_def count_of_bump row_weight_def)

lemma present_insert:
  "map_of (executions_after_insert r cs) j \<noteq> None \<longleftrightarrow>
    j = (e_root r, e_status r) \<or> j = (''*'', e_status r) \<or> map_of cs j \<noteq> None"
  by (simp only: executions_after_insert_def present_bump)

lemma count_of_delete:
  assumes "map_of cs (''*'', e_status r) \<noteq> None" "map_of cs (e_root r, e_status r) \<noteq> None"
  shows "count_of (executions_after_delete r cs) k = count_of cs k - row_weight r k"
proof -
  have "map_of (drop_count (''*'', e_status r) cs) (e_root r, e_status r) \<noteq> None"
    using assms(2) by (simp only: present_drop) simp
  then show ?thesis
    using assms(1) by (simp add: executions_after_delete_def count_of_drop row_weight_def)
qed

lemma present_delete: "map_of (executions_after_delete r cs) j \<noteq> None \<longleftrightarrow> map_of cs j \<noteq> None"
  by (simp only: executions_after_delete_def present_drop)

lemma distinct_triggers [simp]:
  "distinct (map fst cs) \<Longrightarrow> distinct (map fst (executions_after_insert r cs))"
  "distinct (map fst cs) \<Longrightarrow> distinct (map fst (executions_after_delete r cs))"
  by (simp_all add: executions_after_insert_def executions_after_delete_def distinct_bump distinct_drop)

lemma counts_match_insert:
  "counts_match cs rows \<Longrightarrow> counts_match (executions_after_insert r cs) (rows @ [r])"
  unfolding counts_match_def present_insert by (auto simp: count_of_insert)

lemma counts_match_delete:
  assumes "counts_match cs (a @ r # b)"
  shows "counts_match (executions_after_delete r cs) (a @ b)"
  using assms unfolding counts_match_def present_delete by (auto simp: count_of_delete)

lemma row_weight_same: "e_status r = e_status r' \<Longrightarrow> e_root r = e_root r' \<Longrightarrow> row_weight r = row_weight r'"
  by (simp add: row_weight_def fun_eq_iff)

lemma counts_match_update:
  assumes "counts_match cs (a @ r # b)"
  shows "counts_match (executions_after_update r r' cs) (a @ r' # b)"
proof (cases "e_status r \<noteq> e_status r' \<or> e_root r \<noteq> e_root r'")
  case True
  from counts_match_insert [OF counts_match_delete [OF assms], of r']
  have "counts_match (executions_after_update r r' cs) ((a @ b) @ [r'])"
    using True by (simp add: executions_after_update_def)
  then show ?thesis by (auto simp: counts_match_def)
next
  case False
  then have "row_weight r = row_weight r'" by (auto intro: row_weight_same)
  with assms False show ?thesis by (auto simp: counts_match_def executions_after_update_def)
qed

lemma counts_match_updates:
  "counts_match cs (a @ rows) \<Longrightarrow>
    counts_match (fold (\<lambda>r. executions_after_update r (f r)) (filter P rows) cs)
      (a @ map (\<lambda>r. if P r then f r else r) rows)"
proof (induction rows arbitrary: a cs)
  case Nil
  then show ?case by simp
next
  case (Cons r rows)
  show ?case
  proof (cases "P r")
    case True
    have "counts_match (executions_after_update r (f r) cs) ((a @ [f r]) @ rows)"
      using counts_match_update [OF Cons.prems] by simp
    from Cons.IH [OF this] True show ?thesis by simp
  next
    case False
    with Cons.IH [of cs "a @ [r]"] Cons.prems show ?thesis by simp
  qed
qed

lemma counts_match_deletes:
  "counts_match cs (a @ rows) \<Longrightarrow>
    counts_match (fold executions_after_delete (filter P rows) cs) (a @ filter (\<lambda>r. \<not> P r) rows)"
proof (induction rows arbitrary: a cs)
  case Nil
  then show ?case by simp
next
  case (Cons r rows)
  show ?case
  proof (cases "P r")
    case True
    from Cons.IH [OF counts_match_delete [OF Cons.prems]] True show ?thesis by simp
  next
    case False
    with Cons.IH [of cs "a @ [r]"] Cons.prems show ?thesis by simp
  qed
qed

lemma wf_counts_stmts [inv_intros]:
  "wf_counts db \<Longrightarrow> wf_counts (sql_insert mk db)"
  "wf_counts db \<Longrightarrow> wf_counts (sql_update P f db)"
  "wf_counts db \<Longrightarrow> wf_counts (sql_delete P db)"
  using counts_match_updates [of "counts db" "[]" "executions db" f P]
    counts_match_deletes [of "counts db" "[]" "executions db" P]
  by (simp_all add: wf_counts_def sql_insert_def sql_update_def sql_delete_def Let_def
      counts_match_insert)

lemma wf_keys_insert [inv_intros]:
  "wf_keys db \<Longrightarrow> (\<And>i. e_id (mk i) = i) \<Longrightarrow> (\<And>i. e_key (mk i) = k) \<Longrightarrow> find_exec db k = None \<Longrightarrow>
    wf_keys (sql_insert mk db)"
  by (fastforce simp: wf_keys_def sql_insert_def Let_def find_exec_def find_None_iff)

lemma wf_keys_update [inv_intros]:
  assumes "wf_keys db" and f: "\<And>r. e_id (f r) = e_id r" "\<And>r. e_key (f r) = e_key r"
  shows "wf_keys (sql_update P f db)"
proof -
  have "map e_key (executions (sql_update P f db)) = map e_key (executions db)"
    "map e_id (executions (sql_update P f db)) = map e_id (executions db)"
    by (simp_all add: sql_update_def f)
  moreover have "\<forall>r \<in> set (executions (sql_update P f db)). e_id r < next_id db"
    using assms(1) by (auto simp: wf_keys_def sql_update_def f)
  moreover have "next_id (sql_update P f db) = next_id db" "results (sql_update P f db) = results db"
    by (simp_all add: sql_update_def)
  ultimately show ?thesis using assms(1) by (simp only: wf_keys_def)
qed

lemma wf_keys_delete [inv_intros]: "wf_keys db \<Longrightarrow> wf_keys (sql_delete P db)"
  by (auto simp: wf_keys_def sql_delete_def distinct_map_filter)

lemma wf_empty_db [inv_intros]: "wf_keys empty_db" "wf_counts empty_db"
  by (simp_all add: wf_keys_def wf_counts_def counts_match_def empty_db_def count_of_def)

subsection \<open>Looking rows up\<close>

lemma find_exec_Some: "find_exec db k = Some r \<Longrightarrow> r \<in> set (executions db) \<and> e_key r = k"
  by (auto simp: find_exec_def dest: find_SomeD)

lemma find_exec_None: "find_exec db k = None \<longleftrightarrow> (\<forall>r \<in> set (executions db). e_key r \<noteq> k)"
  by (auto simp: find_exec_def find_None_iff)

lemma find_exec_unique:
  "wf_keys db \<Longrightarrow> r \<in> set (executions db) \<Longrightarrow> find_exec db (e_key r) = Some r"
proof -
  assume wf: "wf_keys db" and r: "r \<in> set (executions db)"
  have "find (\<lambda>x. e_key x = e_key r) xs = Some r"
    if "distinct (map e_key xs)" "r \<in> set xs" for xs :: "exec_row list"
    using that by (induction xs) auto
  with wf r show ?thesis by (simp add: find_exec_def wf_keys_def)
qed

lemma find_exec_insert:
  "(\<And>i. e_key (mk i) = k) \<Longrightarrow> find_exec db k = None \<Longrightarrow>
    find_exec (sql_insert mk db) j = (if j = k then Some (mk (next_id db)) else find_exec db j)"
proof -
  assume k: "\<And>i. e_key (mk i) = k" and new: "find_exec db k = None"
  have app: "find Q (xs @ [x]) = (case find Q xs of None \<Rightarrow> (if Q x then Some x else None) | Some y \<Rightarrow> Some y)"
    for Q :: "exec_row \<Rightarrow> bool" and xs x by (induction xs) auto
  show ?thesis
    using k new by (auto simp: find_exec_def sql_insert_def Let_def app split: option.split)
qed

lemma find_exec_update:
  assumes "\<And>r. e_key (f r) = e_key r"
  shows "find_exec (sql_update P f db) k = map_option (\<lambda>r. if P r then f r else r) (find_exec db k)"
proof -
  have "find (\<lambda>r. e_key r = k) (map (\<lambda>r. if P r then f r else r) rs) =
    map_option (\<lambda>r. if P r then f r else r) (find (\<lambda>r. e_key r = k) rs)" for rs
    by (induction rs) (auto simp: assms)
  then show ?thesis by (simp add: find_exec_def sql_update_def)
qed

lemma find_exec_delete:
  assumes "wf_keys db"
  shows "find_exec (sql_delete P db) k =
    (case find_exec db k of None \<Rightarrow> None | Some r \<Rightarrow> if P r then None else Some r)"
proof -
  have "find (\<lambda>r. e_key r = k) (filter (\<lambda>r. \<not> P r) rs) =
    (case find (\<lambda>r. e_key r = k) rs of None \<Rightarrow> None | Some r \<Rightarrow> if P r then None else Some r)"
    if "distinct (map e_key rs)" for rs
    using that
  proof (induction rs)
    case (Cons a rs)
    show ?case
    proof (cases "e_key a = k")
      case True
      with Cons.prems have "\<forall>r \<in> set rs. e_key r \<noteq> k" by (auto simp: image_iff)
      then have "find (\<lambda>r. e_key r = k) (filter (\<lambda>r. \<not> P r) rs) = None"
        by (simp add: find_None_iff)
      with True show ?thesis by simp
    next
      case False
      with Cons show ?thesis by simp
    qed
  qed simp
  with assms show ?thesis by (simp add: find_exec_def sql_delete_def wf_keys_def)
qed

end
