(* ===== verification/Job_Store.thy ===== *)
theory Job_Store
  imports Job_Table Ema
begin

section \<open>The SQL job store\<close>

text \<open>
  \<open>typedhandler_job_sql.go\<close> and \<open>typedhandler_job_store.go\<close>, one definition per method of
  \<open>callSQLStrategy\<close>. A method takes the time it reads as \<open>now\<close> and a \<open>fault\<close>: the error the
  database driver returns, if any. A failing statement changes nothing. SQL comparisons with
  NULL are not true. The SQLite mutex and SQLite's own locking make a statement (a transaction
  for \<open>Dequeue\<close> and \<open>doneAsync\<close>) atomic.
\<close>

datatype job_error =
  ErrJobNotFound | ErrJobDuplicated | ErrJobExpired | ErrJobHandlerMismatch
| FatalInvalidCacheError | FatalTransformFailed | FatalBackendError "job_error option"
| ErrJobResultDecodeFailed | ErrJobErrorDecodeFailed | ErrJobResultEncodeFailed
| ErrJobErrorEncodeFailed | ErrJobInputDecodeFailed | ErrJobInputEncodeFailed
| ErrHandlerNotFound | BadJobID string | BadStatus string
| JobPendingError (pending_id: string) (pending_msg: string)
| DriverError string | HandlerError string

record jobInfo =
  ji_jobid :: string
  ji_handler :: string
  ji_meta :: jobMeta
  ji_created :: time
  ji_updated :: time
  ji_leased :: "time option"
  ji_retry :: "int option"

definition zeroMeta :: jobMeta where
  "zeroMeta = \<lparr>m_version = [], m_status = 0, m_parent = [], m_root = [], m_ttl = None, m_priority = 0\<rparr>"

definition zeroInfo :: jobInfo where
  "zeroInfo = \<lparr>ji_jobid = [], ji_handler = [], ji_meta = zeroMeta, ji_created = 0, ji_updated = 0,
     ji_leased = None, ji_retry = None\<rparr>"

record sqlJobTask =
  t_key :: string
  t_handler :: string
  t_meta :: jobMeta
  t_input :: "bytes option"

text \<open>
  \<open>callSQLStrategy\<close>: the database, the id of the last dequeued job, the configured limits, and
  the number of transactions that were begun and never ended.
\<close>

record callSQLStrategy =
  cs_db :: job_db
  lastDequeuedId :: int
  waitInterval :: duration
  waitTimeout :: duration
  maxretry :: int
  open_tx :: nat

definition newcallSQLStrategy :: "duration \<Rightarrow> duration \<Rightarrow> int \<Rightarrow> callSQLStrategy" where
  "newcallSQLStrategy interval timeout retries =
     \<lparr>cs_db = empty_db, lastDequeuedId = -1, waitInterval = interval, waitTimeout = timeout,
      maxretry = retries, open_tx = 0\<rparr>"

definition on_db :: "(job_db \<Rightarrow> job_db) \<Rightarrow> callSQLStrategy \<Rightarrow> callSQLStrategy" where
  "on_db f c = c\<lparr>cs_db := f (cs_db c)\<rparr>"

text \<open>One \<open>ExecContext\<close> whose effect is \<open>f\<close>.\<close>

definition exec :: "string option \<Rightarrow> (job_db \<Rightarrow> job_db) \<Rightarrow> callSQLStrategy \<Rightarrow>
    (job_error + unit) \<times> callSQLStrategy" where
  "exec fault f c =
     (case fault of Some e \<Rightarrow> (Inl (DriverError e), c) | None \<Rightarrow> (Inr (), on_db f c))"

subsection \<open>Enqueue\<close>

definition enqueue_row ::
  "time \<Rightarrow> string \<Rightarrow> jobMeta \<Rightarrow> string \<Rightarrow> bytes option \<Rightarrow> int \<Rightarrow> exec_row" where
  "enqueue_row now handler meta key injson i =
     \<lparr>e_id = i, e_key = key, e_handler = handler, e_version = m_version meta,
      e_status = m_status meta, e_parent = m_parent meta, e_root = m_root meta,
      e_input = injson, e_output = None, e_error = None, e_retry = None,
      e_priority = m_priority meta, e_ttl = m_ttl meta, e_run_at = now, e_created = now,
      e_updated = now, e_leased = None\<rparr>"

definition enqueue_reuse ::
  "time \<Rightarrow> string \<Rightarrow> jobMeta \<Rightarrow> bytes option \<Rightarrow> exec_row \<Rightarrow> exec_row" where
  "enqueue_reuse now handler meta injson r =
     r\<lparr>e_handler := handler, e_version := m_version meta, e_status := m_status meta,
       e_parent := m_parent meta, e_root := m_root meta, e_priority := m_priority meta,
       e_ttl := m_ttl meta, e_run_at := now, e_input := injson, e_updated := now\<rparr>"

definition past :: "time option \<Rightarrow> time \<Rightarrow> bool" where
  "past t now \<longleftrightarrow> (case t of None \<Rightarrow> False | Some t' \<Rightarrow> t' < now)"

definition reusable :: "time \<Rightarrow> exec_row \<Rightarrow> bool" where
  "reusable now r \<longleftrightarrow> e_status r = statusDone \<and> past (e_ttl r) now"

definition enqueue_db :: "time \<Rightarrow> string \<Rightarrow> jobMeta \<Rightarrow> string \<Rightarrow> bytes option \<Rightarrow> job_db \<Rightarrow> bool \<times> job_db" where
  "enqueue_db now handler meta key injson db =
     (case find_exec db key of
        None \<Rightarrow> (True, sql_insert (enqueue_row now handler meta key injson) db)
      | Some _ \<Rightarrow>
          (0 < rows_affected (\<lambda>r. e_key r = key \<and> reusable now r) db,
           sql_update (\<lambda>r. e_key r = key \<and> reusable now r) (enqueue_reuse now handler meta injson) db))"

definition Enqueue ::
  "string option \<Rightarrow> time \<Rightarrow> string \<Rightarrow> jobMeta \<Rightarrow> string \<Rightarrow> bytes option \<Rightarrow> int \<Rightarrow> callSQLStrategy \<Rightarrow>
    (job_error + bool) \<times> callSQLStrategy" where
  "Enqueue fault now handler meta key injson delay_sec c =
     (case fault of
        Some e \<Rightarrow> (Inl (DriverError e), c)
      | None \<Rightarrow> (case enqueue_db now handler meta key injson (cs_db c) of
                   (enqueued, db) \<Rightarrow> (Inr enqueued, c\<lparr>cs_db := db\<rparr>)))"

subsection \<open>Dequeue\<close>

text \<open>\<open>ORDER BY priority DESC, created_at ASC, id ASC LIMIT 1\<close>.\<close>

definition dq_before :: "exec_row \<Rightarrow> exec_row \<Rightarrow> bool" where
  "dq_before a b \<longleftrightarrow>
     e_priority b < e_priority a \<or>
     (e_priority a = e_priority b \<and>
       (e_created a < e_created b \<or> (e_created a = e_created b \<and> e_id a < e_id b)))"

definition dq_eligible :: "time \<Rightarrow> string list \<Rightarrow> exec_row \<Rightarrow> bool" where
  "dq_eligible now handlers r \<longleftrightarrow>
     e_status r = statusQueued \<and> e_run_at r \<le> now \<and> e_handler r \<in> set handlers"

fun first_row :: "exec_row list \<Rightarrow> exec_row option" where
  "first_row [] = None"
| "first_row (r # rs) =
     (case first_row rs of None \<Rightarrow> Some r | Some b \<Rightarrow> if dq_before b r then Some b else Some r)"

definition lease_row :: "time \<Rightarrow> duration \<Rightarrow> exec_row \<Rightarrow> exec_row" where
  "lease_row now lease r = r\<lparr>e_status := statusLeased, e_leased := Some (now + lease), e_updated := now\<rparr>"

definition Dequeue ::
  "string option \<Rightarrow> time \<Rightarrow> string list \<Rightarrow> duration \<Rightarrow> callSQLStrategy \<Rightarrow> emaCalculator \<Rightarrow>
    (job_error + sqlJobTask) \<times> callSQLStrategy \<times> emaCalculator" where
  "Dequeue fault now handlers lease c e =
     (if handlers = [] then (Inl ErrJobNotFound, c, e)
      else case fault of
        Some err \<Rightarrow> (Inl (DriverError err), c, e)
      | None \<Rightarrow>
          (case first_row (filter (dq_eligible now handlers) (executions (cs_db c))) of
             None \<Rightarrow> (Inl ErrJobNotFound, c, e)
           | Some r \<Rightarrow>
               let cidv = (if lastDequeuedId c < 0 then 1 else e_id r - lastDequeuedId c)
               in (Inr \<lparr>t_key = e_key r, t_handler = e_handler r,
                        t_meta = zeroMeta\<lparr>m_version := e_version r, m_status := statusLeased,
                                          m_parent := e_parent r, m_root := e_root r\<rparr>,
                        t_input = e_input r\<rparr>,
                   c\<lparr>cs_db := sql_update (\<lambda>x. e_id x = e_id r) (lease_row now lease) (cs_db c),
                     lastDequeuedId := e_id r\<rparr>,
                   ema_Update (of_int cidv) e)))"

subsection \<open>Reaping\<close>

text \<open>
  \<open>Reaping\<close> sends three statements with six placeholders and five arguments in one
  \<open>ExecContext\<close>. How arguments are assigned to the statements of a batch is the driver's: the
  parameter \<open>bind\<close> maps the placeholder counts and the arguments to each statement's arguments
  (\<open>None\<close>: it reports an error there). Each statement commits on its own.
\<close>

datatype sqlarg = ATime time | AInt int

type_synonym arg_binding = "nat list \<Rightarrow> sqlarg list \<Rightarrow> sqlarg list option list"

definition reap_message :: bytes where
  "reap_message = ''{'' @ [CHR 0x22] @ ''message'' @ [CHR 0x22] @ '': '' @ [CHR 0x22] @
     ''max retries exceeded during reaping'' @ [CHR 0x22] @ ''}''"

fun reap_fail :: "sqlarg list \<Rightarrow> job_db \<Rightarrow> job_db option" where
  "reap_fail [ATime upd, ATime now, AInt retries] db =
     Some (sql_update
       (\<lambda>r. e_status r = statusLeased \<and> past (e_leased r) now \<and>
            (case e_retry r of None \<Rightarrow> False | Some n \<Rightarrow> retries \<le> n))
       (\<lambda>r. r\<lparr>e_status := statusError, e_error := Some reap_message, e_updated := upd\<rparr>) db)"
| "reap_fail _ db = None"

definition next_retry :: "int option \<Rightarrow> int" where
  "next_retry n = (case n of None \<Rightarrow> 0 | Some k \<Rightarrow> k) + 1"

fun reap_requeue :: "sqlarg list \<Rightarrow> job_db \<Rightarrow> job_db option" where
  "reap_requeue [ATime upd, ATime now] db =
     Some (sql_update
       (\<lambda>r. e_status r = statusLeased \<and> past (e_leased r) now)
       (\<lambda>r. r\<lparr>e_status := statusQueued, e_leased := None, e_updated := upd,
              e_retry := Some (next_retry (e_retry r))\<rparr>) db)"
| "reap_requeue _ db = None"

fun reap_delete :: "sqlarg list \<Rightarrow> job_db \<Rightarrow> job_db option" where
  "reap_delete [ATime now] db =
     Some (sql_delete
       (\<lambda>r. (e_status r = statusDone \<or> e_status r = statusError) \<and> past (e_ttl r) now) db)"
| "reap_delete _ db = None"

fun run_batch ::
  "(sqlarg list \<Rightarrow> job_db \<Rightarrow> job_db option) list \<Rightarrow> sqlarg list option list \<Rightarrow> job_db \<Rightarrow>
    (job_error + unit) \<times> job_db" where
  "run_batch [] args db = (Inr (), db)"
| "run_batch (s # ss) (Some a # args) db =
     (case s a db of None \<Rightarrow> (Inl (DriverError ''bind''), db) | Some db' \<Rightarrow> run_batch ss args db')"
| "run_batch (s # ss) _ db = (Inl (DriverError ''bind''), db)"

definition Reaping ::
  "string option \<Rightarrow> arg_binding \<Rightarrow> time \<Rightarrow> callSQLStrategy \<Rightarrow> (job_error + unit) \<times> callSQLStrategy" where
  "Reaping fault bind now c =
     (case fault of
        Some e \<Rightarrow> (Inl (DriverError e), c)
      | None \<Rightarrow>
          (case run_batch [reap_fail, reap_requeue, reap_delete]
                  (bind [3, 2, 1] [ATime now, ATime now, AInt (maxretry c), ATime now, ATime now])
                  (cs_db c) of
             (res, db) \<Rightarrow> (res, c\<lparr>cs_db := db\<rparr>)))"

subsection \<open>Leases, completion, removal\<close>

definition LeaseUpdate ::
  "string option \<Rightarrow> time \<Rightarrow> string \<Rightarrow> duration \<Rightarrow> callSQLStrategy \<Rightarrow> (job_error + unit) \<times> callSQLStrategy" where
  "LeaseUpdate fault now key lease =
     exec fault (sql_update (\<lambda>r. e_key r = key) (\<lambda>r. r\<lparr>e_leased := Some (now + lease), e_updated := now\<rparr>))"

text \<open>The upsert into \<open>executions_results\<close> that \<open>Done\<close> and \<open>doneAsync\<close> share.\<close>

definition result_row_of ::
  "time \<Rightarrow> string \<Rightarrow> jobMeta \<Rightarrow> int \<Rightarrow> string \<Rightarrow> bytes option \<Rightarrow> bytes option \<Rightarrow> bytes option \<Rightarrow> result_row" where
  "result_row_of now handler meta status key injson outjson errjson =
     \<lparr>r_key = key, r_handler = handler, r_version = m_version meta, r_status = status,
      r_parent = m_parent meta, r_root = m_root meta, r_ttl = m_ttl meta, r_input = injson,
      r_output = outjson, r_error = errjson, r_created = now, r_updated = now\<rparr>"

definition upsert_result :: "result_row \<Rightarrow> job_db \<Rightarrow> job_db" where
  "upsert_result new db =
     (case find_result db (r_key new) of
        None \<Rightarrow> db\<lparr>results := results db @ [new]\<rparr>
      | Some _ \<Rightarrow> db\<lparr>results := map (\<lambda>r. if r_key r = r_key new
          then r\<lparr>r_output := r_output new, r_error := r_error new, r_status := r_status new,
                 r_updated := r_updated new\<rparr> else r) (results db)\<rparr>)"

definition done_status :: "bytes option \<Rightarrow> int" where
  "done_status errjson = (if errjson \<noteq> None then statusError else statusDone)"

definition done_update_ttl ::
  "time \<Rightarrow> jobMeta \<Rightarrow> string \<Rightarrow> bytes option \<Rightarrow> bytes option \<Rightarrow> job_db \<Rightarrow> job_db" where
  "done_update_ttl now meta key outjson errjson =
     sql_update (\<lambda>r. e_key r = key)
       (\<lambda>r. r\<lparr>e_status := done_status errjson, e_ttl := m_ttl meta, e_output := outjson,
              e_error := errjson, e_updated := now\<rparr>)"

definition done_update ::
  "time \<Rightarrow> jobMeta \<Rightarrow> string \<Rightarrow> bytes option \<Rightarrow> job_db \<Rightarrow> job_db" where
  "done_update now meta key errjson =
     sql_update (\<lambda>r. e_key r = key)
       (\<lambda>r. r\<lparr>e_status := done_status errjson, e_ttl := m_ttl meta, e_updated := now\<rparr>)"

text \<open>
  \<open>doneAsync\<close> runs a transaction of its own; the fault says at which call the driver fails. A
  failing \<open>ExecContext\<close> of the first update returns at once, neither committing nor rolling back.
\<close>

datatype done_fault = FaultBegin string | FaultUpdate string | FaultResult string | FaultCommit string

definition doneAsync ::
  "done_fault option \<Rightarrow> time \<Rightarrow> string \<Rightarrow> jobMeta \<Rightarrow> string \<Rightarrow> bytes option \<Rightarrow> bytes option \<Rightarrow> bytes option \<Rightarrow>
    callSQLStrategy \<Rightarrow> (job_error + unit) \<times> callSQLStrategy" where
  "doneAsync fault now handler meta key injson outjson errjson c =
     (let commit = (if m_ttl meta \<noteq> None then done_update_ttl now meta key outjson errjson
                    else upsert_result (result_row_of now handler meta (done_status errjson) key
                           injson outjson errjson) \<circ> done_update now meta key errjson)
      in case fault of
           None \<Rightarrow> (Inr (), on_db commit c)
         | Some (FaultBegin e) \<Rightarrow> (Inl (DriverError e), c)
         | Some (FaultUpdate e) \<Rightarrow> (Inl (DriverError e), c\<lparr>open_tx := Suc (open_tx c)\<rparr>)
         | Some (FaultResult e) \<Rightarrow>
             (if m_ttl meta \<noteq> None then (Inr (), on_db commit c) else (Inl (DriverError e), c))
         | Some (FaultCommit e) \<Rightarrow> (Inl (DriverError e), c))"

definition Free :: "string option \<Rightarrow> string \<Rightarrow> callSQLStrategy \<Rightarrow> (job_error + unit) \<times> callSQLStrategy" where
  "Free fault key = exec fault (sql_delete (\<lambda>r. e_key r = key))"

text \<open>
  \<open>Done\<close>: with a TTL its insert gives no value for the columns \<open>priority\<close> and \<open>run_at\<close>, which the
  schema declares NOT NULL without a default; the constraint is checked before the conflict clause,
  so the statement fails whether or not the key exists.
\<close>

definition Done ::
  "string option \<Rightarrow> time \<Rightarrow> string \<Rightarrow> jobMeta \<Rightarrow> string \<Rightarrow> bytes option \<Rightarrow> bytes option \<Rightarrow> bytes option \<Rightarrow>
    callSQLStrategy \<Rightarrow> (job_error + unit) \<times> callSQLStrategy" where
  "Done fault now handler meta key injson outjson errjson c =
     (if m_ttl meta \<noteq> None then
        (case fault of
           Some e \<Rightarrow> (Inl (DriverError e), c)
         | None \<Rightarrow> (Inl (DriverError ''NOT NULL constraint failed: executions.priority''), c))
      else exec fault (upsert_result (result_row_of now handler meta (done_status errjson) key
             injson outjson errjson)) c)"

definition requeue ::
  "string option \<Rightarrow> time \<Rightarrow> string \<Rightarrow> int \<Rightarrow> callSQLStrategy \<Rightarrow> (job_error + unit) \<times> callSQLStrategy" where
  "requeue fault now key delay_sec =
     exec fault (sql_update (\<lambda>r. e_key r = key)
       (\<lambda>r. r\<lparr>e_status := statusQueued, e_run_at := now + delay_sec * second, e_leased := None,
              e_updated := now, e_retry := Some (next_retry (e_retry r))\<rparr>))"

subsection \<open>Reading results\<close>

type_synonym job_result = "jobInfo \<times> bytes option \<times> bytes option \<times> job_error option"

definition info_of_exec :: "exec_row \<Rightarrow> jobInfo" where
  "info_of_exec r =
     zeroInfo\<lparr>ji_jobid := e_key r, ji_handler := e_handler r,
       ji_meta := zeroMeta\<lparr>m_version := e_version r, m_status := e_status r,
                           m_parent := e_parent r, m_root := e_root r\<rparr>,
       ji_created := e_created r, ji_updated := e_updated r\<rparr>"

definition info_of_result :: "result_row \<Rightarrow> jobInfo" where
  "info_of_result r =
     zeroInfo\<lparr>ji_jobid := r_key r, ji_handler := r_handler r,
       ji_meta := zeroMeta\<lparr>m_version := r_version r, m_status := r_status r,
                           m_parent := r_parent r, m_root := r_root r\<rparr>,
       ji_created := r_created r, ji_updated := r_updated r\<rparr>"

definition with_ttl :: "time option \<Rightarrow> jobInfo \<Rightarrow> jobInfo" where
  "with_ttl ttl ji = ji\<lparr>ji_meta := (ji_meta ji)\<lparr>m_ttl := ttl\<rparr>\<rparr>"

text \<open>
  The row the query returns, if any: the columns read and the two blobs. A failing \<open>Scan\<close> is the
  answer of a missing row.
\<close>

definition select_info ::
  "string option \<Rightarrow> bool \<Rightarrow> bool \<Rightarrow> string \<Rightarrow> job_db \<Rightarrow> (jobInfo \<times> bytes option \<times> bytes option) option" where
  "select_info fault volatile ttl key db =
     (if fault \<noteq> None then None
      else if volatile then
        map_option (\<lambda>r. (if ttl then with_ttl (e_ttl r) (info_of_exec r) else info_of_exec r,
                         e_output r, e_error r)) (find_exec db key)
      else
        map_option (\<lambda>r. (if ttl then with_ttl (r_ttl r) (info_of_result r) else info_of_result r,
                         r_output r, r_error r)) (find_result db key))"

definition finished :: "int \<Rightarrow> bool" where
  "finished st \<longleftrightarrow> st = statusDone \<or> st = statusError"

definition read_result :: "string \<Rightarrow> (jobInfo \<times> bytes option \<times> bytes option) option \<Rightarrow> job_result" where
  "read_result key sel =
     (case sel of
        None \<Rightarrow> (zeroInfo, None, None, Some ErrJobNotFound)
      | Some (ji, out, errb) \<Rightarrow>
          if m_status (ji_meta ji) \<noteq> statusDone \<and> m_status (ji_meta ji) \<noteq> statusError
          then (ji, None, None, Some (JobPendingError key ''job not finished yet''))
          else (ji, out, errb, None))"

definition Result :: "string option \<Rightarrow> string \<Rightarrow> bool \<Rightarrow> callSQLStrategy \<Rightarrow> job_result" where
  "Result fault key volatile c = read_result key (select_info fault volatile False key (cs_db c))"

definition Hit :: "string option \<Rightarrow> string \<Rightarrow> bool \<Rightarrow> string \<Rightarrow> callSQLStrategy \<Rightarrow> job_result" where
  "Hit fault handler volatile key c = read_result key (select_info fault volatile True key (cs_db c))"

text \<open>
  \<open>Wait\<close>: the callback the time wheel runs every \<open>waitInterval\<close>, and the wait itself over the
  successive polls (the time, the driver fault and the store each of them sees). \<open>None\<close> is a
  wait that has not returned.
\<close>

definition wait_poll ::
  "time \<Rightarrow> string \<Rightarrow> bool \<Rightarrow> time \<times> string option \<times> callSQLStrategy \<Rightarrow> job_result option" where
  "wait_poll start key volatile poll =
     (case poll of (now, fault, c) \<Rightarrow>
        (case Result fault key volatile c of
           (ji, output, err, syserr) \<Rightarrow>
             if syserr \<noteq> None then None
             else if finished (m_status (ji_meta ji)) then Some (ji, output, err, syserr)
             else if m_status (ji_meta ji) = statusLeased \<and> past (ji_leased ji) now
             then Some (zeroInfo, None, None, Some ErrJobExpired)
             else if now > start + waitTimeout c then Some (zeroInfo, None, None, Some ErrJobExpired)
             else None))"

fun Wait ::
  "time \<Rightarrow> string \<Rightarrow> bool \<Rightarrow> (time \<times> string option \<times> callSQLStrategy) list \<Rightarrow> job_result option" where
  "Wait start key volatile [] = None"
| "Wait start key volatile (p # ps) =
     (case wait_poll start key volatile p of
        Some res \<Rightarrow> Some res | None \<Rightarrow> Wait start key volatile ps)"

subsection \<open>Listing and counting\<close>

definition info_of_row :: "exec_row \<Rightarrow> jobInfo" where
  "info_of_row r =
     \<lparr>ji_jobid = e_key r, ji_handler = e_handler r,
      ji_meta = \<lparr>m_version = e_version r, m_status = e_status r, m_parent = e_parent r,
                 m_root = e_root r, m_ttl = e_ttl r, m_priority = e_priority r\<rparr>,
      ji_created = e_created r, ji_updated = e_updated r, ji_leased = e_leased r, ji_retry = e_retry r\<rparr>"

definition List ::
  "string option \<Rightarrow> int list \<Rightarrow> int \<Rightarrow> int \<Rightarrow> callSQLStrategy \<Rightarrow> job_error + jobInfo list" where
  "List fault statuses limit offset c =
     (let limit = (if limit \<le> 0 then 50 else limit);
          offset = (if offset < 0 then 0 else offset)
      in case fault of
           Some e \<Rightarrow> Inl (DriverError e)
         | None \<Rightarrow> Inr (map info_of_row (take (nat limit) (drop (nat offset)
             (sort_key (\<lambda>r. - e_created r)
               (filter (\<lambda>r. statuses = [] \<or> e_status r \<in> set statuses) (executions (cs_db c))))))))"

text \<open>\<open>Total\<close>: the counter rows of one root, all jobs under the root \<open>*\<close>.\<close>

definition Total ::
  "string option \<Rightarrow> string option \<Rightarrow> callSQLStrategy \<Rightarrow> job_error + (string \<times> int) list" where
  "Total fault jobid c =
     (let root = (case jobid of None \<Rightarrow> ''*'' | Some j \<Rightarrow> j) in
      case fault of
        Some e \<Rightarrow> Inl (DriverError e)
      | None \<Rightarrow> Inr (map (\<lambda>((k, st), n). (itoa st, n))
          (filter (\<lambda>((k, st), n). k = root) (counts (cs_db c)))))"

subsection \<open>The public store\<close>

definition jobStatusCode :: "string \<Rightarrow> job_error + int" where
  "jobStatusCode status =
     (if status = ''queued'' then Inr statusQueued
      else if status = ''leased'' then Inr statusLeased
      else if status = ''done'' then Inr statusDone
      else if status = ''error'' then Inr statusError
      else case atoi status of
             None \<Rightarrow> Inl (BadStatus status)
           | Some code \<Rightarrow>
               if code < 0 \<or> code \<ge> int (length sqlStatusCodeStrings) then Inl (BadStatus status)
               else Inr code)"

fun jobStatusCodes :: "string list \<Rightarrow> job_error + int list" where
  "jobStatusCodes [] = Inr []"
| "jobStatusCodes (s # ss) =
     bind_res (jobStatusCode s) (\<lambda>c. bind_res (jobStatusCodes ss) (\<lambda>cs. Inr (c # cs)))"

definition jobStatusName :: "string \<Rightarrow> string" where
  "jobStatusName status =
     (case atoi status of
        None \<Rightarrow> status
      | Some code \<Rightarrow>
          if 0 \<le> code \<and> code < int (length sqlStatusCodeStrings)
          then sqlStatusCodeStrings ! nat code else status)"

definition store_List ::
  "string option \<Rightarrow> string list \<Rightarrow> int \<Rightarrow> int \<Rightarrow> callSQLStrategy \<Rightarrow> job_error + jobInfo list" where
  "store_List fault statuses limit offset c =
     bind_res (jobStatusCodes statuses) (\<lambda>codes. List fault codes limit offset c)"

text \<open>\<open>out[jobStatusName(status)] += count\<close> over the raw map.\<close>

definition add_count :: "string \<times> int \<Rightarrow> (string \<times> int) list \<Rightarrow> (string \<times> int) list" where
  "add_count p out =
     (case map_of out (jobStatusName (fst p)) of
        None \<Rightarrow> out @ [(jobStatusName (fst p), snd p)]
      | Some n \<Rightarrow> AList.update (jobStatusName (fst p)) (n + snd p) out)"

definition store_Total ::
  "string option \<Rightarrow> string option \<Rightarrow> callSQLStrategy \<Rightarrow> job_error + (string \<times> int) list" where
  "store_Total fault rootID c =
     bind_res (Total fault rootID c) (\<lambda>raw. Inr (fold add_count raw []))"

definition store_Result :: "string option \<Rightarrow> string \<Rightarrow> bool \<Rightarrow> callSQLStrategy \<Rightarrow>
    job_error + (jobInfo \<times> bytes option \<times> bytes option)" where
  "store_Result fault key volatile c =
     (case Result fault key volatile c of
        (info, output, errJSON, Some e) \<Rightarrow> Inl e
      | (info, output, errJSON, None) \<Rightarrow> Inr (info, output, errJSON))"

end
