(* ===== verification/Job_Store_Props.thy ===== *)
theory Job_Store_Props
  imports Job_Store
begin

section \<open>What the job store guarantees\<close>

text \<open>
  The operations of \<open>Job_Store\<close> as a step relation and the invariants of every reachable store;
  what an enqueue, a dequeue and a reaping do; and the answers of the reading operations.
\<close>

definition db_inv :: "job_db \<Rightarrow> bool" where
  "db_inv db \<longleftrightarrow> wf_keys db \<and> wf_counts db"

definition store_inv :: "callSQLStrategy \<Rightarrow> bool" where
  "store_inv c \<longleftrightarrow> db_inv (cs_db c)"

lemma db_inv_update [inv_intros]:
  "db_inv db \<Longrightarrow> (\<And>r. e_id (f r) = e_id r) \<Longrightarrow> (\<And>r. e_key (f r) = e_key r) \<Longrightarrow>
    db_inv (sql_update P f db)"
  by (simp add: db_inv_def wf_keys_update wf_counts_stmts)

lemma db_inv_delete [inv_intros]: "db_inv db \<Longrightarrow> db_inv (sql_delete P db)"
  by (simp add: db_inv_def wf_keys_delete wf_counts_stmts)

lemma db_inv_enqueue [inv_intros]:
  assumes "db_inv db"
  shows "db_inv (snd (enqueue_db now h m k i db))"
proof (cases "find_exec db k")
  case None
  have "wf_keys (sql_insert (enqueue_row now h m k i) db)"
    by (rule wf_keys_insert [where k = k]) (use assms None in \<open>simp_all add: db_inv_def enqueue_row_def\<close>)
  with None assms show ?thesis by (simp add: enqueue_db_def db_inv_def wf_counts_stmts)
next
  case (Some r)
  with assms show ?thesis
    by (simp add: enqueue_db_def) (rule db_inv_update, simp_all add: enqueue_reuse_def)
qed

lemma upsert_result_exec [simp]:
  "executions (upsert_result new db) = executions db"
  "counts (upsert_result new db) = counts db"
  "next_id (upsert_result new db) = next_id db"
  by (simp_all add: upsert_result_def split: option.splits)

lemma find_exec_upsert [simp]: "find_exec (upsert_result new db) k = find_exec db k"
  by (simp add: find_exec_def)

lemma find_result_None: "find_result db k = None \<longleftrightarrow> k \<notin> r_key ` set (results db)"
  by (auto simp: find_result_def find_None_iff)

lemma upsert_result_keys:
  "distinct (map r_key (results db)) \<Longrightarrow> distinct (map r_key (results (upsert_result new db)))"
proof (cases "find_result db (r_key new)")
  case None
  assume d: "distinct (map r_key (results db))"
  have "r_key new \<notin> r_key ` set (results db)" using None by (simp add: find_result_None)
  moreover have "results (upsert_result new db) = results db @ [new]"
    using None by (simp add: upsert_result_def)
  ultimately show ?thesis using d by simp
next
  case (Some r)
  assume d: "distinct (map r_key (results db))"
  have "map r_key (results (upsert_result new db)) = map r_key (results db)"
    using Some by (simp add: upsert_result_def)
  with d show ?thesis by simp
qed

lemma db_inv_upsert [inv_intros]: "db_inv db \<Longrightarrow> db_inv (upsert_result new db)"
  by (simp add: db_inv_def wf_keys_def wf_counts_def upsert_result_keys)

definition keeps_inv :: "(sqlarg list \<Rightarrow> job_db \<Rightarrow> job_db option) \<Rightarrow> bool" where
  "keeps_inv s \<longleftrightarrow> (\<forall>a db db'. db_inv db \<longrightarrow> s a db = Some db' \<longrightarrow> db_inv db')"

lemma db_inv_batch:
  "\<forall>s \<in> set ss. keeps_inv s \<Longrightarrow> db_inv db \<Longrightarrow> db_inv (snd (run_batch ss args db))"
proof (induction ss args db rule: run_batch.induct)
  case (2 s ss a args db)
  show ?case
  proof (cases "s a db")
    case None
    with 2 show ?thesis by simp
  next
    case (Some db')
    then have "db_inv db'" using "2.prems" by (simp add: keeps_inv_def)
    with 2 Some show ?thesis by simp
  qed
qed simp_all

lemma reap_fail_inv: "db_inv db \<Longrightarrow> reap_fail a db = Some db' \<Longrightarrow> db_inv db'"
  by (induction a db rule: reap_fail.induct) (auto intro!: db_inv_update)

lemma reap_requeue_inv: "db_inv db \<Longrightarrow> reap_requeue a db = Some db' \<Longrightarrow> db_inv db'"
  by (induction a db rule: reap_requeue.induct) (auto intro!: db_inv_update)

lemma reap_delete_inv: "db_inv db \<Longrightarrow> reap_delete a db = Some db' \<Longrightarrow> db_inv db'"
  by (induction a db rule: reap_delete.induct) (auto intro!: db_inv_delete)

lemma reap_inv: "keeps_inv reap_fail" "keeps_inv reap_requeue" "keeps_inv reap_delete"
  unfolding keeps_inv_def using reap_fail_inv reap_requeue_inv reap_delete_inv by blast+

lemma store_inv_exec:
  "store_inv c \<Longrightarrow> (\<And>db. db_inv db \<Longrightarrow> db_inv (f db)) \<Longrightarrow> store_inv (snd (exec fault f c))"
  by (simp add: store_inv_def exec_def on_db_def split: option.splits)

lemma store_inv_Enqueue [inv_intros]:
  "store_inv c \<Longrightarrow> store_inv (snd (Enqueue fault now h m k i d c))"
  using db_inv_enqueue [of "cs_db c" now h m k i]
  by (auto simp: Enqueue_def store_inv_def split: option.splits prod.splits)

lemma store_inv_Dequeue [inv_intros]:
  assumes "store_inv c"
  shows "store_inv (fst (snd (Dequeue fault now hs l c e)))"
proof -
  have "db_inv (sql_update P (lease_row now l) (cs_db c))" for P
    using assms by (intro db_inv_update) (simp_all add: store_inv_def lease_row_def)
  with assms show ?thesis by (simp add: Dequeue_def store_inv_def Let_def split: option.splits)
qed

lemma store_inv_Reaping [inv_intros]:
  assumes "store_inv c"
  shows "store_inv (snd (Reaping fault bind now c))"
proof -
  let ?r = "run_batch [reap_fail, reap_requeue, reap_delete]
    (bind [3, 2, 1] [ATime now, ATime now, AInt (maxretry c), ATime now, ATime now]) (cs_db c)"
  have "db_inv (snd ?r)" using assms by (intro db_inv_batch) (simp_all add: reap_inv store_inv_def)
  with assms show ?thesis
    by (simp add: Reaping_def store_inv_def case_prod_beta split: option.splits)
qed

lemma store_inv_LeaseUpdate [inv_intros]:
  "store_inv c \<Longrightarrow> store_inv (snd (LeaseUpdate fault now k l c))"
  unfolding LeaseUpdate_def by (rule store_inv_exec) (auto intro!: db_inv_update)

lemma db_inv_done_updates:
  "db_inv db \<Longrightarrow> db_inv (done_update_ttl now m k out err db)"
  "db_inv db \<Longrightarrow> db_inv (done_update now m k err db)"
  unfolding done_update_ttl_def done_update_def by (rule db_inv_update; simp)+

lemma store_inv_doneAsync [inv_intros]:
  assumes "store_inv c"
  shows "store_inv (snd (doneAsync df now h m k i out err c))"
proof -
  let ?commit = "if m_ttl m \<noteq> None then done_update_ttl now m k out err
    else upsert_result (result_row_of now h m (done_status err) k i out err) \<circ> done_update now m k err"
  have commit: "store_inv (on_db ?commit c)"
    using assms by (simp add: store_inv_def on_db_def db_inv_done_updates db_inv_upsert)
  have "snd (doneAsync df now h m k i out err c) \<in> {c, on_db ?commit c, c\<lparr>open_tx := Suc (open_tx c)\<rparr>}"
    unfolding doneAsync_def Let_def by (auto split: option.split done_fault.split)
  with assms commit show ?thesis by (auto simp: store_inv_def)
qed

lemma store_inv_Free [inv_intros]: "store_inv c \<Longrightarrow> store_inv (snd (Free fault k c))"
  unfolding Free_def by (rule store_inv_exec) (auto intro: db_inv_delete)

lemma store_inv_Done [inv_intros]:
  "store_inv c \<Longrightarrow> store_inv (snd (Done fault now h m k i out err c))"
  using store_inv_exec [of c "upsert_result r" fault for r, OF _ db_inv_upsert]
  by (simp add: Done_def split: option.splits)

lemma store_inv_requeue [inv_intros]: "store_inv c \<Longrightarrow> store_inv (snd (requeue fault now k ds c))"
  unfolding requeue_def by (rule store_inv_exec) (auto intro!: db_inv_update)

subsection \<open>Reachable stores\<close>

datatype store_op =
  OpEnqueue "string option" time string jobMeta string "bytes option" int
| OpDequeue "string option" time "string list" duration
| OpReaping "string option" arg_binding time
| OpLeaseUpdate "string option" time string duration
| OpDoneAsync "done_fault option" time string jobMeta string "bytes option" "bytes option" "bytes option"
| OpFree "string option" string
| OpDone "string option" time string jobMeta string "bytes option" "bytes option" "bytes option"
| OpRequeue "string option" time string int

fun apply_op :: "store_op \<Rightarrow> callSQLStrategy \<Rightarrow> callSQLStrategy" where
  "apply_op (OpEnqueue fault now h m k i d) c = snd (Enqueue fault now h m k i d c)"
| "apply_op (OpDequeue fault now hs l) c = fst (snd (Dequeue fault now hs l c (newEMACalculator 0)))"
| "apply_op (OpReaping fault bind now) c = snd (Reaping fault bind now c)"
| "apply_op (OpLeaseUpdate fault now k l) c = snd (LeaseUpdate fault now k l c)"
| "apply_op (OpDoneAsync df now h m k i out err) c = snd (doneAsync df now h m k i out err c)"
| "apply_op (OpFree fault k) c = snd (Free fault k c)"
| "apply_op (OpDone fault now h m k i out err) c = snd (Done fault now h m k i out err c)"
| "apply_op (OpRequeue fault now k ds) c = snd (requeue fault now k ds c)"

inductive store_reachable :: "callSQLStrategy \<Rightarrow> bool" where
  reach_init: "store_reachable (newcallSQLStrategy interval timeout retries)"
| reach_step: "store_reachable c \<Longrightarrow> store_reachable (apply_op op c)"

lemma apply_op_inv [inv_intros]: "store_inv c \<Longrightarrow> store_inv (apply_op op c)"
  by (cases op) (auto intro: inv_intros)

lemma reachable_inv: "store_reachable c \<Longrightarrow> store_inv c"
proof (induction rule: store_reachable.induct)
  case (reach_init interval timeout retries)
  show ?case by (simp add: store_inv_def newcallSQLStrategy_def db_inv_def wf_empty_db)
next
  case (reach_step c op)
  then show ?case by (auto intro: apply_op_inv)
qed

lemma sum_row_weight:
  "(\<Sum>r \<leftarrow> rows. row_weight r (rt, st)) =
    int (length (filter (\<lambda>r. e_root r = rt \<and> e_status r = st) rows)) +
    (if rt = ''*'' then int (length (filter (\<lambda>r. e_status r = st) rows)) else 0)"
  by (induction rows) (auto simp: row_weight_def)

text \<open>C1. In every reachable store, whatever operations, driver failures and argument bindings led
  there: job keys, row ids and result keys are unique, and the trigger-maintained counter table
  agrees with the rows it counts: under a root id the number of jobs of each status it has, and under
  \<open>*\<close> the number of all jobs of each status (plus those whose own root id is \<open>*\<close>, counted twice).\<close>

theorem store_invariant:
  assumes "store_reachable c"
  shows "distinct (map e_key (executions (cs_db c))) \<and> distinct (map e_id (executions (cs_db c))) \<and>
    distinct (map r_key (results (cs_db c))) \<and>
    (\<forall>rt st. count_of (counts (cs_db c)) (rt, st) =
      int (length (filter (\<lambda>r. e_root r = rt \<and> e_status r = st) (executions (cs_db c)))) +
      (if rt = ''*'' then int (length (filter (\<lambda>r. e_status r = st) (executions (cs_db c)))) else 0))"
  using reachable_inv [OF assms]
  by (simp add: store_inv_def db_inv_def wf_keys_def wf_counts_def counts_match_def sum_row_weight)

definition example_meta :: "int \<Rightarrow> int \<Rightarrow> jobMeta" where
  "example_meta status prio =
     \<lparr>m_version = ''0.0.1'', m_status = status, m_parent = [], m_root = ''r'', m_ttl = None, m_priority = prio\<rparr>"

definition example_store :: callSQLStrategy where
  "example_store =
     apply_op (OpEnqueue None 5 ''mail'' (example_meta statusQueued 7) ''k2'' (Some ''{}'') 0)
       (apply_op (OpEnqueue None 4 ''mail'' (example_meta statusQueued 1) ''k1'' (Some ''{}'') 0)
         (newcallSQLStrategy 1 2 3))"

lemma example_reachable: "store_reachable example_store"
  unfolding example_store_def by (intro reach_step reach_init)

theorem store_invariant_witness:
  "store_reachable (apply_op (OpDequeue None 9 [''mail''] second) example_store) \<and>
   count_of (counts (cs_db (apply_op (OpDequeue None 9 [''mail''] second) example_store))) (''*'', statusLeased) = 1"
proof -
  let ?c = "apply_op (OpDequeue None 9 [''mail''] second) example_store"
  have r: "store_reachable ?c" by (rule reach_step [OF example_reachable])
  have "map (\<lambda>r. (e_root r, e_status r)) (executions (cs_db ?c)) =
    [(''r'', statusQueued), (''r'', statusLeased)]"
    by code_simp
  then obtain a b where ab: "executions (cs_db ?c) = [a, b]" "e_root a = ''r''" "e_status a = statusQueued"
    "e_root b = ''r''" "e_status b = statusLeased" by (auto simp: map_eq_Cons_conv)
  from store_invariant [OF r] have "count_of (counts (cs_db ?c)) (''*'', statusLeased) =
      int (length (filter (\<lambda>r. e_root r = ''*'' \<and> e_status r = statusLeased) (executions (cs_db ?c)))) +
      int (length (filter (\<lambda>r. e_status r = statusLeased) (executions (cs_db ?c))))" by simp
  with ab r show ?thesis by simp
qed

subsection \<open>Dequeue\<close>

lemma dq_before_total: "e_id a \<noteq> e_id b \<Longrightarrow> \<not> dq_before a b \<Longrightarrow> dq_before b a"
  by (auto simp: dq_before_def)

lemma dq_before_trans: "dq_before a b \<Longrightarrow> dq_before b c \<Longrightarrow> dq_before a c"
  by (auto simp: dq_before_def)

lemma first_row_None: "first_row rs = None \<longleftrightarrow> rs = []"
  by (cases rs) (auto split: option.splits)

lemma first_row_Some:
  "first_row rs = Some r \<Longrightarrow> distinct (map e_id rs) \<Longrightarrow>
    r \<in> set rs \<and> (\<forall>x \<in> set rs. x \<noteq> r \<longrightarrow> dq_before r x)"
proof (induction rs arbitrary: r)
  case Nil
  then show ?case by simp
next
  case (Cons a rs)
  show ?case
  proof (cases "first_row rs")
    case None
    with Cons.prems show ?thesis by (simp add: first_row_None)
  next
    case (Some b)
    with Cons have b: "b \<in> set rs" "\<forall>x \<in> set rs. x \<noteq> b \<longrightarrow> dq_before b x" by auto
    with Cons.prems(2) have ids: "e_id a \<noteq> e_id b" by (auto simp: image_iff)
    show ?thesis
    proof (cases "dq_before b a")
      case True
      with Some Cons.prems(1) b show ?thesis by auto
    next
      case False
      with ids have ab: "dq_before a b" using dq_before_total by blast
      with b(2) have "\<forall>x \<in> set rs. dq_before a x" using dq_before_trans [of a b] by metis
      with Some False Cons.prems(1) show ?thesis by auto
    qed
  qed
qed

text \<open>The job a dequeue hands out.\<close>

definition next_job :: "time \<Rightarrow> string list \<Rightarrow> job_db \<Rightarrow> exec_row option" where
  "next_job now hs db = first_row (filter (dq_eligible now hs) (executions db))"

lemma next_job_None: "next_job now hs db = None \<longleftrightarrow> (\<forall>r \<in> set (executions db). \<not> dq_eligible now hs r)"
  by (auto simp: next_job_def first_row_None filter_empty_conv)

lemma next_job_Some:
  assumes "next_job now hs db = Some r" "wf_keys db"
  shows "r \<in> set (executions db)" "dq_eligible now hs r"
    "\<forall>x \<in> set (executions db). dq_eligible now hs x \<and> x \<noteq> r \<longrightarrow> dq_before r x"
proof -
  have "distinct (map e_id (filter (dq_eligible now hs) (executions db)))"
    using assms(2) by (simp add: wf_keys_def distinct_map_filter)
  from first_row_Some [OF assms(1) [unfolded next_job_def] this]
  show "r \<in> set (executions db)" "dq_eligible now hs r"
    "\<forall>x \<in> set (executions db). dq_eligible now hs x \<and> x \<noteq> r \<longrightarrow> dq_before r x" by auto
qed

lemma Dequeue_cases:
  "Dequeue None now hs l c e =
    (case next_job now hs (cs_db c) of
       None \<Rightarrow> (Inl ErrJobNotFound, c, e)
     | Some r \<Rightarrow> (Inr \<lparr>t_key = e_key r, t_handler = e_handler r,
           t_meta = zeroMeta\<lparr>m_version := e_version r, m_status := statusLeased,
                             m_parent := e_parent r, m_root := e_root r\<rparr>, t_input = e_input r\<rparr>,
         c\<lparr>cs_db := sql_update (\<lambda>x. e_id x = e_id r) (lease_row now l) (cs_db c), lastDequeuedId := e_id r\<rparr>,
         ema_Update (of_int (if lastDequeuedId c < 0 then 1 else e_id r - lastDequeuedId c)) e))"
  by (cases "hs = []")
    (simp_all add: Dequeue_def next_job_def Let_def dq_eligible_def split: option.split)

lemma id_iff_key:
  "wf_keys db \<Longrightarrow> r \<in> set (executions db) \<Longrightarrow> x \<in> set (executions db) \<Longrightarrow>
    e_id x = e_id r \<longleftrightarrow> e_key x = e_key r"
  unfolding wf_keys_def by (metis distinct_map inj_onD)

lemma find_exec_lease:
  assumes "wf_keys db" "r \<in> set (executions db)"
  shows "find_exec (sql_update (\<lambda>x. e_id x = e_id r) (lease_row now l) db) k =
    (if k = e_key r then Some (lease_row now l r) else find_exec db k)"
proof -
  have "find_exec (sql_update (\<lambda>x. e_id x = e_id r) (lease_row now l) db) k =
      map_option (\<lambda>x. if e_id x = e_id r then lease_row now l x else x) (find_exec db k)"
    by (rule find_exec_update) (simp add: lease_row_def)
  moreover have "e_id x = e_id r \<longleftrightarrow> k = e_key r" if "find_exec db k = Some x" for x
    using find_exec_Some [OF that] id_iff_key [OF assms, of x] by auto
  ultimately show ?thesis
    using find_exec_unique [OF assms] by (cases "find_exec db k") auto
qed

text \<open>C2. A dequeue from a reachable store finds nothing exactly when no row is queued, due (its run time is not
  after now) and of one of the given handlers, and then changes nothing. Otherwise it hands out such a row that
  comes before every other one by descending priority, then creation time, then id, with its key, handler,
  version, ids and input. That row becomes leased until now plus the lease, with nothing else of it changed but
  the update time, and every other row stays as it was.\<close>

theorem dequeue_correct:
  assumes "store_reachable c"
  shows "let due = (\<lambda>r. r \<in> set (executions (cs_db c)) \<and> e_status r = 0 \<and> e_run_at r \<le> now \<and> e_handler r \<in> set hs) in
    case Dequeue None now hs lease c e of
      (Inl err, c', e') \<Rightarrow> err = ErrJobNotFound \<and> c' = c \<and> e' = e \<and> (\<forall>r. \<not> due r)
    | (Inr t, c', e') \<Rightarrow> \<exists>r. due r \<and>
        (\<forall>x. due x \<and> x \<noteq> r \<longrightarrow> e_priority x < e_priority r \<or> e_priority x = e_priority r \<and>
           (e_created r < e_created x \<or> e_created r = e_created x \<and> e_id r < e_id x)) \<and>
        t = \<lparr>t_key = e_key r, t_handler = e_handler r,
             t_meta = \<lparr>m_version = e_version r, m_status = 1, m_parent = e_parent r, m_root = e_root r,
                       m_ttl = None, m_priority = 0\<rparr>, t_input = e_input r\<rparr> \<and>
        (\<forall>k. find_exec (cs_db c') k =
          (if k = e_key r then Some (r\<lparr>e_status := 1, e_leased := Some (now + lease), e_updated := now\<rparr>)
           else find_exec (cs_db c) k))"
proof -
  have wf: "wf_keys (cs_db c)"
    using reachable_inv [OF assms] by (simp add: store_inv_def db_inv_def)
  show ?thesis
  proof (cases "next_job now hs (cs_db c)")
    case None
    then have "\<forall>r \<in> set (executions (cs_db c)). \<not> dq_eligible now hs r" by (simp add: next_job_None)
    with None show ?thesis by (auto simp: Dequeue_cases dq_eligible_def)
  next
    case (Some r)
    from next_job_Some [OF this wf] Some find_exec_lease [OF wf] show ?thesis
      by (auto simp: Dequeue_cases dq_eligible_def dq_before_def lease_row_def zeroMeta_def Let_def intro!: exI [of _ r])
  qed
qed

theorem dequeue_correct_witness:
  "\<exists>t c' e'. Dequeue None 9 [''mail''] second example_store (newEMACalculator 0) = (Inr t, c', e') \<and>
     t_key t = ''k2'' \<and> map_option e_leased (find_exec (cs_db c') ''k2'') = Some (Some (9 + second))"
proof -
  obtain res c' e' where d: "Dequeue None 9 [''mail''] second example_store (newEMACalculator 0) = (res, c', e')"
    by (cases "Dequeue None 9 [''mail''] second example_store (newEMACalculator 0)") auto
  have rows: "map (\<lambda>r. (e_key r, e_priority r, e_status r, e_run_at r, e_handler r)) (executions (cs_db example_store)) =
      [(''k1'', 1, 0, 4, ''mail''), (''k2'', 7, 0, 5, ''mail'')]" by code_simp
  then obtain a b where ab: "executions (cs_db example_store) = [a, b]" "e_key a = ''k1''" "e_priority a = 1"
    "e_key b = ''k2''" "e_priority b = 7" "e_status a = 0" "e_run_at a = 4" "e_handler a = ''mail''"
    "e_status b = 0" "e_run_at b = 5" "e_handler b = ''mail''"
    by (auto simp: map_eq_Cons_conv)
  then have "a \<noteq> b" by auto
  note q = dequeue_correct [OF example_reachable, where now = 9 and hs = "[''mail'']" and
      lease = second and e = "newEMACalculator 0", unfolded Let_def d, simplified]
  show ?thesis
  proof (cases res)
    case (Inl err)
    with q have "\<not> (b \<in> set (executions (cs_db example_store)) \<and> e_status b = 0 \<and> e_run_at b \<le> 9 \<and> e_handler b = ''mail'')"
      by auto
    with ab show ?thesis by simp
  next
    case (Inr t)
    from q obtain r where r: "r \<in> set (executions (cs_db example_store))"
      "\<forall>x. x \<in> set (executions (cs_db example_store)) \<and> e_status x = 0 \<and> e_run_at x \<le> 9 \<and> e_handler x = ''mail'' \<and> x \<noteq> r \<longrightarrow>
        e_priority x < e_priority r \<or> e_priority x = e_priority r \<and>
        (e_created r < e_created x \<or> e_created r = e_created x \<and> e_id r < e_id x)" "t_key t = e_key r"
      "find_exec (cs_db c') (e_key r) = Some (r\<lparr>e_status := 1, e_leased := Some (9 + second), e_updated := 9\<rparr>)"
      unfolding Inr by fastforce
    have "r = b" using r(1,2) ab \<open>a \<noteq> b\<close> by auto
    with r(3,4) ab(4) Inr d show ?thesis by simp
  qed
qed

subsection \<open>Reaping\<close>

text \<open>
  A driver that starts binding again at the first argument for every statement of a batch, as
  \<open>modernc.org/sqlite\<close> does, and one that hands out the arguments in order, as others do.
\<close>

definition restarts :: "arg_binding \<Rightarrow> bool" where
  "restarts bind \<longleftrightarrow>
     (\<forall>ns args. (\<forall>n \<in> set ns. n \<le> length args) \<longrightarrow> bind ns args = map (\<lambda>n. Some (take n args)) ns)"

definition restart_binding :: arg_binding where
  "restart_binding ns args = map (\<lambda>n. if n \<le> length args then Some (take n args) else None) ns"

fun consume_binding :: "arg_binding" where
  "consume_binding [] args = []"
| "consume_binding (n # ns) args =
     (if n \<le> length args then Some (take n args) else None) # consume_binding ns (drop n args)"

lemma restarts_restart_binding: "restarts restart_binding"
  by (auto simp: restarts_def restart_binding_def)

text \<open>What one reaping does to one row.\<close>

definition reap_row :: "time \<Rightarrow> int \<Rightarrow> exec_row \<Rightarrow> exec_row option" where
  "reap_row now retries r =
     (if e_status r = statusLeased \<and> past (e_leased r) now then
        if (case e_retry r of None \<Rightarrow> False | Some n \<Rightarrow> retries \<le> n) then
          if past (e_ttl r) now then None
          else Some (r\<lparr>e_status := statusError, e_error := Some reap_message, e_updated := now\<rparr>)
        else Some (r\<lparr>e_status := statusQueued, e_leased := None, e_updated := now,
                     e_retry := Some (next_retry (e_retry r))\<rparr>)
      else if (e_status r = statusDone \<or> e_status r = statusError) \<and> past (e_ttl r) now then None
      else Some r)"

definition is_reap_fail :: "time \<Rightarrow> int \<Rightarrow> exec_row \<Rightarrow> bool" where
  "is_reap_fail now retries r \<longleftrightarrow> e_status r = statusLeased \<and> past (e_leased r) now \<and>
     (case e_retry r of None \<Rightarrow> False | Some n \<Rightarrow> retries \<le> n)"

definition is_reap_requeue :: "time \<Rightarrow> exec_row \<Rightarrow> bool" where
  "is_reap_requeue now r \<longleftrightarrow> e_status r = statusLeased \<and> past (e_leased r) now"

definition is_reap_delete :: "time \<Rightarrow> exec_row \<Rightarrow> bool" where
  "is_reap_delete now r \<longleftrightarrow> (e_status r = statusDone \<or> e_status r = statusError) \<and> past (e_ttl r) now"

definition reap_db :: "time \<Rightarrow> int \<Rightarrow> job_db \<Rightarrow> job_db" where
  "reap_db now retries db =
     sql_delete (is_reap_delete now)
       (sql_update (is_reap_requeue now)
          (\<lambda>r. r\<lparr>e_status := statusQueued, e_leased := None, e_updated := now,
                 e_retry := Some (next_retry (e_retry r))\<rparr>)
          (sql_update (is_reap_fail now retries)
             (\<lambda>r. r\<lparr>e_status := statusError, e_error := Some reap_message, e_updated := now\<rparr>) db))"

lemma Reaping_restart:
  assumes "restarts bind"
  shows "Reaping None bind now c = (Inr (), on_db (reap_db now (maxretry c)) c)"
proof -
  have "bind [3, 2, 1] [ATime now, ATime now, AInt (maxretry c), ATime now, ATime now] =
    [Some [ATime now, ATime now, AInt (maxretry c)], Some [ATime now, ATime now], Some [ATime now]]"
    using assms by (simp add: restarts_def numeral_eq_Suc)
  then show ?thesis
    by (simp add: Reaping_def reap_db_def on_db_def is_reap_fail_def [abs_def]
        is_reap_requeue_def [abs_def] is_reap_delete_def [abs_def])
qed

lemma reap_row_steps:
  "(let r1 = (if is_reap_fail now retries r
              then r\<lparr>e_status := statusError, e_error := Some reap_message, e_updated := now\<rparr> else r);
        r2 = (if is_reap_requeue now r1
              then r1\<lparr>e_status := statusQueued, e_leased := None, e_updated := now,
                      e_retry := Some (next_retry (e_retry r1))\<rparr> else r1)
    in if is_reap_delete now r2 then None else Some r2) = reap_row now retries r"
proof (cases "is_reap_requeue now r")
  case True
  then show ?thesis
    by (cases "is_reap_fail now retries r")
      (auto simp: Let_def reap_row_def is_reap_fail_def is_reap_requeue_def is_reap_delete_def)
next
  case False
  then have "\<not> is_reap_fail now retries r" by (auto simp: is_reap_fail_def is_reap_requeue_def)
  with False show ?thesis
    by (auto simp: Let_def reap_row_def is_reap_requeue_def is_reap_delete_def)
qed

lemma find_exec_reap:
  assumes "db_inv db"
  shows "find_exec (reap_db now retries db) k =
    (case find_exec db k of None \<Rightarrow> None | Some r \<Rightarrow> reap_row now retries r)"
proof -
  let ?f = "\<lambda>r. r\<lparr>e_status := statusError, e_error := Some reap_message, e_updated := now\<rparr>"
  let ?g = "\<lambda>r. r\<lparr>e_status := statusQueued, e_leased := None, e_updated := now,
    e_retry := Some (next_retry (e_retry r))\<rparr>"
  let ?db1 = "sql_update (is_reap_fail now retries) ?f db"
  let ?db2 = "sql_update (is_reap_requeue now) ?g ?db1"
  have "db_inv ?db1" using assms by (rule db_inv_update) simp_all
  then have "db_inv ?db2" by (rule db_inv_update) simp_all
  then have wf: "wf_keys ?db2" by (simp add: db_inv_def)
  have 1: "find_exec ?db1 k = map_option (\<lambda>r. if is_reap_fail now retries r then ?f r else r) (find_exec db k)"
    by (rule find_exec_update) simp
  have 2: "find_exec ?db2 k = map_option (\<lambda>r. if is_reap_requeue now r then ?g r else r) (find_exec ?db1 k)"
    by (rule find_exec_update) simp
  have "find_exec (reap_db now retries db) k =
    (case find_exec ?db2 k of None \<Rightarrow> None | Some r \<Rightarrow> if is_reap_delete now r then None else Some r)"
    unfolding reap_db_def by (rule find_exec_delete [OF wf])
  then have "find_exec (reap_db now retries db) k =
    (case find_exec db k of None \<Rightarrow> None
     | Some r \<Rightarrow> let r1 = (if is_reap_fail now retries r then ?f r else r);
                      r2 = (if is_reap_requeue now r1 then ?g r1 else r1)
                  in if is_reap_delete now r2 then None else Some r2)"
    unfolding 2 1 by (cases "find_exec db k") (simp_all add: Let_def)
  also have "\<dots> = (case find_exec db k of None \<Rightarrow> None | Some r \<Rightarrow> reap_row now retries r)"
    by (rule option.case_cong [OF refl refl]) (rule reap_row_steps)
  finally show ?thesis .
qed

lemma consume_batch:
  "consume_binding [3, 2, Suc 0] [a, b, c, d, e] = [Some [a, b, c], Some [d, e], None]"
  by (simp add: numeral_eq_Suc)

lemma Reaping_consume:
  "Reaping None consume_binding now c = (Inl (DriverError ''bind''),
     on_db (\<lambda>db. sql_update (is_reap_requeue now)
          (\<lambda>r. r\<lparr>e_status := statusQueued, e_leased := None, e_updated := now,
                 e_retry := Some (next_retry (e_retry r))\<rparr>)
          (sql_update (is_reap_fail now (maxretry c))
             (\<lambda>r. r\<lparr>e_status := statusError, e_error := Some reap_message, e_updated := now\<rparr>) db)) c)"
  by (simp add: Reaping_def consume_batch on_db_def is_reap_fail_def [abs_def] is_reap_requeue_def [abs_def]
      del: consume_binding.simps)

lemma past_iff: "past t now \<longleftrightarrow> (\<exists>u. t = Some u \<and> u < now)"
  by (cases t) (auto simp: past_def)

lemma retries_over: "(case e_retry r of None \<Rightarrow> False | Some n \<Rightarrow> m \<le> n) \<longleftrightarrow> (\<exists>n. e_retry r = Some n \<and> m \<le> n)"
  by (cases "e_retry r") auto

text \<open>C9. With a driver that restarts argument binding per statement, a reaping of a reachable
  store treats every row on its own: a leased row past its lease goes back to the queue, without a lease and
  with one retry more (from none: one), or, once its retry count has reached the maximum, becomes an error (and is
  deleted at once when its TTL is over too); a done or failed row past its TTL is deleted; every other
  row is kept. With a driver that consumes the arguments in order, the call fails at its third
  statement: the same rows have been failed and queued again, and nothing has been deleted.\<close>

theorem reaping_effect:
  assumes "store_reachable c"
  shows "let over = (\<lambda>t. \<exists>u. t = Some u \<and> u < now);
      expired = (\<lambda>r. e_status r = 1 \<and> over (e_leased r));
      worn = (\<lambda>r. \<exists>n. e_retry r = Some n \<and> maxretry c \<le> n);
      failed = (\<lambda>r. r\<lparr>e_status := 3, e_error := Some reap_message, e_updated := now\<rparr>);
      queued = (\<lambda>r. r\<lparr>e_status := 0, e_leased := None, e_updated := now,
                      e_retry := Some (case e_retry r of None \<Rightarrow> 1 | Some n \<Rightarrow> n + 1)\<rparr>);
      row = find_exec (cs_db c) in
    (restarts bind \<longrightarrow> (\<exists>c'. Reaping None bind now c = (Inr (), c') \<and>
      (\<forall>k. find_exec (cs_db c') k = (case row k of
          None \<Rightarrow> None
        | Some r \<Rightarrow> if expired r then (if worn r then (if over (e_ttl r) then None else Some (failed r))
                                      else Some (queued r))
                   else if (e_status r = 2 \<or> e_status r = 3) \<and> over (e_ttl r) then None else Some r)))) \<and>
    (\<exists>e c'. Reaping None consume_binding now c = (Inl e, c') \<and>
      (\<forall>k. find_exec (cs_db c') k =
        map_option (\<lambda>r. if expired r then (if worn r then failed r else queued r) else r) (row k)))"
proof -
  have inv: "db_inv (cs_db c)" using reachable_inv [OF assms] by (simp add: store_inv_def)
  have db: "cs_db (on_db h c) = h (cs_db c)" for h by (simp add: on_db_def)
  let ?f = "\<lambda>r. r\<lparr>e_status := statusError, e_error := Some reap_message, e_updated := now\<rparr>"
  let ?g = "\<lambda>r. r\<lparr>e_status := statusQueued, e_leased := None, e_updated := now,
    e_retry := Some (next_retry (e_retry r))\<rparr>"
  have retry: "next_retry n = (case n of None \<Rightarrow> 1 | Some m \<Rightarrow> m + 1)" for n
    by (simp add: next_retry_def split: option.split)
  have 1: "find_exec (sql_update (is_reap_fail now n) ?f db) k =
      map_option (\<lambda>r. if is_reap_fail now n r then ?f r else r) (find_exec db k)" for n db k
    by (rule find_exec_update) simp
  have 2: "find_exec (sql_update (is_reap_requeue now) ?g db) k =
      map_option (\<lambda>r. if is_reap_requeue now r then ?g r else r) (find_exec db k)" for db k
    by (rule find_exec_update) simp
  have consumed: "find_exec (cs_db (snd (Reaping None consume_binding now c))) k =
      map_option (\<lambda>r. if e_status r = 1 \<and> past (e_leased r) now
          then if \<exists>n. e_retry r = Some n \<and> maxretry c \<le> n then ?f r else ?g r else r) (find_exec (cs_db c) k)" for k
  proof -
    have row: "(if is_reap_requeue now (if is_reap_fail now (maxretry c) r then ?f r else r)
         then ?g (if is_reap_fail now (maxretry c) r then ?f r else r)
         else if is_reap_fail now (maxretry c) r then ?f r else r) =
       (if e_status r = 1 \<and> past (e_leased r) now
          then if \<exists>n. e_retry r = Some n \<and> maxretry c \<le> n then ?f r else ?g r else r)" for r
      unfolding retries_over [symmetric]
      by (cases "is_reap_fail now (maxretry c) r") (auto simp: is_reap_fail_def is_reap_requeue_def)
    show ?thesis
      by (simp only: Reaping_consume snd_conv db 2 1 option.map_comp comp_def row)
  qed
  show ?thesis
    unfolding Let_def
  proof (intro conjI impI)
    assume b: "restarts bind"
    show "\<exists>c'. Reaping None bind now c = (Inr (), c') \<and> (\<forall>k. find_exec (cs_db c') k = (case find_exec (cs_db c) k of
          None \<Rightarrow> None
        | Some r \<Rightarrow> if e_status r = 1 \<and> (\<exists>u. e_leased r = Some u \<and> u < now)
            then (if \<exists>n. e_retry r = Some n \<and> maxretry c \<le> n
                  then (if \<exists>u. e_ttl r = Some u \<and> u < now then None
                        else Some (r\<lparr>e_status := 3, e_error := Some reap_message, e_updated := now\<rparr>))
                  else Some (r\<lparr>e_status := 0, e_leased := None, e_updated := now,
                      e_retry := Some (case e_retry r of None \<Rightarrow> 1 | Some n \<Rightarrow> n + 1)\<rparr>))
            else if (e_status r = 2 \<or> e_status r = 3) \<and> (\<exists>u. e_ttl r = Some u \<and> u < now) then None else Some r))"
      using find_exec_reap [OF inv, of now "maxretry c", unfolded reap_row_def past_iff retries_over retry]
      by (intro exI [of _ "on_db (reap_db now (maxretry c)) c"] conjI allI Reaping_restart [OF b]) (simp only: db)
  next
    show "\<exists>e c'. Reaping None consume_binding now c = (Inl e, c') \<and> (\<forall>k. find_exec (cs_db c') k =
        map_option (\<lambda>r. if e_status r = 1 \<and> (\<exists>u. e_leased r = Some u \<and> u < now)
          then (if \<exists>n. e_retry r = Some n \<and> maxretry c \<le> n
                then r\<lparr>e_status := 3, e_error := Some reap_message, e_updated := now\<rparr>
                else r\<lparr>e_status := 0, e_leased := None, e_updated := now,
                      e_retry := Some (case e_retry r of None \<Rightarrow> 1 | Some n \<Rightarrow> n + 1)\<rparr>) else r) (find_exec (cs_db c) k))"
      by (intro exI [of _ "DriverError ''bind''"] exI [of _ "snd (Reaping None consume_binding now c)"] conjI allI
          consumed [unfolded past_iff retry]) (simp only: Reaping_consume snd_conv)
  qed
qed

theorem reaping_effect_witness:
  "restarts restart_binding \<and> store_reachable (apply_op (OpDequeue None 9 [''mail''] 5) example_store) \<and>
   map_option (\<lambda>r. (e_status r, e_retry r)) (find_exec (cs_db (snd (Reaping None restart_binding 15
     (apply_op (OpDequeue None 9 [''mail''] 5) example_store)))) ''k2'') = Some (statusQueued, Some 1)"
proof -
  let ?c = "apply_op (OpDequeue None 9 [''mail''] 5) example_store"
  have r: "store_reachable ?c" by (rule reach_step [OF example_reachable])
  have row: "map_option (\<lambda>r. (e_status r, e_leased r, e_retry r)) (find_exec (cs_db ?c) ''k2'') = Some (1, Some 14, None)"
    by code_simp
  obtain x where x: "find_exec (cs_db ?c) ''k2'' = Some x" "e_status x = 1" "e_leased x = Some 14" "e_retry x = None"
    using row by (cases "find_exec (cs_db ?c) ''k2''") auto
  have "\<exists>c'. Reaping None restart_binding 15 ?c = (Inr (), c') \<and> find_exec (cs_db c') ''k2'' =
      Some (x\<lparr>e_status := 0, e_leased := None, e_updated := 15, e_retry := Some 1\<rparr>)"
    using reaping_effect [OF r, where bind = restart_binding and now = 15, unfolded Let_def, THEN conjunct1, rule_format,
        OF restarts_restart_binding] x by fastforce
  with r show ?thesis by (auto simp: restarts_restart_binding)
qed

subsection \<open>Leases exclude a second dispatch\<close>

definition lease_held :: "callSQLStrategy \<Rightarrow> string \<Rightarrow> time \<Rightarrow> bool" where
  "lease_held c k u \<longleftrightarrow>
     (\<exists>r v. find_exec (cs_db c) k = Some r \<and> e_status r = statusLeased \<and> e_leased r = Some v \<and> u \<le> v)"

text \<open>
  The operations that respect the lease of \<open>k\<close> until \<open>u\<close>: all of them on other keys, every
  enqueue and dequeue, a reaping not later than \<open>u\<close>, a heartbeat that does not shorten the lease.
\<close>

fun respects_lease :: "string \<Rightarrow> time \<Rightarrow> store_op \<Rightarrow> bool" where
  "respects_lease k u (OpReaping fault bind now) = (restarts bind \<and> now \<le> u)"
| "respects_lease k u (OpLeaseUpdate fault now k' l) = (k' = k \<longrightarrow> u \<le> now + l)"
| "respects_lease k u (OpDoneAsync df now h m k' i out err) = (k' \<noteq> k)"
| "respects_lease k u (OpFree fault k') = (k' \<noteq> k)"
| "respects_lease k u (OpRequeue fault now k' ds) = (k' \<noteq> k)"
| "respects_lease k u _ = True"

lemma enqueue_db_cases:
  assumes "db_inv db"
  shows "enqueue_db now h m k i db =
    (case find_exec db k of
       None \<Rightarrow> (True, sql_insert (enqueue_row now h m k i) db)
     | Some r \<Rightarrow> (reusable now r, sql_update (\<lambda>r. e_key r = k \<and> reusable now r) (enqueue_reuse now h m i) db))"
proof (cases "find_exec db k")
  case None
  then show ?thesis by (simp add: enqueue_db_def)
next
  case (Some r)
  have wf: "wf_keys db" using assms by (simp add: db_inv_def)
  have r: "r \<in> set (executions db)" "e_key r = k" using find_exec_Some [OF Some] by auto
  have "x = r" if "x \<in> set (executions db)" "e_key x = k" for x
    using find_exec_unique [OF wf that(1)] that(2) Some by simp
  with r have "(\<exists>x \<in> set (executions db). e_key x = k \<and> reusable now x) \<longleftrightarrow> reusable now r" by blast
  then have "0 < rows_affected (\<lambda>x. e_key x = k \<and> reusable now x) db \<longleftrightarrow> reusable now r"
    by (simp add: rows_affected_def filter_empty_conv)
  then show ?thesis by (simp only: enqueue_db_def Some option.case)
qed

lemma find_exec_enqueue:
  assumes "db_inv db"
  shows "find_exec (snd (enqueue_db now h m k i db)) j =
    (if j \<noteq> k then find_exec db j
     else case find_exec db k of
            None \<Rightarrow> Some (enqueue_row now h m k i (next_id db))
          | Some r \<Rightarrow> Some (if reusable now r then enqueue_reuse now h m i r else r))"
proof (cases "find_exec db k")
  case None
  have "find_exec (sql_insert (enqueue_row now h m k i) db) j =
      (if j = k then Some (enqueue_row now h m k i (next_id db)) else find_exec db j)"
    by (rule find_exec_insert) (simp_all add: enqueue_row_def None)
  with None show ?thesis by (simp add: enqueue_db_cases [OF assms])
next
  case (Some r)
  have "find_exec (sql_update (\<lambda>r. e_key r = k \<and> reusable now r) (enqueue_reuse now h m i) db) j =
      map_option (\<lambda>r. if e_key r = k \<and> reusable now r then enqueue_reuse now h m i r else r) (find_exec db j)"
    by (rule find_exec_update) (simp add: enqueue_reuse_def)
  moreover have "snd (enqueue_db now h m k i db) =
      sql_update (\<lambda>r. e_key r = k \<and> reusable now r) (enqueue_reuse now h m i) db"
    by (simp add: enqueue_db_cases [OF assms] Some)
  moreover have "e_key r = k" using find_exec_Some [OF Some] by simp
  ultimately show ?thesis
  proof (cases "j = k")
    case False
    then have "find_exec db j = Some x \<Longrightarrow> e_key x \<noteq> k" for x using find_exec_Some [of db j x] by auto
    with False \<open>snd _ = _\<close> \<open>find_exec (sql_update _ _ _) j = _\<close> show ?thesis
      by (cases "find_exec db j") simp_all
  qed (simp add: Some)
qed

lemma lease_held_db:
  "find_exec (cs_db c') k = find_exec (cs_db c) k \<Longrightarrow> lease_held c k u \<Longrightarrow> lease_held c' k u"
  by (simp add: lease_held_def)

lemma find_exec_update_other:
  assumes "\<And>r. e_key (f r) = e_key r" "k' \<noteq> k"
  shows "find_exec (sql_update (\<lambda>r. e_key r = k') f db) k = find_exec db k"
  using assms by (cases "find_exec db k") (auto simp: find_exec_update dest: find_exec_Some)

lemma next_job_not_leased:
  assumes "wf_keys (cs_db c)" "lease_held c k u" "next_job now hs (cs_db c) = Some r"
  shows "e_key r \<noteq> k"
proof
  assume "e_key r = k"
  with find_exec_unique [OF assms(1) next_job_Some(1) [OF assms(3,1)]] assms(2)
  have "e_status r = statusLeased" by (auto simp: lease_held_def)
  with next_job_Some(2) [OF assms(3,1)] show False by (simp add: dq_eligible_def)
qed

lemma lease_held_Enqueue:
  assumes inv: "store_inv c" and l: "lease_held c k u"
  shows "lease_held (snd (Enqueue fault now h m k' i d c)) k u"
proof (cases fault)
  case None
  have db: "db_inv (cs_db c)" using inv by (simp add: store_inv_def)
  obtain r v where r: "find_exec (cs_db c) k = Some r" "e_status r = statusLeased"
    "e_leased r = Some v" "u \<le> v" using l by (auto simp: lease_held_def)
  then have "\<not> reusable now r" by (simp add: reusable_def)
  with r have "find_exec (snd (enqueue_db now h m k' i (cs_db c))) k = find_exec (cs_db c) k"
    by (cases "k = k'") (auto simp: find_exec_enqueue [OF db])
  then show ?thesis using lease_held_db [OF _ l] None by (simp add: Enqueue_def case_prod_beta)
qed (use l in \<open>simp add: Enqueue_def\<close>)

lemma lease_held_Dequeue:
  assumes inv: "store_inv c" and l: "lease_held c k u"
  shows "lease_held (fst (snd (Dequeue fault now hs d c e))) k u"
proof (cases fault)
  case None
  have wf: "wf_keys (cs_db c)" using inv by (simp add: store_inv_def db_inv_def)
  show ?thesis
  proof (cases "next_job now hs (cs_db c)")
    case (Some r)
    then have "find_exec (cs_db (fst (snd (Dequeue None now hs d c e)))) k = find_exec (cs_db c) k"
      using find_exec_lease [OF wf next_job_Some(1) [OF Some wf]] next_job_not_leased [OF wf l Some]
      by (simp add: Dequeue_cases)
    with None show ?thesis using lease_held_db [OF _ l] by simp
  qed (use None l in \<open>simp add: Dequeue_cases\<close>)
qed (use l in \<open>simp add: Dequeue_def\<close>)

lemma lease_held_Reaping:
  assumes inv: "store_inv c" and l: "lease_held c k u" and b: "restarts bind" "now \<le> u"
  shows "lease_held (snd (Reaping fault bind now c)) k u"
proof (cases fault)
  case None
  have db: "db_inv (cs_db c)" using inv by (simp add: store_inv_def)
  obtain r v where r: "find_exec (cs_db c) k = Some r" "e_status r = statusLeased"
    "e_leased r = Some v" "u \<le> v" using l by (auto simp: lease_held_def)
  then have "reap_row now (maxretry c) r = Some r" using b(2) by (simp add: reap_row_def past_def)
  with r None show ?thesis
    using lease_held_db [OF _ l] find_exec_reap [OF db]
    by (simp add: Reaping_restart [OF b(1)] on_db_def)
qed (use l in \<open>simp add: Reaping_def\<close>)

lemma lease_held_exec:
  "lease_held c k u \<Longrightarrow> find_exec (f (cs_db c)) k = find_exec (cs_db c) k \<Longrightarrow>
    lease_held (snd (exec fault f c)) k u"
  by (simp add: exec_def on_db_def lease_held_def split: option.splits)

lemma lease_held_LeaseUpdate:
  assumes l: "lease_held c k u" and upd: "k' = k \<longrightarrow> u \<le> now + d"
  shows "lease_held (snd (LeaseUpdate fault now k' d c)) k u"
proof (cases "k' = k")
  case False
  show ?thesis unfolding LeaseUpdate_def
    by (rule lease_held_exec [OF l], rule find_exec_update_other [OF _ False]) simp
next
  case True
  from l obtain r where r: "find_exec (cs_db c) k = Some r" "e_status r = statusLeased"
    by (auto simp: lease_held_def)
  have "find_exec (sql_update (\<lambda>r. e_key r = k) (\<lambda>r. r\<lparr>e_leased := Some (now + d), e_updated := now\<rparr>) (cs_db c)) k
      = Some (r\<lparr>e_leased := Some (now + d), e_updated := now\<rparr>)"
    using r find_exec_Some [OF r(1)] by (simp add: find_exec_update)
  with l r True upd show ?thesis
    by (cases fault) (simp_all add: LeaseUpdate_def exec_def on_db_def lease_held_def)
qed

lemma lease_held_doneAsync:
  assumes l: "lease_held c k u" and ne: "k' \<noteq> k"
  shows "lease_held (snd (doneAsync df now h m k' i out err c)) k u"
proof -
  have 1: "find_exec (done_update_ttl now m k' out err db) k = find_exec db k"
    "find_exec (done_update now m k' err db) k = find_exec db k" for db
    unfolding done_update_ttl_def done_update_def by (rule find_exec_update_other [OF _ ne]; simp)+
  have "find_exec (cs_db (snd (doneAsync df now h m k' i out err c))) k = find_exec (cs_db c) k"
    unfolding doneAsync_def Let_def
    by (cases df; (cases "the df")?; cases "m_ttl m") (simp_all add: on_db_def 1)
  then show ?thesis by (rule lease_held_db [OF _ l])
qed

lemma lease_held_Done: "lease_held c k u \<Longrightarrow> lease_held (snd (Done fault now h m k' i out err c)) k u"
  by (cases fault; cases "m_ttl m") (simp_all add: Done_def exec_def on_db_def lease_held_def)

lemma lease_held_Free:
  assumes "store_inv c" "lease_held c k u" "k' \<noteq> k"
  shows "lease_held (snd (Free fault k' c)) k u"
  unfolding Free_def
proof (rule lease_held_exec [OF assms(2)])
  have "wf_keys (cs_db c)" using assms(1) by (simp add: store_inv_def db_inv_def)
  then show "find_exec (sql_delete (\<lambda>r. e_key r = k') (cs_db c)) k = find_exec (cs_db c) k"
    using assms(3) by (cases "find_exec (cs_db c) k") (auto simp: find_exec_delete dest: find_exec_Some)
qed

lemma lease_held_requeue:
  assumes "lease_held c k u" "k' \<noteq> k"
  shows "lease_held (snd (requeue fault now k' ds c)) k u"
  unfolding requeue_def
  by (rule lease_held_exec [OF assms(1)], rule find_exec_update_other [OF _ assms(2)]) simp

lemma lease_held_op:
  assumes "store_inv c" "lease_held c k u" "respects_lease k u op"
  shows "lease_held (apply_op op c) k u"
  using assms
  by (cases op)
    (simp_all add: lease_held_Enqueue lease_held_Dequeue lease_held_Reaping lease_held_LeaseUpdate
      lease_held_doneAsync lease_held_Done lease_held_Free lease_held_requeue)

lemma lease_held_ops:
  "store_inv c \<Longrightarrow> lease_held c k u \<Longrightarrow> \<forall>op \<in> set ops. respects_lease k u op \<Longrightarrow>
    store_inv (fold apply_op ops c) \<and> lease_held (fold apply_op ops c) k u"
  by (induction ops arbitrary: c) (simp_all add: lease_held_op apply_op_inv)

lemma Dequeue_holds:
  assumes "store_inv c" "Dequeue None now hs l c e = (Inr t, c', e')"
  shows "store_inv c' \<and> lease_held c' (t_key t) (now + l)"
proof -
  have wf: "wf_keys (cs_db c)" using assms(1) by (simp add: store_inv_def db_inv_def)
  obtain r where r: "next_job now hs (cs_db c) = Some r"
    using assms(2) by (cases "next_job now hs (cs_db c)") (auto simp: Dequeue_cases)
  have "store_inv (fst (snd (Dequeue None now hs l c e)))" by (rule store_inv_Dequeue [OF assms(1)])
  moreover have "find_exec (cs_db c') (t_key t) = Some (lease_row now l r)"
    using assms(2) r find_exec_lease [OF wf next_job_Some(1) [OF r wf]] by (auto simp: Dequeue_cases)
  ultimately show ?thesis using assms(2) by (simp add: lease_held_def lease_row_def)
qed

text \<open>C4. A job that was handed out is not handed out again while its lease lasts: after a dequeue
  at \<open>now\<close> with lease \<open>l\<close>, and after any operations that respect that lease (whatever other workers
  enqueue, dequeue, finish, free or requeue under other keys, any enqueue of the same key, any
  heartbeat that does not shorten the lease, and any reaping not later than its end), the next
  dequeue, at any time and for any handlers, hands out a different job.\<close>

theorem lease_excludes_redispatch:
  assumes "store_reachable c" and "Dequeue None now hs l c e = (Inr t, c', e')"
    and "\<forall>op \<in> set ops. respects_lease (t_key t) (now + l) op"
    and "Dequeue None now2 hs2 l2 (fold apply_op ops c') e2 = (Inr t2, c2, e3)"
  shows "t_key t2 \<noteq> t_key t"
proof -
  from Dequeue_holds [OF reachable_inv [OF assms(1)] assms(2)] lease_held_ops [OF _ _ assms(3)]
  have h: "store_inv (fold apply_op ops c')" "lease_held (fold apply_op ops c') (t_key t) (now + l)"
    by auto
  then have wf: "wf_keys (cs_db (fold apply_op ops c'))" by (simp add: store_inv_def db_inv_def)
  obtain r where "next_job now2 hs2 (cs_db (fold apply_op ops c')) = Some r" "t_key t2 = e_key r"
    using assms(4) by (cases "next_job now2 hs2 (cs_db (fold apply_op ops c'))") (auto simp: Dequeue_cases)
  with next_job_not_leased [OF wf h(2)] show ?thesis by simp
qed

theorem lease_excludes_redispatch_witness:
  "\<exists>t c' e' t2 c2 e3. Dequeue None 9 [''mail''] 5 example_store (newEMACalculator 0) = (Inr t, c', e') \<and>
     Dequeue None 11 [''mail''] 5 (fold apply_op [OpReaping None restart_binding 14] c') e' = (Inr t2, c2, e3) \<and>
     t_key t2 \<noteq> t_key t"
proof -
  let ?d = "Dequeue None 9 [''mail''] 5 example_store (newEMACalculator 0)"
  let ?c = "fold apply_op [OpReaping None restart_binding 14] (fst (snd ?d))"
  let ?d2 = "Dequeue None 11 [''mail''] 5 ?c (snd (snd ?d))"
  have ok: "is_ok (fst ?d)" "is_ok (fst ?d2)" by code_simp+
  obtain t c' e' where d: "?d = (Inr t, c', e')" using ok(1) by (cases ?d; cases "fst ?d") auto
  obtain t2 c2 e3 where d2: "?d2 = (Inr t2, c2, e3)" using ok(2) by (cases ?d2; cases "fst ?d2") auto
  have r: "\<forall>op \<in> set [OpReaping None restart_binding 14]. respects_lease (t_key t) (9 + 5) op"
    by (simp add: restarts_restart_binding)
  have d2': "Dequeue None 11 [''mail''] 5 (fold apply_op [OpReaping None restart_binding 14] c') e' = (Inr t2, c2, e3)"
    using d d2 by simp
  from lease_excludes_redispatch [OF example_reachable d r d2'] d d2' show ?thesis by blast
qed

end
