(* ===== verification/Job_Lock.thy ===== *)
theory Job_Lock
  imports Job_Store_Props
begin

section \<open>The job table as a lock\<close>

text \<open>
  What \<open>call_job\<close> relies on when it runs a deduplicated function: \<open>Enqueue\<close> of a leased row
  acquires the key, \<open>Free\<close> releases it. The locale states the contract, the lemmas inside are the
  mutual exclusion the caller needs; the interpretation discharges it for the SQL store.
\<close>

datatype lock_event =
  Acquire time string jobMeta string "bytes option"
| Release string

text \<open>A sequence of lock operations by any number of callers, with the outcome of each acquire.\<close>

fun lock_run ::
  "(time \<Rightarrow> string \<Rightarrow> jobMeta \<Rightarrow> string \<Rightarrow> bytes option \<Rightarrow> 's \<Rightarrow> bool \<times> 's) \<Rightarrow> (string \<Rightarrow> 's \<Rightarrow> 's) \<Rightarrow>
    lock_event list \<Rightarrow> 's \<Rightarrow> (string \<times> bool) list \<times> 's" where
  "lock_run acq rel [] s = ([], s)"
| "lock_run acq rel (Acquire now h m k i # es) s =
     (case acq now h m k i s of (b, s') \<Rightarrow>
        (case lock_run acq rel es s' of (outs, s'') \<Rightarrow> ((k, b) # outs, s'')))"
| "lock_run acq rel (Release k # es) s = lock_run acq rel es (rel k s)"

locale job_lock =
  fixes inv :: "'s \<Rightarrow> bool"
    and state_of :: "'s \<Rightarrow> string \<Rightarrow> int option"
    and expired :: "'s \<Rightarrow> string \<Rightarrow> time \<Rightarrow> bool"
    and acq :: "time \<Rightarrow> string \<Rightarrow> jobMeta \<Rightarrow> string \<Rightarrow> bytes option \<Rightarrow> 's \<Rightarrow> bool \<times> 's"
    and rel :: "string \<Rightarrow> 's \<Rightarrow> 's"
  assumes acq_inv: "inv s \<Longrightarrow> inv (snd (acq now h m k i s))"
    and rel_inv: "inv s \<Longrightarrow> inv (rel k s)"
    and acq_iff: "inv s \<Longrightarrow> fst (acq now h m k i s) \<longleftrightarrow> state_of s k = None \<or> expired s k now"
    and acq_state: "inv s \<Longrightarrow> fst (acq now h m k i s) \<Longrightarrow>
        state_of (snd (acq now h m k i s)) = (state_of s)(k \<mapsto> m_status m)"
    and acq_fail: "inv s \<Longrightarrow> \<not> fst (acq now h m k i s) \<Longrightarrow> snd (acq now h m k i s) = s"
    and rel_state: "inv s \<Longrightarrow> state_of (rel k s) = (state_of s)(k := None)"
    and expired_done: "inv s \<Longrightarrow> expired s k now \<Longrightarrow> state_of s k = Some statusDone"
begin

lemma acq_held: "inv s \<Longrightarrow> state_of s k = Some statusLeased \<Longrightarrow> \<not> fst (acq now h m k i s)"
  using acq_iff expired_done by fastforce

lemma acq_keeps:
  assumes "inv s" "state_of s k = Some statusLeased" "fst (acq now h m k' i s)"
  shows "state_of (snd (acq now h m k' i s)) k = Some statusLeased"
proof -
  have "k' \<noteq> k" using acq_held [OF assms(1,2)] assms(3) by auto
  with acq_state [OF assms(1,3)] assms(2) show ?thesis by simp
qed

text \<open>While the key is not released every other attempt fails, and it stays leased.\<close>

lemma mutual_exclusion:
  "inv s \<Longrightarrow> state_of s k = Some statusLeased \<Longrightarrow> Release k \<notin> set es \<Longrightarrow>
    (k, True) \<notin> set (fst (lock_run acq rel es s)) \<and>
    inv (snd (lock_run acq rel es s)) \<and> state_of (snd (lock_run acq rel es s)) k = Some statusLeased"
proof (induction es arbitrary: s)
  case Nil
  then show ?case by simp
next
  case (Cons e es)
  show ?case
  proof (cases e)
    case (Acquire now h m k' i)
    obtain b s' where a: "acq now h m k' i s = (b, s')" by (cases "acq now h m k' i s") auto
    have "inv s'" using acq_inv [OF Cons.prems(1), of now h m k' i] a by simp
    moreover have "state_of s' k = Some statusLeased"
      using acq_keeps [OF Cons.prems(1,2), of now h m k' i] acq_fail [OF Cons.prems(1), of now h m k' i]
        a Cons.prems(2) by (cases b) auto
    moreover have "k' = k \<Longrightarrow> \<not> b" using acq_held [OF Cons.prems(1,2), of now h m i] a by auto
    ultimately show ?thesis
      using Cons.IH [of s'] Cons.prems(3) a Acquire by (auto split: prod.splits)
  next
    case (Release k')
    with Cons show ?thesis using rel_inv [OF Cons.prems(1), of k'] rel_state [OF Cons.prems(1), of k'] by auto
  qed
qed

lemma acquired:
  "inv s \<Longrightarrow> fst (acq now h m k i s) \<Longrightarrow> m_status m = statusLeased \<Longrightarrow>
    inv (snd (acq now h m k i s)) \<and> state_of (snd (acq now h m k i s)) k = Some statusLeased"
  by (simp add: acq_inv acq_state)

lemma reacquire: "inv s \<Longrightarrow> fst (acq now h m k i (rel k s))"
  using acq_iff [OF rel_inv] rel_state by simp

end

subsection \<open>The SQL store provides the lock\<close>

definition sql_acquire ::
  "time \<Rightarrow> string \<Rightarrow> jobMeta \<Rightarrow> string \<Rightarrow> bytes option \<Rightarrow> callSQLStrategy \<Rightarrow> bool \<times> callSQLStrategy" where
  "sql_acquire now h m k i c =
     (case Enqueue None now h m k i 0 c of (Inr b, c') \<Rightarrow> (b, c') | (Inl e, c') \<Rightarrow> (False, c'))"

definition sql_release :: "string \<Rightarrow> callSQLStrategy \<Rightarrow> callSQLStrategy" where
  "sql_release k c = snd (Free None k c)"

definition sql_state :: "callSQLStrategy \<Rightarrow> string \<Rightarrow> int option" where
  "sql_state c k = map_option e_status (find_exec (cs_db c) k)"

definition sql_expired :: "callSQLStrategy \<Rightarrow> string \<Rightarrow> time \<Rightarrow> bool" where
  "sql_expired c k now \<longleftrightarrow> (case find_exec (cs_db c) k of None \<Rightarrow> False | Some r \<Rightarrow> reusable now r)"

lemma sql_acquire_eq:
  "sql_acquire now h m k i c =
    (fst (enqueue_db now h m k i (cs_db c)), c\<lparr>cs_db := snd (enqueue_db now h m k i (cs_db c))\<rparr>)"
  by (simp add: sql_acquire_def Enqueue_def split: prod.splits)

lemma sql_update_none: "(\<And>r. r \<in> set (executions db) \<Longrightarrow> \<not> P r) \<Longrightarrow> sql_update P f db = db"
proof -
  assume n: "\<And>r. r \<in> set (executions db) \<Longrightarrow> \<not> P r"
  then have "map (\<lambda>r. if P r then f r else r) (executions db) = executions db"
    by (induction "executions db") (auto intro!: map_idI)
  moreover have "filter P (executions db) = []" using n by (simp add: filter_empty_conv)
  ultimately show ?thesis by (simp add: sql_update_def)
qed

lemma enqueue_db_fail:
  assumes "db_inv db" "\<not> fst (enqueue_db now h m k i db)"
  shows "snd (enqueue_db now h m k i db) = db"
proof -
  obtain r where r: "find_exec db k = Some r" "\<not> reusable now r"
    using assms by (auto simp: enqueue_db_cases split: option.splits)
  have "x = r" if "x \<in> set (executions db)" "e_key x = k" for x
    using find_exec_unique [of db x] assms(1) that r(1) by (simp add: db_inv_def)
  with r(2) have "sql_update (\<lambda>r. e_key r = k \<and> reusable now r) (enqueue_reuse now h m i) db = db"
    by (intro sql_update_none) auto
  with r show ?thesis by (simp add: enqueue_db_cases [OF assms(1)])
qed

lemma fst_enqueue_db:
  "db_inv db \<Longrightarrow> fst (enqueue_db now h m k i db) \<longleftrightarrow>
    (case find_exec db k of None \<Rightarrow> True | Some r \<Rightarrow> reusable now r)"
  by (simp add: enqueue_db_cases split: option.splits)

interpretation sql_lock: job_lock store_inv sql_state sql_expired sql_acquire sql_release
proof (unfold_locales, goal_cases)
  case (1 s now h m k i)
  then show ?case using db_inv_enqueue [of "cs_db s" now h m k i] by (simp add: sql_acquire_eq store_inv_def)
next
  case (2 s k)
  then show ?case by (simp add: sql_release_def store_inv_Free)
next
  case (3 s now h m k i)
  then show ?case
    by (simp add: sql_acquire_eq store_inv_def fst_enqueue_db sql_state_def sql_expired_def split: option.splits)
next
  case (4 s now h m k i)
  have db: "db_inv (cs_db s)" using 4(1) by (simp add: store_inv_def)
  from 4(2) have ok: "fst (enqueue_db now h m k i (cs_db s))" by (simp add: sql_acquire_eq)
  show ?case
  proof (rule ext)
    fix j
    show "sql_state (snd (sql_acquire now h m k i s)) j = ((sql_state s)(k \<mapsto> m_status m)) j"
      using ok
      by (auto simp: sql_state_def sql_acquire_eq find_exec_enqueue [OF db] fst_enqueue_db [OF db]
          enqueue_row_def enqueue_reuse_def split: option.splits)
  qed
next
  case (5 s now h m k i)
  then show ?case using enqueue_db_fail [of "cs_db s"] by (simp add: sql_acquire_eq store_inv_def)
next
  case (6 s k)
  then have "wf_keys (cs_db s)" by (simp add: store_inv_def db_inv_def)
  then show ?case
    by (auto simp: fun_eq_iff sql_state_def sql_release_def Free_def exec_def on_db_def find_exec_delete
        split: option.splits dest: find_exec_Some)
next
  case (7 s k now)
  then show ?case by (auto simp: sql_expired_def sql_state_def reusable_def split: option.splits)
qed

text \<open>C3. The key of a deduplicated job is a lock: once a caller's enqueue of a leased row has
  succeeded on a reachable store, no later enqueue of the key succeeds, whoever makes it, at
  whatever time and with whatever metadata, and whatever other keys are enqueued and freed, until
  the key is freed; and freeing it lets the next enqueue succeed.\<close>

theorem dedupe_mutual_exclusion:
  assumes "store_reachable c" and "fst (sql_acquire now h m k i c)" and "m_status m = statusLeased"
    and "Release k \<notin> set es"
  shows "(k, True) \<notin> set (fst (lock_run sql_acquire sql_release es (snd (sql_acquire now h m k i c)))) \<and>
    fst (sql_acquire now' h' m' k i' (sql_release k
      (snd (lock_run sql_acquire sql_release es (snd (sql_acquire now h m k i c))))))"
  using sql_lock.mutual_exclusion [OF _ _ assms(4)] sql_lock.reacquire
    sql_lock.acquired [OF reachable_inv [OF assms(1)] assms(2,3)] by blast

theorem dedupe_mutual_exclusion_witness:
  "fst (sql_acquire 10 ''mail'' (example_meta statusLeased 0) ''k3'' None example_store) \<and>
   (''k3'', True) \<notin> set (fst (lock_run sql_acquire sql_release
     [Release ''k1'', Acquire 11 ''mail'' (example_meta statusLeased 0) ''k3'' None]
     (snd (sql_acquire 10 ''mail'' (example_meta statusLeased 0) ''k3'' None example_store))))"
proof -
  have a: "fst (sql_acquire 10 ''mail'' (example_meta statusLeased 0) ''k3'' None example_store)" by code_simp
  have st: "m_status (example_meta statusLeased 0) = statusLeased" by (simp add: example_meta_def)
  have r: "Release ''k3'' \<notin> set [Release ''k1'', Acquire 11 ''mail'' (example_meta statusLeased 0) ''k3'' None]"
    by simp
  from dedupe_mutual_exclusion [OF example_reachable a st r] a show ?thesis by blast
qed

text \<open>C28. What an enqueue does on a reachable store, on every branch. It succeeds exactly when the key
  is free or its row is done with a TTL before now. A new row has a new id, the handler, version, status, parent and
  root ids, priority, TTL and input it is given, and no lease, retry count, output or error; a reused row takes
  the same fields but keeps its id, lease, retry count, output, error and creation time. In both cases the job
  is due at once: the delay argument is ignored. No other row changes. An enqueue that does not succeed, or
  that meets a driver error, changes nothing.\<close>

theorem enqueue_correct:
  assumes "store_reachable c"
  shows "\<exists>b c'. Enqueue None now h m k i d c = (Inr b, c') \<and>
    b = (case find_exec (cs_db c) k of
           None \<Rightarrow> True | Some r \<Rightarrow> e_status r = 2 \<and> (\<exists>u. e_ttl r = Some u \<and> u < now)) \<and>
    (\<not> b \<longrightarrow> c' = c) \<and>
    (\<forall>j. j \<noteq> k \<longrightarrow> find_exec (cs_db c') j = find_exec (cs_db c) j) \<and>
    (b \<longrightarrow> find_exec (cs_db c') k = Some (case find_exec (cs_db c) k of
        None \<Rightarrow> \<lparr>e_id = next_id (cs_db c), e_key = k, e_handler = h, e_version = m_version m, e_status = m_status m,
                 e_parent = m_parent m, e_root = m_root m, e_input = i, e_output = None, e_error = None,
                 e_retry = None, e_priority = m_priority m, e_ttl = m_ttl m, e_run_at = now, e_created = now,
                 e_updated = now, e_leased = None\<rparr>
      | Some r \<Rightarrow> r\<lparr>e_handler := h, e_version := m_version m, e_status := m_status m, e_parent := m_parent m,
                   e_root := m_root m, e_input := i, e_priority := m_priority m, e_ttl := m_ttl m,
                   e_run_at := now, e_updated := now\<rparr>)) \<and>
    (\<forall>r \<in> set (executions (cs_db c)). e_id r \<noteq> next_id (cs_db c)) \<and>
    Enqueue (Some err) now h m k i d c = (Inl (DriverError err), c)"
proof -
  have db: "db_inv (cs_db c)" using reachable_inv [OF assms] by (simp add: store_inv_def)
  let ?b = "fst (enqueue_db now h m k i (cs_db c))" and ?db = "snd (enqueue_db now h m k i (cs_db c))"
  have e: "Enqueue None now h m k i d c = (Inr ?b, c\<lparr>cs_db := ?db\<rparr>)"
    by (simp add: Enqueue_def case_prod_beta)
  have b: "?b = (case find_exec (cs_db c) k of
      None \<Rightarrow> True | Some r \<Rightarrow> e_status r = 2 \<and> (\<exists>u. e_ttl r = Some u \<and> u < now))"
    by (simp add: fst_enqueue_db [OF db] reusable_def past_iff split: option.splits)
  have row: "?b \<Longrightarrow> find_exec ?db k =
      Some (case find_exec (cs_db c) k of None \<Rightarrow> enqueue_row now h m k i (next_id (cs_db c))
            | Some r \<Rightarrow> enqueue_reuse now h m i r)"
    by (simp add: find_exec_enqueue [OF db] fst_enqueue_db [OF db] split: option.splits)
  have other: "j \<noteq> k \<Longrightarrow> find_exec ?db j = find_exec (cs_db c) j" for j
    by (simp add: find_exec_enqueue [OF db])
  have same: "\<not> ?b \<Longrightarrow> c\<lparr>cs_db := ?db\<rparr> = c" using enqueue_db_fail [OF db] by simp
  have ids: "\<forall>r \<in> set (executions (cs_db c)). e_id r \<noteq> next_id (cs_db c)"
    using db by (auto simp: db_inv_def wf_keys_def)
  show ?thesis
    unfolding e
    by (rule exI, rule exI, intro conjI refl)
      (use b row other same ids in \<open>auto simp: enqueue_row_def enqueue_reuse_def Enqueue_def split: option.splits\<close>)
qed

theorem enqueue_correct_witness:
  "\<exists>c'. Enqueue None 10 ''mail'' (example_meta statusQueued 0) ''k3'' None 3600 example_store = (Inr True, c') \<and>
     map_option e_run_at (find_exec (cs_db c') ''k3'') = Some 10"
proof -
  have n: "find_exec (cs_db example_store) ''k3'' = None" by code_simp
  from enqueue_correct [OF example_reachable, where k = "''k3''" and now = 10 and h = "''mail''"
      and m = "example_meta statusQueued 0" and i = None and d = 3600 and err = "[]", unfolded n option.case]
  show ?thesis by (elim exE conjE) simp
qed

end
