(* ===== verification/Job_Results.thy ===== *)
theory Job_Results
  imports Job_Lock
begin

section \<open>Finishing, reading and counting jobs\<close>

text \<open>
  What a finished job leaves behind and what \<open>Hit\<close>, \<open>Result\<close> and \<open>Wait\<close> read of it, the counts
  that \<open>JobStore.Total\<close> reports, and the lease a reused lock row keeps.
\<close>

lemma find_result_upsert:
  "find_result (upsert_result new db) k =
    (if k = r_key new then
       (case find_result db k of
          None \<Rightarrow> Some new
        | Some r \<Rightarrow> Some (r\<lparr>r_output := r_output new, r_error := r_error new, r_status := r_status new,
                          r_updated := r_updated new\<rparr>))
     else find_result db k)"
proof -
  let ?g = "\<lambda>r. r\<lparr>r_output := r_output new, r_error := r_error new, r_status := r_status new,
    r_updated := r_updated new\<rparr>"
  have app: "find Q (xs @ [x]) = (case find Q xs of None \<Rightarrow> (if Q x then Some x else None) | Some y \<Rightarrow> Some y)"
    for Q :: "result_row \<Rightarrow> bool" and xs x by (induction xs) auto
  have mp: "find (\<lambda>r. r_key r = k) (map (\<lambda>r. if r_key r = r_key new then ?g r else r) rs) =
    map_option (\<lambda>r. if r_key r = r_key new then ?g r else r) (find (\<lambda>r. r_key r = k) rs)" for rs :: "result_row list"
    by (induction rs) auto
  have key: "find (\<lambda>r. r_key r = q) rs = Some r \<Longrightarrow> r_key r = q" for q and rs :: "result_row list" and r
    by (auto dest: find_SomeD)
  show ?thesis
    by (cases "find_result db (r_key new)"; cases "find_result db k")
      (auto simp: upsert_result_def find_result_def app mp dest: key)
qed

lemma info_simps [simp]:
  "m_status (ji_meta (info_of_exec r)) = e_status r"
  "m_status (ji_meta (info_of_result q)) = r_status q"
  "m_status (ji_meta (with_ttl t ji)) = m_status (ji_meta ji)"
  "m_version (ji_meta (info_of_exec r)) = e_version r"
  "m_version (ji_meta (info_of_result q)) = r_version q"
  "m_version (ji_meta (with_ttl t ji)) = m_version (ji_meta ji)"
  "m_ttl (ji_meta (with_ttl t ji)) = t"
  "ji_jobid (with_ttl t ji) = ji_jobid ji"
  "ji_jobid (info_of_exec r) = e_key r"
  "ji_jobid (info_of_result q) = r_key q"
  "ji_leased (info_of_exec r) = None" "ji_leased (info_of_result q) = None"
  "ji_leased (with_ttl t ji) = ji_leased ji"
  by (simp_all add: info_of_exec_def info_of_result_def with_ttl_def zeroInfo_def)

lemma done_status_finished [simp]: "finished (done_status err)"
  "done_status err = statusDone \<or> done_status err = statusError"
  by (auto simp: finished_def done_status_def)

lemma read_result_finished:
  "finished (m_status (ji_meta ji)) \<Longrightarrow> read_result key (Some (ji, out, err)) = (ji, out, err, None)"
  by (auto simp: read_result_def finished_def)

text \<open>C30. Storing a result for good (no TTL) and reading it back, by a cache hit or by job id, gives
  the output and error that were stored last, whatever was stored before; but the version reported
  is the one of the first result ever stored under the key, so a result recomputed by a newer
  version of the function still counts as the old version's. Storing a result with a TTL by the
  synchronous path always fails and stores nothing.\<close>

theorem done_roundtrip:
  assumes "m_ttl m = None"
  shows "\<exists>c' ji. Done None now h m k i out err c = (Inr (), c') \<and>
    Hit None h False k c' = (ji, out, err, None) \<and>
    (\<exists>ji'. Result None k False c' = (ji', out, err, None)) \<and>
    m_version (ji_meta ji) =
      (case find_result (cs_db c) k of None \<Rightarrow> m_version m | Some r \<Rightarrow> r_version r) \<and>
    (\<forall>ttl. \<exists>e. Done None now h (m\<lparr>m_ttl := Some ttl\<rparr>) k i out err c = (Inl e, c))"
proof -
  let ?new = "result_row_of now h m (done_status err) k i out err"
  let ?c = "on_db (upsert_result ?new) c"
  let ?r = "case find_result (cs_db c) k of
      None \<Rightarrow> ?new
    | Some r \<Rightarrow> r\<lparr>r_output := out, r_error := err, r_status := done_status err, r_updated := now\<rparr>"
  have r: "find_result (cs_db ?c) k = Some ?r"
    by (simp add: on_db_def find_result_upsert result_row_of_def split: option.split)
  have f: "r_status ?r = done_status err" "r_output ?r = out" "r_error ?r = err"
    "r_version ?r = (case find_result (cs_db c) k of None \<Rightarrow> m_version m | Some r \<Rightarrow> r_version r)"
    by (simp_all add: result_row_of_def split: option.split)
  have d: "Done None now h m k i out err c = (Inr (), ?c)" using assms by (simp add: Done_def exec_def)
  have "Hit None h False k ?c = (with_ttl (r_ttl ?r) (info_of_result ?r), out, err, None)"
    "Result None k False ?c = (info_of_result ?r, out, err, None)"
    using f(1-3) by (simp_all add: Hit_def Result_def select_info_def r read_result_finished)
  then show ?thesis using d f(4)
    by (intro exI [of _ ?c] exI [of _ "with_ttl (r_ttl ?r) (info_of_result ?r)"]) (simp add: Done_def)
qed

theorem done_roundtrip_witness:
  "\<exists>c' ji. Done None 7 ''sum'' (example_meta statusDone 0) ''k9'' None (Some ''42'') None example_store = (Inr (), c') \<and>
     Hit None ''sum'' False ''k9'' c' = (ji, Some ''42'', None, None)"
proof -
  have "m_ttl (example_meta statusDone 0) = None" by (simp add: example_meta_def)
  from done_roundtrip [OF this, of 7 "''sum''" "''k9''" None "Some ''42''" None example_store]
  show ?thesis by blast
qed

lemma doneAsync_result:
  assumes "find_exec (cs_db c) k = Some r0"
  shows "\<exists>c' ji. doneAsync None now h m k i out err c = (Inr (), c') \<and>
    Result None k (m_ttl m \<noteq> None) c' = (ji, out, err, None) \<and>
    sql_state c' k = Some (done_status err) \<and> open_tx c' = open_tx c \<and> m_ttl (ji_meta ji) = None \<and>
    m_version (ji_meta ji) = (if m_ttl m \<noteq> None then e_version r0
      else case find_result (cs_db c) k of None \<Rightarrow> m_version m | Some r \<Rightarrow> r_version r)"
proof -
  have key: "e_key r0 = k" using find_exec_Some [OF assms] by simp
  have ttls: "m_ttl (ji_meta (info_of_result q)) = None" "m_ttl (ji_meta (info_of_exec e)) = None" for q e
    by (simp_all add: info_of_result_def info_of_exec_def zeroInfo_def zeroMeta_def)
  show ?thesis
  proof (cases "m_ttl m")
    case None
    let ?new = "result_row_of now h m (done_status err) k i out err"
    let ?c = "on_db (upsert_result ?new \<circ> done_update now m k err) c"
    have res0: "find_result (done_update now m k err (cs_db c)) k = find_result (cs_db c) k"
      by (simp add: done_update_def sql_update_def find_result_def)
    have "find_exec (cs_db ?c) k =
        Some (r0\<lparr>e_status := done_status err, e_ttl := m_ttl m, e_updated := now\<rparr>)"
      using assms key by (simp add: on_db_def done_update_def find_exec_update)
    moreover obtain r where "find_result (cs_db ?c) k = Some r" "r_status r = done_status err"
      "r_output r = out" "r_error r = err"
      "r_version r = (case find_result (cs_db c) k of None \<Rightarrow> m_version m | Some r \<Rightarrow> r_version r)"
      by (cases "find_result (cs_db c) k")
        (auto simp: on_db_def find_result_upsert result_row_of_def res0)
    ultimately show ?thesis
      using None
      by (intro exI [of _ ?c] exI [of _ "info_of_result r"])
        (simp add: doneAsync_def Let_def on_db_def sql_state_def Result_def select_info_def
          read_result_finished ttls)
  next
    case (Some ttl)
    let ?c = "on_db (done_update_ttl now m k out err) c"
    let ?r = "r0\<lparr>e_status := done_status err, e_ttl := m_ttl m, e_output := out, e_error := err, e_updated := now\<rparr>"
    have "find_exec (cs_db ?c) k = Some ?r"
      using assms key by (simp add: on_db_def done_update_ttl_def find_exec_update)
    then show ?thesis
      using Some
      by (intro exI [of _ ?c] exI [of _ "info_of_exec ?r"])
        (simp add: doneAsync_def Let_def on_db_def sql_state_def Result_def select_info_def
          read_result_finished ttls)
  qed
qed

text \<open>A worker's completion commits both updates or neither. With a TTL the job row itself holds
  the result; without one the row is marked finished and the result is stored for good; either way
  reading the job back by its id from the place its kind of result lives gives what was stored. A
  driver error leaves the tables as they were; but when the error is the first update's, the
  transaction is neither committed nor rolled back and stays open.\<close>

theorem done_async_correct:
  assumes "find_exec (cs_db c) k = Some r0"
  shows "\<exists>c' ji. doneAsync None now h m k i out err c = (Inr (), c') \<and>
      Result None k (m_ttl m \<noteq> None) c' = (ji, out, err, None) \<and>
      sql_state c' k = Some (done_status err) \<and> open_tx c' = open_tx c \<and>
      (\<forall>f. f \<in> {FaultBegin e, FaultUpdate e, FaultCommit e} \<longrightarrow>
         fst (doneAsync (Some f) now h m k i out err c) = Inl (DriverError e) \<and>
         cs_db (snd (doneAsync (Some f) now h m k i out err c)) = cs_db c \<and>
         open_tx (snd (doneAsync (Some f) now h m k i out err c)) =
           (if f = FaultUpdate e then Suc (open_tx c) else open_tx c))"
proof -
  have "f \<in> {FaultBegin e, FaultUpdate e, FaultCommit e} \<Longrightarrow>
      fst (doneAsync (Some f) now h m k i out err c) = Inl (DriverError e) \<and>
      cs_db (snd (doneAsync (Some f) now h m k i out err c)) = cs_db c \<and>
      open_tx (snd (doneAsync (Some f) now h m k i out err c)) =
        (if f = FaultUpdate e then Suc (open_tx c) else open_tx c)" for f
    by (auto simp: doneAsync_def Let_def)
  with doneAsync_result [OF assms, of now h m i out err] show ?thesis by blast
qed

theorem done_async_correct_witness:
  "\<exists>c' ji. doneAsync None 9 ''mail'' (example_meta statusLeased 0) ''k1'' None (Some ''ok'') None example_store = (Inr (), c') \<and>
     Result None ''k1'' False c' = (ji, Some ''ok'', None, None) \<and>
     open_tx (snd (doneAsync (Some (FaultUpdate ''busy'')) 9 ''mail'' (example_meta statusLeased 0) ''k1'' None (Some ''ok'') None example_store)) = 1"
proof -
  have "find_exec (cs_db example_store) ''k1'' \<noteq> None" by code_simp
  then obtain r0 where r0: "find_exec (cs_db example_store) ''k1'' = Some r0" by auto
  have t: "m_ttl (example_meta statusLeased 0) = None" "open_tx example_store = 0"
    by (simp add: example_meta_def) code_simp
  from done_async_correct [OF r0, where now = 9 and h = "''mail''" and i = None
      and m = "example_meta statusLeased 0" and out = "Some ''ok''" and err = None and e = "''busy''"] t
  show ?thesis by fastforce
qed

subsection \<open>Waiting\<close>

lemma Result_finished:
  "Result fault k v c = (ji, out, err, None) \<Longrightarrow> finished (m_status (ji_meta ji))"
  by (auto simp: Result_def read_result_def finished_def split: option.splits if_splits)

lemma wait_poll_eq:
  "wait_poll start k v (now, fault, c) =
    (case Result fault k v c of (ji, out, err, None) \<Rightarrow> Some (ji, out, err, None) | _ \<Rightarrow> None)"
proof -
  obtain ji out err se where res: "Result fault k v c = (ji, out, err, se)"
    by (cases "Result fault k v c") auto
  then show ?thesis
    using Result_finished [of fault k v c ji out err] by (cases se) (auto simp: wait_poll_def)
qed

text \<open>\<open>Wait\<close> answers with the result of the first poll that finds the job finished, and with
  nothing else: it never reports an expiry, and while the job is missing, queued, leased (even past
  its lease) or unreadable it goes on polling, however late the polls come, so the configured wait
  timeout has no effect.\<close>

theorem wait_only_finished:
  "Wait start k v polls =
     (case find (\<lambda>(now, fault, c). snd (snd (snd (Result fault k v c))) = None) polls of
        None \<Rightarrow> None | Some (now, fault, c) \<Rightarrow> Some (Result fault k v c)) \<and>
   Wait start k v polls = Wait start' k v (map (\<lambda>(now, fault, c). (0, fault, c\<lparr>waitTimeout := t\<rparr>)) polls) \<and>
   Wait start k v polls \<noteq> Some (ji, out, err, Some ErrJobExpired)"
proof (intro conjI)
  show 1: "Wait start k v polls =
     (case find (\<lambda>(now, fault, c). snd (snd (snd (Result fault k v c))) = None) polls of
        None \<Rightarrow> None | Some (now, fault, c) \<Rightarrow> Some (Result fault k v c))" for polls start
  proof (induction polls)
    case Nil
    then show ?case by simp
  next
    case (Cons p polls)
    obtain now fault c where p: "p = (now, fault, c)" by (cases p) auto
    obtain ji out err se where res: "Result fault k v c = (ji, out, err, se)"
      by (cases "Result fault k v c") auto
    with Cons p show ?case by (cases se) (auto simp: wait_poll_eq)
  qed
  have same: "Result fault k v (c\<lparr>waitTimeout := t\<rparr>) = Result fault k v c" for fault c
    by (simp add: Result_def select_info_def)
  show "Wait start k v polls = Wait start' k v (map (\<lambda>(now, fault, c). (0, fault, c\<lparr>waitTimeout := t\<rparr>)) polls)"
  proof (induction polls)
    case Nil
    then show ?case by simp
  next
    case (Cons p polls)
    then show ?case by (cases p) (simp add: wait_poll_eq same split: option.splits prod.splits)
  qed
  show "Wait start k v polls \<noteq> Some (ji, out, err, Some ErrJobExpired)"
    unfolding 1 by (auto dest: find_SomeD split: option.splits prod.splits)
qed

subsection \<open>A lock taken over from a finished job keeps its old lease\<close>

text \<open>When a caller takes over the key of a finished job whose TTL is over, the row it leases
  still carries the lease the earlier execution had. If that lease is past, the next reaping takes the
  lock away although its holder has just acquired it and is running: the row is queued again, due
  for a worker, unless its retry count had already reached the maximum, in which case the running job
  is marked as failed.\<close>

theorem reused_lock_is_reaped:
  assumes "store_reachable c" and "find_exec (cs_db c) k = Some r0" and "reusable now r0"
    and "past (e_leased r0) now'" and "m_status m = statusLeased" and "m_ttl m = None"
    and "now \<le> now'" and "restarts bind"
  shows "fst (sql_acquire now h m k i c) \<and>
    (\<exists>r. find_exec (cs_db (snd (Reaping None bind now' (snd (sql_acquire now h m k i c))))) k = Some r \<and>
      (if (case e_retry r0 of None \<Rightarrow> False | Some n \<Rightarrow> maxretry c \<le> n) then e_status r = statusError
       else dq_eligible now' [h] r))"
proof -
  let ?c = "snd (sql_acquire now h m k i c)"
  have db: "db_inv (cs_db c)" using reachable_inv [OF assms(1)] by (simp add: store_inv_def)
  have a: "fst (sql_acquire now h m k i c)"
    using assms(2,3) by (simp add: sql_acquire_eq fst_enqueue_db [OF db])
  have inv: "db_inv (cs_db ?c)"
    using sql_lock.acq_inv [OF reachable_inv [OF assms(1)]] by (simp add: store_inv_def)
  have row: "find_exec (cs_db ?c) k = Some (enqueue_reuse now h m i r0)" and mr: "maxretry ?c = maxretry c"
    using assms(2,3) by (simp_all add: sql_acquire_eq find_exec_enqueue [OF db])
  have "\<exists>r. reap_row now' (maxretry c) (enqueue_reuse now h m i r0) = Some r \<and>
      (if (case e_retry r0 of None \<Rightarrow> False | Some n \<Rightarrow> maxretry c \<le> n) then e_status r = statusError
       else dq_eligible now' [h] r)"
    using assms(4-7) by (auto simp: reap_row_def enqueue_reuse_def dq_eligible_def past_def)
  then show ?thesis
    using a row mr by (simp add: Reaping_restart [OF assms(8)] on_db_def find_exec_reap [OF inv])
qed

definition finished_store :: callSQLStrategy where
  "finished_store =
     apply_op (OpDoneAsync None 12 ''mail'' ((example_meta statusLeased 0)\<lparr>m_ttl := Some 20\<rparr>) ''k2'' None (Some ''1'') None)
       (apply_op (OpDequeue None 9 [''mail''] 5) example_store)"

theorem reused_lock_is_reaped_witness:
  "store_reachable finished_store \<and>
   map_option (dq_eligible 31 [''mail'']) (find_exec (cs_db (snd (Reaping None restart_binding 31
     (snd (sql_acquire 30 ''mail'' (example_meta statusLeased 0) ''k2'' None finished_store))))) ''k2'') = Some True"
proof -
  have re: "store_reachable finished_store"
    unfolding finished_store_def by (intro reach_step example_reachable)
  have row: "map_option (\<lambda>r. (reusable 30 r, past (e_leased r) 31, e_retry r))
      (find_exec (cs_db finished_store) ''k2'') = Some (True, True, None)" by code_simp
  then obtain r0 where r0: "find_exec (cs_db finished_store) ''k2'' = Some r0" "reusable 30 r0"
    "past (e_leased r0) 31" "e_retry r0 = None" by auto
  have m: "m_status (example_meta statusLeased 0) = statusLeased" "m_ttl (example_meta statusLeased 0) = None"
    by (simp_all add: example_meta_def)
  from reused_lock_is_reaped [OF re r0(1-3) m, of restart_binding "''mail''" None] re r0(4) show ?thesis
    by (auto simp: restarts_restart_binding)
qed

subsection \<open>Counting by status\<close>

lemma add_count_get:
  "(case map_of (add_count p out) nm of None \<Rightarrow> 0 | Some n \<Rightarrow> n) =
    (case map_of out nm of None \<Rightarrow> 0 | Some n \<Rightarrow> n) + (if jobStatusName (fst p) = nm then snd p else 0)"
  by (auto simp: add_count_def update_conv' map_add_def split: option.splits)

lemma fold_add_count:
  "(case map_of (fold add_count raw out) nm of None \<Rightarrow> 0 | Some n \<Rightarrow> n) =
    (case map_of out nm of None \<Rightarrow> 0 | Some n \<Rightarrow> n) +
    (\<Sum>p \<leftarrow> raw. if jobStatusName (fst p) = nm then snd p else 0)"
  by (induction raw arbitrary: out) (simp_all add: add_count_get)

lemma status_names:
  "0 \<le> s \<Longrightarrow> s < 4 \<Longrightarrow> sqlStatusCodeStrings ! nat s \<in> {''queued'', ''leased'', ''done'', ''error''}"
  by (cases "s = 0 \<or> s = 1 \<or> s = 2 \<or> s = 3") (auto simp: sqlStatusCodeStrings_def)

lemma jobStatusName_itoa:
  assumes "0 \<le> s" "s < 4"
  shows "jobStatusName (itoa st) = sqlStatusCodeStrings ! nat s \<longleftrightarrow> st = s"
proof (cases "0 \<le> st \<and> st < 4")
  case True
  then have "jobStatusName (itoa st) = sqlStatusCodeStrings ! nat st"
    by (simp add: jobStatusName_def atoi_itoa in_int64_def sqlStatusCodeStrings_def)
  moreover have "distinct sqlStatusCodeStrings" "length sqlStatusCodeStrings = 4"
    by (simp_all add: sqlStatusCodeStrings_def)
  ultimately show ?thesis
    using True assms nth_eq_iff_index_eq [of sqlStatusCodeStrings "nat st" "nat s"] by (simp add: eq_nat_nat_iff nat_less_iff)
next
  case False
  then have j: "jobStatusName (itoa st) = itoa st"
    by (auto simp: jobStatusName_def atoi_itoa_gen sqlStatusCodeStrings_def)
  have "hd (itoa st) \<in> set (itoa st)" by (intro hd_in_set) simp
  then have "is_digit (hd (itoa st)) \<or> hd (itoa st) = CHR ''-''" by (rule itoa_chars)
  with status_names [OF assms] have "itoa st \<noteq> sqlStatusCodeStrings ! nat s"
    by (auto simp: is_digit_def)
  with j False assms show ?thesis by auto
qed

lemma sum_counts:
  "distinct (map fst cs) \<Longrightarrow>
    (\<Sum>p \<leftarrow> filter (\<lambda>((k, st), n). k = rt) cs. if snd (fst p) = s then snd p else (0::int)) = count_of cs (rt, s)"
proof (induction cs)
  case Nil
  then show ?case by (simp add: count_of_def)
next
  case (Cons p cs)
  obtain k st n where p: "p = ((k, st), n)" by (metis surj_pair)
  have "map_of cs (k, st) = None" using Cons.prems p by (auto simp: map_of_eq_None_iff)
  then have "count_of cs (k, st) = 0" by (simp add: count_of_def)
  with Cons p show ?case by (auto simp: count_of_def)
qed

text \<open>The public job store counts jobs by status name: on a reachable store, asking for the totals
  of a root id reports for each of the four statuses how many of its jobs have it (a missing name
  counting as zero), and asking without a root id reports all jobs, as long as no job's root id is
  itself \<open>*\<close>.\<close>

theorem store_total_by_status:
  assumes "store_reachable c" and "0 \<le> s" and "s < 4"
    and "\<forall>r \<in> set (executions (cs_db c)). e_root r \<noteq> ''*''"
  shows "\<exists>out. store_Total None rid c = Inr out \<and>
    (rid \<noteq> Some ''*'' \<longrightarrow>
      (case map_of out (sqlStatusCodeStrings ! nat s) of None \<Rightarrow> 0 | Some n \<Rightarrow> n) =
        int (length (filter (\<lambda>r. (case rid of None \<Rightarrow> True | Some rt \<Rightarrow> e_root r = rt) \<and> e_status r = s)
          (executions (cs_db c)))))"
proof -
  let ?cs = "counts (cs_db c)" and ?rt = "case rid of None \<Rightarrow> ''*'' | Some j \<Rightarrow> j"
  let ?sel = "filter (\<lambda>((k, st), n). k = ?rt) ?cs"
  let ?raw = "map (\<lambda>((k, st), n). (itoa st, n)) ?sel"
  have m: "counts_match ?cs (executions (cs_db c))"
    using reachable_inv [OF assms(1)] by (simp add: store_inv_def db_inv_def wf_counts_def)
  have "(case map_of (fold add_count ?raw []) (sqlStatusCodeStrings ! nat s) of None \<Rightarrow> 0 | Some n \<Rightarrow> n) =
      (\<Sum>p \<leftarrow> ?raw. if jobStatusName (fst p) = sqlStatusCodeStrings ! nat s then snd p else 0)"
    by (simp add: fold_add_count)
  also have "\<dots> = (\<Sum>p \<leftarrow> ?sel. if snd (fst p) = s then snd p else 0)"
    by (intro arg_cong [where f = sum_list])
      (simp add: case_prod_unfold jobStatusName_itoa [OF assms(2,3)])
  also have "\<dots> = count_of ?cs (?rt, s)" using m by (intro sum_counts) (simp add: counts_match_def)
  also have "\<dots> = (\<Sum>r \<leftarrow> executions (cs_db c). row_weight r (?rt, s))"
    using m by (simp add: counts_match_def)
  finally have "(case map_of (fold add_count ?raw []) (sqlStatusCodeStrings ! nat s) of None \<Rightarrow> 0 | Some n \<Rightarrow> n) =
      (\<Sum>r \<leftarrow> executions (cs_db c). row_weight r (?rt, s))" .
  moreover have "filter (\<lambda>r. e_root r = ''*'' \<and> e_status r = s) (executions (cs_db c)) = []"
    using assms(4) by (simp add: filter_empty_conv)
  moreover have "store_Total None rid c = Inr (fold add_count ?raw [])"
    by (simp add: store_Total_def Total_def Let_def)
  ultimately show ?thesis by (cases rid) (simp_all add: sum_row_weight)
qed

theorem store_total_by_status_witness:
  "\<exists>out. store_Total None None example_store = Inr out \<and> map_of out ''queued'' = Some 2"
proof -
  have nr: "\<forall>r \<in> set (executions (cs_db example_store)). e_root r \<noteq> ''*''" by code_simp
  have len: "length (filter (\<lambda>r. True \<and> e_status r = 0) (executions (cs_db example_store))) = 2" by code_simp
  from store_total_by_status [OF example_reachable _ _ nr, of 0 None] len show ?thesis
    by (auto simp: sqlStatusCodeStrings_def split: option.splits)
qed

end
