(* ===== verification/Job_Codec.thy ===== *)
theory Job_Codec
  imports Job_Store
begin

section \<open>Job identifiers, versions, options and back-off\<close>

text \<open>
  \<open>typedhandler_job_utils.go\<close>, \<open>typedhandler_job_context.go\<close> and the option types of
  \<open>typedhandler_job.go\<close>. SHA-256 with hexadecimal output is the parameter \<open>sha\<close>; JSON encoding
  and decoding are the fields of a \<open>codec\<close>. The value a handler returns next to an output is an
  optional error.
\<close>

subsection \<open>Job ids\<close>

record jobid =
  j_version :: string
  j_handler :: string
  j_id :: string

definition encodeJobKey :: "(bytes \<Rightarrow> string) \<Rightarrow> string \<Rightarrow> bytes \<Rightarrow> string" where
  "encodeJobKey sha handler injson = sha (handler @ injson)"

text \<open>\<open>idem\<close> is what \<open>getIdempotentKey\<close> returns for the input: empty when it has no key.\<close>

definition encodeJobID ::
  "(bytes \<Rightarrow> string) \<Rightarrow> string \<Rightarrow> string \<Rightarrow> bytes \<Rightarrow> string \<Rightarrow> string" where
  "encodeJobID sha handler idem injson marker =
     (let marker = (if marker \<noteq> [] then ''.'' @ marker else marker);
          jobid = (if idem = [] then encodeJobKey sha handler injson else idem)
      in join_with '':'' [''job'', ''v1'', handler, jobid @ marker])"

definition decodeJobID :: "string \<Rightarrow> job_error + jobid" where
  "decodeJobID s =
     (case split_on CHR '':'' s of
        [p0, p1, p2, p3] \<Rightarrow>
          if p0 \<noteq> ''job'' then Inl (BadJobID ''invalid jobid prefix'')
          else if \<not> prefix ''v1'' p1 then Inl (BadJobID ''unsupported jobid version'')
          else Inr \<lparr>j_version = p1, j_handler = p2, j_id = p3\<rparr>
      | _ \<Rightarrow> Inl (BadJobID ''invalid jobid format''))"

subsection \<open>Versions\<close>

definition parseMajorMinor :: "string \<Rightarrow> (int \<times> int) option" where
  "parseMajorMinor v =
     (case split_on CHR ''.'' v of
        p0 # p1 # _ \<Rightarrow>
          (case atoi p0 of
             None \<Rightarrow> None
           | Some major \<Rightarrow> (case atoi p1 of None \<Rightarrow> None | Some minor \<Rightarrow> Some (major, minor)))
      | _ \<Rightarrow> None)"

definition hasMajorOrMinorVersionDiff :: "string \<Rightarrow> string \<Rightarrow> bool" where
  "hasMajorOrMinorVersionDiff a b =
     (case parseMajorMinor a of
        None \<Rightarrow> False
      | Some (ma, mi) \<Rightarrow>
          (case parseMajorMinor b of
             None \<Rightarrow> False
           | Some (mb, mj) \<Rightarrow> ma \<noteq> mb \<or> mi \<noteq> mj))"

subsection \<open>Options and the job context\<close>

record jobOption =
  Async :: bool
  Cache :: bool
  CacheErrOnHit :: bool
  Dedupe :: bool
  Priority :: int
  CacheExpire :: duration
  Interval :: duration

datatype job_mode = ModeNormal | ModeAsync | ModeCache | ModeDedupe | ModeOnce | ModeMemoized | ModeDispatch
  | ModeFanout | ModeReplay | ModeReplayAll

record fn_option =
  o_name :: string
  o_version :: string
  o_mode :: job_mode
  o_job :: jobOption

definition handlerVersion :: "fn_option \<Rightarrow> string" where
  "handlerVersion opt = (if o_version opt = [] then ''0.0.1'' else o_version opt)"

definition encodeHandlerName :: "fn_option \<Rightarrow> string" where
  "encodeHandlerName opt = o_name opt"

text \<open>\<open>callSQLInit\<close>: the flags a job mode sets, and whether it needs the SQL backend.\<close>

definition callSQLInit :: "fn_option \<Rightarrow> fn_option \<times> bool" where
  "callSQLInit opt =
     (let j = o_job opt in
      case o_mode opt of
        ModeAsync \<Rightarrow> (opt\<lparr>o_job := j\<lparr>Async := True\<rparr>\<rparr>, True)
      | ModeCache \<Rightarrow> (opt\<lparr>o_job := j\<lparr>Cache := True\<rparr>\<rparr>, True)
      | ModeDedupe \<Rightarrow> (opt\<lparr>o_job := j\<lparr>Dedupe := True\<rparr>\<rparr>, True)
      | ModeOnce \<Rightarrow> (opt\<lparr>o_job := j\<lparr>Dedupe := True, Cache := True, CacheErrOnHit := True\<rparr>\<rparr>, True)
      | ModeMemoized \<Rightarrow> (opt\<lparr>o_job := j\<lparr>Dedupe := True, Cache := True\<rparr>\<rparr>, True)
      | ModeDispatch \<Rightarrow> (opt\<lparr>o_job := j\<lparr>Async := True, Cache := True\<rparr>\<rparr>, True)
      | _ \<Rightarrow> (opt, False))"

definition JobID :: "(bytes \<Rightarrow> string) \<Rightarrow> fn_option \<Rightarrow> string \<Rightarrow> bytes \<Rightarrow> string \<Rightarrow> string" where
  "JobID sha opt idem injson requestid =
     encodeJobID sha (encodeHandlerName opt) idem injson
       (if \<not> Dedupe (o_job opt) \<and> \<not> Cache (o_job opt) then requestid else [])"

text \<open>\<open>jec.JobMeta(status)\<close>, with the job id as parent and the runtime's root job id.\<close>

definition JobMeta :: "time \<Rightarrow> fn_option \<Rightarrow> string \<Rightarrow> string \<Rightarrow> int \<Rightarrow> jobMeta" where
  "JobMeta now opt jobid rootid status =
     \<lparr>m_version = handlerVersion opt, m_status = status, m_parent = jobid, m_root = rootid,
      m_ttl = (if CacheExpire (o_job opt) \<noteq> 0 then Some (now + CacheExpire (o_job opt)) else None),
      m_priority = Priority (o_job opt)\<rparr>"

definition EnqueueStatus :: "fn_option \<Rightarrow> bool \<Rightarrow> int" where
  "EnqueueStatus opt fromcall =
     (if fromcall \<and> Async (o_job opt) then statusQueued else statusLeased)"

text \<open>\<open>r.memo.jobabortctrl\<close> with \<open>jobrequeuewait\<close>, set by \<open>MarkRequeue\<close>, \<open>MarkRequeueAt\<close>, \<open>MarkAbort\<close>.\<close>

datatype abort_ctrl = NoAbort | AbortRequeue | AbortRequeueAt int | AbortJob

definition requeueDelay :: "duration \<Rightarrow> abort_ctrl \<Rightarrow> int" where
  "requeueDelay requeueInterval ctrl =
     (case ctrl of
        AbortRequeueAt wait \<Rightarrow> wait
      | _ \<Rightarrow> sgn requeueInterval * (\<bar>requeueInterval\<bar> div second))"

subsection \<open>Encoding results\<close>

record ('i, 'u) codec =
  in_json :: "'i \<Rightarrow> string + bytes"
  in_of :: "bytes \<Rightarrow> string + 'i"
  out_json :: "'u \<Rightarrow> string + bytes"
  out_of :: "bytes \<Rightarrow> string + 'u"
  err_json :: "job_error \<Rightarrow> string + bytes"
  err_of :: "bytes \<Rightarrow> string + job_error"
  err_msg :: "job_error \<Rightarrow> string"
  zero_out :: "'u"
  idem_key :: "'i \<Rightarrow> string"

definition normalizeError :: "('i, 'u) codec \<Rightarrow> job_error \<Rightarrow> job_error" where
  "normalizeError cd err =
     (let b = (case err_json cd err of Inl _ \<Rightarrow> [] | Inr b \<Rightarrow> b) in
      if b = ''{}'' \<or> b = [] then HandlerError (err_msg cd err) else err)"

text \<open>\<open>marshalOutputSet\<close>: the output and error blobs, or a system error.\<close>

definition marshalOutputSet ::
  "('i, 'u) codec \<Rightarrow> 'u \<Rightarrow> job_error option \<Rightarrow> job_error + (bytes option \<times> bytes option)" where
  "marshalOutputSet cd output err =
     (case err of
        Some e \<Rightarrow>
          (case err_json cd (normalizeError cd e) of
             Inl _ \<Rightarrow> Inl ErrJobResultEncodeFailed
           | Inr b \<Rightarrow> Inr (None, Some b))
      | None \<Rightarrow>
          (case out_json cd output of
             Inl _ \<Rightarrow> Inl ErrJobErrorEncodeFailed
           | Inr b \<Rightarrow> Inr (Some b, None)))"

text \<open>\<open>unmarshalOutputSet\<close>: output, handler error, system error.\<close>

definition unmarshalOutputSet ::
  "('i, 'u) codec \<Rightarrow> bytes option \<Rightarrow> bytes option \<Rightarrow> job_error option \<Rightarrow>
    'u \<times> job_error option \<times> job_error option" where
  "unmarshalOutputSet cd outJSON errJSON serr =
     (case serr of
        Some e \<Rightarrow> (zero_out cd, None, Some e)
      | None \<Rightarrow>
          (case outJSON of
             Some b \<Rightarrow>
               (case out_of cd b of
                  Inl _ \<Rightarrow> (zero_out cd, None, Some ErrJobResultDecodeFailed)
                | Inr u \<Rightarrow> (u, None, None))
           | None \<Rightarrow>
               (case errJSON of
                  Some b \<Rightarrow>
                    (case err_of cd b of
                       Inl _ \<Rightarrow> (zero_out cd, None, Some ErrJobErrorDecodeFailed)
                     | Inr e \<Rightarrow> (zero_out cd, Some e, None))
                | None \<Rightarrow> (zero_out cd, None, Some ErrJobErrorDecodeFailed))))"

subsection \<open>Back-off\<close>

text \<open>
  \<open>Duration\<close> computes in \<open>float64\<close>; the conversion to a 64-bit duration is the parameter
  \<open>to_dur\<close> (Go leaves it unspecified out of range) and \<open>rand.Int63n\<close> is the parameter \<open>rnd\<close>.
\<close>

record backoff =
  b_min :: duration
  b_max :: duration
  b_factor :: rat
  b_jitter :: bool

definition NewBackoff :: "duration \<Rightarrow> duration \<Rightarrow> backoff" where
  "NewBackoff lo hi = \<lparr>b_min = lo, b_max = hi, b_factor = 2, b_jitter = True\<rparr>"

definition backoff_Duration :: "(rat \<Rightarrow> int) \<Rightarrow> (int \<Rightarrow> int) \<Rightarrow> backoff \<Rightarrow> int \<Rightarrow> duration" where
  "backoff_Duration to_dur rnd b attempt =
     (let attempt = (if attempt < 0 then 0 else attempt);
          d = to_dur (of_int (b_min b) * b_factor b ^ nat attempt);
          d = (if d > b_max b then b_max b else d);
          d = (if b_jitter b \<and> d > 0 then rnd d else d)
      in if d < b_min b then b_min b else d)"

text \<open>A back-off never waits less than its minimum nor, when that is larger, more than its
  maximum, whatever the float conversion and the random source do; without jitter and within the
  range of a duration it doubles with every attempt until it meets the maximum. But a conversion that
  turns an overflowing product into a negative duration makes the wait fall back to the minimum.\<close>

theorem backoff_bounds:
  assumes "\<forall>n > 0. 0 \<le> rnd n \<and> rnd n < n"
  shows "b_min b \<le> backoff_Duration to_dur rnd b attempt \<and>
    backoff_Duration to_dur rnd b attempt \<le> max (b_min b) (b_max b) \<and>
    (\<not> b_jitter b \<and> b_factor b = 2 \<and> 0 \<le> attempt \<and> 0 \<le> b_min b \<and> b_min b \<le> b_max b \<and>
      to_dur (of_int (b_min b * 2 ^ nat attempt)) = b_min b * 2 ^ nat attempt \<longrightarrow>
      backoff_Duration to_dur rnd b attempt = min (b_max b) (b_min b * 2 ^ nat attempt)) \<and>
    (0 \<le> attempt \<and> 0 \<le> b_min b \<and> to_dur (of_int (b_min b) * b_factor b ^ nat attempt) < 0 \<longrightarrow>
      backoff_Duration to_dur rnd b attempt = b_min b)"
proof (intro conjI impI)
  define n where "n = nat (if attempt < 0 then 0 else attempt)"
  define d where "d = to_dur (of_int (b_min b) * b_factor b ^ n)"
  define e where "e = (if d > b_max b then b_max b else d)"
  define f where "f = (if b_jitter b \<and> e > 0 then rnd e else e)"
  have res: "backoff_Duration to_dur rnd b attempt = (if f < b_min b then b_min b else f)"
    by (simp add: backoff_Duration_def Let_def n_def d_def e_def f_def)
  then show "b_min b \<le> backoff_Duration to_dur rnd b attempt" by simp
  have "f \<le> e" using assms by (auto simp: f_def intro: less_imp_le)
  moreover have "e \<le> b_max b" by (simp add: e_def)
  ultimately show "backoff_Duration to_dur rnd b attempt \<le> max (b_min b) (b_max b)"
    unfolding res by auto
next
  assume a: "\<not> b_jitter b \<and> b_factor b = 2 \<and> 0 \<le> attempt \<and> 0 \<le> b_min b \<and> b_min b \<le> b_max b \<and>
      to_dur (of_int (b_min b * 2 ^ nat attempt)) = b_min b * 2 ^ nat attempt"
  then have "b_min b \<le> b_min b * 2 ^ nat attempt" by (simp add: mult_le_cancel_left1)
  with a show "backoff_Duration to_dur rnd b attempt = min (b_max b) (b_min b * 2 ^ nat attempt)"
    by (auto simp: backoff_Duration_def Let_def)
next
  assume "0 \<le> attempt \<and> 0 \<le> b_min b \<and> to_dur (of_int (b_min b) * b_factor b ^ nat attempt) < 0"
  then show "backoff_Duration to_dur rnd b attempt = b_min b"
    by (auto simp: backoff_Duration_def Let_def)
qed

theorem backoff_bounds_witness:
  "backoff_Duration floor (\<lambda>n. n - 1) (NewBackoff 100 3000) 2 \<le> 3000"
proof -
  have r: "\<forall>n > 0. 0 \<le> n - 1 \<and> n - 1 < (n :: int)" by auto
  from backoff_bounds [OF r, of "NewBackoff 100 3000" floor 2] show ?thesis by (simp add: NewBackoff_def)
qed

text \<open>Job ids decode to what they encode: the handler and the id with its request marker, as long
  as none of them holds a colon (and the hash does not); and an accepted id is rebuilt from its parts,
  so two accepted ids with the same version, handler and id are equal.\<close>

theorem jobid_roundtrip:
  assumes "CHR '':'' \<notin> set handler" and "CHR '':'' \<notin> set idem" and "CHR '':'' \<notin> set marker"
    and "CHR '':'' \<notin> set (sha (handler @ injson))"
  shows "decodeJobID (encodeJobID sha handler idem injson marker) =
      Inr \<lparr>j_version = ''v1'', j_handler = handler,
           j_id = (if idem = [] then sha (handler @ injson) else idem) @
                  (if marker = [] then [] else CHR ''.'' # marker)\<rparr> \<and>
    (\<forall>s j. decodeJobID s = Inr j \<longrightarrow>
      s = join_with '':'' [''job'', j_version j, j_handler j, j_id j])"
proof (intro conjI allI impI)
  let ?id = "(if idem = [] then sha (handler @ injson) else idem) @ (if marker = [] then [] else CHR ''.'' # marker)"
  have e: "encodeJobID sha handler idem injson marker = join_with '':'' [''job'', ''v1'', handler, ?id]"
    by (simp add: encodeJobID_def encodeJobKey_def Let_def)
  have "split_on CHR '':'' (join_with '':'' [''job'', ''v1'', handler, ?id]) = [''job'', ''v1'', handler, ?id]"
    by (rule split_on_join) (use assms in auto)
  then show "decodeJobID (encodeJobID sha handler idem injson marker) =
      Inr \<lparr>j_version = ''v1'', j_handler = handler, j_id = ?id\<rparr>"
    unfolding e by (simp add: decodeJobID_def)
next
  fix s j assume d: "decodeJobID s = Inr j"
  then obtain p1 p2 p3 where "split_on CHR '':'' s = [''job'', p1, p2, p3]"
    "j = \<lparr>j_version = p1, j_handler = p2, j_id = p3\<rparr>"
    by (auto simp: decodeJobID_def split: list.splits if_splits)
  then show "s = join_with '':'' [''job'', j_version j, j_handler j, j_id j]"
    using join_split_on [of "CHR '':''" s] by simp
qed

theorem jobid_roundtrip_witness:
  "decodeJobID (encodeJobID (\<lambda>b. ''0f'') ''mail'' [] ''{}'' ''rq'') =
     Inr \<lparr>j_version = ''v1'', j_handler = ''mail'', j_id = ''0f.rq''\<rparr>"
  using jobid_roundtrip [of "''mail''" "[]" "''rq''" "\<lambda>b. ''0f''" "''{}''"] by simp

text \<open>The version comparison that decides whether a stored result or input is outdated is
  symmetric, never holds between a version and itself, sees only the first two numbers (any patch
  part is ignored), and is false whenever either side is not a version.\<close>

theorem version_diff_laws:
  "(hasMajorOrMinorVersionDiff a b \<longleftrightarrow> hasMajorOrMinorVersionDiff b a) \<and>
   \<not> hasMajorOrMinorVersionDiff a a \<and>
   (parseMajorMinor a = None \<longrightarrow> \<not> hasMajorOrMinorVersionDiff a b) \<and>
   (in_int64 x \<and> in_int64 y \<and> in_int64 x' \<and> in_int64 y' \<longrightarrow>
     (hasMajorOrMinorVersionDiff (itoa x @ ''.'' @ itoa y @ ''.'' @ p) (itoa x' @ ''.'' @ itoa y' @ ''.'' @ q) \<longleftrightarrow>
       (x, y) \<noteq> (x', y')))"
proof -
  have dot: "CHR ''.'' \<notin> set (itoa i)" for i using itoa_chars [of "CHR ''.''" i] by (auto simp: is_digit_def)
  have parse: "parseMajorMinor (itoa x @ ''.'' @ itoa y @ ''.'' @ p) = Some (x, y)"
    if "in_int64 x" "in_int64 y" for x y p
    using split_on_sep [OF dot, of x "itoa y @ ''.'' @ p"] split_on_sep [OF dot, of y p] that
    by (simp add: parseMajorMinor_def atoi_itoa)
  have "hasMajorOrMinorVersionDiff (itoa x @ ''.'' @ itoa y @ ''.'' @ p) (itoa x' @ ''.'' @ itoa y' @ ''.'' @ q) \<longleftrightarrow>
      (x, y) \<noteq> (x', y')"
    if "in_int64 x" "in_int64 y" "in_int64 x'" "in_int64 y'"
    unfolding hasMajorOrMinorVersionDiff_def parse [OF that(1,2)] parse [OF that(3,4)] by simp
  moreover have "hasMajorOrMinorVersionDiff a b \<longleftrightarrow> hasMajorOrMinorVersionDiff b a"
    "\<not> hasMajorOrMinorVersionDiff a a"
    "parseMajorMinor a = None \<longrightarrow> \<not> hasMajorOrMinorVersionDiff a b"
    by (auto simp: hasMajorOrMinorVersionDiff_def split: option.splits)
  ultimately show ?thesis by blast
qed

theorem version_diff_laws_witness:
  "\<not> hasMajorOrMinorVersionDiff ''1.2.3'' ''1.2.9'' \<and> hasMajorOrMinorVersionDiff ''1.2.3'' ''1.3.0''"
proof -
  have i: "in_int64 1" "in_int64 2" "in_int64 3" by (simp_all add: in_int64_def)
  have n: "itoa 1 = ''1''" "itoa 2 = ''2''" "itoa 3 = ''3''" by code_simp+
  show ?thesis
    using version_diff_laws [where x = 1 and y = 2 and p = "''3''" and x' = 1 and y' = 2 and q = "''9''"]
      version_diff_laws [where x = 1 and y = 2 and p = "''3''" and x' = 1 and y' = 3 and q = "''0''"] i
    by (simp add: n)
qed

end
