(* ===== verification/Job_Call.thy ===== *)
theory Job_Call
  imports Job_Results Job_Codec
begin

section \<open>Calling a function as a job\<close>

text \<open>
  \<open>typedhandler_job.go\<close>: \<open>unmarshalfnMake\<close>, \<open>call_job\<close>, \<open>JobResult\<close> and \<open>find_handler\<close>. A handler
  is a function of its input and the store (it may call other jobs) to its output, error and abort
  mark. The times \<open>call_job\<close> reads, the driver faults of its store calls, the request id and the
  polls of a wait are the fields of a \<open>call_env\<close>. The heartbeat it registers on the time wheel only
  extends the lease of its own row and is not modelled here.
\<close>

type_synonym ('i, 'u) handler =
  "'i \<Rightarrow> callSQLStrategy \<Rightarrow> ('u \<times> job_error option \<times> abort_ctrl) \<times> callSQLStrategy"

text \<open>
  \<open>OnOutputUpgrade\<close>: accepted or not, the new output (\<open>None\<close> when it is not of the function's output
  type) and the new error.
\<close>

type_synonym 'u output_upgrade =
  "string \<Rightarrow> time \<Rightarrow> bytes option \<Rightarrow> bytes option \<Rightarrow> bool \<times> 'u option \<times> job_error option"

record ('i, 'u) fn =
  fn_opt :: fn_option
  fn_codec :: "('i, 'u) codec"
  fn_sha :: "bytes \<Rightarrow> string"
  fn_handle :: "('i, 'u) handler"
  fn_out_upgrade :: "'u output_upgrade option"

type_synonym 'u outcome = "'u \<times> job_error option \<times> job_error option"

definition unmarshalfn ::
  "('i, 'u) fn \<Rightarrow> time \<Rightarrow> string option \<Rightarrow> job_result \<Rightarrow> callSQLStrategy \<Rightarrow> 'u outcome \<times> callSQLStrategy" where
  "unmarshalfn f now fault res c =
     (let cd = fn_codec f; opt = fn_opt f; zeroU = zero_out cd in
      case res of (ji, outjson, errjson, serr) \<Rightarrow>
        if hasMajorOrMinorVersionDiff (m_version (ji_meta ji)) (handlerVersion opt) \<or>
           past (m_ttl (ji_meta ji)) now
        then
          (case fn_out_upgrade f of
             Some upgrade \<Rightarrow>
               if outjson \<noteq> None \<and> errjson = None then
                 (case upgrade (m_version (ji_meta ji)) (ji_updated ji) outjson errjson of
                    (ok, newout, newerr) \<Rightarrow>
                      if ok then
                        (case newout of
                           None \<Rightarrow> ((zeroU, Some FatalTransformFailed, None), c)
                         | Some newoutput \<Rightarrow>
                             (case marshalOutputSet cd newoutput newerr of
                                Inl _ \<Rightarrow> ((zeroU, Some FatalTransformFailed, None), c)
                              | Inr (newoutjson, newerrjson) \<Rightarrow>
                                  (case Done fault now (encodeHandlerName opt)
                                          ((ji_meta ji)\<lparr>m_version := handlerVersion opt\<rparr>)
                                          (ji_jobid ji) None newoutjson newerrjson c of
                                     (Inl _, c') \<Rightarrow> ((zeroU, Some FatalTransformFailed, None), c')
                                   | (Inr _, c') \<Rightarrow> ((newoutput, newerr, None), c'))))
                      else ((zeroU, None, Some ErrJobNotFound), c))
               else ((zeroU, None, Some FatalInvalidCacheError), c)
           | None \<Rightarrow> ((zeroU, None, Some FatalInvalidCacheError), c))
        else
          (case unmarshalOutputSet cd outjson errjson serr of
             (output, err, syserr) \<Rightarrow>
               if syserr \<noteq> None then ((zeroU, None, syserr), c)
               else if CacheErrOnHit (o_job opt) then ((zeroU, Some ErrJobDuplicated, None), c)
               else ((output, err, None), c)))"

record call_env =
  ce_fromcall :: bool
  ce_requestid :: string
  ce_requeueInterval :: duration
  ce_now_hit :: time
  ce_now_lock :: time
  ce_now_done :: time
  ce_now_requeue :: time
  ce_fault_hit :: "string option"
  ce_fault_hit2 :: "string option"
  ce_fault_enqueue :: "string option"
  ce_fault_store :: "string option"
  ce_fault_requeue :: "string option"
  ce_polls :: "(time \<times> string option \<times> callSQLStrategy) list"

record 'u call_result =
  cr_out :: 'u
  cr_err :: "job_error option"
  cr_ran :: bool
  cr_store :: callSQLStrategy

definition finish_call :: "'u outcome \<times> callSQLStrategy \<Rightarrow> 'u call_result" where
  "finish_call r = \<lparr>cr_out = fst (fst r), cr_err = fst (snd (fst r)), cr_ran = False, cr_store = snd r\<rparr>"

definition call_key :: "('i, 'u) fn \<Rightarrow> call_env \<Rightarrow> 'i \<Rightarrow> bytes \<Rightarrow> string" where
  "call_key f env input injson =
     JobID (fn_sha f) (fn_opt f) (idem_key (fn_codec f) input) injson (ce_requestid env)"

text \<open>The first part of \<open>call_job\<close> under a cache: the outcome of the hit, when it has one.\<close>

definition try_hit ::
  "('i, 'u) fn \<Rightarrow> time \<Rightarrow> string option \<Rightarrow> string option \<Rightarrow> string \<Rightarrow> callSQLStrategy \<Rightarrow>
    'u outcome \<times> callSQLStrategy" where
  "try_hit f now hitfault fault key c =
     unmarshalfn f now fault
       (Hit hitfault (encodeHandlerName (fn_opt f)) (CacheExpire (o_job (fn_opt f)) \<noteq> 0) key c) c"

text \<open>The caller that did not get the lock of a cached function: hit, or wait for the running job.\<close>

definition lost_lock ::
  "('i, 'u) fn \<Rightarrow> call_env \<Rightarrow> string \<Rightarrow> callSQLStrategy \<Rightarrow> 'u call_result option" where
  "lost_lock f env key c =
     (case try_hit f (ce_now_lock env) (ce_fault_hit2 env) (ce_fault_store env) key c of
        ((output, err, None), c') \<Rightarrow> Some (finish_call ((output, err, None), c'))
      | ((output, err, Some (JobPendingError jobid msg)), c') \<Rightarrow>
          (case Wait (ce_now_lock env) jobid (CacheExpire (o_job (fn_opt f)) \<noteq> 0) (ce_polls env) of
             None \<Rightarrow> None
           | Some res \<Rightarrow>
               (case unmarshalfn f (ce_now_done env) (ce_fault_store env) res c' of
                  ((output, err, None), c'') \<Rightarrow> Some (finish_call ((output, err, None), c''))
                | ((output, err, Some e), c'') \<Rightarrow>
                    Some (finish_call ((zero_out (fn_codec f), Some (FatalBackendError (Some e)), None), c''))))
      | ((output, err, Some e), c') \<Rightarrow>
          Some (finish_call ((zero_out (fn_codec f), Some (FatalBackendError (Some e)), None), c')))"

text \<open>The second part: the handler, storing its result, freeing the lock, the requeue mark.\<close>

definition run_handler ::
  "('i, 'u) fn \<Rightarrow> call_env \<Rightarrow> 'i \<Rightarrow> bytes \<Rightarrow> string \<Rightarrow> callSQLStrategy \<Rightarrow> 'u call_result" where
  "run_handler f env input injson key c =
     (let opt = fn_opt f; h = encodeHandlerName opt in
      case fn_handle f input c of
        ((output, err, ctrl), c1) \<Rightarrow>
          let c2 =
            (if Cache (o_job opt) then
               (if ctrl = NoAbort then
                  (case marshalOutputSet (fn_codec f) output err of
                     Inl _ \<Rightarrow> c1
                   | Inr (outJSON, errJSON) \<Rightarrow>
                       snd (Done (ce_fault_store env) (ce_now_done env) h
                              (JobMeta (ce_now_done env) opt key key statusDone) key (Some injson)
                              outJSON errJSON c1))
                else c1)
             else if Dedupe (o_job opt) then snd (Free (ce_fault_store env) key c1)
             else c1)
          in
          if ctrl = NoAbort \<or> ctrl = AbortJob then
            \<lparr>cr_out = output, cr_err = err, cr_ran = True, cr_store = c2\<rparr>
          else
            (case Enqueue (ce_fault_requeue env) (ce_now_requeue env) h
                    (JobMeta (ce_now_requeue env) opt key key (EnqueueStatus opt (ce_fromcall env)))
                    key (Some injson) (requeueDelay (ce_requeueInterval env) ctrl) c2 of
               (Inl e, c3) \<Rightarrow> \<lparr>cr_out = output, cr_err = Some e, cr_ran = True, cr_store = c3\<rparr>
             | (Inr _, c3) \<Rightarrow> \<lparr>cr_out = output, cr_err = None, cr_ran = True, cr_store = c3\<rparr>))"

text \<open>The rest of \<open>call_job\<close> after the cache lookup: enqueue, or lock, or run.\<close>

definition lock_meta :: "('i, 'u) fn \<Rightarrow> call_env \<Rightarrow> string \<Rightarrow> jobMeta" where
  "lock_meta f env key = JobMeta (ce_now_lock env) (fn_opt f) key key statusLeased"

definition miss_call :: "('i, 'u) fn \<Rightarrow> call_env \<Rightarrow> 'i \<Rightarrow> bytes \<Rightarrow> string \<Rightarrow> callSQLStrategy \<Rightarrow> 'u call_result option" where
  "miss_call f env input injson key c =
     (let opt = fn_opt f; j = o_job opt; h = encodeHandlerName opt; zeroU = zero_out (fn_codec f) in
      if ce_fromcall env \<and> Async j then
        (case Enqueue (ce_fault_enqueue env) (ce_now_lock env) h
                (JobMeta (ce_now_lock env) opt key key statusQueued) key (Some injson) 0 c of
           (Inl e, c') \<Rightarrow> Some (finish_call ((zeroU, Some (FatalBackendError (Some e)), None), c'))
         | (Inr enqueued, c') \<Rightarrow>
             Some (finish_call ((zeroU, Some (JobPendingError key
               (if enqueued then ''job accepted'' else ''job not finished yet'')), None), c')))
      else if Dedupe j then
        (case Enqueue (ce_fault_enqueue env) (ce_now_lock env) h (lock_meta f env key) key (Some injson) 0 c of
           (Inl e, c') \<Rightarrow> Some (finish_call ((zeroU, Some (FatalBackendError (Some e)), None), c'))
         | (Inr acquired, c') \<Rightarrow>
             if acquired then Some (run_handler f env input injson key c')
             else if Cache j then lost_lock f env key c'
             else Some (finish_call ((zeroU, Some ErrJobDuplicated, None), c')))
      else Some (run_handler f env input injson key c))"

text \<open>\<open>call_job\<close>; \<open>None\<close> is a call that is still waiting for another one to finish.\<close>

definition call_job :: "('i, 'u) fn \<Rightarrow> call_env \<Rightarrow> 'i \<Rightarrow> callSQLStrategy \<Rightarrow> 'u call_result option" where
  "call_job f env input c =
     (case in_json (fn_codec f) input of
        Inl _ \<Rightarrow> Some (finish_call ((zero_out (fn_codec f), Some ErrJobInputEncodeFailed, None), c))
      | Inr injson \<Rightarrow>
          let key = call_key f env input injson in
          if Cache (o_job (fn_opt f)) then
            (case try_hit f (ce_now_hit env) (ce_fault_hit env) (ce_fault_store env) key c of
               ((output, err, None), c') \<Rightarrow> Some (finish_call ((output, err, None), c'))
             | ((output, err, Some e), c') \<Rightarrow> miss_call f env input injson key c')
          else miss_call f env input injson key c)"

text \<open>\<open>JobResult\<close>: a stored result by job id, from the handler the id names.\<close>

definition JobResult ::
  "('i, 'u) fn \<Rightarrow> time \<Rightarrow> string option \<Rightarrow> string option \<Rightarrow> string \<Rightarrow> callSQLStrategy \<Rightarrow>
    ('u \<times> job_error option) \<times> callSQLStrategy" where
  "JobResult f now fault storefault jobid c =
     (let zeroU = zero_out (fn_codec f) in
      case decodeJobID jobid of
        Inl e \<Rightarrow> ((zeroU, Some e), c)
      | Inr jid \<Rightarrow>
          if j_handler jid \<noteq> encodeHandlerName (fn_opt f) then ((zeroU, Some ErrJobHandlerMismatch), c)
          else
            (case unmarshalfn f now storefault
                    (Result fault jobid (CacheExpire (o_job (fn_opt f)) \<noteq> 0) c) c of
               ((output, err, None), c') \<Rightarrow> ((output, err), c')
             | ((output, err, Some e), c') \<Rightarrow> ((zeroU, Some e), c')))"

text \<open>\<open>find_handler\<close>: the exact name, else a name that is \<open>handler@...\<close>, in the map's iteration order.\<close>

definition find_handler :: "string list \<Rightarrow> string \<Rightarrow> job_error + string" where
  "find_handler names handler =
     (if handler \<in> set names then Inr handler
      else case find (\<lambda>k. case index_of CHR ''@'' k of
                            None \<Rightarrow> False | Some idx \<Rightarrow> 0 < idx \<and> take idx k = handler) names of
             Some k \<Rightarrow> Inr k | None \<Rightarrow> Inl ErrHandlerNotFound)"

end
