(* ===== verification/Job_Call_Props.thy ===== *)
theory Job_Call_Props
  imports Job_Call
begin

section \<open>When a job runs and what its caller gets\<close>

text \<open>
  Cache hits, mutual exclusion of deduplicated calls, what a finished call leaves behind, and
  the cases in which it leaves the job table in a state no worker leaves again.
\<close>

lemma unmarshalfn_fresh:
  assumes "\<not> hasMajorOrMinorVersionDiff (m_version (ji_meta ji)) (handlerVersion (fn_opt f))"
    and "\<not> past (m_ttl (ji_meta ji)) now"
  shows "unmarshalfn f now fault (ji, out, err, serr) c =
    (case unmarshalOutputSet (fn_codec f) out err serr of
       (output, e, syserr) \<Rightarrow>
         (if syserr \<noteq> None then (zero_out (fn_codec f), None, syserr)
          else if CacheErrOnHit (o_job (fn_opt f)) then (zero_out (fn_codec f), Some ErrJobDuplicated, None)
          else (output, e, None), c))"
  using assms by (auto simp: unmarshalfn_def Let_def split: prod.splits)

text \<open>A stored outcome of the function, as its codec encodes it.\<close>

definition encodes :: "('i, 'u) codec \<Rightarrow> 'u \<Rightarrow> job_error option \<Rightarrow> bytes option \<Rightarrow> bytes option \<Rightarrow> bool" where
  "encodes cd u e out err \<longleftrightarrow> unmarshalOutputSet cd out err None = (u, e, None)"

definition stored_info :: "bool \<Rightarrow> string \<Rightarrow> callSQLStrategy \<Rightarrow> (jobInfo \<times> bytes option \<times> bytes option) option" where
  "stored_info volatile key c = select_info None volatile True key (cs_db c)"

lemma try_hit_stored:
  assumes "stored_info (CacheExpire (o_job (fn_opt f)) \<noteq> 0) key c = Some (ji, out, err)"
    and "finished (m_status (ji_meta ji))"
    and "\<not> hasMajorOrMinorVersionDiff (m_version (ji_meta ji)) (handlerVersion (fn_opt f))"
    and "\<not> past (m_ttl (ji_meta ji)) now"
    and "encodes (fn_codec f) u e out err"
  shows "try_hit f now None fault key c =
    ((if CacheErrOnHit (o_job (fn_opt f)) then (zero_out (fn_codec f), Some ErrJobDuplicated, None)
      else (u, e, None)), c)"
proof -
  have "Hit None (encodeHandlerName (fn_opt f)) (CacheExpire (o_job (fn_opt f)) \<noteq> 0) key c = (ji, out, err, None)"
    using assms(1,2) by (simp add: Hit_def stored_info_def read_result_finished)
  then show ?thesis
    using assms(5) by (simp add: try_hit_def unmarshalfn_fresh [OF assms(3,4)] encodes_def)
qed

lemma try_hit_missing:
  assumes "stored_info (CacheExpire (o_job (fn_opt f)) \<noteq> 0) key c = None"
  shows "try_hit f now fault' fault key c = ((zero_out (fn_codec f), None, Some ErrJobNotFound), c)"
proof -
  have h: "Hit fault' h (CacheExpire (o_job (fn_opt f)) \<noteq> 0) key c = (zeroInfo, None, None, Some ErrJobNotFound)" for h
    using assms by (auto simp: Hit_def stored_info_def read_result_def select_info_def split: if_splits)
  have "\<not> hasMajorOrMinorVersionDiff [] v" for v
    by (simp add: hasMajorOrMinorVersionDiff_def parseMajorMinor_def)
  then have "unmarshalfn f now fault (zeroInfo, None, None, Some ErrJobNotFound) c =
      ((zero_out (fn_codec f), None, Some ErrJobNotFound), c)"
    by (subst unmarshalfn_fresh) (simp_all add: zeroInfo_def zeroMeta_def past_def unmarshalOutputSet_def)
  then show ?thesis by (simp add: try_hit_def h)
qed

lemma cache_hit_skips_handler_lemma:
  assumes "Cache (o_job (fn_opt f))" and "in_json (fn_codec f) input = Inr injson"
    and "ce_fault_hit env = None"
    and "stored_info (CacheExpire (o_job (fn_opt f)) \<noteq> 0) (call_key f env input injson) c = Some (ji, out, err)"
    and "finished (m_status (ji_meta ji))"
    and "\<not> hasMajorOrMinorVersionDiff (m_version (ji_meta ji)) (handlerVersion (fn_opt f))"
    and "\<not> past (m_ttl (ji_meta ji)) (ce_now_hit env)"
    and "encodes (fn_codec f) u e out err"
  shows "call_job f env input c =
    Some \<lparr>cr_out = (if CacheErrOnHit (o_job (fn_opt f)) then zero_out (fn_codec f) else u),
          cr_err = (if CacheErrOnHit (o_job (fn_opt f)) then Some ErrJobDuplicated else e),
          cr_ran = False, cr_store = c\<rparr>"
  using assms(1-3)
  by (simp add: call_job_def Let_def try_hit_stored [OF assms(4-8)] finish_call_def)

text \<open>C11. A cached function whose result is stored, finished, of the function's major and minor
  version and within its TTL is answered from the store: the handler does not run, the store does not
  change, and the caller gets the stored output and error, or \<open>ErrJobDuplicated\<close> for a function that
  must run only once.\<close>

theorem cache_hit_skips_handler:
  assumes "Cache (o_job (fn_opt f))" and "in_json (fn_codec f) input = Inr injson"
    and "ce_fault_hit env = None"
    and "stored_info (CacheExpire (o_job (fn_opt f)) \<noteq> 0) (call_key f env input injson) c = Some (ji, out, err)"
    and "finished (m_status (ji_meta ji))"
    and "\<not> hasMajorOrMinorVersionDiff (m_version (ji_meta ji)) (handlerVersion (fn_opt f))"
    and "\<not> past (m_ttl (ji_meta ji)) (ce_now_hit env)"
    and "encodes (fn_codec f) u e out err"
  shows "call_job f env input c =
    Some \<lparr>cr_out = (if CacheErrOnHit (o_job (fn_opt f)) then zero_out (fn_codec f) else u),
          cr_err = (if CacheErrOnHit (o_job (fn_opt f)) then Some ErrJobDuplicated else e),
          cr_ran = False, cr_store = c\<rparr>"
  by (rule cache_hit_skips_handler_lemma [OF assms])

text \<open>The store the cache lookup of a call leaves.\<close>

definition store_after_hit :: "('i, 'u) fn \<Rightarrow> call_env \<Rightarrow> string \<Rightarrow> callSQLStrategy \<Rightarrow> callSQLStrategy" where
  "store_after_hit f env key c =
     (if Cache (o_job (fn_opt f))
      then snd (try_hit f (ce_now_hit env) (ce_fault_hit env) (ce_fault_store env) key c) else c)"

lemma finish_call_ran [simp]: "cr_ran (finish_call r) = False"
  by (simp add: finish_call_def)

lemma lost_lock_ran: "lost_lock f env key c = Some r \<Longrightarrow> \<not> cr_ran r"
  by (auto simp: lost_lock_def split: prod.splits option.splits job_error.splits)

lemma Enqueue_acquire:
  "Enqueue None now h m k i d c = (Inr (fst (sql_acquire now h m k i c)), snd (sql_acquire now h m k i c))"
  by (simp add: sql_acquire_def Enqueue_def split: prod.splits)

lemma miss_call_ran:
  assumes "miss_call f env input injson key c = Some r" "cr_ran r"
  shows "\<not> (ce_fromcall env \<and> Async (o_job (fn_opt f)))"
    and "Dedupe (o_job (fn_opt f)) \<Longrightarrow> ce_fault_enqueue env = None \<and>
      fst (sql_acquire (ce_now_lock env) (encodeHandlerName (fn_opt f)) (lock_meta f env key) key (Some injson) c)"
    and "r = run_handler f env input injson key
      (if Dedupe (o_job (fn_opt f))
       then snd (sql_acquire (ce_now_lock env) (encodeHandlerName (fn_opt f)) (lock_meta f env key) key (Some injson) c)
       else c)"
proof -
  show na: "\<not> (ce_fromcall env \<and> Async (o_job (fn_opt f)))"
  proof
    assume "ce_fromcall env \<and> Async (o_job (fn_opt f))"
    with assms show False
      by (cases "Enqueue (ce_fault_enqueue env) (ce_now_lock env) (encodeHandlerName (fn_opt f))
          (JobMeta (ce_now_lock env) (fn_opt f) key key statusQueued) key (Some injson) 0 c")
        (auto simp: miss_call_def Let_def split: sum.splits)
  qed
  let ?acq = "sql_acquire (ce_now_lock env) (encodeHandlerName (fn_opt f)) (lock_meta f env key) key (Some injson) c"
  have d: "ce_fault_enqueue env = None \<and> fst ?acq \<and> r = run_handler f env input injson key (snd ?acq)"
    if dd: "Dedupe (o_job (fn_opt f))"
  proof (cases "ce_fault_enqueue env")
    case None
    show ?thesis
    proof (cases "fst ?acq")
      case True
      with None assms(1) na dd show ?thesis by (simp add: miss_call_def Let_def Enqueue_acquire)
    next
      case False
      with None assms na dd show ?thesis
        by (auto simp: miss_call_def Let_def Enqueue_acquire split: if_splits dest: lost_lock_ran)
    qed
  next
    case (Some e)
    with assms na dd show ?thesis by (auto simp: miss_call_def Let_def Enqueue_def)
  qed
  then show "Dedupe (o_job (fn_opt f)) \<Longrightarrow> ce_fault_enqueue env = None \<and> fst ?acq" by blast
  show "r = run_handler f env input injson key (if Dedupe (o_job (fn_opt f)) then snd ?acq else c)"
    using d assms na by (cases "Dedupe (o_job (fn_opt f))") (auto simp: miss_call_def Let_def)
qed

text \<open>A cache lookup changes stored results at most, never a job row.\<close>

lemma Done_keeps_jobs:
  "store_inv c \<Longrightarrow> store_inv (snd (Done fault now h m k i out err c)) \<and>
    cs_db (snd (Done fault now h m k i out err c)) =
      (cs_db c)\<lparr>results := results (cs_db (snd (Done fault now h m k i out err c)))\<rparr>"
  using store_inv_Done [of c fault now h m k i out err]
  by (auto simp: Done_def exec_def on_db_def upsert_result_def split: option.splits)

lemma unmarshalfn_store:
  "snd (unmarshalfn f now fault res c) = c \<or>
    (\<exists>t h m k i out err. snd (unmarshalfn f now fault res c) = snd (Done fault t h m k i out err c))"
proof -
  obtain ji out err se where "res = (ji, out, err, se)" by (cases res) auto
  then show ?thesis
    unfolding unmarshalfn_def Let_def
    by (auto split: prod.splits option.splits sum.splits if_splits) (metis snd_conv)+
qed

lemma try_hit_keeps_jobs:
  assumes "store_inv c"
  shows "store_inv (snd (try_hit f now hf fault key c)) \<and>
    sql_state (snd (try_hit f now hf fault key c)) = sql_state c"
proof -
  have "\<forall>now h m k i out err. store_inv (snd (Done fault now h m k i out err c)) \<and>
      sql_state (snd (Done fault now h m k i out err c)) = sql_state c"
  proof (intro allI)
    fix now h m k i out err
    have "executions (cs_db (snd (Done fault now h m k i out err c))) = executions (cs_db c)"
      using Done_keeps_jobs [OF assms, of fault now h m k i out err]
      by (metis job_db.select_convs(1) job_db.surjective job_db.update_convs(4))
    then show "store_inv (snd (Done fault now h m k i out err c)) \<and>
        sql_state (snd (Done fault now h m k i out err c)) = sql_state c"
      using Done_keeps_jobs [OF assms, of fault now h m k i out err]
      by (simp add: sql_state_def fun_eq_iff find_exec_def)
  qed
  then show ?thesis
    using assms unmarshalfn_store [of f now fault
      "Hit hf (encodeHandlerName (fn_opt f)) (CacheExpire (o_job (fn_opt f)) \<noteq> 0) key c" c]
    by (auto simp: try_hit_def)
qed

lemma call_job_ran:
  assumes "in_json (fn_codec f) input = Inr injson" "call_job f env input c = Some r" "cr_ran r"
  shows "miss_call f env input injson (call_key f env input injson)
    (store_after_hit f env (call_key f env input injson) c) = Some r"
  using assms
  by (auto simp: call_job_def store_after_hit_def Let_def split: if_splits prod.splits option.splits)

text \<open>C12. Two callers of a deduplicated function never run it at the same time: after one caller has
  taken the lock of a job key on a reachable store, a call with that key made by any other caller,
  after any enqueues and any frees of other keys in between, does not run the handler; when the
  function has no cache it is told \<open>ErrJobDuplicated\<close> and changes nothing.\<close>

theorem concurrent_call_excluded:
  assumes "store_reachable c" and "fst (sql_acquire now h m k i c)" and "m_status m = statusLeased"
    and "Release k \<notin> set es"
    and "c2 = snd (lock_run sql_acquire sql_release es (snd (sql_acquire now h m k i c)))"
    and "Dedupe (o_job (fn_opt f))" and "in_json (fn_codec f) input = Inr injson"
    and "call_key f env input injson = k" and "call_job f env input c2 = Some r"
  shows "\<not> cr_ran r \<and>
    (\<not> Cache (o_job (fn_opt f)) \<and> \<not> (ce_fromcall env \<and> Async (o_job (fn_opt f))) \<and> ce_fault_enqueue env = None \<longrightarrow>
      cr_err r = Some ErrJobDuplicated \<and> cr_store r = c2)"
proof
  have held: "store_inv c2 \<and> sql_state c2 k = Some statusLeased"
    using sql_lock.mutual_exclusion [OF _ _ assms(4)]
      sql_lock.acquired [OF reachable_inv [OF assms(1)] assms(2,3)] assms(5) by blast
  then have held': "store_inv (store_after_hit f env k c2) \<and> sql_state (store_after_hit f env k c2) k = Some statusLeased"
    by (auto simp: store_after_hit_def try_hit_keeps_jobs)
  show "\<not> cr_ran r"
  proof
    assume ran: "cr_ran r"
    from call_job_ran [OF assms(7,9) ran] assms(8)
    have "miss_call f env input injson k (store_after_hit f env k c2) = Some r" by simp
    from miss_call_ran(2) [OF this ran assms(6)] held' show False
      using sql_lock.acq_held by blast
  qed
  have no: "\<not> fst (sql_acquire t h' m' k i' c2)" for t h' m' i'
    using held sql_lock.acq_held by blast
  have same: "snd (sql_acquire t h' m' k i' c2) = c2" for t h' m' i'
    using held no sql_lock.acq_fail by blast
  show "\<not> Cache (o_job (fn_opt f)) \<and> \<not> (ce_fromcall env \<and> Async (o_job (fn_opt f))) \<and> ce_fault_enqueue env = None \<longrightarrow>
      cr_err r = Some ErrJobDuplicated \<and> cr_store r = c2"
  proof
    assume a: "\<not> Cache (o_job (fn_opt f)) \<and> \<not> (ce_fromcall env \<and> Async (o_job (fn_opt f))) \<and> ce_fault_enqueue env = None"
    then have "call_job f env input c2 =
        Some (finish_call ((zero_out (fn_codec f), Some ErrJobDuplicated, None), c2))"
      by (auto simp: call_job_def miss_call_def Let_def Enqueue_acquire no same assms(6-8))
    with assms(9) show "cr_err r = Some ErrJobDuplicated \<and> cr_store r = c2" by (auto simp: finish_call_def)
  qed
qed

subsection \<open>What a call leaves behind\<close>

lemma run_handler_out:
  assumes "fn_handle f input c = ((output, err, NoAbort), c1)"
  shows "cr_out (run_handler f env input injson key c) = output"
    and "cr_err (run_handler f env input injson key c) = err"
    and "cr_ran (run_handler f env input injson key c)"
  using assms by (simp_all add: run_handler_def Let_def)

lemma run_handler_stores:
  assumes "fn_handle f input c = ((output, None, NoAbort), c1)" and "Cache (o_job (fn_opt f))"
    and "CacheExpire (o_job (fn_opt f)) = 0" and "ce_fault_store env = None"
    and "out_json (fn_codec f) output = Inr b" and "find_result (cs_db c1) key = None"
  shows "stored_info False key (cr_store (run_handler f env input injson key c)) =
    Some (with_ttl None (info_of_result (result_row_of (ce_now_done env) (encodeHandlerName (fn_opt f))
        (JobMeta (ce_now_done env) (fn_opt f) key key statusDone) statusDone key (Some injson) (Some b) None)),
      Some b, None)"
proof -
  let ?m = "JobMeta (ce_now_done env) (fn_opt f) key key statusDone"
  let ?row = "result_row_of (ce_now_done env) (encodeHandlerName (fn_opt f)) ?m statusDone key (Some injson) (Some b) None"
  have "m_ttl ?m = None" using assms(3) by (simp add: JobMeta_def)
  then have "cr_store (run_handler f env input injson key c) = on_db (upsert_result ?row) c1"
    using assms(1,2,4,5)
    by (simp add: run_handler_def Let_def marshalOutputSet_def Done_def exec_def done_status_def)
  moreover have "find_result (upsert_result ?row (cs_db c1)) key = Some ?row"
    using assms(6) by (simp add: find_result_upsert result_row_of_def)
  ultimately show ?thesis
    using \<open>m_ttl ?m = None\<close> by (simp add: stored_info_def select_info_def on_db_def result_row_of_def)
qed

text \<open>The store a call hands to its handler when it runs it.\<close>

definition run_store :: "('i, 'u) fn \<Rightarrow> call_env \<Rightarrow> bytes \<Rightarrow> string \<Rightarrow> callSQLStrategy \<Rightarrow> callSQLStrategy" where
  "run_store f env injson key c =
     (if Dedupe (o_job (fn_opt f))
      then snd (sql_acquire (ce_now_lock env) (encodeHandlerName (fn_opt f)) (lock_meta f env key) key
                  (Some injson) (store_after_hit f env key c))
      else store_after_hit f env key c)"

lemma call_job_run:
  assumes "in_json (fn_codec f) input = Inr injson" "call_job f env input c = Some r" "cr_ran r"
  shows "r = run_handler f env input injson (call_key f env input injson)
    (run_store f env injson (call_key f env input injson) c)"
  using miss_call_ran(3) [OF call_job_ran [OF assms] assms(3)] by (simp add: run_store_def)

text \<open>Caching round trip: when a call of a cached function without expiry has run its handler and
  got an output, and no result was stored under its key before, every later call with the same key,
  whenever it is made and whatever its request, does not run the handler again and returns that output
  (or \<open>ErrJobDuplicated\<close> for a function that must run only once), provided the output's JSON decodes
  to the output.\<close>

theorem cached_call_roundtrip:
  assumes "Cache (o_job (fn_opt f))" and "CacheExpire (o_job (fn_opt f)) = 0"
    and "in_json (fn_codec f) input = Inr injson" and "call_key f env input injson = key"
    and "call_job f env input c = Some r" and "cr_ran r" and "ce_fault_store env = None"
    and "fn_handle f input (run_store f env injson key c) = ((output, None, NoAbort), c1)"
    and "find_result (cs_db c1) key = None"
    and "out_json (fn_codec f) output = Inr b" and "out_of (fn_codec f) b = Inr output"
    and "call_key f env' input injson = key" and "ce_fault_hit env' = None"
  shows "cr_out r = output \<and> cr_err r = None \<and>
    call_job f env' input (cr_store r) =
      Some \<lparr>cr_out = (if CacheErrOnHit (o_job (fn_opt f)) then zero_out (fn_codec f) else output),
            cr_err = (if CacheErrOnHit (o_job (fn_opt f)) then Some ErrJobDuplicated else None),
            cr_ran = False, cr_store = cr_store r\<rparr>"
proof -
  have r: "r = run_handler f env input injson key (run_store f env injson key c)"
    using call_job_run [OF assms(3,5,6)] assms(4) by simp
  note out = run_handler_out [OF assms(8), of env injson key]
  let ?row = "result_row_of (ce_now_done env) (encodeHandlerName (fn_opt f))
    (JobMeta (ce_now_done env) (fn_opt f) key key statusDone) statusDone key (Some injson) (Some b) None"
  have st: "stored_info (CacheExpire (o_job (fn_opt f)) \<noteq> 0) (call_key f env' input injson) (cr_store r) =
      Some (with_ttl None (info_of_result ?row), Some b, None)"
    using run_handler_stores [OF assms(8,1,2,7,10,9)] assms(2,12) by (simp add: r)
  have fin: "finished (m_status (ji_meta (with_ttl None (info_of_result ?row))))"
    by (simp add: result_row_of_def finished_def)
  have ver: "\<not> hasMajorOrMinorVersionDiff (m_version (ji_meta (with_ttl None (info_of_result ?row))))
      (handlerVersion (fn_opt f))"
    by (simp add: result_row_of_def JobMeta_def hasMajorOrMinorVersionDiff_def split: option.split)
  have ttl: "\<not> past (m_ttl (ji_meta (with_ttl None (info_of_result ?row)))) (ce_now_hit env')"
    by (simp add: past_def)
  have enc: "encodes (fn_codec f) output None (Some b) None"
    using assms(11) by (simp add: encodes_def unmarshalOutputSet_def)
  from cache_hit_skips_handler_lemma [OF assms(1,3,13) st fin ver ttl enc] out show ?thesis
    by (simp add: r)
qed

text \<open>A cached function with an expiry, called synchronously, never stores its result: its call
  returns the handler's output and leaves the store exactly as the handler left it, so the cache never
  answers the calls that follow.\<close>

theorem expiring_cache_never_stores:
  assumes "Cache (o_job (fn_opt f))" and "CacheExpire (o_job (fn_opt f)) \<noteq> 0"
    and "in_json (fn_codec f) input = Inr injson" and "call_key f env input injson = key"
    and "call_job f env input c = Some r" and "cr_ran r"
    and "fn_handle f input (run_store f env injson key c) = ((output, err, NoAbort), c1)"
  shows "cr_out r = output \<and> cr_err r = err \<and> cr_store r = c1 \<and>
    (stored_info True key c1 = None \<and> call_key f env' input injson = key \<and> \<not> Dedupe (o_job (fn_opt f)) \<and>
      \<not> (ce_fromcall env' \<and> Async (o_job (fn_opt f))) \<longrightarrow>
      (\<exists>r'. call_job f env' input (cr_store r) = Some r' \<and> cr_ran r'))"
proof -
  have r: "r = run_handler f env input injson key (run_store f env injson key c)"
    using call_job_run [OF assms(3,5,6)] assms(4) by simp
  have "snd (Done fl t h (JobMeta t (fn_opt f) key key st) key i out e c) = c" for fl t h st i out e c
    using assms(2) by (simp add: Done_def JobMeta_def split: option.splits)
  then have st: "cr_store r = c1"
    using assms(1,7) by (simp add: r run_handler_def Let_def split: sum.splits prod.splits)
  have run: "cr_ran (run_handler f env' input injson key c')" for c'
    by (simp add: run_handler_def Let_def split: prod.splits sum.splits)
  have "\<exists>r'. call_job f env' input (cr_store r) = Some r' \<and> cr_ran r'"
    if "stored_info True key c1 = None" "call_key f env' input injson = key" "\<not> Dedupe (o_job (fn_opt f))"
      "\<not> (ce_fromcall env' \<and> Async (o_job (fn_opt f)))"
    using that assms(1-3) run st
    by (auto simp: call_job_def Let_def try_hit_missing miss_call_def)
  with run_handler_out [OF assms(7), of env injson key] st show ?thesis by (simp add: r)
qed

text \<open>The lock of a cached, deduplicated function (a memoized one or one that must run once) is not
  released when its call ends: the job row stays leased. If a heartbeat gave it a lease while the
  handler ran, a reaping after that lease queues the finished job again and the next dequeue of its
  handler may run it a second time.\<close>

theorem finished_lock_is_requeued:
  assumes "Dedupe (o_job (fn_opt f))" and "Cache (o_job (fn_opt f))"
    and "in_json (fn_codec f) input = Inr injson" and "call_key f env input injson = key"
    and "call_job f env input c = Some r" and "cr_ran r"
    and "fn_handle f input (run_store f env injson key c) = ((output, err, ctrl), c1)"
    and "ctrl = NoAbort \<or> ctrl = AbortJob"
    and "store_reachable c1" and "find_exec (cs_db c1) key = Some row"
    and "e_status row = statusLeased" and "e_leased row = Some u" and "e_retry row = None"
    and "e_run_at row \<le> now'" and "u < now'" and "restarts bind"
  shows "sql_state (cr_store r) key = Some statusLeased \<and>
    (\<exists>row'. find_exec (cs_db (snd (Reaping None bind now' (cr_store r)))) key = Some row' \<and>
       dq_eligible now' [e_handler row] row')"
proof -
  have r: "r = run_handler f env input injson key (run_store f env injson key c)"
    using call_job_run [OF assms(3,5,6)] assms(4) by simp
  have inv: "store_inv c1" by (rule reachable_inv [OF assms(9)])
  have kept: "store_inv (snd (Done fl t h m k i out e c1)) \<and>
      find_exec (cs_db (snd (Done fl t h m k i out e c1))) key = Some row" for fl t h m k i out e
  proof -
    have "find_exec (cs_db (snd (Done fl t h m k i out e c1))) key = find_exec (cs_db c1) key"
      by (simp add: Done_def exec_def on_db_def split: option.splits)
    with Done_keeps_jobs [OF inv, of fl t h m k i out e] assms(10) show ?thesis by simp
  qed
  have "store_inv (cr_store r) \<and> find_exec (cs_db (cr_store r)) key = Some row"
    using assms(2,7,8,10) kept inv
    by (auto simp: r run_handler_def Let_def split: sum.splits prod.splits)
  moreover from this have db: "db_inv (cs_db (cr_store r))" by (simp add: store_inv_def)
  ultimately show ?thesis
    using assms(11-15)
    by (auto simp: sql_state_def Reaping_restart [OF assms(16)] on_db_def find_exec_reap [OF db]
        reap_row_def past_def dq_eligible_def)
qed

text \<open>A function without a cache that asks to be requeued when it is called directly is lost: the
  caller sees no error (whatever the handler returned), and the new job row is leased but has no lease,
  so no dequeue ever hands it out, every reaping leaves it as it is, and no later call can take the
  lock of its key.\<close>

theorem requeue_from_call_is_stuck:
  assumes "\<not> Cache (o_job (fn_opt f))"
    and "in_json (fn_codec f) input = Inr injson" and "call_key f env input injson = key"
    and "call_job f env input c = Some r" and "cr_ran r"
    and "fn_handle f input (run_store f env injson key c) = ((output, err, ctrl), c1)"
    and "ctrl \<noteq> NoAbort" and "ctrl \<noteq> AbortJob"
    and "store_reachable c1" and "find_exec (cs_db c1) key = None \<or> Dedupe (o_job (fn_opt f))"
    and "ce_fault_store env = None" and "ce_fault_requeue env = None"
  shows "cr_err r = None \<and>
    (\<exists>row. find_exec (cs_db (cr_store r)) key = Some row \<and> e_status row = statusLeased \<and>
      (\<forall>t hs. \<not> dq_eligible t hs row) \<and> (\<forall>t n. reap_row t n row = Some row)) \<and>
    (\<forall>t h m i. \<not> fst (sql_acquire t h m key i (cr_store r)))"
proof -
  have r: "r = run_handler f env input injson key (run_store f env injson key c)"
    using call_job_run [OF assms(2,4,5)] assms(3) by simp
  have na: "EnqueueStatus (fn_opt f) (ce_fromcall env) = statusLeased"
    using miss_call_ran(1) [OF call_job_ran [OF assms(2,4,5)] assms(5)] by (auto simp: EnqueueStatus_def)
  have inv: "store_inv c1" by (rule reachable_inv [OF assms(9)])
  let ?c2 = "if Dedupe (o_job (fn_opt f)) then sql_release key c1 else c1"
  have c2: "store_inv ?c2 \<and> sql_state ?c2 key = None"
  proof (cases "Dedupe (o_job (fn_opt f))")
    case True
    with sql_lock.rel_inv [OF inv, of key] sql_lock.rel_state [OF inv, of key] show ?thesis by simp
  next
    case False
    with inv assms(10) show ?thesis by (simp add: sql_state_def)
  qed
  let ?m = "JobMeta (ce_now_requeue env) (fn_opt f) key key statusLeased"
  let ?h = "encodeHandlerName (fn_opt f)"
  let ?acq = "sql_acquire (ce_now_requeue env) ?h ?m key (Some injson) ?c2"
  have r': "cr_err r = None \<and> cr_store r = snd ?acq"
    using assms(1,6-8,11,12) na
    by (simp add: r run_handler_def Let_def Enqueue_acquire sql_release_def split: abort_ctrl.splits)
  have db: "db_inv (cs_db ?c2)" and new: "find_exec (cs_db ?c2) key = None"
    using c2 by (auto simp: store_inv_def sql_state_def)
  have row: "find_exec (cs_db (snd ?acq)) key =
      Some (enqueue_row (ce_now_requeue env) ?h ?m key (Some injson) (next_id (cs_db ?c2)))"
    using new by (simp add: sql_acquire_eq find_exec_enqueue [OF db])
  have inv': "store_inv (snd ?acq)" using sql_lock.acq_inv c2 by blast
  have st: "sql_state (snd ?acq) key = Some statusLeased"
    using row by (simp add: sql_state_def enqueue_row_def JobMeta_def)
  have "\<not> fst (sql_acquire t h m key i (snd ?acq))" for t h m i
    using sql_lock.acq_held [OF inv' st] .
  moreover have "\<not> dq_eligible t hs (enqueue_row (ce_now_requeue env) ?h ?m key (Some injson) i)"
    "reap_row t n (enqueue_row (ce_now_requeue env) ?h ?m key (Some injson) i) =
      Some (enqueue_row (ce_now_requeue env) ?h ?m key (Some injson) i)" for t hs n i
    by (simp_all add: dq_eligible_def reap_row_def enqueue_row_def JobMeta_def past_def)
  moreover have "e_status (enqueue_row (ce_now_requeue env) ?h ?m key (Some injson) i) = statusLeased" for i
    by (simp add: enqueue_row_def JobMeta_def)
  ultimately show ?thesis using r' row by auto
qed

subsection \<open>A concrete function\<close>

text \<open>A function from strings to strings with trivial codecs, and calls of it.\<close>

definition text_codec :: "(string, string) codec" where
  "text_codec = \<lparr>in_json = Inr, in_of = Inr, out_json = Inr, out_of = Inr, err_json = (\<lambda>e. Inr ''E''),
     err_of = (\<lambda>b. Inr (HandlerError b)), err_msg = (\<lambda>e. ''e''), zero_out = [], idem_key = (\<lambda>i. [])\<rparr>"

definition text_opt :: "bool \<Rightarrow> bool \<Rightarrow> duration \<Rightarrow> fn_option" where
  "text_opt cache dedupe expire =
     \<lparr>o_name = ''up'', o_version = [], o_mode = ModeNormal,
      o_job = \<lparr>Async = False, Cache = cache, CacheErrOnHit = False, Dedupe = dedupe, Priority = 0,
               CacheExpire = expire, Interval = 0\<rparr>\<rparr>"

definition text_fn ::
  "fn_option \<Rightarrow> abort_ctrl \<Rightarrow> (callSQLStrategy \<Rightarrow> callSQLStrategy) \<Rightarrow> (string, string) fn" where
  "text_fn opt ctrl effect =
     \<lparr>fn_opt = opt, fn_codec = text_codec, fn_sha = (\<lambda>b. ''h''),
      fn_handle = (\<lambda>i c. ((i @ ''!'', None, ctrl), effect c)), fn_out_upgrade = None\<rparr>"

definition text_env :: call_env where
  "text_env = \<lparr>ce_fromcall = True, ce_requestid = ''rq'', ce_requeueInterval = second, ce_now_hit = 40,
     ce_now_lock = 41, ce_now_done = 42, ce_now_requeue = 43, ce_fault_hit = None, ce_fault_hit2 = None,
     ce_fault_enqueue = None, ce_fault_store = None, ce_fault_requeue = None, ce_polls = []\<rparr>"

lemmas text_defs = text_fn_def text_codec_def text_opt_def text_env_def

definition text_key :: string where
  "text_key = ''job:v1:up:h''"

lemma text_key:
  "Cache (o_job opt) \<or> Dedupe (o_job opt) \<Longrightarrow> o_name opt = ''up'' \<Longrightarrow>
    call_key (text_fn opt ctrl effect) env i b = text_key"
  by (auto simp: call_key_def JobID_def encodeJobID_def encodeJobKey_def encodeHandlerName_def text_fn_def
      text_codec_def text_key_def)

theorem cache_hit_skips_handler_witness:
  "map_option (\<lambda>r. (cr_out r, cr_ran r)) (call_job (text_fn (text_opt True False 0) NoAbort id) text_env ''a''
     (snd (Done None 7 ''up'' (JobMeta 7 (text_opt True False 0) text_key text_key statusDone) text_key
        None (Some ''stored'') None example_store))) = Some (''stored'', False)"
proof -
  let ?f = "text_fn (text_opt True False 0) NoAbort id"
  let ?m = "JobMeta 7 (text_opt True False 0) text_key text_key statusDone"
  let ?c = "snd (Done None 7 ''up'' ?m text_key None (Some ''stored'') None example_store)"
  let ?row = "result_row_of 7 ''up'' ?m statusDone text_key None (Some ''stored'') None"
  have m: "m_ttl ?m = None" "m_version ?m = ''0.0.1''"
    by (simp_all add: JobMeta_def text_opt_def handlerVersion_def)
  have key: "call_key ?f text_env ''a'' ''a'' = text_key" by (rule text_key) (simp_all add: text_opt_def)
  have no: "find_result (cs_db example_store) text_key = None" by code_simp
  have st: "stored_info (CacheExpire (o_job (fn_opt ?f)) \<noteq> 0) (call_key ?f text_env ''a'' ''a'') ?c =
      Some (with_ttl None (info_of_result ?row), Some ''stored'', None)"
    using m no unfolding key
    by (simp add: stored_info_def select_info_def text_defs Done_def exec_def on_db_def find_result_upsert
        result_row_of_def done_status_def)
  have side: "Cache (o_job (fn_opt ?f))" "in_json (fn_codec ?f) ''a'' = Inr ''a''" "ce_fault_hit text_env = None"
    by (simp_all add: text_defs)
  have fin: "finished (m_status (ji_meta (with_ttl None (info_of_result ?row))))"
    by (simp add: finished_def result_row_of_def)
  have ver: "\<not> hasMajorOrMinorVersionDiff (m_version (ji_meta (with_ttl None (info_of_result ?row))))
      (handlerVersion (fn_opt ?f))"
    using m by (simp add: result_row_of_def handlerVersion_def text_defs hasMajorOrMinorVersionDiff_def split: option.split)
  have ttl: "\<not> past (m_ttl (ji_meta (with_ttl None (info_of_result ?row)))) (ce_now_hit text_env)"
    by (simp add: past_def)
  have enc: "encodes (fn_codec ?f) ''stored'' None (Some ''stored'') None"
    by (simp add: encodes_def unmarshalOutputSet_def text_defs)
  from cache_hit_skips_handler [OF side st fin ver ttl enc] show ?thesis
    by (simp add: text_defs)
qed

lemma uncached_call_returns: "\<not> Cache (o_job (fn_opt f)) \<Longrightarrow> \<exists>r. call_job f env input c = Some r"
  by (auto simp: call_job_def miss_call_def Let_def split: sum.splits prod.splits)

theorem concurrent_call_excluded_witness:
  "\<exists>r. call_job (text_fn (text_opt False True 0) NoAbort id) text_env ''a''
     (snd (sql_acquire 30 ''up'' (example_meta statusLeased 0) text_key None example_store)) = Some r \<and>
   \<not> cr_ran r \<and> cr_err r = Some ErrJobDuplicated"
proof -
  let ?f = "text_fn (text_opt False True 0) NoAbort id"
  let ?c = "snd (sql_acquire 30 ''up'' (example_meta statusLeased 0) text_key None example_store)"
  have acq: "fst (sql_acquire 30 ''up'' (example_meta statusLeased 0) text_key None example_store)" by code_simp
  have m: "m_status (example_meta statusLeased 0) = statusLeased" by (simp add: example_meta_def)
  have rel: "Release text_key \<notin> set []" by simp
  have run: "?c = snd (lock_run sql_acquire sql_release [] ?c)" by simp
  have side: "Dedupe (o_job (fn_opt ?f))" "in_json (fn_codec ?f) ''a'' = Inr ''a''" by (simp_all add: text_defs)
  have key: "call_key ?f text_env ''a'' ''a'' = text_key" by (rule text_key) (simp_all add: text_opt_def)
  obtain r where r: "call_job ?f text_env ''a'' ?c = Some r"
    using uncached_call_returns [of ?f text_env "''a''" ?c] by (auto simp: text_defs)
  from concurrent_call_excluded [OF example_reachable acq m rel run side key r] r show ?thesis
    by (simp add: text_defs)
qed

lemma text_call_runs:
  assumes "Cache (o_job opt) \<or> Dedupe (o_job opt)" and "o_name opt = ''up''" and "\<not> Async (o_job opt)"
    and "stored_info (CacheExpire (o_job opt) \<noteq> 0) text_key c = None" and "sql_state c text_key = None"
    and "store_reachable c"
  shows "\<exists>r. call_job (text_fn opt ctrl effect) text_env i c = Some r \<and> cr_ran r"
proof -
  let ?f = "text_fn opt ctrl effect"
  have o: "fn_opt ?f = opt" "in_json (fn_codec ?f) i = Inr i" "ce_fault_enqueue text_env = None"
    by (simp_all add: text_defs)
  have run: "cr_ran (run_handler ?f text_env i i text_key c')" for c'
    by (simp add: run_handler_def Let_def split: prod.splits sum.splits)
  have acq: "fst (sql_acquire t h m text_key j c)" for t h m j
    using sql_lock.acq_iff [OF reachable_inv [OF assms(6)]] assms(5) by simp
  have "\<exists>r. miss_call ?f text_env i i text_key c = Some r \<and> cr_ran r"
    using assms(3) run by (simp add: miss_call_def Let_def o Enqueue_acquire acq)
  moreover have "try_hit ?f t hf fl text_key c = ((zero_out (fn_codec ?f), None, Some ErrJobNotFound), c)" for t hf fl
    by (rule try_hit_missing) (simp add: o assms(4))
  ultimately show ?thesis
    by (simp add: call_job_def o Let_def text_key [OF assms(1,2)])
qed

theorem cached_call_roundtrip_witness:
  "\<exists>r r2. call_job (text_fn (text_opt True False 0) NoAbort id) text_env ''a'' example_store = Some r \<and>
     call_job (text_fn (text_opt True False 0) NoAbort id) text_env ''a'' (cr_store r) = Some r2 \<and>
     cr_ran r \<and> \<not> cr_ran r2 \<and> cr_out r2 = ''a!''"
proof -
  let ?f = "text_fn (text_opt True False 0) NoAbort id"
  have none: "stored_info False text_key example_store = None" "sql_state example_store text_key = None"
    by code_simp+
  obtain r where r: "call_job ?f text_env ''a'' example_store = Some r" "cr_ran r"
    using text_call_runs [of "text_opt True False 0" example_store NoAbort id "''a''"] none example_reachable
    by (auto simp: text_opt_def)
  have side: "Cache (o_job (fn_opt ?f))" "CacheExpire (o_job (fn_opt ?f)) = 0" "in_json (fn_codec ?f) ''a'' = Inr ''a''"
    by (simp_all add: text_defs)
  have key: "call_key ?f text_env ''a'' ''a'' = text_key" by (rule text_key) (simp_all add: text_opt_def)
  have faults: "ce_fault_store text_env = None" "ce_fault_hit text_env = None" by (simp_all add: text_defs)
  have "try_hit ?f t hf fl text_key example_store = ((zero_out (fn_codec ?f), None, Some ErrJobNotFound), example_store)" for t hf fl
    by (rule try_hit_missing) (use none in \<open>simp add: text_defs\<close>)
  then have rs: "run_store ?f text_env ''a'' text_key example_store = example_store"
    by (simp add: run_store_def store_after_hit_def) (simp add: text_defs)
  have h: "fn_handle ?f ''a'' (run_store ?f text_env ''a'' text_key example_store) = ((''a!'', None, NoAbort), example_store)"
    unfolding rs by (simp add: text_defs)
  have nr: "find_result (cs_db example_store) text_key = None" by code_simp
  have json: "out_json (fn_codec ?f) ''a!'' = Inr ''a!''" "out_of (fn_codec ?f) ''a!'' = Inr ''a!''"
    by (simp_all add: text_defs)
  from cached_call_roundtrip [OF side key r faults(1) h nr json key faults(2)] r show ?thesis
    by (simp add: text_defs)
qed

theorem expiring_cache_never_stores_witness:
  "\<exists>r r2. call_job (text_fn (text_opt True False second) NoAbort id) text_env ''a'' example_store = Some r \<and>
     call_job (text_fn (text_opt True False second) NoAbort id) text_env ''a'' (cr_store r) = Some r2 \<and>
     cr_ran r \<and> cr_ran r2"
proof -
  let ?f = "text_fn (text_opt True False second) NoAbort id"
  have none: "stored_info True text_key example_store = None" "sql_state example_store text_key = None"
    by code_simp+
  obtain r where r: "call_job ?f text_env ''a'' example_store = Some r" "cr_ran r"
    using text_call_runs [of "text_opt True False second" example_store NoAbort id "''a''"] none example_reachable
    by (auto simp: text_opt_def)
  have side: "Cache (o_job (fn_opt ?f))" "CacheExpire (o_job (fn_opt ?f)) \<noteq> 0" "in_json (fn_codec ?f) ''a'' = Inr ''a''"
    by (simp_all add: text_defs)
  have key: "call_key ?f text_env ''a'' ''a'' = text_key" by (rule text_key) (simp_all add: text_opt_def)
  have "try_hit ?f t hf fl text_key example_store = ((zero_out (fn_codec ?f), None, Some ErrJobNotFound), example_store)" for t hf fl
    by (rule try_hit_missing) (use none in \<open>simp add: text_defs\<close>)
  then have rs: "run_store ?f text_env ''a'' text_key example_store = example_store"
    by (simp add: run_store_def store_after_hit_def) (simp add: text_defs)
  have h: "fn_handle ?f ''a'' (run_store ?f text_env ''a'' text_key example_store) = ((''a!'', None, NoAbort), example_store)"
    unfolding rs by (simp add: text_defs)
  have "\<not> Dedupe (o_job (fn_opt ?f))" "\<not> Async (o_job (fn_opt ?f))" by (simp_all add: text_defs)
  with expiring_cache_never_stores [OF side key r h, of text_env] r none(1) key show ?thesis by auto
qed

lemma text_run_store:
  assumes "Dedupe (o_job opt)" and "stored_info (CacheExpire (o_job opt) \<noteq> 0) text_key c = None"
  shows "run_store (text_fn opt ctrl effect) text_env b text_key c =
    snd (sql_acquire 41 (o_name opt) (JobMeta 41 opt text_key text_key statusLeased) text_key (Some b) c)"
proof -
  let ?f = "text_fn opt ctrl effect"
  have o: "fn_opt ?f = opt" "ce_now_lock text_env = 41" by (simp_all add: text_defs)
  have "try_hit ?f t hf fl text_key c = ((zero_out (fn_codec ?f), None, Some ErrJobNotFound), c)" for t hf fl
    by (rule try_hit_missing) (simp add: o assms(2))
  then show ?thesis
    using assms(1) by (simp add: run_store_def store_after_hit_def o lock_meta_def encodeHandlerName_def)
qed

lemma reachable_acquire: "store_reachable c \<Longrightarrow> store_reachable (snd (sql_acquire now h m k i c))"
  using reach_step [of c "OpEnqueue None now h m k i 0"] by (simp add: Enqueue_acquire)

definition locked_example :: "fn_option \<Rightarrow> callSQLStrategy" where
  "locked_example opt =
     snd (sql_acquire 41 ''up'' (JobMeta 41 opt text_key text_key statusLeased) text_key (Some ''a'') example_store)"

theorem finished_lock_is_requeued_witness:
  "\<exists>r row'. call_job (text_fn (text_opt True True 0) NoAbort (\<lambda>s. snd (LeaseUpdate None 50 text_key 5 s)))
       text_env ''a'' example_store = Some r \<and> cr_ran r \<and>
     find_exec (cs_db (snd (Reaping None restart_binding 60 (cr_store r)))) text_key = Some row' \<and>
     dq_eligible 60 [''up''] row'"
proof -
  let ?o = "text_opt True True 0" and ?e = "\<lambda>s. snd (LeaseUpdate None 50 text_key 5 s)"
  let ?f = "text_fn ?o NoAbort ?e"
  have none: "stored_info False text_key example_store = None" "sql_state example_store text_key = None"
    by code_simp+
  obtain r where r: "call_job ?f text_env ''a'' example_store = Some r" "cr_ran r"
    using text_call_runs [of ?o example_store NoAbort ?e "''a''"] none example_reachable
    by (auto simp: text_opt_def)
  have side: "Dedupe (o_job (fn_opt ?f))" "Cache (o_job (fn_opt ?f))" "in_json (fn_codec ?f) ''a'' = Inr ''a''"
    by (simp_all add: text_defs)
  have key: "call_key ?f text_env ''a'' ''a'' = text_key" by (rule text_key) (simp_all add: text_opt_def)
  have rs: "run_store ?f text_env ''a'' text_key example_store = locked_example ?o"
    using text_run_store [of ?o example_store NoAbort ?e "''a''"] none
    by (simp add: locked_example_def) (simp add: text_opt_def)
  have h: "fn_handle ?f ''a'' (run_store ?f text_env ''a'' text_key example_store) =
      ((''a!'', None, NoAbort), ?e (locked_example ?o))"
    unfolding rs by (simp add: text_fn_def)
  have re: "store_reachable (?e (locked_example ?o))"
    using reach_step [OF reachable_acquire [OF example_reachable], of "OpLeaseUpdate None 50 text_key 5"]
    by (simp add: locked_example_def)
  have "map_option (\<lambda>r. (e_status r, e_leased r, e_retry r, e_run_at r, e_handler r))
      (find_exec (cs_db (?e (locked_example ?o))) text_key) = Some (statusLeased, Some 55, None, 41, ''up'')"
    by code_simp
  then obtain row where row: "find_exec (cs_db (?e (locked_example ?o))) text_key = Some row"
    "e_status row = statusLeased" "e_leased row = Some 55" "e_retry row = None" "e_run_at row = 41"
    "e_handler row = ''up''" by auto
  have t: "e_run_at row \<le> 60" "(55::int) < 60" using row by simp_all
  from finished_lock_is_requeued [OF side key r h _ re row(1-4) t restarts_restart_binding] row(6) r
  show ?thesis by auto
qed

theorem requeue_from_call_is_stuck_witness:
  "\<exists>r row. call_job (text_fn (text_opt False True 0) AbortRequeue id) text_env ''a'' example_store = Some r \<and>
     cr_err r = None \<and> find_exec (cs_db (cr_store r)) text_key = Some row \<and> \<not> dq_eligible 1000 [''up''] row"
proof -
  let ?o = "text_opt False True 0"
  let ?f = "text_fn ?o AbortRequeue id"
  have none: "stored_info False text_key example_store = None" "sql_state example_store text_key = None"
    by code_simp+
  obtain r where r: "call_job ?f text_env ''a'' example_store = Some r" "cr_ran r"
    using text_call_runs [of ?o example_store AbortRequeue id "''a''"] none example_reachable
    by (auto simp: text_opt_def)
  have side: "\<not> Cache (o_job (fn_opt ?f))" "in_json (fn_codec ?f) ''a'' = Inr ''a''" by (simp_all add: text_defs)
  have key: "call_key ?f text_env ''a'' ''a'' = text_key" by (rule text_key) (simp_all add: text_opt_def)
  have rs: "run_store ?f text_env ''a'' text_key example_store = locked_example ?o"
    using text_run_store [of ?o example_store AbortRequeue id "''a''"] none
    by (simp add: locked_example_def) (simp add: text_opt_def)
  have h: "fn_handle ?f ''a'' (run_store ?f text_env ''a'' text_key example_store) =
      ((''a!'', None, AbortRequeue), locked_example ?o)"
    unfolding rs by (simp add: text_fn_def)
  have re: "store_reachable (locked_example ?o)"
    unfolding locked_example_def by (rule reachable_acquire [OF example_reachable])
  have d: "find_exec (cs_db (locked_example ?o)) text_key = None \<or> Dedupe (o_job (fn_opt ?f))"
    "ce_fault_store text_env = None" "ce_fault_requeue text_env = None" by (simp_all add: text_defs)
  from requeue_from_call_is_stuck [OF side key r h _ _ re d] r show ?thesis by auto
qed

end
