(* ===== verification/Job_Set.thy ===== *)
theory Job_Set
  imports Prelude
begin

section \<open>Sets of handler names\<close>

text \<open>
  \<open>typedhandler_job_set.go\<close>: the mutex-protected sets of handler names the job manager keeps (all, locked,
  locked by a full resource). The keys of the Go map, in insertion order (its iteration order is not relied upon).\<close>

type_synonym jobset = "string list"

definition jobset_Add :: "string \<Rightarrow> jobset \<Rightarrow> jobset" where
  "jobset_Add v s = (if v \<in> set s then s else s @ [v])"

definition jobset_Remove :: "string \<Rightarrow> jobset \<Rightarrow> jobset" where
  "jobset_Remove v s = filter (\<lambda>x. x \<noteq> v) s"

definition jobset_Diff :: "jobset \<Rightarrow> jobset list \<Rightarrow> string list" where
  "jobset_Diff s others =
     (if sum_list (map length others) = 0 then s
      else filter (\<lambda>k. \<not> (\<exists>other \<in> set others. k \<in> set other)) s)"

lemma set_jobset_ops [simp]:
  "set (jobset_Add v s) = insert v (set s)"
  "set (jobset_Remove v s) = set s - {v}"
  by (auto simp: jobset_Add_def jobset_Remove_def)

lemma set_jobset_Diff: "set (jobset_Diff s others) = set s - (\<Union>other \<in> set others. set other)"
  by (auto simp: jobset_Diff_def)

end
