(* ===== verification/Job_Worker.thy ===== *)
theory Job_Worker
  imports Job_Call_Props Job_Set
begin

section \<open>The worker: job manager, invocation, progress\<close>

text \<open>
  \<open>typedhandler_job_manager.go\<close>, \<open>invokeFunctionJSON\<close> of
  \<open>typedhandler_job.go\<close> and the task methods of \<open>sqlJobTask\<close>. One turn of the worker's loop is
  \<open>worker_dequeue\<close>, one job it hands to the pool is \<open>worker_start\<close> followed by \<open>worker_finish\<close>. A call
  through a nil function or a nil option panics, which is \<open>None\<close>.
\<close>

subsection \<open>Invoking a function on stored input\<close>

text \<open>
  The hooks of a function: \<open>OnInputUpgrade\<close> (a nil function is \<open>None\<close>) returns whether it upgraded
  and the new input (\<open>None\<close>: not of the input type, so the zero input is used); \<open>ih_fill\<close> is
  \<open>fillSelfDiscovery\<close>, the identity for functions without it; \<open>ih_getAll\<close> is the binding of request
  values, used when \<open>direct\<close> holds. The worker calls with \<open>direct = false\<close> and no \<open>infunc\<close>.
\<close>

record 'i invoke_hooks =
  ih_upgrade :: "(string \<Rightarrow> bytes \<Rightarrow> bool \<times> 'i option) option"
  ih_zero :: 'i
  ih_fill :: "'i \<Rightarrow> string + 'i"
  ih_getAll :: "'i \<Rightarrow> job_error + 'i"

record invocation =
  iv_key :: string
  iv_out :: "bytes option"
  iv_err :: "bytes option"
  iv_syserr :: "job_error option"
  iv_ctrl :: abort_ctrl
  iv_store :: callSQLStrategy

definition invoke_failed :: "string \<Rightarrow> job_error \<Rightarrow> callSQLStrategy \<Rightarrow> invocation" where
  "invoke_failed key e c =
     \<lparr>iv_key = key, iv_out = None, iv_err = None, iv_syserr = Some e, iv_ctrl = NoAbort, iv_store = c\<rparr>"

definition decode_input ::
  "('i, 'u) fn \<Rightarrow> 'i invoke_hooks \<Rightarrow> string \<Rightarrow> bytes \<Rightarrow> (string + 'i) option" where
  "decode_input f hk version injson =
     (if hasMajorOrMinorVersionDiff version (handlerVersion (fn_opt f)) then
        (case ih_upgrade hk of
           None \<Rightarrow> None
         | Some upgrade \<Rightarrow>
             (case upgrade version injson of
                (updated, updatein) \<Rightarrow>
                  if updated then Some (Inr (case updatein of None \<Rightarrow> ih_zero hk | Some i \<Rightarrow> i))
                  else Some (in_of (fn_codec f) injson)))
      else Some (in_of (fn_codec f) injson))"

text \<open>What happens to the input before the handler runs: self discovery, request values, \<open>infunc\<close>.\<close>

definition prepare_input ::
  "'i invoke_hooks \<Rightarrow> bool \<Rightarrow> ('i \<Rightarrow> job_error + 'i) option \<Rightarrow> string \<Rightarrow> 'i \<Rightarrow> (string \<times> job_error) + 'i" where
  "prepare_input hk direct infunc key input =
     (case ih_fill hk input of
        Inl _ \<Rightarrow> Inl (key, ErrJobInputDecodeFailed)
      | Inr i1 \<Rightarrow>
          (case (if direct then ih_getAll hk i1 else Inr i1) of
             Inl e \<Rightarrow> Inl ([], e)
           | Inr i2 \<Rightarrow>
               (case (case infunc of None \<Rightarrow> Inr i2 | Some g \<Rightarrow> g i2) of
                  Inl e \<Rightarrow> Inl ([], e)
                | Inr i3 \<Rightarrow> Inr i3)))"

definition invokeFunctionJSON ::
  "('i, 'u) fn \<Rightarrow> 'i invoke_hooks \<Rightarrow> bool \<Rightarrow> ('i \<Rightarrow> job_error + 'i) option \<Rightarrow> string \<Rightarrow> string \<Rightarrow> bytes \<Rightarrow>
    callSQLStrategy \<Rightarrow> invocation option" where
  "invokeFunctionJSON f hk direct infunc handler version injson c =
     (case decode_input f hk version injson of
        None \<Rightarrow> None
      | Some (Inl _) \<Rightarrow> Some (invoke_failed [] ErrJobInputDecodeFailed c)
      | Some (Inr input) \<Rightarrow>
          let key = encodeJobID (fn_sha f) handler (idem_key (fn_codec f) input) injson [] in
          (case prepare_input hk direct infunc key input of
             Inl (k, e) \<Rightarrow> Some (invoke_failed k e c)
           | Inr input' \<Rightarrow>
               (case fn_handle f input' c of
                  ((output, err, ctrl), c1) \<Rightarrow>
                    (case marshalOutputSet (fn_codec f) output err of
                       Inl e \<Rightarrow> Some \<lparr>iv_key = key, iv_out = None, iv_err = None, iv_syserr = Some e,
                                      iv_ctrl = ctrl, iv_store = c1\<rparr>
                     | Inr (out, er) \<Rightarrow> Some \<lparr>iv_key = key, iv_out = out, iv_err = er, iv_syserr = None,
                                              iv_ctrl = ctrl, iv_store = c1\<rparr>))))"

subsection \<open>The job manager\<close>

text \<open>A registered function as the manager sees it: its options and its invoker.\<close>

record worker_fn =
  wf_opt :: fn_option
  wf_invoke :: "string \<Rightarrow> string \<Rightarrow> bytes \<Rightarrow> callSQLStrategy \<Rightarrow> invocation option"

record jobManager =
  jm_handlers :: jobset
  lockedHandlers :: jobset
  resourcelockedHandlers :: jobset
  jm_ema :: emaCalculator
  activeJobs :: int
  attempt :: int
  lastRun :: "string \<rightharpoonup> time"

definition newJobManager :: jobManager where
  "newJobManager =
     \<lparr>jm_handlers = [], lockedHandlers = [], resourcelockedHandlers = [],
      jm_ema = newEMACalculator (3 / 10), activeJobs = 0, attempt = 0, lastRun = Map.empty\<rparr>"

definition worker_dequeue ::
  "string option \<Rightarrow> time \<Rightarrow> duration \<Rightarrow> (string \<rightharpoonup> worker_fn) \<Rightarrow> jobManager \<Rightarrow> callSQLStrategy \<Rightarrow>
    ((job_error + sqlJobTask) \<times> jobManager \<times> callSQLStrategy) option" where
  "worker_dequeue fault now lease opts jm c =
     (let hs = jobset_Diff (jm_handlers jm) [lockedHandlers jm, resourcelockedHandlers jm] in
      case Dequeue fault now hs lease c (jm_ema jm) of
        (Inl e, c', ema) \<Rightarrow> Some (Inl e, jm\<lparr>jm_ema := ema, attempt := attempt jm + 1\<rparr>, c')
      | (Inr t, c', ema) \<Rightarrow>
          let m = (t_meta t)\<lparr>m_parent := t_key t\<rparr>;
              m = (if m_root m = [] then m\<lparr>m_root := t_key t\<rparr> else m)
          in (case opts (t_handler t) of
                None \<Rightarrow> None
              | Some w \<Rightarrow>
                  Some (Inr (t\<lparr>t_meta := m\<rparr>),
                    jm\<lparr>jm_ema := ema, attempt := 0,
                       lockedHandlers := (if Interval (o_job (wf_opt w)) \<noteq> 0
                         then jobset_Add (t_handler t) (lockedHandlers jm) else lockedHandlers jm)\<rparr>,
                    c')))"

text \<open>
  The pool's side of a job: whether it must be put off to respect the handler's interval, and for
  how long. \<open>to_dur\<close> is the conversion of a \<open>float64\<close> to a duration.
\<close>

definition worker_start ::
  "(rat \<Rightarrow> int) \<Rightarrow> time \<Rightarrow> worker_fn \<Rightarrow> sqlJobTask \<Rightarrow> jobManager \<Rightarrow> duration option \<times> jobManager" where
  "worker_start to_dur now w t jm =
     (let interval = Interval (o_job (wf_opt w));
          waitDur = (case lastRun jm (t_handler t) of
                       None \<Rightarrow> 0
                     | Some lr \<Rightarrow> lr + to_dur (of_int interval * CurrentAverage (jm_ema jm)) - now)
      in (if interval \<noteq> 0 \<and> lastRun jm (t_handler t) \<noteq> None \<and> waitDur > 0 then Some waitDur else None,
          jm\<lparr>activeJobs := activeJobs jm + 1\<rparr>))"

record worker_env =
  we_now :: time
  we_fault :: "string option"
  we_done_fault :: "done_fault option"
  we_requeueInterval :: duration

text \<open>Running the job and reporting its outcome; \<open>started\<close> is the time the pool took it.\<close>

definition worker_report :: "worker_env \<Rightarrow> worker_fn \<Rightarrow> sqlJobTask \<Rightarrow> invocation \<Rightarrow> callSQLStrategy" where
  "worker_report env w t iv =
     (let c1 = iv_store iv; j = o_job (wf_opt w) in
      if iv_syserr iv \<noteq> None then snd (Free (we_fault env) (t_key t) c1)
      else if iv_ctrl iv \<noteq> NoAbort then
        snd (requeue (we_fault env) (we_now env) (t_key t)
               (requeueDelay (we_requeueInterval env) (iv_ctrl iv)) c1)
      else if Cache j then
        snd (doneAsync (we_done_fault env) (we_now env) (t_handler t)
               (if CacheExpire j \<noteq> 0 then (t_meta t)\<lparr>m_ttl := Some (we_now env + CacheExpire j)\<rparr> else t_meta t)
               (t_key t) (t_input t) (iv_out iv) (iv_err iv) c1)
      else snd (Free (we_fault env) (t_key t) c1))"

definition worker_finish ::
  "worker_env \<Rightarrow> time \<Rightarrow> worker_fn \<Rightarrow> sqlJobTask \<Rightarrow> jobManager \<Rightarrow> callSQLStrategy \<Rightarrow>
    (jobManager \<times> callSQLStrategy) option" where
  "worker_finish env started w t jm c =
     (case wf_invoke w (t_handler t) (m_version (t_meta t)) (case t_input t of None \<Rightarrow> [] | Some b \<Rightarrow> b) c of
        None \<Rightarrow> None
      | Some iv \<Rightarrow>
          Some (jm\<lparr>activeJobs := activeJobs jm - 1,
                   lockedHandlers := jobset_Remove (t_handler t) (lockedHandlers jm),
                   lastRun := (lastRun jm)(t_handler t \<mapsto> started)\<rparr>,
                worker_report env w t iv))"

text \<open>\<open>tryFinish\<close>'s condition, and the numbers \<open>WaitForJob\<close> reports from \<open>Total(ctx, "*")\<close>.\<close>

definition tryFinish :: "jobManager \<Rightarrow> bool" where
  "tryFinish jm \<longleftrightarrow> activeJobs jm = 0 \<and> attempt jm \<ge> 5"

definition job_progress :: "string option \<Rightarrow> callSQLStrategy \<Rightarrow> (int \<times> int \<times> int) option" where
  "job_progress fault c =
     (case Total fault (Some ''*'') c of
        Inl e \<Rightarrow> None
      | Inr raw \<Rightarrow>
          let get = (\<lambda>k. case map_of raw k of None \<Rightarrow> 0 | Some n \<Rightarrow> n) in
          Some (get ''done'', get ''error'', sum_list (map snd raw)))"

subsection \<open>What a worker does to a job\<close>

lemma find_exec_update_key:
  assumes "find_exec db k = Some row" "\<And>r. e_key (f r) = e_key r"
  shows "find_exec (sql_update (\<lambda>r. e_key r = k) f db) k = Some (f row)"
  using assms find_exec_Some [OF assms(1)] by (simp add: find_exec_update)

lemma find_exec_free:
  assumes "db_inv db"
  shows "find_exec (sql_delete (\<lambda>r. e_key r = k) db) k = None"
  using assms by (auto simp: find_exec_delete db_inv_def split: option.splits dest: find_exec_Some)

text \<open>C8. A worker that got through an invocation without a driver error never leaves the job leased.
  A system error (input or output that cannot be coded) and a success of a function without a cache
  delete the row; any abort mark, \<open>MarkAbort\<close> included, puts it back in the queue after the delay with
  one retry more; a success of a cached function is stored where its reader looks for it, with the
  output and error the invocation gave.\<close>

theorem worker_outcome:
  assumes "store_inv (iv_store iv)" and "find_exec (cs_db (iv_store iv)) (t_key t) = Some row"
    and "we_fault env = None" and "we_done_fault env = None" and "m_ttl (t_meta t) = None"
  shows "let c' = worker_report env w t iv; j = o_job (wf_opt w) in
    (iv_syserr iv \<noteq> None \<or> iv_ctrl iv = NoAbort \<and> \<not> Cache j \<longrightarrow> find_exec (cs_db c') (t_key t) = None) \<and>
    (iv_syserr iv = None \<and> iv_ctrl iv \<noteq> NoAbort \<longrightarrow>
      (\<exists>row'. find_exec (cs_db c') (t_key t) = Some row' \<and> e_status row' = statusQueued \<and>
        e_run_at row' = we_now env + requeueDelay (we_requeueInterval env) (iv_ctrl iv) * second \<and>
        e_leased row' = None \<and> e_retry row' = Some (next_retry (e_retry row)))) \<and>
    (iv_syserr iv = None \<and> iv_ctrl iv = NoAbort \<and> Cache j \<longrightarrow>
      sql_state c' (t_key t) = Some (done_status (iv_err iv)) \<and>
      (\<exists>ji. Result None (t_key t) (CacheExpire j \<noteq> 0) c' = (ji, iv_out iv, iv_err iv, None))) \<and>
    sql_state c' (t_key t) \<noteq> Some statusLeased"
proof -
  let ?c1 = "iv_store iv" and ?k = "t_key t" and ?j = "o_job (wf_opt w)"
  have db: "db_inv (cs_db ?c1)" using assms(1) by (simp add: store_inv_def)
  have free: "find_exec (cs_db (snd (Free None ?k ?c1))) ?k = None"
    using find_exec_free [OF db] by (simp add: Free_def exec_def on_db_def)
  consider (gone) "iv_syserr iv \<noteq> None \<or> iv_ctrl iv = NoAbort \<and> \<not> Cache ?j"
    | (again) "iv_syserr iv = None" "iv_ctrl iv \<noteq> NoAbort"
    | (stored) "iv_syserr iv = None" "iv_ctrl iv = NoAbort" "Cache ?j" by blast
  then show ?thesis
  proof cases
    case gone
    then have "worker_report env w t iv = snd (Free None ?k ?c1)"
      by (auto simp: worker_report_def Let_def assms(3))
    with gone free show ?thesis by (auto simp: sql_state_def Let_def)
  next
    case again
    let ?f = "\<lambda>r. r\<lparr>e_status := statusQueued,
      e_run_at := we_now env + requeueDelay (we_requeueInterval env) (iv_ctrl iv) * second,
      e_leased := None, e_updated := we_now env, e_retry := Some (next_retry (e_retry r))\<rparr>"
    have "find_exec (sql_update (\<lambda>r. e_key r = ?k) ?f (cs_db ?c1)) ?k = Some (?f row)"
      by (rule find_exec_update_key [OF assms(2)]) simp
    then have "find_exec (cs_db (worker_report env w t iv)) ?k = Some (?f row)"
      using again by (simp add: worker_report_def Let_def assms(3) requeue_def exec_def on_db_def)
    with again show ?thesis by (simp add: sql_state_def Let_def)
  next
    case stored
    let ?m = "if CacheExpire ?j \<noteq> 0 then (t_meta t)\<lparr>m_ttl := Some (we_now env + CacheExpire ?j)\<rparr> else t_meta t"
    have ttl: "m_ttl ?m \<noteq> None \<longleftrightarrow> CacheExpire ?j \<noteq> 0" using assms(5) by simp
    have "worker_report env w t iv = snd (doneAsync None (we_now env) (t_handler t) ?m ?k (t_input t)
        (iv_out iv) (iv_err iv) ?c1)"
      using stored by (simp add: worker_report_def Let_def assms(4))
    with doneAsync_result [OF assms(2), of "we_now env" "t_handler t" ?m "t_input t" "iv_out iv" "iv_err iv"]
      stored ttl
    have "sql_state (worker_report env w t iv) ?k = Some (done_status (iv_err iv)) \<and>
        (\<exists>ji. Result None ?k (CacheExpire ?j \<noteq> 0) (worker_report env w t iv) = (ji, iv_out iv, iv_err iv, None))"
      by auto
    moreover have "done_status (iv_err iv) \<noteq> statusLeased" by (simp add: done_status_def)
    ultimately show ?thesis using stored by (simp add: Let_def)
  qed
qed

subsection \<open>From call to result\<close>

lemma worker_dequeue_task:
  assumes "worker_dequeue None now lease opts jm c = Some (Inr t, jm', c')" and "store_inv c"
    and "find_exec (cs_db c) (t_key t) = Some row"
  shows "t_handler t = e_handler row \<and> t_input t = e_input row \<and> m_version (t_meta t) = e_version row \<and>
    m_ttl (t_meta t) = None \<and> e_handler row \<in> set (jm_handlers jm) \<and>
    e_handler row \<notin> set (lockedHandlers jm) \<and> e_handler row \<notin> set (resourcelockedHandlers jm) \<and>
    (\<exists>w. opts (t_handler t) = Some w \<and> (Interval (o_job (wf_opt w)) \<noteq> 0 \<longrightarrow> t_handler t \<in> set (lockedHandlers jm')))"
proof -
  have wf: "wf_keys (cs_db c)" using assms(2) by (simp add: store_inv_def db_inv_def)
  let ?hs = "jobset_Diff (jm_handlers jm) [lockedHandlers jm, resourcelockedHandlers jm]"
  obtain r where r: "next_job now ?hs (cs_db c) = Some r"
    using assms(1) by (cases "next_job now ?hs (cs_db c)") (auto simp: worker_dequeue_def Dequeue_cases)
  have t: "t_key t = e_key r" "t_handler t = e_handler r" "t_input t = e_input r"
    "m_version (t_meta t) = e_version r" "m_ttl (t_meta t) = None"
    "\<exists>w. opts (t_handler t) = Some w \<and> (Interval (o_job (wf_opt w)) \<noteq> 0 \<longrightarrow> t_handler t \<in> set (lockedHandlers jm'))"
    using assms(1) r
    by (auto simp: worker_dequeue_def Dequeue_cases Let_def zeroMeta_def split: option.splits)
  have "row = r" using find_exec_unique [OF wf next_job_Some(1) [OF r wf]] assms(3) t(1) by simp
  with t next_job_Some(2) [OF r wf] show ?thesis by (auto simp: dq_eligible_def set_jobset_Diff)
qed

text \<open>C10. Dispatch round trip: calling an asynchronous cached function whose key is unknown answers that
  the job was accepted, with its id, without running anything; when a worker then takes that job and its
  handler produces an output, asking for the result by the id gives that output - unless the function has
  \<open>CacheErrOnHit\<close>: then it gives \<open>ErrJobDuplicated\<close> and the output can not be read that way. This is given that
  the store's driver reports no error; that input and output survive their JSON coding and the filling in
  of self-discovered fields leaves the input as it is; that handler name, idempotency key (it may be empty) and
  hash hold no colon; that the handler returns no error and marks no abort or requeue; and that when it ends the
  job's row is still there, with the function's version, and no permanent result is under its key.\<close>

theorem dispatch_roundtrip:
  assumes "Async (o_job (fn_opt f))" and "Cache (o_job (fn_opt f))"
    and "ce_fromcall env" and "ce_fault_enqueue env = None"
    and "in_json (fn_codec f) input = Inr injson" and "in_of (fn_codec f) injson = Inr input"
    and "CHR '':'' \<notin> set (idem_key (fn_codec f) input)" and "CHR '':'' \<notin> set (o_name (fn_opt f))"
    and "\<And>b. CHR '':'' \<notin> set (fn_sha f b)"
    and "store_reachable c" and "call_key f env input injson = key"
    and "find_exec (cs_db c) key = None" and "find_result (cs_db c) key = None"
    and "call_job f env input c = Some r"
    and "worker_dequeue None now lease opts jm (cr_store r) = Some (Inr t, jm1, c1)" and "t_key t = key"
    and "opts (o_name (fn_opt f)) = Some \<lparr>wf_opt = fn_opt f, wf_invoke = invokeFunctionJSON f hk False None\<rparr>"
    and "ih_fill hk input = Inr input"
    and "fn_handle f input c1 = ((output, None, NoAbort), c2)"
    and "out_json (fn_codec f) output = Inr b" and "out_of (fn_codec f) b = Inr output"
    and "find_exec (cs_db c2) key = Some row" and "e_version row = handlerVersion (fn_opt f)"
    and "find_result (cs_db c2) key = None" and "we_done_fault wenv = None"
  shows "cr_err r = Some (JobPendingError key ''job accepted'') \<and> \<not> cr_ran r \<and>
    (\<exists>jm2 c3. worker_finish wenv started (the (opts (t_handler t))) t jm1 c1 = Some (jm2, c3) \<and>
      fst (JobResult f later None sf key c3) =
        (if CacheErrOnHit (o_job (fn_opt f)) then (zero_out (fn_codec f), Some ErrJobDuplicated) else (output, None)))"
proof -
  let ?opt = "fn_opt f" and ?h = "o_name (fn_opt f)"
  have db: "db_inv (cs_db c)" using reachable_inv [OF assms(10)] by (simp add: store_inv_def)
  have miss: "stored_info (CacheExpire (o_job ?opt) \<noteq> 0) key c = None"
    using assms(12,13) by (simp add: stored_info_def select_info_def)
  let ?acq = "sql_acquire (ce_now_lock env) ?h (JobMeta (ce_now_lock env) ?opt key key statusQueued) key (Some injson) c"
  have acq: "fst ?acq" using assms(12) by (simp add: sql_acquire_eq fst_enqueue_db [OF db])
  have r: "r = \<lparr>cr_out = zero_out (fn_codec f), cr_err = Some (JobPendingError key ''job accepted''),
      cr_ran = False, cr_store = snd ?acq\<rparr>"
    using assms(1,2,3-5,11,14) acq
    by (simp add: call_job_def Let_def try_hit_missing [OF miss] miss_call_def Enqueue_acquire
        encodeHandlerName_def finish_call_def)
  have q: "find_exec (cs_db (cr_store r)) key = Some (enqueue_row (ce_now_lock env) ?h
      (JobMeta (ce_now_lock env) ?opt key key statusQueued) key (Some injson) (next_id (cs_db c)))"
    using assms(12) by (simp add: r sql_acquire_eq find_exec_enqueue [OF db])
  have inv: "store_inv (cr_store r)"
    using sql_lock.acq_inv [OF reachable_inv [OF assms(10)]] by (simp add: r)
  from worker_dequeue_task [OF assms(15) inv, unfolded assms(16), OF q]
  have t: "t_handler t = ?h" "t_input t = Some injson" "m_version (t_meta t) = handlerVersion ?opt"
    "m_ttl (t_meta t) = None"
    by (auto simp: enqueue_row_def JobMeta_def)
  let ?w = "\<lparr>wf_opt = ?opt, wf_invoke = invokeFunctionJSON f hk False None\<rparr>"
  have nodiff: "\<not> hasMajorOrMinorVersionDiff v v" for v
    by (simp add: hasMajorOrMinorVersionDiff_def split: option.split)
  obtain k' where iv: "invokeFunctionJSON f hk False None ?h (handlerVersion ?opt) injson c1 =
      Some \<lparr>iv_key = k', iv_out = Some b, iv_err = None, iv_syserr = None, iv_ctrl = NoAbort, iv_store = c2\<rparr>"
    using assms(6,18,19,20)
    by (simp add: invokeFunctionJSON_def prepare_input_def decode_input_def nodiff Let_def marshalOutputSet_def)
  let ?m = "if CacheExpire (o_job ?opt) \<noteq> 0 then (t_meta t)\<lparr>m_ttl := Some (we_now wenv + CacheExpire (o_job ?opt))\<rparr>
    else t_meta t"
  have ttl: "m_ttl ?m \<noteq> None \<longleftrightarrow> CacheExpire (o_job ?opt) \<noteq> 0" and ver: "m_version ?m = handlerVersion ?opt"
    using t by simp_all
  let ?c3 = "snd (doneAsync None (we_now wenv) ?h ?m key (Some injson) (Some b) None c2)"
  have fin: "\<exists>jm2. worker_finish wenv started ?w t jm1 c1 = Some (jm2, ?c3)"
    using t iv assms(2,16,25) by (simp add: worker_finish_def worker_report_def Let_def)
  obtain ji where res: "Result None key (CacheExpire (o_job ?opt) \<noteq> 0) ?c3 = (ji, Some b, None, None)"
    "m_ttl (ji_meta ji) = None" "m_version (ji_meta ji) = handlerVersion ?opt"
    using doneAsync_result [OF assms(22), of "we_now wenv" ?h ?m "Some injson" "Some b" None]
      ttl ver assms(23,24) by auto
  let ?id = "if idem_key (fn_codec f) input = [] then fn_sha f (?h @ injson) else idem_key (fn_codec f) input"
  have "decodeJobID key = Inr \<lparr>j_version = ''v1'', j_handler = ?h, j_id = ?id\<rparr>"
  proof -
    have "key = join_with '':'' [''job'', ''v1'', ?h, ?id]"
      using assms(2,7,11) by (auto simp: call_key_def JobID_def encodeJobID_def encodeJobKey_def encodeHandlerName_def)
    moreover have "split_on CHR '':'' (join_with '':'' [''job'', ''v1'', ?h, ?id]) = [''job'', ''v1'', ?h, ?id]"
      by (rule split_on_join) (use assms(7,8,9) in auto)
    ultimately show ?thesis by (simp add: decodeJobID_def)
  qed
  moreover have "unmarshalfn f later sf (ji, Some b, None, None) ?c3 = ((if CacheErrOnHit (o_job ?opt) then (zero_out (fn_codec f), Some ErrJobDuplicated, None)
      else (output, None, None)), ?c3)"
    using res(2,3) assms(21)
    by (subst unmarshalfn_fresh) (simp_all add: nodiff past_def unmarshalOutputSet_def)
  ultimately have "fst (JobResult f later None sf key ?c3) =
      (if CacheErrOnHit (o_job ?opt) then (zero_out (fn_codec f), Some ErrJobDuplicated) else (output, None))"
    by (simp add: JobResult_def Let_def encodeHandlerName_def res(1))
  with fin t(1) assms(17) show ?thesis by (auto simp: r)
qed

definition dispatch_opt :: fn_option where
  "dispatch_opt = fst (callSQLInit \<lparr>o_name = ''up'', o_version = ''1.0.0'', o_mode = ModeDispatch,
     o_job = \<lparr>Async = False, Cache = False, CacheErrOnHit = False, Dedupe = False, Priority = 0,
              CacheExpire = 0, Interval = 0\<rparr>\<rparr>)"

definition text_hooks :: "string invoke_hooks" where
  "text_hooks = \<lparr>ih_upgrade = None, ih_zero = [], ih_fill = Inr, ih_getAll = Inr\<rparr>"

definition text_worker :: worker_fn where
  "text_worker = \<lparr>wf_opt = dispatch_opt, wf_invoke = invokeFunctionJSON (text_fn dispatch_opt NoAbort id) text_hooks False None\<rparr>"

definition text_manager :: jobManager where
  "text_manager = newJobManager\<lparr>jm_handlers := [''up'']\<rparr>"

definition text_wenv :: worker_env where
  "text_wenv = \<lparr>we_now = 50, we_fault = None, we_done_fault = None, we_requeueInterval = second\<rparr>"

definition empty_store :: callSQLStrategy where
  "empty_store = newcallSQLStrategy 1 2 3"

definition queued_store :: callSQLStrategy where
  "queued_store = snd (sql_acquire 41 ''up'' (JobMeta 41 dispatch_opt text_key text_key statusQueued)
     text_key (Some ''a'') empty_store)"

lemma text_dispatch:
  "map_option (\<lambda>r. (cr_store r = queued_store, True)) (call_job (text_fn dispatch_opt NoAbort id) text_env ''a'' empty_store)
     = Some (True, True)"
proof -
  let ?f = "text_fn dispatch_opt NoAbort id"
  have o: "fn_opt ?f = dispatch_opt" "in_json (fn_codec ?f) ''a'' = Inr ''a''" "ce_fault_enqueue text_env = None"
    "ce_fromcall text_env" "ce_now_lock text_env = 41"
    by (simp_all add: text_defs)
  have j: "Async (o_job dispatch_opt)" "Cache (o_job dispatch_opt)" "o_name dispatch_opt = ''up''"
    "CacheExpire (o_job dispatch_opt) = 0"
    by (simp_all add: dispatch_opt_def callSQLInit_def)
  have "stored_info False text_key empty_store = None" by code_simp
  then have "try_hit ?f t hf fl text_key empty_store = ((zero_out (fn_codec ?f), None, Some ErrJobNotFound), empty_store)" for t hf fl
    by (intro try_hit_missing) (simp add: o j)
  moreover have "call_key ?f text_env ''a'' ''a'' = text_key" by (rule text_key) (simp_all add: j)
  ultimately show ?thesis
    by (simp add: call_job_def Let_def o j miss_call_def Enqueue_acquire encodeHandlerName_def
        finish_call_def queued_store_def)
qed

theorem dispatch_roundtrip_witness:
  "\<exists>r t jm1 c1 jm2 c3. call_job (text_fn dispatch_opt NoAbort id) text_env ''a'' empty_store = Some r \<and>
     worker_dequeue None 45 5 [''up'' \<mapsto> text_worker] text_manager (cr_store r) = Some (Inr t, jm1, c1) \<and>
     worker_finish text_wenv 46 text_worker t jm1 c1 = Some (jm2, c3) \<and>
     fst (JobResult (text_fn dispatch_opt NoAbort id) 60 None None text_key c3) = (''a!'', None)"
proof -
  let ?f = "text_fn dispatch_opt NoAbort id" and ?opts = "[''up'' \<mapsto> text_worker]"
  obtain r where r: "call_job ?f text_env ''a'' empty_store = Some r" "cr_store r = queued_store"
    using text_dispatch by auto
  have ok: "map_option (\<lambda>x. (is_ok (fst x), case fst x of Inr t \<Rightarrow> (t_key t, t_handler t) | Inl _ \<Rightarrow> ([], [])))
      (worker_dequeue None 45 5 ?opts text_manager queued_store) = Some (True, text_key, ''up'')" by code_simp
  obtain res jm1 c1 where d0: "worker_dequeue None 45 5 ?opts text_manager queued_store = Some (res, jm1, c1)"
    using ok by (cases "worker_dequeue None 45 5 ?opts text_manager queued_store") auto
  then obtain t where "res = Inr t" and tk: "t_key t = text_key" and th: "t_handler t = ''up''" using ok by (cases res) auto
  with d0 r(2) have d: "worker_dequeue None 45 5 ?opts text_manager (cr_store r) = Some (Inr t, jm1, c1)" by simp
  have row: "map_option e_version (find_exec (cs_db (snd (snd (the (worker_dequeue None 45 5 ?opts text_manager queued_store))))) text_key)
      = Some ''1.0.0''"
    "find_result (cs_db (snd (snd (the (worker_dequeue None 45 5 ?opts text_manager queued_store))))) text_key = None"
    by code_simp+
  then obtain row where row': "find_exec (cs_db c1) text_key = Some row" "e_version row = handlerVersion (fn_opt ?f)"
    "find_result (cs_db c1) text_key = None"
    using d by (auto simp: r(2) text_defs dispatch_opt_def callSQLInit_def handlerVersion_def)
  have j: "Async (o_job (fn_opt ?f))" "Cache (o_job (fn_opt ?f))"
    "ce_fromcall text_env" "ce_fault_enqueue text_env = None" "in_json (fn_codec ?f) ''a'' = Inr ''a''"
    "in_of (fn_codec ?f) ''a'' = Inr ''a''" "CHR '':'' \<notin> set (idem_key (fn_codec ?f) ''a'')" "CHR '':'' \<notin> set (o_name (fn_opt ?f))"
    "\<And>b. CHR '':'' \<notin> set (fn_sha ?f b)"
    by (simp_all add: text_defs dispatch_opt_def callSQLInit_def)
  have re: "store_reachable empty_store" unfolding empty_store_def by (rule reach_init)
  have key: "call_key ?f text_env ''a'' ''a'' = text_key"
    by (rule text_key) (simp_all add: dispatch_opt_def callSQLInit_def)
  have no: "find_exec (cs_db empty_store) text_key = None" "find_result (cs_db empty_store) text_key = None"
    by code_simp+
  have w: "?opts (o_name (fn_opt ?f)) = Some \<lparr>wf_opt = fn_opt ?f, wf_invoke = invokeFunctionJSON ?f text_hooks False None\<rparr>"
    by (simp add: text_worker_def text_fn_def dispatch_opt_def callSQLInit_def)
  have h: "ih_fill text_hooks ''a'' = Inr ''a''" "fn_handle ?f ''a'' c1 = ((''a!'', None, NoAbort), c1)"
    "out_json (fn_codec ?f) ''a!'' = Inr ''a!''" "out_of (fn_codec ?f) ''a!'' = Inr ''a!''"
    "we_done_fault text_wenv = None"
    by (simp_all add: text_hooks_def text_wenv_def text_defs)
  from dispatch_roundtrip [OF j re key no r(1) d tk w h(1-4) row' h(5), of 46 60 None]
  obtain jm2 c3 where f: "worker_finish text_wenv 46 (the (?opts (t_handler t))) t jm1 c1 = Some (jm2, c3)"
    "fst (JobResult ?f 60 None None text_key c3) = (''a!'', None)"
    by (auto simp: text_fn_def dispatch_opt_def callSQLInit_def)
  have "the (?opts (t_handler t)) = text_worker" by (simp add: th)
  with f r(1) d show ?thesis by metis
qed

theorem worker_outcome_witness:
  "\<exists>row'. find_exec (cs_db (worker_report text_wenv text_worker
       \<lparr>t_key = ''k1'', t_handler = ''mail'', t_meta = example_meta statusLeased 0, t_input = None\<rparr>
       \<lparr>iv_key = ''k1'', iv_out = None, iv_err = None, iv_syserr = None, iv_ctrl = AbortJob, iv_store = example_store\<rparr>)) ''k1''
     = Some row' \<and> e_status row' = statusQueued"
proof -
  let ?t = "\<lparr>t_key = ''k1'', t_handler = ''mail'', t_meta = example_meta statusLeased 0, t_input = None\<rparr> :: sqlJobTask"
  let ?iv = "\<lparr>iv_key = ''k1'', iv_out = None, iv_err = None, iv_syserr = None, iv_ctrl = AbortJob, iv_store = example_store\<rparr>"
  have "find_exec (cs_db example_store) ''k1'' \<noteq> None" by code_simp
  then obtain row where "find_exec (cs_db (iv_store ?iv)) (t_key ?t) = Some row" by auto
  moreover have "store_inv (iv_store ?iv)" using reachable_inv [OF example_reachable] by simp
  moreover have "we_fault text_wenv = None" "we_done_fault text_wenv = None" "m_ttl (t_meta ?t) = None"
    by (simp_all add: text_wenv_def example_meta_def)
  ultimately show ?thesis using worker_outcome [of ?iv ?t row text_wenv text_worker] by (auto simp: Let_def)
qed

subsection \<open>Handler locks, stale versions, progress\<close>

text \<open>A handler with an interval is handed to at most one job at a time by a manager: a dequeue
  takes only registered handlers that are not locked, by a running job or by a missing resource; taking
  a job of a handler with an interval locks the handler; so the next dequeue with that lock in place
  takes a job of another handler, and finishing the job unlocks it.\<close>

theorem interval_handler_exclusive:
  assumes "store_reachable c" and "worker_dequeue None now lease opts jm c = Some (Inr t, jm1, c1)"
    and "opts (t_handler t) = Some w" and "Interval (o_job (wf_opt w)) \<noteq> 0"
    and "store_reachable c2" and "set (lockedHandlers jm1) \<subseteq> set (lockedHandlers jm2)"
    and "worker_dequeue None now2 lease opts jm2 c2 = Some (Inr t2, jm3, c3)"
    and "find_exec (cs_db c) (t_key t) = Some row" and "find_exec (cs_db c2) (t_key t2) = Some row2"
  shows "t_handler t \<in> set (jm_handlers jm) - set (lockedHandlers jm) - set (resourcelockedHandlers jm) \<and>
    t_handler t2 \<noteq> t_handler t \<and>
    (\<forall>env started jm4 c4. worker_finish env started w t jm2 c2 = Some (jm4, c4) \<longrightarrow>
      t_handler t \<notin> set (lockedHandlers jm4) \<and> lastRun jm4 (t_handler t) = Some started)"
proof -
  note t = worker_dequeue_task [OF assms(2) reachable_inv [OF assms(1)] assms(8)]
  note t2 = worker_dequeue_task [OF assms(7) reachable_inv [OF assms(5)] assms(9)]
  have "t_handler t \<in> set (lockedHandlers jm1)" using t assms(3,4) by auto
  then have "t_handler t \<in> set (lockedHandlers jm2)" using assms(6) by blast
  with t t2 show ?thesis by (auto simp: worker_finish_def split: option.splits)
qed

definition limited_opt :: fn_option where
  "limited_opt = dispatch_opt\<lparr>o_job := (o_job dispatch_opt)\<lparr>Interval := second\<rparr>\<rparr>"

definition limited_worker :: worker_fn where
  "limited_worker = text_worker\<lparr>wf_opt := limited_opt\<rparr>"

text \<open>Two queued jobs, of the handlers \<open>up\<close> (limited to an interval) and \<open>mail\<close>.\<close>

definition two_handlers :: jobManager where
  "two_handlers = newJobManager\<lparr>jm_handlers := [''mail'', ''up'']\<rparr>"

definition two_jobs :: callSQLStrategy where
  "two_jobs = snd (sql_acquire 42 ''mail'' (example_meta statusQueued 0) ''m1'' (Some ''b'') queued_store)"

theorem interval_handler_exclusive_witness:
  "\<exists>t jm1 c1 t2 jm3 c3. worker_dequeue None 45 5 [''up'' \<mapsto> limited_worker, ''mail'' \<mapsto> text_worker] two_handlers two_jobs
       = Some (Inr t, jm1, c1) \<and>
     worker_dequeue None 45 5 [''up'' \<mapsto> limited_worker, ''mail'' \<mapsto> text_worker] jm1 c1 = Some (Inr t2, jm3, c3) \<and>
     t_handler t2 \<noteq> t_handler t"
proof -
  let ?opts = "[''up'' \<mapsto> limited_worker, ''mail'' \<mapsto> text_worker]"
  let ?d = "worker_dequeue None 45 5 ?opts two_handlers two_jobs"
  let ?d2 = "worker_dequeue None 45 5 ?opts (fst (snd (the ?d))) (snd (snd (the ?d)))"
  let ?sum = "\<lambda>x. (is_ok (fst x), case fst x of Inr t \<Rightarrow> (t_key t, t_handler t) | Inl _ \<Rightarrow> ([], []))"
  have ok: "map_option ?sum ?d = Some (True, text_key, ''up'')" "map_option ?sum ?d2 = Some (True, ''m1'', ''mail'')"
    by code_simp+
  have rows: "find_exec (cs_db two_jobs) text_key \<noteq> None" "find_exec (cs_db (snd (snd (the ?d)))) ''m1'' \<noteq> None"
    by code_simp+
  obtain res jm1 c1 where d0: "?d = Some (res, jm1, c1)" using ok(1) by (cases ?d) auto
  obtain t where t: "res = Inr t" "t_key t = text_key" "t_handler t = ''up''" using ok(1) d0 by (cases res) auto
  obtain res2 jm3 c3 where d2: "worker_dequeue None 45 5 ?opts jm1 c1 = Some (res2, jm3, c3)"
    using ok(2) d0 by (cases "worker_dequeue None 45 5 ?opts jm1 c1") auto
  obtain t2 where t2: "res2 = Inr t2" "t_key t2 = ''m1''" using ok(2) d0 d2 by (cases res2) auto
  have re: "store_reachable two_jobs"
    unfolding two_jobs_def queued_store_def empty_store_def by (intro reachable_acquire reach_init)
  have c1: "c1 = apply_op (OpDequeue None 45 [''mail'', ''up''] 5) two_jobs"
    using d0 by (auto simp: worker_dequeue_def two_handlers_def newJobManager_def jobset_Diff_def Let_def
        Dequeue_def split: prod.splits sum.splits option.splits if_splits)
  then have re1: "store_reachable c1" by (simp only: reach_step [OF re])
  obtain row row2 where r: "find_exec (cs_db two_jobs) (t_key t) = Some row" "find_exec (cs_db c1) (t_key t2) = Some row2"
    using rows d0 t(2) t2(2) by auto
  have w: "?opts (t_handler t) = Some limited_worker" using t(3) by simp
  have i: "Interval (o_job (wf_opt limited_worker)) \<noteq> 0" by (simp add: limited_worker_def limited_opt_def)
  have "t_handler t2 \<noteq> t_handler t"
    using interval_handler_exclusive [OF re d0 [unfolded t(1)] w i re1 subset_refl d2 [unfolded t2(1)] r] by blast
  with d0 d2 t(1) t2(1) show ?thesis by blast
qed

text \<open>What \<open>WaitForJob\<close> shows as finished and failed jobs is always zero: it looks its numbers up
  under the names \<open>done\<close> and \<open>error\<close>, but the raw totals it asks for are keyed by status numbers; the
  public store's totals carry the names.\<close>

theorem progress_always_zero:
  "job_progress fault c = None \<or> (\<exists>total. job_progress fault c = Some (0, 0, total))"
proof -
  have letters: "CHR ''d'' \<notin> set (itoa st)" "CHR ''e'' \<notin> set (itoa st)" for st
    using itoa_chars [of "CHR ''d''" st] itoa_chars [of "CHR ''e''" st] by (auto simp: is_digit_def)
  have "''done'' \<noteq> itoa st" "''error'' \<noteq> itoa st" for st
    using letters [of st] by (metis list.set_intros(1), metis list.set_intros(1))
  then have "map_of (map (\<lambda>((k, st), n). (itoa st, n)) cs) ''done'' = None"
    "map_of (map (\<lambda>((k, st), n). (itoa st, n)) cs) ''error'' = None" for cs :: "((string \<times> int) \<times> int) list"
    by (induction cs) (auto split: prod.splits)
  then show ?thesis by (cases fault) (simp_all add: job_progress_def Total_def Let_def)
qed

text \<open>A stored job whose version differs from its function's in the major or minor number makes the
  worker panic when the function has no input upgrade; with one that declines, and for every other
  version, the stored bytes are decoded as they are; with one that accepts, its input is used and the
  stored bytes are not looked at.\<close>

theorem stale_version_invocation:
  "(hasMajorOrMinorVersionDiff v (handlerVersion (fn_opt f)) \<and> ih_upgrade hk = None \<longrightarrow>
      invokeFunctionJSON f hk direct infunc h v injson c = None) \<and>
   (\<not> hasMajorOrMinorVersionDiff v (handlerVersion (fn_opt f)) \<or>
      (\<exists>up. ih_upgrade hk = Some up \<and> \<not> fst (up v injson)) \<longrightarrow>
      decode_input f hk v injson = Some (in_of (fn_codec f) injson)) \<and>
   (hasMajorOrMinorVersionDiff v (handlerVersion (fn_opt f)) \<and> ih_upgrade hk = Some up \<and> up v injson = (True, Some i) \<longrightarrow>
      decode_input f hk v injson = Some (Inr i))"
  by (auto simp: invokeFunctionJSON_def decode_input_def split: prod.splits)

theorem stale_version_invocation_witness:
  "invokeFunctionJSON (text_fn dispatch_opt NoAbort id) text_hooks False None ''up'' ''0.9.0'' ''a'' empty_store = None"
proof -
  have "hasMajorOrMinorVersionDiff ''0.9.0'' (handlerVersion (fn_opt (text_fn dispatch_opt NoAbort id)))" by code_simp
  then show ?thesis
    using stale_version_invocation [where f = "text_fn dispatch_opt NoAbort id" and hk = text_hooks and v = "''0.9.0''"
        and h = "''up''" and injson = "''a''" and c = empty_store]
    by (simp add: text_hooks_def)
qed

end
