(* ===== verification/Future.thy ===== *)
theory Future
  imports Job_Store "HOL-Library.Multiset"
begin

section \<open>Futures of asynchronous calls\<close>

text \<open>
  \<open>typedhandler_job_go.go\<close>: the future that \<open>Go\<close> returns. A callback is named by a number; running it is
  an entry of the trace an operation returns (\<open>go fn(...)\<close> counts as run). The mutex makes each operation one
  step; the lists of callbacks are not cleared on completion, as in the code.
\<close>

datatype ('u, 'e) callback = RunThen nat 'u | RunCatch nat 'e | RunFinally nat

record ('u, 'e) future =
  f_result :: 'u
  f_err :: "'e option"
  doneOk :: bool
  thenFns :: "nat list"
  catchFns :: "nat list"
  finallyFns :: "nat list"

definition NewFuture :: "'u \<Rightarrow> ('u, 'e) future" where
  "NewFuture zeroU =
     \<lparr>f_result = zeroU, f_err = None, doneOk = False, thenFns = [], catchFns = [], finallyFns = []\<rparr>"

definition future_returns ::
  "'u \<Rightarrow> 'e option \<Rightarrow> ('u, 'e) future \<Rightarrow> ('u, 'e) callback list \<times> ('u, 'e) future" where
  "future_returns output err f =
     (if doneOk f then ([], f)
      else ((case err of
               None \<Rightarrow> map (\<lambda>i. RunThen i output) (thenFns f)
             | Some e \<Rightarrow> map (\<lambda>i. RunCatch i e) (catchFns f)) @ map RunFinally (finallyFns f),
            f\<lparr>f_result := output, f_err := err, doneOk := True\<rparr>))"

definition future_Then :: "nat \<Rightarrow> ('u, 'e) future \<Rightarrow> ('u, 'e) callback list \<times> ('u, 'e) future" where
  "future_Then i f =
     (if doneOk f \<and> f_err f = None then ([RunThen i (f_result f)], f) else ([], f\<lparr>thenFns := thenFns f @ [i]\<rparr>))"

definition future_Catch :: "nat \<Rightarrow> ('u, 'e) future \<Rightarrow> ('u, 'e) callback list \<times> ('u, 'e) future" where
  "future_Catch i f =
     (case f_err f of
        Some e \<Rightarrow> if doneOk f then ([RunCatch i e], f) else ([], f\<lparr>catchFns := catchFns f @ [i]\<rparr>)
      | None \<Rightarrow> ([], f\<lparr>catchFns := catchFns f @ [i]\<rparr>))"

definition future_Finally :: "nat \<Rightarrow> ('u, 'e) future \<Rightarrow> ('u, 'e) callback list \<times> ('u, 'e) future" where
  "future_Finally i f =
     (if doneOk f then ([RunFinally i], f) else ([], f\<lparr>finallyFns := finallyFns f @ [i]\<rparr>))"

text \<open>\<open>Await\<close>: nothing while the future is pending.\<close>

definition future_Await :: "('u, 'e) future \<Rightarrow> ('u \<times> 'e option) option" where
  "future_Await f = (if doneOk f then Some (f_result f, f_err f) else None)"

subsection \<open>Following a call\<close>

text \<open>
  The pending job behind an error of \<open>Call\<close>: the error itself or the one it wraps. \<open>go_internal\<close> calls,
  waits for the pending job and calls again; \<open>calls\<close> are the results of its calls, in order, and
  \<open>waits\<close> the system errors of its waits. A list that runs out is a call that has not returned yet.
\<close>

definition pending_job :: "job_error \<Rightarrow> string option" where
  "pending_job e =
     (case e of
        JobPendingError jobid _ \<Rightarrow> Some jobid
      | FatalBackendError (Some (JobPendingError jobid _)) \<Rightarrow> Some jobid
      | _ \<Rightarrow> None)"

fun go_internal ::
  "'u \<Rightarrow> ('u \<times> job_error option) list \<Rightarrow> job_error option list \<Rightarrow> ('u, job_error) future \<Rightarrow>
    ('u, job_error) callback list \<times> ('u, job_error) future" where
  "go_internal zeroU [] waits f = ([], f)"
| "go_internal zeroU ((out, err) # calls) waits f =
     (case Option.bind err pending_job of
        None \<Rightarrow> future_returns out err f
      | Some jobid \<Rightarrow>
          (case waits of
             [] \<Rightarrow> ([], f)
           | Some syserr # _ \<Rightarrow> future_returns zeroU (Some syserr) f
           | None # waits' \<Rightarrow> go_internal zeroU calls waits' f))"

subsection \<open>Every callback runs once\<close>

datatype ('u, 'e) future_event = EvThen nat | EvCatch nat | EvFinally nat | EvReturns 'u "'e option"

fun future_step :: "('u, 'e) future_event \<Rightarrow> ('u, 'e) future \<Rightarrow> ('u, 'e) callback list \<times> ('u, 'e) future" where
  "future_step (EvThen i) f = future_Then i f"
| "future_step (EvCatch i) f = future_Catch i f"
| "future_step (EvFinally i) f = future_Finally i f"
| "future_step (EvReturns u e) f = future_returns u e f"

fun future_run :: "('u, 'e) future_event list \<Rightarrow> ('u, 'e) future \<Rightarrow> ('u, 'e) callback list \<times> ('u, 'e) future" where
  "future_run [] f = ([], f)"
| "future_run (ev # evs) f =
     (let (cs, f1) = future_step ev f; (cs', f2) = future_run evs f1 in (cs @ cs', f2))"

fun first_outcome :: "('u, 'e) future_event list \<Rightarrow> ('u \<times> 'e option) option" where
  "first_outcome [] = None"
| "first_outcome (EvReturns u e # _) = Some (u, e)"
| "first_outcome (_ # evs) = first_outcome evs"

text \<open>The run of a registration under an outcome.\<close>

fun run_of :: "'u \<times> 'e option \<Rightarrow> ('u, 'e) future_event \<Rightarrow> ('u, 'e) callback list" where
  "run_of (u, None) (EvThen i) = [RunThen i u]"
| "run_of (u, Some e) (EvCatch i) = [RunCatch i e]"
| "run_of (u, e) (EvFinally i) = [RunFinally i]"
| "run_of (u, e) _ = []"

definition owed :: "'u \<times> 'e option \<Rightarrow> ('u, 'e) future \<Rightarrow> ('u, 'e) callback multiset" where
  "owed o' f =
     (case o' of
        (u, None) \<Rightarrow> image_mset (\<lambda>i. RunThen i u) (mset (thenFns f))
      | (u, Some e) \<Rightarrow> image_mset (\<lambda>i. RunCatch i e) (mset (catchFns f))) + image_mset RunFinally (mset (finallyFns f))"

lemma run_done:
  "doneOk f \<Longrightarrow> mset (fst (future_run evs f)) = mset (concat (map (run_of (f_result f, f_err f)) evs)) \<and>
    doneOk (snd (future_run evs f)) \<and> f_result (snd (future_run evs f)) = f_result f \<and>
    f_err (snd (future_run evs f)) = f_err f"
proof (induction evs arbitrary: f)
  case Nil
  then show ?case by simp
next
  case (Cons ev evs)
  obtain cs f1 where s: "future_step ev f = (cs, f1)" by fastforce
  have "cs = run_of (f_result f, f_err f) ev \<and> doneOk f1 \<and> f_result f1 = f_result f \<and> f_err f1 = f_err f"
    using s Cons.prems by (cases ev; cases "f_err f")
      (auto simp: future_Then_def future_Catch_def future_Finally_def future_returns_def)
  with Cons.IH [of f1] s show ?case by (simp add: split_def Let_def)
qed

lemma run_pending:
  "\<not> doneOk f \<Longrightarrow> f_err f = None \<Longrightarrow>
    (case first_outcome evs of
       None \<Rightarrow> fst (future_run evs f) = [] \<and> \<not> doneOk (snd (future_run evs f))
     | Some o' \<Rightarrow> mset (fst (future_run evs f)) = owed o' f + mset (concat (map (run_of o') evs)) \<and>
         future_Await (snd (future_run evs f)) = Some o')"
proof (induction evs arbitrary: f)
  case Nil
  then show ?case by simp
next
  case (Cons ev evs)
  show ?case
  proof (cases ev)
    case (EvReturns u e)
    define f1 where "f1 = f\<lparr>f_result := u, f_err := e, doneOk := True\<rparr>"
    have "mset (fst (future_returns u e f)) = owed (u, e) f" "snd (future_returns u e f) = f1"
      using Cons.prems by (auto simp: future_returns_def owed_def f1_def split: option.splits)
    with EvReturns run_done [of f1 evs] show ?thesis
      by (cases e) (simp_all add: split_def Let_def f1_def future_Await_def)
  next
    case (EvThen i)
    with Cons.prems Cons.IH [of "f\<lparr>thenFns := thenFns f @ [i]\<rparr>"] show ?thesis
      by (auto simp: future_Then_def owed_def split_def Let_def split: option.splits)
  next
    case (EvCatch i)
    with Cons.prems Cons.IH [of "f\<lparr>catchFns := catchFns f @ [i]\<rparr>"] show ?thesis
      by (auto simp: future_Catch_def owed_def split_def Let_def split: option.splits)
  next
    case (EvFinally i)
    with Cons.prems Cons.IH [of "f\<lparr>finallyFns := finallyFns f @ [i]\<rparr>"] show ?thesis
      by (auto simp: future_Finally_def owed_def split_def Let_def split: option.splits)
  qed
qed

lemma go_pending:
  "go_internal z (map (\<lambda>j. (z, Some (JobPendingError j []))) pend @ cs) (replicate (length pend) None @ ws) f =
    go_internal z cs ws f"
  by (induction pend) (simp_all add: pending_job_def)

text \<open>A future completes at most once and runs every callback it owes exactly once, in whatever order callbacks
  are registered and results arrive: the first result is the one every later observer sees; with it the
  callbacks run are, as a multiset, one run per \<open>Then\<close> registration on success, one per \<open>Catch\<close> on
  failure, and one per \<open>Finally\<close> in both cases, whether registered before or after completion; a future
  without a result has run nothing. A call followed by \<open>go_internal\<close> completes its fresh future with the
  first result that is not a pending job, or with the error of a wait.\<close>

theorem future_callbacks_once:
  "(case first_outcome evs of
      None \<Rightarrow> fst (future_run evs (NewFuture z)) = [] \<and> future_Await (snd (future_run evs (NewFuture z))) = None
    | Some o' \<Rightarrow> mset (fst (future_run evs (NewFuture z))) = mset (concat (map (run_of o') evs)) \<and>
        future_Await (snd (future_run evs (NewFuture z))) = Some o') \<and>
   future_Await (snd (go_internal z
     (map (\<lambda>j. (z, Some (JobPendingError j []))) pend @ (out, err) # rest) (replicate (length pend) None @ waits)
     (NewFuture z))) =
     (case Option.bind err pending_job of
        None \<Rightarrow> Some (out, err)
      | Some _ \<Rightarrow> (case waits of
          Some e # _ \<Rightarrow> Some (z, Some e)
        | [] \<Rightarrow> None
        | None # ws \<Rightarrow> future_Await (snd (go_internal z rest ws (NewFuture z)))))"
proof
  show "case first_outcome evs of
      None \<Rightarrow> fst (future_run evs (NewFuture z)) = [] \<and> future_Await (snd (future_run evs (NewFuture z))) = None
    | Some o' \<Rightarrow> mset (fst (future_run evs (NewFuture z))) = mset (concat (map (run_of o') evs)) \<and>
        future_Await (snd (future_run evs (NewFuture z))) = Some o'"
    using run_pending [of "NewFuture z" evs]
    by (auto simp: NewFuture_def owed_def future_Await_def split: option.splits)
  have fresh: "\<not> doneOk (NewFuture z)" by (simp add: NewFuture_def)
  then show "future_Await (snd (go_internal z
     (map (\<lambda>j. (z, Some (JobPendingError j []))) pend @ (out, err) # rest) (replicate (length pend) None @ waits)
     (NewFuture z))) =
     (case Option.bind err pending_job of
        None \<Rightarrow> Some (out, err)
      | Some _ \<Rightarrow> (case waits of
          Some e # _ \<Rightarrow> Some (z, Some e)
        | [] \<Rightarrow> None
        | None # ws \<Rightarrow> future_Await (snd (go_internal z rest ws (NewFuture z)))))"
    unfolding go_pending
    by (auto simp: future_returns_def future_Await_def split: option.splits list.splits)
qed

end
