(* ===== verification/Session.thy ===== *)
theory Session
  imports Prelude Job_Set "HOL-Library.AList"
begin

section \<open>Sticky sessions and their resources\<close>

text \<open>
  \<open>session_manager.go\<close> and \<open>session_sticky.go\<close>: creating a session under the resource limits of the node,
  freeing it, the garbage collection of expired sessions, finding the session of a request, the token
  that names a session and its node, and the routing of a request to the node that holds the session.
  The record \<open>sessionManager\<close> holds the fields of the manager and the two fields of the server this code
  writes: \<open>resourcelockedHandlers\<close> of the job manager and \<open>nodeip\<close>. The mutex makes each operation
  one step. Counters are \<open>int\<close>s that wrap around at 64 bits (\<open>go_int\<close>). Encryption and encoding of the token (\<open>seal\<close>, \<open>unseal\<close>), new ids, the network interfaces
  and the reverse proxy are arguments. A nil dereference is \<open>None\<close>.
\<close>

subsection \<open>State\<close>

type_synonym resources = "(string \<times> int) list"

record 'v stickySessionEntry =
  preserved :: bool
  se_sid :: string
  se_name :: string
  se_use :: resources
  se_value :: "'v option"
  expireAt :: time

record sessionConfig =
  sc_Expire :: duration
  sc_Resources :: "string \<Rightarrow> int"
  sc_NodeIP :: string
  sc_NodeIPEnv :: string
  sc_ProxyableHosts :: "string list"
  sc_ProxyableHostsRegex :: "(string \<Rightarrow> bool) list"

record 'v sessionManager =
  createSessionMap :: "string list"
  sessionStore :: "(string \<times> 'v stickySessionEntry) list"
  resourceConsumeMap :: "string \<Rightarrow> int"
  resourcelocked :: jobset
  nodeip :: string

definition session_setup :: "'v sessionManager" where
  "session_setup =
     \<lparr>createSessionMap = [], sessionStore = [], resourceConsumeMap = (\<lambda>_. 0), resourcelocked = [], nodeip = []\<rparr>"

subsection \<open>Resources\<close>

text \<open>The counters are Go \<open>int\<close>s of 64 bits: sums, differences and products wrap around.\<close>

definition go_int :: "int \<Rightarrow> int" where
  "go_int i = (i + 2 ^ 63) mod 2 ^ 64 - 2 ^ 63"

datatype consume = CONSUME_OK | CONSUME_FULL | CONSUME_OVERFLOW

fun consume_check :: "(string \<Rightarrow> int) \<Rightarrow> (string \<Rightarrow> int) \<Rightarrow> consume \<Rightarrow> resources \<Rightarrow> consume" where
  "consume_check maxResource consumed result [] = result"
| "consume_check maxResource consumed result ((k, use) # us) =
     (if go_int (consumed k + use) > maxResource k then CONSUME_OVERFLOW
      else consume_check maxResource consumed
             (if go_int (consumed k + go_int (use * 2)) > maxResource k then CONSUME_FULL else result) us)"

definition entry_consume ::
  "(string \<Rightarrow> int) \<Rightarrow> resources \<Rightarrow> (string \<Rightarrow> int) \<Rightarrow> consume \<times> (string \<Rightarrow> int)" where
  "entry_consume maxResource use consumed =
     (if use = [] then (CONSUME_OK, consumed)
      else
        (case consume_check maxResource consumed CONSUME_OK use of
           CONSUME_OVERFLOW \<Rightarrow> (CONSUME_OVERFLOW, consumed)
         | result \<Rightarrow> (result, fold (\<lambda>(k, u) m. m(k := go_int (m k + u))) use consumed)))"

definition entry_free :: "resources \<Rightarrow> (string \<Rightarrow> int) \<Rightarrow> (string \<Rightarrow> int)" where
  "entry_free use consumed = fold (\<lambda>(k, u) m. m(k := if go_int (m k - u) < 0 then 0 else go_int (m k - u))) use consumed"

subsection \<open>The node's address\<close>

text \<open>\<open>ne_bind\<close> is \<open>SplitHostPort\<close> of the bind address, \<open>ne_local\<close> is \<open>getLocalIP\<close>.\<close>

record net_env =
  ne_env :: "string \<rightharpoonup> string"
  ne_bind :: "(string \<times> string) option"
  ne_local :: string
  ne_join :: "string \<Rightarrow> string \<Rightarrow> string"

definition NodeIP :: "net_env \<Rightarrow> sessionConfig \<Rightarrow> 'v sessionManager \<Rightarrow> string \<times> 'v sessionManager" where
  "NodeIP ne cfg m =
     (if nodeip m \<noteq> [] then (nodeip m, m)
      else if sc_NodeIP cfg \<noteq> [] then (sc_NodeIP cfg, m)
      else
        (case (if sc_NodeIPEnv cfg \<noteq> [] then ne_env ne (sc_NodeIPEnv cfg) else None) of
           Some val \<Rightarrow> (val, m\<lparr>nodeip := val\<rparr>)
         | None \<Rightarrow>
             (case ne_bind ne of
                None \<Rightarrow> ([], m)
              | Some (host, port) \<Rightarrow>
                  let host = (if host = [] \<or> host = ''0.0.0.0''
                              then (if ne_local ne = [] then ''localhost'' else ne_local ne) else host);
                      val = ne_join ne host port
                  in (val, m\<lparr>nodeip := val\<rparr>))))"

subsection \<open>Tokens\<close>

record sessionToken =
  st_NodeIP :: string
  st_Name :: string
  st_SessionID :: string
  st_CreateAt :: int

datatype session_error = ErrSessionExpired | ErrNoOp | SessionError string

definition unix :: "time \<Rightarrow> int" where
  "unix now = now div second"

definition decodeSession ::
  "(string \<Rightarrow> string + sessionToken) \<Rightarrow> sessionConfig \<Rightarrow> time \<Rightarrow> string \<Rightarrow> session_error + sessionToken" where
  "decodeSession unseal cfg now token =
     (case unseal token of
        Inl e \<Rightarrow> Inl (SessionError e)
      | Inr data \<Rightarrow>
          if sc_Expire cfg > 0 \<and> now > st_CreateAt data * second + sc_Expire cfg
          then Inl ErrSessionExpired else Inr data)"

subsection \<open>Creating sessions\<close>

definition create_handler_name :: "string \<Rightarrow> string" where
  "create_handler_name name = ''allino_create_session_'' @ name"

definition addSessionGroup :: "string \<Rightarrow> 'v sessionManager \<Rightarrow> 'v sessionManager" where
  "addSessionGroup name m =
     (if name \<in> set (createSessionMap m) then m else m\<lparr>createSessionMap := createSessionMap m @ [name]\<rparr>)"

text \<open>
  The function registered for a group, run by the job worker: the token or an error, whether the job
  is marked for requeue, and the new state. \<open>sid\<close> is the new \<open>xid\<close>.
\<close>

definition create_session ::
  "(sessionToken \<Rightarrow> string + string) \<Rightarrow> net_env \<Rightarrow> sessionConfig \<Rightarrow> time \<Rightarrow> string \<Rightarrow> string \<Rightarrow> resources \<Rightarrow>
    'v sessionManager \<Rightarrow> (session_error + string) \<times> bool \<times> 'v sessionManager" where
  "create_session seal ne cfg now sid name use m =
     (let entry = \<lparr>preserved = True, se_sid = sid, se_name = name, se_use = use, se_value = None,
                   expireAt = now + sc_Expire cfg\<rparr>
      in case entry_consume (sc_Resources cfg) use (resourceConsumeMap m) of
           (CONSUME_OVERFLOW, _) \<Rightarrow> (Inl (SessionError ''resource full error''), True, m)
         | (conresult, consumed) \<Rightarrow>
             let m1 = m\<lparr>resourceConsumeMap := consumed, sessionStore := AList.update sid entry (sessionStore m),
                        resourcelocked := (if conresult = CONSUME_FULL
                          then jobset_Add (create_handler_name name) (resourcelocked m) else resourcelocked m)\<rparr>;
                 (ip, m2) = NodeIP ne cfg m1
             in (case seal \<lparr>st_NodeIP = ip, st_Name = name, st_SessionID = sid, st_CreateAt = unix now\<rparr> of
                   Inl e \<Rightarrow> (Inl (SessionError e), False, m2)
                 | Inr token \<Rightarrow> (Inr token, False, m2)))"

subsection \<open>Deleting sessions\<close>

text \<open>
  \<open>keepalive\<close> is \<open>ShouldKeepAlive\<close> of a session value (false for a value without the method); closing
  the value only logs its error.
\<close>

definition mayDeleteSession ::
  "('v \<Rightarrow> bool) \<Rightarrow> sessionConfig \<Rightarrow> time \<Rightarrow> string \<Rightarrow> 'v stickySessionEntry \<Rightarrow> 'v sessionManager \<Rightarrow>
    (bool \<times> 'v sessionManager) option" where
  "mayDeleteSession keepalive cfg now sid entry m =
     (if (case se_value entry of None \<Rightarrow> False | Some v \<Rightarrow> keepalive v) then
        Some (False, m\<lparr>sessionStore := AList.update sid (entry\<lparr>expireAt := now + sc_Expire cfg\<rparr>) (sessionStore m)\<rparr>)
      else if se_name entry \<notin> set (createSessionMap m) then None
      else Some (True, m\<lparr>sessionStore := AList.delete sid (sessionStore m),
                         resourceConsumeMap := entry_free (se_use entry) (resourceConsumeMap m),
                         resourcelocked := jobset_Remove (create_handler_name (se_name entry)) (resourcelocked m)\<rparr>))"

fun gc_loop ::
  "('v \<Rightarrow> bool) \<Rightarrow> sessionConfig \<Rightarrow> time \<Rightarrow> (string \<times> 'v stickySessionEntry) list \<Rightarrow> 'v sessionManager \<Rightarrow>
    'v sessionManager option" where
  "gc_loop keepalive cfg now [] m = Some m"
| "gc_loop keepalive cfg now ((k, entry) # es) m =
     (if now > expireAt entry then
        (case mayDeleteSession keepalive cfg now k entry m of
           None \<Rightarrow> None | Some (_, m') \<Rightarrow> gc_loop keepalive cfg now es m')
      else gc_loop keepalive cfg now es m)"

definition session_gc :: "('v \<Rightarrow> bool) \<Rightarrow> sessionConfig \<Rightarrow> time \<Rightarrow> 'v sessionManager \<Rightarrow> 'v sessionManager option" where
  "session_gc keepalive cfg now m = gc_loop keepalive cfg now (sessionStore m) m"

subsection \<open>The session of a request\<close>

text \<open>\<open>init\<close> is the new instance, \<open>None\<close> when \<open>New\<close> returns a value of another type.\<close>

definition getStickySessionEntry ::
  "'v option \<Rightarrow> sessionConfig \<Rightarrow> time \<Rightarrow> string \<Rightarrow> 'v sessionManager \<Rightarrow>
    (session_error + 'v stickySessionEntry) \<times> 'v sessionManager" where
  "getStickySessionEntry init cfg now sid m =
     (case map_of (sessionStore m) sid of
        None \<Rightarrow> (Inl (SessionError ''session not exist''), m)
      | Some entry \<Rightarrow>
          (case (if se_value entry \<noteq> None then se_value entry else init) of
             None \<Rightarrow> (Inl (SessionError ''type not match''), m)
           | Some v \<Rightarrow>
               let entry' = entry\<lparr>se_value := Some v, expireAt := now + sc_Expire cfg\<rparr>
               in (Inr entry', m\<lparr>sessionStore := AList.update sid entry' (sessionStore m)\<rparr>)))"

subsection \<open>Routing\<close>

datatype sticky_outcome =
    StickyFailed session_error
  | RunLocal sessionToken "string option"
  | ProxyTo string

text \<open>
  \<open>call_sticky\<close> up to running the handler: \<open>created\<close> is the result of creating a session and waiting for
  it, \<open>xsticky\<close> the header \<open>X-Allino-Sticky\<close>; a token past half of its life is renewed in the cookie.
\<close>

definition sticky_token ::
  "(string \<Rightarrow> string + sessionToken) \<Rightarrow> sessionConfig \<Rightarrow> time \<Rightarrow> session_error + string \<Rightarrow> string \<Rightarrow>
    session_error + sessionToken" where
  "sticky_token unseal cfg now created cookie =
     bind_res (if cookie = [] then created else Inr cookie) (\<lambda>ctoken.
       (case decodeSession unseal cfg now ctoken of
          Inl ErrSessionExpired \<Rightarrow> bind_res created (decodeSession unseal cfg now)
        | r \<Rightarrow> r))"

definition call_sticky ::
  "(sessionToken \<Rightarrow> string + string) \<Rightarrow> (string \<Rightarrow> string + sessionToken) \<Rightarrow> net_env \<Rightarrow> sessionConfig \<Rightarrow> time \<Rightarrow>
    session_error + string \<Rightarrow> string \<Rightarrow> string \<Rightarrow> string \<Rightarrow> 'v sessionManager \<Rightarrow> sticky_outcome \<times> 'v sessionManager" where
  "call_sticky seal unseal ne cfg now created xsticky sessionName cookie m =
     (case sticky_token unseal cfg now created cookie of
        Inl e \<Rightarrow> (StickyFailed e, m)
      | Inr dses \<Rightarrow>
          if st_Name dses \<noteq> sessionName then (StickyFailed (SessionError ''invalid session resource''), m)
          else if st_NodeIP dses = nodeip m then
            (if sc_Expire cfg > 0 \<and> unix now - st_CreateAt dses > sc_Expire cfg div (2 * second) then
               (let (ip, m') = NodeIP ne cfg m in
                case seal \<lparr>st_NodeIP = ip, st_Name = sessionName, st_SessionID = st_SessionID dses,
                           st_CreateAt = unix now\<rparr> of
                  Inl e \<Rightarrow> (StickyFailed (SessionError e), m')
                | Inr newToken \<Rightarrow> (RunLocal dses (Some newToken), m'))
             else (RunLocal dses None, m))
          else if xsticky \<noteq> [] then (StickyFailed (SessionError ''fatal: proxy loop''), m)
          else if st_NodeIP dses \<in> set (sc_ProxyableHosts cfg) \<or>
                  (\<exists>re \<in> set (sc_ProxyableHostsRegex cfg). re (st_NodeIP dses))
          then (ProxyTo (st_NodeIP dses), m)
          else (StickyFailed (SessionError ''fatal: proxy failed''), m))"

text \<open>
  After the reverse proxy returned (\<open>failed\<close>: with an error): the value of the session cookie it sets, if any,
  and the error of the call, which is \<open>ErrNoOp\<close> when the proxied response stands.
\<close>

definition after_proxy :: "bool \<Rightarrow> string option \<times> session_error" where
  "after_proxy failed = (if failed then (Some [], SessionError ''session expired'') else (None, ErrNoOp))"

subsection \<open>Accounting\<close>

definition use_of :: "resources \<Rightarrow> string \<Rightarrow> int" where
  "use_of us r = (case map_of us r of None \<Rightarrow> 0 | Some n \<Rightarrow> n)"

definition wf_use :: "resources \<Rightarrow> bool" where
  "wf_use us \<longleftrightarrow> distinct (map fst us) \<and> (\<forall>(k, n) \<in> set us. 0 \<le> n \<and> n < 2 ^ 61)"

text \<open>With limits like these, and uses like those, no counter wraps around.\<close>

definition small_limits :: "(string \<Rightarrow> int) \<Rightarrow> bool" where
  "small_limits mx \<longleftrightarrow> (\<forall>r. mx r < 2 ^ 61)"

definition in_limits :: "(string \<Rightarrow> int) \<Rightarrow> (string \<Rightarrow> int) \<Rightarrow> bool" where
  "in_limits mx c \<longleftrightarrow> (\<forall>r. 0 \<le> c r \<and> c r \<le> max 0 (mx r))"

lemma go_int_same: "in_int64 i \<Longrightarrow> go_int i = i"
  by (simp add: go_int_def in_int64_def)

definition total_use :: "(string \<times> 'v stickySessionEntry) list \<Rightarrow> string \<Rightarrow> int" where
  "total_use store r = sum_list (map (\<lambda>(k, e). use_of (se_use e) r) store)"

definition session_inv :: "sessionConfig \<Rightarrow> 'v sessionManager \<Rightarrow> bool" where
  "session_inv cfg m \<longleftrightarrow>
     small_limits (sc_Resources cfg) \<and>
     distinct (map fst (sessionStore m)) \<and>
     (\<forall>(k, e) \<in> set (sessionStore m). se_sid e = k \<and> wf_use (se_use e) \<and> se_name e \<in> set (createSessionMap m)) \<and>
     (\<forall>r. resourceConsumeMap m r = total_use (sessionStore m) r) \<and>
     (\<forall>r. total_use (sessionStore m) r \<le> max 0 (sc_Resources cfg r))"

lemma use_of_simps [simp]:
  "use_of [] r = 0" "use_of ((k, n) # us) r = (if r = k then n else use_of us r)"
  by (auto simp: use_of_def)

lemma use_of_notin: "r \<notin> fst ` set us \<Longrightarrow> use_of us r = 0"
  by (induction us) auto

lemma use_of_nonneg: "wf_use us \<Longrightarrow> 0 \<le> use_of us r"
  by (induction us) (auto simp: wf_use_def)

lemma use_of_in: "wf_use us \<Longrightarrow> (k, n) \<in> set us \<Longrightarrow> use_of us k = n"
  by (simp add: use_of_def wf_use_def)

lemma go_int_use:
  assumes "wf_use us" "small_limits mx" "in_limits mx c" "(k, n) \<in> set us"
  shows "go_int (c k + n) = c k + n" "go_int (n * 2) = n * 2" "go_int (c k + n * 2) = c k + n * 2"
proof -
  have "0 \<le> n" "n < 2 ^ 61" using assms(1,4) by (auto simp: wf_use_def)
  moreover have "0 \<le> c k" "c k \<le> max 0 (mx k)" "mx k < 2 ^ 61" using assms(2,3) by (simp_all add: small_limits_def in_limits_def)
  ultimately show "go_int (c k + n) = c k + n" "go_int (n * 2) = n * 2" "go_int (c k + n * 2) = c k + n * 2"
    by (intro go_int_same; simp add: in_int64_def)+
qed

lemma fold_consume:
  "distinct (map fst us) \<Longrightarrow> \<forall>(k, n) \<in> set us. go_int (c k + n) = c k + n \<Longrightarrow>
    fold (\<lambda>(k, u) m. m(k := go_int (m k + u))) us c = (\<lambda>r. c r + use_of us r)"
proof (induction us arbitrary: c)
  case (Cons x us)
  obtain k n where x: "x = (k, n)" by fastforce
  have "fold (\<lambda>(k, u) m. m(k := go_int (m k + u))) us (c(k := c k + n)) = (\<lambda>r. (c(k := c k + n)) r + use_of us r)"
    using Cons.prems x by (intro Cons.IH) (auto simp: rev_image_eqI)
  moreover have "go_int (c k + n) = c k + n" "k \<notin> fst ` set us" using Cons.prems x by auto
  ultimately have "fold (\<lambda>(k, u) m. m(k := go_int (m k + u))) ((k, n) # us) c =
    (\<lambda>r. (c(k := c k + n)) r + use_of us r)" by simp
  moreover have "(\<lambda>r. (c(k := c k + n)) r + use_of us r) = (\<lambda>r. c r + use_of ((k, n) # us) r)"
    using \<open>k \<notin> fst ` set us\<close> by (auto simp: use_of_notin fun_eq_iff)
  ultimately show ?case unfolding x by (rule trans)
qed simp

lemma fold_free:
  "distinct (map fst us) \<Longrightarrow> \<forall>(k, n) \<in> set us. n \<le> c k \<and> in_int64 (c k - n) \<Longrightarrow>
    entry_free us c = (\<lambda>r. c r - use_of us r)"
proof (induction us arbitrary: c)
  case Nil
  then show ?case by (simp add: entry_free_def)
next
  case (Cons x us)
  obtain k n where x: "x = (k, n)" by fastforce
  have "entry_free us (c(k := c k - n)) = (\<lambda>r. (c(k := c k - n)) r - use_of us r)"
    using Cons x by (intro Cons.IH) (auto simp: rev_image_eqI)
  then show ?case using Cons.prems x
    by (auto simp: entry_free_def use_of_notin fun_eq_iff go_int_same)
qed

lemma total_use_simps [simp]:
  "total_use [] r = 0" "total_use ((k, e) # st) r = use_of (se_use e) r + total_use st r"
  by (simp_all add: total_use_def)

lemma total_use_update:
  "total_use (AList.update k e st) r =
    total_use st r - (case map_of st k of None \<Rightarrow> 0 | Some e' \<Rightarrow> use_of (se_use e') r) + use_of (se_use e) r"
  by (induction st) auto

lemma total_use_delete:
  "distinct (map fst st) \<Longrightarrow> map_of st k = Some e \<Longrightarrow>
    total_use (AList.delete k st) r = total_use st r - use_of (se_use e) r"
  by (induction st) (auto split: if_splits)

lemma total_use_member:
  assumes "\<forall>(k, e) \<in> set st. wf_use (se_use e)" "map_of st k = Some e"
  shows "use_of (se_use e) r \<le> total_use st r \<and> 0 \<le> total_use st r"
  using assms
proof (induction st)
  case (Cons x st)
  have nn: "0 \<le> total_use st r" using Cons.prems(1) by (induction st) (auto intro!: use_of_nonneg add_nonneg_nonneg)
  from Cons nn show ?case by (cases x) (force split: if_splits dest: use_of_nonneg [where r = r])
qed simp

lemma set_update_subset: "set (AList.update k e st) \<subseteq> insert (k, e) (set st)"
  by (induction st) auto

lemma set_delete_subset: "set (AList.delete k st) \<subseteq> set st"
  by (auto simp: AList.delete_eq)

text \<open>Some resource cannot take \<open>j\<close> more uses.\<close>

definition no_room :: "int \<Rightarrow> (string \<Rightarrow> int) \<Rightarrow> resources \<Rightarrow> (string \<Rightarrow> int) \<Rightarrow> bool" where
  "no_room j mx us c \<longleftrightarrow> list_ex (\<lambda>(k, n). c k + n * j > mx k) us"

definition no_wrap :: "resources \<Rightarrow> (string \<Rightarrow> int) \<Rightarrow> bool" where
  "no_wrap us c \<longleftrightarrow> (\<forall>(k, n) \<in> set us. go_int (c k + n) = c k + n \<and> go_int (n * 2) = n * 2 \<and>
     go_int (c k + n * 2) = c k + n * 2)"

lemma consume_check_overflow:
  "no_wrap us c \<Longrightarrow> result \<noteq> CONSUME_OVERFLOW \<Longrightarrow>
    consume_check mx c result us = CONSUME_OVERFLOW \<longleftrightarrow> no_room 1 mx us c"
proof (induction us arbitrary: result)
  case Nil
  then show ?case by (simp add: no_room_def)
next
  case (Cons x us)
  obtain k n where "x = (k, n)" by fastforce
  with Cons.prems Cons.IH [of "if c k + n * 2 > mx k then CONSUME_FULL else result"] show ?case
    by (simp add: no_room_def no_wrap_def split: if_splits)
qed

lemma consume_check_full:
  "no_wrap us c \<Longrightarrow> consume_check mx c result us \<noteq> CONSUME_OVERFLOW \<Longrightarrow>
    consume_check mx c result us = CONSUME_FULL \<longleftrightarrow> result = CONSUME_FULL \<or> no_room 2 mx us c"
proof (induction us arbitrary: result)
  case Nil
  then show ?case by (simp add: no_room_def)
next
  case (Cons x us)
  obtain k n where "x = (k, n)" by fastforce
  with Cons.prems Cons.IH [of "if c k + n * 2 > mx k then CONSUME_FULL else result"] show ?case
    by (auto simp: no_room_def no_wrap_def split: if_splits)
qed

lemma entry_consume_cases:
  assumes "wf_use us" "small_limits mx" "in_limits mx c"
  shows "entry_consume mx us c =
    (if no_room 1 mx us c then (CONSUME_OVERFLOW, c)
     else (if no_room 2 mx us c then CONSUME_FULL else CONSUME_OK, \<lambda>r. c r + use_of us r))"
proof (cases "us = []")
  case True
  then show ?thesis by (simp add: entry_consume_def no_room_def)
next
  case False
  have d: "distinct (map fst us)" using assms(1) by (simp add: wf_use_def)
  have w: "no_wrap us c" using go_int_use [OF assms] by (auto simp: no_wrap_def)
  then have f: "fold (\<lambda>(k, u) m. m(k := go_int (m k + u))) us c = (\<lambda>r. c r + use_of us r)"
    by (intro fold_consume [OF d]) (auto simp: no_wrap_def)
  show ?thesis
    using False consume_check_overflow [OF w, of CONSUME_OK mx] consume_check_full [OF w, of mx CONSUME_OK]
    by (cases "consume_check mx c CONSUME_OK us") (auto simp: entry_consume_def f)
qed

text \<open>
  Beyond the limits the check fails open: once something is consumed of a resource, a session that asks for the greatest
  integer of it is let in, and leaves the counter negative.
\<close>

lemma huge_use_is_admitted:
  assumes "0 < c r" "c r < 2 ^ 63" "0 \<le> mx r"
  shows "fst (entry_consume mx [(r, 2 ^ 63 - 1)] c) \<noteq> CONSUME_OVERFLOW \<and>
    snd (entry_consume mx [(r, 2 ^ 63 - 1)] c) r = c r - 1 - 2 ^ 63"
proof -
  have "(c r + (2 ^ 63 - 1) + 2 ^ 63) mod 2 ^ 64 = c r - (1 :: int)"
    using assms(1,2) mod_pos_pos_trivial [of "c r - 1" "2 ^ 64"] mod_add_self2 [of "c r - 1" "2 ^ 64"]
    by (simp add: algebra_simps)
  then have g: "go_int (c r + (2 ^ 63 - 1)) = c r - 1 - 2 ^ 63" by (simp add: go_int_def)
  then show ?thesis using assms by (simp add: entry_consume_def)
qed

subsection \<open>The operations of a node\<close>

datatype 'v session_op =
    OpGroup string
  | OpCreate time string string resources
  | OpGC time
  | OpUse time string "'v option"

record 'v session_env =
  en_seal :: "sessionToken \<Rightarrow> string + string"
  en_net :: net_env
  en_cfg :: sessionConfig
  en_keepalive :: "'v \<Rightarrow> bool"

fun session_step :: "'v session_env \<Rightarrow> 'v session_op \<Rightarrow> 'v sessionManager \<Rightarrow> 'v sessionManager option" where
  "session_step en (OpGroup name) m = Some (addSessionGroup name m)"
| "session_step en (OpCreate now sid name use) m =
     Some (snd (snd (create_session (en_seal en) (en_net en) (en_cfg en) now sid name use m)))"
| "session_step en (OpGC now) m = session_gc (en_keepalive en) (en_cfg en) now m"
| "session_step en (OpUse now sid init) m = Some (snd (getStickySessionEntry init (en_cfg en) now sid m))"

text \<open>
  What the callers are asked to respect: only the function of a registered group creates, with a new id and a Go map
  of uses that are not negative and below \<open>2^61\<close>.
\<close>

fun op_ok :: "'v session_op \<Rightarrow> 'v sessionManager \<Rightarrow> bool" where
  "op_ok (OpCreate now sid name use) m \<longleftrightarrow>
     name \<in> set (createSessionMap m) \<and> sid \<notin> fst ` set (sessionStore m) \<and> wf_use use"
| "op_ok _ m \<longleftrightarrow> True"

inductive session_reachable :: "'v session_env \<Rightarrow> 'v sessionManager \<Rightarrow> bool" for en where
  start: "session_reachable en session_setup"
| step: "session_reachable en m \<Longrightarrow> op_ok op m \<Longrightarrow> session_step en op m = Some m' \<Longrightarrow> session_reachable en m'"

lemma NodeIP_only_nodeip:
  "NodeIP ne cfg m = (ip, m') \<Longrightarrow> sessionStore m' = sessionStore m \<and> resourceConsumeMap m' = resourceConsumeMap m \<and>
    createSessionMap m' = createSessionMap m \<and> resourcelocked m' = resourcelocked m"
  by (auto simp: NodeIP_def Let_def split: if_splits option.splits)

text \<open>What creating a session does to the fields of the manager.\<close>

lemma create_session_effect:
  assumes "wf_use use" "small_limits (sc_Resources cfg)" "in_limits (sc_Resources cfg) (resourceConsumeMap m)"
    and "create_session seal ne cfg now sid name use m = (r, requeued, m')"
  shows "requeued = no_room 1 (sc_Resources cfg) use (resourceConsumeMap m)"
    and "requeued \<Longrightarrow> m' = m \<and> r = Inl (SessionError ''resource full error'')"
    and "\<not> requeued \<Longrightarrow>
      sessionStore m' = AList.update sid \<lparr>preserved = True, se_sid = sid, se_name = name, se_use = use, se_value = None,
        expireAt = now + sc_Expire cfg\<rparr> (sessionStore m) \<and>
      resourceConsumeMap m' = (\<lambda>r. resourceConsumeMap m r + use_of use r) \<and>
      createSessionMap m' = createSessionMap m \<and>
      resourcelocked m' = (if no_room 2 (sc_Resources cfg) use (resourceConsumeMap m)
        then jobset_Add (create_handler_name name) (resourcelocked m) else resourcelocked m)"
proof -
  define e where "e = \<lparr>preserved = True, se_sid = sid, se_name = name, se_use = use, se_value = None :: 'a option,
    expireAt = now + sc_Expire cfg\<rparr>"
  define full where "full = no_room 2 (sc_Resources cfg) use (resourceConsumeMap m)"
  define m1 where "m1 = m\<lparr>resourceConsumeMap := (\<lambda>r. resourceConsumeMap m r + use_of use r),
    sessionStore := AList.update sid e (sessionStore m),
    resourcelocked := (if full then jobset_Add (create_handler_name name) (resourcelocked m) else resourcelocked m)\<rparr>"
  obtain ip m2 where n: "NodeIP ne cfg m1 = (ip, m2)" by fastforce
  have cs: "create_session seal ne cfg now sid name use m =
    (if no_room 1 (sc_Resources cfg) use (resourceConsumeMap m)
     then (Inl (SessionError ''resource full error''), True, m)
     else (case seal \<lparr>st_NodeIP = ip, st_Name = name, st_SessionID = sid, st_CreateAt = unix now\<rparr> of
        Inl e \<Rightarrow> Inl (SessionError e) | Inr token \<Rightarrow> Inr token, False, m2))"
    using n by (cases "no_room 2 (sc_Resources cfg) use (resourceConsumeMap m)")
      (simp_all add: create_session_def entry_consume_cases [OF assms(1-3)] m1_def e_def full_def Let_def
        split: sum.splits)
  then show "requeued = no_room 1 (sc_Resources cfg) use (resourceConsumeMap m)"
    and "requeued \<Longrightarrow> m' = m \<and> r = Inl (SessionError ''resource full error'')"
    using assms(4) by (auto split: if_splits)
  show "\<not> requeued \<Longrightarrow> sessionStore m' = AList.update sid \<lparr>preserved = True, se_sid = sid, se_name = name,
        se_use = use, se_value = None, expireAt = now + sc_Expire cfg\<rparr> (sessionStore m) \<and>
      resourceConsumeMap m' = (\<lambda>r. resourceConsumeMap m r + use_of use r) \<and>
      createSessionMap m' = createSessionMap m \<and>
      resourcelocked m' = (if no_room 2 (sc_Resources cfg) use (resourceConsumeMap m)
        then jobset_Add (create_handler_name name) (resourcelocked m) else resourcelocked m)"
    using cs assms(4) NodeIP_only_nodeip [OF n] by (auto simp: m1_def e_def full_def split: if_splits)
qed

lemma session_inv_setup: "small_limits (sc_Resources cfg) \<Longrightarrow> session_inv cfg session_setup"
  by (simp add: session_inv_def session_setup_def)

lemma inv_limits:
  assumes "session_inv cfg m"
  shows "in_limits (sc_Resources cfg) (resourceConsumeMap m)" "small_limits (sc_Resources cfg)"
proof -
  have "\<forall>(k, e) \<in> set (sessionStore m). wf_use (se_use e)" using assms by (auto simp: session_inv_def)
  then have "0 \<le> total_use (sessionStore m) r" for r
    by (induction "sessionStore m") (auto simp: total_use_def intro!: sum_list_nonneg use_of_nonneg)
  then show "in_limits (sc_Resources cfg) (resourceConsumeMap m)" using assms by (simp add: session_inv_def in_limits_def)
  show "small_limits (sc_Resources cfg)" using assms by (simp add: session_inv_def)
qed

lemma inv_create:
  assumes "session_inv cfg m" "name \<in> set (createSessionMap m)" "sid \<notin> fst ` set (sessionStore m)" "wf_use use"
    and c: "create_session seal ne cfg now sid name use m = (r, requeued, m')"
  shows "session_inv cfg m'"
proof (cases requeued)
  case True
  with create_session_effect(2) [OF assms(4) inv_limits(2,1) [OF assms(1)] c] assms(1) show ?thesis by simp
next
  case False
  note eff = create_session_effect(3) [OF assms(4) inv_limits(2,1) [OF assms(1)] c False]
  have new: "map_of (sessionStore m) sid = None" using assms(3) by (simp add: map_of_eq_None_iff)
  have room: "resourceConsumeMap m r + use_of use r \<le> max 0 (sc_Resources cfg r)" for r
  proof (cases "r \<in> fst ` set use")
    case True
    then obtain n where n: "(r, n) \<in> set use" by auto
    with False create_session_effect(1) [OF assms(4) inv_limits(2,1) [OF assms(1)] c] have "resourceConsumeMap m r + n \<le> sc_Resources cfg r"
      by (auto simp: no_room_def list_ex_iff)
    then show ?thesis using use_of_in [OF assms(4) n] by simp
  next
    case False
    then show ?thesis using assms(1) by (simp add: use_of_notin session_inv_def)
  qed
  have sub: "set (sessionStore m') \<subseteq> insert (sid, \<lparr>preserved = True, se_sid = sid, se_name = name, se_use = use,
      se_value = None, expireAt = now + sc_Expire cfg\<rparr>) (set (sessionStore m))"
    using eff set_update_subset by simp
  have "distinct (map fst (sessionStore m'))"
    using eff assms(1) by (simp add: session_inv_def distinct_update)
  moreover have "\<forall>(k, e) \<in> set (sessionStore m'). se_sid e = k \<and> wf_use (se_use e) \<and> se_name e \<in> set (createSessionMap m')"
    using sub assms(1,2,4) eff unfolding session_inv_def by fastforce
  ultimately show ?thesis
    using eff assms(1) room new by (simp add: session_inv_def total_use_update)
qed

text \<open>One expired session of the collector's loop, and the loop.\<close>

definition gc_entry :: "('v \<Rightarrow> bool) \<Rightarrow> sessionConfig \<Rightarrow> time \<Rightarrow> 'v stickySessionEntry \<Rightarrow> 'v stickySessionEntry option" where
  "gc_entry keepalive cfg now e =
     (if now > expireAt e then
        (if (case se_value e of None \<Rightarrow> False | Some v \<Rightarrow> keepalive v)
         then Some (e\<lparr>expireAt := now + sc_Expire cfg\<rparr>) else None)
      else Some e)"

lemma inv_replace:
  assumes "session_inv cfg m" "map_of (sessionStore m) k = Some e"
    and "se_sid e' = se_sid e" "se_use e' = se_use e" "se_name e' = se_name e"
  shows "session_inv cfg (m\<lparr>sessionStore := AList.update k e' (sessionStore m)\<rparr>)"
proof -
  have "(k, e) \<in> set (sessionStore m)" using assms(2) by (rule map_of_SomeD)
  then have "\<forall>(k, e) \<in> set (AList.update k e' (sessionStore m)).
      se_sid e = k \<and> wf_use (se_use e) \<and> se_name e \<in> set (createSessionMap m)"
    using set_update_subset [of k e' "sessionStore m"] assms unfolding session_inv_def by fastforce
  then show ?thesis
    using assms by (simp add: session_inv_def distinct_update total_use_update)
qed

lemma inv_delete:
  assumes inv: "session_inv cfg m" and e: "map_of (sessionStore m) k = Some e"
  shows "session_inv cfg (m\<lparr>sessionStore := AList.delete k (sessionStore m),
    resourceConsumeMap := entry_free (se_use e) (resourceConsumeMap m), resourcelocked := l\<rparr>)"
proof -
  have mem: "(k, e) \<in> set (sessionStore m)" using e by (rule map_of_SomeD)
  with inv have wf: "wf_use (se_use e)" by (auto simp: session_inv_def)
  have le: "use_of (se_use e) r \<le> resourceConsumeMap m r" for r
    using inv total_use_member [OF _ e, of r] by (auto simp: session_inv_def)
  have fit: "n \<le> resourceConsumeMap m k \<and> in_int64 (resourceConsumeMap m k - n)" if "(k, n) \<in> set (se_use e)" for k n
  proof -
    have "0 \<le> n" "n < 2 ^ 61" "use_of (se_use e) k = n" using wf that use_of_in by (auto simp: wf_use_def)
    moreover have "resourceConsumeMap m k \<le> max 0 (sc_Resources cfg k)" "sc_Resources cfg k < 2 ^ 61"
      using inv_limits [OF inv] by (simp_all add: in_limits_def small_limits_def)
    ultimately show ?thesis using le [of k] by (simp add: in_int64_def)
  qed
  then have "entry_free (se_use e) (resourceConsumeMap m) = (\<lambda>r. resourceConsumeMap m r - use_of (se_use e) r)"
    using wf by (intro fold_free) (auto simp: wf_use_def)
  moreover have "resourceConsumeMap m r - use_of (se_use e) r \<le> max 0 (sc_Resources cfg r)" for r
    using inv use_of_nonneg [OF wf, of r] unfolding session_inv_def by (smt (verit))
  ultimately show ?thesis
    using inv set_delete_subset [of k "sessionStore m"] total_use_delete [OF _ e]
    by (auto simp: session_inv_def distinct_delete)
qed

lemma gc_step:
  assumes "session_inv cfg m" "map_of (sessionStore m) k = Some e" "now > expireAt e"
  shows "\<exists>b m'. mayDeleteSession keepalive cfg now k e m = Some (b, m') \<and> session_inv cfg m' \<and>
    map_of (sessionStore m') = (map_of (sessionStore m))(k := gc_entry keepalive cfg now e)"
proof (cases "case se_value e of None \<Rightarrow> False | Some v \<Rightarrow> keepalive v")
  case True
  then show ?thesis
    using assms inv_replace [OF assms(1,2), of "e\<lparr>expireAt := now + sc_Expire cfg\<rparr>"]
    by (auto simp: mayDeleteSession_def gc_entry_def update_conv')
next
  case False
  have "se_name e \<in> set (createSessionMap m)"
    using assms(1) map_of_SomeD [OF assms(2)] by (auto simp: session_inv_def)
  then show ?thesis
    using False assms inv_delete [OF assms(1,2)]
    by (auto simp: mayDeleteSession_def gc_entry_def delete_conv')
qed

lemma gc_loop_effect:
  "session_inv cfg m \<Longrightarrow> distinct (map fst es) \<Longrightarrow> (\<And>k e. (k, e) \<in> set es \<Longrightarrow> map_of (sessionStore m) k = Some e) \<Longrightarrow>
    \<exists>m'. gc_loop keepalive cfg now es m = Some m' \<and> session_inv cfg m' \<and>
      (\<forall>k. map_of (sessionStore m') k =
        (case map_of es k of None \<Rightarrow> map_of (sessionStore m) k | Some e \<Rightarrow> gc_entry keepalive cfg now e))"
proof (induction es arbitrary: m)
  case Nil
  then show ?case by simp
next
  case (Cons x es)
  obtain k e where x: "x = (k, e)" by fastforce
  have e: "map_of (sessionStore m) k = Some e" using Cons.prems(3) x by simp
  have k: "k \<notin> fst ` set es" "map_of es k = None" using Cons.prems(2) x by (auto simp: map_of_eq_None_iff)
  show ?case
  proof (cases "now > expireAt e")
    case False
    have "\<exists>m'. gc_loop keepalive cfg now es m = Some m' \<and> session_inv cfg m' \<and>
      (\<forall>k. map_of (sessionStore m') k =
        (case map_of es k of None \<Rightarrow> map_of (sessionStore m) k | Some e \<Rightarrow> gc_entry keepalive cfg now e))"
      using Cons.prems by (intro Cons.IH) auto
    then show ?thesis using False x e k by (fastforce simp: gc_entry_def)
  next
    case True
    from gc_step [OF Cons.prems(1) e True, of keepalive] obtain b m1 where m1:
      "mayDeleteSession keepalive cfg now k e m = Some (b, m1)" "session_inv cfg m1"
      "map_of (sessionStore m1) = (map_of (sessionStore m))(k := gc_entry keepalive cfg now e)" by blast
    have "\<exists>m'. gc_loop keepalive cfg now es m1 = Some m' \<and> session_inv cfg m' \<and>
      (\<forall>k. map_of (sessionStore m') k =
        (case map_of es k of None \<Rightarrow> map_of (sessionStore m1) k | Some e \<Rightarrow> gc_entry keepalive cfg now e))"
      using Cons.prems m1(2,3) k(1) by (intro Cons.IH) (auto simp: image_iff)
    then obtain m2 where m2: "gc_loop keepalive cfg now es m1 = Some m2" "session_inv cfg m2"
      "\<And>k. map_of (sessionStore m2) k =
        (case map_of es k of None \<Rightarrow> map_of (sessionStore m1) k | Some e \<Rightarrow> gc_entry keepalive cfg now e)" by blast
    have "map_of (sessionStore m2) k' = (case map_of (x # es) k' of None \<Rightarrow> map_of (sessionStore m) k'
        | Some e \<Rightarrow> gc_entry keepalive cfg now e)" for k'
      using m2(3) [of k'] m1(3) k(2) x by (auto split: option.split)
    then show ?thesis using True x m1(1) m2(1,2) by simp
  qed
qed

lemma gc_effect:
  assumes "session_inv cfg m"
  shows "\<exists>m'. session_gc keepalive cfg now m = Some m' \<and> session_inv cfg m' \<and>
    (\<forall>k. map_of (sessionStore m') k = Option.bind (map_of (sessionStore m) k) (gc_entry keepalive cfg now))"
proof -
  have d: "distinct (map fst (sessionStore m))" using assms by (simp add: session_inv_def)
  obtain m' where m': "gc_loop keepalive cfg now (sessionStore m) m = Some m'" "session_inv cfg m'"
    "\<And>k. map_of (sessionStore m') k = (case map_of (sessionStore m) k of None \<Rightarrow> map_of (sessionStore m) k
      | Some e \<Rightarrow> gc_entry keepalive cfg now e)"
    using gc_loop_effect [OF assms d, of keepalive now] d by auto
  have "map_of (sessionStore m') k = Option.bind (map_of (sessionStore m) k) (gc_entry keepalive cfg now)" for k
    using m'(3) [of k] by (cases "map_of (sessionStore m) k") auto
  with m'(1,2) show ?thesis by (simp add: session_gc_def)
qed

lemma inv_use:
  assumes "session_inv cfg m"
  shows "session_inv cfg (snd (getStickySessionEntry init cfg now sid m))"
  using assms inv_replace [OF assms, of sid]
  by (auto simp: getStickySessionEntry_def Let_def split: option.splits)

lemma inv_step:
  assumes "session_inv (en_cfg en) m" "op_ok op m"
  shows "\<exists>m'. session_step en op m = Some m' \<and> session_inv (en_cfg en) m'"
proof (cases op)
  case (OpGroup name)
  then show ?thesis using assms by (auto simp: addSessionGroup_def session_inv_def)
next
  case (OpCreate now sid name use)
  obtain r q m' where c: "create_session (en_seal en) (en_net en) (en_cfg en) now sid name use m = (r, q, m')"
    by (metis prod_cases3)
  from inv_create [OF assms(1) _ _ _ c] assms(2) OpCreate c show ?thesis by simp
next
  case (OpGC now)
  with gc_effect [OF assms(1), of "en_keepalive en" now] show ?thesis by auto
next
  case (OpUse now sid init)
  with inv_use [OF assms(1)] show ?thesis by simp
qed

lemma session_reachable_inv:
  "session_reachable en m \<Longrightarrow> small_limits (sc_Resources (en_cfg en)) \<Longrightarrow> session_inv (en_cfg en) m"
proof (induction rule: session_reachable.induct)
  case start
  then show ?case by (simp add: session_inv_setup)
next
  case (step m op m')
  with inv_step [of en m op] show ?case by auto
qed

text \<open>C7. The accounting of session resources, for a configuration whose limits are below \<open>2^61\<close> and sessions created only for
  registered groups, under a fresh id, with a map of non-negative uses below \<open>2^61\<close> (Go ints have 64 bits; a use near the
  greatest int wraps the check around and is let in, \<open>huge_use_is_admitted\<close>). Whatever groups are registered
  and sessions are created, used and collected, no operation panics, and the recorded consumption of a resource is the sum
  of the uses of the sessions that exist, never negative, never above the configured maximum. Creating a session is refused,
  changing nothing and marking the job for requeue, exactly when some resource has no room for it; otherwise it is
  stored and charged once, and its group's handler is locked when a second one like it would not fit. The collector drops
  exactly the expired sessions that do not ask to be kept, and gives those that do a new expiry.\<close>

theorem session_accounting:
  assumes "session_reachable en m" "\<forall>r. sc_Resources (en_cfg en) r < 2 ^ 61"
  shows "(\<forall>r. resourceConsumeMap m r = total_use (sessionStore m) r \<and> 0 \<le> resourceConsumeMap m r \<and>
      resourceConsumeMap m r \<le> max 0 (sc_Resources (en_cfg en) r)) \<and>
    (\<forall>op. op_ok op m \<longrightarrow> session_step en op m \<noteq> None) \<and>
    (\<forall>now sid name use r requeued m'. op_ok (OpCreate now sid name use) m \<and>
        create_session (en_seal en) (en_net en) (en_cfg en) now sid name use m = (r, requeued, m') \<longrightarrow>
        requeued = (\<exists>(k, n) \<in> set use. resourceConsumeMap m k + n > sc_Resources (en_cfg en) k) \<and>
        (requeued \<longrightarrow> m' = m) \<and>
        (\<not> requeued \<longrightarrow> map_of (sessionStore m') sid \<noteq> None \<and>
          (\<forall>k. resourceConsumeMap m' k = resourceConsumeMap m k + use_of use k) \<and>
          ((\<exists>(k, n) \<in> set use. resourceConsumeMap m' k + n > sc_Resources (en_cfg en) k) \<longrightarrow>
            create_handler_name name \<in> set (resourcelocked m')))) \<and>
    (\<forall>now. \<exists>m'. session_gc (en_keepalive en) (en_cfg en) now m = Some m' \<and>
        (\<forall>k. map_of (sessionStore m') k =
          Option.bind (map_of (sessionStore m) k) (gc_entry (en_keepalive en) (en_cfg en) now)))"
    (is "?sum \<and> ?safe \<and> ?create \<and> ?gc")
proof (intro conjI)
  note inv = session_reachable_inv [OF assms(1) assms(2) [folded small_limits_def]]
  have wf: "\<forall>(k, e) \<in> set (sessionStore m). wf_use (se_use e)" using inv by (auto simp: session_inv_def)
  have "0 \<le> total_use (sessionStore m) r" for r
    using wf by (induction "sessionStore m") (auto simp: total_use_def intro!: sum_list_nonneg use_of_nonneg)
  then show ?sum using inv by (simp add: session_inv_def)
  show ?safe using inv_step [OF inv] by blast
  show ?gc using gc_effect [OF inv] by blast
  show ?create
  proof (intro allI impI, elim conjE)
    fix now sid name use r requeued m'
    assume ok: "op_ok (OpCreate now sid name use) m"
      and c: "create_session (en_seal en) (en_net en) (en_cfg en) now sid name use m = (r, requeued, m')"
    from ok have w: "wf_use use" by simp
    note eff = create_session_effect [OF w inv_limits(2,1) [OF inv] c]
    show "requeued = (\<exists>(k, n) \<in> set use. resourceConsumeMap m k + n > sc_Resources (en_cfg en) k) \<and>
        (requeued \<longrightarrow> m' = m) \<and>
        (\<not> requeued \<longrightarrow> map_of (sessionStore m') sid \<noteq> None \<and>
          (\<forall>k. resourceConsumeMap m' k = resourceConsumeMap m k + use_of use k) \<and>
          ((\<exists>(k, n) \<in> set use. resourceConsumeMap m' k + n > sc_Resources (en_cfg en) k) \<longrightarrow>
            create_handler_name name \<in> set (resourcelocked m')))"
    proof (intro conjI impI)
      show "requeued = (\<exists>(k, n) \<in> set use. resourceConsumeMap m k + n > sc_Resources (en_cfg en) k)"
        by (simp add: eff(1) no_room_def list_ex_iff)
    next
      assume "\<not> requeued" and full: "\<exists>(k, n) \<in> set use. resourceConsumeMap m' k + n > sc_Resources (en_cfg en) k"
      from full obtain k n where kn: "(k, n) \<in> set use" "resourceConsumeMap m' k + n > sc_Resources (en_cfg en) k"
        by blast
      then have "resourceConsumeMap m k + n * 2 > sc_Resources (en_cfg en) k"
        using eff(3) [OF \<open>\<not> requeued\<close>] use_of_in [OF w kn(1)] by simp
      with kn(1) have "no_room 2 (sc_Resources (en_cfg en)) use (resourceConsumeMap m)"
        by (auto simp: no_room_def list_ex_iff)
      then show "create_handler_name name \<in> set (resourcelocked m')" using eff(3) [OF \<open>\<not> requeued\<close>] by simp
    qed (use eff in \<open>simp_all add: update_conv'\<close>)
  qed
qed

text \<open>A node with one unit of \<open>gpu\<close>, whose tokens are the decimal time and the session id.\<close>

definition gpu_cfg :: sessionConfig where
  "gpu_cfg = \<lparr>sc_Expire = 3600 * second, sc_Resources = (\<lambda>r. if r = ''gpu'' then 1 else 0), sc_NodeIP = [],
     sc_NodeIPEnv = [], sc_ProxyableHosts = [''10.0.0.7:8000''], sc_ProxyableHostsRegex = []\<rparr>"

definition gpu_net :: net_env where
  "gpu_net = \<lparr>ne_env = Map.empty, ne_bind = Some ([], ''8000''), ne_local = ''10.0.0.7'',
     ne_join = (\<lambda>h p. h @ '':'' @ p)\<rparr>"

definition gpu_seal :: "sessionToken \<Rightarrow> string + string" where
  "gpu_seal t =
     (if CHR ''/'' \<in> set (st_NodeIP t @ st_Name t @ st_SessionID t) \<or> \<not> in_int64 (st_CreateAt t) then Inl ''not encodable''
      else Inr (join_with ''/'' [st_NodeIP t, st_Name t, st_SessionID t, itoa (st_CreateAt t)]))"

definition gpu_unseal :: "string \<Rightarrow> string + sessionToken" where
  "gpu_unseal s = (case split_on CHR ''/'' s of
     [n, r, i, c] \<Rightarrow> (case atoi c of None \<Rightarrow> Inl ''bad time''
        | Some t \<Rightarrow> Inr \<lparr>st_NodeIP = n, st_Name = r, st_SessionID = i, st_CreateAt = t\<rparr>)
   | _ \<Rightarrow> Inl ''bad token'')"

definition gpu_env :: "unit session_env" where
  "gpu_env = \<lparr>en_seal = gpu_seal, en_net = gpu_net, en_cfg = gpu_cfg, en_keepalive = (\<lambda>_. False)\<rparr>"

definition gpu_node :: "unit sessionManager" where
  "gpu_node = the (Option.bind (session_step gpu_env (OpGroup ''job'') session_setup)
     (session_step gpu_env (OpCreate 0 ''s1'' ''job'' [(''gpu'', 1)])))"

lemmas gpu_defs = gpu_cfg_def gpu_net_def gpu_seal_def gpu_env_def session_setup_def addSessionGroup_def
  create_session_def entry_consume_def NodeIP_def unix_def create_handler_name_def jobset_Add_def wf_use_def in_int64_def go_int_def

lemma gpu_node_reachable: "session_reachable gpu_env gpu_node"
proof -
  have "session_reachable gpu_env (addSessionGroup ''job'' session_setup)"
    by (rule session_reachable.step [OF session_reachable.start, of "OpGroup ''job''"]) simp_all
  then show ?thesis
    by (rule session_reachable.step [where op = "OpCreate 0 ''s1'' ''job'' [(''gpu'', 1)]"])
      (simp_all add: gpu_node_def gpu_defs Let_def)
qed

theorem session_accounting_witness:
  "resourceConsumeMap gpu_node ''gpu'' = 1 \<and> resourcelocked gpu_node = [''allino_create_session_job''] \<and>
   create_session gpu_seal gpu_net gpu_cfg 5 ''s2'' ''job'' [(''gpu'', 1)] gpu_node =
     (Inl (SessionError ''resource full error''), True, gpu_node)"
proof -
  have n: "createSessionMap gpu_node = [''job'']" "map fst (sessionStore gpu_node) = [''s1'']"
    "resourceConsumeMap gpu_node ''gpu'' = 1" "resourcelocked gpu_node = [''allino_create_session_job'']"
    by (simp_all add: gpu_node_def gpu_defs Let_def)
  then have ok: "op_ok (OpCreate 5 ''s2'' ''job'' [(''gpu'', 1)]) gpu_node"
    by (cases "sessionStore gpu_node") (auto simp: wf_use_def)
  obtain r q m' where c: "create_session gpu_seal gpu_net gpu_cfg 5 ''s2'' ''job'' [(''gpu'', 1)] gpu_node = (r, q, m')"
    by (metis prod_cases3)
  have env: "en_seal gpu_env = gpu_seal" "en_net gpu_env = gpu_net" "en_cfg gpu_env = gpu_cfg" by (simp_all add: gpu_env_def)
  have small: "\<forall>r. sc_Resources (en_cfg gpu_env) r < 2 ^ 61" by (simp add: gpu_env_def gpu_cfg_def)
  from session_accounting [OF gpu_node_reachable small, THEN conjunct2, THEN conjunct2, THEN conjunct1, unfolded env,
      rule_format, OF conjI, OF ok c]
  have "q \<and> m' = gpu_node" using n(3) by (simp add: gpu_cfg_def)
  moreover have "in_limits (sc_Resources gpu_cfg) (resourceConsumeMap gpu_node)"
    by (simp add: in_limits_def gpu_node_def gpu_defs Let_def)
  moreover have "small_limits (sc_Resources gpu_cfg)" by (simp add: small_limits_def gpu_cfg_def)
  ultimately show ?thesis using n c create_session_effect(2) [OF _ _ _ c] by (simp add: wf_use_def)
qed

lemma create_session_token:
  assumes "create_session seal ne cfg t0 sid name use m = (Inr token, requeued, m1)"
  shows "\<exists>ip m0. NodeIP ne cfg m0 = (ip, m1) \<and> nodeip m0 = nodeip m \<and>
    seal \<lparr>st_NodeIP = ip, st_Name = name, st_SessionID = sid, st_CreateAt = unix t0\<rparr> = Inr token"
proof -
  obtain c consumed where e: "entry_consume (sc_Resources cfg) use (resourceConsumeMap m) = (c, consumed)" by fastforce
  define m0 where "m0 = m\<lparr>resourceConsumeMap := consumed, sessionStore := AList.update sid
      \<lparr>preserved = True, se_sid = sid, se_name = name, se_use = use, se_value = None, expireAt = t0 + sc_Expire cfg\<rparr>
      (sessionStore m),
    resourcelocked := (if c = CONSUME_FULL then jobset_Add (create_handler_name name) (resourcelocked m) else resourcelocked m)\<rparr>"
  obtain ip m2 where n: "NodeIP ne cfg m0 = (ip, m2)" by fastforce
  have "c \<noteq> CONSUME_OVERFLOW" using assms e by (auto simp: create_session_def)
  then have "(case seal \<lparr>st_NodeIP = ip, st_Name = name, st_SessionID = sid, st_CreateAt = unix t0\<rparr> of
      Inl e \<Rightarrow> (Inl (SessionError e), False, m2) | Inr token \<Rightarrow> (Inr token, False, m2)) = (Inr token, requeued, m1)"
    using assms e n by (cases c) (simp_all add: create_session_def m0_def)
  then show ?thesis using n by (intro exI [of _ ip] exI [of _ m0]) (auto simp: m0_def split: sum.splits)
qed

text \<open>C40. Routing of a sticky request, for a token the node itself made and within its life. If the node learns its address
  (it is not configured), the node recognises the token and serves the request locally, with a new token
  once the old one is past half of its life; a token of another session group is refused. But if the
  address is configured (\<open>session.nodeip\<close>), \<open>NodeIP\<close> returns it without recording it, the node never
  recognises its own tokens, and it proxies the request to itself when the address is a proxyable host
  and fails it otherwise.\<close>

theorem sticky_routing:
  assumes "create_session seal ne cfg t0 sid name use m = (Inr token, requeued, m1)"
    and "\<forall>d tok. seal d = Inr tok \<longrightarrow> unseal tok = Inr d" 
    and "seal \<lparr>st_NodeIP = fst (NodeIP ne cfg m), st_Name = name, st_SessionID = sid, st_CreateAt = unix now\<rparr> \<notin> range Inl"
    and "token \<noteq> []" "now \<le> unix t0 * second + sc_Expire cfg"
  shows "(sc_NodeIP cfg = [] \<and> nodeip m1 \<noteq> [] \<longrightarrow>
      (\<exists>d renewed. call_sticky seal unseal ne cfg now created x name token m1 = (RunLocal d renewed, m1) \<and>
        st_SessionID d = sid \<and>
        (renewed \<noteq> None \<longleftrightarrow> 0 < sc_Expire cfg \<and> unix now - unix t0 > sc_Expire cfg div (2 * second)) \<and>
        (\<forall>tok. renewed = Some tok \<longrightarrow> unseal tok = Inr (d\<lparr>st_CreateAt := unix now\<rparr>)))) \<and>
    (sc_NodeIP cfg \<noteq> [] \<and> nodeip m = [] \<longrightarrow>
      call_sticky seal unseal ne cfg now created [] name token m1 =
        (if sc_NodeIP cfg \<in> set (sc_ProxyableHosts cfg) \<or> (\<exists>re \<in> set (sc_ProxyableHostsRegex cfg). re (sc_NodeIP cfg))
         then ProxyTo (sc_NodeIP cfg) else StickyFailed (SessionError ''fatal: proxy failed''), m1)) \<and>
    (other \<noteq> name \<longrightarrow> call_sticky seal unseal ne cfg now created x other token m1 =
        (StickyFailed (SessionError ''invalid session resource''), m1))"
proof -
  obtain ip m0 where n: "NodeIP ne cfg m0 = (ip, m1)" "nodeip m0 = nodeip m"
    and tok: "seal \<lparr>st_NodeIP = ip, st_Name = name, st_SessionID = sid, st_CreateAt = unix t0\<rparr> = Inr token"
    using create_session_token [OF assms(1)] by blast
  define d where "d = \<lparr>st_NodeIP = ip, st_Name = name, st_SessionID = sid, st_CreateAt = unix t0\<rparr>"
  have st: "sticky_token unseal cfg now created token = Inr d"
    using assms(2,4,5) tok by (simp add: sticky_token_def decodeSession_def d_def)
  have refused: "other \<noteq> name \<longrightarrow> call_sticky seal unseal ne cfg now created x other token m1 =
      (StickyFailed (SessionError ''invalid session resource''), m1)"
    by (simp add: call_sticky_def st d_def)
  have lost: "call_sticky seal unseal ne cfg now created [] name token m1 =
      (if sc_NodeIP cfg \<in> set (sc_ProxyableHosts cfg) \<or> (\<exists>re \<in> set (sc_ProxyableHostsRegex cfg). re (sc_NodeIP cfg))
       then ProxyTo (sc_NodeIP cfg) else StickyFailed (SessionError ''fatal: proxy failed''), m1)"
    if "sc_NodeIP cfg \<noteq> []" "nodeip m = []"
  proof -
    have "ip = sc_NodeIP cfg" "nodeip m1 = []" using n that by (auto simp: NodeIP_def)
    then show ?thesis using that by (simp add: call_sticky_def st d_def)
  qed
  have local: "\<exists>d renewed. call_sticky seal unseal ne cfg now created x name token m1 = (RunLocal d renewed, m1) \<and>
      st_SessionID d = sid \<and>
      (renewed \<noteq> None \<longleftrightarrow> 0 < sc_Expire cfg \<and> unix now - unix t0 > sc_Expire cfg div (2 * second)) \<and>
      (\<forall>tok. renewed = Some tok \<longrightarrow> unseal tok = Inr (d\<lparr>st_CreateAt := unix now\<rparr>))"
    if "sc_NodeIP cfg = []" "nodeip m1 \<noteq> []"
  proof -
    have ip: "nodeip m1 = ip" "NodeIP ne cfg m1 = (ip, m1)"
      using n that by (auto simp: NodeIP_def Let_def split: if_splits option.splits)
    have "fst (NodeIP ne cfg m) = ip"
      using n by (auto simp: NodeIP_def Let_def split: if_splits option.splits)
    then obtain tok where t: "seal (d\<lparr>st_CreateAt := unix now\<rparr>) = Inr tok"
      using assms(3) by (cases "seal (d\<lparr>st_CreateAt := unix now\<rparr>)") (auto simp: d_def)
    have "call_sticky seal unseal ne cfg now created x name token m1 =
        (RunLocal d (if 0 < sc_Expire cfg \<and> unix now - unix t0 > sc_Expire cfg div (2 * second)
           then Some tok else None), m1)"
      using ip t by (simp add: call_sticky_def st d_def)
    then show ?thesis using assms(2) t
      by (intro exI [of _ d] exI [of _ "if 0 < sc_Expire cfg \<and> unix now - unix t0 > sc_Expire cfg div (2 * second)
           then Some tok else None"]) (auto simp: d_def)
  qed
  show ?thesis using refused lost local by blast
qed

lemma gpu_unseal_seal: "gpu_seal d = Inr tok \<Longrightarrow> gpu_unseal tok = Inr d"
proof -
  assume "gpu_seal d = Inr tok"
  then have t: "tok = join_with [CHR ''/''] [st_NodeIP d, st_Name d, st_SessionID d, itoa (st_CreateAt d)]"
    and c: "CHR ''/'' \<notin> set (st_NodeIP d @ st_Name d @ st_SessionID d)" "in_int64 (st_CreateAt d)"
    by (auto simp: gpu_seal_def split: if_splits)
  have "CHR ''/'' \<notin> set (itoa (st_CreateAt d))" using itoa_chars [of "CHR ''/''"] by (auto simp: is_digit_def)
  with c t have "split_on CHR ''/'' tok = [st_NodeIP d, st_Name d, st_SessionID d, itoa (st_CreateAt d)]"
    by (simp only: t) (rule split_on_join, auto)
  then show ?thesis using c by (simp add: gpu_unseal_def atoi_itoa)
qed

text \<open>The same request on a node that found its address and on one that was given the same address.\<close>

definition fixed_cfg :: sessionConfig where
  "fixed_cfg = gpu_cfg\<lparr>sc_NodeIP := ''10.0.0.7:8000''\<rparr>"

theorem sticky_routing_witness:
  fixes m :: "unit sessionManager"
  defines "token \<equiv> ''10.0.0.7:8000/job/s1/0''"
  shows "(\<exists>d m1. nodeip m1 = ''10.0.0.7:8000'' \<and> call_sticky gpu_seal gpu_unseal gpu_net gpu_cfg (60 * second) (Inr [])
      [] ''job'' token m1 = (RunLocal d None, m1 :: unit sessionManager)) \<and>
    (\<exists>m1. call_sticky gpu_seal gpu_unseal gpu_net fixed_cfg (60 * second) (Inr []) [] ''job'' token
      (m1 :: unit sessionManager) = (ProxyTo ''10.0.0.7:8000'', m1))"
proof
  have itoa0: "itoa 0 = ''0''" by code_simp
  obtain r1 q1 m1 where c1: "create_session gpu_seal gpu_net gpu_cfg 0 ''s1'' ''job'' [] (session_setup :: unit sessionManager) = (r1, q1, m1)"
    by (metis prod_cases3)
  then have 1: "r1 = Inr token" "nodeip m1 = ''10.0.0.7:8000''"
    by (auto simp: gpu_defs Let_def token_def itoa0)
  have "\<exists>d renewed. call_sticky gpu_seal gpu_unseal gpu_net gpu_cfg (60 * second) (Inr []) [] ''job'' token m1 =
      (RunLocal d renewed, m1) \<and> renewed = None"
    using sticky_routing [OF c1 [unfolded 1(1)], of gpu_unseal "60 * second" "Inr []" "[]" "''job''"] 1(2) gpu_unseal_seal
    by (fastforce simp: gpu_defs Let_def token_def)
  then show "\<exists>d m1. nodeip m1 = ''10.0.0.7:8000'' \<and> call_sticky gpu_seal gpu_unseal gpu_net gpu_cfg (60 * second) (Inr [])
      [] ''job'' token m1 = (RunLocal d None, m1 :: unit sessionManager)"
    using 1(2) by blast
  obtain r2 q2 m2 where c2: "create_session gpu_seal gpu_net fixed_cfg 0 ''s1'' ''job'' [] (session_setup :: unit sessionManager) = (r2, q2, m2)"
    by (metis prod_cases3)
  then have 2: "r2 = Inr token" by (auto simp: gpu_defs fixed_cfg_def token_def itoa0)
  have "call_sticky gpu_seal gpu_unseal gpu_net fixed_cfg (60 * second) (Inr []) [] ''job'' token m2 =
      (ProxyTo ''10.0.0.7:8000'', m2)"
    using sticky_routing [OF c2 [unfolded 2], of gpu_unseal "60 * second" "Inr []" "[]" "''job''"] gpu_unseal_seal
    by (fastforce simp: gpu_defs fixed_cfg_def Let_def token_def)
  then show "\<exists>m1. call_sticky gpu_seal gpu_unseal gpu_net fixed_cfg (60 * second) (Inr []) [] ''job'' token
      (m1 :: unit sessionManager) = (ProxyTo ''10.0.0.7:8000'', m1)" by blast
qed

end
