(* ===== verification/Login.thy ===== *)
theory Login
  imports Prelude
begin

section \<open>Who makes a request\<close>

text \<open>
  \<open>serve_login.go\<close>: \<open>user\<close> (access token, login cookie, CSRF token), \<open>userWithJWT\<close> with the
  \<open>OnAuthZ\<close> hooks of the extensions and the per-request cache, \<open>Claim\<close>, \<open>SessionID\<close> with the guest
  cookie, and the issuing functions. The JWT library is the record \<open>jwt_lib\<close>: verification against a
  public key, the basic token of \<open>GetJWTBasic\<close> and signing. A request answers \<open>Query\<close>, \<open>FormValue\<close>,
  \<open>Get\<close> and \<open>Cookies\<close> with the empty string for what it does not hold; a runtime without an HTTP
  request has none (\<open>None\<close>), and using it panics, which is the outcome \<open>None\<close>.
\<close>

record jwt =
  jwt_aud :: string
  jwt_sub :: string
  jwt_name :: string
  jwt_raw :: bytes
  jwt_custom :: "bytes option"

record ('k, 'p) jwt_lib =
  verifyJWT :: "'k \<Rightarrow> string \<Rightarrow> string + jwt"
  getJWTBasic :: "string \<Rightarrow> duration \<Rightarrow> jwt"
  marshalJWT :: "'p option \<Rightarrow> jwt \<Rightarrow> string + string"
  publicOf :: "'p \<Rightarrow> 'k"

record cookieConfig =
  ck_Name :: string
  ck_Path :: string
  ck_Domain :: string
  ck_Expire :: duration
  ck_Secure :: bool
  ck_Httponly :: bool
  ck_SameSite :: string
  ck_JWTAudience :: string

record oauthConfig =
  oa_Expire :: duration
  oa_ExpireLong :: duration
  oa_QueryKey :: string
  oa_FormKey :: string
  oa_AuthBearer :: bool
  oa_JWTAudience :: string

record csrfTokenConfig =
  cs_Expire :: duration
  cs_QueryKey :: string
  cs_FormKey :: string
  cs_JWTAudience :: string

record ('k, 'p) loginConfig =
  cfg_Debug :: bool
  OAuth :: oauthConfig
  CSRFToken :: csrfTokenConfig
  LoginCookie :: cookieConfig
  GuestCookie :: cookieConfig
  PublicKey :: "'k option"
  PrivateKey :: "'p option"

definition login_setup :: "('k, 'p) jwt_lib \<Rightarrow> ('k, 'p) loginConfig \<Rightarrow> ('k, 'p) loginConfig" where
  "login_setup lib cfg =
     (case PrivateKey cfg of None \<Rightarrow> cfg | Some pk \<Rightarrow> cfg\<lparr>PublicKey := Some (publicOf lib pk)\<rparr>)"

subsection \<open>Cookies\<close>

record http_cookie =
  hc_name :: string
  hc_value :: string
  hc_path :: string
  hc_domain :: string
  hc_expires :: time
  hc_secure :: bool
  hc_httponly :: bool
  hc_samesite :: string

definition ToFiberCookie :: "cookieConfig \<Rightarrow> time \<Rightarrow> string \<Rightarrow> http_cookie" where
  "ToFiberCookie c now value =
     \<lparr>hc_name = ck_Name c, hc_value = value, hc_path = ck_Path c, hc_domain = ck_Domain c,
      hc_expires = now + ck_Expire c, hc_secure = ck_Secure c, hc_httponly = ck_Httponly c,
      hc_samesite = ck_SameSite c\<rparr>"

text \<open>The same for \<open>fasthttp\<close>, whose mode is one of three and otherwise stays unset (empty here).\<close>

definition ToFasthttpCookie :: "cookieConfig \<Rightarrow> time \<Rightarrow> string \<Rightarrow> http_cookie" where
  "ToFasthttpCookie c now value =
     (ToFiberCookie c now value)
       \<lparr>hc_samesite := (let m = to_lower (ck_SameSite c) in
          if m = ''strict'' then ''Strict'' else if m = ''lax'' then ''Lax''
          else if m = ''none'' then ''None'' else [])\<rparr>"

subsection \<open>Reading the credentials\<close>

record request =
  rq_query :: "string \<Rightarrow> string"
  rq_form :: "string \<Rightarrow> string"
  rq_header :: "string \<Rightarrow> string"
  rq_cookie :: "string \<Rightarrow> string"

datatype login_error = ErrNoPublicKey | ErrNotLoggedIn | ErrClaimNotFound | ErrRefused string | ErrClaims string

record requestCache =
  cachedLogin :: bool
  cachedUid :: string
  cachedName :: string
  cachedWritable :: bool
  cachedJWTBody :: "bytes option"
  cachedErr :: "login_error option"
  authorizedBy :: string
  sessionid :: string
  cachedClaims :: "(string \<rightharpoonup> string) option"

definition emptyCache :: requestCache where
  "emptyCache =
     \<lparr>cachedLogin = False, cachedUid = [], cachedName = [], cachedWritable = False, cachedJWTBody = None,
      cachedErr = None, authorizedBy = [], sessionid = [],
      cachedClaims = None\<rparr>"

definition verified :: "('k, 'p) jwt_lib \<Rightarrow> 'k \<Rightarrow> string \<Rightarrow> string \<Rightarrow> jwt option" where
  "verified lib pub token aud =
     (if token = [] then None
      else (case verifyJWT lib pub token of
              Inl _ \<Rightarrow> None
            | Inr jwt \<Rightarrow> if jwt_aud jwt = aud then Some jwt else None))"

definition access_token :: "oauthConfig \<Rightarrow> request \<Rightarrow> string" where
  "access_token oa req =
     (let tok = (if oa_QueryKey oa \<noteq> [] then rq_query req (oa_QueryKey oa) else []);
          tok = (if tok = [] \<and> oa_FormKey oa \<noteq> [] then rq_form req (oa_FormKey oa) else tok)
      in if tok = [] \<and> oa_AuthBearer oa then
           (let authheader = rq_header req ''Authorization'' in
            if prefix ''Bearer '' authheader then trim_space (drop 7 authheader) else tok)
         else tok)"

definition csrf_token :: "csrfTokenConfig \<Rightarrow> request \<Rightarrow> string" where
  "csrf_token cs req =
     (let tok = rq_header req ''X-CSRF-Token'';
          tok = (if tok = [] \<and> cs_FormKey cs \<noteq> [] then rq_form req (cs_FormKey cs) else tok)
      in if tok = [] \<and> cs_QueryKey cs \<noteq> [] then rq_query req (cs_QueryKey cs) else tok)"

text \<open>\<open>user\<close>: the token and whether it may write.\<close>

definition login_user ::
  "('k, 'p) jwt_lib \<Rightarrow> ('k, 'p) loginConfig \<Rightarrow> request \<Rightarrow> requestCache \<Rightarrow>
    (login_error + jwt \<times> bool) \<times> requestCache" where
  "login_user lib cfg req ca =
     (case PublicKey cfg of
        None \<Rightarrow> (Inl ErrNoPublicKey, ca)
      | Some pub \<Rightarrow>
          (case verified lib pub (access_token (OAuth cfg) req) (oa_JWTAudience (OAuth cfg)) of
             Some oauthjwt \<Rightarrow> (Inr (oauthjwt, True), ca\<lparr>authorizedBy := oa_JWTAudience (OAuth cfg)\<rparr>)
           | None \<Rightarrow>
               (case verified lib pub (rq_cookie req (ck_Name (LoginCookie cfg))) (ck_JWTAudience (LoginCookie cfg)) of
                  None \<Rightarrow> (Inl ErrNotLoggedIn, ca)
                | Some cookiejwt \<Rightarrow>
                    (case verified lib pub (csrf_token (CSRFToken cfg) req) (cs_JWTAudience (CSRFToken cfg)) of
                       Some csrfjwt \<Rightarrow>
                         if jwt_sub cookiejwt = jwt_sub csrfjwt
                         then (Inr (cookiejwt, True), ca\<lparr>authorizedBy := cs_JWTAudience (CSRFToken cfg)\<rparr>)
                         else (Inr (cookiejwt, False), ca\<lparr>authorizedBy := ck_JWTAudience (LoginCookie cfg)\<rparr>)
                     | None \<Rightarrow>
                         (Inr (cookiejwt, False), ca\<lparr>authorizedBy := ck_JWTAudience (LoginCookie cfg)\<rparr>)))))"

subsection \<open>The decision of a request\<close>

text \<open>
  \<open>OnAuthZ\<close> of the extensions, in order: each gets the token the one before returned (which may be
  nil) and may refuse.
\<close>

type_synonym authz_hook = "jwt option \<Rightarrow> login_error + jwt option"

fun run_hooks :: "authz_hook list \<Rightarrow> jwt option \<Rightarrow> login_error + jwt option" where
  "run_hooks [] jwt = Inr jwt"
| "run_hooks (h # hs) jwt = (case h jwt of Inl e \<Rightarrow> Inl e | Inr jwt' \<Rightarrow> run_hooks hs jwt')"

type_synonym login_result = "string \<times> string \<times> bool \<times> bytes option \<times> login_error option"

definition refuse :: "login_error \<Rightarrow> requestCache \<Rightarrow> (login_result \<times> requestCache) option" where
  "refuse e ca = Some (([], [], False, None, Some e), ca\<lparr>cachedLogin := True, cachedErr := Some e\<rparr>)"

definition userWithJWT ::
  "('k, 'p) jwt_lib \<Rightarrow> ('k, 'p) loginConfig \<Rightarrow> authz_hook list \<Rightarrow> request option \<Rightarrow> requestCache \<Rightarrow>
    (login_result \<times> requestCache) option" where
  "userWithJWT lib cfg hooks reqo ca =
     (case reqo of
        None \<Rightarrow> None
      | Some req \<Rightarrow>
          let du = rq_query req ''.user'' in
          if cfg_Debug cfg \<and> du \<noteq> [] then Some ((du, du, True, None, None), ca\<lparr>authorizedBy := ''debug''\<rparr>)
          else if cachedLogin ca then
            Some ((cachedUid ca, cachedName ca, cachedWritable ca, cachedJWTBody ca, cachedErr ca), ca)
          else
            (case login_user lib cfg req ca of
               (Inl e, ca') \<Rightarrow> refuse e ca'
             | (Inr (jwt, writable), ca') \<Rightarrow>
                 (case run_hooks hooks (Some jwt) of
                    Inl e \<Rightarrow> refuse e ca'
                  | Inr None \<Rightarrow> None
                  | Inr (Some jwt') \<Rightarrow>
                      (let ca'' = ca'\<lparr>cachedLogin := True, cachedUid := jwt_sub jwt', cachedName := jwt_name jwt',
                                      cachedWritable := writable, cachedJWTBody := Some (jwt_raw jwt')\<rparr>
                       in Some ((cachedUid ca'', cachedName ca'', cachedWritable ca'', cachedJWTBody ca'', cachedErr ca''), ca'')))))"

definition AssumeUser :: "string \<Rightarrow> string \<Rightarrow> bool \<Rightarrow> requestCache \<Rightarrow> requestCache" where
  "AssumeUser uid displayname writable ca =
     ca\<lparr>cachedLogin := True, cachedUid := uid, cachedName := displayname, cachedWritable := writable,
        authorizedBy := ''simulate''\<rparr>"

text \<open>
  \<open>jwtdecodedbyclaims\<close> of \<open>serve_request.go\<close>: the claims that are strings, numbers (in the notation of the
  token) or booleans. \<open>decode\<close> is the JSON decoder, which gives the members of the object.
\<close>

datatype json_claim = JString string | JNumber string | JBool bool | JOther

fun claim_string :: "json_claim \<Rightarrow> string option" where
  "claim_string (JString t) = Some t"
| "claim_string (JNumber t) = Some t"
| "claim_string (JBool b) = Some (if b then ''true'' else ''false'')"
| "claim_string JOther = None"

definition jwtdecodedbyclaims ::
  "(bytes \<Rightarrow> string + (string \<times> json_claim) list) \<Rightarrow> bytes option \<Rightarrow> requestCache \<Rightarrow>
    (login_error + (string \<rightharpoonup> string)) \<times> requestCache" where
  "jwtdecodedbyclaims decode jwtbody ca =
     (case cachedClaims ca of
        Some m \<Rightarrow> (Inr m, ca)
      | None \<Rightarrow>
          (case decode (case jwtbody of None \<Rightarrow> [] | Some b \<Rightarrow> b) of
             Inl e \<Rightarrow> (Inl (ErrClaims e), ca)
           | Inr m \<Rightarrow>
               let out = map_of (List.map_filter (\<lambda>(k, v). map_option (Pair k) (claim_string v)) m)
               in (Inr out, ca\<lparr>cachedClaims := Some out\<rparr>)))"

definition Claim ::
  "('k, 'p) jwt_lib \<Rightarrow> ('k, 'p) loginConfig \<Rightarrow> authz_hook list \<Rightarrow>
    (bytes \<Rightarrow> string + (string \<times> json_claim) list) \<Rightarrow>
    request option \<Rightarrow> requestCache \<Rightarrow> string \<Rightarrow> ((login_error + string) \<times> requestCache) option" where
  "Claim lib cfg hooks decode reqo ca key =
     (case userWithJWT lib cfg hooks reqo ca of
        None \<Rightarrow> None
      | Some ((_, _, _, jwtbody, Some e), ca') \<Rightarrow> Some (Inl e, ca')
      | Some ((_, _, _, jwtbody, None), ca') \<Rightarrow>
          (case jwtdecodedbyclaims decode jwtbody ca' of
             (Inl e, ca'') \<Rightarrow> Some (Inl e, ca'')
           | (Inr claims, ca'') \<Rightarrow>
               (case claims key of None \<Rightarrow> Some (Inl ErrClaimNotFound, ca'') | Some v \<Rightarrow> Some (Inr v, ca''))))"

subsection \<open>Issuing tokens and the guest session\<close>

definition IssueCSRFToken :: "('k, 'p) jwt_lib \<Rightarrow> ('k, 'p) loginConfig \<Rightarrow> string \<Rightarrow> string" where
  "IssueCSRFToken lib cfg uid =
     (case marshalJWT lib (PrivateKey cfg)
             ((getJWTBasic lib uid (cs_Expire (CSRFToken cfg)))\<lparr>jwt_aud := cs_JWTAudience (CSRFToken cfg)\<rparr>) of
        Inl _ \<Rightarrow> [] | Inr t \<Rightarrow> t)"

text \<open>A token for a named user; \<open>custom\<close> is the first custom map, when one is given.\<close>

definition named_jwt ::
  "('k, 'p) jwt_lib \<Rightarrow> string \<Rightarrow> string \<Rightarrow> duration \<Rightarrow> string \<Rightarrow> bytes option \<Rightarrow> jwt" where
  "named_jwt lib uid name expire aud custom =
     (let j = (getJWTBasic lib uid expire)\<lparr>jwt_aud := aud, jwt_name := name\<rparr>
      in case custom of None \<Rightarrow> j | Some m \<Rightarrow> j\<lparr>jwt_custom := Some m\<rparr>)"

definition IssueAccessToken ::
  "('k, 'p) jwt_lib \<Rightarrow> ('k, 'p) loginConfig \<Rightarrow> string \<Rightarrow> string \<Rightarrow> bytes option \<Rightarrow> string" where
  "IssueAccessToken lib cfg uid name custom =
     (case marshalJWT lib (PrivateKey cfg)
             (named_jwt lib uid name (oa_Expire (OAuth cfg)) (oa_JWTAudience (OAuth cfg)) custom) of
        Inl _ \<Rightarrow> [] | Inr t \<Rightarrow> t)"

definition IssueAPIKey ::
  "('k, 'p) jwt_lib \<Rightarrow> ('k, 'p) loginConfig \<Rightarrow> string \<Rightarrow> string \<Rightarrow> bytes option \<Rightarrow> string" where
  "IssueAPIKey lib cfg uid name custom =
     (case marshalJWT lib (PrivateKey cfg)
             (named_jwt lib uid name (oa_ExpireLong (OAuth cfg)) (oa_JWTAudience (OAuth cfg)) custom) of
        Inl _ \<Rightarrow> [] | Inr t \<Rightarrow> t)"

definition IssueLoginCookie ::
  "('k, 'p) jwt_lib \<Rightarrow> ('k, 'p) loginConfig \<Rightarrow> time \<Rightarrow> string \<Rightarrow> string \<Rightarrow> bytes option \<Rightarrow> http_cookie option" where
  "IssueLoginCookie lib cfg now uid name custom =
     (case marshalJWT lib (PrivateKey cfg)
             (named_jwt lib uid name (ck_Expire (LoginCookie cfg)) (ck_JWTAudience (LoginCookie cfg)) custom) of
        Inl _ \<Rightarrow> None | Inr t \<Rightarrow> Some (ToFiberCookie (LoginCookie cfg) now t))"

text \<open>
  \<open>SessionID(false)\<close>: the id kept by the request, the one of a valid guest cookie, or a new one
  (\<open>fresh\<close>, the \<open>uuid\<close>).
\<close>

definition guest_id ::
  "('k, 'p) jwt_lib \<Rightarrow> ('k, 'p) loginConfig \<Rightarrow> string \<Rightarrow> request option \<Rightarrow> requestCache \<Rightarrow>
    (string \<times> requestCache) option" where
  "guest_id lib cfg fresh reqo ca =
     (if sessionid ca \<noteq> [] then Some (sessionid ca, ca)
      else
        (case reqo of
           None \<Rightarrow> None
         | Some req \<Rightarrow>
             let found = (case PublicKey cfg of
                    None \<Rightarrow> None
                  | Some pub \<Rightarrow> verified lib pub (rq_cookie req (ck_Name (GuestCookie cfg))) (ck_JWTAudience (GuestCookie cfg)));
                 sid = (case found of None \<Rightarrow> [] | Some j \<Rightarrow> jwt_sub j);
                 sid = (if sid = [] then fresh else sid)
             in Some (sid, ca\<lparr>sessionid := sid\<rparr>)))"

definition IssueGuestCookie ::
  "('k, 'p) jwt_lib \<Rightarrow> ('k, 'p) loginConfig \<Rightarrow> time \<Rightarrow> string \<Rightarrow> request option \<Rightarrow> requestCache \<Rightarrow>
    (http_cookie option \<times> requestCache) option" where
  "IssueGuestCookie lib cfg now fresh reqo ca =
     (case guest_id lib cfg fresh reqo ca of
        None \<Rightarrow> None
      | Some (sid, ca') \<Rightarrow>
          (case marshalJWT lib (PrivateKey cfg)
                  ((getJWTBasic lib sid (ck_Expire (GuestCookie cfg)))\<lparr>jwt_aud := ck_JWTAudience (GuestCookie cfg)\<rparr>) of
             Inl _ \<Rightarrow> Some (None, ca')
           | Inr t \<Rightarrow> Some (Some (ToFiberCookie (GuestCookie cfg) now t), ca')))"

text \<open>\<open>SessionID(setcookie)\<close>: the id and the cookies set; setting a nil cookie panics.\<close>

definition SessionID ::
  "('k, 'p) jwt_lib \<Rightarrow> ('k, 'p) loginConfig \<Rightarrow> time \<Rightarrow> string \<Rightarrow> bool \<Rightarrow> request option \<Rightarrow> requestCache \<Rightarrow>
    (string \<times> requestCache \<times> http_cookie list) option" where
  "SessionID lib cfg now fresh setcookie reqo ca =
     (if sessionid ca \<noteq> [] then Some (sessionid ca, ca, [])
      else
        (case guest_id lib cfg fresh reqo ca of
           None \<Rightarrow> None
         | Some (sid, ca') \<Rightarrow>
             if setcookie then
               (case IssueGuestCookie lib cfg now fresh reqo ca' of
                  Some (Some cookie, ca'') \<Rightarrow> Some (sid, ca'', [cookie])
                | _ \<Rightarrow> None)
             else Some (sid, ca', [])))"

subsection \<open>Properties\<close>

lemma verified_Some:
  "verified lib pub tok aud = Some j \<longleftrightarrow> tok \<noteq> [] \<and> verifyJWT lib pub tok = Inr j \<and> jwt_aud j = aud"
  by (auto simp: verified_def split: sum.splits)

text \<open>The first text that is not empty: a token is looked for in several places, in an order.\<close>

definition first_text :: "string list \<Rightarrow> string" where
  "first_text ts = (case find (\<lambda>t. t \<noteq> []) ts of None \<Rightarrow> [] | Some t \<Rightarrow> t)"

lemma access_token_first:
  "access_token oa req = first_text
     [if oa_QueryKey oa = [] then [] else rq_query req (oa_QueryKey oa),
      if oa_FormKey oa = [] then [] else rq_form req (oa_FormKey oa),
      if oa_AuthBearer oa \<and> prefix ''Bearer '' (rq_header req ''Authorization'')
      then trim_space (drop 7 (rq_header req ''Authorization'')) else []]"
  by (auto simp: access_token_def first_text_def Let_def)

lemma csrf_token_first:
  "csrf_token cs req = first_text
     [rq_header req ''X-CSRF-Token'', if cs_FormKey cs = [] then [] else rq_form req (cs_FormKey cs),
      if cs_QueryKey cs = [] then [] else rq_query req (cs_QueryKey cs)]"
  by (auto simp: csrf_token_def first_text_def Let_def)

text \<open>Every hook, in order, accepts the token the one before it left.\<close>

fun let_through :: "authz_hook list \<Rightarrow> jwt option \<Rightarrow> jwt option \<Rightarrow> bool" where
  "let_through [] j j' \<longleftrightarrow> j' = j"
| "let_through (h # hs) j j' \<longleftrightarrow> (\<exists>k. h j = Inr k \<and> let_through hs k j')"

lemma run_hooks_iff: "run_hooks hs j = Inr j' \<longleftrightarrow> let_through hs j j'"
  by (induction hs arbitrary: j) (auto split: sum.split)

lemma login_user_cache:
  "login_user lib cfg req ca = (r, ca') \<Longrightarrow>
    cachedLogin ca' = cachedLogin ca \<and> cachedErr ca' = cachedErr ca \<and> cachedUid ca' = cachedUid ca \<and>
    cachedName ca' = cachedName ca \<and> cachedWritable ca' = cachedWritable ca \<and> cachedJWTBody ca' = cachedJWTBody ca"
  by (auto simp: login_user_def split: option.splits if_splits)

lemma login_user_iff:
  assumes "PublicKey cfg = Some pub"
  shows "fst (login_user lib cfg req ca) = Inr (j, w) \<longleftrightarrow>
    (let acc = verified lib pub (access_token (OAuth cfg) req) (oa_JWTAudience (OAuth cfg));
         same = (\<exists>cj. verified lib pub (csrf_token (CSRFToken cfg) req) (cs_JWTAudience (CSRFToken cfg)) = Some cj \<and>
                  jwt_sub cj = jwt_sub j)
     in if acc \<noteq> None then acc = Some j \<and> w
        else verified lib pub (rq_cookie req (ck_Name (LoginCookie cfg))) (ck_JWTAudience (LoginCookie cfg)) = Some j \<and>
          w = same)"
  using assms by (auto simp: login_user_def Let_def split: option.splits)

text \<open>C15. Outside the debug backdoor, a request that has not decided yet (and is answered: a hook that leaves no token makes it
  panic) makes its user a writer exactly when a public key is known and every \<open>OnAuthZ\<close> hook in turn accepted
  either a verified access token of the OAuth audience - the first text found in the query, the form and the bearer
  header - or, without one, a verified login cookie of the cookie's audience that comes with a verified CSRF token of the CSRF
  audience - the first text in header, form and query - of the same subject; the user is then the subject of the token the
  hooks left. A login cookie without such a CSRF token makes its user a reader. The decision is final for
  the request: asking again, whatever the hooks and the JWT library would say then, gives the same answer.\<close>

theorem login_write_requires_proof:
  assumes "\<not> (cfg_Debug cfg \<and> rq_query req ''.user'' \<noteq> [])" and "\<not> cachedLogin ca"
    and "cachedErr ca = None" "cachedUid ca = []" "cachedName ca = []" "\<not> cachedWritable ca" "cachedJWTBody ca = None"
    and "userWithJWT lib cfg hooks (Some req) ca = Some ((uid, name, writable, body, err), ca')"
  shows "let oa = OAuth cfg; cs = CSRFToken cfg; ck = LoginCookie cfg; bearer = rq_header req ''Authorization'';
      valid = (\<lambda>tok aud j. \<exists>pub. PublicKey cfg = Some pub \<and> tok \<noteq> [] \<and> verifyJWT lib pub tok = Inr j \<and> jwt_aud j = aud);
      access = first_text [if oa_QueryKey oa = [] then [] else rq_query req (oa_QueryKey oa),
        if oa_FormKey oa = [] then [] else rq_form req (oa_FormKey oa),
        if oa_AuthBearer oa \<and> prefix ''Bearer '' bearer then trim_space (drop 7 bearer) else []];
      csrf = first_text [rq_header req ''X-CSRF-Token'', if cs_FormKey cs = [] then [] else rq_form req (cs_FormKey cs),
        if cs_QueryKey cs = [] then [] else rq_query req (cs_QueryKey cs)];
      by_access = (\<lambda>j. valid access (oa_JWTAudience oa) j);
      by_cookie = (\<lambda>j. (\<nexists>i. by_access i) \<and> valid (rq_cookie req (ck_Name ck)) (ck_JWTAudience ck) j);
      by_csrf = (\<lambda>j. \<exists>cj. valid csrf (cs_JWTAudience cs) cj \<and> jwt_sub cj = jwt_sub j)
    in (writable \<longleftrightarrow> (\<exists>j j'. (by_access j \<or> by_cookie j \<and> by_csrf j) \<and> let_through hooks (Some j) (Some j'))) \<and>
      (\<forall>j j'. (by_access j \<or> by_cookie j) \<and> let_through hooks (Some j) (Some j') \<longrightarrow>
        uid = jwt_sub j' \<and> name = jwt_name j' \<and> body = Some (jwt_raw j') \<and> err = None \<and>
        (writable \<longleftrightarrow> by_access j \<or> by_csrf j)) \<and>
      userWithJWT lib' cfg hooks' (Some req) ca' = Some ((uid, name, writable, body, err), ca')"
proof -
  obtain r ca1 where lu: "login_user lib cfg req ca = (r, ca1)" by fastforce
  note cc = login_user_cache [OF lu]
  have u: "userWithJWT lib cfg hooks (Some req) ca =
      (case r of Inl e \<Rightarrow> refuse e ca1
       | Inr (jwt, w) \<Rightarrow> (case run_hooks hooks (Some jwt) of
           Inl e \<Rightarrow> refuse e ca1 | Inr None \<Rightarrow> None
         | Inr (Some j') \<Rightarrow> Some ((jwt_sub j', jwt_name j', w, Some (jwt_raw j'), cachedErr ca1),
             ca1\<lparr>cachedLogin := True, cachedUid := jwt_sub j', cachedName := jwt_name j', cachedWritable := w,
                 cachedJWTBody := Some (jwt_raw j')\<rparr>)))"
    using assms(1,2) lu by (auto simp: userWithJWT_def Let_def split: sum.splits option.splits)
  let ?oa = "OAuth cfg" and ?cs = "CSRFToken cfg" and ?ck = "LoginCookie cfg"
  let ?valid = "\<lambda>tok aud j. \<exists>pub. PublicKey cfg = Some pub \<and> tok \<noteq> [] \<and> verifyJWT lib pub tok = Inr j \<and> jwt_aud j = aud"
  define acc where "acc j = ?valid (access_token ?oa req) (oa_JWTAudience ?oa) j" for j
  define coo where "coo j = ((\<nexists>i. acc i) \<and> ?valid (rq_cookie req (ck_Name ?ck)) (ck_JWTAudience ?ck) j)" for j
  define csr where "csr j = (\<exists>cj. ?valid (csrf_token ?cs req) (cs_JWTAudience ?cs) cj \<and> jwt_sub cj = jwt_sub j)" for j :: jwt
  have found: "r = Inr (j, w) \<longleftrightarrow> (acc j \<and> w) \<or> (coo j \<and> w = csr j)" for j w
  proof (cases "PublicKey cfg")
    case None
    then show ?thesis using lu by (auto simp: login_user_def acc_def coo_def)
  next
    case (Some pub)
    have V: "?valid tok aud j = (verified lib pub tok aud = Some j)" for tok aud j
      using Some by (auto simp: verified_Some)
    have "r = fst (login_user lib cfg req ca)" using lu by simp
    then show ?thesis
      unfolding acc_def coo_def csr_def V by (auto simp: login_user_iff [OF Some] Let_def)
  qed
  have one: "uid = jwt_sub j' \<and> name = jwt_name j' \<and> body = Some (jwt_raw j') \<and> err = None \<and> (writable \<longleftrightarrow> acc j \<or> csr j)"
    if "acc j \<or> coo j" "let_through hooks (Some j) (Some j')" for j j'
  proof -
    have "r = Inr (j, acc j \<or> csr j)"
    proof (cases "acc j")
      case False
      then have "coo j" using that(1) by simp
      with False show ?thesis by (simp add: found)
    qed (simp add: found)
    with u assms(3,8) cc that(2) show ?thesis by (simp add: run_hooks_iff [symmetric])
  qed
  have writer: "writable \<longleftrightarrow> (\<exists>j j'. (acc j \<or> coo j \<and> csr j) \<and> let_through hooks (Some j) (Some j'))"
  proof
    assume w: writable
    obtain j j' where "r = Inr (j, True)" "run_hooks hooks (Some j) = Inr (Some j')"
      using u w assms(8) by (auto simp: refuse_def split: sum.splits option.splits)
    then show "\<exists>j j'. (acc j \<or> coo j \<and> csr j) \<and> let_through hooks (Some j) (Some j')"
      by (auto simp: found run_hooks_iff)
  next
    assume "\<exists>j j'. (acc j \<or> coo j \<and> csr j) \<and> let_through hooks (Some j) (Some j')"
    with one show writable by blast
  qed
  have "userWithJWT lib' cfg hooks' (Some req) ca' = Some ((uid, name, writable, body, err), ca')"
    using u assms cc by (auto simp: refuse_def userWithJWT_def Let_def split: sum.splits option.splits)
  with writer one show ?thesis
    unfolding Let_def access_token_first [symmetric] csrf_token_first [symmetric]
      acc_def [symmetric] coo_def [symmetric] csr_def [symmetric] by blast
qed

text \<open>A library whose tokens are their audience, subject and name, separated by colons.\<close>

definition text_jwt_lib :: "(unit, unit) jwt_lib" where
  "text_jwt_lib =
     \<lparr>verifyJWT = (\<lambda>_ t. case split_on CHR '':'' t of
          [a, s, n] \<Rightarrow> Inr \<lparr>jwt_aud = a, jwt_sub = s, jwt_name = n, jwt_raw = t, jwt_custom = None\<rparr>
        | _ \<Rightarrow> Inl ''malformed''),
      getJWTBasic = (\<lambda>s _. \<lparr>jwt_aud = [], jwt_sub = s, jwt_name = [], jwt_raw = [], jwt_custom = None\<rparr>),
      marshalJWT = (\<lambda>k j. if k = None \<or> CHR '':'' \<in> set (jwt_aud j @ jwt_sub j @ jwt_name j) then Inl ''cannot sign''
        else Inr (join_with '':'' [jwt_aud j, jwt_sub j, jwt_name j])),
      publicOf = id\<rparr>"

definition text_cookie :: "string \<Rightarrow> string \<Rightarrow> cookieConfig" where
  "text_cookie name aud =
     \<lparr>ck_Name = name, ck_Path = ''/'', ck_Domain = [], ck_Expire = 3600 * second, ck_Secure = False,
      ck_Httponly = True, ck_SameSite = ''Lax'', ck_JWTAudience = aud\<rparr>"

definition text_login :: "(unit, unit) loginConfig" where
  "text_login = login_setup text_jwt_lib
     \<lparr>cfg_Debug = False,
      OAuth = \<lparr>oa_Expire = 3600 * second, oa_ExpireLong = 315360000 * second, oa_QueryKey = ''access_token'',
               oa_FormKey = ''access_token'', oa_AuthBearer = True, oa_JWTAudience = ''access_token''\<rparr>,
      CSRFToken = \<lparr>cs_Expire = 3600 * second, cs_QueryKey = ''csrf_token'', cs_FormKey = ''csrf_token'',
                   cs_JWTAudience = ''csrf_token''\<rparr>,
      LoginCookie = text_cookie ''allino_login'' ''cookie'', GuestCookie = text_cookie ''allino_guest'' ''guest'',
      PublicKey = None, PrivateKey = Some ()\<rparr>"

definition text_request :: "(string \<times> string) list \<Rightarrow> (string \<times> string) list \<Rightarrow> request" where
  "text_request headers cookies =
     (let get = (\<lambda>m k. case map_of m k of None \<Rightarrow> [] | Some v \<Rightarrow> v)
      in \<lparr>rq_query = (\<lambda>_. []), rq_form = (\<lambda>_. []), rq_header = get headers, rq_cookie = get cookies\<rparr>)"

lemmas text_login_defs = text_login_def text_jwt_lib_def text_cookie_def login_setup_def text_request_def
  emptyCache_def

text \<open>The login cookie and the CSRF token the issuing functions make for a user.\<close>

definition csrf_request :: request where
  "csrf_request = text_request
     [(''X-CSRF-Token'', IssueCSRFToken text_jwt_lib text_login ''alice'')]
     [(''allino_login'', hc_value (the (IssueLoginCookie text_jwt_lib text_login 0 ''alice'' ''Alice'' None)))]"

lemma csrf_request_eval:
  "csrf_request = text_request [(''X-CSRF-Token'', ''csrf_token:alice:'')] [(''allino_login'', ''cookie:alice:Alice'')]"
  by (simp add: csrf_request_def IssueCSRFToken_def IssueLoginCookie_def named_jwt_def ToFiberCookie_def
    text_login_def text_jwt_lib_def text_cookie_def login_setup_def Let_def)

theorem login_write_requires_proof_witness:
  "\<exists>body ca'. userWithJWT text_jwt_lib text_login [Inr] (Some csrf_request) emptyCache =
      Some ((''alice'', ''Alice'', True, body, None), ca') \<and>
    userWithJWT text_jwt_lib text_login [\<lambda>_. Inl ErrNotLoggedIn] (Some csrf_request) ca' =
      Some ((''alice'', ''Alice'', True, body, None), ca')"
proof -
  have "\<exists>body ca'. userWithJWT text_jwt_lib text_login [Inr] (Some csrf_request) emptyCache =
      Some ((''alice'', ''Alice'', True, body, None), ca')"
    by (simp add: csrf_request_eval userWithJWT_def login_user_def verified_def access_token_def csrf_token_def
      text_login_defs Let_def)
  then obtain body ca' where u: "userWithJWT text_jwt_lib text_login [Inr] (Some csrf_request) emptyCache =
      Some ((''alice'', ''Alice'', True, body, None), ca')" by blast
  have ok: "\<not> (cfg_Debug text_login \<and> rq_query csrf_request ''.user'' \<noteq> [])" "\<not> cachedLogin emptyCache"
    "cachedErr emptyCache = None" "cachedUid emptyCache = []" "cachedName emptyCache = []" "\<not> cachedWritable emptyCache"
    "cachedJWTBody emptyCache = None"
    by (simp_all add: text_login_defs)
  from login_write_requires_proof [OF ok u, of text_jwt_lib "[\<lambda>_. Inl ErrNotLoggedIn]"]
  have "userWithJWT text_jwt_lib text_login [\<lambda>_. Inl ErrNotLoggedIn] (Some csrf_request) ca' =
      Some ((''alice'', ''Alice'', True, body, None), ca')"
    unfolding Let_def by (elim conjE)
  with u show ?thesis by blast
qed

text \<open>The guest session survives between requests: with a JWT library whose tokens verify as they were
  signed, the cookie \<open>SessionID(true)\<close> sets on a new visitor makes the next request of that visitor, whatever
  id it would have drawn itself, return the same session id; within a request the id does not change and no second
  cookie is set. When the private key cannot sign, asking for the cookie panics.\<close>

theorem guest_session_roundtrip:
  assumes "PublicKey cfg = Some pub" "fresh \<noteq> []" "sessionid ca = []" "sessionid ca2 = []"
    and "\<forall>s e aud tok. marshalJWT lib (PrivateKey cfg) ((getJWTBasic lib s e)\<lparr>jwt_aud := aud\<rparr>) = Inr tok \<longrightarrow>
      tok \<noteq> [] \<and> (\<exists>j. verifyJWT lib pub tok = Inr j \<and> jwt_sub j = s \<and> jwt_aud j = aud)"
    and "rq_cookie req2 (ck_Name (GuestCookie cfg)) =
      hc_value (hd (snd (snd (the (SessionID lib cfg now fresh True (Some req) ca)))))"
  shows "case SessionID lib cfg now fresh True (Some req) ca of
      None \<Rightarrow> \<exists>s e. marshalJWT lib (PrivateKey cfg) ((getJWTBasic lib s e)\<lparr>jwt_aud := ck_JWTAudience (GuestCookie cfg)\<rparr>) \<in> range Inl
    | Some (sid, ca', cookies) \<Rightarrow> sid \<noteq> [] \<and> length cookies = 1 \<and>
        (\<forall>b fresh2. SessionID lib cfg now fresh2 b (Some req) ca' = Some (sid, ca', [])) \<and>
        (\<forall>b now2 fresh2. map_option fst (SessionID lib cfg now2 fresh2 b (Some req2) ca2) = Some sid)"
proof -
  define c where "c = GuestCookie cfg"
  define sign where "sign s = marshalJWT lib (PrivateKey cfg) ((getJWTBasic lib s (ck_Expire c))\<lparr>jwt_aud := ck_JWTAudience c\<rparr>)" for s
  obtain sid ca1 where g: "guest_id lib cfg fresh (Some req) ca = Some (sid, ca1)" "sid \<noteq> []" "sessionid ca1 = sid"
    using assms(1-3) by (auto simp: guest_id_def Let_def split: option.splits if_splits)
  have S: "SessionID lib cfg now fresh True (Some req) ca =
      (case sign sid of Inl _ \<Rightarrow> None | Inr t \<Rightarrow> Some (sid, ca1, [ToFiberCookie c now t]))"
    using assms(3) g by (simp add: SessionID_def IssueGuestCookie_def guest_id_def sign_def c_def split: sum.splits)
  show ?thesis
  proof (cases "sign sid")
    case (Inl e)
    then have "marshalJWT lib (PrivateKey cfg) ((getJWTBasic lib sid (ck_Expire c))\<lparr>jwt_aud := ck_JWTAudience c\<rparr>) \<in> range Inl"
      by (simp add: sign_def)
    with Inl show ?thesis unfolding S c_def by auto
  next
    case (Inr t)
    from assms(5) Inr obtain j where j: "t \<noteq> []" "verifyJWT lib pub t = Inr j" "jwt_sub j = sid" "jwt_aud j = ck_JWTAudience c"
      unfolding sign_def by blast
    have "rq_cookie req2 (ck_Name c) = t" using assms(6) Inr by (simp add: S c_def ToFiberCookie_def)
    then have g2: "guest_id lib cfg fresh2 (Some req2) ca2 = Some (sid, ca2\<lparr>sessionid := sid\<rparr>)" for fresh2
      using assms(1,4) j g(2) by (simp add: guest_id_def verified_def c_def Let_def)
    have "map_option fst (SessionID lib cfg now2 fresh2 b (Some req2) ca2) = Some sid" for b now2 fresh2
      using assms(4) g2 Inr g(2) by (cases b) (simp_all add: SessionID_def IssueGuestCookie_def guest_id_def sign_def c_def)
    moreover have "SessionID lib cfg now fresh2 b (Some req) ca1 = Some (sid, ca1, [])" for b fresh2
      using g by (simp add: SessionID_def)
    ultimately show ?thesis using Inr g(2) unfolding S by simp
  qed
qed

theorem guest_session_roundtrip_witness:
  "case SessionID text_jwt_lib text_login 0 ''guest1'' True (Some (text_request [] [])) emptyCache of
      None \<Rightarrow> False
    | Some (sid, ca', cookies) \<Rightarrow> sid = ''guest1'' \<and>
        map_option fst (SessionID text_jwt_lib text_login 5 ''guest2'' True
          (Some (text_request [] [(''allino_guest'', hc_value (hd cookies))])) emptyCache) = Some sid"
proof -
  define S where "S = SessionID text_jwt_lib text_login 0 ''guest1'' True (Some (text_request [] [])) emptyCache"
  define req2 where "req2 = text_request [] [(''allino_guest'', hc_value (hd (snd (snd (the S)))))]"
  have lib: "\<forall>s e aud tok. marshalJWT text_jwt_lib (PrivateKey text_login) ((getJWTBasic text_jwt_lib s e)\<lparr>jwt_aud := aud\<rparr>) = Inr tok \<longrightarrow>
      tok \<noteq> [] \<and> (\<exists>j. verifyJWT text_jwt_lib () tok = Inr j \<and> jwt_sub j = s \<and> jwt_aud j = aud)"
    by (auto simp: text_jwt_lib_def split_on_sep split_on_no_sep)
  have S: "\<exists>ca' cookies. S = Some (''guest1'', ca', cookies)"
    by (simp add: S_def SessionID_def guest_id_def IssueGuestCookie_def verified_def text_login_defs Let_def)
  from guest_session_roundtrip [of text_login "()" "''guest1''" emptyCache emptyCache text_jwt_lib req2 0 "text_request [] []", OF _ _ _ _ lib]
    S show ?thesis
    unfolding S_def [symmetric] by (auto simp: req2_def text_login_defs)
qed

end
