(* ===== verification/Acl.thy ===== *)
theory Acl
  imports Prelude
begin

section \<open>Access control: placeholders, input variables and the decision\<close>

text \<open>
  \<open>serve_casbin.go\<close>: \<open>expandACLTemplate\<close> (two regular-expression passes over the template),
  \<open>aclVars\<close> with \<open>collectACLVals\<close>, \<open>fieldBaseKind\<close>, \<open>fieldBaseType\<close> and \<open>aclValueString\<close>
  (reflection over the handler's input), and \<open>enforceACL\<close>. The Casbin enforcer is an argument of
  \<open>enforceACL\<close>, as are the results of \<open>r.User()\<close> and \<open>r.Claim(...)\<close>.
\<close>

subsection \<open>Templates\<close>

definition ident_start :: "char \<Rightarrow> bool" where
  "ident_start c \<longleftrightarrow> (let n = (of_char c :: nat) in 65 \<le> n \<and> n \<le> 90 \<or> 97 \<le> n \<and> n \<le> 122 \<or> n = 95)"

definition ident_char :: "char \<Rightarrow> bool" where
  "ident_char c \<longleftrightarrow> ident_start c \<or> is_digit c"

definition is_ident :: "string \<Rightarrow> bool" where
  "is_ident s \<longleftrightarrow> s \<noteq> [] \<and> ident_start (hd s) \<and> list_all ident_char s"

text \<open>
  \<open>aclBraceVarRe\<close> and \<open>aclColonVarRe\<close> at the start of a string: the captured name and the length
  of the match. The name is the longest run of identifier characters.
\<close>

definition aclBraceVarRe :: "string \<Rightarrow> (string \<times> nat) option" where
  "aclBraceVarRe s =
     (case s of
        [] \<Rightarrow> None
      | c # rest \<Rightarrow>
          let name = takeWhile ident_char rest; after = dropWhile ident_char rest in
          if c = CHR ''{'' \<and> is_ident name \<and> after \<noteq> [] \<and> hd after = CHR ''}''
          then Some (name, length name + 2) else None)"

definition aclColonVarRe :: "string \<Rightarrow> (string \<times> nat) option" where
  "aclColonVarRe s =
     (case s of
        [] \<Rightarrow> None
      | c # rest \<Rightarrow>
          let name = takeWhile ident_char rest in
          if c = CHR '':'' \<and> is_ident name then Some (name, length name + 1) else None)"

text \<open>
  \<open>ReplaceAllStringFunc\<close> with the closure of \<open>expandACLTemplate\<close>: \<open>skip\<close> characters of the current
  match are still to be passed over, and \<open>missing\<close> is the last name that has no value.
\<close>

fun replace_vars ::
  "(string \<Rightarrow> (string \<times> nat) option) \<Rightarrow> (string \<rightharpoonup> string) \<Rightarrow> string \<Rightarrow> nat \<Rightarrow> string \<Rightarrow> string \<times> string" where
  "replace_vars re vars missing skip [] = ([], missing)"
| "replace_vars re vars missing skip (c # s) =
     (if skip > 0 then replace_vars re vars missing (skip - 1) s
      else
        (case re (c # s) of
           None \<Rightarrow> (let (out, m) = replace_vars re vars missing 0 s in (c # out, m))
         | Some (name, len) \<Rightarrow>
             (case vars name of
                Some value \<Rightarrow>
                  (let (out, m) = replace_vars re vars missing (len - 1) s in (value @ out, m))
              | None \<Rightarrow>
                  (let (out, m) = replace_vars re vars name (len - 1) s in (take len (c # s) @ out, m)))))"

datatype acl_error = ErrCasbinNotConfigured | ErrACLVariableMissing | ErrACLForbidden | AclError string

definition expandACLTemplate :: "string \<Rightarrow> (string \<rightharpoonup> string) \<Rightarrow> acl_error + string" where
  "expandACLTemplate tmpl vars =
     (let (out, missing) = replace_vars aclBraceVarRe vars [] 0 tmpl;
          (out, missing) = replace_vars aclColonVarRe vars missing 0 out
      in if missing \<noteq> [] then Inl ErrACLVariableMissing else Inr out)"

subsection \<open>Variables of the input\<close>

text \<open>
  A Go value as reflection shows it: a struct carries what \<open>fmt.Sprint\<close> prints of it and its fields
  (name, exported, embedded, \<open>acl\<close> tag, value); a \<open>time.Time\<close> is told apart; every other kind only
  prints. \<open>GPtr\<close> is a non-nil pointer or interface.
\<close>

datatype gval = GInvalid | GNil | GPtr gval | GStruct string "gfield list" | GTime string | GScalar string
and gfield = GField string bool bool "string option" gval

fun deref :: "gval \<Rightarrow> gval" where
  "deref (GPtr v) = deref v"
| "deref v = v"

text \<open>\<open>fieldBaseKind(fv) == reflect.Struct && fieldBaseType(fv) != tTime\<close>.\<close>

definition plain_struct :: "gval \<Rightarrow> bool" where
  "plain_struct v = (case deref v of GStruct _ _ \<Rightarrow> True | _ \<Rightarrow> False)"

text \<open>\<open>aclValueString\<close>; \<open>exported\<close> is \<open>CanInterface\<close>.\<close>

definition aclValueString :: "bool \<Rightarrow> gval \<Rightarrow> string option" where
  "aclValueString exported v =
     (case deref v of
        GInvalid \<Rightarrow> None | GNil \<Rightarrow> None | GPtr _ \<Rightarrow> None
      | GStruct s _ \<Rightarrow> if exported then Some s else None
      | GTime s \<Rightarrow> if exported then Some s else None
      | GScalar s \<Rightarrow> if exported then Some s else None)"

definition tag_var :: "gfield \<Rightarrow> (string \<rightharpoonup> string) \<Rightarrow> (string \<rightharpoonup> string)" where
  "tag_var f vars =
     (case f of GField fname exported anon acl v \<Rightarrow>
        (case acl of
           None \<Rightarrow> vars
         | Some tag \<Rightarrow>
             (case aclValueString exported v of
                None \<Rightarrow> vars
              | Some value \<Rightarrow> vars((if tag = [] then fname else tag) \<mapsto> value))))"

fun collectACLVals :: "gval \<Rightarrow> (string \<rightharpoonup> string) \<Rightarrow> (string \<rightharpoonup> string)"
  and collect_fields :: "gfield list \<Rightarrow> (string \<rightharpoonup> string) \<Rightarrow> (string \<rightharpoonup> string)" where
  "collectACLVals (GPtr v) vars = collectACLVals v vars"
| "collectACLVals (GStruct _ fs) vars = collect_fields fs vars"
| "collectACLVals GInvalid vars = vars"
| "collectACLVals GNil vars = vars"
| "collectACLVals (GTime _) vars = vars"
| "collectACLVals (GScalar _) vars = vars"
| "collect_fields [] vars = vars"
| "collect_fields (GField fname exported anon acl v # fs) vars =
     (if \<not> exported \<and> \<not> anon then collect_fields fs vars
      else
        collect_fields fs
          (tag_var (GField fname exported anon acl v)
             (if anon \<or> acl = None \<and> plain_struct v then collectACLVals v vars else vars)))"

definition aclVars :: "gval \<Rightarrow> (string \<rightharpoonup> string)" where
  "aclVars input = collectACLVals input Map.empty"

subsection \<open>The decision\<close>

record acl_opt =
  ACLResource :: string
  ACLAction :: string

text \<open>\<open>None\<close> is the nil error: the call may go on.\<close>

definition enforceACL ::
  "acl_opt option \<Rightarrow> (string \<Rightarrow> string \<Rightarrow> string \<Rightarrow> string \<Rightarrow> string + bool) option \<Rightarrow>
    string + string \<Rightarrow> string + string \<Rightarrow> gval \<Rightarrow> acl_error option" where
  "enforceACL opt enforcer user tenantClaim input =
     (case opt of
        None \<Rightarrow> None
      | Some o' \<Rightarrow>
          if ACLResource o' = [] then None
          else
            (case enforcer of
               None \<Rightarrow> Some ErrCasbinNotConfigured
             | Some enforce \<Rightarrow>
                 (case user of
                    Inl e \<Rightarrow> Some (AclError e)
                  | Inr uid \<Rightarrow>
                      (case tenantClaim of
                         Inl e \<Rightarrow> Some (AclError e)
                       | Inr tenant \<Rightarrow>
                           if tenant = [] then Some ErrACLForbidden
                           else
                             let vars = aclVars input in
                             (case expandACLTemplate (ACLResource o') vars of
                                Inl e \<Rightarrow> Some e
                              | Inr resource \<Rightarrow>
                                  (case expandACLTemplate (ACLAction o') vars of
                                     Inl e \<Rightarrow> Some e
                                   | Inr action \<Rightarrow>
                                       (case enforce tenant uid resource
                                               (if action = [] then ''access'' else action) of
                                          Inl e \<Rightarrow> Some (AclError e)
                                        | Inr allowed \<Rightarrow>
                                            if allowed then None else Some ErrACLForbidden)))))))"

subsection \<open>What a template denotes\<close>

text \<open>
  A template as its segments. A literal holds no opening brace and no colon; a colon placeholder is
  followed by something that does not continue its name.
\<close>

datatype acl_seg = Lit string | Brace string | Colon string

fun render_segs :: "acl_seg list \<Rightarrow> string" where
  "render_segs [] = []"
| "render_segs (Lit l # ss) = l @ render_segs ss"
| "render_segs (Brace n # ss) = CHR ''{'' # n @ CHR ''}'' # render_segs ss"
| "render_segs (Colon n # ss) = CHR '':'' # n @ render_segs ss"

definition breaks_ident :: "acl_seg list \<Rightarrow> bool" where
  "breaks_ident ss =
     (case ss of
        [] \<Rightarrow> True | Colon _ # _ \<Rightarrow> True | Brace _ # _ \<Rightarrow> False
      | Lit l # _ \<Rightarrow> l \<noteq> [] \<and> \<not> ident_char (hd l))"

fun wf_segs :: "acl_seg list \<Rightarrow> bool" where
  "wf_segs [] \<longleftrightarrow> True"
| "wf_segs (Lit l # ss) \<longleftrightarrow> CHR ''{'' \<notin> set l \<and> CHR '':'' \<notin> set l \<and> wf_segs ss"
| "wf_segs (Brace n # ss) \<longleftrightarrow> is_ident n \<and> wf_segs ss"
| "wf_segs (Colon n # ss) \<longleftrightarrow> is_ident n \<and> breaks_ident ss \<and> wf_segs ss"

fun seg_vars :: "acl_seg list \<Rightarrow> string list" where
  "seg_vars [] = []"
| "seg_vars (Lit l # ss) = seg_vars ss"
| "seg_vars (Brace n # ss) = n # seg_vars ss"
| "seg_vars (Colon n # ss) = n # seg_vars ss"

fun subst_segs :: "(string \<rightharpoonup> string) \<Rightarrow> acl_seg list \<Rightarrow> string" where
  "subst_segs vars [] = []"
| "subst_segs vars (Lit l # ss) = l @ subst_segs vars ss"
| "subst_segs vars (Brace n # ss) = the (vars n) @ subst_segs vars ss"
| "subst_segs vars (Colon n # ss) = the (vars n) @ subst_segs vars ss"

text \<open>The template between the two passes, and the names each pass looks up.\<close>

fun mid_segs :: "(string \<rightharpoonup> string) \<Rightarrow> acl_seg list \<Rightarrow> string" where
  "mid_segs vars [] = []"
| "mid_segs vars (Lit l # ss) = l @ mid_segs vars ss"
| "mid_segs vars (Brace n # ss) =
     (case vars n of Some v \<Rightarrow> v | None \<Rightarrow> CHR ''{'' # n @ ''}'') @ mid_segs vars ss"
| "mid_segs vars (Colon n # ss) = CHR '':'' # n @ mid_segs vars ss"

fun brace_names :: "acl_seg list \<Rightarrow> string list" where
  "brace_names (Brace n # ss) = n # brace_names ss"
| "brace_names (_ # ss) = brace_names ss"
| "brace_names [] = []"

fun colon_names :: "acl_seg list \<Rightarrow> string list" where
  "colon_names (Colon n # ss) = n # colon_names ss"
| "colon_names (_ # ss) = colon_names ss"
| "colon_names [] = []"

definition note_missing :: "(string \<rightharpoonup> string) \<Rightarrow> string list \<Rightarrow> string \<Rightarrow> string" where
  "note_missing vars names m = fold (\<lambda>n m. if vars n = None then n else m) names m"

lemma note_missing_simps [simp]:
  "note_missing vars [] m = m"
  "note_missing vars (n # ns) m = note_missing vars ns (if vars n = None then n else m)"
  by (simp_all add: note_missing_def)

lemma note_missing_empty:
  "\<forall>n \<in> set ns. n \<noteq> [] \<Longrightarrow> note_missing vars ns m = [] \<longleftrightarrow> m = [] \<and> (\<forall>n \<in> set ns. vars n \<noteq> None)"
  by (induction ns arbitrary: m) auto

lemma seg_names: "set (seg_vars ss) = set (brace_names ss) \<union> set (colon_names ss)"
  by (induction ss rule: seg_vars.induct) auto

lemma wf_segs_names:
  "wf_segs ss \<Longrightarrow> n \<in> set (brace_names ss) \<union> set (colon_names ss) \<Longrightarrow> is_ident n"
  by (induction ss rule: wf_segs.induct) auto

lemma is_ident_nonempty: "is_ident n \<Longrightarrow> n \<noteq> []"
  by (simp add: is_ident_def)

lemma ident_chars: "is_ident n \<Longrightarrow> c \<in> set n \<Longrightarrow> ident_char c"
  by (auto simp: is_ident_def list_all_iff)

lemma not_ident_specials [simp]:
  "\<not> ident_char CHR ''{''" "\<not> ident_char CHR ''}''" "\<not> ident_char CHR '':''"
  by (simp_all add: ident_char_def ident_start_def is_digit_def)

lemma replace_skip: "replace_vars re vars m (length p) (p @ s) = replace_vars re vars m 0 s"
  by (induction p) auto

lemma replace_pass:
  assumes "\<And>c t. c \<in> set l \<Longrightarrow> re (c # t) = None"
  shows "replace_vars re vars m 0 (l @ s) = (let (out, m') = replace_vars re vars m 0 s in (l @ out, m'))"
  using assms by (induction l) (auto split: prod.splits)

lemma brace_re_other: "c \<noteq> CHR ''{'' \<Longrightarrow> aclBraceVarRe (c # t) = None"
  by (simp add: aclBraceVarRe_def)

lemma colon_re_other: "c \<noteq> CHR '':'' \<Longrightarrow> aclColonVarRe (c # t) = None"
  by (simp add: aclColonVarRe_def)

lemma takeWhile_ident:
  "is_ident n \<Longrightarrow> t = [] \<or> \<not> ident_char (hd t) \<Longrightarrow> takeWhile ident_char (n @ t) = n \<and> dropWhile ident_char (n @ t) = t"
  by (cases t) (auto simp: takeWhile_append dropWhile_append dest: ident_chars)

lemma brace_re_match:
  assumes "is_ident n"
  shows "aclBraceVarRe (CHR ''{'' # n @ CHR ''}'' # t) = Some (n, length n + 2)"
  using takeWhile_ident [of n "CHR ''}'' # t"] assms by (simp add: aclBraceVarRe_def)

lemma colon_re_match:
  assumes "is_ident n" "t = [] \<or> \<not> ident_char (hd t)"
  shows "aclColonVarRe (CHR '':'' # n @ t) = Some (n, length n + 1)"
  using takeWhile_ident [of n t] assms by (simp add: aclColonVarRe_def)

lemma replace_brace:
  assumes "is_ident n"
  shows "replace_vars aclBraceVarRe vars m 0 (CHR ''{'' # n @ CHR ''}'' # t) =
    (let (out, m') = replace_vars aclBraceVarRe vars (if vars n = None then n else m) 0 t
     in ((case vars n of Some v \<Rightarrow> v | None \<Rightarrow> CHR ''{'' # n @ ''}'') @ out, m'))"
  using replace_skip [of aclBraceVarRe vars _ "n @ ''}''" t] brace_re_match [OF assms, of t]
  by (auto split: option.splits prod.splits)

lemma replace_colon:
  assumes "is_ident n" "t = [] \<or> \<not> ident_char (hd t)"
  shows "replace_vars aclColonVarRe vars m 0 (CHR '':'' # n @ t) =
    (let (out, m') = replace_vars aclColonVarRe vars (if vars n = None then n else m) 0 t
     in ((case vars n of Some v \<Rightarrow> v | None \<Rightarrow> CHR '':'' # n) @ out, m'))"
  using replace_skip [of aclColonVarRe vars _ n t] colon_re_match [OF assms]
  by (auto split: option.splits prod.splits)

lemma brace_pass_lit:
  "CHR ''{'' \<notin> set l \<Longrightarrow> replace_vars aclBraceVarRe vars m 0 (l @ s) =
    (let (out, m') = replace_vars aclBraceVarRe vars m 0 s in (l @ out, m'))"
  by (rule replace_pass) (metis brace_re_other)

lemma colon_pass_lit:
  "CHR '':'' \<notin> set l \<Longrightarrow> replace_vars aclColonVarRe vars m 0 (l @ s) =
    (let (out, m') = replace_vars aclColonVarRe vars m 0 s in (l @ out, m'))"
  by (rule replace_pass) (metis colon_re_other)

lemma ident_no_special: "is_ident n \<Longrightarrow> CHR ''{'' \<notin> set n \<and> CHR '':'' \<notin> set n"
  by (auto dest: ident_chars)

lemma brace_pass:
  "wf_segs ss \<Longrightarrow>
    replace_vars aclBraceVarRe vars m 0 (render_segs ss) = (mid_segs vars ss, note_missing vars (brace_names ss) m)"
proof (induction ss arbitrary: m rule: wf_segs.induct)
  case (4 n ss)
  then show ?case
    using brace_pass_lit [of "CHR '':'' # n"] by (simp add: ident_no_special)
qed (simp_all add: replace_brace brace_pass_lit del: replace_vars.simps(2))

lemma mid_breaks: "breaks_ident ss \<Longrightarrow> mid_segs vars ss = [] \<or> \<not> ident_char (hd (mid_segs vars ss))"
  by (cases ss rule: wf_segs.cases) (auto simp: breaks_ident_def)

text \<open>The second pass over a template whose substituted values hold no colon.\<close>

lemma colon_pass_missing:
  "wf_segs ss \<Longrightarrow> \<forall>n v. n \<in> set (brace_names ss) \<longrightarrow> vars n = Some v \<longrightarrow> CHR '':'' \<notin> set v \<Longrightarrow>
    snd (replace_vars aclColonVarRe vars m 0 (mid_segs vars ss)) = note_missing vars (colon_names ss) m"
proof (induction ss arbitrary: m rule: wf_segs.induct)
  case (3 n ss)
  define l where "l = (case vars n of Some v \<Rightarrow> v | None \<Rightarrow> CHR ''{'' # n @ ''}'')"
  from 3 have "CHR '':'' \<notin> set l" by (auto simp: l_def ident_no_special split: option.splits)
  from colon_pass_lit [OF this] 3 show ?case by (simp add: l_def [symmetric] split_def)
next
  case (4 n ss)
  then show ?case
    by (auto simp: replace_colon mid_breaks split_def simp del: replace_vars.simps(2))
qed (auto simp: colon_pass_lit split_def)

lemma colon_pass_out:
  "wf_segs ss \<Longrightarrow> \<forall>n v. n \<in> set (brace_names ss) \<longrightarrow> vars n = Some v \<longrightarrow> CHR '':'' \<notin> set v \<Longrightarrow>
    \<forall>n \<in> set (seg_vars ss). vars n \<noteq> None \<Longrightarrow>
    fst (replace_vars aclColonVarRe vars m 0 (mid_segs vars ss)) = subst_segs vars ss"
proof (induction ss arbitrary: m rule: wf_segs.induct)
  case (3 n ss)
  then obtain v where v: "vars n = Some v" "CHR '':'' \<notin> set v" by auto
  from colon_pass_lit [OF v(2)] 3 v(1) show ?case by (simp add: split_def)
next
  case (4 n ss)
  then show ?case
    by (auto simp: replace_colon mid_breaks split_def simp del: replace_vars.simps(2))
qed (auto simp: colon_pass_lit split_def)

lemma expand_correct:
  assumes "wf_segs ss" and "\<And>n v. n \<in> set (brace_names ss) \<Longrightarrow> vars n = Some v \<Longrightarrow> CHR '':'' \<notin> set v"
  shows "expandACLTemplate (render_segs ss) vars =
    (if \<forall>n \<in> set (seg_vars ss). vars n \<noteq> None then Inr (subst_segs vars ss) else Inl ErrACLVariableMissing)"
proof -
  define names where "names = brace_names ss @ colon_names ss"
  have ne: "\<forall>n \<in> set names. n \<noteq> []"
    using wf_segs_names [OF assms(1)] is_ident_nonempty by (auto simp: names_def)
  have miss: "snd (replace_vars aclColonVarRe vars (note_missing vars (brace_names ss) []) 0 (mid_segs vars ss)) =
      note_missing vars names []"
    using colon_pass_missing [OF assms(1)] assms(2) by (simp add: names_def note_missing_def)
  have "note_missing vars names [] = [] \<longleftrightarrow> (\<forall>n \<in> set (seg_vars ss). vars n \<noteq> None)"
    using note_missing_empty [OF ne] by (auto simp: names_def seg_names)
  moreover have "\<forall>n \<in> set (seg_vars ss). vars n \<noteq> None \<Longrightarrow>
      fst (replace_vars aclColonVarRe vars (note_missing vars (brace_names ss) []) 0 (mid_segs vars ss)) =
      subst_segs vars ss"
    using colon_pass_out [OF assms(1)] assms(2) by blast
  ultimately show ?thesis
    using miss by (auto simp: expandACLTemplate_def brace_pass [OF assms(1)] Let_def split: prod.splits)
qed

text \<open>C16. For templates made of brace placeholders, of colon placeholders that are followed by the end, another colon
  placeholder or a text that can not continue the name, and of texts without opening brace and colon:
  \<open>enforceACL\<close> lets a call with such a resource (not empty) and action through exactly when the enforcer is
  there, the user and a non-empty tenant are known, every placeholder has a value in the input, and the policy
  allows the tenant and user the action (\<open>access\<close> when empty) on the resource, with the placeholders replaced by those
  values - given that no value of a brace placeholder holds a colon. Outside of this the guarantee fails in two ways:
  with the template \<open>{a}\<close> whoever chooses a can write \<open>:b\<close> and be checked against the value of b, and with
  \<open>:a{b}\<close> the value of b becomes part of the name that is looked up.\<close>

theorem acl_checks_named_resource:
  assumes "wf_segs ss" "render_segs ss \<noteq> []" "ACLResource o' = render_segs ss"
    and "wf_segs acts" "ACLAction o' = render_segs acts"
    and "\<forall>n v. n \<in> set (brace_names ss @ brace_names acts) \<longrightarrow> aclVars input n = Some v \<longrightarrow> CHR '':'' \<notin> set v"
  shows "(enforceACL (Some o') enforcer user tenantClaim input = None \<longleftrightarrow>
      (\<exists>enforce uid tenant. enforcer = Some enforce \<and> user = Inr uid \<and> tenantClaim = Inr tenant \<and> tenant \<noteq> [] \<and>
        (\<forall>n \<in> set (seg_vars ss @ seg_vars acts). aclVars input n \<noteq> None) \<and>
        enforce tenant uid (subst_segs (aclVars input) ss)
          (let a = subst_segs (aclVars input) acts in if a = [] then ''access'' else a) = Inr True)) \<and>
    (is_ident a \<and> is_ident b \<and> vars a = Some (CHR '':'' # b) \<longrightarrow>
      expandACLTemplate (CHR ''{'' # a @ ''}'') vars =
        (case vars b of None \<Rightarrow> Inl ErrACLVariableMissing | Some v \<Rightarrow> Inr v)) \<and>
    (is_ident a \<and> is_ident b \<and> vars b = Some w \<and> list_all ident_char w \<longrightarrow>
      expandACLTemplate (CHR '':'' # a @ CHR ''{'' # b @ ''}'') vars =
        (case vars (a @ w) of None \<Rightarrow> Inl ErrACLVariableMissing | Some v \<Rightarrow> Inr v))"
    (is "?decision \<and> ?injection \<and> ?splice")
proof (intro conjI)
  have r: "expandACLTemplate (render_segs ss) (aclVars input) =
      (if \<forall>n \<in> set (seg_vars ss). aclVars input n \<noteq> None then Inr (subst_segs (aclVars input) ss)
       else Inl ErrACLVariableMissing)"
    using assms(6) by (intro expand_correct [OF assms(1)]) auto
  have a: "expandACLTemplate (render_segs acts) (aclVars input) =
      (if \<forall>n \<in> set (seg_vars acts). aclVars input n \<noteq> None then Inr (subst_segs (aclVars input) acts)
       else Inl ErrACLVariableMissing)"
    using assms(6) by (intro expand_correct [OF assms(4)]) auto
  show ?decision
    using assms(2) by (cases enforcer; cases user; cases tenantClaim)
      (auto simp: enforceACL_def assms(3,5) r a Let_def split: sum.splits)
  show ?injection
  proof
    assume h: "is_ident a \<and> is_ident b \<and> vars a = Some (CHR '':'' # b)"
    then have "replace_vars aclBraceVarRe vars [] 0 (CHR ''{'' # a @ ''}'') = (CHR '':'' # b, [])"
      using replace_brace [of a vars "[]" "[]"] by (simp split: option.splits)
    moreover have "replace_vars aclColonVarRe vars [] 0 (CHR '':'' # b) =
        (case vars b of Some v \<Rightarrow> (v, []) | None \<Rightarrow> (CHR '':'' # b, b))"
      using replace_colon [of b "[]" vars "[]"] h by (simp split: option.splits)
    ultimately show "expandACLTemplate (CHR ''{'' # a @ ''}'') vars =
        (case vars b of None \<Rightarrow> Inl ErrACLVariableMissing | Some v \<Rightarrow> Inr v)"
      using h is_ident_nonempty [of b] by (auto simp: expandACLTemplate_def split: option.splits)
  qed
  show ?splice
  proof
    assume h: "is_ident a \<and> is_ident b \<and> vars b = Some w \<and> list_all ident_char w"
    then have "CHR ''{'' \<notin> set (CHR '':'' # a)" by (simp add: ident_no_special)
    from brace_pass_lit [OF this, of vars "[]" "CHR ''{'' # b @ ''}''"]
    have "replace_vars aclBraceVarRe vars [] 0 (CHR '':'' # a @ CHR ''{'' # b @ ''}'') = (CHR '':'' # a @ w, [])"
      using replace_brace [of b vars "[]" "[]"] h by (simp split: option.splits)
    moreover have "is_ident (a @ w)" using h by (auto simp: is_ident_def)
    then have "replace_vars aclColonVarRe vars [] 0 (CHR '':'' # a @ w) =
        (case vars (a @ w) of Some v \<Rightarrow> (v, []) | None \<Rightarrow> (CHR '':'' # a @ w, a @ w))"
      using replace_colon [of "a @ w" "[]" vars "[]"] by (simp split: option.splits)
    moreover have "a @ w \<noteq> []" using h is_ident_nonempty [of a] by simp
    ultimately show "expandACLTemplate (CHR '':'' # a @ CHR ''{'' # b @ ''}'') vars =
        (case vars (a @ w) of None \<Rightarrow> Inl ErrACLVariableMissing | Some v \<Rightarrow> Inr v)"
      by (simp add: expandACLTemplate_def split: option.splits)
  qed
qed

text \<open>The handler of the repository's own test: a book id in the path, tagged \<open>acl:"book"\<close>.\<close>

definition book_opt :: acl_opt where
  "book_opt = \<lparr>ACLResource = ''books/{book}'', ACLAction = ''read''\<rparr>"

definition book_input :: "string \<Rightarrow> gval" where
  "book_input i = GPtr (GStruct i [GField ''BookID'' True False (Some ''book'') (GScalar i)])"

definition book_policy :: "string \<Rightarrow> string \<Rightarrow> string \<Rightarrow> string \<Rightarrow> string + bool" where
  "book_policy tenant uid obj act =
     Inr (tenant = ''acme'' \<and> uid = ''alice'' \<and> obj = ''books/1'' \<and> act = ''read'')"

theorem acl_checks_named_resource_witness:
  "enforceACL (Some book_opt) (Some book_policy) (Inr ''alice'') (Inr ''acme'') (book_input ''1'') = None \<and>
   expandACLTemplate ''{book}'' [''book'' \<mapsto> '':owner'', ''owner'' \<mapsto> ''alice''] = Inr ''alice''"
proof -
  have vars: "aclVars (book_input ''1'') = [''book'' \<mapsto> ''1'']"
    by (simp add: aclVars_def book_input_def tag_var_def aclValueString_def)
  have segs: "wf_segs [Lit ''books/'', Brace ''book'']" "wf_segs [Lit ''read'']" "is_ident ''book''" "is_ident ''owner''"
    by (simp_all add: is_ident_def ident_char_def ident_start_def)
  from acl_checks_named_resource [OF segs(1) _ _ segs(2), of book_opt "book_input ''1''" "Some book_policy"
      "Inr ''alice''" "Inr ''acme''" "''book''" "''owner''" "[''book'' \<mapsto> '':owner'', ''owner'' \<mapsto> ''alice'']"]
  show ?thesis using segs(3,4) by (simp add: vars book_opt_def book_policy_def)
qed

end
