(* ===== verification/Http_Error.thy ===== *)
theory Http_Error
  imports Prelude "HOL-Library.AList"
begin

section \<open>Responses, JSON documents and error values\<close>

text \<open>
  \<open>serve_err.go\<close>, \<open>typedhandler_wrap.go\<close> and \<open>isReallyNil\<close>: the error values of the framework, what they
  implement (\<open>StatusCode\<close>, \<open>ErrorCode\<close>, \<open>HandleFiber\<close>), and the two ways an error is written to a
  response, \<open>errorRedirect\<close> and \<open>errorJSON\<close>. A response is the part of a fiber context the code writes:
  status, headers and the chunks of the body; a JSON body is kept as the document, its indented text
  being the work of \<open>encoding/json\<close>.
\<close>

datatype json =
    JsNull | JsBool bool | JsNum int | JsStr string | JsArr "json list" | JsObj "(string \<times> json) list"

datatype chunk = RawBytes bytes | JsonDoc json

record response =
  rp_status :: int
  rp_headers :: "(string \<times> string) list"
  rp_body :: "chunk list"

definition new_response :: response where
  "new_response = \<lparr>rp_status = 200, rp_headers = [], rp_body = []\<rparr>"

text \<open>\<open>fiber.Ctx\<close>: \<open>Set\<close>, \<open>Status\<close>, \<open>Write\<close> (appends) and \<open>Send\<close> (replaces the body).\<close>

definition fiber_Set :: "string \<Rightarrow> string \<Rightarrow> response \<Rightarrow> response" where
  "fiber_Set k v r = r\<lparr>rp_headers := AList.update k v (rp_headers r)\<rparr>"

definition fiber_Status :: "int \<Rightarrow> response \<Rightarrow> response" where
  "fiber_Status n r = r\<lparr>rp_status := n\<rparr>"

definition fiber_Write :: "bytes \<Rightarrow> response \<Rightarrow> response" where
  "fiber_Write b r = r\<lparr>rp_body := rp_body r @ [RawBytes b]\<rparr>"

definition fiber_Send :: "chunk \<Rightarrow> response \<Rightarrow> response" where
  "fiber_Send b r = r\<lparr>rp_body := [b]\<rparr>"

subsection \<open>Error values\<close>

text \<open>
  \<open>GoError\<close> is an error with no method but \<open>Error\<close> and no exported field (\<open>errors.New\<close>,
  \<open>fmt.Errorf\<close>); \<open>UserError\<close> is an error type of the application with its message, the methods it
  has and the JSON it marshals to (\<open>None\<close> when that fails).
\<close>

datatype go_error =
    GoError string
  | NoOpError
  | RedirectError int string "go_error option"
  | StatusError int
  | CodeError int string string "go_error option"
  | UserError string "int option" "string option" "(response \<Rightarrow> response) option" "json option"

text \<open>A variable of type \<open>error\<close>: the nil interface, an interface around a nil pointer, or an error.\<close>

datatype 'e iface = NilIface | NilPtr | Is 'e

definition isReallyNil :: "'e iface \<Rightarrow> bool" where
  "isReallyNil v = (case v of NilIface \<Rightarrow> True | NilPtr \<Rightarrow> True | Is _ \<Rightarrow> False)"

text \<open>\<open>err == nil\<close>.\<close>

definition is_nil :: "'e iface \<Rightarrow> bool" where
  "is_nil v = (case v of NilIface \<Rightarrow> True | _ \<Rightarrow> False)"

definition NewError :: "string \<Rightarrow> go_error" where
  "NewError msg = CodeError 0 [] msg None"

definition NewCodeError :: "int \<Rightarrow> string \<Rightarrow> string \<Rightarrow> go_error" where
  "NewCodeError status code msg = CodeError status code msg None"

definition NewRedirectError :: "int \<Rightarrow> string \<Rightarrow> go_error" where
  "NewRedirectError status location = RedirectError status location None"

text \<open>\<open>Error()\<close>; \<open>text\<close> is \<open>http.StatusText\<close>.\<close>

fun error_text :: "(int \<Rightarrow> string) \<Rightarrow> go_error \<Rightarrow> string" where
  "error_text text (GoError m) = m"
| "error_text text NoOpError = []"
| "error_text text (RedirectError n loc None) = text n @ '' redirect to '' @ loc"
| "error_text text (RedirectError n loc (Some e)) = error_text text e"
| "error_text text (StatusError n) = text n @ '' error''"
| "error_text text (CodeError n c m e) = m"
| "error_text text (UserError m _ _ _ _) = m"

text \<open>The interfaces \<open>HttpError\<close>, \<open>errorcodeError\<close> and \<open>FiberHandler\<close>; \<open>None\<close> when not implemented.\<close>

fun error_status :: "go_error \<Rightarrow> int option" where
  "error_status (CodeError n c m e) = Some n"
| "error_status (UserError m n c f j) = n"
| "error_status _ = None"

fun error_code :: "go_error \<Rightarrow> string option" where
  "error_code (CodeError n c m e) = Some c"
| "error_code (UserError m n c f j) = c"
| "error_code _ = None"

fun error_fiber :: "go_error \<Rightarrow> (response \<Rightarrow> response) option" where
  "error_fiber NoOpError = Some id"
| "error_fiber (RedirectError n loc e) = Some (fiber_Status n \<circ> fiber_Set ''Location'' loc)"
| "error_fiber (StatusError n) = Some (fiber_Status n)"
| "error_fiber (UserError m n c f j) = f"
| "error_fiber _ = None"

text \<open>\<open>json.Marshal\<close> of an error value: its exported fields, with \<open>omitempty\<close> on those of \<open>Error\<close>.\<close>

definition omit_empty :: "string \<Rightarrow> string \<Rightarrow> (string \<times> json) list" where
  "omit_empty k v = (if v = [] then [] else [(k, JsStr v)])"

fun error_json :: "go_error \<Rightarrow> json option" where
  "error_json (GoError m) = Some (JsObj [])"
| "error_json NoOpError = Some (JsObj [])"
| "error_json (RedirectError n loc None) =
     Some (JsObj [(''StatusCode'', JsNum n), (''Location'', JsStr loc), (''Err'', JsNull)])"
| "error_json (RedirectError n loc (Some e)) =
     map_option (\<lambda>j. JsObj [(''StatusCode'', JsNum n), (''Location'', JsStr loc), (''Err'', j)]) (error_json e)"
| "error_json (StatusError n) = Some (JsObj [(''StatusCode'', JsNum n)])"
| "error_json (CodeError n c m e) = Some (JsObj (omit_empty ''code'' c @ omit_empty ''msg'' m))"
| "error_json (UserError m n c f j) = j"

subsection \<open>Writing an error\<close>

definition errorRedirect :: "string \<Rightarrow> int \<Rightarrow> go_error \<Rightarrow> response \<Rightarrow> response" where
  "errorRedirect errorPath statusCode err r =
     (let r1 = (case error_code err of
                  Some c \<Rightarrow> fiber_Set ''Location'' (errorPath @ c) r
                | None \<Rightarrow> fiber_Set ''Location'' errorPath r) in
      case error_status err of
        Some n \<Rightarrow> if n \<noteq> 0 then fiber_Status n r1 else fiber_Status statusCode r1
      | None \<Rightarrow> r1)"

text \<open>The document \<open>errorJSON\<close> marshals: \<open>None\<close> when marshalling fails.\<close>

definition wrap_error :: "bool \<Rightarrow> json \<Rightarrow> json" where
  "wrap_error nowrap j = (if nowrap then j else JsObj [(''error'', j)])"

definition error_doc :: "(int \<Rightarrow> string) \<Rightarrow> bool \<Rightarrow> bool \<Rightarrow> go_error \<Rightarrow> json option" where
  "error_doc text nowrap eiserror errz =
     (if eiserror then
        (if error_json errz = None \<or> error_json errz = Some (JsObj [])
         then map_option (wrap_error nowrap) (error_json (NewError (error_text text errz)))
         else map_option (wrap_error nowrap) (error_json errz))
      else map_option (wrap_error nowrap) (error_json errz))"

definition errorJSON :: "(int \<Rightarrow> string) \<Rightarrow> int \<Rightarrow> bool \<Rightarrow> bool \<Rightarrow> go_error \<Rightarrow> response \<Rightarrow> response" where
  "errorJSON text statusCode nowrap eiserror errz r =
     (let r1 = (case error_status errz of
                  Some n \<Rightarrow> if n \<noteq> 0 then fiber_Status n r else fiber_Status statusCode r
                | None \<Rightarrow> fiber_Status statusCode r) in
      case error_doc text nowrap eiserror errz of
        None \<Rightarrow> r1
      | Some doc \<Rightarrow> fiber_Send (JsonDoc doc) r1)"

subsection \<open>What is written\<close>

lemma response_ops [simp]:
  "rp_status (fiber_Set k v r) = rp_status r"
  "rp_status (fiber_Status n r) = n"
  "rp_status (fiber_Send b r) = rp_status r"
  "rp_status (fiber_Write c r) = rp_status r"
  "rp_headers (fiber_Status n r) = rp_headers r"
  "rp_headers (fiber_Send b r) = rp_headers r"
  "rp_headers (fiber_Write c r) = rp_headers r"
  "map_of (rp_headers (fiber_Set k v r)) = (map_of (rp_headers r))(k \<mapsto> v)"
  "rp_body (fiber_Set k v r) = rp_body r"
  "rp_body (fiber_Status n r) = rp_body r"
  "rp_body (fiber_Send b r) = [b]"
  "rp_body (fiber_Write c r) = rp_body r @ [RawBytes c]"
  by (simp_all add: fiber_Set_def fiber_Status_def fiber_Send_def fiber_Write_def AList.update_conv')

lemma isReallyNil_simps [simp]: "isReallyNil NilIface" "isReallyNil NilPtr" "\<not> isReallyNil (Is e)"
  by (simp_all add: isReallyNil_def)

lemma is_nil_simps [simp]: "is_nil NilIface" "\<not> is_nil NilPtr" "\<not> is_nil (Is e)"
  by (simp_all add: is_nil_def)

text \<open>The status an error asks for: its own when it has a non-zero one, else the given default.\<close>

definition own_status :: "int \<Rightarrow> go_error \<Rightarrow> int" where
  "own_status d e = (case error_status e of Some n \<Rightarrow> if n \<noteq> 0 then n else d | None \<Rightarrow> d)"

lemma errorJSON_status: "rp_status (errorJSON text d nowrap eis e r) = own_status d e"
  by (auto simp: errorJSON_def own_status_def Let_def split: option.splits)

lemma error_doc_message:
  "error_json e = Some (JsObj []) \<Longrightarrow> error_text text e \<noteq> [] \<Longrightarrow>
   error_doc text nowrap True e = Some (wrap_error nowrap (JsObj [(''msg'', JsStr (error_text text e))]))"
  by (simp add: error_doc_def NewError_def omit_empty_def)

lemma error_doc_total: "error_doc text nowrap True e \<noteq> None"
  by (cases "error_json e") (auto simp: error_doc_def NewError_def)

lemma errorRedirect_status:
  "rp_status (errorRedirect path d e r) =
    (if error_status e = None then rp_status r else own_status d e)"
  by (auto simp: errorRedirect_def own_status_def Let_def split: option.splits)

lemma errorRedirect_location:
  "map_of (rp_headers (errorRedirect path d e r)) ''Location'' =
    Some (path @ (case error_code e of Some c \<Rightarrow> c | None \<Rightarrow> []))"
  by (auto simp: errorRedirect_def Let_def split: option.splits)

end
