(* ===== verification/Routes.thy ===== *)
theory Routes
  imports Rand_Cron Http_Error "HOL-Library.List_Lexorder" "HOL-Library.Multiset"
begin

section \<open>Route order and registration\<close>

text \<open>
  \<open>comparePaths\<close>, \<open>getPriority\<close> and \<open>RegisterAllFunction\<close> of \<open>typedhandler.go\<close>, and
  \<open>typedhandler_router.go\<close>: \<open>TypedHandle\<close>, \<open>TypedHandleWithPath\<close>, \<open>TypedHandleFiber\<close>,
  \<open>addCORSHeaders\<close> and the three listings. A function is an identity \<open>'h\<close> with the routing part of its
  options; a router holds the fiber routes in registration order, the caches of the server and the
  cron entries. \<open>sort.Slice\<close> is not stable: its outcome is any permutation in which no later element is
  less than an earlier one.
\<close>

subsection \<open>The order of paths\<close>

definition getPriority :: "string \<Rightarrow> nat" where
  "getPriority segment =
     (if prefix '':'' segment then 1 else if CHR ''*'' \<in> set segment then 2 else 0)"

definition path_segments :: "string \<Rightarrow> string list" where
  "path_segments p = split_on CHR ''/'' (trim_char CHR ''/'' p)"

fun compare_segments :: "string list \<Rightarrow> string list \<Rightarrow> bool option" where
  "compare_segments (a # s1) (b # s2) =
     (if getPriority a \<noteq> getPriority b then Some (getPriority a < getPriority b)
      else compare_segments s1 s2)"
| "compare_segments _ _ = None"

definition comparePaths :: "string \<Rightarrow> string \<Rightarrow> bool" where
  "comparePaths p1 p2 =
     (let s1 = path_segments p1; s2 = path_segments p2 in
      case compare_segments s1 s2 of Some b \<Rightarrow> b | None \<Rightarrow> length s1 > length s2)"

text \<open>The reference: the scores of the segments with a closing mark above every score, compared as words.\<close>

definition path_key :: "string \<Rightarrow> nat list" where
  "path_key p = map getPriority (path_segments p) @ [3]"

lemma getPriority_le: "getPriority s \<le> 2"
  by (simp add: getPriority_def)

lemma getPriority_lt_3 [simp]: "getPriority s < 3" "getPriority s \<le> 3" "getPriority s \<noteq> 3" "\<not> 3 < getPriority s"
  using getPriority_le [of s] by simp_all

lemma compare_segments_key:
  "(case compare_segments s1 s2 of Some b \<Rightarrow> b | None \<Rightarrow> length s1 > length s2) \<longleftrightarrow>
   map getPriority s1 @ [3] < map getPriority s2 @ [3]"
proof (induction s1 s2 rule: compare_segments.induct, goal_cases)
  case (1 a s1 b s2)
  then show ?case by (auto split: option.splits)
next
  case (2 s2)
  then show ?case by (cases s2) auto
next
  case (3 s1)
  then show ?case by (cases s1) auto
qed

lemma comparePaths_key: "comparePaths p q \<longleftrightarrow> path_key p < path_key q"
  using compare_segments_key by (simp add: comparePaths_def path_key_def Let_def)

text \<open>C17. \<open>comparePaths\<close>, a loop with early exits and a length test, is the order of the words of segment
  scores closed by a mark above every score; so it is a strict weak order, which is what
  \<open>sort.Slice\<close> needs, paths it does not tell apart have the same scores, and a path comes before each
  path it extends with the same scores.\<close>

theorem comparePaths_is_key_order:
  "(comparePaths p q \<longleftrightarrow> path_key p < path_key q) \<and>
   \<not> (comparePaths p q \<and> comparePaths q p) \<and>
   (\<not> comparePaths p q \<and> \<not> comparePaths q p \<longleftrightarrow>
     map getPriority (path_segments p) = map getPriority (path_segments q))"
  by (auto simp: comparePaths_key not_less path_key_def dest: antisym)

subsection \<open>Registration\<close>

record route_opt =
  ro_Name :: string
  ro_Path :: string
  ro_Method :: string
  ro_SubMethod :: "string list"
  ro_CORS :: bool
  ro_CORSCustomHeader :: "(string \<times> string) list option"
  ro_Cron :: string

type_synonym 'h route_fn = "'h \<times> route_opt"

text \<open>What a fiber route does: answer a CORS preflight, run a function, or run a plain fiber handler.\<close>

datatype 'h target = Preflight route_opt | Serve "'h \<times> route_opt" | Plain route_opt

record 'h router =
  rt_Debug :: bool
  rt_ServerID :: string
  rt_routes :: "(string \<times> string \<times> 'h target) list"
  rt_functions :: "'h route_fn list"
  rt_internal :: "'h route_fn list"
  rt_options :: "route_opt list"
  rt_crons :: "(string \<times> 'h route_fn) list"

definition fiber_Add :: "string \<Rightarrow> string \<Rightarrow> 'h target \<Rightarrow> 'h router \<Rightarrow> 'h router" where
  "fiber_Add method path t r = r\<lparr>rt_routes := rt_routes r @ [(method, path, t)]\<rparr>"

text \<open>The cron part; \<open>addfunc\<close> tells whether robfig/cron accepts the expression. A bad one is only logged.\<close>

definition add_cron :: "(string \<Rightarrow> bool) \<Rightarrow> 'h route_fn \<Rightarrow> 'h router \<Rightarrow> 'h router option" where
  "add_cron addfunc th r =
     (if ro_Cron (snd th) = [] then Some r
      else (case Expand (ro_Cron (snd th)) (rt_ServerID r) of
              None \<Rightarrow> None
            | Some (Inl _) \<Rightarrow> Some r
            | Some (Inr rcron) \<Rightarrow>
                if addfunc rcron then Some (r\<lparr>rt_crons := rt_crons r @ [(rcron, th)]\<rparr>) else Some r))"

definition add_preflight :: "route_opt \<Rightarrow> 'h router \<Rightarrow> 'h router" where
  "add_preflight opt r =
     (if ro_CORS opt \<or> rt_Debug r then fiber_Add ''OPTIONS'' (ro_Path opt) (Preflight opt) r else r)"

definition add_methods :: "route_opt \<Rightarrow> 'h target \<Rightarrow> 'h router \<Rightarrow> 'h router" where
  "add_methods opt t r =
     fold (\<lambda>m. fiber_Add m (ro_Path opt) t) (ro_SubMethod opt) (fiber_Add (ro_Method opt) (ro_Path opt) t r)"

definition TypedHandle :: "(string \<Rightarrow> bool) \<Rightarrow> 'h route_fn \<Rightarrow> 'h router \<Rightarrow> 'h router option" where
  "TypedHandle addfunc th r =
     (case add_cron addfunc th r of
        None \<Rightarrow> None
      | Some r1 \<Rightarrow>
          let opt = snd th in
          if ro_Path opt = [] then Some (r1\<lparr>rt_internal := rt_internal r1 @ [th]\<rparr>)
          else
            let r2 = add_preflight opt r1;
                r3 = r2\<lparr>rt_functions := rt_functions r2 @ [th]\<rparr>
            in Some (add_methods opt (Serve th) r3))"

text \<open>It sets the path of a copy and then registers the original.\<close>

definition TypedHandleWithPath :: "(string \<Rightarrow> bool) \<Rightarrow> string \<Rightarrow> 'h route_fn \<Rightarrow> 'h router \<Rightarrow> 'h router option" where
  "TypedHandleWithPath addfunc pattern th r =
     (let nth = (fst th, (snd th)\<lparr>ro_Path := pattern\<rparr>) in TypedHandle addfunc th r)"

definition TypedHandleFiber :: "route_opt \<Rightarrow> 'h router \<Rightarrow> 'h router" where
  "TypedHandleFiber opt r =
     (let r1 = add_preflight opt r;
          r2 = r1\<lparr>rt_options := rt_options r1 @ [opt]\<rparr>
      in add_methods opt (Plain opt) r2)"

text \<open>The loop of \<open>RegisterAllFunction\<close> over the sorted slice, and the sorting.\<close>

fun register_list :: "(string \<Rightarrow> bool) \<Rightarrow> 'h route_fn list \<Rightarrow> 'h router \<Rightarrow> 'h router option" where
  "register_list addfunc [] r = Some r"
| "register_list addfunc (th # ths) r =
     (case TypedHandle addfunc th r of None \<Rightarrow> None | Some r' \<Rightarrow> register_list addfunc ths r')"

definition fn_less :: "'h route_fn \<Rightarrow> 'h route_fn \<Rightarrow> bool" where
  "fn_less a b = comparePaths (ro_Path (snd a)) (ro_Path (snd b))"

definition slice_sorted :: "('a \<Rightarrow> 'a \<Rightarrow> bool) \<Rightarrow> 'a list \<Rightarrow> 'a list \<Rightarrow> bool" where
  "slice_sorted lt before after \<longleftrightarrow>
     mset after = mset before \<and> sorted_wrt (\<lambda>a b. \<not> lt b a) after"

definition RegisterAllFunction ::
  "('h route_fn list \<Rightarrow> 'h route_fn list) \<Rightarrow> (string \<Rightarrow> bool) \<Rightarrow> 'h route_fn list \<Rightarrow> 'h router \<Rightarrow> 'h router option" where
  "RegisterAllFunction sort_Slice addfunc FunctionList r = register_list addfunc (sort_Slice FunctionList) r"

text \<open>\<open>slices.SortFunc\<close> on the path, as a stable sort (one of its outcomes).\<close>

definition RegisteredFunctions :: "'h router \<Rightarrow> route_opt list" where
  "RegisteredFunctions r =
     sort_key (\<lambda>o'. map (of_char :: char \<Rightarrow> nat) (ro_Path o')) (map snd (rt_functions r) @ rt_options r)"

definition RegisteredInternalFunctionHandlers :: "'h router \<Rightarrow> 'h route_fn list" where
  "RegisteredInternalFunctionHandlers r = rt_internal r"

definition RegisteredFiberOptions :: "'h router \<Rightarrow> route_opt list" where
  "RegisteredFiberOptions r = rt_options r"

text \<open>\<open>addCORSHeaders\<close>, the preflight handler, and the headers \<open>requestFn\<close> adds before the function runs.\<close>

definition default_cors :: "(string \<times> string) list" where
  "default_cors =
     [(''Access-Control-Allow-Origin'', ''*''),
      (''Access-Control-Allow-Methods'', ''GET, POST, PUT, DELETE, OPTIONS''),
      (''Access-Control-Allow-Headers'', ''Content-Type, Authorization'')]"

definition addCORSHeaders :: "route_opt option \<Rightarrow> response \<Rightarrow> response" where
  "addCORSHeaders opt w =
     (case opt of
        Some o' \<Rightarrow>
          (case ro_CORSCustomHeader o' of
             Some hs \<Rightarrow> fold (\<lambda>(k, v). fiber_Set k v) hs w
           | None \<Rightarrow> fold (\<lambda>(k, v). fiber_Set k v) default_cors w)
      | None \<Rightarrow> fold (\<lambda>(k, v). fiber_Set k v) default_cors w)"

definition preflight :: "route_opt \<Rightarrow> response \<Rightarrow> response" where
  "preflight opt w = fiber_Status 200 (addCORSHeaders (Some opt) w)"

definition request_headers :: "bool \<Rightarrow> route_opt \<Rightarrow> response \<Rightarrow> response" where
  "request_headers debug opt w = (if ro_CORS opt \<or> debug then addCORSHeaders (Some opt) w else w)"

subsection \<open>What registration leaves behind\<close>

text \<open>Both bounds of a random range have no sign, so the modulus is never zero and \<open>Expand\<close> never panics.\<close>

lemma digits_val_nonneg: "digits_val acc s = Some v \<Longrightarrow> 0 \<le> acc \<Longrightarrow> 0 \<le> v"
proof (induction s arbitrary: acc)
  case (Cons c cs)
  then show ?case by (auto simp: is_digit_def split: if_splits)
qed simp

lemma atoi_unsigned:
  assumes "atoi s = Some v" "CHR ''-'' \<notin> set s"
  shows "0 \<le> v \<and> v < 2 ^ 63"
proof -
  have "\<exists>ds. digits_val 0 ds = Some v \<and> in_int64 v"
    using assms by (cases s) (auto simp: atoi_def Let_def split: if_splits option.splits
        intro: exI [of _ "tl s"] exI [of _ s])
  then obtain ds where "digits_val 0 ds = Some v" "in_int64 v" by blast
  then show ?thesis using digits_val_nonneg [of 0 ds v] by (simp add: in_int64_def)
qed

lemma randomInRange_total: "0 \<le> lo \<Longrightarrow> lo \<le> hi \<Longrightarrow> hi < 2 ^ 63 \<Longrightarrow> randomInRange seed pos lo hi \<noteq> None"
proof -
  assume "0 \<le> lo" "lo \<le> hi" "hi < 2 ^ 63"
  then have "wrap64 (hi - lo + 1) \<noteq> 0"
    by (cases "hi - lo + 1 = 2 ^ 63") (simp_all add: wrap64_def)
  then show ?thesis by (simp add: randomInRange_def Let_def)
qed

lemma expandField_total: "(lo, hi) \<in> set cron_ranges \<Longrightarrow> expandField f lo hi seed pos \<noteq> None"
proof -
  assume r: "(lo, hi) \<in> set cron_ranges"
  have q: "randomInRange seed pos lo hi \<noteq> None"
    using r by (intro randomInRange_total) (auto simp: cron_ranges_def)
  have "randomInRange seed pos x y \<noteq> None"
    if "split_on CHR ''-'' s = [a, b]" "atoi a = Some x" "atoi b = Some y" "\<not> x > y" for s a b x y
  proof -
    have "CHR ''-'' \<notin> set a" "CHR ''-'' \<notin> set b"
      using split_on_no_sep_elem [of _ "CHR ''-''" s] that(1) by simp_all
    then show ?thesis
      using atoi_unsigned [OF that(2)] atoi_unsigned [OF that(3)] that(4)
      by (intro randomInRange_total) auto
  qed
  with q show ?thesis
    by (fastforce simp: expandField_def split: list.splits option.splits if_splits)
qed

lemma expand_fields_total:
  "set (map snd fs) \<subseteq> set cron_ranges \<Longrightarrow> expand_fields seed i fs \<noteq> None"
proof (induction seed i fs rule: expand_fields.induct)
  case (2 seed i f lo hi fs)
  have "expandField f lo hi seed i \<noteq> None" using 2 by (intro expandField_total) auto
  with 2 show ?case by (auto split: option.splits sum.splits)
qed simp

lemma Expand_total: "Expand expr seed \<noteq> None"
proof -
  have "expand_fields seed 0 (zip (string_fields expr) cron_ranges) \<noteq> None"
    by (intro expand_fields_total) (auto dest: set_zip_rightD)
  then show ?thesis by (auto simp: Expand_def Let_def split: option.splits sum.splits)
qed

text \<open>The routes and cron entries of one function.\<close>

definition routes_of :: "bool \<Rightarrow> 'h route_fn \<Rightarrow> (string \<times> string \<times> 'h target) list" where
  "routes_of debug th =
     (let opt = snd th in
      if ro_Path opt = [] then []
      else (if ro_CORS opt \<or> debug then [(''OPTIONS'', ro_Path opt, Preflight opt)] else []) @
           map (\<lambda>m. (m, ro_Path opt, Serve th)) (ro_Method opt # ro_SubMethod opt))"

definition crons_of :: "(string \<Rightarrow> bool) \<Rightarrow> string \<Rightarrow> 'h route_fn \<Rightarrow> (string \<times> 'h route_fn) list" where
  "crons_of addfunc seed th =
     (if ro_Cron (snd th) = [] then []
      else (case Expand (ro_Cron (snd th)) seed of
              Some (Inr e) \<Rightarrow> if addfunc e then [(e, th)] else []
            | _ \<Rightarrow> []))"

definition registered :: "(string \<Rightarrow> bool) \<Rightarrow> 'h route_fn list \<Rightarrow> 'h router \<Rightarrow> 'h router" where
  "registered addfunc ths r = r\<lparr>
     rt_routes := rt_routes r @ concat (map (routes_of (rt_Debug r)) ths),
     rt_functions := rt_functions r @ filter (\<lambda>th. ro_Path (snd th) \<noteq> []) ths,
     rt_internal := rt_internal r @ filter (\<lambda>th. ro_Path (snd th) = []) ths,
     rt_crons := rt_crons r @ concat (map (crons_of addfunc (rt_ServerID r)) ths)\<rparr>"

lemma add_methods_routes:
  "add_methods opt t r = r\<lparr>rt_routes := rt_routes r @ map (\<lambda>m. (m, ro_Path opt, t)) (ro_Method opt # ro_SubMethod opt)\<rparr>"
proof -
  have "fold (\<lambda>m. fiber_Add m (ro_Path opt) t) ms q =
      q\<lparr>rt_routes := rt_routes q @ map (\<lambda>m. (m, ro_Path opt, t)) ms\<rparr>" for ms q
    by (induction ms arbitrary: q) (simp_all add: fiber_Add_def)
  then show ?thesis by (simp add: add_methods_def fiber_Add_def)
qed

lemma add_cron_effect:
  "add_cron addfunc th r = Some (r\<lparr>rt_crons := rt_crons r @ crons_of addfunc (rt_ServerID r) th\<rparr>)"
  using Expand_total [of "ro_Cron (snd th)" "rt_ServerID r"]
  by (auto simp: add_cron_def crons_of_def split: option.splits sum.splits)

lemma TypedHandle_effect: "TypedHandle addfunc th r = Some (registered addfunc [th] r)"
  by (simp add: TypedHandle_def add_cron_effect registered_def add_methods_routes add_preflight_def
      fiber_Add_def routes_of_def Let_def)

lemma register_list_effect: "register_list addfunc ths r = Some (registered addfunc ths r)"
  by (induction ths arbitrary: r) (simp_all add: TypedHandle_effect registered_def)

lemma sorted_wrt_all: "(\<And>x y. x \<in> set xs \<Longrightarrow> y \<in> set xs \<Longrightarrow> P x y) \<Longrightarrow> sorted_wrt P xs"
  by (induction xs) auto

lemma sorted_routes:
  assumes "sorted_wrt (\<lambda>a b. \<not> fn_less b a) ths"
  shows "sorted_wrt (\<lambda>a b. \<not> comparePaths (fst (snd b)) (fst (snd a))) (concat (map (routes_of debug) ths))"
proof -
  have p: "x \<in> set (routes_of debug th) \<Longrightarrow> fst (snd x) = ro_Path (snd th)" for x :: "string \<times> string \<times> 'a target" and th
    by (auto simp: routes_of_def Let_def split: if_splits)
  have one: "sorted_wrt (\<lambda>a b. \<not> comparePaths (fst (snd b)) (fst (snd a))) (routes_of debug th)" for th :: "'a route_fn"
    by (rule sorted_wrt_all) (simp add: p comparePaths_key)
  show ?thesis using assms
    by (induction ths) (auto simp: sorted_wrt_append one fn_less_def p)
qed

lemma each_route:
  "th \<in> set ys \<Longrightarrow> ro_Path (snd th) \<noteq> [] \<Longrightarrow> m = ro_Method (snd th) \<or> m \<in> set (ro_SubMethod (snd th)) \<Longrightarrow>
   \<exists>x \<in> set ys. (m, ro_Path (snd th), Serve th) \<in> set (routes_of debug x)"
  by (rule bexI [of _ th]) (auto simp: routes_of_def Let_def)

text \<open>What the order of paths says position by position: the kind of a segment is \<open>1\<close> for a parameter, \<open>2\<close> for another one with a star
  in it, \<open>0\<close> for anything else.\<close>

definition segment_kind :: "string \<Rightarrow> nat" where
  "segment_kind s =
     (case s of [] \<Rightarrow> 0 | c # _ \<Rightarrow> if c = CHR '':'' then 1 else if CHR ''*'' \<in> set s then 2 else 0)"

lemma segment_kind: "segment_kind s = getPriority s"
  by (cases s) (auto simp: segment_kind_def getPriority_def)

lemma comparePaths_positions:
  assumes "\<not> comparePaths q p" "s = path_segments p" "t = path_segments q"
  shows "(\<forall>n < min (length s) (length t). (\<forall>k < n. segment_kind (s ! k) = segment_kind (t ! k)) \<longrightarrow>
      segment_kind (s ! n) \<le> segment_kind (t ! n)) \<and>
    ((\<forall>k < min (length s) (length t). segment_kind (s ! k) = segment_kind (t ! k)) \<longrightarrow> length t \<le> length s)"
proof -
  have "\<not> (case compare_segments t s of Some b \<Rightarrow> b | None \<Rightarrow> length t > length s)"
    unfolding assms(2,3) using assms(1) by (simp add: comparePaths_def Let_def)
  then show ?thesis
  proof (induction t s rule: compare_segments.induct, goal_cases)
    case (1 a t b s)
    have step: "(\<forall>n < Suc m. P n) \<longleftrightarrow> P 0 \<and> (\<forall>n < m. P (Suc n))" for P and m :: nat
      by (metis less_Suc_eq_0_disj)
    show ?case
    proof (cases "getPriority a = getPriority b")
      case True
      then show ?thesis using 1 by (simp add: step segment_kind cong: option.case_cong)
    next
      case False
      then show ?thesis using 1 by (auto simp: step segment_kind)
    qed
  qed auto
qed

text \<open>C18. For every outcome \<open>sort.Slice\<close> may have with the comparison (a permutation in which no later function's path comes
  before an earlier one's): registration never panics; each function goes to exactly one of the two caches; the new routes are, for each
  function with a path, one for \<open>OPTIONS\<close> if it has CORS or in debug mode and one for its method and each submethod,
  and a bad cron expression keeps none of them out. Of two routes, where the segments of their paths first
  differ in kind, the one registered first has the lower kind (other text before \<open>:param\<close> before text with \<open>*\<close>), and if
  no kind differs it has at least as many segments. So a route with static text at that place comes before those with a parameter or a star
  there; nothing more: \<open>/api/*\<close> is registered before \<open>/api\<close>, and \<open>+\<close> or \<open>pre:id\<close> count as static text.\<close>

theorem registration_in_order:
  assumes "slice_sorted fn_less fs (sort_Slice fs)"
  shows "\<exists>r'. RegisterAllFunction sort_Slice addfunc fs r = Some r' \<and>
    mset (rt_functions r') + mset (rt_internal r') = mset (rt_functions r) + mset (rt_internal r) + mset fs \<and>
    (\<forall>th \<in> set fs. ro_Path (snd th) \<noteq> [] \<longrightarrow> th \<in> set (rt_functions r') \<and>
       (\<forall>m \<in> set (ro_Method (snd th) # ro_SubMethod (snd th)). (m, ro_Path (snd th), Serve th) \<in> set (rt_routes r'))) \<and>
    (\<exists>new. rt_routes r' = rt_routes r @ new \<and>
       mset new = (\<Sum>th \<in># mset fs. if ro_Path (snd th) = [] then {#}
         else (if ro_CORS (snd th) \<or> rt_Debug r then {#(''OPTIONS'', ro_Path (snd th), Preflight (snd th))#} else {#}) +
              {#(m, ro_Path (snd th), Serve th). m \<in># mset (ro_Method (snd th) # ro_SubMethod (snd th))#}) \<and>
       (\<forall>i < length new. \<forall>j < i.
          let s = split_on CHR ''/'' (trim_char CHR ''/'' (fst (snd (new ! j))));
              t = split_on CHR ''/'' (trim_char CHR ''/'' (fst (snd (new ! i)))) in
          (\<forall>n < min (length s) (length t). (\<forall>k < n. segment_kind (s ! k) = segment_kind (t ! k)) \<longrightarrow>
             segment_kind (s ! n) \<le> segment_kind (t ! n)) \<and>
          ((\<forall>k < min (length s) (length t). segment_kind (s ! k) = segment_kind (t ! k)) \<longrightarrow> length t \<le> length s)))"
proof -
  let ?ys = "sort_Slice fs" and ?r = "registered addfunc (sort_Slice fs) r"
  have m: "mset ?ys = mset fs" and s: "sorted_wrt (\<lambda>a b. \<not> fn_less b a) ?ys"
    using assms by (simp_all add: slice_sorted_def)
  have run: "RegisterAllFunction sort_Slice addfunc fs r = Some ?r"
    by (simp add: RegisterAllFunction_def register_list_effect)
  have all: "mset (rt_functions ?r) + mset (rt_internal ?r) = mset (rt_functions r) + mset (rt_internal r) + mset fs"
    using m [symmetric] multiset_partition [of "mset ?ys" "\<lambda>th. ro_Path (snd th) \<noteq> []"]
    by (simp add: registered_def ac_simps)
  have each: "\<forall>th \<in> set fs. ro_Path (snd th) \<noteq> [] \<longrightarrow> th \<in> set (rt_functions ?r) \<and>
      (\<forall>m \<in> set (ro_Method (snd th) # ro_SubMethod (snd th)). (m, ro_Path (snd th), Serve th) \<in> set (rt_routes ?r))"
    using mset_eq_setD [OF m] by (simp add: registered_def) (blast intro: each_route [simplified])
  have new: "rt_routes ?r = rt_routes r @ concat (map (routes_of (rt_Debug r)) ?ys)"
    by (simp add: registered_def)
  let ?new = "concat (map (routes_of (rt_Debug r)) ?ys)"
  have order: "\<not> comparePaths (fst (snd (?new ! i))) (fst (snd (?new ! j)))" if "i < length ?new" "j < i" for i j
    using sorted_routes [OF s, of "rt_Debug r"] that unfolding sorted_wrt_iff_nth_less by blast
  have routes: "mset ?new = (\<Sum>th \<in># mset fs. mset (routes_of (rt_Debug r) th))"
    unfolding m [symmetric] by (simp add: mset_concat comp_def flip: sum_mset_sum_list)
  have "rt_routes ?r = rt_routes r @ ?new \<and>
       mset ?new = (\<Sum>th \<in># mset fs. if ro_Path (snd th) = [] then {#}
         else (if ro_CORS (snd th) \<or> rt_Debug r then {#(''OPTIONS'', ro_Path (snd th), Preflight (snd th))#} else {#}) +
              {#(m, ro_Path (snd th), Serve th). m \<in># mset (ro_Method (snd th) # ro_SubMethod (snd th))#}) \<and>
       (\<forall>i < length ?new. \<forall>j < i.
          let s = split_on CHR ''/'' (trim_char CHR ''/'' (fst (snd (?new ! j))));
              t = split_on CHR ''/'' (trim_char CHR ''/'' (fst (snd (?new ! i)))) in
          (\<forall>n < min (length s) (length t). (\<forall>k < n. segment_kind (s ! k) = segment_kind (t ! k)) \<longrightarrow>
             segment_kind (s ! n) \<le> segment_kind (t ! n)) \<and>
          ((\<forall>k < min (length s) (length t). segment_kind (s ! k) = segment_kind (t ! k)) \<longrightarrow> length t \<le> length s))"
  proof (intro conjI allI impI)
    show "mset ?new = (\<Sum>th \<in># mset fs. if ro_Path (snd th) = [] then {#}
         else (if ro_CORS (snd th) \<or> rt_Debug r then {#(''OPTIONS'', ro_Path (snd th), Preflight (snd th))#} else {#}) +
              {#(m, ro_Path (snd th), Serve th). m \<in># mset (ro_Method (snd th) # ro_SubMethod (snd th))#})"
      unfolding routes by (rule arg_cong [where f = sum_mset], rule image_mset_cong) (simp add: routes_of_def Let_def image_mset.compositionality comp_def)
  qed (use new comparePaths_positions [OF order refl refl] in \<open>simp_all add: path_segments_def Let_def\<close>)
  then show ?thesis using run all each by blast
qed

definition text_routes :: "nat route_fn list" where
  "text_routes =
     map (\<lambda>(i, p). (i, \<lparr>ro_Name = [], ro_Path = p, ro_Method = ''GET'', ro_SubMethod = [''POST''], ro_CORS = False,
                       ro_CORSCustomHeader = None, ro_Cron = []\<rparr>))
       [(0, ''/users/*''), (1, ''/users/:id''), (2, ''/users/me''), (3, []), (4, ''/users/:id/posts''), (5, ''/users'')]"

definition text_router :: "nat router" where
  "text_router = \<lparr>rt_Debug = False, rt_ServerID = ''node'', rt_routes = [], rt_functions = [], rt_internal = [],
     rt_options = [], rt_crons = []\<rparr>"

theorem registration_in_order_witness:
  "\<exists>r'. RegisterAllFunction (sort_key (\<lambda>f. path_key (ro_Path (snd f)))) (\<lambda>_. True) text_routes text_router = Some r' \<and>
    map (\<lambda>x. fst (snd x)) (rt_routes r') =
      concat (map (\<lambda>p. [p, p]) [''/users/me'', ''/users/:id/posts'', ''/users/:id'', ''/users/*'', ''/users'']) \<and>
    mset (rt_functions r') + mset (rt_internal r') = mset text_routes"
proof -
  let ?sort = "sort_key (\<lambda>f :: nat route_fn. path_key (ro_Path (snd f)))"
  have "slice_sorted fn_less text_routes (?sort text_routes)"
    using sorted_sort_key [of "\<lambda>f. path_key (ro_Path (snd f))" text_routes]
    by (simp add: slice_sorted_def fn_less_def comparePaths_key sorted_map not_less)
  from registration_in_order [where sort_Slice = ?sort, OF this, of "\<lambda>_. True" text_router]
  obtain r' where "RegisterAllFunction ?sort (\<lambda>_. True) text_routes text_router = Some r'"
    "mset (rt_functions r') + mset (rt_internal r') = mset text_routes"
    by (auto simp: text_router_def)
  moreover have "map (\<lambda>x. fst (snd x)) (rt_routes (the (RegisterAllFunction ?sort (\<lambda>_. True) text_routes text_router))) =
      concat (map (\<lambda>p. [p, p]) [''/users/me'', ''/users/:id/posts'', ''/users/:id'', ''/users/*'', ''/users''])"
    by code_simp
  ultimately show ?thesis by simp
qed

text \<open>\<open>TypedHandleWithPath\<close> ignores the path it is given.\<close>

lemma TypedHandleWithPath_ignores: "TypedHandleWithPath addfunc pattern th r = TypedHandle addfunc th r"
  by (simp add: TypedHandleWithPath_def Let_def)

end
