(* ===== verification/Pipeline.thy ===== *)
theory Pipeline
  imports Http_Error Acl
begin

section \<open>The typed handler pipeline\<close>

text \<open>
  \<open>typedhandler.go\<close>: the request handler \<open>NewFunction\<close> builds, \<open>call_internal\<close>, \<open>Call\<close>, \<open>Handlefunc\<close>,
  the recovering wrapper of the handler, and the content type handlers; \<open>call_session\<close> of
  \<open>session.go\<close> up to the sticky call. The state a call works on is a response and the rest of the
  world \<open>'w\<close>; the input type is \<open>'t\<close> with a view of its values as reflection shows them. Hooks of the
  function and of the extensions, the input binding, the session, stream and job layers (they have
  theories of their own), the policy and the template engine are arguments. Hooks that panic are not
  modelled; a panic of the handler is.
\<close>

subsection \<open>Outputs, functions and the server\<close>

text \<open>
  An output as the type switch of the HTML handler sees it; \<open>OutVal\<close> carries its JSON, or the error of
  marshalling it, and its \<open>fmt.Sprint\<close>.
\<close>

datatype out_val = OutBytes bytes | OutString string | OutNil | OutVal "go_error + json" string

type_synonym err = "go_error iface"

record 'w ctx =
  cx_resp :: response
  cx_world :: 'w

record ('w, 't) popt =
  po_ContentType :: string
  po_RequestHandler :: "('w ctx \<Rightarrow> 't \<Rightarrow> 'w ctx \<times> bool \<times> err) option"
  po_ResponseHandler :: "('w ctx \<Rightarrow> out_val \<Rightarrow> 'w ctx \<times> bool) option"
  po_ErrorHandler :: "('w ctx \<Rightarrow> go_error \<Rightarrow> 'w ctx \<times> bool) option"
  po_ResponseStatusCode :: int
  po_ErrorStatusCode :: int
  po_RedirectStatusCode :: int
  po_NoWrapJSON :: bool
  po_HTMLTemplate :: string
  po_eiserror :: bool
  po_acl :: acl_opt
  po_SessionType :: string
  po_Async :: bool
  po_Dedupe :: bool
  po_Cache :: bool

record ('w, 't) ext_opt =
  ex_RequestHandler :: "('w ctx \<Rightarrow> ('w, 't) popt \<Rightarrow> 't \<Rightarrow> 'w ctx \<times> bool \<times> err) option"
  ex_ResponseHandler :: "('w ctx \<Rightarrow> ('w, 't) popt \<Rightarrow> out_val \<Rightarrow> 'w ctx \<times> bool) option"
  ex_ErrorHandler :: "('w ctx \<Rightarrow> ('w, 't) popt \<Rightarrow> go_error \<Rightarrow> 'w ctx \<times> bool) option"

type_synonym ('w, 't) callee = "('w, 't) popt \<Rightarrow> 'w ctx \<Rightarrow> 't \<Rightarrow> bool \<Rightarrow> 'w ctx \<times> out_val \<times> err"

text \<open>A rendered template: the bytes written before an error, if any.\<close>

record ('w, 't) srv =
  sv_extopts :: "('w, 't) ext_opt list"
  sv_ErrorPath :: string
  sv_DisableValidator :: bool
  sv_validate :: "'t \<Rightarrow> go_error option"
  sv_view :: "'t \<Rightarrow> gval"
  sv_enforcer :: "(string \<Rightarrow> string \<Rightarrow> string \<Rightarrow> string \<Rightarrow> string + bool) option"
  sv_user :: "'w ctx \<Rightarrow> string + string"
  sv_tenant :: "'w ctx \<Rightarrow> string + string"
  sv_aborted :: "'w ctx \<Rightarrow> bool"
  sv_enter :: "'w \<Rightarrow> 'w"
  sv_leave :: "'w \<Rightarrow> 'w \<Rightarrow> 'w"
  sv_stream_target :: "(('w, 't) popt \<Rightarrow> bool) option"
  sv_call_sticky :: "('w, 't) callee"
  sv_call_stream :: "('w, 't) callee"
  sv_call_job :: "('w, 't) callee"
  sv_status_text :: "int \<Rightarrow> string"
  sv_base64 :: "bytes \<Rightarrow> string"
  sv_template :: "string \<Rightarrow> string + (out_val \<Rightarrow> bytes \<times> string option)"

datatype 'w run = Returns "'w ctx" out_val err | Panics "'w ctx"

record ('w, 't) gfunction =
  gf_opt :: "('w, 't) popt"
  gf_zeroU :: out_val
  gf_default :: 't
  gf_bind :: "'w ctx \<Rightarrow> 't \<Rightarrow> 'w ctx \<times> 't \<times> err"
  gf_is_any :: bool
  gf_user_fn :: "'w ctx \<Rightarrow> 't \<Rightarrow> 'w run"

definition set_resp :: "(response \<Rightarrow> response) \<Rightarrow> 'w ctx \<Rightarrow> 'w ctx" where
  "set_resp f c = c\<lparr>cx_resp := f (cx_resp c)\<rparr>"

definition ErrServerError :: go_error where
  "ErrServerError = NewCodeError 500 ''server_error'' ''server error''"

fun acl_go_error :: "acl_error \<Rightarrow> go_error" where
  "acl_go_error ErrCasbinNotConfigured = NewCodeError 500 ''casbin_not_configured'' ''casbin is not configured''"
| "acl_go_error ErrACLVariableMissing = NewCodeError 400 ''acl_variable_missing'' ''acl variable is missing''"
| "acl_go_error ErrACLForbidden = NewCodeError 403 ''acl_forbidden'' ''acl forbidden''"
| "acl_go_error (AclError m) = GoError m"

subsection \<open>Content type handlers\<close>

fun out_json :: "(bytes \<Rightarrow> string) \<Rightarrow> out_val \<Rightarrow> go_error + json" where
  "out_json b64 (OutBytes b) = Inr (JsStr (b64 b))"
| "out_json b64 (OutString s) = Inr (JsStr s)"
| "out_json b64 OutNil = Inr JsNull"
| "out_json b64 (OutVal j s) = j"

definition html_template :: "('w, 't) srv \<Rightarrow> ('w, 't) popt \<Rightarrow> out_val \<Rightarrow> response \<Rightarrow> response" where
  "html_template sv opt v r =
     (case sv_template sv (po_HTMLTemplate opt) of
        Inl e \<Rightarrow> errorRedirect (sv_ErrorPath sv) (po_ErrorStatusCode opt) (GoError e) r
      | Inr exec \<Rightarrow>
          (case exec v of
             (out, None) \<Rightarrow> fiber_Write out r
           | (out, Some e) \<Rightarrow>
               errorRedirect (sv_ErrorPath sv) (po_ErrorStatusCode opt) (GoError e) (fiber_Write out r)))"

definition html_response :: "('w, 't) srv \<Rightarrow> ('w, 't) popt \<Rightarrow> out_val \<Rightarrow> response \<Rightarrow> response" where
  "html_response sv opt output r =
     (let r1 = fiber_Status (po_ResponseStatusCode opt) r in
      case output of
        OutBytes b \<Rightarrow> fiber_Write b r1
      | OutString s \<Rightarrow> fiber_Write s r1
      | OutNil \<Rightarrow> if po_HTMLTemplate opt \<noteq> [] then html_template sv opt output r1 else r1
      | OutVal j s \<Rightarrow> if po_HTMLTemplate opt \<noteq> [] then html_template sv opt output r1 else fiber_Write s r1)"

definition html_error :: "('w, 't) srv \<Rightarrow> ('w, 't) popt \<Rightarrow> go_error \<Rightarrow> response \<Rightarrow> response" where
  "html_error sv opt e r =
     (case error_fiber e of
        Some h \<Rightarrow> h r
      | None \<Rightarrow> errorRedirect (sv_ErrorPath sv) (po_RedirectStatusCode opt) e r)"

definition json_response :: "('w, 't) srv \<Rightarrow> ('w, 't) popt \<Rightarrow> out_val \<Rightarrow> response \<Rightarrow> response" where
  "json_response sv opt output r =
     (case out_json (sv_base64 sv) output of
        Inl e \<Rightarrow> errorJSON (sv_status_text sv) (po_ErrorStatusCode opt) (po_NoWrapJSON opt) (po_eiserror opt) e r
      | Inr j \<Rightarrow>
          fiber_Send (JsonDoc (if po_NoWrapJSON opt then j else JsObj [(''data'', j)]))
            (fiber_Status (po_ResponseStatusCode opt) r))"

definition json_error :: "('w, 't) srv \<Rightarrow> ('w, 't) popt \<Rightarrow> go_error \<Rightarrow> response \<Rightarrow> response" where
  "json_error sv opt e r =
     (case error_fiber e of
        Some h \<Rightarrow> h r
      | None \<Rightarrow> errorJSON (sv_status_text sv) (po_ErrorStatusCode opt) (po_NoWrapJSON opt) (po_eiserror opt) e r)"

text \<open>\<open>contentTypeHandlerMap\<close> has two keys; every other content type falls back on HTML.\<close>

definition content_response :: "('w, 't) srv \<Rightarrow> ('w, 't) popt \<Rightarrow> out_val \<Rightarrow> 'w ctx \<Rightarrow> 'w ctx" where
  "content_response sv opt output =
     (if po_ContentType opt = ''application/json'' then set_resp (json_response sv opt output)
      else set_resp (html_response sv opt output))"

definition content_error :: "('w, 't) srv \<Rightarrow> ('w, 't) popt \<Rightarrow> go_error \<Rightarrow> 'w ctx \<Rightarrow> 'w ctx" where
  "content_error sv opt e =
     (if po_ContentType opt = ''application/json'' then set_resp (json_error sv opt e)
      else set_resp (html_error sv opt e))"

subsection \<open>Calls\<close>

definition handlefunc :: "('w, 't) gfunction \<Rightarrow> 'w ctx \<Rightarrow> 't \<Rightarrow> 'w ctx \<times> out_val \<times> err" where
  "handlefunc f c t =
     (case gf_user_fn f c t of
        Returns c' u e \<Rightarrow> (c', u, e)
      | Panics c' \<Rightarrow> (c', gf_zeroU f, Is ErrServerError))"

definition call_session :: "('w, 't) srv \<Rightarrow> ('w, 't) gfunction \<Rightarrow> 'w ctx \<Rightarrow> 't \<Rightarrow> bool \<Rightarrow> 'w ctx \<times> out_val \<times> err" where
  "call_session sv f c t fromcall =
     (if fromcall then (c, gf_zeroU f, Is (NewError ''session can not be used with Handler.Call''))
      else if po_SessionType (gf_opt f) = ''sticky'' then sv_call_sticky sv (gf_opt f) c t fromcall
      else (c, gf_zeroU f, Is (NewError ''invalid settion type'')))"

definition acl_decision :: "('w, 't) srv \<Rightarrow> ('w, 't) gfunction \<Rightarrow> 'w ctx \<Rightarrow> 't \<Rightarrow> acl_error option" where
  "acl_decision sv f c t =
     enforceACL (Some (po_acl (gf_opt f))) (sv_enforcer sv) (sv_user sv c) (sv_tenant sv c) (sv_view sv t)"

definition call_internal :: "('w, 't) srv \<Rightarrow> ('w, 't) gfunction \<Rightarrow> 'w ctx \<Rightarrow> 't \<Rightarrow> bool \<Rightarrow> 'w ctx \<times> out_val \<times> err" where
  "call_internal sv f c t fromcall =
     (case acl_decision sv f c t of
        Some e \<Rightarrow> (c, gf_zeroU f, Is (acl_go_error e))
      | None \<Rightarrow>
          let opt = gf_opt f in
          if po_SessionType opt \<noteq> [] then call_session sv f c t fromcall
          else if (case sv_stream_target sv of None \<Rightarrow> False | Some isTarget \<Rightarrow> isTarget opt)
          then sv_call_stream sv opt c t fromcall
          else if fromcall \<and> po_Async opt \<or> po_Dedupe opt \<or> po_Cache opt \<or> sv_aborted sv c
          then sv_call_job sv opt c t fromcall
          else handlefunc f c t)"

text \<open>
  The runtime of the call is a shallow copy with a fresh memo (\<open>sv_enter\<close>); when it returns, only what
  the copy shares with the caller's runtime stays changed (\<open>sv_leave\<close>).
\<close>

definition Call :: "('w, 't) srv \<Rightarrow> ('w, 't) gfunction \<Rightarrow> 'w ctx \<Rightarrow> 't \<Rightarrow> 'w ctx \<times> out_val \<times> err" where
  "Call sv f c t =
     (case (if sv_DisableValidator sv then None else sv_validate sv t) of
        Some e \<Rightarrow> (c, gf_zeroU f, Is e)
      | None \<Rightarrow>
          (case call_internal sv f (c\<lparr>cx_world := sv_enter sv (cx_world c)\<rparr>) t True of
             (c', u, e) \<Rightarrow> (c'\<lparr>cx_world := sv_leave sv (cx_world c) (cx_world c')\<rparr>, u, e)))"

definition Handlefunc :: "('w, 't) gfunction \<Rightarrow> 't \<Rightarrow> 'w ctx \<Rightarrow> 't option \<Rightarrow> 'w ctx \<times> out_val \<times> err" where
  "Handlefunc f zeroT c input = handlefunc f c (case input of Some t \<Rightarrow> t | None \<Rightarrow> zeroT)"

subsection \<open>A request\<close>

text \<open>The loop over the extensions' request handlers: it goes on while there is no error and nothing consumed.\<close>

fun ext_requests ::
  "('w, 't) ext_opt list \<Rightarrow> ('w, 't) popt \<Rightarrow> 't \<Rightarrow> 'w ctx \<times> bool \<times> err \<Rightarrow> 'w ctx \<times> bool \<times> err" where
  "ext_requests [] opt t s = s"
| "ext_requests (x # xs) opt t (c, consumed, e) =
     (case ex_RequestHandler x of
        Some h \<Rightarrow> if is_nil e \<and> \<not> consumed then ext_requests xs opt t (h c opt t)
                  else ext_requests xs opt t (c, consumed, e)
      | None \<Rightarrow> ext_requests xs opt t (c, consumed, e))"

definition request_hooks :: "('w, 't) srv \<Rightarrow> ('w, 't) popt \<Rightarrow> 't \<Rightarrow> 'w ctx \<Rightarrow> 'w ctx \<times> bool \<times> err" where
  "request_hooks sv opt t c =
     (let s = (case po_RequestHandler opt of Some h \<Rightarrow> h c t | None \<Rightarrow> (c, False, NilIface)) in
      case s of (c1, consumed, e) \<Rightarrow>
        if is_nil e \<and> \<not> consumed then ext_requests (sv_extopts sv) opt t s else s)"

definition bind_param :: "('w, 't) gfunction \<Rightarrow> 't \<Rightarrow> 'w ctx \<Rightarrow> 'w ctx \<times> 't \<times> err" where
  "bind_param f zeroT c = (if gf_is_any f then (c, zeroT, NilIface) else gf_bind f c (gf_default f))"

definition run_request :: "('w, 't) srv \<Rightarrow> ('w, 't) gfunction \<Rightarrow> 't \<Rightarrow> 'w ctx \<Rightarrow> 'w ctx \<times> out_val \<times> err" where
  "run_request sv f zeroT c =
     (case bind_param f zeroT c of
        (c1, param, e) \<Rightarrow>
          if is_nil e then
            (case request_hooks sv (gf_opt f) param c1 of
               (c2, consumed, e2) \<Rightarrow>
                 if is_nil e2 \<and> \<not> consumed then call_internal sv f c2 param False
                 else (c2, gf_zeroU f, e2))
          else (c1, gf_zeroU f, e))"

text \<open>The first handler that says it consumed the answer ends the request.\<close>

fun offer :: "('w ctx \<Rightarrow> 'w ctx \<times> bool) list \<Rightarrow> 'w ctx \<Rightarrow> 'w ctx \<times> bool" where
  "offer [] c = (c, False)"
| "offer (h # hs) c = (case h c of (c', ok) \<Rightarrow> if ok then (c', True) else offer hs c')"

definition error_handlers :: "('w, 't) srv \<Rightarrow> ('w, 't) popt \<Rightarrow> go_error \<Rightarrow> ('w ctx \<Rightarrow> 'w ctx \<times> bool) list" where
  "error_handlers sv opt e =
     List.map_filter (\<lambda>x. map_option (\<lambda>h c. h c opt e) (ex_ErrorHandler x)) (sv_extopts sv) @
     (case po_ErrorHandler opt of Some h \<Rightarrow> [\<lambda>c. h c e] | None \<Rightarrow> [])"

definition response_handlers :: "('w, 't) srv \<Rightarrow> ('w, 't) popt \<Rightarrow> out_val \<Rightarrow> ('w ctx \<Rightarrow> 'w ctx \<times> bool) list" where
  "response_handlers sv opt u =
     List.map_filter (\<lambda>x. map_option (\<lambda>h c. h c opt u) (ex_ResponseHandler x)) (sv_extopts sv) @
     (case po_ResponseHandler opt of Some h \<Rightarrow> [\<lambda>c. h c u] | None \<Rightarrow> [])"

definition answer_error :: "('w, 't) srv \<Rightarrow> ('w, 't) popt \<Rightarrow> go_error \<Rightarrow> 'w ctx \<Rightarrow> 'w ctx" where
  "answer_error sv opt e c =
     (case offer (error_handlers sv opt e) c of (c', ok) \<Rightarrow> if ok then c' else content_error sv opt e c')"

definition answer_output :: "('w, 't) srv \<Rightarrow> ('w, 't) popt \<Rightarrow> out_val \<Rightarrow> 'w ctx \<Rightarrow> 'w ctx" where
  "answer_output sv opt u c =
     (case offer (response_handlers sv opt u) c of (c', ok) \<Rightarrow> if ok then c' else content_response sv opt u c')"

definition HandleRequest :: "('w, 't) srv \<Rightarrow> ('w, 't) gfunction \<Rightarrow> 't \<Rightarrow> 'w ctx \<Rightarrow> 'w ctx" where
  "HandleRequest sv f zeroT c =
     (let opt = gf_opt f;
          c0 = (if po_ContentType opt \<noteq> [] then set_resp (fiber_Set ''Content-Type'' (po_ContentType opt)) c else c) in
      case run_request sv f zeroT c0 of
        (c1, u, Is e) \<Rightarrow> answer_error sv opt e c1
      | (c1, u, _) \<Rightarrow> answer_output sv opt u c1)"

subsection \<open>The gate and the answers\<close>

text \<open>The context and the input the call of a request is made with, when binding and hooks let it through.\<close>

definition reaches_call :: "('w, 't) srv \<Rightarrow> ('w, 't) gfunction \<Rightarrow> 't \<Rightarrow> 'w ctx \<Rightarrow> 'w ctx \<Rightarrow> 't \<Rightarrow> bool" where
  "reaches_call sv f zeroT c c2 t \<longleftrightarrow>
     (case bind_param f zeroT c of
        (c1, param, e) \<Rightarrow> is_nil e \<and> param = t \<and>
          (case request_hooks sv (gf_opt f) param c1 of (c2', consumed, e2) \<Rightarrow> is_nil e2 \<and> \<not> consumed \<and> c2' = c2))"

lemma run_request_call:
  "reaches_call sv f zeroT c c2 t \<Longrightarrow> run_request sv f zeroT c = call_internal sv f c2 t False"
  by (auto simp: reaches_call_def run_request_def split: prod.splits)

definition start_ctx :: "('w, 't) gfunction \<Rightarrow> 'w ctx \<Rightarrow> 'w ctx" where
  "start_ctx f c =
     (if po_ContentType (gf_opt f) \<noteq> [] then set_resp (fiber_Set ''Content-Type'' (po_ContentType (gf_opt f))) c else c)"

lemma HandleRequest_run:
  "HandleRequest sv f zeroT c =
    (case run_request sv f zeroT (start_ctx f c) of
       (c1, u, Is e) \<Rightarrow> answer_error sv (gf_opt f) e c1
     | (c1, u, _) \<Rightarrow> answer_output sv (gf_opt f) u c1)"
  by (simp add: HandleRequest_def start_ctx_def Let_def)

text \<open>The server with other session, stream and job layers.\<close>

definition other_layers ::
  "('w, 't) callee \<Rightarrow> ('w, 't) callee \<Rightarrow> ('w, 't) callee \<Rightarrow> ('w, 't) srv \<Rightarrow> ('w, 't) srv" where
  "other_layers s st j sv = sv\<lparr>sv_call_sticky := s, sv_call_stream := st, sv_call_job := j\<rparr>"

lemma other_layers_fields [simp]:
  "sv_extopts (other_layers s st j sv) = sv_extopts sv"
  "sv_ErrorPath (other_layers s st j sv) = sv_ErrorPath sv"
  "sv_status_text (other_layers s st j sv) = sv_status_text sv"
  "sv_view (other_layers s st j sv) = sv_view sv"
  "sv_enforcer (other_layers s st j sv) = sv_enforcer sv"
  "sv_user (other_layers s st j sv) = sv_user sv"
  "sv_tenant (other_layers s st j sv) = sv_tenant sv"
  "sv_DisableValidator (other_layers s st j sv) = sv_DisableValidator sv"
  "sv_validate (other_layers s st j sv) = sv_validate sv"
  "sv_enter (other_layers s st j sv) = sv_enter sv"
  "sv_leave (other_layers s st j sv) = sv_leave sv"
  by (cases sv; simp add: other_layers_def)+

lemma request_hooks_layers: "request_hooks (other_layers s st j sv) opt t c = request_hooks sv opt t c"
  unfolding request_hooks_def other_layers_fields ..

lemma content_error_layers: "content_error (other_layers s st j sv) opt e = content_error sv opt e"
  unfolding content_error_def json_error_def [abs_def] html_error_def [abs_def] other_layers_fields ..

lemma answer_error_layers: "answer_error (other_layers s st j sv) opt e c = answer_error sv opt e c"
proof -
  have "error_handlers (other_layers s st j sv) opt e = error_handlers sv opt e"
    unfolding error_handlers_def other_layers_fields ..
  then show ?thesis unfolding answer_error_def content_error_layers by simp
qed

lemma call_internal_refused:
  "acl_decision sv f c t = Some e \<Longrightarrow> call_internal sv f c t b = (c, gf_zeroU f, Is (acl_go_error e))"
  by (simp add: call_internal_def)

lemma reaches_call_layers:
  "reaches_call (other_layers s st j sv) (f\<lparr>gf_user_fn := g\<rparr>) zeroT c c2 t = reaches_call sv f zeroT c c2 t"
  by (simp add: reaches_call_def bind_param_def request_hooks_layers split: prod.splits)

text \<open>C5. When the policy refuses the call of a request whose binding and hooks let it through, the answer is that of the
  policy's error, and it is the same whatever the handler is and whatever the session, stream and job layers do: none
  of them has run. \<open>Call\<close> from another function returns the policy's error and the zero output in the same way, for
  every handler and all layers, once the validator passed the input (it is asked before the policy). \<open>Handlefunc\<close>, which the
  cron and the invokers use, has no such gate: it runs the handler whatever the function's access control says.\<close>

theorem acl_gates_every_layer:
  assumes "reaches_call sv f zeroT (start_ctx f c) c2 t" "acl_decision sv f c2 t = Some e"
    and "sv_DisableValidator sv \<or> sv_validate sv t' = None"
    and "acl_decision sv f (c'\<lparr>cx_world := sv_enter sv (cx_world c')\<rparr>) t' = Some e'"
  shows "HandleRequest (other_layers s st j sv) (f\<lparr>gf_user_fn := g\<rparr>) zeroT c =
      answer_error sv (gf_opt f) (acl_go_error e) c2 \<and>
    Call (other_layers s st j sv) (f\<lparr>gf_user_fn := g\<rparr>) c' t' =
      (c'\<lparr>cx_world := sv_leave sv (cx_world c') (sv_enter sv (cx_world c'))\<rparr>, gf_zeroU f, Is (acl_go_error e')) \<and>
    Handlefunc (f\<lparr>gf_opt := (gf_opt f)\<lparr>po_acl := acl\<rparr>\<rparr>) zeroT c' input =
      (case gf_user_fn f c' (case input of Some i \<Rightarrow> i | None \<Rightarrow> zeroT) of
         Returns c3 u r \<Rightarrow> (c3, u, r) | Panics c3 \<Rightarrow> (c3, gf_zeroU f, Is ErrServerError))"
proof -
  let ?sv = "other_layers s st j sv" and ?f = "f\<lparr>gf_user_fn := g\<rparr>"
  have "run_request ?sv ?f zeroT (start_ctx f c) = call_internal ?sv ?f c2 t False"
    using assms(1) by (intro run_request_call) (simp add: reaches_call_layers)
  moreover have "acl_decision ?sv ?f c2 t = Some e"
    using assms(2) by (simp add: acl_decision_def)
  moreover have "start_ctx ?f c = start_ctx f c" by (simp add: start_ctx_def)
  moreover have "acl_decision ?sv ?f (c'\<lparr>cx_world := sv_enter sv (cx_world c')\<rparr>) t' = Some e'"
    using assms(4) by (simp add: acl_decision_def)
  then have "Call ?sv ?f c' t' =
      (c'\<lparr>cx_world := sv_leave sv (cx_world c') (sv_enter sv (cx_world c'))\<rparr>, gf_zeroU f, Is (acl_go_error e'))"
    using assms(3) by (auto simp: Call_def call_internal_refused)
  ultimately show ?thesis
    by (simp add: HandleRequest_run call_internal_refused answer_error_layers Handlefunc_def handlefunc_def
        split: run.split)
qed

definition page_opt :: "string \<Rightarrow> string \<Rightarrow> (unit, string) popt" where
  "page_opt ctype resource = \<lparr>po_ContentType = ctype, po_RequestHandler = None, po_ResponseHandler = None,
     po_ErrorHandler = None, po_ResponseStatusCode = 200, po_ErrorStatusCode = 400, po_RedirectStatusCode = 302,
     po_NoWrapJSON = False, po_HTMLTemplate = [], po_eiserror = True,
     po_acl = \<lparr>ACLResource = resource, ACLAction = []\<rparr>, po_SessionType = [], po_Async = False,
     po_Dedupe = False, po_Cache = False\<rparr>"

definition page_callee :: "(unit, string) callee" where
  "page_callee opt c t b = (c, OutNil, NilIface)"

text \<open>A server without extensions whose policy lets \<open>alice\<close> of tenant \<open>t\<close> do nothing.\<close>

definition page_srv :: "(unit, string) srv" where
  "page_srv = \<lparr>sv_extopts = [], sv_ErrorPath = ''/error/'', sv_DisableValidator = True, sv_validate = (\<lambda>_. None),
     sv_view = GScalar, sv_enforcer = Some (\<lambda>_ _ _ _. Inr False), sv_user = (\<lambda>_. Inr ''alice''),
     sv_tenant = (\<lambda>_. Inr ''t''), sv_aborted = (\<lambda>_. False), sv_enter = id, sv_leave = (\<lambda>_ w. w),
     sv_stream_target = None, sv_call_sticky = page_callee, sv_call_stream = page_callee,
     sv_call_job = page_callee, sv_status_text = (\<lambda>_. ''status''), sv_base64 = id,
     sv_template = (\<lambda>_. Inl ''template'')\<rparr>"

definition page_fn :: "(unit, string) popt \<Rightarrow> (unit ctx \<Rightarrow> string \<Rightarrow> unit run) \<Rightarrow> (unit, string) gfunction" where
  "page_fn opt g = \<lparr>gf_opt = opt, gf_zeroU = OutNil, gf_default = [], gf_bind = (\<lambda>c t. (c, ''in'', NilIface)),
     gf_is_any = False, gf_user_fn = g\<rparr>"

definition page_ctx :: "unit ctx" where
  "page_ctx = \<lparr>cx_resp = new_response, cx_world = ()\<rparr>"

lemmas page_defs = page_opt_def page_srv_def page_fn_def page_ctx_def new_response_def start_ctx_def set_resp_def
  fiber_Set_def

theorem acl_gates_every_layer_witness:
  "HandleRequest page_srv (page_fn (page_opt ''application/json'' ''doc'') (\<lambda>c t. Panics c)) [] page_ctx =
     set_resp (errorJSON (sv_status_text page_srv) 400 False True (acl_go_error ErrACLForbidden))
       (set_resp (fiber_Set ''Content-Type'' ''application/json'') page_ctx) \<and>
   Call page_srv (page_fn (page_opt ''application/json'' ''doc'') (\<lambda>c t. Panics c)) page_ctx ''in'' =
     (page_ctx, OutNil, Is (acl_go_error ErrACLForbidden))"
proof -
  let ?f = "page_fn (page_opt ''application/json'' ''doc'') (\<lambda>c t. Returns c OutNil NilIface)"
  have 1: "reaches_call page_srv ?f [] (start_ctx ?f page_ctx) (start_ctx ?f page_ctx) ''in''"
    by (simp add: reaches_call_def bind_param_def request_hooks_def page_defs)
  have "enforceACL (Some \<lparr>ACLResource = ''doc'', ACLAction = []\<rparr>) (Some (\<lambda>_ _ _ _. Inr False))
      (Inr ''alice'') (Inr ''t'') (GScalar ''in'') = Some ErrACLForbidden"
    by code_simp
  then have 2: "acl_decision page_srv ?f c ''in'' = Some ErrACLForbidden" for c
    by (simp add: acl_decision_def page_defs)
  have 3: "sv_DisableValidator page_srv \<or> sv_validate page_srv ''in'' = None" by (simp add: page_srv_def)
  have sv: "other_layers page_callee page_callee page_callee page_srv = page_srv"
    by (simp add: other_layers_def page_srv_def)
  have "HandleRequest page_srv (?f\<lparr>gf_user_fn := \<lambda>c t. Panics c\<rparr>) [] page_ctx =
      answer_error page_srv (gf_opt ?f) (acl_go_error ErrACLForbidden) (start_ctx ?f page_ctx)"
    "Call page_srv (?f\<lparr>gf_user_fn := \<lambda>c t. Panics c\<rparr>) page_ctx ''in'' =
      (page_ctx\<lparr>cx_world := sv_leave page_srv (cx_world page_ctx) (sv_enter page_srv (cx_world page_ctx))\<rparr>,
       gf_zeroU ?f, Is (acl_go_error ErrACLForbidden))"
    using acl_gates_every_layer [OF 1 2 3 2, where s = page_callee and st = page_callee and j = page_callee
        and g = "\<lambda>c t. Panics c"] by (simp_all add: sv)
  then show ?thesis
    by (simp add: page_fn_def answer_error_def error_handlers_def content_error_def json_error_def [abs_def]
        page_srv_def page_opt_def start_ctx_def NewCodeError_def List.map_filter_def page_ctx_def)
qed

text \<open>C29. A JSON function answers every error that neither an error handler consumed nor writes the response itself (as
  redirects do), a panic of the handler included: the status is the error's own when it has one that is not zero, or the
  function's error status. When the function declares \<open>error\<close> as its error type, one document takes the place of the body: what
  the error marshals to, or its message when that fails or is the empty object, so it is never an empty object when
  the error has a text. With another error type the document is what the error marshals to, and an error
  that fails to marshal leaves the body as it was.\<close>

theorem json_error_answer:
  assumes "run_request sv f zeroT (start_ctx f c) = (c1, u, Is e)"
    and "po_ContentType (gf_opt f) = ''application/json''"
    and "offer (error_handlers sv (gf_opt f) e) c1 = (c2, False)" and "error_fiber e = None"
  shows "let r = cx_resp (HandleRequest sv f zeroT c); opt = gf_opt f; msg = error_text (sv_status_text sv) e;
      wrap = (\<lambda>j. if po_NoWrapJSON opt then j else JsObj [(''error'', j)]) in
    rp_status r = (case error_status e of None \<Rightarrow> po_ErrorStatusCode opt
      | Some n \<Rightarrow> if n = 0 then po_ErrorStatusCode opt else n) \<and>
    (po_eiserror opt \<longrightarrow> (\<exists>j. rp_body r = [JsonDoc (wrap j)] \<and>
       (error_json e \<noteq> None \<and> error_json e \<noteq> Some (JsObj []) \<longrightarrow> error_json e = Some j) \<and>
       (error_json e = None \<or> error_json e = Some (JsObj []) \<longrightarrow>
         j = JsObj (if msg = [] then [] else [(''msg'', JsStr msg)])) \<and>
       (msg \<noteq> [] \<longrightarrow> j \<noteq> JsObj []))) \<and>
    (\<not> po_eiserror opt \<longrightarrow> rp_body r = (case error_json e of
       None \<Rightarrow> rp_body (cx_resp c2) | Some j \<Rightarrow> [JsonDoc (wrap j)])) \<and>
    (gf_user_fn f c' t = Panics c3 \<longrightarrow> handlefunc f c' t = (c3, gf_zeroU f, Is ErrServerError))"
proof -
  have r: "cx_resp (HandleRequest sv f zeroT c) = errorJSON (sv_status_text sv) (po_ErrorStatusCode (gf_opt f))
      (po_NoWrapJSON (gf_opt f)) (po_eiserror (gf_opt f)) e (cx_resp c2)"
    using assms by (simp add: HandleRequest_run answer_error_def content_error_def json_error_def set_resp_def)
  have "rp_status (cx_resp (HandleRequest sv f zeroT c)) = (case error_status e of None \<Rightarrow> po_ErrorStatusCode (gf_opt f)
      | Some n \<Rightarrow> if n = 0 then po_ErrorStatusCode (gf_opt f) else n)"
    by (simp add: r errorJSON_status own_status_def split: option.split)
  moreover have "handlefunc f c' t = (c3, gf_zeroU f, Is ErrServerError)" if "gf_user_fn f c' t = Panics c3"
    using that by (simp add: handlefunc_def)
  moreover have "rp_body (errorJSON tx d nw False e (cx_resp c2)) = (case error_json e of
      None \<Rightarrow> rp_body (cx_resp c2) | Some j \<Rightarrow> [JsonDoc (if nw then j else JsObj [(''error'', j)])])" for tx d nw
    by (simp add: errorJSON_def error_doc_def wrap_error_def Let_def split: option.split)
  moreover have "\<exists>j. rp_body (errorJSON tx d nw True e (cx_resp c2)) = [JsonDoc (if nw then j else JsObj [(''error'', j)])] \<and>
       (error_json e \<noteq> None \<and> error_json e \<noteq> Some (JsObj []) \<longrightarrow> error_json e = Some j) \<and>
       (error_json e = None \<or> error_json e = Some (JsObj []) \<longrightarrow>
         j = JsObj (if error_text tx e = [] then [] else [(''msg'', JsStr (error_text tx e))])) \<and>
       (error_text tx e \<noteq> [] \<longrightarrow> j \<noteq> JsObj [])" for tx d nw
    by (cases "error_json e = None \<or> error_json e = Some (JsObj [])")
      (auto simp: errorJSON_def error_doc_def wrap_error_def NewError_def omit_empty_def Let_def split: option.split)
  ultimately show ?thesis
    unfolding Let_def r by (cases "po_eiserror (gf_opt f)") simp_all
qed

lemma page_run:
  "run_request page_srv (page_fn (page_opt ctype []) g) [] (start_ctx (page_fn (page_opt ctype []) g) page_ctx) =
   handlefunc (page_fn (page_opt ctype []) g) (start_ctx (page_fn (page_opt ctype []) g) page_ctx) ''in''"
  by (simp add: run_request_def bind_param_def request_hooks_def call_internal_def acl_decision_def enforceACL_def
      page_fn_def page_opt_def page_srv_def Let_def)

theorem json_error_answer_witness:
  "let r = cx_resp (HandleRequest page_srv (page_fn (page_opt ''application/json'' []) (\<lambda>c t. Panics c)) [] page_ctx) in
    rp_status r = 500"
proof -
  let ?f = "page_fn (page_opt ''application/json'' []) (\<lambda>c t. Panics c)"
  have "run_request page_srv ?f [] (start_ctx ?f page_ctx) = (start_ctx ?f page_ctx, OutNil, Is ErrServerError)"
    unfolding page_run by (simp add: handlefunc_def page_fn_def)
  from json_error_answer [OF this, of "start_ctx ?f page_ctx"] show ?thesis
    by (simp add: Let_def page_fn_def page_opt_def page_srv_def error_handlers_def List.map_filter_def
        ErrServerError_def NewCodeError_def own_status_def)
qed

text \<open>The HTML counterpart does not redirect on a plain error: \<open>errorRedirect\<close> sets the error page as
  \<open>Location\<close> but a status only for errors that have a status of their own, so for every other error
  the status stays what it was, 200 for a fresh response; the redirect status of the function is used
  only for an error whose own status is zero.\<close>

theorem html_plain_error_keeps_status:
  assumes "run_request sv f zeroT (start_ctx f c) = (c1, u, Is e)"
    and "po_ContentType (gf_opt f) = ''text/html''"
    and "offer (error_handlers sv (gf_opt f) e) c1 = (c2, False)" "error_fiber e = None"
  shows "let r = cx_resp (HandleRequest sv f zeroT c) in
    map_of (rp_headers r) ''Location'' =
      Some (sv_ErrorPath sv @ (case error_code e of Some k \<Rightarrow> k | None \<Rightarrow> [])) \<and>
    rp_status r = (case error_status e of
        None \<Rightarrow> rp_status (cx_resp c2)
      | Some n \<Rightarrow> if n \<noteq> 0 then n else po_RedirectStatusCode (gf_opt f))"
proof -
  have r: "cx_resp (HandleRequest sv f zeroT c) =
      errorRedirect (sv_ErrorPath sv) (po_RedirectStatusCode (gf_opt f)) e (cx_resp c2)"
    using assms by (simp add: HandleRequest_run answer_error_def content_error_def html_error_def set_resp_def)
  show ?thesis
    unfolding Let_def r by (simp add: errorRedirect_location errorRedirect_status own_status_def split: option.splits)
qed

theorem html_plain_error_keeps_status_witness:
  "let r = cx_resp (HandleRequest page_srv
       (page_fn (page_opt ''text/html'' []) (\<lambda>c t. Returns c OutNil (Is (GoError ''no such page'')))) [] page_ctx)
   in rp_status r = 200 \<and> map_of (rp_headers r) ''Location'' = Some ''/error/''"
proof -
  let ?f = "page_fn (page_opt ''text/html'' []) (\<lambda>c t. Returns c OutNil (Is (GoError ''no such page'')))"
  have "run_request page_srv ?f [] (start_ctx ?f page_ctx) = (start_ctx ?f page_ctx, OutNil, Is (GoError ''no such page''))"
    unfolding page_run by (simp add: handlefunc_def page_fn_def)
  from html_plain_error_keeps_status [OF this, of "start_ctx ?f page_ctx"] show ?thesis
    by (simp add: Let_def page_fn_def page_opt_def page_srv_def error_handlers_def List.map_filter_def
        start_ctx_def page_ctx_def new_response_def set_resp_def)
qed

text \<open>
  A consequence of errors being interfaces: a request hook that returns a nil pointer as its error keeps the
  function from being called, and the zero output is sent as its answer.
\<close>

lemma typed_nil_hook_skips_call:
  assumes "bind_param f zeroT c = (c1, t, NilIface)" "request_hooks sv (gf_opt f) t c1 = (c2, False, NilPtr)"
  shows "run_request sv f zeroT c = (c2, gf_zeroU f, NilPtr)"
  using assms by (simp add: run_request_def)

end
