(* ===== verification/Kvs.thy ===== *)
theory Kvs
  imports Prelude
begin

section \<open>Key-value stores\<close>

text \<open>
  \<open>kvs.go\<close>: the two backends behind \<open>kvsStrategy\<close>, the generic store over them and its constructors,
  with \<open>ReflectPool.New\<close> of \<open>reflectpool.go\<close>. The SQL backend works on the rows of its table, the redis
  backend on a key space with expiry times (redis counts whole seconds; \<open>sec\<close> is the conversion of
  go-redis, which makes one second of a positive duration below it). A failing connection is an error message. The locale \<open>kvs_strategy\<close> states what a client
  may rely on whichever backend it has; it is interpreted on both.
\<close>

subsection \<open>The contract\<close>

datatype kvs_error = NotFound | KvsError string

text \<open>
  \<open>live st k t\<close> is the value a reader sees at time \<open>t\<close>; \<open>life d\<close> is how long a value set with the life \<open>d\<close> lives.
  What is seen at the very instant a value expires differs between the backends and is left open.
\<close>

locale kvs_strategy =
  fixes get :: "time \<Rightarrow> string \<Rightarrow> 'st \<Rightarrow> (kvs_error + bytes) \<times> 'st"
    and put :: "time \<Rightarrow> string \<Rightarrow> bytes \<Rightarrow> duration option \<Rightarrow> 'st \<Rightarrow> (kvs_error + unit) \<times> 'st"
    and delete :: "string \<Rightarrow> 'st \<Rightarrow> (kvs_error + unit) \<times> 'st"
    and live :: "'st \<Rightarrow> string \<Rightarrow> time \<Rightarrow> bytes option"
    and life :: "duration \<Rightarrow> duration"
  assumes get_result: "fst (get now k st) = (case live st k now of Some v \<Rightarrow> Inr v | None \<Rightarrow> Inl NotFound)"
    and get_keeps: "now \<le> t \<Longrightarrow> live (snd (get now k st)) k' t = live st k' t"
    and set_other: "k' \<noteq> k \<Longrightarrow> live (snd (put now k v ttl st)) k' t = live st k' t"
    and set_forever: "live (snd (put now k v None st)) k t = Some v \<and> fst (put now k v None st) = Inr ()"
    and set_lives: "fst (put now k v (Some d) st) = Inr () \<Longrightarrow> now \<le> t \<Longrightarrow> t < now + life d \<Longrightarrow>
      live (snd (put now k v (Some d) st)) k t = Some v"
    and set_dies: "fst (put now k v (Some d) st) = Inr () \<Longrightarrow> now + life d < t \<Longrightarrow>
      live (snd (put now k v (Some d) st)) k t = None"
    and delete_effect: "live (snd (delete k st)) k' t = (if k' = k then None else live st k' t)"
begin

lemma get_after_set:
  assumes "fst (put now k v ttl st) = Inr ()" "now \<le> t"
    and "\<And>d. ttl = Some d \<Longrightarrow> t < now + life d"
  shows "fst (get t k (snd (put now k v ttl st))) = Inr v"
  using assms by (cases ttl) (auto simp: get_result set_forever set_lives)

lemma get_after_expiry:
  assumes "fst (put now k v (Some d) st) = Inr ()" "now + life d < t"
  shows "fst (get t k (snd (put now k v (Some d) st))) = Inl NotFound"
  using assms by (simp add: get_result set_dies)

lemma get_after_delete: "fst (get t k (snd (delete k st))) = Inl NotFound"
  by (simp add: get_result delete_effect)

lemma set_no_interference:
  "k' \<noteq> k \<Longrightarrow> fst (get t k' (snd (put now k v ttl st))) = fst (get t k' st)"
  by (simp add: get_result set_other)

lemma get_twice: "now \<le> t \<Longrightarrow> fst (get t k' (snd (get now k st))) = fst (get t k' st)"
  by (simp add: get_result get_keeps)

text \<open>Nothing comes back by itself: a key that is gone stays gone whatever is read, until it is set.\<close>

lemma reads_do_not_revive:
  assumes "sorted_wrt (\<le>) (map fst reads)" "\<forall>(s, k') \<in> set reads. s \<le> t"
  shows "live (fold (\<lambda>(s, k') st. snd (get s k' st)) reads st) k t = live st k t"
  using assms
proof (induction reads arbitrary: st)
  case (Cons r reads)
  then show ?case using get_keeps [of "fst r" t "snd r" st k] by (auto simp: split_def)
qed simp

end

subsection \<open>The SQL backend\<close>

record kvs_row =
  kr_value :: bytes
  kr_expires :: "time option"

type_synonym kvs_table = "string \<rightharpoonup> kvs_row"

definition sql_Get :: "time \<Rightarrow> string \<Rightarrow> kvs_table \<Rightarrow> (kvs_error + bytes) \<times> kvs_table" where
  "sql_Get now key db =
     (case db key of
        None \<Rightarrow> (Inl NotFound, db)
      | Some row \<Rightarrow>
          (case kr_expires row of
             None \<Rightarrow> (Inr (kr_value row), db)
           | Some expiresAt \<Rightarrow>
               if now > expiresAt then (Inl NotFound, db(key := None)) else (Inr (kr_value row), db)))"

definition sql_Set :: "time \<Rightarrow> string \<Rightarrow> bytes \<Rightarrow> duration option \<Rightarrow> kvs_table \<Rightarrow> (kvs_error + unit) \<times> kvs_table" where
  "sql_Set now key value ttl db =
     (Inr (), db(key \<mapsto> \<lparr>kr_value = value, kr_expires = map_option (\<lambda>d. now + d) ttl\<rparr>))"

definition sql_Delete :: "string \<Rightarrow> kvs_table \<Rightarrow> (kvs_error + unit) \<times> kvs_table" where
  "sql_Delete key db = (Inr (), db(key := None))"

definition sql_live :: "kvs_table \<Rightarrow> string \<Rightarrow> time \<Rightarrow> bytes option" where
  "sql_live db key t =
     (case db key of
        None \<Rightarrow> None
      | Some row \<Rightarrow> (case kr_expires row of
                      Some e \<Rightarrow> if t > e then None else Some (kr_value row)
                    | None \<Rightarrow> Some (kr_value row)))"

interpretation sqlkvs: kvs_strategy sql_Get sql_Set sql_Delete sql_live "\<lambda>d. d"
  by unfold_locales
    (auto simp: sql_Get_def sql_Set_def sql_Delete_def sql_live_def split: option.splits)

subsection \<open>The redis backend\<close>

text \<open>A key holds a value until the instant in the second component; \<open>SETEX\<close> refuses a life of no or negative seconds.\<close>

type_synonym redis_db = "string \<rightharpoonup> bytes \<times> time option"

definition redis_live :: "string \<Rightarrow> redis_db \<Rightarrow> string \<Rightarrow> time \<Rightarrow> bytes option" where
  "redis_live pre db key t =
     (case db (pre @ key) of
        None \<Rightarrow> None
      | Some (v, e) \<Rightarrow> (case e of Some x \<Rightarrow> if x \<le> t then None else Some v | None \<Rightarrow> Some v))"

definition redis_Get :: "string \<Rightarrow> time \<Rightarrow> string \<Rightarrow> redis_db \<Rightarrow> (kvs_error + bytes) \<times> redis_db" where
  "redis_Get pre now key db =
     ((case redis_live pre db key now of Some v \<Rightarrow> Inr v | None \<Rightarrow> Inl NotFound), db)"

definition redis_Set ::
  "(duration \<Rightarrow> int) \<Rightarrow> string \<Rightarrow> time \<Rightarrow> string \<Rightarrow> bytes \<Rightarrow> duration option \<Rightarrow> redis_db \<Rightarrow>
    (kvs_error + unit) \<times> redis_db" where
  "redis_Set sec pre now key value ttl db =
     (case ttl of
        Some d \<Rightarrow>
          if sec d \<le> 0 then (Inl (KvsError ''invalid expire time''), db)
          else (Inr (), db(pre @ key \<mapsto> (value, Some (now + sec d * second))))
      | None \<Rightarrow> (Inr (), db(pre @ key \<mapsto> (value, None))))"

definition redis_Delete :: "string \<Rightarrow> string \<Rightarrow> redis_db \<Rightarrow> (kvs_error + unit) \<times> redis_db" where
  "redis_Delete pre key db = (Inr (), db(pre @ key := None))"

interpretation rediskvs:
  kvs_strategy "redis_Get pre" "redis_Set sec pre" "redis_Delete pre" "redis_live pre" "\<lambda>d. sec d * second"
  for sec :: "duration \<Rightarrow> int" and pre :: string
  by unfold_locales
    (auto simp: redis_Get_def redis_Set_def redis_Delete_def redis_live_def split: option.splits if_splits)

subsection \<open>The generic store\<close>

text \<open>
  \<open>ReflectPool.New\<close> with a callback that decodes into the fresh value: \<open>unmarshal\<close> decodes, and for the
  type \<open>any\<close> the zero value is returned without decoding. Calling it on a nil pool panics.
\<close>

record 'v reflect_pool =
  rp_isany :: bool
  rp_zero :: 'v

definition pool_New :: "'v reflect_pool option \<Rightarrow> (string + 'v) \<Rightarrow> (string + 'v) option" where
  "pool_New pool decoded =
     (case pool of
        None \<Rightarrow> None
      | Some p \<Rightarrow> if rp_isany p then Some (Inr (rp_zero p)) else Some decoded)"

record ('st, 'v) generic_kvs =
  gk_get :: "time \<Rightarrow> string \<Rightarrow> 'st \<Rightarrow> (kvs_error + bytes) \<times> 'st"
  gk_set :: "time \<Rightarrow> string \<Rightarrow> bytes \<Rightarrow> duration option \<Rightarrow> 'st \<Rightarrow> (kvs_error + unit) \<times> 'st"
  gk_delete :: "string \<Rightarrow> 'st \<Rightarrow> (kvs_error + unit) \<times> 'st"
  gk_pool :: "'v reflect_pool option"

definition GenericKVS_Get ::
  "(bytes \<Rightarrow> string + 'v) \<Rightarrow> ('st, 'v) generic_kvs \<Rightarrow> time \<Rightarrow> string \<Rightarrow> 'st \<Rightarrow> ((kvs_error + 'v) \<times> 'st) option" where
  "GenericKVS_Get unmarshal g now key st =
     (case gk_get g now key st of
        (Inl e, st') \<Rightarrow> Some (Inl e, st')
      | (Inr buf, st') \<Rightarrow>
          (case pool_New (gk_pool g) (unmarshal buf) of
             None \<Rightarrow> None
           | Some (Inl e) \<Rightarrow> Some (Inl (KvsError e), st')
           | Some (Inr v) \<Rightarrow> Some (Inr v, st')))"

definition GenericKVS_Set ::
  "('v \<Rightarrow> string + bytes) \<Rightarrow> ('st, 'v) generic_kvs \<Rightarrow> time \<Rightarrow> string \<Rightarrow> 'v \<Rightarrow> duration option \<Rightarrow> 'st \<Rightarrow>
    (kvs_error + unit) \<times> 'st" where
  "GenericKVS_Set marshal g now key value ttl st =
     (case marshal value of
        Inl e \<Rightarrow> (Inl (KvsError e), st)
      | Inr vbuf \<Rightarrow> gk_set g now key vbuf ttl st)"

definition GenericKVS_Delete :: "('st, 'v) generic_kvs \<Rightarrow> string \<Rightarrow> 'st \<Rightarrow> (kvs_error + unit) \<times> 'st" where
  "GenericKVS_Delete g = gk_delete g"

text \<open>Both constructors leave the pool nil.\<close>

definition NewRedisKVS :: "(duration \<Rightarrow> int) \<Rightarrow> string \<Rightarrow> (redis_db, 'v) generic_kvs" where
  "NewRedisKVS sec pre =
     \<lparr>gk_get = redis_Get pre, gk_set = redis_Set sec pre, gk_delete = redis_Delete pre, gk_pool = None\<rparr>"

text \<open>
  The schema as names of tables and indexes. The migration creates the table and then an index with a fixed
  name on a table with a fixed name; a statement fails when its object exists or its table does not.
\<close>

record schema =
  sc_tables :: "string list"
  sc_indexes :: "string list"

definition create_table :: "string \<Rightarrow> schema \<Rightarrow> kvs_error + schema" where
  "create_table t s =
     (if t \<in> set (sc_tables s) then Inl (KvsError ''table exists'')
      else Inr (s\<lparr>sc_tables := t # sc_tables s\<rparr>))"

definition create_index :: "string \<Rightarrow> string \<Rightarrow> schema \<Rightarrow> kvs_error + schema" where
  "create_index i t s =
     (if i \<in> set (sc_indexes s) then Inl (KvsError ''index exists'')
      else if t \<notin> set (sc_tables s) then Inl (KvsError ''no such table'')
      else Inr (s\<lparr>sc_indexes := i # sc_indexes s\<rparr>))"

definition NewSQLKVS :: "string \<Rightarrow> bool \<Rightarrow> schema \<Rightarrow> kvs_error + (kvs_table, 'v) generic_kvs \<times> schema" where
  "NewSQLKVS tablename allow_migrate s =
     (let kv = \<lparr>gk_get = sql_Get, gk_set = sql_Set, gk_delete = sql_Delete, gk_pool = None\<rparr> in
      if allow_migrate then
        bind_res (create_table tablename s) (\<lambda>s1.
          bind_res (create_index ''idx_kvs_expires_at'' ''kvs'' s1) (\<lambda>s2. Inr (kv, s2)))
      else Inr (kv, s))"

subsection \<open>Properties\<close>

text \<open>C27. The operations of the two backends, when the connection works and a driver keeps times exactly: what \<open>Set\<close> stored, \<open>Get\<close>
  returns until its life is over and not after it (at that very instant the backends differ), for ever without a
  life; a deleted key is not found; a \<open>Set\<close> never touches another key, and reading (which deletes an expired SQL row)
  changes nothing a later reader sees. In SQL the life is the given duration, and one that is over at once is accepted. In redis
  it is the duration in whole seconds, one second if it is positive but below a second (\<open>format_sec\<close>, go-redis'
  conversion), and a \<open>Set\<close> with no or a negative life is refused and changes nothing. Through the stores of
  \<open>NewRedisKVS\<close> and \<open>NewSQLKVS\<close> none of this can be read: their pool is nil, so \<open>GenericKVS.Get\<close> panics on every
  key the backend finds.\<close>

theorem kvs_roundtrip:
  assumes format_sec: "\<forall>d. sec d = (if 0 < d \<and> d < second then 1 else sgn d * (\<bar>d\<bar> div second))"
  shows "(\<forall>now t. now \<le> t \<longrightarrow>
      fst (sql_Get t k (snd (sql_Set now k v None db))) = Inr v \<and>
      fst (redis_Get pre t k (snd (redis_Set sec pre now k v None rdb))) = Inr v \<and>
      (t < now + d \<longrightarrow> fst (sql_Get t k (snd (sql_Set now k v (Some d) db))) = Inr v) \<and>
      (now + d < t \<longrightarrow> fst (sql_Get t k (snd (sql_Set now k v (Some d) db))) = Inl NotFound) \<and>
      (\<forall>l. 0 < d \<and> l = (if d < second then second else d - d mod second) \<longrightarrow>
         fst (redis_Set sec pre now k v (Some d) rdb) = Inr () \<and>
         (t < now + l \<longrightarrow> fst (redis_Get pre t k (snd (redis_Set sec pre now k v (Some d) rdb))) = Inr v) \<and>
         (now + l < t \<longrightarrow> fst (redis_Get pre t k (snd (redis_Set sec pre now k v (Some d) rdb))) = Inl NotFound))) \<and>
   (\<forall>now. d \<le> 0 \<longrightarrow> redis_Set sec pre now k v (Some d) rdb = (Inl (KvsError ''invalid expire time''), rdb)) \<and>
   (\<forall>t. fst (sql_Get t k (snd (sql_Delete k db))) = Inl NotFound \<and>
        fst (redis_Get pre t k (snd (redis_Delete pre k rdb))) = Inl NotFound) \<and>
   (\<forall>k' now t ttl. k' \<noteq> k \<longrightarrow>
      fst (sql_Get t k' (snd (sql_Set now k v ttl db))) = fst (sql_Get t k' db) \<and>
      fst (redis_Get pre t k' (snd (redis_Set sec pre now k v ttl rdb))) = fst (redis_Get pre t k' rdb)) \<and>
   (\<forall>k' now t. now \<le> t \<longrightarrow> fst (sql_Get t k' (snd (sql_Get now k db))) = fst (sql_Get t k' db) \<and>
      snd (redis_Get pre now k rdb) = rdb) \<and>
   (\<forall>now skv tab mig s s' unmarshal.
      (fst (redis_Get pre now k rdb) = Inr v \<longrightarrow> GenericKVS_Get unmarshal (NewRedisKVS sec pre) now k rdb = None) \<and>
      (NewSQLKVS tab mig s = Inr (skv, s') \<and> fst (sql_Get now k db) = Inr v \<longrightarrow> GenericKVS_Get unmarshal skv now k db = None))"
proof -
  have s: "fst (sql_Set now k v ttl db) = Inr ()" for now ttl by (simp add: sql_Set_def)
  have r: "sec d > 0 \<Longrightarrow> fst (redis_Set sec pre now k v (Some d) rdb) = Inr ()" for now
    by (simp add: redis_Set_def)
  have r0: "fst (redis_Set sec pre now k v None rdb) = Inr ()" for now by (simp add: redis_Set_def)
  have s1: "now \<le> t \<Longrightarrow> fst (sql_Get t k (snd (sql_Set now k v None db))) = Inr v"
    and s2: "now \<le> t \<Longrightarrow> t < now + d \<Longrightarrow> fst (sql_Get t k (snd (sql_Set now k v (Some d) db))) = Inr v"
    and r1: "now \<le> t \<Longrightarrow> fst (redis_Get pre t k (snd (redis_Set sec pre now k v None rdb))) = Inr v"
    and r2: "sec d > 0 \<Longrightarrow> now \<le> t \<Longrightarrow> t < now + sec d * second \<Longrightarrow>
      fst (redis_Get pre t k (snd (redis_Set sec pre now k v (Some d) rdb))) = Inr v" for now t
    by (rule sqlkvs.get_after_set [OF s] rediskvs.get_after_set [OF r0] rediskvs.get_after_set [OF r]; simp)+
  have life: "sec d > 0 \<and> sec d * second = (if d < second then second else d - d mod second)" if "0 < d"
  proof -
    have "0 < second" by simp
    then have "second \<le> d \<Longrightarrow> 0 < d div second" by (simp add: pos_imp_zdiv_pos_iff)
    with that show ?thesis by (auto simp: format_sec sgn_if minus_mod_eq_div_mult)
  qed
  have none: "sec d \<le> 0" if "d \<le> 0"
    using that by (auto simp: format_sec sgn_if pos_imp_zdiv_nonneg_iff)
  have panics: "fst (redis_Get pre now k rdb) = Inr v \<Longrightarrow> GenericKVS_Get unmarshal (NewRedisKVS sec pre) now k rdb = None"
    "NewSQLKVS tab mig sch = Inr (skv, sch') \<Longrightarrow> fst (sql_Get now k db) = Inr v \<Longrightarrow> GenericKVS_Get unmarshal skv now k db = None"
    for now skv tab mig sch sch' and unmarshal :: "bytes \<Rightarrow> string + 'a"
  proof -
    show "fst (redis_Get pre now k rdb) = Inr v \<Longrightarrow> GenericKVS_Get unmarshal (NewRedisKVS sec pre) now k rdb = None"
      by (auto simp: GenericKVS_Get_def NewRedisKVS_def pool_New_def split: prod.split)
    assume "NewSQLKVS tab mig sch = Inr (skv, sch')"
    then have "skv = \<lparr>gk_get = sql_Get, gk_set = sql_Set, gk_delete = sql_Delete, gk_pool = None\<rparr>"
      by (auto simp: NewSQLKVS_def Let_def bind_res_def split: if_splits sum.splits)
    then show "fst (sql_Get now k db) = Inr v \<Longrightarrow> GenericKVS_Get unmarshal skv now k db = None"
      by (auto simp: GenericKVS_Get_def pool_New_def split: prod.split)
  qed
  show ?thesis
  proof (intro conjI allI impI)
    fix now assume "d \<le> 0"
    then show "redis_Set sec pre now k v (Some d) rdb = (Inl (KvsError ''invalid expire time''), rdb)"
      using none by (simp add: redis_Set_def)
  next
    fix now tab mig sch sch' and skv :: "(kvs_table, 'a) generic_kvs" and unmarshal :: "bytes \<Rightarrow> string + 'a"
    assume "NewSQLKVS tab mig sch = Inr (skv, sch') \<and> fst (sql_Get now k db) = Inr v"
    then show "GenericKVS_Get unmarshal skv now k db = None" using panics(2) by blast
  next
    show "snd (redis_Get pre now k rdb) = rdb" for now by (simp add: redis_Get_def)
  qed (use s1 s2 r1 r2 r life panics(1) sqlkvs.get_after_expiry [OF s] sqlkvs.get_after_delete
      rediskvs.get_after_expiry [OF r] rediskvs.get_after_delete sqlkvs.set_no_interference
      rediskvs.set_no_interference sqlkvs.get_twice in \<open>simp_all\<close>)
qed

text \<open>The conversion of go-redis, and a value set for 300 milliseconds.\<close>

definition format_sec :: "duration \<Rightarrow> int" where
  "format_sec d = (if 0 < d \<and> d < second then 1 else sgn d * (\<bar>d\<bar> div second))"

theorem kvs_roundtrip_witness:
  "fst (sql_Get 5 ''k'' (snd (sql_Set 0 ''k'' ''v'' (Some 10) Map.empty))) = Inr ''v'' \<and>
   fst (redis_Get ''p:'' 900000000 ''k'' (snd (redis_Set format_sec ''p:'' 0 ''k'' ''v'' (Some 300000000) Map.empty))) = Inr ''v'' \<and>
   fst (redis_Get ''p:'' 1000000001 ''k'' (snd (redis_Set format_sec ''p:'' 0 ''k'' ''v'' (Some 300000000) Map.empty))) = Inl NotFound"
proof -
  have f: "\<forall>d. format_sec d = (if 0 < d \<and> d < second then 1 else sgn d * (\<bar>d\<bar> div second))" by (simp add: format_sec_def)
  note a = kvs_roundtrip [OF f, of "''k''" "''v''" Map.empty "''p:''" Map.empty 10, THEN conjunct1, rule_format, of 0 5]
  note b = kvs_roundtrip [OF f, of "''k''" "''v''" Map.empty "''p:''" Map.empty 300000000, THEN conjunct1, rule_format, of 0]
  show ?thesis using a b [of 900000000] b [of 1000000001] by auto
qed

lemma pool_New_nil: "pool_New None r = None"
  by (simp add: pool_New_def)

text \<open>A store from either constructor has no pool: after a \<open>Set\<close> that succeeded, \<open>Get\<close> of that key
  panics for as long as the value lives. Given a pool of a type other than \<open>any\<close>, the same store
  returns the value that was set.\<close>

theorem generic_kvs_get:
  assumes "kv = NewRedisKVS sec pre" "marshal v = Inr buf" "unmarshal buf = Inr v"
    and "fst (GenericKVS_Set marshal kv now k v None db) = Inr ()" "now \<le> t"
    and "NewSQLKVS tab mig sch = Inr (skv, sch')"
  shows "GenericKVS_Get unmarshal kv t k (snd (GenericKVS_Set marshal kv now k v None db)) = None \<and>
    GenericKVS_Get unmarshal skv t k (snd (GenericKVS_Set marshal skv now k v None sdb)) = None \<and>
    map_option fst (GenericKVS_Get unmarshal (kv\<lparr>gk_pool := Some \<lparr>rp_isany = False, rp_zero = z\<rparr>\<rparr>) t k
      (snd (GenericKVS_Set marshal kv now k v None db))) = Some (Inr v)"
proof -
  have skv: "skv = \<lparr>gk_get = sql_Get, gk_set = sql_Set, gk_delete = sql_Delete, gk_pool = None\<rparr>"
    using assms(6) by (auto simp: NewSQLKVS_def Let_def bind_res_def split: if_splits sum.splits)
  have "fst (sql_Get t k (snd (sql_Set now k buf None sdb))) = Inr buf"
    using sqlkvs.get_after_set [of now k buf None sdb t] assms(5) by (simp add: sql_Set_def)
  moreover have "fst (redis_Get pre t k (snd (redis_Set sec pre now k buf None db))) = Inr buf"
    using rediskvs.get_after_set [where sec = sec and pre = pre and k = k and v = buf and ttl = None and t = t] assms(5)
    by (simp add: redis_Set_def)
  ultimately show ?thesis
    using assms(2,3)
    by (auto simp: assms(1) skv NewRedisKVS_def GenericKVS_Get_def GenericKVS_Set_def pool_New_def split: prod.splits)
qed

theorem generic_kvs_get_witness:
  "GenericKVS_Get Inr (NewRedisKVS (\<lambda>d. d) ''p:'') 1 ''k''
     (snd (GenericKVS_Set Inr (NewRedisKVS (\<lambda>d. d) ''p:'') 0 ''k'' ''v'' None Map.empty)) = None"
proof -
  have "fst (GenericKVS_Set Inr (NewRedisKVS (\<lambda>d. d) ''p:'' :: (redis_db, bytes) generic_kvs) 0 ''k'' ''v'' None Map.empty) = Inr ()"
    by (simp add: GenericKVS_Set_def NewRedisKVS_def redis_Set_def)
  moreover have "NewSQLKVS ''kvs'' False \<lparr>sc_tables = [], sc_indexes = []\<rparr> =
      Inr (\<lparr>gk_get = sql_Get, gk_set = sql_Set, gk_delete = sql_Delete, gk_pool = None :: bytes reflect_pool option\<rparr>,
        \<lparr>sc_tables = [], sc_indexes = []\<rparr>)"
    by (simp add: NewSQLKVS_def)
  ultimately show ?thesis
    using generic_kvs_get [OF refl, of Inr "''v''" "''v''" Inr "\<lambda>d. d" "''p:''" 0 "''k''" Map.empty 1] by auto
qed

text \<open>
  The migration runs once, and only where a table \<open>kvs\<close> is: it fails on every start after the first, and
  for a table of another name unless \<open>kvs\<close> exists.
\<close>

lemma migration_once:
  "is_ok (NewSQLKVS tab True s :: kvs_error + (kvs_table, 'v) generic_kvs \<times> schema) \<longleftrightarrow>
    tab \<notin> set (sc_tables s) \<and> ''idx_kvs_expires_at'' \<notin> set (sc_indexes s) \<and>
    (tab = ''kvs'' \<or> ''kvs'' \<in> set (sc_tables s))"
  by (auto simp: NewSQLKVS_def Let_def create_table_def create_index_def)

end
