(* ===== verification/Redis_Session.thy ===== *)
theory Redis_Session
  imports Login "HOL-Library.AList"
begin

section \<open>Sessions in redis\<close>

text \<open>
  \<open>session_redis.go\<close> and the redis half of \<open>session.go\<close>: \<open>getRedisSession\<close> (one session object per
  request, whatever key is asked for later), \<open>GetRedisSessionEntry\<close> with the check it registers,
  \<open>getRedisSessionEntryMulti\<close>, which chooses the key, and the deferred write at the end of the request.
  Redis is the hashes of its keys; \<open>enc\<close> and \<open>dec\<close> are \<open>json.Marshal\<close> and \<open>json.Unmarshal\<close> of the session
  type. An entry handed out is a pointer: what the handler makes of it is seen by the check that runs
  at the end.
\<close>

type_synonym fields = "(string \<times> string) list"
type_synonym hashes = "string \<Rightarrow> fields"

datatype session_fault = SessionFault string | UserFault login_error

text \<open>
  \<open>redisSession\<close> with the key its deferred function writes to. A check compares the entry it was made
  for with what the value at a pointer encodes to now; \<open>AlwaysWrite\<close> is the check of a merge.
\<close>

datatype check = CheckEntry string nat | AlwaysWrite

record redisSession =
  rs_key :: string
  rs_value :: fields
  rs_created :: bool
  rs_checks :: "(string \<times> check) list"

text \<open>A request: the session of its cache, the values it handed out pointers to, and the session name.\<close>

record 's session_req =
  sq_cache :: "redisSession option"
  sq_heap :: "'s list"
  sq_name :: string

definition getRedisSession :: "hashes \<Rightarrow> string option \<Rightarrow> string \<Rightarrow> 's session_req \<Rightarrow> (session_fault + redisSession) \<times> 's session_req" where
  "getRedisSession db fault sid q =
     (case sq_cache q of
        Some s \<Rightarrow> (Inr s, q)
      | None \<Rightarrow>
          (case fault of
             Some e \<Rightarrow> (Inl (SessionFault e), q)
           | None \<Rightarrow>
               let s = \<lparr>rs_key = sid, rs_value = db sid, rs_created = (db sid = []), rs_checks = []\<rparr>
               in (Inr s, q\<lparr>sq_cache := Some s\<rparr>)))"

text \<open>
  \<open>dec\<close> yields the value decoded so far and the error, if any; the pointer is the position in the heap. The
  entry is looked up under the session's name and checked under the given one.
\<close>

record 's json_type =
  jt_zero :: 's
  jt_enc :: "'s \<Rightarrow> string + string"
  jt_dec :: "string \<Rightarrow> 's \<times> string option"

definition GetRedisSessionEntry ::
  "'s json_type \<Rightarrow> hashes \<Rightarrow> string option \<Rightarrow> string \<Rightarrow> string \<Rightarrow> 's session_req \<Rightarrow>
    (session_fault + nat \<times> bool) \<times> 's session_req" where
  "GetRedisSessionEntry ty db fault sid name q =
     (case getRedisSession db fault sid q of
        (Inl e, q') \<Rightarrow> (Inl e, q')
      | (Inr sess, q') \<Rightarrow>
          let found = map_of (rs_value sess) (sq_name q');
              entrystr = (case found of
                            None \<Rightarrow> (case jt_enc ty (jt_zero ty) of Inr z \<Rightarrow> z | Inl _ \<Rightarrow> [])
                          | Some [] \<Rightarrow> (case jt_enc ty (jt_zero ty) of Inr z \<Rightarrow> z | Inl _ \<Rightarrow> [])
                          | Some e \<Rightarrow> e);
              ptr = length (sq_heap q');
              sess' = sess\<lparr>rs_checks := AList.update name (CheckEntry entrystr ptr) (rs_checks sess)\<rparr>;
              q1 = q'\<lparr>sq_cache := Some sess'\<rparr>
          in if found = None \<or> entrystr = [] then
               (Inr (ptr, rs_created sess), q1\<lparr>sq_heap := sq_heap q1 @ [jt_zero ty]\<rparr>)
             else
               (case jt_dec ty entrystr of
                  (v, Some e) \<Rightarrow> (Inl (SessionFault e), q1\<lparr>sq_heap := sq_heap q1 @ [v]\<rparr>)
                | (v, None) \<Rightarrow> (Inr (ptr, rs_created sess), q1\<lparr>sq_heap := sq_heap q1 @ [v]\<rparr>)))"

text \<open>
  \<open>getRedisSessionEntryMulti\<close>: \<open>uid\<close> and \<open>err\<close> are the results of \<open>r.User()\<close>, \<open>sid\<close> the session id of the
  visitor. The branch of the uid key is the one of the error \<open>ErrNotLoggedIn\<close>.
\<close>

definition uid_key :: "string \<Rightarrow> string \<Rightarrow> string" where
  "uid_key pre uid = pre @ '':uid:'' @ uid"

definition sid_key :: "string \<Rightarrow> string \<Rightarrow> string" where
  "sid_key pre sid = pre @ '':sid:'' @ sid"

definition merge_session :: "redisSession \<Rightarrow> redisSession \<Rightarrow> redisSession" where
  "merge_session sess_sid sess =
     sess\<lparr>rs_value := AList.merge (rs_value sess) (rs_value sess_sid),
          rs_checks := AList.update ''*'' AlwaysWrite (rs_checks sess)\<rparr>"

definition sid_entry ::
  "'s json_type \<Rightarrow> hashes \<Rightarrow> string option \<Rightarrow> string \<Rightarrow> string \<Rightarrow> 's session_req \<Rightarrow> (session_fault + nat) \<times> 's session_req" where
  "sid_entry ty db fault pre sid q =
     (case GetRedisSessionEntry ty db fault (sid_key pre sid) (sq_name q) q of
        (Inl e, q') \<Rightarrow> (Inl e, q')
      | (Inr (ptr, created), q') \<Rightarrow> (Inr ptr, q'))"

definition getRedisSessionEntryMulti ::
  "'s json_type \<Rightarrow> hashes \<Rightarrow> string option \<Rightarrow> string \<Rightarrow> string \<Rightarrow> login_error option \<Rightarrow> string \<Rightarrow> 's session_req \<Rightarrow>
    (session_fault + nat) \<times> 's session_req" where
  "getRedisSessionEntryMulti ty db fault pre uid err sid q =
     (if err = Some ErrNotLoggedIn then
        (case GetRedisSessionEntry ty db fault (uid_key pre uid) (sq_name q) q of
           (Inl e, q1) \<Rightarrow> (Inl e, q1)
         | (Inr (ptr, created), q1) \<Rightarrow>
             if \<not> created then (Inr ptr, q1)
             else
               (case getRedisSession db fault (sid_key pre sid) q1 of
                  (Inl e, q2) \<Rightarrow> (Inl e, q2)
                | (Inr sess_sid, q2) \<Rightarrow>
                    if rs_created sess_sid then (Inr ptr, q2)
                    else
                      (case getRedisSession db fault (uid_key pre uid) q2 of
                         (Inl e, q3) \<Rightarrow> (Inl e, q3)
                       | (Inr sess, q3) \<Rightarrow>
                           sid_entry ty db fault pre sid (q3\<lparr>sq_cache := Some (merge_session sess_sid sess)\<rparr>))))
      else
        (case err of
           Some e \<Rightarrow> (Inl (UserFault e), q)
         | None \<Rightarrow> sid_entry ty db fault pre sid q))"

text \<open>
  The deferred function: every check runs (the order of a map is open; a failing encoder ends it with nothing
  written), and one changed entry makes the whole hash be written. Errors of deferred functions are dropped.
\<close>

fun run_checks :: "'s json_type \<Rightarrow> 's list \<Rightarrow> (string \<times> check) list \<Rightarrow> fields \<times> bool \<Rightarrow> (string + fields \<times> bool)" where
  "run_checks ty heap [] acc = Inr acc"
| "run_checks ty heap ((name, AlwaysWrite) # cs) (v, changed) = run_checks ty heap cs (v, True)"
| "run_checks ty heap ((name, CheckEntry entrystr ptr) # cs) (v, changed) =
     (case jt_enc ty (heap ! ptr) of
        Inl e \<Rightarrow> Inl e
      | Inr endbuf \<Rightarrow>
          if entrystr \<noteq> endbuf then run_checks ty heap cs (AList.update name endbuf v, True)
          else run_checks ty heap cs (v, changed))"

definition hset :: "string \<Rightarrow> fields \<Rightarrow> hashes \<Rightarrow> hashes" where
  "hset key fs db = db(key := AList.merge (db key) fs)"

definition session_deferfn :: "'s json_type \<Rightarrow> 's session_req \<Rightarrow> string option \<Rightarrow> hashes \<Rightarrow> hashes" where
  "session_deferfn ty q fault db =
     (case sq_cache q of
        None \<Rightarrow> db
      | Some sess \<Rightarrow>
          (case run_checks ty (sq_heap q) (rs_checks sess) (rs_value sess, False) of
             Inl _ \<Rightarrow> db
           | Inr (v, changed) \<Rightarrow> if changed \<and> fault = None then hset (rs_key sess) v db else db))"

definition new_req :: "string \<Rightarrow> 's session_req" where
  "new_req name = \<lparr>sq_cache = None, sq_heap = [], sq_name = name\<rparr>"

definition set_entry :: "nat \<Rightarrow> ('s \<Rightarrow> 's) \<Rightarrow> 's session_req \<Rightarrow> 's session_req" where
  "set_entry ptr f q = q\<lparr>sq_heap := (sq_heap q)[ptr := f (sq_heap q ! ptr)]\<rparr>"

subsection \<open>What a request leaves behind\<close>

text \<open>A visitor's request that opens the session entry once, changes it with \<open>f\<close>, and ends.\<close>

definition visit ::
  "'s json_type \<Rightarrow> string \<Rightarrow> string \<Rightarrow> string \<Rightarrow> login_error option \<Rightarrow> string \<Rightarrow> ('s \<Rightarrow> 's) \<Rightarrow> hashes \<Rightarrow>
    (session_fault + 's) \<times> hashes" where
  "visit ty pre name uid err sid f db =
     (case getRedisSessionEntryMulti ty db None pre uid err sid (new_req name) of
        (Inl e, q) \<Rightarrow> (Inl e, session_deferfn ty q None db)
      | (Inr ptr, q) \<Rightarrow> (Inr (sq_heap q ! ptr), session_deferfn ty (set_entry ptr f q) None db))"

text \<open>The same with the errors redis may give: \<open>fr\<close> for the read, \<open>fw\<close> for the deferred write.\<close>

definition faulty_visit ::
  "'s json_type \<Rightarrow> string option \<Rightarrow> string option \<Rightarrow> string \<Rightarrow> string \<Rightarrow> string \<Rightarrow> login_error option \<Rightarrow> string \<Rightarrow> ('s \<Rightarrow> 's) \<Rightarrow>
    hashes \<Rightarrow> (session_fault + 's) \<times> hashes" where
  "faulty_visit ty fr fw pre name uid err sid f db =
     (case getRedisSessionEntryMulti ty db fr pre uid err sid (new_req name) of
        (Inl e, q) \<Rightarrow> (Inl e, session_deferfn ty q fw db)
      | (Inr ptr, q) \<Rightarrow> (Inr (sq_heap q ! ptr), session_deferfn ty (set_entry ptr f q) fw db))"

lemma faulty_visit_none: "faulty_visit ty None None = visit ty"
  by (simp add: fun_eq_iff faulty_visit_def visit_def)

definition visit_key :: "string \<Rightarrow> string \<Rightarrow> login_error option \<Rightarrow> string \<Rightarrow> string" where
  "visit_key pre uid err sid = (if err = Some ErrNotLoggedIn then uid_key pre uid else sid_key pre sid)"

text \<open>What is stored under a name decodes: an absent entry stands for the zero value.\<close>

definition stored :: "'s json_type \<Rightarrow> fields \<Rightarrow> string \<Rightarrow> 's option" where
  "stored ty h name =
     (case map_of h name of
        None \<Rightarrow> Some (jt_zero ty)
      | Some e \<Rightarrow> (case jt_dec ty e of (v, None) \<Rightarrow> if e = [] then None else Some v | _ \<Rightarrow> None))"

definition json_ok :: "'s json_type \<Rightarrow> bool" where
  "json_ok ty \<longleftrightarrow> (\<forall>v. \<exists>b. jt_enc ty v = Inr b \<and> b \<noteq> [] \<and> jt_dec ty b = (v, None))"

lemma open_entry:
  assumes "json_ok ty" "stored ty (db key) name = Some v"
  shows "\<exists>entrystr. jt_dec ty entrystr = (v, None) \<and> entrystr \<noteq> [] \<and>
    (map_of (db key) name = Some entrystr \<or> map_of (db key) name = None \<and> v = jt_zero ty \<and> jt_enc ty v = Inr entrystr) \<and>
    GetRedisSessionEntry ty db None key name (new_req name) =
      (Inr (0, db key = []),
       \<lparr>sq_cache = Some \<lparr>rs_key = key, rs_value = db key, rs_created = (db key = []),
                        rs_checks = [(name, CheckEntry entrystr 0)]\<rparr>,
        sq_heap = [v], sq_name = name\<rparr>)"
proof (cases "map_of (db key) name")
  case None
  moreover obtain b where "jt_enc ty (jt_zero ty) = Inr b" "b \<noteq> []" "jt_dec ty b = (jt_zero ty, None)"
    using assms(1) by (auto simp: json_ok_def)
  ultimately show ?thesis
    using assms(2) by (simp add: GetRedisSessionEntry_def getRedisSession_def new_req_def stored_def Let_def)
next
  case (Some e)
  then have e: "jt_dec ty e = (v, None)" "e \<noteq> []"
    using assms(2) by (auto simp: stored_def split: prod.splits option.splits if_splits)
  then show ?thesis
    using Some by (cases e) (simp_all add: GetRedisSessionEntry_def getRedisSession_def new_req_def Let_def)
qed

lemma multi_open:
  assumes "json_ok ty" "stored ty (db (visit_key pre uid err sid)) name = Some v"
    and "err = None \<or> err = Some ErrNotLoggedIn"
  shows "\<exists>entrystr. jt_dec ty entrystr = (v, None) \<and> entrystr \<noteq> [] \<and>
    (let key = visit_key pre uid err sid in
      (map_of (db key) name = Some entrystr \<or> map_of (db key) name = None \<and> v = jt_zero ty \<and> jt_enc ty v = Inr entrystr) \<and>
      getRedisSessionEntryMulti ty db None pre uid err sid (new_req name) =
        (Inr 0,
         \<lparr>sq_cache = Some \<lparr>rs_key = key, rs_value = db key, rs_created = (db key = []),
                          rs_checks = [(name, CheckEntry entrystr 0)]\<rparr>,
          sq_heap = [v], sq_name = name\<rparr>))"
  using open_entry [where db = db and key = "visit_key pre uid err sid", OF assms(1,2)] assms(3)
  by (auto simp: getRedisSessionEntryMulti_def sid_entry_def visit_key_def new_req_def getRedisSession_def Let_def)

lemma merge_fields: "map_of (AList.update n e (AList.merge h h)) k = (if k = n then Some e else map_of h k)"
  by (simp add: merge_conv' AList.update_conv' map_add_def split: option.splits)

lemma visit_effect:
  assumes "json_ok ty" "stored ty (db (visit_key pre uid err sid)) name = Some v"
    and "err = None \<or> err = Some ErrNotLoggedIn"
  shows "fst (visit ty pre name uid err sid f db) = Inr v \<and>
    stored ty (snd (visit ty pre name uid err sid f db) (visit_key pre uid err sid)) name = Some (f v) \<and>
    (\<forall>k. k \<noteq> visit_key pre uid err sid \<longrightarrow> snd (visit ty pre name uid err sid f db) k = db k) \<and>
    (\<forall>n. n \<noteq> name \<longrightarrow> map_of (snd (visit ty pre name uid err sid f db) (visit_key pre uid err sid)) n =
       map_of (db (visit_key pre uid err sid)) n)"
proof -
  let ?key = "visit_key pre uid err sid"
  obtain entrystr where e: "jt_dec ty entrystr = (v, None)" "entrystr \<noteq> []"
    "map_of (db ?key) name = Some entrystr \<or> map_of (db ?key) name = None \<and> v = jt_zero ty \<and> jt_enc ty v = Inr entrystr"
    "getRedisSessionEntryMulti ty db None pre uid err sid (new_req name) =
        (Inr 0,
         \<lparr>sq_cache = Some \<lparr>rs_key = ?key, rs_value = db ?key, rs_created = (db ?key = []),
                          rs_checks = [(name, CheckEntry entrystr 0)]\<rparr>,
          sq_heap = [v], sq_name = name\<rparr>)"
    using multi_open [where db = db, OF assms] by (auto simp: Let_def)
  obtain b where b: "jt_enc ty (f v) = Inr b" "b \<noteq> []" "jt_dec ty b = (f v, None)"
    using assms(1) by (auto simp: json_ok_def)
  have snd: "snd (visit ty pre name uid err sid f db) =
      (if entrystr = b then db else hset ?key (AList.update name b (db ?key)) db)"
    by (simp add: visit_def e(4) set_entry_def session_deferfn_def b(1))
  have same: "entrystr = b \<Longrightarrow> f v = v" using e(1) b(3) by simp
  have keep: "stored ty (db ?key) name = Some v" by (fact assms(2))
  show ?thesis
    using same keep b(2,3) by (simp add: snd, simp add: visit_def e(4) hset_def stored_def merge_fields)
qed

text \<open>The entry as it is found: its text, or that of the zero value when there is none or an empty one.\<close>

definition entry_text :: "'s json_type \<Rightarrow> fields \<Rightarrow> string \<Rightarrow> string" where
  "entry_text ty h name =
     (case map_of h name of
        Some e \<Rightarrow> if e = [] then (case jt_enc ty (jt_zero ty) of Inr z \<Rightarrow> z | Inl _ \<Rightarrow> []) else e
      | None \<Rightarrow> (case jt_enc ty (jt_zero ty) of Inr z \<Rightarrow> z | Inl _ \<Rightarrow> []))"

lemma faulty_visit_reads:
  assumes "err = None \<or> err = Some ErrNotLoggedIn" "key = visit_key pre uid err sid"
    and "entry_text ty (db key) name \<noteq> []" "jt_dec ty (entry_text ty (db key) name) = (v, None)"
    and "map_of (db key) name = None \<Longrightarrow> v = jt_zero ty"
  shows "faulty_visit ty None fw pre name uid err sid f db =
    (Inr v,
     (case jt_enc ty (f v) of
        Inl _ \<Rightarrow> db
      | Inr b \<Rightarrow> if b = entry_text ty (db key) name \<or> fw \<noteq> None then db
                  else hset key (AList.update name b (db key)) db))"
proof -
  let ?e = "entry_text ty (db key) name"
  have "GetRedisSessionEntry ty db None key name (new_req name) =
      (Inr (0, db key = []),
       \<lparr>sq_cache = Some \<lparr>rs_key = key, rs_value = db key, rs_created = (db key = []), rs_checks = [(name, CheckEntry ?e 0)]\<rparr>,
        sq_heap = [v], sq_name = name\<rparr>)"
    using assms(3-5)
    by (cases "map_of (db key) name")
      (auto simp: GetRedisSessionEntry_def getRedisSession_def new_req_def entry_text_def Let_def split: list.splits sum.splits)
  then have "getRedisSessionEntryMulti ty db None pre uid err sid (new_req name) =
      (Inr 0,
       \<lparr>sq_cache = Some \<lparr>rs_key = key, rs_value = db key, rs_created = (db key = []), rs_checks = [(name, CheckEntry ?e 0)]\<rparr>,
        sq_heap = [v], sq_name = name\<rparr>)"
    using assms(1,2)
    by (auto simp: getRedisSessionEntryMulti_def sid_entry_def visit_key_def new_req_def getRedisSession_def Let_def)
  then show ?thesis
    by (auto simp: faulty_visit_def set_entry_def session_deferfn_def split: sum.split)
qed

lemma faulty_visit_fails:
  assumes "err = None \<or> err = Some ErrNotLoggedIn"
  shows "faulty_visit ty (Some e) fw pre name uid err sid f db = (Inl (SessionFault e), db)"
  using assms
  by (auto simp: faulty_visit_def getRedisSessionEntryMulti_def sid_entry_def GetRedisSessionEntry_def getRedisSession_def
      new_req_def session_deferfn_def)

text \<open>C14. One request of a visitor, logged in or not, that opens its session entry once and changes it with \<open>f\<close>, and the next
  request on the same key, with no other request between. The first gets the value \<open>v\<close> its stored JSON decodes to, or the zero
  value when there is no such entry (or an empty one). If \<open>f v\<close> encodes, its JSON decodes to \<open>f v\<close> (and is not empty),
  and redis takes the write, the next request gets \<open>f v\<close>; every other key and every other entry of the session stays
  as it was. If redis refuses the read, the request gets that error and changes nothing. If \<open>f v\<close> does not encode or
  redis refuses the write, the request still gets \<open>v\<close>, nothing is written, and the next request gets \<open>v\<close> again: the
  change is lost silently. The two hypotheses on JSON: the entry found has a text that decodes to \<open>v\<close>, and that of a
  missing entry is the zero value's.\<close>

theorem redis_session_roundtrip:
  assumes "err = None \<or> err = Some ErrNotLoggedIn"
    and "key = (if err = None then pre @ '':sid:'' @ sid else pre @ '':uid:'' @ uid)"
    and "entry_text ty (db key) name \<noteq> []" "jt_dec ty (entry_text ty (db key) name) = (v, None)"
    and "map_of (db key) name = None \<longrightarrow> v = jt_zero ty"
  shows "(\<forall>b. jt_enc ty (f v) = Inr b \<and> b \<noteq> [] \<and> jt_dec ty b = (f v, None) \<longrightarrow>
      (\<exists>db'. faulty_visit ty None None pre name uid err sid f db = (Inr v, db') \<and>
        fst (faulty_visit ty None fw pre name uid err sid g db') = Inr (f v) \<and>
        (\<forall>k. k \<noteq> key \<longrightarrow> db' k = db k) \<and> (\<forall>n. n \<noteq> name \<longrightarrow> map_of (db' key) n = map_of (db key) n))) \<and>
    (\<forall>e. faulty_visit ty (Some e) fw pre name uid err sid f db = (Inl (SessionFault e), db)) \<and>
    ((\<exists>e. jt_enc ty (f v) = Inl e) \<or> fw \<noteq> None \<longrightarrow>
      faulty_visit ty None fw pre name uid err sid f db = (Inr v, db) \<and>
      fst (faulty_visit ty None fw pre name uid err sid g db) = Inr v)"
proof (intro conjI allI impI)
  have key: "key = visit_key pre uid err sid" using assms(1,2) by (auto simp: visit_key_def uid_key_def sid_key_def)
  note reads = faulty_visit_reads [OF assms(1) key]
  note here = reads [where db = db, OF assms(3,4) assms(5) [rule_format]]
  show "faulty_visit ty (Some e) fw pre name uid err sid f db = (Inl (SessionFault e), db)" for e
    by (rule faulty_visit_fails [OF assms(1)])
  show "faulty_visit ty None fw pre name uid err sid f db = (Inr v, db)" if "(\<exists>e. jt_enc ty (f v) = Inl e) \<or> fw \<noteq> None"
    using that by (auto simp: here split: sum.split)
  show "fst (faulty_visit ty None fw pre name uid err sid g db) = Inr v" by (simp add: here)
  fix b assume b: "jt_enc ty (f v) = Inr b \<and> b \<noteq> [] \<and> jt_dec ty b = (f v, None)"
  show "\<exists>db'. faulty_visit ty None None pre name uid err sid f db = (Inr v, db') \<and>
        fst (faulty_visit ty None fw pre name uid err sid g db') = Inr (f v) \<and>
        (\<forall>k. k \<noteq> key \<longrightarrow> db' k = db k) \<and> (\<forall>n. n \<noteq> name \<longrightarrow> map_of (db' key) n = map_of (db key) n)"
  proof (cases "b = entry_text ty (db key) name")
    case True
    then have "f v = v" using b assms(4) by simp
    then show ?thesis using True b by (intro exI [of _ db]) (simp add: here)
  next
    case False
    let ?db' = "hset key (AList.update name b (db key)) db"
    have m: "map_of (?db' key) n = (if n = name then Some b else map_of (db key) n)" for n
      by (simp add: hset_def merge_fields)
    then have e: "entry_text ty (?db' key) name = b" using b by (simp add: entry_text_def)
    have "fst (faulty_visit ty None fw pre name uid err sid g ?db') = Inr (f v)"
      using reads [where db = ?db' and v = "f v" and name = name and ty = ty] b e m by simp
    then show ?thesis using False b m by (intro exI [of _ ?db']) (simp add: here, simp add: hset_def)
  qed
qed

definition text_json :: "string json_type" where
  "text_json = \<lparr>jt_zero = [], jt_enc = (\<lambda>v. Inr (CHR ''\"'' # v)), jt_dec = (\<lambda>b. (tl b, None))\<rparr>"

lemma text_json_ok: "json_ok text_json"
  by (simp add: json_ok_def text_json_def)

theorem redis_session_roundtrip_witness:
  "\<exists>db'. faulty_visit text_json None None ''s'' ''cart'' ''alice'' None ''sid1'' (\<lambda>v. v @ ''book'') (\<lambda>_. []) = (Inr [], db') \<and>
     fst (faulty_visit text_json None (Some ''timeout'') ''s'' ''cart'' ''alice'' None ''sid1'' id db') = Inr ''book''"
proof -
  let ?db = "(\<lambda>_. []) :: hashes"
  have "entry_text text_json (?db k) ''cart'' \<noteq> []" "jt_dec text_json (entry_text text_json (?db k) ''cart'') = ([], None)"
    for k :: string by (simp_all add: entry_text_def text_json_def)
  from redis_session_roundtrip [where db = ?db and f = "\<lambda>v. v @ ''book''" and err = None, OF _ refl this,
      THEN conjunct1, rule_format, of "CHR ''\"'' # ''book''"]
  show ?thesis by (fastforce simp: text_json_def)
qed

text \<open>The branch with the shared key is taken for visitors who are not logged in: all of them, whatever
  their session ids, read and write one session, so what one of them stores the next one reads. Logged-in
  users are told apart by session id alone: the same user on another device does not see the
  session.\<close>

theorem anonymous_visitors_share:
  assumes "json_ok ty" "stored ty (db (uid_key pre [])) name = Some v"
    and "stored ty (db (sid_key pre sid2)) name = Some w" "sid1 \<noteq> sid2"
  shows "fst (visit ty pre name [] (Some ErrNotLoggedIn) sid2 g
        (snd (visit ty pre name [] (Some ErrNotLoggedIn) sid1 f db))) = Inr (f v) \<and>
    (stored ty (db (sid_key pre sid1)) name \<noteq> None \<longrightarrow>
      fst (visit ty pre name uid None sid2 g (snd (visit ty pre name uid None sid1 f db))) = Inr w)"
proof (intro conjI impI)
  let ?db1 = "snd (visit ty pre name [] (Some ErrNotLoggedIn) sid1 f db)"
  have "stored ty (?db1 (uid_key pre [])) name = Some (f v)"
    using visit_effect [of ty db pre "[]" "Some ErrNotLoggedIn" sid1 name v f] assms(1,2) by (simp add: visit_key_def)
  then show "fst (visit ty pre name [] (Some ErrNotLoggedIn) sid2 g ?db1) = Inr (f v)"
    using visit_effect [of ty ?db1 pre "[]" "Some ErrNotLoggedIn" sid2 name "f v" g] assms(1) by (simp add: visit_key_def)
next
  let ?db1 = "snd (visit ty pre name uid None sid1 f db)"
  assume "stored ty (db (sid_key pre sid1)) name \<noteq> None"
  then obtain u where "stored ty (db (sid_key pre sid1)) name = Some u" by auto
  then have "\<forall>k. k \<noteq> sid_key pre sid1 \<longrightarrow> ?db1 k = db k"
    using visit_effect [of ty db pre uid None sid1 name u f] assms(1) by (simp add: visit_key_def)
  then have "stored ty (?db1 (sid_key pre sid2)) name = Some w"
    using assms(3,4) by (auto simp: sid_key_def)
  then show "fst (visit ty pre name uid None sid2 g ?db1) = Inr w"
    using visit_effect [of ty ?db1 pre uid None sid2 name w g] assms(1) by (simp add: visit_key_def)
qed

theorem anonymous_visitors_share_witness:
  "fst (visit text_json ''s'' ''cart'' [] (Some ErrNotLoggedIn) ''sid2'' id
     (snd (visit text_json ''s'' ''cart'' [] (Some ErrNotLoggedIn) ''sid1'' (\<lambda>v. v @ ''my address'') (\<lambda>_. [])))) =
   Inr ''my address''"
proof -
  let ?db = "(\<lambda>_. []) :: hashes"
  have z: "stored text_json (?db k) ''cart'' = Some []" for k :: string by (simp add: stored_def text_json_def)
  show ?thesis
    using anonymous_visitors_share [where db = ?db and f = "\<lambda>v. v @ ''my address''" and g = id, OF text_json_ok z z,
        of "''sid1''" "''sid2''" "''s''"]
    by simp
qed

text \<open>
  Opening the entry a second time in one request hands out another pointer and replaces the check: what the
  handler does through the first pointer is lost.
\<close>

lemma second_open_drops_first:
  assumes "json_ok ty" "stored ty (db key) name = Some v"
    and "GetRedisSessionEntry ty db None key name (new_req name) = (Inr (p1, c1), q1)"
    and "GetRedisSessionEntry ty db None key name q1 = (Inr (p2, c2), q2)"
  shows "p1 \<noteq> p2 \<and> stored ty (session_deferfn ty (set_entry p1 f q2) None db key) name = Some v"
proof -
  obtain entrystr where e: "jt_dec ty entrystr = (v, None)" "entrystr \<noteq> []"
    "map_of (db key) name = Some entrystr \<or> map_of (db key) name = None \<and> v = jt_zero ty \<and> jt_enc ty v = Inr entrystr"
    and q1: "q1 = \<lparr>sq_cache = Some \<lparr>rs_key = key, rs_value = db key, rs_created = (db key = []),
                        rs_checks = [(name, CheckEntry entrystr 0)]\<rparr>, sq_heap = [v], sq_name = name\<rparr>" "p1 = 0"
    using open_entry [where db = db and key = key, OF assms(1,2)] assms(3) by auto
  have q2: "q2 = \<lparr>sq_cache = Some \<lparr>rs_key = key, rs_value = db key, rs_created = (db key = []),
                        rs_checks = [(name, CheckEntry entrystr 1)]\<rparr>, sq_heap = [v, v], sq_name = name\<rparr>" "p2 = 1"
    using assms(4) e
    by (auto simp: q1 GetRedisSessionEntry_def getRedisSession_def Let_def split: option.splits list.splits)
  obtain b where b: "jt_enc ty v = Inr b" "b \<noteq> []" "jt_dec ty b = (v, None)"
    using assms(1) by (auto simp: json_ok_def)
  have "session_deferfn ty (set_entry p1 f q2) None db =
      (if entrystr = b then db else hset key (AList.update name b (db key)) db)"
    by (simp add: session_deferfn_def set_entry_def q1 q2 b(1))
  then show ?thesis
    using assms(2) b by (simp add: q1 q2 hset_def stored_def merge_fields)
qed

end
