(* ===== verification/Redis_Stream.thy ===== *)
theory Redis_Stream
  imports Job_Worker
begin

section \<open>Broadcast jobs over redis streams\<close>

text \<open>
  \<open>typedhandler_job_redis.go\<close>: \<open>call_stream\<close>, \<open>callRedisInit\<close> with the listener it builds, \<open>IsTarget\<close>,
  \<open>AddStream\<close> and \<open>makeStreams\<close>, the start-up of one stream in \<open>StartListen\<close>, \<open>replayUntilLastID\<close>, and the
  delivery of the listening loop. A stream is its entries in order, the last generated id, and the
  last delivered id and the consumers of its groups. Ids are strings that redis orders by \<open>key\<close>. Other nodes
  may append while a node starts, so each read has a stream of its own. Log output and the
  progress counter are left out.
\<close>

subsection \<open>Streams\<close>

record message =
  msg_id :: string
  msg_input :: "string option"
  msg_version :: "string option"

record stream =
  sr_entries :: "message list"
  sr_lastgen :: string
  sr_groups :: "(string \<times> string) list"
  sr_consumers :: "(string \<times> string) list"

definition after_id :: "(string \<Rightarrow> nat) \<Rightarrow> string \<Rightarrow> message list \<Rightarrow> message list" where
  "after_id key i ms = filter (\<lambda>m. key i < key (msg_id m)) ms"

text \<open>\<open>XREAD COUNT 100\<close>, \<open>XGROUP CREATE ... MKSTREAM\<close> (an existing group is kept), \<open>XGROUP DESTROY\<close>.\<close>

definition xread :: "(string \<Rightarrow> nat) \<Rightarrow> string \<Rightarrow> message list \<Rightarrow> message list" where
  "xread key current ms = take 100 (after_id key current ms)"

definition xgroup_create :: "string \<Rightarrow> string \<Rightarrow> stream option \<Rightarrow> stream" where
  "xgroup_create grp start so =
     (let s = (case so of Some s \<Rightarrow> s
               | None \<Rightarrow> \<lparr>sr_entries = [], sr_lastgen = ''0-0'', sr_groups = [], sr_consumers = []\<rparr>) in
      if map_of (sr_groups s) grp \<noteq> None then s
      else s\<lparr>sr_groups := (grp, if start = ''$'' then sr_lastgen s else start) # sr_groups s\<rparr>)"

definition xgroup_destroy :: "string \<Rightarrow> stream \<Rightarrow> stream" where
  "xgroup_destroy grp s =
     s\<lparr>sr_groups := filter (\<lambda>g. fst g \<noteq> grp) (sr_groups s),
       sr_consumers := filter (\<lambda>c. fst c \<noteq> grp) (sr_consumers s)\<rparr>"

definition xtrim_minid :: "(string \<Rightarrow> nat) \<Rightarrow> string \<Rightarrow> stream \<Rightarrow> stream" where
  "xtrim_minid key i s = s\<lparr>sr_entries := filter (\<lambda>m. key i \<le> key (msg_id m)) (sr_entries s)\<rparr>"

text \<open>What a group with a position still delivers: the entries after it, each to one consumer, in order.\<close>

definition group_deliveries :: "(string \<Rightarrow> nat) \<Rightarrow> string \<Rightarrow> stream \<Rightarrow> message list" where
  "group_deliveries key grp s =
     (case map_of (sr_groups s) grp of None \<Rightarrow> [] | Some pos \<Rightarrow> after_id key pos (sr_entries s))"

subsection \<open>Publishing and receiving\<close>

text \<open>\<open>call_stream\<close>: \<open>xadd\<close> is the id redis gives the new entry or its error; a call never yields an output.\<close>

definition call_stream ::
  "('i, 'u) fn \<Rightarrow> ('i \<Rightarrow> string + bytes) \<Rightarrow> string + string \<Rightarrow> 'i \<Rightarrow> stream \<Rightarrow> job_error \<times> stream" where
  "call_stream f marshal xadd input s =
     (case marshal input of
        Inl _ \<Rightarrow> (ErrJobInputEncodeFailed, s)
      | Inr inJSON \<Rightarrow>
          (case xadd of
             Inl _ \<Rightarrow> (FatalBackendError None, s)
           | Inr xaddid \<Rightarrow>
               (JobPendingError xaddid ''job fanout accepted'',
                s\<lparr>sr_entries := sr_entries s @
                     [\<lparr>msg_id = xaddid, msg_input = Some inJSON, msg_version = Some (handlerVersion (fn_opt f))\<rparr>],
                  sr_lastgen := xaddid\<rparr>)))"

datatype listen_error = ErrStreamInputDecodeFailed

text \<open>
  The JSON the listener hands on: on a version difference it calls \<open>OnInputUpgrade\<close> (a nil one panics), and
  takes the upgraded input only when marshalling it \<open>failed\<close>, as the empty string.
\<close>

definition upgraded_json ::
  "fn_option \<Rightarrow> (string \<Rightarrow> bytes \<Rightarrow> bool \<times> 'a) option \<Rightarrow> ('a \<Rightarrow> string + bytes) \<Rightarrow> string \<Rightarrow> bytes \<Rightarrow> bytes option" where
  "upgraded_json opt upgrade marshal versionstr injson =
     (if hasMajorOrMinorVersionDiff versionstr (handlerVersion opt) then
        (case upgrade of
           None \<Rightarrow> None
         | Some up \<Rightarrow>
             (case up versionstr injson of
                (updated, updatein) \<Rightarrow>
                  if updated then
                    (case marshal updatein of Inl _ \<Rightarrow> Some [] | Inr _ \<Rightarrow> Some injson)
                  else Some injson))
      else Some injson)"

definition listener ::
  "('i, 'u) fn \<Rightarrow> 'i invoke_hooks \<Rightarrow> ('i option \<Rightarrow> string + bytes) \<Rightarrow> message \<Rightarrow> callSQLStrategy \<Rightarrow>
    (listen_error + invocation) option" where
  "listener f hk marshal msg c =
     (case msg_input msg of
        None \<Rightarrow> Some (Inl ErrStreamInputDecodeFailed)
      | Some injson \<Rightarrow>
          (case msg_version msg of
             None \<Rightarrow> Some (Inl ErrStreamInputDecodeFailed)
           | Some versionstr \<Rightarrow>
               (case upgraded_json (fn_opt f) (ih_upgrade hk) marshal versionstr injson of
                  None \<Rightarrow> None
                | Some injson' \<Rightarrow>
                    map_option Inr
                      (invokeFunctionJSON f hk False None (encodeHandlerName (fn_opt f)) versionstr injson' c))))"

subsection \<open>Configuration\<close>

record streamType =
  sty_Stream :: string
  sty_TTL :: duration
  sty_mode :: job_mode
  sty_start :: string
  sty_ids :: string

text \<open>\<open>OnStreamInit\<close> as the start it returns; its error is dropped by the code.\<close>

definition callRedisInit :: "string \<Rightarrow> bool \<Rightarrow> (unit \<Rightarrow> string \<times> string option) option \<Rightarrow> duration \<Rightarrow> fn_option \<Rightarrow> string + streamType option" where
  "callRedisInit pre has_redis onInit ttl opt =
     (let start = (case o_mode opt of ModeFanout \<Rightarrow> Some ''$'' | ModeReplay \<Rightarrow> Some ''0'' | ModeReplayAll \<Rightarrow> Some ''0''
                   | _ \<Rightarrow> None) in
      case start of
        None \<Rightarrow> Inr None
      | Some st0 \<Rightarrow>
          if \<not> has_redis then Inl ''handler requires redis, but redis not initialized''
          else
            let st1 = (case onInit of Some g \<Rightarrow> fst (g ()) | None \<Rightarrow> st0);
                st2 = (if st1 = [] then ''$'' else st1)
            in Inr (Some \<lparr>sty_Stream = pre @ o_name opt, sty_TTL = ttl, sty_mode = o_mode opt,
                         sty_start = st2, sty_ids = ''>''\<rparr>))"

definition IsTarget :: "fn_option \<Rightarrow> bool" where
  "IsTarget opt = (case o_mode opt of ModeFanout \<Rightarrow> True | ModeReplay \<Rightarrow> True | ModeReplayAll \<Rightarrow> True | _ \<Rightarrow> False)"

text \<open>The stream types in the order one iteration over the map takes: names first, then as many ids.\<close>

definition makeStreams :: "(string \<times> streamType) list \<Rightarrow> string list" where
  "makeStreams streamTypes = map (sty_Stream \<circ> snd) streamTypes @ map (sty_ids \<circ> snd) streamTypes"

definition AddStream :: "streamType \<Rightarrow> (string \<times> streamType) list \<Rightarrow> (string \<times> streamType) list \<times> string list" where
  "AddStream st sts = (let sts' = AList.update (sty_Stream st) st sts in (sts', makeStreams sts'))"

subsection \<open>Replay\<close>

text \<open>One batch: the messages up to and including the last one, and whether that was reached.\<close>

fun replay_batch :: "string \<Rightarrow> message list \<Rightarrow> message list \<times> bool" where
  "replay_batch lastId [] = ([], False)"
| "replay_batch lastId (m # ms) =
     (if msg_id m = lastId then ([m], True)
      else (case replay_batch lastId ms of (out, reached) \<Rightarrow> (m # out, reached)))"

text \<open>
  The loop: the \<open>i\<close>-th read sees \<open>db i\<close> and may fail; the result is the error if any and the messages received.
  It may run for ever when the last id is not in the stream and entries keep coming.
\<close>

partial_function (option) replay_loop ::
  "(string \<Rightarrow> nat) \<Rightarrow> (nat \<Rightarrow> message list) \<Rightarrow> (nat \<Rightarrow> string option) \<Rightarrow> string \<Rightarrow> nat \<Rightarrow> string \<Rightarrow> message list \<Rightarrow>
    (string option \<times> message list) option" where
  "replay_loop key db fault lastId i current acc =
     (case fault i of
        Some e \<Rightarrow> Some (Some e, acc)
      | None \<Rightarrow>
          if xread key current (db i) = [] then Some (None, acc)
          else if snd (replay_batch lastId (xread key current (db i)))
          then Some (None, acc @ fst (replay_batch lastId (xread key current (db i))))
          else replay_loop key db fault lastId (Suc i) (msg_id (List.last (xread key current (db i))))
                 (acc @ xread key current (db i)))"

definition replayUntilLastID ::
  "(string \<Rightarrow> nat) \<Rightarrow> (nat \<Rightarrow> message list) \<Rightarrow> (nat \<Rightarrow> string option) \<Rightarrow> string \<Rightarrow> string \<Rightarrow>
    (string option \<times> message list) option" where
  "replayUntilLastID key db fault startId lastId =
     (if lastId = ''0'' \<or> lastId = [] then Some (None, [])
      else if startId = ''$'' \<or> startId = [] then Some (None, [])
      else replay_loop key db fault lastId 0 startId [])"

text \<open>
  The start of one stream: \<open>so\<close> is what the first look finds (trimmed when there is a TTL, \<open>threshold\<close> being the
  id of the time before it), \<open>db\<close> the entries seen by the reads, \<open>fin\<close> the stream when the group is made. The
  result is the error, the messages received by the replay, and the stream the listening starts on.
\<close>

definition observe :: "(string \<Rightarrow> nat) \<Rightarrow> string \<Rightarrow> streamType \<Rightarrow> stream option \<Rightarrow> stream option" where
  "observe key threshold st so =
     (case so of None \<Rightarrow> None | Some s \<Rightarrow> if sty_TTL st \<noteq> 0 then Some (xtrim_minid key threshold s) else Some s)"

definition StartListen ::
  "(string \<Rightarrow> nat) \<Rightarrow> string \<Rightarrow> string \<Rightarrow> string \<Rightarrow> (nat \<Rightarrow> message list) \<Rightarrow> (nat \<Rightarrow> string option) \<Rightarrow> streamType \<Rightarrow>
    stream option \<Rightarrow> stream option \<Rightarrow> (string option \<times> message list \<times> stream option) option" where
  "StartListen key grp consumer threshold db fault st so fin =
     (case observe key threshold st so of
        None \<Rightarrow> Some (None, [], Some (xgroup_create grp (sty_start st) fin))
      | Some s \<Rightarrow>
          let lastId = sr_lastgen s; found = (grp, consumer) \<in> set (sr_consumers s) in
          (case sty_mode st of
            ModeFanout \<Rightarrow>
              Some (None, [], if found then fin else Some (xgroup_create grp (sty_start st) fin))
          | ModeReplay \<Rightarrow>
              if found then Some (None, [], fin)
              else
                (case replayUntilLastID key db fault (sty_start st) lastId of
                   None \<Rightarrow> None
                 | Some (Some e, ms) \<Rightarrow> Some (Some e, ms, fin)
                 | Some (None, ms) \<Rightarrow> Some (None, ms, Some (xgroup_create grp (sty_start st) fin)))
          | ModeReplayAll \<Rightarrow>
              (case replayUntilLastID key db fault (sty_start st) lastId of
                 None \<Rightarrow> None
               | Some (Some e, ms) \<Rightarrow> Some (Some e, ms, fin)
               | Some (None, ms) \<Rightarrow>
                   Some (None, ms, Some (xgroup_create grp lastId (map_option (xgroup_destroy grp) fin))))
          | _ \<Rightarrow> Some (None, [], fin)))"

subsection \<open>What is received how often\<close>

definition in_order :: "(string \<Rightarrow> nat) \<Rightarrow> message list \<Rightarrow> bool" where
  "in_order key ms \<longleftrightarrow> sorted_wrt (\<lambda>a b. key (msg_id a) < key (msg_id b)) ms"

lemma after_id_append [simp]: "after_id key i (xs @ ys) = after_id key i xs @ after_id key i ys"
  by (simp add: after_id_def)

lemma after_id_all: "\<forall>m \<in> set ms. key i < key (msg_id m) \<Longrightarrow> after_id key i ms = ms"
  by (simp add: after_id_def)

lemma after_id_none: "\<forall>m \<in> set ms. key (msg_id m) \<le> key i \<Longrightarrow> after_id key i ms = []"
  by (simp add: after_id_def not_less)

lemma after_nth:
  assumes "in_order key A" "k < length A"
  shows "after_id key (msg_id (A ! k)) A = drop (Suc k) A"
proof -
  have "after_id key (msg_id (A ! k)) (take (Suc k) A) = []"
    using assms by (intro after_id_none ballI)
      (auto simp: in_order_def sorted_wrt_iff_nth_less in_set_conv_nth less_Suc_eq less_imp_le)
  moreover have "after_id key (msg_id (A ! k)) (drop (Suc k) A) = drop (Suc k) A"
    using assms by (intro after_id_all) (auto simp: in_order_def sorted_wrt_iff_nth_less in_set_conv_nth)
  ultimately show ?thesis
    by (metis append_Nil append_take_drop_id after_id_append)
qed

lemma after_after:
  assumes "key i \<le> key j" shows "after_id key j (after_id key i ms) = after_id key j ms"
  using assms by (auto simp: after_id_def intro: filter_cong)

lemma replay_batch_stop:
  "\<forall>m \<in> set xs. msg_id m \<noteq> lastId \<Longrightarrow> msg_id x = lastId \<Longrightarrow> replay_batch lastId (xs @ x # ys) = (xs @ [x], True)"
  by (induction xs) auto

lemma replay_batch_all: "\<forall>m \<in> set xs. msg_id m \<noteq> lastId \<Longrightarrow> replay_batch lastId xs = (xs, False)"
  by (induction xs) auto

text \<open>The loop while the last message \<open>m\<close> is still ahead of the cursor.\<close>

lemma replay_loop_reaches:
  assumes "in_order key (E @ [m])" "msg_id m = lastId"
    and "\<And>i. db i = E @ m # new i" "\<And>i n. n \<in> set (new i) \<Longrightarrow> key lastId < key (msg_id n)"
    and "\<And>i. fault i = None" "key current < key lastId"
  shows "replay_loop key db fault lastId i current acc = Some (None, acc @ after_id key current (E @ [m]))"
  using assms(6)
proof (induction "length (after_id key current (E @ [m]))" arbitrary: i current acc rule: less_induct)
  case less
  let ?A = "after_id key current E"
  have one: "after_id key current [m] = [m]"
    using less.prems assms(2) by (simp add: after_id_def)
  then have A: "after_id key current (E @ [m]) = ?A @ [m]" by simp
  have ord: "in_order key (?A @ [m])"
    using assms(1) by (auto simp: in_order_def after_id_def sorted_wrt_append sorted_wrt_filter)
  have other: "\<forall>x \<in> set ?A. msg_id x \<noteq> lastId"
    using ord assms(2) by (auto simp: in_order_def sorted_wrt_append)
  have read: "xread key current (db i) = take 100 (?A @ m # new i)"
  proof -
    have "after_id key current (new i) = new i"
      using less.prems assms(4) by (intro after_id_all) (auto intro: less_trans)
    then show ?thesis using less.prems assms(2) by (simp add: xread_def assms(3) after_id_def)
  qed
  show ?case
  proof (cases "length ?A < 100")
    case True
    then obtain ys where ys: "xread key current (db i) = ?A @ m # ys"
      unfolding read by (cases "100 - length ?A") (auto simp: take_Cons)
    have stop: "replay_batch lastId (?A @ m # ys) = (?A @ [m], True)"
      by (rule replay_batch_stop [OF other assms(2)])
    show ?thesis by (subst replay_loop.simps) (simp add: assms(5) ys stop one)
  next
    case False
    let ?B = "take 100 ?A"
    have B: "xread key current (db i) = ?B" using False by (simp add: read)
    have go: "replay_batch lastId ?B = (?B, False)"
      by (rule replay_batch_all) (use other in \<open>auto dest: in_set_takeD\<close>)
    have ne: "?B \<noteq> []" "?A \<noteq> []" using False by auto
    let ?next = "msg_id (?A ! 99)"
    have last: "List.last ?B = ?A ! 99" using False ne by (simp add: last_conv_nth)
    have in_A: "?A ! 99 \<in> set ?A" using False by (intro nth_mem) simp
    then have mid: "key current < key ?next" by (auto simp: after_id_def)
    have lt: "key ?next < key lastId" using ord in_A assms(2) by (auto simp: in_order_def sorted_wrt_append)
    have "in_order key ?A" using ord by (simp add: in_order_def sorted_wrt_append)
    then have "after_id key ?next ?A = drop 100 ?A"
      using after_nth [of key ?A 99] False by simp
    then have rest: "after_id key ?next (E @ [m]) = drop 100 ?A @ [m]"
      using after_after [of key current ?next E] mid lt assms(2) by (simp add: after_id_def)
    have "length (after_id key ?next (E @ [m])) < length (after_id key current (E @ [m]))"
      unfolding rest A using False by simp
    from less.hyps [OF this lt, of "Suc i" "acc @ ?B"]
    have IH: "replay_loop key db fault lastId (Suc i) ?next (acc @ ?B) = Some (None, (acc @ ?B) @ drop 100 ?A @ [m])"
      by (simp only: rest)
    have "(acc @ ?B) @ drop 100 ?A @ [m] = acc @ after_id key current (E @ [m])"
      unfolding A by (metis append.assoc append_take_drop_id)
    with IH show ?thesis
      by (subst replay_loop.simps) (simp add: assms(5) B go ne last)
  qed
qed

text \<open>
  The situation of a start: \<open>s\<close> is found, the last id redis gave is that of its last entry \<open>m\<close>, ids are in order, the start
  position is neither \<open>$\<close> nor empty, and entries come in behind \<open>m\<close> (none is removed) while the node starts.
\<close>

definition starting ::
  "(string \<Rightarrow> nat) \<Rightarrow> string \<Rightarrow> streamType \<Rightarrow> stream option \<Rightarrow> stream \<Rightarrow> message list \<Rightarrow> message \<Rightarrow>
    (nat \<Rightarrow> message list) \<Rightarrow> stream \<Rightarrow> message list \<Rightarrow> bool" where
  "starting key threshold st so s E m db fin late \<longleftrightarrow>
     observe key threshold st so = Some s \<and> sr_entries s = E @ [m] \<and> sr_lastgen s = msg_id m \<and>
     in_order key (E @ [m]) \<and> msg_id m \<notin> {''0'', [], ''$''} \<and>
     (\<forall>i. \<exists>new. db i = E @ m # new \<and> (\<forall>n \<in> set new. key (msg_id m) < key (msg_id n))) \<and>
     sr_entries fin = E @ m # late \<and> (\<forall>n \<in> set late. key (msg_id m) < key (msg_id n)) \<and>
     sty_start st \<noteq> ''$'' \<and> sty_start st \<noteq> []"

lemma starting_replay:
  assumes "starting key threshold st so s E m db fin late" "key (sty_start st) < key (msg_id m)"
  shows "replayUntilLastID key db (\<lambda>_. None) (sty_start st) (sr_lastgen s) =
    Some (None, after_id key (sty_start st) (E @ [m]))"
proof -
  obtain new where "\<And>i. db i = E @ m # new i" "\<And>i n. n \<in> set (new i) \<Longrightarrow> key (msg_id m) < key (msg_id n)"
    using assms unfolding starting_def by metis
  with assms show ?thesis
    using replay_loop_reaches [of key E m "msg_id m" db new "\<lambda>_. None" "sty_start st" 0 "[]"]
    by (auto simp: starting_def replayUntilLastID_def)
qed

lemma starting_late:
  assumes "starting key threshold st so s E m db fin late"
  shows "after_id key (msg_id m) (E @ m # late) = late"
    and "key (sty_start st) \<le> key (msg_id m) \<Longrightarrow> after_id key (sty_start st) (E @ m # late) = after_id key (sty_start st) (E @ [m]) @ late"
proof -
  have E: "after_id key (msg_id m) E = []"
    using assms by (intro after_id_none) (auto simp: starting_def in_order_def sorted_wrt_append)
  have l: "after_id key (msg_id m) late = late" "key (sty_start st) \<le> key (msg_id m) \<Longrightarrow> after_id key (sty_start st) late = late"
    using assms by (intro after_id_all; auto simp: starting_def intro: le_less_trans)+
  have "after_id key i (x # xs) = after_id key i [x] @ after_id key i xs" for i x xs by (simp add: after_id_def)
  note c = this [of _ m late]
  show "after_id key (msg_id m) (E @ m # late) = late"
    by (simp add: c E l) (simp add: after_id_def)
  show "after_id key (sty_start st) (E @ m # late) = after_id key (sty_start st) (E @ [m]) @ late"
    if "key (sty_start st) \<le> key (msg_id m)" using that by (simp add: c l)
qed

text \<open>A start position that is the last id: the replay never meets the last message again, and takes what comes in.\<close>

lemma starting_at_last:
  assumes "starting key threshold st so s E m db fin late" "sty_start st = msg_id m"
    and "in_order key late" "length late \<le> 100" "\<And>i. db i = E @ m # late"
  shows "replayUntilLastID key db (\<lambda>_. None) (sty_start st) (sr_lastgen s) = Some (None, late)"
proof -
  have late: "after_id key (msg_id m) (E @ m # late) = late" by (rule starting_late(1) [OF assms(1)])
  have other: "\<forall>n \<in> set late. msg_id n \<noteq> msg_id m" using assms(1) by (auto simp: starting_def)
  have "replay_loop key db (\<lambda>_. None) (msg_id m) 0 (msg_id m) [] = Some (None, late)"
  proof (cases "late = []")
    case True
    then show ?thesis using late by (subst replay_loop.simps) (simp add: xread_def assms(5))
  next
    case False
    have ord: "in_order key (E @ m # late)"
      using assms(1,3) by (force simp: starting_def in_order_def sorted_wrt_append)
    have "after_id key (msg_id (List.last late)) (E @ m # late) = []"
      using after_nth [OF ord, of "length E + length late"] False by (simp add: last_conv_nth nth_append)
    then show ?thesis using False late assms(4) replay_batch_all [OF other]
      by (subst replay_loop.simps, subst replay_loop.simps) (simp add: xread_def assms(5))
  qed
  then show ?thesis using assms(1,2) by (simp add: starting_def replayUntilLastID_def)
qed

lemma replayall_listens_behind_last:
  assumes "starting key threshold st so s E m db fin late" "sty_mode st = ModeReplayAll"
    and "replayUntilLastID key db (\<lambda>_. None) (sty_start st) (sr_lastgen s) = Some (None, ms)"
  shows "\<exists>s'. StartListen key grp consumer threshold db (\<lambda>_. None) st so (Some fin) = Some (None, ms, Some s') \<and>
    sr_entries s' = E @ m # late \<and> group_deliveries key grp s' = late"
proof -
  let ?s' = "xgroup_create grp (msg_id m) (Some (xgroup_destroy grp fin))"
  have "StartListen key grp consumer threshold db (\<lambda>_. None) st so (Some fin) = Some (None, ms, Some ?s')"
    using assms by (simp add: StartListen_def starting_def Let_def)
  moreover have "map_of (filter (\<lambda>g. fst g \<noteq> grp) gs) grp = None" for gs :: "(string \<times> string) list"
    by (induction gs) auto
  then have "group_deliveries key grp ?s' = after_id key (msg_id m) (sr_entries fin)" "sr_entries ?s' = sr_entries fin"
    using assms(1) by (simp_all add: group_deliveries_def xgroup_create_def xgroup_destroy_def starting_def)
  ultimately show ?thesis using starting_late(1) [OF assms(1)] assms(1) by (simp add: starting_def)
qed

text \<open>C13. A handler in mode \<open>replayall\<close> starts on a stream found with entries \<open>E @ [m]\<close> (after the TTL trim), ids in order,
  \<open>m\<close> bearing the last id redis gave (neither empty, \<open>0\<close> nor \<open>$\<close>); its start position is neither \<open>$\<close> nor empty, no read
  fails, nothing is deleted and others append behind \<open>m\<close> meanwhile. With a start position before \<open>m\<close> the replay
  ends, however long the stream is and whatever is appended: it receives the messages after the start up to \<open>m\<close>, and
  the group delivers exactly those behind \<open>m\<close>, so together each message after the start once and in order. With a start
  position that is the last id itself this fails: up to 100 messages appended before the first read are received by the
  replay and every one of them again from the group.\<close>

theorem replayall_exactly_once:
  assumes "starting key threshold st so s E m db fin late" "sty_mode st = ModeReplayAll"
  shows "(key (sty_start st) < key (msg_id m) \<longrightarrow>
      (\<exists>ms s'. StartListen key grp consumer threshold db (\<lambda>_. None) st so (Some fin) = Some (None, ms, Some s') \<and>
        sr_entries s' = E @ m # late \<and>
        ms = filter (\<lambda>x. key (sty_start st) < key (msg_id x)) (E @ [m]) \<and> group_deliveries key grp s' = late \<and>
        ms @ group_deliveries key grp s' = filter (\<lambda>x. key (sty_start st) < key (msg_id x)) (sr_entries s'))) \<and>
    (sty_start st = msg_id m \<and> in_order key late \<and> length late \<le> 100 \<and> (\<forall>i. db i = E @ m # late) \<longrightarrow>
      (\<exists>s'. StartListen key grp consumer threshold db (\<lambda>_. None) st so (Some fin) = Some (None, late, Some s') \<and>
        group_deliveries key grp s' = late))"
proof (intro conjI impI)
  assume lt: "key (sty_start st) < key (msg_id m)"
  show "\<exists>ms s'. StartListen key grp consumer threshold db (\<lambda>_. None) st so (Some fin) = Some (None, ms, Some s') \<and>
        sr_entries s' = E @ m # late \<and>
        ms = filter (\<lambda>x. key (sty_start st) < key (msg_id x)) (E @ [m]) \<and> group_deliveries key grp s' = late \<and>
        ms @ group_deliveries key grp s' = filter (\<lambda>x. key (sty_start st) < key (msg_id x)) (sr_entries s')"
    using replayall_listens_behind_last [OF assms starting_replay [OF assms(1) lt], of grp consumer]
      starting_late(2) [OF assms(1)] lt by (auto simp: after_id_def)
qed (use replayall_listens_behind_last [OF assms starting_at_last [OF assms(1)]] in blast)

text \<open>In mode \<open>replay\<close> the first start of a node makes its group at the start position, not at the end
  of the replay: every message the replay received is delivered a second time. (A node that is found in
  the group goes on from the position the group kept.)\<close>

theorem replay_delivers_twice:
  assumes "starting key threshold st so s E m db fin late" "key (sty_start st) < key (msg_id m)" "sty_mode st = ModeReplay"
    and "(grp, consumer) \<notin> set (sr_consumers s)" "map_of (sr_groups fin) grp = None"
  shows "\<exists>ms s'. StartListen key grp consumer threshold db (\<lambda>_. None) st so (Some fin) = Some (None, ms, Some s') \<and>
    m \<in> set ms \<and> group_deliveries key grp s' = ms @ late"
proof -
  let ?s' = "xgroup_create grp (sty_start st) (Some fin)"
  have "StartListen key grp consumer threshold db (\<lambda>_. None) st so (Some fin) =
      Some (None, after_id key (sty_start st) (E @ [m]), Some ?s')"
    using assms(1,4) starting_replay [OF assms(1,2)] by (simp add: StartListen_def starting_def assms(3) Let_def)
  moreover have "group_deliveries key grp ?s' = after_id key (sty_start st) (sr_entries fin)"
    using assms(1,5) by (simp add: group_deliveries_def xgroup_create_def starting_def)
  moreover have "m \<in> set (after_id key (sty_start st) (E @ [m]))"
    using assms(2) by (simp add: after_id_def)
  ultimately show ?thesis
    using starting_late(2) [OF assms(1)] assms(1,2) by (auto simp: starting_def simp del: after_id_append)
qed

text \<open>A stream of two messages with ids \<open>1\<close> and \<open>2\<close>, and a third that comes in during the start.\<close>

definition id_key :: "string \<Rightarrow> nat" where
  "id_key s = (case atoi s of Some i \<Rightarrow> nat i | None \<Rightarrow> 0)"

definition plain_msg :: "string \<Rightarrow> message" where
  "plain_msg i = \<lparr>msg_id = i, msg_input = Some ''{}'', msg_version = Some ''1.0.0''\<rparr>"

definition plain_stream :: "message list \<Rightarrow> string \<Rightarrow> stream" where
  "plain_stream ms i = \<lparr>sr_entries = ms, sr_lastgen = i, sr_groups = [], sr_consumers = []\<rparr>"

definition plain_sty :: "job_mode \<Rightarrow> streamType" where
  "plain_sty mode = \<lparr>sty_Stream = ''s:job'', sty_TTL = 0, sty_mode = mode, sty_start = ''0'', sty_ids = ''>''\<rparr>"

lemma plain_starting:
  "starting id_key [] (plain_sty mode) (Some (plain_stream [plain_msg ''1'', plain_msg ''2''] ''2''))
     (plain_stream [plain_msg ''1'', plain_msg ''2''] ''2'') [plain_msg ''1''] (plain_msg ''2'')
     (\<lambda>_. [plain_msg ''1'', plain_msg ''2'', plain_msg ''3''])
     (plain_stream [plain_msg ''1'', plain_msg ''2'', plain_msg ''3''] ''3'') [plain_msg ''3'']"
proof -
  have "id_key ''0'' = 0" "id_key ''1'' = 1" "id_key ''2'' = 2" "id_key ''3'' = 3"
    by code_simp+
  then show ?thesis
    by (simp add: starting_def observe_def plain_sty_def plain_stream_def plain_msg_def in_order_def)
qed

text \<open>The same stream for a start position \<open>2\<close>, which is the last id.\<close>

definition last_sty :: streamType where
  "last_sty = plain_sty ModeReplayAll\<lparr>sty_start := ''2''\<rparr>"

lemma last_starting:
  "starting id_key [] last_sty (Some (plain_stream [plain_msg ''1'', plain_msg ''2''] ''2''))
     (plain_stream [plain_msg ''1'', plain_msg ''2''] ''2'') [plain_msg ''1''] (plain_msg ''2'')
     (\<lambda>_. [plain_msg ''1'', plain_msg ''2'', plain_msg ''3''])
     (plain_stream [plain_msg ''1'', plain_msg ''2'', plain_msg ''3''] ''3'') [plain_msg ''3'']"
  using plain_starting [of ModeReplayAll] by (simp add: starting_def last_sty_def observe_def plain_sty_def)

theorem replayall_exactly_once_witness:
  "(\<exists>s'. StartListen id_key ''g'' ''c'' [] (\<lambda>_. [plain_msg ''1'', plain_msg ''2'', plain_msg ''3'']) (\<lambda>_. None)
      (plain_sty ModeReplayAll) (Some (plain_stream [plain_msg ''1'', plain_msg ''2''] ''2''))
      (Some (plain_stream [plain_msg ''1'', plain_msg ''2'', plain_msg ''3''] ''3'')) =
        Some (None, [plain_msg ''1'', plain_msg ''2''], Some s') \<and>
      group_deliveries id_key ''g'' s' = [plain_msg ''3'']) \<and>
   (\<exists>s'. StartListen id_key ''g'' ''c'' [] (\<lambda>_. [plain_msg ''1'', plain_msg ''2'', plain_msg ''3'']) (\<lambda>_. None)
      last_sty (Some (plain_stream [plain_msg ''1'', plain_msg ''2''] ''2''))
      (Some (plain_stream [plain_msg ''1'', plain_msg ''2'', plain_msg ''3''] ''3'')) =
        Some (None, [plain_msg ''3''], Some s') \<and>
      group_deliveries id_key ''g'' s' = [plain_msg ''3''])"
proof -
  have k: "id_key ''0'' = 0" "id_key ''1'' = 1" "id_key ''2'' = 2" by code_simp+
  have m: "msg_id (plain_msg i) = i" for i by (simp add: plain_msg_def)
  have "sty_mode (plain_sty ModeReplayAll) = ModeReplayAll" "sty_start (plain_sty ModeReplayAll) = ''0''"
    "sty_mode last_sty = ModeReplayAll" "sty_start last_sty = ''2''"
    by (simp_all add: last_sty_def plain_sty_def)
  then show ?thesis
    using replayall_exactly_once [OF plain_starting, of ModeReplayAll "''g''" "''c''"]
      replayall_exactly_once [OF last_starting, of "''g''" "''c''"]
    by (auto simp: k m in_order_def)
qed

theorem replay_delivers_twice_witness:
  "\<exists>ms s'. StartListen id_key ''g'' ''c'' [] (\<lambda>_. [plain_msg ''1'', plain_msg ''2'', plain_msg ''3'']) (\<lambda>_. None)
      (plain_sty ModeReplay) (Some (plain_stream [plain_msg ''1'', plain_msg ''2''] ''2''))
      (Some (plain_stream [plain_msg ''1'', plain_msg ''2'', plain_msg ''3''] ''3'')) = Some (None, ms, Some s') \<and>
    plain_msg ''2'' \<in> set ms \<and> group_deliveries id_key ''g'' s' = ms @ [plain_msg ''3'']"
proof -
  have "id_key ''0'' = 0" "id_key ''2'' = 2" by code_simp+
  then show ?thesis
    using replay_delivers_twice [OF plain_starting, of ModeReplay "''g''" "''c''"]
    by (simp add: plain_sty_def plain_stream_def plain_msg_def)
qed

lemma same_version: "\<not> hasMajorOrMinorVersionDiff v v"
  by (simp add: hasMajorOrMinorVersionDiff_def split: option.splits)

text \<open>A published call is received as it was made: the caller only gets the pending error with the id
  of the entry, and the listener of a node of the same version runs the function once on the published
  input. An entry of another version makes a function without \<open>OnInputUpgrade\<close> panic in the listener, and
  what an \<open>OnInputUpgrade\<close> returns is thrown away there: the function is invoked on the old input.\<close>

theorem stream_call_is_invoked:
  assumes "marshal input = Inr js" "call_stream f marshal (Inr i) input s = (e, s')"
  shows "e = JobPendingError i ''job fanout accepted'' \<and>
    (\<exists>msg. sr_entries s' = sr_entries s @ [msg] \<and> msg_id msg = i \<and>
      listener f hk remarshal msg c =
        map_option Inr (invokeFunctionJSON f hk False None (encodeHandlerName (fn_opt f)) (handlerVersion (fn_opt f)) js c)) \<and>
    (hasMajorOrMinorVersionDiff v (handlerVersion (fn_opt f)) \<longrightarrow>
      listener f hk remarshal \<lparr>msg_id = i, msg_input = Some js, msg_version = Some v\<rparr> c =
        (case ih_upgrade hk of
           None \<Rightarrow> None
         | Some up \<Rightarrow>
             map_option Inr (invokeFunctionJSON f hk False None (encodeHandlerName (fn_opt f)) v
               (if fst (up v js) \<and> \<not> is_ok (remarshal (snd (up v js))) then [] else js) c)))"
proof (intro conjI impI)
  show "e = JobPendingError i ''job fanout accepted''"
    using assms by (simp add: call_stream_def)
  show "\<exists>msg. sr_entries s' = sr_entries s @ [msg] \<and> msg_id msg = i \<and>
      listener f hk remarshal msg c =
        map_option Inr (invokeFunctionJSON f hk False None (encodeHandlerName (fn_opt f)) (handlerVersion (fn_opt f)) js c)"
    using assms by (auto simp: call_stream_def listener_def upgraded_json_def same_version)
  assume "hasMajorOrMinorVersionDiff v (handlerVersion (fn_opt f))"
  then show "listener f hk remarshal \<lparr>msg_id = i, msg_input = Some js, msg_version = Some v\<rparr> c =
      (case ih_upgrade hk of
         None \<Rightarrow> None
       | Some up \<Rightarrow>
           map_option Inr (invokeFunctionJSON f hk False None (encodeHandlerName (fn_opt f)) v
             (if fst (up v js) \<and> \<not> is_ok (remarshal (snd (up v js))) then [] else js) c))"
    by (auto simp: listener_def upgraded_json_def is_ok_def split: option.splits prod.splits sum.splits)
qed

theorem stream_call_is_invoked_witness:
  "\<exists>s'. call_stream (text_fn dispatch_opt NoAbort id) Inr (Inr ''5-0'') ''{}'' (plain_stream [] ''0-0'') =
     (JobPendingError ''5-0'' ''job fanout accepted'', s') \<and> length (sr_entries s') = 1"
proof -
  obtain e s' where c: "call_stream (text_fn dispatch_opt NoAbort id) Inr (Inr ''5-0'') ''{}'' (plain_stream [] ''0-0'') = (e, s')"
    by (metis prod.collapse)
  from stream_call_is_invoked [OF refl this, where c = empty_store and hk = text_hooks
      and remarshal = "\<lambda>_. Inr []" and v = "[]"] c
  show ?thesis by (auto simp: plain_stream_def)
qed

end
