(* ===== verification/Mcp.thy ===== *)
theory Mcp
  imports Http_Error Job_Worker "HOL-Library.List_Lexorder"
begin

section \<open>The MCP endpoint\<close>

text \<open>
  \<open>typedhandler_mcp.go\<close> and \<open>typedhandler_mcp_registry.go\<close>: names, the JSON-RPC request, the dispatcher and
  its methods, the call of a function through its invoker, Markdown prompts and local resources, and
  the registry view. JSON text, error texts, URLs, YAML, MIME types and the walks over the
  directories are arguments (\<open>mcp_lib\<close>, \<open>mcp_server\<close>); a Go map built as a result is a JSON object.
  Logging is left out, and \<open>sort.Slice\<close> is taken with one of its outcomes, the stable one.
\<close>

subsection \<open>Configuration and names\<close>

record mcpConfig =
  mc_Endpoint :: string
  mc_ResourceScheme :: string
  mc_ResourceHost :: string

definition mcpEndpoint :: "mcpConfig \<Rightarrow> string" where
  "mcpEndpoint cfg =
     (let endpoint = trim_space (mc_Endpoint cfg) in
      if endpoint = [] then ''/mcp''
      else if \<not> prefix ''/'' endpoint then CHR ''/'' # endpoint else endpoint)"

definition mcpResourceScheme :: "mcpConfig \<Rightarrow> string" where
  "mcpResourceScheme cfg =
     (let scheme = trim_space (mc_ResourceScheme cfg) in if scheme = [] then ''allino'' else scheme)"

definition mcpResourceHost :: "mcpConfig \<Rightarrow> string" where
  "mcpResourceHost cfg =
     (let host = trim_space (mc_ResourceHost cfg) in if host = [] then ''resource'' else host)"

definition name_char :: "char \<Rightarrow> bool" where
  "name_char c \<longleftrightarrow>
     (let n = (of_char c :: nat) in
      97 \<le> n \<and> n \<le> 122 \<or> 65 \<le> n \<and> n \<le> 90 \<or> 48 \<le> n \<and> n \<le> 57 \<or> c = CHR ''_'' \<or> c = CHR ''-'')"

text \<open>\<open>mcpNameRe.ReplaceAllString(name, "_")\<close>: one underscore for each longest run of other characters.\<close>

fun replace_runs :: "bool \<Rightarrow> string \<Rightarrow> string" where
  "replace_runs inrun [] = []"
| "replace_runs inrun (c # cs) =
     (if name_char c then c # replace_runs False cs
      else if inrun then replace_runs True cs else CHR ''_'' # replace_runs True cs)"

definition normalize_name :: "string \<Rightarrow> string" where
  "normalize_name name = trim_char CHR ''_'' (replace_runs False name)"

text \<open>A function as the endpoint sees it: the options it reads, the schemas and the invoker.\<close>

type_synonym invoker = "bytes \<Rightarrow> callSQLStrategy \<Rightarrow> invocation option"

record mcp_fn =
  mf_Name :: string
  mf_Path :: string
  mf_MCP :: string
  mf_Description :: string
  mf_ContentType :: string
  mf_input :: "string + json"
  mf_output :: "string + json"
  mf_invoker :: "invoker option"

definition mcpFunctionName :: "mcp_fn \<Rightarrow> string" where
  "mcpFunctionName opt =
     (let name = (if mf_Name opt = [] then trim_char CHR ''/'' (mf_Path opt) else mf_Name opt) in
      if name = [] then [] else normalize_name name)"

subsection \<open>The server\<close>

record localResource =
  lr_URI :: string
  lr_Name :: string
  lr_Description :: string
  lr_MIMEType :: string
  lr_content :: "string + bytes"

record markdownPrompt =
  mp_Name :: string
  mp_Description :: string
  mp_Text :: string

text \<open>
  The walk over a directory lists its files (relative path, base name, extension, content) or fails;
  \<open>li_params\<close> decodes the parameters of a method (name or URI, and the raw arguments).
\<close>

record walked =
  wk_rel :: string
  wk_base :: string
  wk_ext :: string
  wk_read :: "string + bytes"

record rpc_request =
  rr_id :: bytes
  rr_method :: string
  rr_params :: bytes

record mcp_lib =
  li_request :: "bytes \<Rightarrow> string + rpc_request"
  li_params :: "bytes \<Rightarrow> string + string \<times> bytes"
  li_decode :: "bytes \<Rightarrow> string + json"
  li_encode :: "json \<Rightarrow> string + string"
  li_raw :: "bytes \<Rightarrow> json"
  li_errtext :: "job_error \<Rightarrow> string"
  li_url :: "string \<Rightarrow> string \<Rightarrow> string \<Rightarrow> string"
  li_mime :: "string \<Rightarrow> string"
  li_utf8 :: "bytes \<Rightarrow> bool"
  li_base64 :: "bytes \<Rightarrow> string"
  li_yaml :: "string \<Rightarrow> string + string \<times> string"

record mcp_server =
  ms_config :: mcpConfig
  ms_AppName :: string
  ms_Version :: string
  ms_FunctionCache :: "mcp_fn list"
  ms_internal :: "mcp_fn list"
  ms_resource_dirs :: "(string + walked list) list"
  ms_prompt_dirs :: "(string + walked list) list"

definition mcpOptions :: "mcp_server \<Rightarrow> string \<Rightarrow> mcp_fn list" where
  "mcpOptions s kind =
     (let ok = (\<lambda>opt. mf_invoker opt \<noteq> None \<and> to_lower (mf_MCP opt) = to_lower kind \<and> mcpFunctionName opt \<noteq> []) in
      filter ok (ms_FunctionCache s) @ filter ok (ms_internal s))"

definition findMCPOption :: "mcp_server \<Rightarrow> string \<Rightarrow> string \<Rightarrow> mcp_fn option" where
  "findMCPOption s kind name = List.find (\<lambda>opt. mcpFunctionName opt = name) (mcpOptions s kind)"

subsection \<open>Local files\<close>

definition str_key :: "string \<Rightarrow> nat list" where
  "str_key s = map of_char s"

fun map_res :: "('a \<Rightarrow> string + 'b) \<Rightarrow> 'a list \<Rightarrow> string + 'b list" where
  "map_res f [] = Inr []"
| "map_res f (x # xs) = bind_res (f x) (\<lambda>y. bind_res (map_res f xs) (\<lambda>ys. Inr (y # ys)))"

fun walk_all :: "('a \<Rightarrow> string + 'b) \<Rightarrow> (string + 'a list) list \<Rightarrow> string + 'b list" where
  "walk_all f [] = Inr []"
| "walk_all f (d # ds) =
     bind_res d (\<lambda>files. bind_res (map_res f files) (\<lambda>ys. bind_res (walk_all f ds) (\<lambda>zs. Inr (ys @ zs))))"

definition local_resource :: "mcp_lib \<Rightarrow> mcpConfig \<Rightarrow> walked \<Rightarrow> string + localResource" where
  "local_resource lib cfg w =
     (let mime = li_mime lib (wk_ext w) in
      Inr \<lparr>lr_URI = li_url lib (mcpResourceScheme cfg) (mcpResourceHost cfg) (CHR ''/'' # wk_rel w),
           lr_Name = wk_rel w, lr_Description = ''Local file: '' @ wk_rel w,
           lr_MIMEType = (if mime = [] then ''application/octet-stream'' else mime), lr_content = wk_read w\<rparr>)"

definition mcpLoadLocalResources :: "mcp_lib \<Rightarrow> mcp_server \<Rightarrow> string + localResource list" where
  "mcpLoadLocalResources lib s =
     bind_res (walk_all (local_resource lib (ms_config s)) (ms_resource_dirs s))
       (\<lambda>rs. Inr (sort_key (\<lambda>r. str_key (lr_URI r)) rs))"

definition mcpFindLocalResource :: "mcp_lib \<Rightarrow> mcp_server \<Rightarrow> string \<Rightarrow> string + localResource option" where
  "mcpFindLocalResource lib s uri =
     bind_res (mcpLoadLocalResources lib s) (\<lambda>rs. Inr (List.find (\<lambda>r. lr_URI r = uri) rs))"

definition mcpReadLocalResource :: "mcp_lib \<Rightarrow> localResource \<Rightarrow> string + json" where
  "mcpReadLocalResource lib r =
     bind_res (lr_content r) (\<lambda>buf.
       Inr (JsObj [(''uri'', JsStr (lr_URI r)), (''mimeType'', JsStr (lr_MIMEType r)),
                   (if li_utf8 lib buf then (''text'', JsStr buf) else (''blob'', JsStr (li_base64 lib buf)))]))"

text \<open>\<open>strings.ReplaceAll(s, "\r\n", "\n")\<close>, and \<open>strings.Index\<close> of a pattern as what is before and after it.\<close>

fun crlf_to_lf :: "string \<Rightarrow> string" where
  "crlf_to_lf (a # b # cs) =
     (if a = CHR 0x0D \<and> b = CHR 0x0A then b # crlf_to_lf cs else a # crlf_to_lf (b # cs))"
| "crlf_to_lf cs = cs"

fun split_at :: "string \<Rightarrow> string \<Rightarrow> (string \<times> string) option" where
  "split_at pat [] = (if pat = [] then Some ([], []) else None)"
| "split_at pat (c # cs) =
     (if prefix pat (c # cs) then Some ([], drop (length pat) (c # cs))
      else map_option (\<lambda>(a, b). (c # a, b)) (split_at pat cs))"

abbreviation lf :: char where "lf \<equiv> CHR 0x0A"

text \<open>The front matter (name and description) and the body of a Markdown prompt.\<close>

definition mcpParseMarkdownPrompt :: "(string \<Rightarrow> string + string \<times> string) \<Rightarrow> bytes \<Rightarrow> string + (string \<times> string) \<times> string" where
  "mcpParseMarkdownPrompt yaml buf =
     (let txt = crlf_to_lf buf; mark = ''---'' @ [lf] in
      if \<not> prefix mark txt then Inr (([], []), txt)
      else
        (case split_at (lf # ''---'') (trim_prefix mark txt) of
           None \<Rightarrow> Inl ''unterminated YAML frontmatter''
         | Some (yamlText, rest) \<Rightarrow>
             let body = trim_prefix [lf] rest in
             if trim_space yamlText \<noteq> [] then bind_res (yaml yamlText) (\<lambda>fm. Inr (fm, body))
             else Inr (([], []), body)))"

definition mcpLoadMarkdownPrompt :: "mcp_lib \<Rightarrow> walked \<Rightarrow> string + markdownPrompt option" where
  "mcpLoadMarkdownPrompt lib w =
     (if to_lower (wk_ext w) \<noteq> ''.md'' then Inr None
      else
        bind_res (wk_read w) (\<lambda>buf.
          bind_res (mcpParseMarkdownPrompt (li_yaml lib) buf) (\<lambda>((name, descr), body).
            let n = (if name = [] then trim_suffix (wk_ext w) (wk_base w) else name) in
            Inr (Some \<lparr>mp_Name = normalize_name n, mp_Description = descr, mp_Text = trim_space body\<rparr>))))"

definition mcpLoadMarkdownPrompts :: "mcp_lib \<Rightarrow> mcp_server \<Rightarrow> string + markdownPrompt list" where
  "mcpLoadMarkdownPrompts lib s =
     bind_res (walk_all (mcpLoadMarkdownPrompt lib) (ms_prompt_dirs s))
       (\<lambda>ps. Inr (sort_key (\<lambda>p. str_key (mp_Name p)) (List.map_filter id ps)))"

definition mcpFindMarkdownPrompt :: "mcp_lib \<Rightarrow> mcp_server \<Rightarrow> string \<Rightarrow> string + markdownPrompt option" where
  "mcpFindMarkdownPrompt lib s name =
     bind_res (mcpLoadMarkdownPrompts lib s) (\<lambda>ps. Inr (List.find (\<lambda>p. mp_Name p = name) ps))"

subsection \<open>Calling a function\<close>

text \<open>
  The invoker of a function (\<open>rw.invokeFunctionJSON\<close>) as the endpoint calls it: not \<open>direct\<close>, with the
  validator as \<open>infunc\<close>, under the function's own name and version.
\<close>

definition mcp_invoker ::
  "('i, 'u) fn \<Rightarrow> 'i invoke_hooks \<Rightarrow> bool \<Rightarrow> ('i \<Rightarrow> job_error option) \<Rightarrow> invoker" where
  "mcp_invoker f hk disable_validator validate args c =
     invokeFunctionJSON f hk False
       (Some (\<lambda>i. if disable_validator then Inr i else case validate i of None \<Rightarrow> Inr i | Some e \<Rightarrow> Inl e))
       (encodeHandlerName (fn_opt f)) (handlerVersion (fn_opt f)) args c"

definition callMCPFunction ::
  "mcp_lib \<Rightarrow> mcp_fn \<Rightarrow> bytes \<Rightarrow> callSQLStrategy \<Rightarrow> ((string + json) \<times> callSQLStrategy) option" where
  "callMCPFunction lib opt args c =
     (let args' = (if args = [] \<or> args = ''null'' then ''{}'' else args) in
      case mf_invoker opt of
        None \<Rightarrow> None
      | Some invoke \<Rightarrow>
          (case invoke args' c of
             None \<Rightarrow> None
           | Some iv \<Rightarrow>
               Some
                 ((case iv_syserr iv of
                     Some e \<Rightarrow> Inl (li_errtext lib e)
                   | None \<Rightarrow>
                       (case iv_err iv of
                          Some (b # bs) \<Rightarrow> Inl (b # bs)
                        | _ \<Rightarrow>
                            (case iv_out iv of
                               Some (b # bs) \<Rightarrow> li_decode lib (b # bs)
                             | _ \<Rightarrow> Inr JsNull))),
                  iv_store iv)))"

definition marshalMCPText :: "mcp_lib \<Rightarrow> json \<Rightarrow> string + string" where
  "marshalMCPText lib v = (case v of JsStr t \<Rightarrow> Inr t | _ \<Rightarrow> li_encode lib v)"

subsection \<open>The methods\<close>

definition tool_json :: "mcp_fn \<Rightarrow> string + json" where
  "tool_json opt =
     bind_res (mf_input opt) (\<lambda>i. bind_res (mf_output opt) (\<lambda>u.
       Inr (JsObj [(''name'', JsStr (mcpFunctionName opt)), (''description'', JsStr (mf_Description opt)),
                   (''inputSchema'', i), (''outputSchema'', u)])))"

definition mcpToolsList :: "mcp_server \<Rightarrow> string + json" where
  "mcpToolsList s =
     bind_res (map_res tool_json (mcpOptions s ''tool'')) (\<lambda>ts. Inr (JsObj [(''tools'', JsArr ts)]))"

definition text_content :: "string \<Rightarrow> json" where
  "text_content t = JsObj [(''type'', JsStr ''text''), (''text'', JsStr t)]"

definition mcpToolCall ::
  "mcp_lib \<Rightarrow> mcp_server \<Rightarrow> bytes \<Rightarrow> callSQLStrategy \<Rightarrow> ((string + json) \<times> callSQLStrategy) option" where
  "mcpToolCall lib s params c =
     (case li_params lib params of
        Inl e \<Rightarrow> Some (Inl e, c)
      | Inr (name, args) \<Rightarrow>
          (case findMCPOption s ''tool'' name of
             None \<Rightarrow> Some (Inl (''MCP tool not found: '' @ name), c)
           | Some opt \<Rightarrow>
               (case callMCPFunction lib opt args c of
                  None \<Rightarrow> None
                | Some (Inl e, c') \<Rightarrow>
                    Some (Inr (JsObj [(''isError'', JsBool True), (''content'', JsArr [text_content e])]), c')
                | Some (Inr output, c') \<Rightarrow>
                    Some (bind_res (marshalMCPText lib output) (\<lambda>t.
                      Inr (JsObj [(''structuredContent'', output), (''content'', JsArr [text_content t])])), c'))))"

text \<open>
  A listed resource or prompt as its sort key and its JSON. Functions come first, and a local item is left
  out when its key was seen.
\<close>

fun add_unseen :: "string set \<Rightarrow> (string \<times> 'a) list \<Rightarrow> (string \<times> 'a) list" where
  "add_unseen seen [] = []"
| "add_unseen seen ((k, x) # xs) =
     (if k \<in> seen then add_unseen seen xs else (k, x) # add_unseen (insert k seen) xs)"

definition listing :: "(string \<times> 'a) list \<Rightarrow> (string \<times> 'a) list \<Rightarrow> 'a list" where
  "listing fns local =
     map snd (sort_key (\<lambda>x. str_key (fst x)) (fns @ add_unseen (set (map fst fns)) local))"

definition resource_json :: "string \<Rightarrow> string \<Rightarrow> string \<Rightarrow> string \<Rightarrow> json" where
  "resource_json uri name descr mime =
     JsObj [(''uri'', JsStr uri), (''name'', JsStr name), (''description'', JsStr descr), (''mimeType'', JsStr mime)]"

definition fn_uri :: "mcp_fn \<Rightarrow> string" where
  "fn_uri opt = ''allino://'' @ mcpFunctionName opt"

definition mcpResourcesList :: "mcp_lib \<Rightarrow> mcp_server \<Rightarrow> string + json" where
  "mcpResourcesList lib s =
     bind_res (mcpLoadLocalResources lib s) (\<lambda>ls.
       Inr (JsObj [(''resources'', JsArr (listing
         (map (\<lambda>opt. (fn_uri opt, resource_json (fn_uri opt) (mcpFunctionName opt) (mf_Description opt) (mf_ContentType opt)))
            (mcpOptions s ''resource''))
         (map (\<lambda>r. (lr_URI r, resource_json (lr_URI r) (lr_Name r) (lr_Description r) (lr_MIMEType r))) ls)))]))"

definition mcpResourceRead ::
  "mcp_lib \<Rightarrow> mcp_server \<Rightarrow> bytes \<Rightarrow> callSQLStrategy \<Rightarrow> ((string + json) \<times> callSQLStrategy) option" where
  "mcpResourceRead lib s params c =
     (case li_params lib params of
        Inl e \<Rightarrow> Some (Inl e, c)
      | Inr (uri, args) \<Rightarrow>
          (case findMCPOption s ''resource'' (trim_prefix ''allino://'' uri) of
             Some opt \<Rightarrow>
               (case callMCPFunction lib opt args c of
                  None \<Rightarrow> None
                | Some (out, c') \<Rightarrow>
                    Some (bind_res out (\<lambda>output. bind_res (marshalMCPText lib output) (\<lambda>t.
                      Inr (JsObj [(''contents'', JsArr [JsObj [(''uri'', JsStr uri),
                        (''mimeType'', JsStr (mf_ContentType opt)), (''text'', JsStr t)]])]))), c'))
           | None \<Rightarrow>
               Some (bind_res (mcpFindLocalResource lib s uri) (\<lambda>ro.
                 case ro of
                   None \<Rightarrow> Inl (''MCP resource not found: '' @ uri)
                 | Some r \<Rightarrow> bind_res (mcpReadLocalResource lib r) (\<lambda>content.
                     Inr (JsObj [(''contents'', JsArr [content])]))), c)))"

text \<open>The arguments of a prompt, from the properties of its schema and the list of required names.\<close>

fun obj_get :: "string \<Rightarrow> json \<Rightarrow> json option" where
  "obj_get k (JsObj kvs) = map_of kvs k"
| "obj_get k _ = None"

definition required_names :: "json \<Rightarrow> string list" where
  "required_names schema =
     (case obj_get ''required'' schema of
        Some (JsArr vs) \<Rightarrow> List.map_filter (\<lambda>v. case v of JsStr t \<Rightarrow> Some t | _ \<Rightarrow> None) vs
      | _ \<Rightarrow> [])"

definition properties :: "json \<Rightarrow> (string \<times> json) list" where
  "properties schema = (case obj_get ''properties'' schema of Some (JsObj kvs) \<Rightarrow> kvs | _ \<Rightarrow> [])"

definition prompt_descr :: "json \<Rightarrow> string option" where
  "prompt_descr raw = (case obj_get ''description'' raw of Some (JsStr d) \<Rightarrow> Some d | _ \<Rightarrow> None)"

definition mcpPromptArguments :: "json \<Rightarrow> json list" where
  "mcpPromptArguments schema =
     map (\<lambda>(name, raw).
            JsObj ([(''name'', JsStr name), (''required'', JsBool (name \<in> set (required_names schema)))] @
                   (case prompt_descr raw of Some d \<Rightarrow> [(''description'', JsStr d)] | None \<Rightarrow> [])))
       (properties schema)"

definition prompt_json :: "string \<Rightarrow> string \<Rightarrow> json list \<Rightarrow> json" where
  "prompt_json name descr args =
     JsObj [(''name'', JsStr name), (''description'', JsStr descr), (''arguments'', JsArr args)]"

definition mcpPromptsList :: "mcp_lib \<Rightarrow> mcp_server \<Rightarrow> string + json" where
  "mcpPromptsList lib s =
     bind_res (map_res (\<lambda>opt. bind_res (mf_input opt) (\<lambda>schema.
         Inr (mcpFunctionName opt, prompt_json (mcpFunctionName opt) (mf_Description opt) (mcpPromptArguments schema))))
       (mcpOptions s ''prompt'')) (\<lambda>fns.
     bind_res (mcpLoadMarkdownPrompts lib s) (\<lambda>ps.
       Inr (JsObj [(''prompts'', JsArr (listing fns
         (map (\<lambda>p. (mp_Name p, prompt_json (mp_Name p) (mp_Description p) [])) ps)))])))"

definition prompt_answer :: "string \<Rightarrow> string \<Rightarrow> json" where
  "prompt_answer descr t =
     JsObj [(''description'', JsStr descr),
            (''messages'', JsArr [JsObj [(''role'', JsStr ''user''), (''content'', text_content t)]])]"

definition mcpPromptGet ::
  "mcp_lib \<Rightarrow> mcp_server \<Rightarrow> bytes \<Rightarrow> callSQLStrategy \<Rightarrow> ((string + json) \<times> callSQLStrategy) option" where
  "mcpPromptGet lib s params c =
     (case li_params lib params of
        Inl e \<Rightarrow> Some (Inl e, c)
      | Inr (name, args) \<Rightarrow>
          (case findMCPOption s ''prompt'' name of
             Some opt \<Rightarrow>
               (case callMCPFunction lib opt args c of
                  None \<Rightarrow> None
                | Some (out, c') \<Rightarrow>
                    Some (bind_res out (\<lambda>output. bind_res (marshalMCPText lib output) (\<lambda>t.
                      Inr (prompt_answer (mf_Description opt) t))), c'))
           | None \<Rightarrow>
               Some (bind_res (mcpFindMarkdownPrompt lib s name) (\<lambda>po.
                 case po of
                   None \<Rightarrow> Inl (''MCP prompt not found: '' @ name)
                 | Some p \<Rightarrow> Inr (prompt_answer (mp_Description p) (mp_Text p))), c)))"

definition initialize_answer :: "mcp_server \<Rightarrow> json" where
  "initialize_answer s =
     JsObj [(''protocolVersion'', JsStr ''2024-11-05''),
            (''capabilities'', JsObj [(''tools'', JsObj []), (''resources'', JsObj []), (''prompts'', JsObj [])]),
            (''serverInfo'', JsObj [(''name'', JsStr (ms_AppName s)), (''version'', JsStr (ms_Version s))])]"

definition dispatchMCPRequest ::
  "mcp_lib \<Rightarrow> mcp_server \<Rightarrow> rpc_request \<Rightarrow> callSQLStrategy \<Rightarrow> ((string + json) \<times> callSQLStrategy) option" where
  "dispatchMCPRequest lib s req c =
     (if rr_method req = ''initialize'' then Some (Inr (initialize_answer s), c)
      else if rr_method req = ''notifications/initialized'' then Some (Inr (JsObj []), c)
      else if rr_method req = ''tools/list'' then Some (mcpToolsList s, c)
      else if rr_method req = ''tools/call'' then mcpToolCall lib s (rr_params req) c
      else if rr_method req = ''resources/list'' then Some (mcpResourcesList lib s, c)
      else if rr_method req = ''resources/read'' then mcpResourceRead lib s (rr_params req) c
      else if rr_method req = ''prompts/list'' then Some (mcpPromptsList lib s, c)
      else if rr_method req = ''prompts/get'' then mcpPromptGet lib s (rr_params req) c
      else Some (Inl (''unsupported MCP method: '' @ rr_method req), c))"

subsection \<open>The request\<close>

definition mcpError :: "mcp_lib \<Rightarrow> bytes \<Rightarrow> int \<Rightarrow> string \<Rightarrow> json" where
  "mcpError lib i code msg =
     JsObj [(''jsonrpc'', JsStr ''2.0''), (''id'', li_raw lib (if i = [] then ''null'' else i)),
            (''error'', JsObj [(''code'', JsNum code), (''message'', JsStr msg)])]"

definition send_json :: "json \<Rightarrow> response \<Rightarrow> response" where
  "send_json j r = fiber_Send (JsonDoc j) (fiber_Set ''Content-Type'' ''application/json'' r)"

text \<open>\<open>SendStatus\<close> sets the status and, as the body is empty, its text.\<close>

definition handleMCPRequest ::
  "mcp_lib \<Rightarrow> mcp_server \<Rightarrow> bytes \<Rightarrow> response \<Rightarrow> callSQLStrategy \<Rightarrow> (response \<times> callSQLStrategy) option" where
  "handleMCPRequest lib s body r c =
     (case li_request lib body of
        Inl e \<Rightarrow> Some (send_json (mcpError lib [] (- 32700) e) (fiber_Status 400 r), c)
      | Inr req \<Rightarrow>
          let hasID = (rr_id req \<noteq> []); i = (if hasID then rr_id req else ''null'') in
          (case dispatchMCPRequest lib s (req\<lparr>rr_id := i\<rparr>) c of
             None \<Rightarrow> None
           | Some (Inl e, c') \<Rightarrow> Some (send_json (mcpError lib i (- 32603) e) r, c')
           | Some (Inr result, c') \<Rightarrow>
               if \<not> hasID then
                 Some ((if rp_body r = [] then fiber_Send (RawBytes ''Accepted'') (fiber_Status 202 r)
                        else fiber_Status 202 r), c')
               else Some (send_json (JsObj [(''jsonrpc'', JsStr ''2.0''), (''id'', li_raw lib i), (''result'', result)]) r, c')))"

subsection \<open>The registry view\<close>

record toolInfo =
  ti_Name :: string
  ti_Description :: string
  ti_Input :: json
  ti_Output :: json

record resourceInfo =
  ri_URI :: string
  ri_Name :: string
  ri_Description :: string
  ri_MIMEType :: string

record argInfo =
  ai_Name :: string
  ai_Description :: string
  ai_Required :: bool

record promptInfo =
  pi_Name :: string
  pi_Description :: string
  pi_Arguments :: "argInfo list"

definition registry_Tools :: "mcp_server \<Rightarrow> string + toolInfo list" where
  "registry_Tools s =
     map_res (\<lambda>opt. bind_res (mf_input opt) (\<lambda>i. bind_res (mf_output opt) (\<lambda>u.
       Inr \<lparr>ti_Name = mcpFunctionName opt, ti_Description = mf_Description opt, ti_Input = i, ti_Output = u\<rparr>)))
     (mcpOptions s ''tool'')"

definition registry_Resources :: "mcp_lib \<Rightarrow> mcp_server \<Rightarrow> string + resourceInfo list" where
  "registry_Resources lib s =
     bind_res (mcpLoadLocalResources lib s) (\<lambda>ls.
       Inr (listing
         (map (\<lambda>opt. (fn_uri opt, \<lparr>ri_URI = fn_uri opt, ri_Name = mcpFunctionName opt,
                 ri_Description = mf_Description opt, ri_MIMEType = mf_ContentType opt\<rparr>)) (mcpOptions s ''resource''))
         (map (\<lambda>r. (lr_URI r, \<lparr>ri_URI = lr_URI r, ri_Name = lr_Name r, ri_Description = lr_Description r,
                 ri_MIMEType = lr_MIMEType r\<rparr>)) ls)))"

definition mcpPromptArgInfos :: "json \<Rightarrow> argInfo list" where
  "mcpPromptArgInfos schema =
     sort_key (\<lambda>a. str_key (ai_Name a))
       (map (\<lambda>(name, raw). \<lparr>ai_Name = name,
               ai_Description = (case prompt_descr raw of Some d \<Rightarrow> d | None \<Rightarrow> []),
               ai_Required = (name \<in> set (required_names schema))\<rparr>)
          (properties schema))"

definition registry_Prompts :: "mcp_lib \<Rightarrow> mcp_server \<Rightarrow> string + promptInfo list" where
  "registry_Prompts lib s =
     bind_res (map_res (\<lambda>opt. bind_res (mf_input opt) (\<lambda>schema.
         Inr (mcpFunctionName opt, \<lparr>pi_Name = mcpFunctionName opt, pi_Description = mf_Description opt,
              pi_Arguments = mcpPromptArgInfos schema\<rparr>))) (mcpOptions s ''prompt'')) (\<lambda>fns.
     bind_res (mcpLoadMarkdownPrompts lib s) (\<lambda>ps.
       Inr (listing fns (map (\<lambda>p. (mp_Name p, \<lparr>pi_Name = mp_Name p, pi_Description = mp_Description p,
              pi_Arguments = []\<rparr>)) ps))))"

record mcpSummary =
  su_Registered :: bool
  su_Endpoint :: string
  su_ResourceScheme :: string
  su_ResourceHost :: string
  su_PromptDirs :: nat
  su_ResourceDirs :: nat
  su_Tools :: nat
  su_Resources :: nat
  su_Prompts :: nat

definition registry_Summary :: "bool \<Rightarrow> mcp_server \<Rightarrow> mcpSummary" where
  "registry_Summary registered s =
     \<lparr>su_Registered = registered, su_Endpoint = mcpEndpoint (ms_config s),
      su_ResourceScheme = mcpResourceScheme (ms_config s), su_ResourceHost = mcpResourceHost (ms_config s),
      su_PromptDirs = length (ms_prompt_dirs s), su_ResourceDirs = length (ms_resource_dirs s),
      su_Tools = length (mcpOptions s ''tool''), su_Resources = length (mcpOptions s ''resource''),
      su_Prompts = length (mcpOptions s ''prompt'')\<rparr>"

text \<open>Registration: once per server, on the endpoint, for a mounted directory or a function with an MCP kind.\<close>

definition registerMCPHandlers :: "mcpConfig \<Rightarrow> bool \<times> (string \<times> string) list \<Rightarrow> bool \<times> (string \<times> string) list" where
  "registerMCPHandlers cfg st =
     (if fst st then st
      else (True, snd st @ [(''POST'', mcpEndpoint cfg), (''GET'', mcpEndpoint cfg)]))"

definition mcp_OnInit :: "mcp_server \<Rightarrow> bool \<times> (string \<times> string) list \<Rightarrow> bool \<times> (string \<times> string) list" where
  "mcp_OnInit s st =
     (if ms_prompt_dirs s = [] \<and> ms_resource_dirs s = [] then st else registerMCPHandlers (ms_config s) st)"

definition mcp_OnFunctionInit ::
  "mcpConfig \<Rightarrow> mcp_fn option \<Rightarrow> bool \<times> (string \<times> string) list \<Rightarrow> bool \<times> (string \<times> string) list" where
  "mcp_OnFunctionInit cfg opt st =
     (case opt of
        None \<Rightarrow> st
      | Some f \<Rightarrow> if mf_MCP f = [] then st else registerMCPHandlers cfg st)"

subsection \<open>Lists and the registry agree\<close>

lemma map_res_bind: "map_res (\<lambda>x. bind_res (f x) (\<lambda>y. Inr (g y))) xs = bind_res (map_res f xs) (\<lambda>ys. Inr (map g ys))"
proof (induction xs)
  case (Cons x xs)
  then show ?case by (cases "f x"; cases "map_res f xs") auto
qed simp

lemma bind_assoc: "bind_res (bind_res r f) g = bind_res r (\<lambda>x. bind_res (f x) g)"
  by (cases r) auto

lemma insort_key_map:
  "(\<And>x. k' (h x) = k x) \<Longrightarrow> map h (insort_key k x xs) = insort_key k' (h x) (map h xs)"
  by (induction xs) auto

lemma sort_key_map:
  assumes "\<And>x. k' (h x) = k x" shows "map h (sort_key k xs) = sort_key k' (map h xs)"
  by (induction xs) (simp_all add: insort_key_map [where k' = k' and h = h, OF assms])

lemma add_unseen_map: "add_unseen seen (map (apsnd f) xs) = map (apsnd f) (add_unseen seen xs)"
  by (induction seen xs rule: add_unseen.induct) auto

lemma listing_map: "listing (map (apsnd f) xs) (map (apsnd f) ys) = map f (listing xs ys)"
proof -
  have k: "sort_key (\<lambda>x. str_key (fst x)) (map (apsnd f) zs) = map (apsnd f) (sort_key (\<lambda>x. str_key (fst x)) zs)" for zs
    by (rule sort_key_map [symmetric]) simp
  have "map fst (map (apsnd f) xs) = map fst xs" by simp
  then show ?thesis
    unfolding listing_def add_unseen_map map_append [symmetric] k by simp
qed

text \<open>A list made of two kinds of items, as one list of the items themselves.\<close>

definition items :: "('a \<Rightarrow> string) \<Rightarrow> 'a list \<Rightarrow> ('b \<Rightarrow> string) \<Rightarrow> 'b list \<Rightarrow> ('a + 'b) list" where
  "items k xs l ys = listing (map (\<lambda>x. (k x, Inl x)) xs) (map (\<lambda>y. (l y, Inr y)) ys)"

lemma listing_items:
  "listing (map (\<lambda>x. (k x, f x)) xs) (map (\<lambda>y. (l y, g y)) ys) = map (case_sum f g) (items k xs l ys)"
  unfolding items_def listing_map [symmetric] by (simp add: comp_def)

definition tool_info_json :: "toolInfo \<Rightarrow> json" where
  "tool_info_json t = JsObj [(''name'', JsStr (ti_Name t)), (''description'', JsStr (ti_Description t)),
     (''inputSchema'', ti_Input t), (''outputSchema'', ti_Output t)]"

definition resource_info_json :: "resourceInfo \<Rightarrow> json" where
  "resource_info_json r = resource_json (ri_URI r) (ri_Name r) (ri_Description r) (ri_MIMEType r)"

text \<open>The name and description of a listed prompt.\<close>

definition prompt_head :: "json \<Rightarrow> string \<times> string" where
  "prompt_head j = (case (obj_get ''name'' j, obj_get ''description'' j) of
     (Some (JsStr n), Some (JsStr d)) \<Rightarrow> (n, d) | _ \<Rightarrow> ([], []))"

lemma registry_tools_agree:
  "mcpToolsList s = bind_res (registry_Tools s) (\<lambda>ts. Inr (JsObj [(''tools'', JsArr (map tool_info_json ts))]))"
proof -
  have tj: "tool_json = (\<lambda>opt. bind_res (bind_res (mf_input opt) (\<lambda>i. bind_res (mf_output opt) (\<lambda>u.
       Inr \<lparr>ti_Name = mcpFunctionName opt, ti_Description = mf_Description opt, ti_Input = i, ti_Output = u\<rparr>)))
      (\<lambda>t. Inr (tool_info_json t)))"
    by (rule ext) (simp add: bind_assoc tool_json_def tool_info_json_def)
  show ?thesis
    unfolding mcpToolsList_def registry_Tools_def by (subst tj, subst map_res_bind) (simp add: bind_assoc)
qed

lemma registry_resources_agree:
  "mcpResourcesList lib s =
     bind_res (registry_Resources lib s) (\<lambda>rs. Inr (JsObj [(''resources'', JsArr (map resource_info_json rs))]))"
proof -
  have same: "case_sum (\<lambda>opt. resource_json (fn_uri opt) (mcpFunctionName opt) (mf_Description opt) (mf_ContentType opt))
      (\<lambda>r. resource_json (lr_URI r) (lr_Name r) (lr_Description r) (lr_MIMEType r)) =
    resource_info_json \<circ> case_sum
      (\<lambda>opt. \<lparr>ri_URI = fn_uri opt, ri_Name = mcpFunctionName opt,
              ri_Description = mf_Description opt, ri_MIMEType = mf_ContentType opt\<rparr>)
      (\<lambda>r. \<lparr>ri_URI = lr_URI r, ri_Name = lr_Name r, ri_Description = lr_Description r, ri_MIMEType = lr_MIMEType r\<rparr>)"
    by (rule ext) (simp add: resource_info_json_def split: sum.split)
  show ?thesis
    unfolding mcpResourcesList_def registry_Resources_def listing_items same by (simp add: bind_assoc)
qed

lemma map_res_pair:
  "map_res (\<lambda>opt. bind_res (f opt) (\<lambda>v. Inr (g opt v))) opts =
   bind_res (map_res (\<lambda>opt. bind_res (f opt) (\<lambda>v. Inr (opt, v))) opts) (\<lambda>xs. Inr (map (\<lambda>(opt, v). g opt v) xs))"
  by (simp only: map_res_bind [symmetric] bind_assoc bind_res_simps split_conv)

lemma registry_prompts_agree:
  "bind_res (mcpPromptsList lib s) (\<lambda>j. Inr (case obj_get ''prompts'' j of Some (JsArr ps) \<Rightarrow> map prompt_head ps | _ \<Rightarrow> [])) =
   bind_res (registry_Prompts lib s) (\<lambda>ps. Inr (map (\<lambda>p. (pi_Name p, pi_Description p)) ps))"
proof -
  let ?k = "\<lambda>x :: mcp_fn \<times> json. mcpFunctionName (fst x)"
  have J: "map (\<lambda>(opt, schema). (mcpFunctionName opt, F opt schema)) xs = map (\<lambda>x. (?k x, F (fst x) (snd x))) xs"
    for xs and F :: "mcp_fn \<Rightarrow> json \<Rightarrow> 'z"
    by (simp add: split_def)
  have same: "prompt_head \<circ> case_sum
      (\<lambda>x. prompt_json (?k x) (mf_Description (fst x)) (mcpPromptArguments (snd x)))
      (\<lambda>p. prompt_json (mp_Name p) (mp_Description p) []) =
    (\<lambda>p. (pi_Name p, pi_Description p)) \<circ> case_sum
      (\<lambda>x. \<lparr>pi_Name = ?k x, pi_Description = mf_Description (fst x), pi_Arguments = mcpPromptArgInfos (snd x)\<rparr>)
      (\<lambda>p. \<lparr>pi_Name = mp_Name p, pi_Description = mp_Description p, pi_Arguments = []\<rparr>)"
    by (rule ext) (simp add: prompt_head_def prompt_json_def split: sum.split)
  show ?thesis
    unfolding mcpPromptsList_def registry_Prompts_def
      map_res_pair [of mf_input "\<lambda>opt schema. (mcpFunctionName opt,
        prompt_json (mcpFunctionName opt) (mf_Description opt) (mcpPromptArguments schema))"]
      map_res_pair [of mf_input "\<lambda>opt schema. (mcpFunctionName opt, \<lparr>pi_Name = mcpFunctionName opt,
        pi_Description = mf_Description opt, pi_Arguments = mcpPromptArgInfos schema\<rparr>)"]
    by (simp add: bind_assoc J listing_items same)
qed

text \<open>The registry view that the CLI and applications read is written out a second time beside the
  methods of the endpoint, and says the same: the same tools and resources in the same order, the same names
  and descriptions of prompts, and an error exactly when the method answers with that error.\<close>

theorem registry_agrees:
  "mcpToolsList s = bind_res (registry_Tools s) (\<lambda>ts. Inr (JsObj [(''tools'', JsArr (map tool_info_json ts))])) \<and>
   mcpResourcesList lib s =
     bind_res (registry_Resources lib s) (\<lambda>rs. Inr (JsObj [(''resources'', JsArr (map resource_info_json rs))])) \<and>
   bind_res (mcpPromptsList lib s) (\<lambda>j. Inr (case obj_get ''prompts'' j of Some (JsArr ps) \<Rightarrow> map prompt_head ps | _ \<Rightarrow> [])) =
     bind_res (registry_Prompts lib s) (\<lambda>ps. Inr (map (\<lambda>p. (pi_Name p, pi_Description p)) ps))"
  by (simp only: registry_tools_agree registry_resources_agree registry_prompts_agree)

subsection \<open>Names\<close>

lemma name_char_special [simp]: "name_char CHR ''_''" "\<not> name_char CHR '':''" "\<not> name_char CHR ''/''"
  by (simp_all add: name_char_def)

lemma replace_runs_chars: "c \<in> set (replace_runs b s) \<Longrightarrow> name_char c"
  by (induction b s rule: replace_runs.induct) (auto split: if_splits)

lemma replace_runs_id: "\<forall>c \<in> set s. name_char c \<Longrightarrow> replace_runs b s = s"
  by (induction s arbitrary: b) auto

lemma trim_char_set: "set (trim_char c s) \<subseteq> set s"
  by (auto simp: trim_char_def dest!: set_dropWhileD)

lemma trim_char_ends:
  assumes "trim_char c s \<noteq> []"
  shows "hd (trim_char c s) \<noteq> c \<and> List.last (trim_char c s) \<noteq> c"
proof -
  let ?f = "dropWhile (\<lambda>x. x = c)"
  obtain a t where t: "?f s = a # t" "a \<noteq> c"
    using assms hd_dropWhile [of "\<lambda>x. x = c" s] by (cases "?f s") (auto simp: trim_char_def)
  have ne: "?f (rev (?f s)) \<noteq> []" using assms by (simp add: trim_char_def)
  then have "List.last (trim_char c s) \<noteq> c"
    using hd_dropWhile [OF ne] by (simp add: trim_char_def last_rev)
  moreover have "trim_char c s = a # rev (?f (rev t)) \<or> trim_char c s = [a]"
    using t by (simp add: trim_char_def dropWhile_append)
  ultimately show ?thesis using t(2) by auto
qed

lemma trim_char_id: "s = [] \<or> hd s \<noteq> c \<and> List.last s \<noteq> c \<Longrightarrow> trim_char c s = s"
proof (cases s)
  case (Cons a t)
  assume "s = [] \<or> hd s \<noteq> c \<and> List.last s \<noteq> c"
  then have "a \<noteq> c" "hd (rev s) \<noteq> c" using Cons hd_rev [of s] by simp_all
  then have "dropWhile (\<lambda>x. x = c) s = s" "dropWhile (\<lambda>x. x = c) (rev s) = rev s"
    using Cons by (simp, cases "rev s") auto
  then show ?thesis by (simp add: trim_char_def)
qed (simp add: trim_char_def)

text \<open>An exposed name has only letters, digits, hyphens and underscores, no underscore at either end,
  and is its own normal form; so every listed resource can be looked up by its URI. Names that
  normalise alike are listed side by side, and a lookup always finds the first.\<close>

theorem mcp_names:
  "(\<forall>c \<in> set (normalize_name s). name_char c) \<and>
   (normalize_name s \<noteq> [] \<longrightarrow> hd (normalize_name s) \<noteq> CHR ''_'' \<and> List.last (normalize_name s) \<noteq> CHR ''_'') \<and>
   normalize_name (normalize_name s) = normalize_name s \<and>
   (\<forall>opt \<in> set (mcpOptions sv kind). \<exists>first. findMCPOption sv kind (mcpFunctionName opt) = Some first \<and>
      mcpFunctionName first = mcpFunctionName opt) \<and>
   (\<forall>rs. registry_Resources lib sv = Inr rs \<longrightarrow> (\<forall>r \<in> set rs.
      findMCPOption sv ''resource'' (trim_prefix ''allino://'' (ri_URI r)) \<noteq> None \<or>
      (\<exists>l. mcpFindLocalResource lib sv (ri_URI r) = Inr (Some l) \<and> lr_URI l = ri_URI r)))"
proof -
  have chars: "\<forall>c \<in> set (normalize_name s). name_char c"
    using trim_char_set replace_runs_chars by (fastforce simp: normalize_name_def)
  have ends: "normalize_name s \<noteq> [] \<longrightarrow> hd (normalize_name s) \<noteq> CHR ''_'' \<and> List.last (normalize_name s) \<noteq> CHR ''_''"
    using trim_char_ends by (simp add: normalize_name_def)
  have idem: "normalize_name (normalize_name s) = normalize_name s"
    using replace_runs_id [OF chars, of False] trim_char_id [of "normalize_name s"] ends
    by (metis normalize_name_def)
  have found: "\<exists>first. findMCPOption sv k (mcpFunctionName opt) = Some first \<and> mcpFunctionName first = mcpFunctionName opt"
    if o: "opt \<in> set (mcpOptions sv k)" for opt k
  proof -
    let ?P = "\<lambda>o'. mcpFunctionName o' = mcpFunctionName opt"
    obtain first where "List.find ?P (mcpOptions sv k) = Some first"
      using find_NoneD [of ?P "mcpOptions sv k" opt] o by (cases "List.find ?P (mcpOptions sv k)") auto
    then show ?thesis using find_SomeD [of ?P "mcpOptions sv k" first] by (auto simp: findMCPOption_def)
  qed
  have res: "findMCPOption sv ''resource'' (trim_prefix ''allino://'' (ri_URI r)) \<noteq> None \<or>
      (\<exists>l. mcpFindLocalResource lib sv (ri_URI r) = Inr (Some l) \<and> lr_URI l = ri_URI r)"
    if rs: "registry_Resources lib sv = Inr rs" "r \<in> set rs" for rs r
  proof -
    obtain ls where ls: "mcpLoadLocalResources lib sv = Inr ls"
      using rs(1) by (cases "mcpLoadLocalResources lib sv") (auto simp: registry_Resources_def)
    have mem: "x \<in> set (listing A B) \<Longrightarrow> x \<in> snd ` (set A \<union> set B)" for x and A B :: "(string \<times> resourceInfo) list"
    proof -
      have "set (add_unseen seen B) \<subseteq> set B" for seen :: "string set"
        by (induction seen B rule: add_unseen.induct) auto
      then show "x \<in> set (listing A B) \<Longrightarrow> x \<in> snd ` (set A \<union> set B)" by (auto simp: listing_def)
    qed
    consider opt where "opt \<in> set (mcpOptions sv ''resource'')" "ri_URI r = fn_uri opt"
      | l where "l \<in> set ls" "ri_URI r = lr_URI l"
      using rs ls mem by (fastforce simp: registry_Resources_def)
    then show ?thesis
    proof cases
      case 1
      with found [of opt "''resource''"] show ?thesis by (auto simp: fn_uri_def trim_prefix_def)
    next
      case 2
      then obtain l' where l': "List.find (\<lambda>l. lr_URI l = ri_URI r) ls = Some l'"
        using find_NoneD [of "\<lambda>l. lr_URI l = ri_URI r" ls l] by (cases "List.find (\<lambda>l. lr_URI l = ri_URI r) ls") auto
      have "lr_URI l' = ri_URI r" using find_SomeD [OF l'] by simp
      with l' show ?thesis by (simp add: mcpFindLocalResource_def ls)
    qed
  qed
  have f: "\<forall>opt \<in> set (mcpOptions sv kind). \<exists>first. findMCPOption sv kind (mcpFunctionName opt) = Some first \<and>
      mcpFunctionName first = mcpFunctionName opt"
    by (rule ballI) (rule found)
  have r: "\<forall>rs. registry_Resources lib sv = Inr rs \<longrightarrow> (\<forall>r \<in> set rs.
      findMCPOption sv ''resource'' (trim_prefix ''allino://'' (ri_URI r)) \<noteq> None \<or>
      (\<exists>l. mcpFindLocalResource lib sv (ri_URI r) = Inr (Some l) \<and> lr_URI l = ri_URI r))"
    by (intro allI impI ballI) (rule res)
  show ?thesis by (rule conjI [OF chars conjI [OF ends conjI [OF idem conjI [OF f r]]]])
qed

subsection \<open>Markdown prompts\<close>

lemma prefix_before: "prefix m (y @ c # z) \<Longrightarrow> c \<notin> set m \<Longrightarrow> prefix m y"
proof (induction m arbitrary: y)
  case (Cons a m)
  show ?case
  proof (cases y)
    case Nil
    with Cons.prems show ?thesis by simp
  next
    case y: (Cons b ys)
    have "prefix m ys" by (rule Cons.IH) (use Cons.prems y in simp_all)
    with Cons.prems(1) y show ?thesis by simp
  qed
qed simp

lemma split_at_lf:
  "split_at (lf # m) y = None \<Longrightarrow> lf \<notin> set m \<Longrightarrow> split_at (lf # m) (y @ lf # m @ r) = Some (y, r)"
proof (induction y)
  case (Cons c y)
  have "\<not> prefix (lf # m) (c # y @ lf # m @ r)"
  proof
    assume "prefix (lf # m) (c # y @ lf # m @ r)"
    then have "c = lf" and p: "prefix m (y @ lf # m @ r)" by (auto simp only: Cons_prefix_Cons)
    moreover have "prefix m y" by (rule prefix_before [OF p Cons.prems(2)])
    ultimately have "prefix (lf # m) (c # y)" by simp
    with Cons.prems(1) show False by simp
  qed
  moreover have "split_at (lf # m) y = None" using Cons.prems(1) by (simp split: if_splits)
  ultimately show ?case using Cons.IH Cons.prems(2) by simp
qed simp

lemma crlf_id: "CHR 0x0D \<notin> set s \<Longrightarrow> crlf_to_lf s = s"
  by (induction s rule: crlf_to_lf.induct) auto

text \<open>A prompt file with front matter \<open>y\<close> between two marker lines and a body comes back as what the YAML
  library makes of \<open>y\<close> and exactly that body, for every body, markers in it included; a file that does not open
  with the marker is all body. An empty front matter, two marker lines in a row, is refused as
  unterminated unless a later line starts with the marker, and then the body up to that line is taken for YAML.\<close>

theorem markdown_prompt_roundtrip:
  assumes "CHR 0x0D \<notin> set (y @ body)" "split_at (lf # ''---'') y = None" "trim_space y \<noteq> []"
  shows "mcpParseMarkdownPrompt yaml (''---'' @ [lf] @ y @ [lf] @ ''---'' @ [lf] @ body) =
      bind_res (yaml y) (\<lambda>fm. Inr (fm, body)) \<and>
    (\<not> prefix (''---'' @ [lf]) body \<longrightarrow> mcpParseMarkdownPrompt yaml body = Inr (([], []), body)) \<and>
    (split_at (lf # ''---'') body = None \<and> \<not> prefix ''---'' body \<longrightarrow>
      mcpParseMarkdownPrompt yaml (''---'' @ [lf] @ ''---'' @ [lf] @ body) = Inl ''unterminated YAML frontmatter'')"
proof (intro conjI impI)
  have s: "split_at (lf # ''---'') (y @ lf # ''---'' @ (lf # body)) = Some (y, lf # body)"
    by (rule split_at_lf [OF assms(2)]) simp
  have c: "crlf_to_lf (''---'' @ [lf] @ y @ [lf] @ ''---'' @ [lf] @ body) = ''---'' @ [lf] @ y @ [lf] @ ''---'' @ [lf] @ body"
    using assms(1) by (intro crlf_id) auto
  show "mcpParseMarkdownPrompt yaml (''---'' @ [lf] @ y @ [lf] @ ''---'' @ [lf] @ body) =
      bind_res (yaml y) (\<lambda>fm. Inr (fm, body))"
    unfolding mcpParseMarkdownPrompt_def c Let_def using s assms(3) by (simp add: trim_prefix_def)
  show "mcpParseMarkdownPrompt yaml body = Inr (([], []), body)" if "\<not> prefix (''---'' @ [lf]) body"
    using that assms(1) by (simp add: mcpParseMarkdownPrompt_def crlf_id)
  have d: "crlf_to_lf (''---'' @ [lf] @ ''---'' @ [lf] @ body) = ''---'' @ [lf] @ ''---'' @ [lf] @ body"
    using assms(1) by (intro crlf_id) auto
  show "mcpParseMarkdownPrompt yaml (''---'' @ [lf] @ ''---'' @ [lf] @ body) = Inl ''unterminated YAML frontmatter''"
    if "split_at (lf # ''---'') body = None \<and> \<not> prefix ''---'' body"
    unfolding mcpParseMarkdownPrompt_def d Let_def using that by (simp add: trim_prefix_def)
qed

definition text_yaml :: "string \<Rightarrow> string + string \<times> string" where
  "text_yaml y = Inr (y, [])"

theorem markdown_prompt_roundtrip_witness:
  "mcpParseMarkdownPrompt text_yaml (''---'' @ [lf] @ ''greet'' @ [lf] @ ''---'' @ [lf] @ ''Say hello.'') =
     Inr ((''greet'', []), ''Say hello.'')"
proof -
  have "trim_space ''greet'' \<noteq> []" "split_at (lf # ''---'') ''greet'' = None" by code_simp+
  then show ?thesis
    using markdown_prompt_roundtrip [of "''greet''" "''Say hello.''" text_yaml] by (simp add: text_yaml_def)
qed

subsection \<open>Tool calls\<close>

definition tool_error :: "string \<Rightarrow> json" where
  "tool_error msg = JsObj [(''isError'', JsBool True), (''content'', JsArr [text_content msg])]"

definition tool_answer :: "json \<Rightarrow> string \<Rightarrow> json" where
  "tool_answer v t = JsObj [(''structuredContent'', v), (''content'', JsArr [text_content t])]"

lemma own_version: "\<not> hasMajorOrMinorVersionDiff v v"
  by (simp add: hasMajorOrMinorVersionDiff_def split: option.splits)

text \<open>C19. A tool call runs the handler itself, once, on the decoded arguments, if the validator accepts
  them (else nothing runs and the caller gets a tool error): the effects of the call are those of
  the handler. A handler error is a tool error with the error's JSON, an output comes back as
  structured content and as text. Nothing else has a say: the modes of the function (once, dedupe,
  cache, async) do not matter, and there is no access check on this way to the handler.\<close>

theorem mcp_tool_call_runs_handler:
  assumes "li_params lib params = Inr (name, args)" "findMCPOption s ''tool'' name = Some opt"
    and "mf_invoker opt = Some (mcp_invoker f hk dv validate)"
    and "in_of (fn_codec f) (if args = [] \<or> args = ''null'' then ''{}'' else args) = Inr i" "ih_fill hk i = Inr i'"
    and "fn_handle f i' c = ((u, err, ctrl), c')" "marshalOutputSet (fn_codec f) u err = Inr (outb, errb)"
  shows "(dv \<or> validate i' = None \<longrightarrow>
      (\<exists>res. mcpToolCall lib s params c = Some (res, c') \<and>
        (\<forall>b bs. errb = Some (b # bs) \<longrightarrow> res = Inr (tool_error (b # bs))) \<and>
        (\<forall>b bs v t. errb = None \<longrightarrow> outb = Some (b # bs) \<longrightarrow> li_decode lib (b # bs) = Inr v \<longrightarrow>
           marshalMCPText lib v = Inr t \<longrightarrow> res = Inr (tool_answer v t)))) \<and>
    (\<forall>e. \<not> dv \<and> validate i' = Some e \<longrightarrow> mcpToolCall lib s params c = Some (Inr (tool_error (li_errtext lib e)), c))"
proof -
  let ?args = "if args = [] \<or> args = ''null'' then ''{}'' else args"
  let ?v = "handlerVersion (fn_opt f)" and ?n = "encodeHandlerName (fn_opt f)"
  have dec: "decode_input f hk ?v ?args = Some (Inr i)"
    using assms(4) by (simp add: decode_input_def own_version)
  have ran: "\<exists>iv. mcp_invoker f hk dv validate ?args c = Some iv \<and> iv_syserr iv = None \<and> iv_out iv = outb \<and>
      iv_err iv = errb \<and> iv_store iv = c'" if "dv \<or> validate i' = None"
    using that dec assms(5-7)
    by (auto simp: mcp_invoker_def invokeFunctionJSON_def prepare_input_def Let_def)
  have refused: "\<exists>iv. mcp_invoker f hk dv validate ?args c = Some iv \<and> iv_syserr iv = Some e \<and> iv_store iv = c"
    if "\<not> dv \<and> validate i' = Some e" for e
    using that dec assms(5) by (simp add: mcp_invoker_def invokeFunctionJSON_def prepare_input_def Let_def invoke_failed_def)
  show ?thesis
  proof (intro conjI impI allI)
    assume "dv \<or> validate i' = None"
    from ran [OF this] obtain iv where iv: "mcp_invoker f hk dv validate ?args c = Some iv" "iv_syserr iv = None"
      "iv_out iv = outb" "iv_err iv = errb" "iv_store iv = c'" by blast
    let ?r = "case errb of Some (b # bs) \<Rightarrow> Inl (b # bs)
      | _ \<Rightarrow> (case outb of Some (b # bs) \<Rightarrow> li_decode lib (b # bs) | _ \<Rightarrow> Inr JsNull)"
    have "callMCPFunction lib opt args c = Some (?r, c')"
      by (simp add: callMCPFunction_def Let_def assms(3) iv split: option.split list.split)
    then show "\<exists>res. mcpToolCall lib s params c = Some (res, c') \<and>
        (\<forall>b bs. errb = Some (b # bs) \<longrightarrow> res = Inr (tool_error (b # bs))) \<and>
        (\<forall>b bs v t. errb = None \<longrightarrow> outb = Some (b # bs) \<longrightarrow> li_decode lib (b # bs) = Inr v \<longrightarrow>
           marshalMCPText lib v = Inr t \<longrightarrow> res = Inr (tool_answer v t))"
      by (cases ?r) (auto simp: mcpToolCall_def assms(1,2) tool_error_def tool_answer_def)
  next
    fix e assume e: "\<not> dv \<and> validate i' = Some e"
    from refused [OF this] obtain iv where "mcp_invoker f hk dv validate ?args c = Some iv" "iv_syserr iv = Some e"
      "iv_store iv = c" by blast
    then have "callMCPFunction lib opt args c = Some (Inl (li_errtext lib e), c)"
      by (simp add: callMCPFunction_def Let_def assms(3))
    then show "mcpToolCall lib s params c = Some (Inr (tool_error (li_errtext lib e)), c)"
      by (simp add: mcpToolCall_def assms(1,2) tool_error_def)
  qed
qed

definition text_lib :: mcp_lib where
  "text_lib = \<lparr>li_request = (\<lambda>b. Inr \<lparr>rr_id = [], rr_method = b, rr_params = []\<rparr>), li_params = (\<lambda>b. Inr (''up'', b)),
     li_decode = (\<lambda>b. Inr (JsStr b)), li_encode = (\<lambda>_. Inr []), li_raw = JsStr, li_errtext = (\<lambda>_. ''refused''),
     li_url = (\<lambda>s h p. s @ ''://'' @ h @ p), li_mime = (\<lambda>_. []), li_utf8 = (\<lambda>_. True), li_base64 = id,
     li_yaml = text_yaml\<rparr>"

definition text_tool :: mcp_fn where
  "text_tool = \<lparr>mf_Name = ''up'', mf_Path = [], mf_MCP = ''Tool'', mf_Description = [], mf_ContentType = [],
     mf_input = Inr JsNull, mf_output = Inr JsNull,
     mf_invoker = Some (mcp_invoker (text_fn dispatch_opt NoAbort id) text_hooks False (\<lambda>_. None))\<rparr>"

definition text_mcp_server :: mcp_server where
  "text_mcp_server = \<lparr>ms_config = \<lparr>mc_Endpoint = [], mc_ResourceScheme = [], mc_ResourceHost = []\<rparr>, ms_AppName = [],
     ms_Version = [], ms_FunctionCache = [text_tool], ms_internal = [], ms_resource_dirs = [], ms_prompt_dirs = []\<rparr>"

theorem mcp_tool_call_runs_handler_witness:
  "mcpToolCall text_lib text_mcp_server ''a'' empty_store = Some (Inr (tool_answer (JsStr ''a!'') ''a!''), empty_store)"
proof -
  have "mcpFunctionName text_tool = ''up''" "to_lower ''Tool'' = to_lower ''tool''"
    by (simp add: mcpFunctionName_def text_tool_def) code_simp+
  then have f: "findMCPOption text_mcp_server ''tool'' ''up'' = Some text_tool"
    by (simp add: findMCPOption_def mcpOptions_def text_mcp_server_def) (simp add: text_tool_def)
  let ?f = "text_fn dispatch_opt NoAbort id"
  have 1: "li_params text_lib ''a'' = Inr (''up'', ''a'')" by (simp add: text_lib_def)
  have 2: "mf_invoker text_tool = Some (mcp_invoker ?f text_hooks False (\<lambda>_. None))" by (simp add: text_tool_def)
  have 3: "in_of (fn_codec ?f) (if ''a'' = [] \<or> ''a'' = ''null'' then ''{}'' else ''a'') = Inr ''a''"
    "ih_fill text_hooks ''a'' = Inr ''a''" "fn_handle ?f ''a'' empty_store = ((''a!'', None, NoAbort), empty_store)"
    "marshalOutputSet (fn_codec ?f) ''a!'' None = Inr (Some ''a!'', None)"
    by (simp_all add: text_defs text_hooks_def marshalOutputSet_def)
  show ?thesis
    using mcp_tool_call_runs_handler [OF 1 f 2 3] by (auto simp: text_lib_def marshalMCPText_def)
qed

end
