(* ===== verification/Request_Binding.thy ===== *)
theory Request_Binding
  imports Prelude
begin

section \<open>Binding a request to a typed input\<close>

text \<open>
  \<open>getByStructField\<close>, \<open>getAll\<close> and \<open>setByReflect\<close> of \<open>serve_request.go\<close>, \<open>buildPlan\<close> of \<open>reflectplan.go\<close>,
  \<open>defaults.go\<close> and \<open>parsetime.go\<close>. Reflection is made explicit: \<open>gtype\<close> is the shape of a Go type with the
  tags of its fields, \<open>gv\<close> a value of such a type. What fiber returns for a name, the JSON and XML decoders
  (which write into a value), the float, duration and time parsers of the library, the regular
  expressions, the validator and the extensions are arguments. Setting a value that is not
  addressable panics, which is \<open>None\<close>.
\<close>

subsection \<open>Types and values\<close>

datatype gtype =
    TBool | TInt nat | TUint nat | TFloat nat | TString | TBytes | TTime | TDuration
  | TPtr gtype | TStruct "gfield list" | TFile | TFiles | TOther
and gfield = GField (gf_name: string) (gf_exported: bool) (gf_anon: bool) (gf_tags: "(string \<times> string) list") (gf_type: gtype)

text \<open>A float is its bits; a file is its handle. \<open>TFile\<close> is \<open>*multipart.FileHeader\<close>, \<open>TFiles\<close> a slice of these.\<close>

datatype gv =
    VBool bool | VInt int | VFloat int | VString string | VBytes bytes | VTime time
  | VPtr "gv option" | VStruct "gv list" | VFile "string option" | VFiles "string list" | VOther

definition zeroTime :: time where
  "zeroTime = - 62135596800 * second"

fun zero_of :: "gtype \<Rightarrow> gv" and zero_fields :: "gfield list \<Rightarrow> gv list" where
  "zero_of TBool = VBool False"
| "zero_of (TInt n) = VInt 0"
| "zero_of (TUint n) = VInt 0"
| "zero_of (TFloat n) = VFloat 0"
| "zero_of TString = VString []"
| "zero_of TBytes = VBytes []"
| "zero_of TTime = VTime zeroTime"
| "zero_of TDuration = VInt 0"
| "zero_of (TPtr t) = VPtr None"
| "zero_of (TStruct fs) = VStruct (zero_fields fs)"
| "zero_of TFile = VFile None"
| "zero_of TFiles = VFiles []"
| "zero_of TOther = VOther"
| "zero_fields [] = []"
| "zero_fields (GField n x a ts t # fs) = zero_of t # zero_fields fs"

fun is_zero :: "gv \<Rightarrow> bool" where
  "is_zero (VBool b) = (\<not> b)"
| "is_zero (VInt i) = (i = 0)"
| "is_zero (VFloat i) = (i = 0)"
| "is_zero (VString s) = (s = [])"
| "is_zero (VBytes s) = (s = [])"
| "is_zero (VTime t) = (t = zeroTime)"
| "is_zero (VPtr p) = (p = None)"
| "is_zero (VStruct vs) = list_all is_zero vs"
| "is_zero (VFile f) = (f = None)"
| "is_zero (VFiles fs) = (fs = [])"
| "is_zero VOther = True"

definition in_signed :: "nat \<Rightarrow> int \<Rightarrow> bool" where
  "in_signed n i \<longleftrightarrow> - (2 ^ (n - 1)) \<le> i \<and> i < 2 ^ (n - 1)"

definition in_unsigned :: "nat \<Rightarrow> int \<Rightarrow> bool" where
  "in_unsigned n i \<longleftrightarrow> 0 \<le> i \<and> i < 2 ^ n"

fun has_type :: "gtype \<Rightarrow> gv \<Rightarrow> bool" and have_types :: "gfield list \<Rightarrow> gv list \<Rightarrow> bool" where
  "has_type TBool v = (\<exists>b. v = VBool b)"
| "has_type (TInt n) v = (\<exists>i. v = VInt i \<and> in_signed n i)"
| "has_type (TUint n) v = (\<exists>i. v = VInt i \<and> in_unsigned n i)"
| "has_type (TFloat n) v = (\<exists>i. v = VFloat i)"
| "has_type TString v = (\<exists>s. v = VString s)"
| "has_type TBytes v = (\<exists>s. v = VBytes s)"
| "has_type TTime v = (\<exists>t. v = VTime t)"
| "has_type TDuration v = (\<exists>i. v = VInt i \<and> in_signed 64 i)"
| "has_type (TPtr t) v = (case v of VPtr None \<Rightarrow> True | VPtr (Some x) \<Rightarrow> has_type t x | _ \<Rightarrow> False)"
| "has_type (TStruct fs) v = (case v of VStruct vs \<Rightarrow> have_types fs vs | _ \<Rightarrow> False)"
| "has_type TFile v = (\<exists>f. v = VFile f)"
| "has_type TFiles v = (\<exists>f. v = VFiles f)"
| "has_type TOther v = (v = VOther)"
| "have_types [] vs = (vs = [])"
| "have_types (GField n x a ts t # fs) vs = (case vs of [] \<Rightarrow> False | v # vs' \<Rightarrow> has_type t v \<and> have_types fs vs')"

subsection \<open>Times and numbers\<close>

text \<open>\<open>parseEpochDigits\<close>: seconds, milliseconds, microseconds or nanoseconds, told by the number of digits.\<close>

definition parseEpochDigits :: "string \<Rightarrow> time option" where
  "parseEpochDigits s0 =
     (let s1 = trim_prefix ''+'' s0; neg = prefix ''-'' s1; s = (if neg then drop 1 s1 else s1) in
      if length s < 10 \<or> length s > 19 then None
      else
        (case atoi s of
           None \<Rightarrow> None
         | Some v0 \<Rightarrow>
             let v = (if neg then - v0 else v0) in
             if length s = 10 then Some (v * second)
             else if length s = 13 then Some (v * 1000000)
             else if length s = 16 then Some (v * 1000)
             else if length s = 19 then Some v
             else None))"

definition tryLayouts :: "string list" where
  "tryLayouts =
     [''2006-01-02T15:04:05.999999999Z07:00'', ''2006-01-02T15:04:05Z07:00'',
      ''2006-01-02 15:04:05.999999999Z07:00'', ''2006-01-02 15:04:05Z07:00'',
      ''2006-01-02 15:04:05.999999999'', ''2006-01-02 15:04:05'', ''2006/01/02 15:04:05'',
      ''02 Jan 2006 15:04:05 MST'', ''Mon, 02 Jan 2006 15:04:05 -0700'', ''Mon, 02 Jan 2006 15:04:05 MST'',
      ''Monday, 02-Jan-06 15:04:05 MST'', ''Mon Jan _2 15:04:05 2006'', ''Mon Jan _2 15:04:05 MST 2006'',
      ''Mon Jan 02 15:04:05 -0700 2006'']"

text \<open>\<open>parse\<close> and \<open>inloc\<close> are \<open>time.Parse\<close> and \<open>time.ParseInLocation\<close> (in UTC, the only location used).\<close>

fun try_layouts ::
  "(string \<Rightarrow> string \<Rightarrow> time option) \<Rightarrow> (string \<Rightarrow> string \<Rightarrow> time option) \<Rightarrow> string \<Rightarrow> string list \<Rightarrow> time option" where
  "try_layouts parse inloc s [] = None"
| "try_layouts parse inloc s (l # ls) =
     (case parse l s of
        Some t \<Rightarrow> Some t
      | None \<Rightarrow> (case inloc l s of Some t \<Rightarrow> Some t | None \<Rightarrow> try_layouts parse inloc s ls))"

definition parseTimeSafe ::
  "(string \<Rightarrow> string \<Rightarrow> time option) \<Rightarrow> (string \<Rightarrow> string \<Rightarrow> time option) \<Rightarrow> string \<Rightarrow> time option" where
  "parseTimeSafe parse inloc s =
     (let s' = trim_space s;
          epoch = (if s' \<noteq> [] \<and> list_all is_digit s' then parseEpochDigits s' else None)
      in case epoch of Some t \<Rightarrow> Some t | None \<Rightarrow> try_layouts parse inloc s' tryLayouts)"

definition parse_uint :: "string \<Rightarrow> int option" where
  "parse_uint s =
     (if s = [] then None
      else case digits_val 0 s of None \<Rightarrow> None | Some v \<Rightarrow> if v < 2 ^ 64 then Some v else None)"

definition parse_bool :: "string \<Rightarrow> bool option" where
  "parse_bool s =
     (if s \<in> {''1'', ''t'', ''T'', ''TRUE'', ''true'', ''True''} then Some True
      else if s \<in> {''0'', ''f'', ''F'', ''FALSE'', ''false'', ''False''} then Some False else None)"

text \<open>\<open>SetInt\<close> and \<open>SetUint\<close> keep the low bits.\<close>

definition wrap_int :: "nat \<Rightarrow> int \<Rightarrow> int" where
  "wrap_int n i = (i + 2 ^ (n - 1)) mod 2 ^ n - 2 ^ (n - 1)"

definition wrap_uint :: "nat \<Rightarrow> int \<Rightarrow> int" where
  "wrap_uint n i = i mod 2 ^ n"

record parsers =
  ps_time :: "string \<Rightarrow> string \<Rightarrow> time option"
  ps_time_in :: "string \<Rightarrow> string \<Rightarrow> time option"
  ps_duration :: "string \<Rightarrow> int option"
  ps_float :: "string \<Rightarrow> int option"
  ps_float32 :: "int \<Rightarrow> int"

text \<open>The value \<open>setByReflect\<close> sets for a base type; \<open>None\<close> when it sets nothing.\<close>

definition set_base :: "parsers \<Rightarrow> string \<Rightarrow> gtype \<Rightarrow> gv option" where
  "set_base ps value basetyp =
     (case basetyp of
        TTime \<Rightarrow> map_option VTime (parseTimeSafe (ps_time ps) (ps_time_in ps) value)
      | TDuration \<Rightarrow>
          (case ps_duration ps value of
             None \<Rightarrow> None
           | Some d \<Rightarrow> (case atoi value of Some i \<Rightarrow> Some (VInt (wrap_int 64 i)) | None \<Rightarrow> Some (VInt d)))
      | TBool \<Rightarrow> map_option VBool (parse_bool value)
      | TFloat n \<Rightarrow> map_option (\<lambda>x. VFloat (if n = 32 then ps_float32 ps x else x)) (ps_float ps value)
      | TInt n \<Rightarrow> map_option (\<lambda>i. VInt (wrap_int n i)) (atoi value)
      | TUint n \<Rightarrow> map_option (\<lambda>i. VInt (wrap_uint n i)) (parse_uint value)
      | TBytes \<Rightarrow> Some (VBytes value)
      | TString \<Rightarrow> Some (VString value)
      | _ \<Rightarrow> None)"

definition setByReflect :: "parsers \<Rightarrow> string \<Rightarrow> gtype \<Rightarrow> gv option" where
  "setByReflect ps value typ =
     (case typ of
        TPtr t \<Rightarrow> map_option (\<lambda>x. VPtr (Some x)) (set_base ps value t)
      | t \<Rightarrow> set_base ps value t)"

subsection \<open>Defaults\<close>

text \<open>
  \<open>setDefaultStruct\<close>: exported fields that are zero. The time branch sets the result of a parse that failed,
  which is the zero time.
\<close>

fun default_fields :: "parsers \<Rightarrow> gfield list \<Rightarrow> gv list \<Rightarrow> gv list" where
  "default_fields ps [] vs = vs"
| "default_fields ps (f # fs) [] = []"
| "default_fields ps (GField n x a ts t # fs) (v # vs) =
     (if \<not> x \<or> \<not> is_zero v then v
      else
        (case t of
           TTime \<Rightarrow>
             (case map_of ts ''default'' of
                Some dv \<Rightarrow>
                  if dv \<noteq> ''-'' \<and> parseTimeSafe (ps_time ps) (ps_time_in ps) dv = None then VTime zeroTime else v
              | None \<Rightarrow> v)
         | TStruct fs' \<Rightarrow> (case v of VStruct vs' \<Rightarrow> VStruct (default_fields ps fs' vs') | _ \<Rightarrow> v)
         | _ \<Rightarrow>
             (case map_of ts ''default'' of
                Some dv \<Rightarrow> if dv \<noteq> ''-'' then (case setByReflect ps dv t of Some v' \<Rightarrow> v' | None \<Rightarrow> v) else v
              | None \<Rightarrow> v))) # default_fields ps fs vs"

definition setDefault :: "parsers \<Rightarrow> gtype \<Rightarrow> gv \<Rightarrow> string + gv" where
  "setDefault ps t v =
     (case (t, v) of
        (TStruct fs, VStruct vs) \<Rightarrow> Inr (VStruct (default_fields ps fs vs))
      | _ \<Rightarrow> Inl ''not a struct pointer'')"

subsection \<open>Plans\<close>

text \<open>\<open>buildPlan\<close>: what a field is bound from; an empty tag stands for the field's name.\<close>

definition plan_tag :: "gfield \<Rightarrow> string \<Rightarrow> string option" where
  "plan_tag f k = map_option (\<lambda>v. if v = [] then gf_name f else v) (map_of (gf_tags f) k)"

definition has_child :: "gfield \<Rightarrow> bool" where
  "has_child f = (gf_anon f \<and> (case gf_type f of TStruct _ \<Rightarrow> True | _ \<Rightarrow> False))"

subsection \<open>Reading a field\<close>

datatype bind_error =
  ErrNotStruct | ErrRegexCompileFailed | ErrRegexMismatch | ErrValidationFailed | DecodeFailed string | InjectFailed string

record inject_target =
  it_input :: string
  it_ext :: string
  it_action :: string
  it_field :: nat

type_synonym decoder = "bytes \<Rightarrow> gtype \<Rightarrow> gv \<Rightarrow> gv \<times> string option"

record bind_env =
  be_param :: "string \<Rightarrow> string"
  be_query :: "string \<Rightarrow> string"
  be_form :: "string \<Rightarrow> string"
  be_cookie :: "string \<Rightarrow> string"
  be_header :: "string \<Rightarrow> string"
  be_cli :: "string \<Rightarrow> string"
  be_body :: bytes
  be_json :: decoder
  be_xml :: decoder
  be_jwt :: "(string + (string \<rightharpoonup> bytes)) option"
  be_file :: "string \<Rightarrow> string option"
  be_files :: "string \<Rightarrow> string list"
  be_regex :: "string \<Rightarrow> string \<Rightarrow> bool option"
  be_parsers :: parsers
  be_valid :: "(gv list \<Rightarrow> bool) option"
  be_exts :: "(string \<times> (inject_target list \<Rightarrow> gv list \<Rightarrow> gv list \<times> string option)) list"

text \<open>The decoders write through a pointer, which is allocated when nil, or into the field itself.\<close>

definition decode_into :: "decoder \<Rightarrow> bytes \<Rightarrow> gtype \<Rightarrow> gv \<Rightarrow> gv \<times> string option" where
  "decode_into dec buf t v =
     (case t of
        TPtr b \<Rightarrow>
          (case dec buf b (case v of VPtr (Some x) \<Rightarrow> x | _ \<Rightarrow> zero_of b) of (x, e) \<Rightarrow> (VPtr (Some x), e))
      | _ \<Rightarrow> dec buf t v)"

definition alloc :: "gtype \<Rightarrow> gv \<Rightarrow> gv" where
  "alloc t v = (case (t, v) of (TPtr b, VPtr None) \<Rightarrow> VPtr (Some (zero_of b)) | _ \<Rightarrow> v)"

text \<open>\<open>getByStructField\<close>: a text to set, nothing to set (the field may have been written), or an error.\<close>

datatype got = Bound string | NotBound | GotErr string

definition nonempty :: "string \<Rightarrow> got" where
  "nonempty s = (if s \<noteq> [] then Bound s else NotBound)"

definition content_type :: "bind_env \<Rightarrow> string" where
  "content_type env = to_lower (be_header env ''Content-Type'')"

text \<open>
  The post tag and the jwt tag: \<open>None\<close> when they fall through to the tags after them. A nil pointer is
  allocated before the content type is looked at; errors of decoding a claim are dropped.
\<close>

definition body_as :: "bind_env \<Rightarrow> string list \<Rightarrow> decoder \<Rightarrow> string \<Rightarrow> gtype \<Rightarrow> gv \<Rightarrow> got \<times> gv" where
  "body_as env ctypes dec msg t v =
     (if \<not> list_ex (\<lambda>p. prefix p (content_type env)) ctypes then (NotBound, v)
      else
        (case decode_into dec (be_body env) t v of
           (v', None) \<Rightarrow> (NotBound, v')
         | (v', Some e) \<Rightarrow> (GotErr (msg @ e), v')))"

definition get_post :: "bind_env \<Rightarrow> string \<Rightarrow> gtype \<Rightarrow> gv \<Rightarrow> got option \<times> gv" where
  "get_post env qx t v =
     (if be_body env = [] then (None, v)
      else
        let v1 = alloc t v in
        if qx = ''json'' then
          apfst Some (body_as env [''application/json'', ''text/''] (be_json env) ''failed to unmarshal JSON body: '' t v1)
        else if qx = ''xml'' then
          apfst Some (body_as env [''application/xml'', ''text/''] (be_xml env) ''failed to unmarshal XML body: '' t v1)
        else if qx = ''raw'' \<and> t = TBytes then (Some NotBound, VBytes (be_body env))
        else (None, v1))"

definition get_jwt :: "bind_env \<Rightarrow> string \<Rightarrow> gtype \<Rightarrow> gv \<Rightarrow> got option \<times> gv" where
  "get_jwt env qx t v =
     (case be_jwt env of
        None \<Rightarrow> (Some NotBound, v)
      | Some (Inl _) \<Rightarrow> (None, v)
      | Some (Inr m) \<Rightarrow>
          (case m qx of
             None \<Rightarrow> (Some NotBound, v)
           | Some raw \<Rightarrow> (Some NotBound, fst (decode_into (be_json env) raw t v))))"

text \<open>The tags after jwt; the first one the field has decides.\<close>

definition get_rest :: "bind_env \<Rightarrow> gfield \<Rightarrow> got" where
  "get_rest env f =
     (case plan_tag f ''cookie'' of
        Some q \<Rightarrow> nonempty (be_cookie env q)
      | None \<Rightarrow>
          (case plan_tag f ''header'' of
             Some q \<Rightarrow> nonempty (be_header env q)
           | None \<Rightarrow>
               (case plan_tag f ''cli'' of
                  Some q \<Rightarrow> nonempty (be_cli env q)
                | None \<Rightarrow> NotBound)))"

definition get_form :: "bind_env \<Rightarrow> string \<Rightarrow> got" where
  "get_form env q =
     (if prefix ''application/x-www-form-urlencoded'' (content_type env) \<or>
         prefix ''multipart/form-data'' (content_type env)
      then Bound (be_form env q) else NotBound)"

definition getByStructField :: "bind_env \<Rightarrow> gfield \<Rightarrow> gv \<Rightarrow> got \<times> gv" where
  "getByStructField env f v =
     (case plan_tag f ''path'' of
        Some q \<Rightarrow> (nonempty (be_param env q), v)
      | None \<Rightarrow>
     (case plan_tag f ''query'' of
        Some q \<Rightarrow> (nonempty (be_query env q), v)
      | None \<Rightarrow>
     (case plan_tag f ''form'' of
        Some q \<Rightarrow> (get_form env q, v)
      | None \<Rightarrow>
          (case (case plan_tag f ''post'' of Some q \<Rightarrow> get_post env q (gf_type f) v | None \<Rightarrow> (None, v)) of
             (Some g, v1) \<Rightarrow> (g, v1)
           | (None, v1) \<Rightarrow>
               (case (case plan_tag f ''jwt'' of Some q \<Rightarrow> get_jwt env q (gf_type f) v1 | None \<Rightarrow> (None, v1)) of
                  (Some g, v2) \<Rightarrow> (g, v2)
                | (None, v2) \<Rightarrow> (get_rest env f, v2))))))"

text \<open>
  Whether reading this field takes a pointer into it, which panics when it is not addressable or not
  exported: a body always, a claim unless the field is a pointer that is set and may be read.
\<close>

definition reads_in_place :: "bind_env \<Rightarrow> gfield \<Rightarrow> gv \<Rightarrow> bool" where
  "reads_in_place env f v \<longleftrightarrow>
     plan_tag f ''path'' = None \<and> plan_tag f ''query'' = None \<and> plan_tag f ''form'' = None \<and>
     (plan_tag f ''post'' \<noteq> None \<and> be_body env \<noteq> [] \<or>
      (case (plan_tag f ''jwt'', be_jwt env) of (Some q, Some (Inr m)) \<Rightarrow> m q \<noteq> None | _ \<Rightarrow> False) \<and>
      \<not> (gf_exported f \<and> (case v of VPtr (Some _) \<Rightarrow> True | _ \<Rightarrow> False)))"

subsection \<open>Binding the fields\<close>

definition split_action :: "string \<Rightarrow> string \<times> string" where
  "split_action s =
     (case index_of CHR '':'' s of
        Some i \<Rightarrow> if i > 0 then (take i s, drop (Suc i) s) else (s, [])
      | None \<Rightarrow> (s, []))"

text \<open>Regular expression, injection and setting, for a text \<open>s\<close> that was bound to an addressable field.\<close>

definition bind_text ::
  "bind_env \<Rightarrow> bool \<Rightarrow> nat \<Rightarrow> gfield \<Rightarrow> string \<Rightarrow> gv \<Rightarrow> (bind_error + gv \<times> inject_target list) option" where
  "bind_text env addr i f s v =
     (let rx = (case plan_tag f ''regex'' of
                  None \<Rightarrow> None
                | Some r \<Rightarrow> (case be_regex env r s of
                              None \<Rightarrow> Some ErrRegexCompileFailed
                            | Some ok \<Rightarrow> if ok then None else Some ErrRegexMismatch)) in
      case rx of
        Some e \<Rightarrow> Some (Inl e)
      | None \<Rightarrow>
          (case plan_tag f ''resource'' of
             Some r \<Rightarrow>
               if \<not> addr then None
               else
                 (case split_action r of (ext, action) \<Rightarrow>
                    Some (Inr (alloc (gf_type f) v,
                      [\<lparr>it_input = s, it_ext = ext, it_action = action, it_field = i\<rparr>])))
           | None \<Rightarrow>
               (case setByReflect (be_parsers env) s (gf_type f) of
                  None \<Rightarrow> Some (Inr (v, []))
                | Some v' \<Rightarrow> if addr then Some (Inr (v', [])) else None)))"

definition bind_file :: "bind_env \<Rightarrow> bool \<Rightarrow> gfield \<Rightarrow> gv \<Rightarrow> gv option" where
  "bind_file env addr f v =
     (case plan_tag f ''form'' of
        None \<Rightarrow> Some v
      | Some q \<Rightarrow>
          (case be_file env q of
             None \<Rightarrow> Some v
           | Some fh \<Rightarrow> if addr then Some (VFile (Some fh)) else None))"

definition bind_files :: "bind_env \<Rightarrow> bool \<Rightarrow> gfield \<Rightarrow> gv \<Rightarrow> gv option" where
  "bind_files env addr f v =
     (case plan_tag f ''form'' of
        None \<Rightarrow> Some v
      | Some q \<Rightarrow>
          if be_files env q = [] then Some v
          else if \<not> addr then None
          else Some (case gf_type f of TPtr _ \<Rightarrow> VPtr (Some (VFiles (be_files env q))) | _ \<Rightarrow> VFiles (be_files env q)))"

text \<open>
  The loop over the fields. A field that is embedded but not exported is visited and can not be written. An
  embedded struct is bound only when a text was found for the field itself, and
  then on a copy of it that is not addressable: its error and its values are lost. (A claim decoded through a
  pointer that such a copy shares is the one write left out.)
\<close>

fun bind_fields ::
  "bind_env \<Rightarrow> bool \<Rightarrow> nat \<Rightarrow> gfield list \<Rightarrow> gv list \<Rightarrow> (bind_error + gv list \<times> inject_target list) option" where
  "bind_fields env addr i [] vs = Some (Inr (vs, []))"
| "bind_fields env addr i (f # fs) [] = Some (Inr ([], []))"
| "bind_fields env addr i (GField n x a ts t # fs) (v # vs) =
     (let f = GField n x a ts t;
          here =
            (if \<not> x \<and> \<not> a then Some (Inr (v, []))
             else if t = TFile then map_option (\<lambda>v'. Inr (v', [])) (bind_file env (addr \<and> x) f v)
             else if t = TFiles \<or> t = TPtr TFiles then map_option (\<lambda>v'. Inr (v', [])) (bind_files env (addr \<and> x) f v)
             else if \<not> (addr \<and> x) \<and> reads_in_place env f v then None
             else
               (case getByStructField env f v of
                  (GotErr e, v1) \<Rightarrow> Some (Inl (DecodeFailed e))
                | (NotBound, v1) \<Rightarrow> Some (Inr (v1, []))
                | (Bound s, v1) \<Rightarrow>
                    (case (a, t, v1) of
                       (True, TStruct fs', VStruct vs') \<Rightarrow>
                         if \<not> x then None
                         else
                           (case bind_fields env False 0 fs' vs' of
                              None \<Rightarrow> None
                            | Some _ \<Rightarrow> Some (Inr (v1, [])))
                     | _ \<Rightarrow> bind_text env (addr \<and> x) i f s v1)))
      in case here of
           None \<Rightarrow> None
         | Some (Inl e) \<Rightarrow> Some (Inl e)
         | Some (Inr (v', ts1)) \<Rightarrow>
             (case bind_fields env addr (Suc i) fs vs of
                None \<Rightarrow> None
              | Some (Inl e) \<Rightarrow> Some (Inl e)
              | Some (Inr (vs', ts2)) \<Rightarrow> Some (Inr (v' # vs', ts1 @ ts2))))"

fun run_injections ::
  "(string \<times> (inject_target list \<Rightarrow> gv list \<Rightarrow> gv list \<times> string option)) list \<Rightarrow> inject_target list \<Rightarrow> gv list \<Rightarrow>
    bind_error + gv list" where
  "run_injections [] ts2 vs = Inr vs"
| "run_injections ((name, onInjection) # exts) ts2 vs =
     (let mine = filter (\<lambda>t. it_ext t = name) ts2 in
      if mine = [] then run_injections exts ts2 vs
      else
        (case onInjection mine vs of
           (vs', None) \<Rightarrow> run_injections exts ts2 vs'
         | (vs', Some e) \<Rightarrow> Inl (InjectFailed e)))"

definition getAll :: "bind_env \<Rightarrow> gtype \<Rightarrow> gv \<Rightarrow> (bind_error + gv) option" where
  "getAll env t params =
     (case (t, params) of
        (TStruct fs, VStruct vs) \<Rightarrow>
          (case bind_fields env True 0 fs vs of
             None \<Rightarrow> None
           | Some (Inl e) \<Rightarrow> Some (Inl e)
           | Some (Inr (vs', ts2)) \<Rightarrow>
               if (case be_valid env of Some valid \<Rightarrow> \<not> valid vs' | None \<Rightarrow> False) then Some (Inl ErrValidationFailed)
               else Some (map_sum id VStruct (run_injections (be_exts env) ts2 vs')))
      | _ \<Rightarrow> Some (Inl ErrNotStruct))"

subsection \<open>Well-typed values\<close>

lemma wrap_int_range: "0 < n \<Longrightarrow> in_signed n (wrap_int n i)"
proof -
  assume n: "0 < n"
  have "(2::int) ^ n = 2 * 2 ^ (n - 1)" using n by (cases n) simp_all
  moreover have "0 \<le> (i + 2 ^ (n - 1)) mod 2 ^ n" "(i + 2 ^ (n - 1)) mod 2 ^ n < 2 ^ n" by simp_all
  ultimately show ?thesis unfolding in_signed_def wrap_int_def by linarith
qed

lemma wrap_int_same: "0 < n \<Longrightarrow> wrap_int n i = i \<longleftrightarrow> in_signed n i"
proof
  assume n: "0 < n" and "wrap_int n i = i"
  then show "in_signed n i" using wrap_int_range [OF n, of i] by simp
next
  assume n: "0 < n" and r: "in_signed n i"
  have "(2::int) ^ n = 2 * 2 ^ (n - 1)" using n by (cases n) simp_all
  with r have "0 \<le> i + 2 ^ (n - 1)" "i + 2 ^ (n - 1) < 2 ^ n" by (auto simp: in_signed_def)
  then show "wrap_int n i = i" by (simp add: wrap_int_def)
qed

lemma wrap_uint_range: "in_unsigned n (wrap_uint n i)"
  by (simp add: in_unsigned_def wrap_uint_def)

lemma wrap_uint_same: "wrap_uint n i = i \<longleftrightarrow> in_unsigned n i"
proof
  show "wrap_uint n i = i \<Longrightarrow> in_unsigned n i" using wrap_uint_range [of n i] by simp
qed (simp add: in_unsigned_def wrap_uint_def)

text \<open>Types as Go has them: integers have a positive width.\<close>

fun wf_type :: "gtype \<Rightarrow> bool" and wf_fields :: "gfield list \<Rightarrow> bool" where
  "wf_type (TInt n) = (0 < n)"
| "wf_type (TPtr t) = wf_type t"
| "wf_type (TStruct fs) = wf_fields fs"
| "wf_type _ = True"
| "wf_fields [] = True"
| "wf_fields (GField n x a ts t # fs) = (wf_type t \<and> wf_fields fs)"

lemma zero_has_type: "wf_type t \<Longrightarrow> has_type t (zero_of t)" and "wf_fields fs \<Longrightarrow> have_types fs (zero_fields fs)"
  by (induction t and fs rule: zero_of_zero_fields.induct) (auto simp: in_signed_def in_unsigned_def)

definition durations_fit :: "parsers \<Rightarrow> bool" where
  "durations_fit ps \<longleftrightarrow> (\<forall>s d. ps_duration ps s = Some d \<longrightarrow> in_signed 64 d)"

lemma set_base_type:
  "set_base ps s t = Some v \<Longrightarrow> wf_type t \<Longrightarrow> durations_fit ps \<Longrightarrow> has_type t v"
  by (cases t) (auto simp: set_base_def durations_fit_def wrap_int_range wrap_uint_range split: option.splits)

lemma setByReflect_type:
  "setByReflect ps s t = Some v \<Longrightarrow> wf_type t \<Longrightarrow> durations_fit ps \<Longrightarrow> has_type t v"
  by (cases t) (auto simp: setByReflect_def dest: set_base_type)

text \<open>Decoders and extensions write values of the type they are given.\<close>

definition keeps_type :: "decoder \<Rightarrow> bool" where
  "keeps_type dec \<longleftrightarrow> (\<forall>buf t v. has_type t v \<longrightarrow> has_type t (fst (dec buf t v)))"

definition env_ok :: "bind_env \<Rightarrow> gfield list \<Rightarrow> bool" where
  "env_ok env fs \<longleftrightarrow> keeps_type (be_json env) \<and> keeps_type (be_xml env) \<and> durations_fit (be_parsers env) \<and>
     (\<forall>(name, g) \<in> set (be_exts env). \<forall>ts2 vs. have_types fs vs \<longrightarrow> have_types fs (fst (g ts2 vs)))"

lemma alloc_type: "has_type t v \<Longrightarrow> wf_type t \<Longrightarrow> has_type t (alloc t v)"
  by (cases t) (auto simp: alloc_def zero_has_type split: gv.splits option.splits)

lemma decode_into_direct: "(\<forall>b. t \<noteq> TPtr b) \<Longrightarrow> decode_into dec buf t v = dec buf t v"
  by (cases t) (simp_all add: decode_into_def)

lemma decode_into_type:
  assumes "keeps_type dec" "has_type t v" "wf_type t"
  shows "has_type t (fst (decode_into dec buf t v))"
proof (cases "\<exists>b. t = TPtr b")
  case True
  then obtain b where b: "t = TPtr b" by blast
  then have "has_type b (case v of VPtr (Some x) \<Rightarrow> x | _ \<Rightarrow> zero_of b)"
    using assms(2,3) by (auto simp: zero_has_type split: gv.splits option.splits)
  then show ?thesis using assms(1) b by (simp add: decode_into_def keeps_type_def split_def)
next
  case False
  then show ?thesis using assms(1,2) by (simp add: decode_into_direct keeps_type_def del: has_type.simps)
qed

lemma getByStructField_type:
  assumes "keeps_type (be_json env)" "keeps_type (be_xml env)" "has_type (gf_type f) v" "wf_type (gf_type f)"
  shows "has_type (gf_type f) (snd (getByStructField env f v))"
proof -
  have body: "keeps_type dec \<Longrightarrow> has_type (gf_type f) w \<Longrightarrow> has_type (gf_type f) (snd (body_as env cts dec msg (gf_type f) w))"
    for dec w cts msg
    using decode_into_type [of dec "gf_type f" w "be_body env"] assms(4)
    by (auto simp: body_as_def split: prod.splits option.splits)
  have post: "has_type (gf_type f) w \<Longrightarrow> has_type (gf_type f) (snd (get_post env q (gf_type f) w))" for q w
    using body [OF assms(1) alloc_type] body [OF assms(2) alloc_type] alloc_type assms(4)
    by (auto simp: get_post_def Let_def)
  have jwt: "has_type (gf_type f) w \<Longrightarrow> has_type (gf_type f) (snd (get_jwt env q (gf_type f) w))" for q w
    using decode_into_type [OF assms(1) _ assms(4)] by (auto simp: get_jwt_def split: option.splits sum.splits)
  show ?thesis
    using post [OF assms(3)] jwt [OF assms(3)] jwt [OF post [OF assms(3)]] assms(3)
    by (auto simp: getByStructField_def split: option.splits prod.splits) (metis snd_conv)+
qed

lemma Inr_map_sum: "map_sum f g r = Inr y \<longleftrightarrow> (\<exists>x. r = Inr x \<and> y = g x)"
  by (cases r) auto

lemma bind_text_type:
  assumes "bind_text env addr i f s v = Some (Inr (v', ts1))" "has_type (gf_type f) v" "wf_type (gf_type f)"
    and "durations_fit (be_parsers env)"
  shows "has_type (gf_type f) v'"
  using assms setByReflect_type [OF _ assms(3,4), of s v']
  by (auto simp: bind_text_def Let_def alloc_type split: option.splits prod.splits if_splits)

lemma bind_file_type: "bind_file env addr f v = Some v' \<Longrightarrow> has_type TFile v \<Longrightarrow> has_type TFile v'"
  by (auto simp: bind_file_def split: option.splits if_splits)

lemma bind_files_type:
  "bind_files env addr f v = Some v' \<Longrightarrow> gf_type f = t \<Longrightarrow> t = TFiles \<or> t = TPtr TFiles \<Longrightarrow> has_type t v \<Longrightarrow> has_type t v'"
  by (auto simp: bind_files_def split: option.splits if_splits)

text \<open>One step of the loop, with the outcome \<open>nested\<close> of the embedded call.\<close>

definition bind_field ::
  "bind_env \<Rightarrow> bool \<Rightarrow> nat \<Rightarrow> gfield \<Rightarrow> (gfield list \<Rightarrow> gv list \<Rightarrow> bool) \<Rightarrow> gv \<Rightarrow> (bind_error + gv \<times> inject_target list) option" where
  "bind_field env addr i f panics v =
     (if \<not> gf_exported f \<and> \<not> gf_anon f then Some (Inr (v, []))
      else if gf_type f = TFile then map_option (\<lambda>v'. Inr (v', [])) (bind_file env (addr \<and> gf_exported f) f v)
      else if gf_type f = TFiles \<or> gf_type f = TPtr TFiles
        then map_option (\<lambda>v'. Inr (v', [])) (bind_files env (addr \<and> gf_exported f) f v)
      else if \<not> (addr \<and> gf_exported f) \<and> reads_in_place env f v then None
      else
        (case getByStructField env f v of
           (GotErr e, v1) \<Rightarrow> Some (Inl (DecodeFailed e))
         | (NotBound, v1) \<Rightarrow> Some (Inr (v1, []))
         | (Bound s, v1) \<Rightarrow>
             (case (gf_anon f, gf_type f, v1) of
                (True, TStruct fs', VStruct vs') \<Rightarrow>
                  if \<not> gf_exported f then None else if panics fs' vs' then None else Some (Inr (v1, []))
              | _ \<Rightarrow> bind_text env (addr \<and> gf_exported f) i f s v1)))"

lemma bind_fields_step:
  "bind_fields env addr i (f # fs) (v # vs) =
    (case bind_field env addr i f (\<lambda>fs' vs'. bind_fields env False 0 fs' vs' = None) v of
       None \<Rightarrow> None
     | Some (Inl e) \<Rightarrow> Some (Inl e)
     | Some (Inr (v', ts1)) \<Rightarrow>
         (case bind_fields env addr (Suc i) fs vs of
            None \<Rightarrow> None
          | Some (Inl e) \<Rightarrow> Some (Inl e)
          | Some (Inr (vs', ts2)) \<Rightarrow> Some (Inr (v' # vs', ts1 @ ts2))))"
proof (cases f)
  case (GField n x a ts t)
  have nested: "(case bind_fields env False 0 fs' vs' of None \<Rightarrow> None | Some _ \<Rightarrow> r) =
      (if bind_fields env False 0 fs' vs' = None then None else r)" for fs' vs' and r :: "'z option"
    by (cases "bind_fields env False 0 fs' vs'") simp_all
  show ?thesis
    unfolding GField bind_fields.simps bind_field_def gfield.sel Let_def nested ..
qed

lemma bind_field_type:
  assumes "keeps_type (be_json env)" "keeps_type (be_xml env)" "durations_fit (be_parsers env)"
    and "has_type (gf_type f) v" "wf_type (gf_type f)" "bind_field env addr i f panics v = Some (Inr (v', ts1))"
  shows "has_type (gf_type f) v'"
proof -
  obtain g v1 where g: "getByStructField env f v = (g, v1)" by (cases "getByStructField env f v")
  then have v1: "has_type (gf_type f) v1"
    using getByStructField_type [OF assms(1,2,4,5)] by simp
  show ?thesis
    using assms(4,6) v1 bind_text_type [OF _ v1 assms(5,3)]
    by (auto simp: bind_field_def g bind_file_type bind_files_type split: if_splits got.splits gtype.splits gv.splits bool.splits
        simp del: has_type.simps)
qed

lemma bind_fields_type:
  assumes "keeps_type (be_json env)" "keeps_type (be_xml env)" "durations_fit (be_parsers env)"
  shows "bind_fields env addr i fs vs = Some (Inr (vs', ts2)) \<Longrightarrow> wf_fields fs \<Longrightarrow> have_types fs vs \<Longrightarrow>
    have_types fs vs'"
proof (induction fs arbitrary: i vs vs' ts2)
  case (Cons f fs)
  then obtain v ws where vs: "vs = v # ws" by (cases f; cases vs) auto
  obtain n x a ts t where f: "f = GField n x a ts t" by (cases f)
  from Cons.prems(1) obtain v' ts1 us ts3 where step:
    "bind_field env addr i f (\<lambda>fs' vs'. bind_fields env False 0 fs' vs' = None) v = Some (Inr (v', ts1))"
    "bind_fields env addr (Suc i) fs ws = Some (Inr (us, ts3))" "vs' = v' # us"
    unfolding vs bind_fields_step by (auto split: option.splits sum.splits prod.splits)
  have "has_type t v'"
    using bind_field_type [OF assms _ _ step(1)] Cons.prems(2,3) by (simp add: f vs)
  moreover have "have_types fs us"
    using Cons.IH [OF step(2)] Cons.prems(2,3) by (simp add: f vs)
  ultimately show ?case by (simp add: f step(3))
qed simp

lemma run_injections_type:
  assumes "\<forall>(name, g) \<in> set exts. \<forall>ts2 vs. have_types fs vs \<longrightarrow> have_types fs (fst (g ts2 vs))"
  shows "run_injections exts ts2 vs = Inr vs' \<Longrightarrow> have_types fs vs \<Longrightarrow> have_types fs vs'"
  using assms
proof (induction exts arbitrary: vs)
  case (Cons x exts)
  obtain name g where x: "x = (name, g)" by (cases x)
  obtain us e where g: "g (filter (\<lambda>t. it_ext t = name) ts2) vs = (us, e)"
    by (cases "g (filter (\<lambda>t. it_ext t = name) ts2) vs")
  have "have_types fs (fst (g (filter (\<lambda>t. it_ext t = name) ts2) vs))"
    using Cons.prems(2,3) by (simp add: x)
  then have "have_types fs us" by (simp add: g)
  then show ?case
    using Cons.prems Cons.IH by (auto simp: x g Let_def split: if_splits option.splits)
qed simp

subsection \<open>What a field is bound to\<close>

text \<open>
  A field of a text: exported, not embedded, no file, neither decoded from the body or a claim nor injected. The
  places its text can come from, in their order; an empty text counts as none, except in a form. The
  value a text denotes for a type, if any: of a number out of range, the low bits.
\<close>

definition text_field :: "gfield \<Rightarrow> bool" where
  "text_field f \<longleftrightarrow> gf_exported f \<and> \<not> gf_anon f \<and> gf_type f \<notin> {TFile, TFiles, TPtr TFiles} \<and>
     (\<forall>k \<in> {''post'', ''jwt'', ''resource''}. map_of (gf_tags f) k = None)"

definition some_text :: "string \<Rightarrow> string option" where
  "some_text s = (if s = [] then None else Some s)"

definition text_sources :: "bind_env \<Rightarrow> (string \<times> (string \<Rightarrow> string option)) list" where
  "text_sources env =
     [(''path'', some_text \<circ> be_param env), (''query'', some_text \<circ> be_query env),
      (''form'', \<lambda>q. if prefix ''application/x-www-form-urlencoded'' (content_type env) \<or>
                      prefix ''multipart/form-data'' (content_type env) then Some (be_form env q) else None),
      (''cookie'', some_text \<circ> be_cookie env), (''header'', some_text \<circ> be_header env),
      (''cli'', some_text \<circ> be_cli env)]"

definition tag_name :: "gfield \<Rightarrow> string \<Rightarrow> string" where
  "tag_name f k = (case map_of (gf_tags f) k of None \<Rightarrow> [] | Some q \<Rightarrow> if q = [] then gf_name f else q)"

definition field_text :: "bind_env \<Rightarrow> gfield \<Rightarrow> string option" where
  "field_text env f =
     (case find (\<lambda>(k, get). map_of (gf_tags f) k \<noteq> None) (text_sources env) of
        None \<Rightarrow> None | Some (k, get) \<Rightarrow> get (tag_name f k))"

fun plain_value :: "parsers \<Rightarrow> string \<Rightarrow> gtype \<Rightarrow> gv option" where
  "plain_value ps s TString = Some (VString s)"
| "plain_value ps s TBytes = Some (VBytes s)"
| "plain_value ps s TBool =
     (if s \<in> {''1'', ''t'', ''T'', ''TRUE'', ''true'', ''True''} then Some (VBool True)
      else if s \<in> {''0'', ''f'', ''F'', ''FALSE'', ''false'', ''False''} then Some (VBool False) else None)"
| "plain_value ps s (TInt n) = map_option (\<lambda>i. VInt (signed_take_bit (n - 1) i)) (atoi s)"
| "plain_value ps s (TUint n) =
     (if s = [] then None
      else case digits_val 0 s of None \<Rightarrow> None | Some i \<Rightarrow> if i < 2 ^ 64 then Some (VInt (take_bit n i)) else None)"
| "plain_value ps s (TFloat n) = map_option (\<lambda>x. VFloat (if n = 32 then ps_float32 ps x else x)) (ps_float ps s)"
| "plain_value ps s TDuration =
     map_option (\<lambda>d. VInt (case atoi s of None \<Rightarrow> d | Some i \<Rightarrow> i)) (ps_duration ps s)"
| "plain_value ps s TTime = map_option VTime (parseTimeSafe (ps_time ps) (ps_time_in ps) s)"
| "plain_value ps s _ = None"

definition text_value :: "parsers \<Rightarrow> string \<Rightarrow> gtype \<Rightarrow> gv option" where
  "text_value ps s t = (case t of TPtr b \<Rightarrow> map_option (VPtr \<circ> Some) (plain_value ps s b) | _ \<Rightarrow> plain_value ps s t)"

definition bound_value :: "bind_env \<Rightarrow> gfield \<Rightarrow> gv \<Rightarrow> gv" where
  "bound_value env f v =
     (case field_text env f of
        None \<Rightarrow> v
      | Some s \<Rightarrow> (case text_value (be_parsers env) s (gf_type f) of None \<Rightarrow> v | Some v' \<Rightarrow> v'))"

definition regex_matches :: "bind_env \<Rightarrow> gfield \<Rightarrow> bool" where
  "regex_matches env f \<longleftrightarrow>
     (\<forall>s. field_text env f = Some s \<and> map_of (gf_tags f) ''regex'' \<noteq> None \<longrightarrow>
        be_regex env (tag_name f ''regex'') s = Some True)"

lemma wrap_int_signed: "0 < n \<Longrightarrow> wrap_int n i = signed_take_bit (n - 1) i"
  by (simp add: wrap_int_def signed_take_bit_eq_take_bit_shift take_bit_eq_mod)

lemma atoi_int64: "atoi s = Some i \<Longrightarrow> in_int64 i"
  by (auto simp: atoi_def Let_def split: option.splits if_splits prod.splits)

lemma atoi_wrap64: "atoi s = Some i \<Longrightarrow> wrap_int 64 i = i"
  using atoi_int64 [of s i] by (subst wrap_int_same) (auto simp: in_int64_def in_signed_def)

lemma set_base_value: "wf_type t \<Longrightarrow> set_base ps s t = plain_value ps s t"
proof (cases t)
  case TDuration
  then show ?thesis by (auto simp: set_base_def atoi_wrap64 split: option.split)
qed (auto simp: set_base_def wrap_int_signed wrap_uint_def take_bit_eq_mod parse_uint_def parse_bool_def split: option.split)

lemma setByReflect_value: "wf_type t \<Longrightarrow> setByReflect ps s t = text_value ps s t"
  by (cases t) (auto simp: setByReflect_def text_value_def set_base_value comp_def)

lemma plan_tag_name:
  "plan_tag f k = (if map_of (gf_tags f) k = None then None else Some (tag_name f k))"
  by (cases "map_of (gf_tags f) k") (auto simp: plan_tag_def tag_name_def)

lemma nonempty_text: "nonempty s = (case some_text s of None \<Rightarrow> NotBound | Some t \<Rightarrow> Bound t)"
  by (simp add: nonempty_def some_text_def)

lemmas field_source_defs = getByStructField_def get_rest_def get_form_def nonempty_text plan_tag_name field_text_def
  text_sources_def

lemma getByStructField_text:
  assumes "text_field f"
  shows "getByStructField env f v = (case field_text env f of None \<Rightarrow> NotBound | Some s \<Rightarrow> Bound s, v)"
    (is "?here")
proof -
  let ?tag = "map_of (gf_tags f)"
  have n: "?tag ''post'' = None" "?tag ''jwt'' = None" using assms by (simp_all add: text_field_def)
  have path: ?here if "?tag ''path'' = Some q" for q
    by (simp add: field_source_defs n that)
  have query: ?here if "?tag ''path'' = None" "?tag ''query'' = Some q" for q
    by (simp add: field_source_defs n that)
  have form: ?here if "?tag ''path'' = None" "?tag ''query'' = None" "?tag ''form'' = Some q" for q
    by (simp add: field_source_defs n that)
  have cookie: ?here if "?tag ''path'' = None" "?tag ''query'' = None" "?tag ''form'' = None" "?tag ''cookie'' = Some q" for q
    by (simp add: field_source_defs n that)
  have header: ?here if "?tag ''path'' = None" "?tag ''query'' = None" "?tag ''form'' = None" "?tag ''cookie'' = None" "?tag ''header'' = Some q" for q
    by (simp add: field_source_defs n that)
  have cli: ?here if "?tag ''path'' = None" "?tag ''query'' = None" "?tag ''form'' = None" "?tag ''cookie'' = None" "?tag ''header'' = None" "?tag ''cli'' = Some q" for q
    by (simp add: field_source_defs n that)
  have no_tag: ?here if "?tag ''path'' = None" "?tag ''query'' = None" "?tag ''form'' = None" "?tag ''cookie'' = None" "?tag ''header'' = None" "?tag ''cli'' = None"
    by (simp add: field_source_defs n that)
  show ?here
    using path query form cookie header cli no_tag by (metis option.exhaust)
qed

lemma bind_field_text:
  assumes "text_field f" "wf_type (gf_type f)"
  shows "bind_field env True i f panics v =
    (if regex_matches env f then Some (Inr (bound_value env f v, []))
     else Some (Inl (if \<exists>s. field_text env f = Some s \<and> be_regex env (tag_name f ''regex'') s = None
                     then ErrRegexCompileFailed else ErrRegexMismatch)))"
proof -
  have f: "gf_exported f" "\<not> gf_anon f" "gf_type f \<noteq> TFile" "gf_type f \<noteq> TFiles" "gf_type f \<noteq> TPtr TFiles"
    "plan_tag f ''resource'' = None"
    using assms(1) by (auto simp: text_field_def plan_tag_def)
  show ?thesis
  proof (cases "field_text env f")
    case None
    then show ?thesis
      using f by (simp add: bind_field_def getByStructField_text [OF assms(1)] regex_matches_def bound_value_def)
  next
    case (Some s)
    have "bind_field env True i f panics v = bind_text env True i f s v"
      using f Some by (simp add: bind_field_def getByStructField_text [OF assms(1)])
    also have "\<dots> = (if regex_matches env f then Some (Inr (bound_value env f v, []))
        else Some (Inl (if be_regex env (tag_name f ''regex'') s = None then ErrRegexCompileFailed else ErrRegexMismatch)))"
      using f(6) Some
      by (auto simp: bind_text_def plan_tag_name regex_matches_def bound_value_def setByReflect_value [OF assms(2)] Let_def
          split: option.splits if_splits)
    finally show ?thesis by (simp add: Some)
  qed
qed

text \<open>The loop, field by field; without injected fields there are no injections.\<close>

lemma bind_fields_nth:
  "bind_fields env addr i fs vs = Some (Inr (vs', ts2)) \<Longrightarrow> length vs = length fs \<Longrightarrow>
    length vs' = length fs \<and>
    (\<forall>j < length fs. \<exists>ts1. bind_field env addr (i + j) (fs ! j) (\<lambda>fs' vs'. bind_fields env False 0 fs' vs' = None) (vs ! j) =
       Some (Inr (vs' ! j, ts1)))"
proof (induction fs arbitrary: i vs vs' ts2)
  case (Cons f fs)
  then obtain v ws where vs: "vs = v # ws" by (cases vs) auto
  from Cons.prems(1) obtain v' ts1 us ts3 where step:
    "bind_field env addr i f (\<lambda>fs' vs'. bind_fields env False 0 fs' vs' = None) v = Some (Inr (v', ts1))"
    "bind_fields env addr (Suc i) fs ws = Some (Inr (us, ts3))" "vs' = v' # us"
    unfolding vs bind_fields_step by (auto split: option.splits sum.splits prod.splits)
  have IH: "length us = length fs \<and> (\<forall>j < length fs. \<exists>ts1. bind_field env addr (Suc i + j) (fs ! j)
      (\<lambda>fs' vs'. bind_fields env False 0 fs' vs' = None) (ws ! j) = Some (Inr (us ! j, ts1)))"
    using Cons.IH [OF step(2)] Cons.prems(2) vs by simp
  show ?case
  proof (intro conjI allI impI)
    show "length vs' = length (f # fs)" using IH step(3) by simp
    fix j assume j: "j < length (f # fs)"
    show "\<exists>ts1. bind_field env addr (i + j) ((f # fs) ! j) (\<lambda>fs' vs'. bind_fields env False 0 fs' vs' = None) (vs ! j) =
        Some (Inr (vs' ! j, ts1))"
      using IH step j by (cases j) (auto simp: vs)
  qed
qed simp

lemma bind_fields_no_injection:
  "\<forall>f \<in> set fs. map_of (gf_tags f) ''resource'' = None \<Longrightarrow> bind_fields env addr i fs vs = Some (Inr (vs', ts2)) \<Longrightarrow> ts2 = []"
proof (induction fs arbitrary: i vs vs' ts2)
  case (Cons f fs)
  show ?case
  proof (cases vs)
    case Nil
    with Cons.prems(2) show ?thesis by (cases f) simp
  next
    case (Cons v ws)
    from Cons.prems(2) obtain v' ts1 us ts3 where step:
      "bind_field env addr i f (\<lambda>fs' vs'. bind_fields env False 0 fs' vs' = None) v = Some (Inr (v', ts1))"
      "bind_fields env addr (Suc i) fs ws = Some (Inr (us, ts3))" "ts2 = ts1 @ ts3"
      unfolding Cons bind_fields_step by (auto split: option.splits sum.splits prod.splits)
    have "plan_tag f ''resource'' = None" using Cons.prems(1) by (simp add: plan_tag_def)
    then have "ts1 = []"
      using step(1) by (auto simp: bind_field_def bind_text_def Let_def
          split: if_splits got.splits gtype.splits gv.splits bool.splits prod.splits option.splits)
    then show ?thesis using Cons.IH [OF _ step(2)] Cons.prems(1) step(3) by simp
  qed
qed simp

lemma run_injections_none: "run_injections exts [] vs = Inr vs"
  by (induction exts) auto

lemma bind_fields_texts:
  "\<forall>f \<in> set fs. text_field f \<Longrightarrow> wf_fields fs \<Longrightarrow> length vs = length fs \<Longrightarrow>
    (if \<forall>f \<in> set fs. regex_matches env f
     then bind_fields env True i fs vs = Some (Inr (map2 (bound_value env) fs vs, []))
     else \<exists>e \<in> {ErrRegexCompileFailed, ErrRegexMismatch}. bind_fields env True i fs vs = Some (Inl e))"
proof (induction fs arbitrary: i vs)
  case (Cons f fs)
  then obtain v ws where vs: "vs = v # ws" by (cases vs) auto
  have f: "text_field f" "wf_type (gf_type f)" "wf_fields fs" using Cons.prems by (cases f; simp)+
  have IH: "if \<forall>f \<in> set fs. regex_matches env f
     then bind_fields env True (Suc i) fs ws = Some (Inr (map2 (bound_value env) fs ws, []))
     else \<exists>e \<in> {ErrRegexCompileFailed, ErrRegexMismatch}. bind_fields env True (Suc i) fs ws = Some (Inl e)"
    using Cons.prems f(3) by (intro Cons.IH) (auto simp: vs)
  show ?case
    unfolding vs bind_fields_step bind_field_text [OF f(1,2)] using IH by (auto split: if_splits)
qed simp

lemma have_types_length: "have_types fs vs \<Longrightarrow> length vs = length fs"
proof (induction fs arbitrary: vs)
  case (Cons f fs)
  then show ?case by (cases f) (auto split: list.splits)
qed simp

lemma wf_fields_member: "wf_fields fs \<Longrightarrow> f \<in> set fs \<Longrightarrow> wf_type (gf_type f)"
proof (induction fs)
  case (Cons g fs)
  then show ?case by (cases g) auto
qed simp

text \<open>C6. What a request is bound to is a value of the input's type, with every integer in the range of its
  width. Without injected fields, every text field (exported, no file, not embedded, not decoded from body or claim) holds
  what its source gives: the source is the first of path, query, form, cookie, header and cli the field has a tag for;
  without a text the field keeps its value, and so it does when the text denotes no value of its type; otherwise it
  holds that value, an integer out of range cut to its low bits. Every text that was bound matches the field's
  regular expression, and the validator accepted the result. When all fields are text fields, binding never panics and
  succeeds exactly when all the expressions match and the validator accepts. All this is given decoders and extensions
  that write values of the type they are given, and durations that fit 64 bits.\<close>

theorem getAll_binds_input:
  assumes "wf_type (TStruct fs)" "has_type (TStruct fs) (VStruct vs)" "env_ok env fs"
  shows "(\<forall>params. getAll env (TStruct fs) (VStruct vs) = Some (Inr params) \<longrightarrow>
      has_type (TStruct fs) params \<and>
      ((\<forall>f \<in> set fs. map_of (gf_tags f) ''resource'' = None) \<longrightarrow>
        (\<exists>ws. params = VStruct ws \<and> length ws = length fs \<and> (\<forall>valid. be_valid env = Some valid \<longrightarrow> valid ws) \<and>
          (\<forall>j < length fs. text_field (fs ! j) \<longrightarrow>
            regex_matches env (fs ! j) \<and> ws ! j = bound_value env (fs ! j) (vs ! j))))) \<and>
    ((\<forall>f \<in> set fs. text_field f) \<longrightarrow>
      getAll env (TStruct fs) (VStruct vs) \<noteq> None \<and>
      ((\<exists>params. getAll env (TStruct fs) (VStruct vs) = Some (Inr params)) \<longleftrightarrow>
        (\<forall>f \<in> set fs. regex_matches env f) \<and>
        (\<forall>valid. be_valid env = Some valid \<longrightarrow> valid (map2 (bound_value env) fs vs))))"
proof (intro conjI allI impI)
  have vs: "have_types fs vs" "length vs = length fs" using assms(2) have_types_length by auto
  fix params assume g: "getAll env (TStruct fs) (VStruct vs) = Some (Inr params)"
  then obtain us ts2 ws where r: "bind_fields env True 0 fs vs = Some (Inr (us, ts2))"
    "run_injections (be_exts env) ts2 us = Inr ws" "params = VStruct ws"
    "\<forall>valid. be_valid env = Some valid \<longrightarrow> valid us"
    by (auto simp: getAll_def Inr_map_sum split: option.splits sum.splits prod.splits if_splits)
  have "have_types fs us"
    using bind_fields_type [OF _ _ _ r(1)] assms(1,3) vs(1) by (simp add: env_ok_def)
  then show "has_type (TStruct fs) params"
    using run_injections_type [OF _ r(2)] assms(3) r(3) by (simp add: env_ok_def)
  assume "\<forall>f \<in> set fs. map_of (gf_tags f) ''resource'' = None"
  from bind_fields_no_injection [OF this r(1)] r(2) have ws: "ws = us" by (simp add: run_injections_none)
  note nth = bind_fields_nth [OF r(1) vs(2)]
  have "regex_matches env (fs ! j) \<and> us ! j = bound_value env (fs ! j) (vs ! j)"
    if j: "j < length fs" "text_field (fs ! j)" for j
  proof -
    have "wf_type (gf_type (fs ! j))" using assms(1) j(1) wf_fields_member [of fs] by simp
    moreover from nth j(1) obtain ts1 where "bind_field env True (0 + j) (fs ! j)
        (\<lambda>fs' vs'. bind_fields env False 0 fs' vs' = None) (vs ! j) = Some (Inr (us ! j, ts1))" by blast
    ultimately show ?thesis by (simp add: bind_field_text [OF j(2)] split: if_splits)
  qed
  with r(3,4) ws nth show "\<exists>ws. params = VStruct ws \<and> length ws = length fs \<and>
      (\<forall>valid. be_valid env = Some valid \<longrightarrow> valid ws) \<and>
      (\<forall>j < length fs. text_field (fs ! j) \<longrightarrow> regex_matches env (fs ! j) \<and> ws ! j = bound_value env (fs ! j) (vs ! j))"
    by blast
next
  have vs: "length vs = length fs" using assms(2) have_types_length by auto
  assume tf: "\<forall>f \<in> set fs. text_field f"
  from bind_fields_texts [OF tf _ vs, of env 0] assms(1)
  have b: "if \<forall>f \<in> set fs. regex_matches env f
     then bind_fields env True 0 fs vs = Some (Inr (map2 (bound_value env) fs vs, []))
     else \<exists>e \<in> {ErrRegexCompileFailed, ErrRegexMismatch}. bind_fields env True 0 fs vs = Some (Inl e)" by simp
  then show "getAll env (TStruct fs) (VStruct vs) \<noteq> None"
    by (auto simp: getAll_def split: if_splits option.splits)
  from b show "(\<exists>params. getAll env (TStruct fs) (VStruct vs) = Some (Inr params)) \<longleftrightarrow>
        (\<forall>f \<in> set fs. regex_matches env f) \<and>
        (\<forall>valid. be_valid env = Some valid \<longrightarrow> valid (map2 (bound_value env) fs vs))"
    by (auto simp: getAll_def run_injections_none split: if_splits option.splits)
qed

definition text_parsers :: parsers where
  "text_parsers = \<lparr>ps_time = (\<lambda>_ _. None), ps_time_in = (\<lambda>_ _. None), ps_duration = (\<lambda>_. None),
     ps_float = (\<lambda>_. None), ps_float32 = id\<rparr>"

definition text_env_of :: "(string \<Rightarrow> string) \<Rightarrow> (string \<Rightarrow> string) \<Rightarrow> string \<Rightarrow> bind_env" where
  "text_env_of query form ctype = \<lparr>be_param = (\<lambda>_. []), be_query = query, be_form = form, be_cookie = (\<lambda>_. []),
     be_header = (\<lambda>_. ctype), be_cli = (\<lambda>_. []), be_body = [], be_json = (\<lambda>_ _ v. (v, None)),
     be_xml = (\<lambda>_ _ v. (v, None)), be_jwt = None, be_file = (\<lambda>_. None), be_files = (\<lambda>_. []),
     be_regex = (\<lambda>_ _. Some True), be_parsers = text_parsers, be_valid = None, be_exts = []\<rparr>"

theorem getAll_binds_input_witness:
  "\<exists>ws. getAll (text_env_of (\<lambda>_. ''200'') (\<lambda>_. []) []) (TStruct [GField ''N'' True False [(''query'', ''n'')] (TInt 8)])
      (VStruct [VInt 0]) = Some (Inr (VStruct ws)) \<and> ws = [VInt (- 56)] \<and> in_signed 8 (- 56)"
proof -
  let ?f = "GField ''N'' True False [(''query'', ''n'')] (TInt 8)" and ?e = "text_env_of (\<lambda>_. ''200'') (\<lambda>_. []) []"
  have pre: "wf_type (TStruct [?f])" "has_type (TStruct [?f]) (VStruct [VInt 0])" "env_ok ?e [?f]"
    by (simp_all add: in_signed_def env_ok_def keeps_type_def durations_fit_def text_env_of_def text_parsers_def)
  have f: "text_field ?f" "regex_matches ?e ?f" by (simp_all add: text_field_def regex_matches_def)
  have "atoi ''200'' = Some 200" by code_simp
  then have b: "bound_value ?e ?f (VInt 0) = VInt (- 56)"
    by (simp add: bound_value_def field_text_def text_sources_def some_text_def text_value_def text_env_of_def)
  have valid: "be_valid ?e = None" by (simp add: text_env_of_def)
  note t = getAll_binds_input [OF pre]
  from t [THEN conjunct2] f valid obtain params where g: "getAll ?e (TStruct [?f]) (VStruct [VInt 0]) = Some (Inr params)"
    by auto
  from t [THEN conjunct1, rule_format, OF g] f b obtain ws where "params = VStruct ws" "ws = [VInt (- 56)]" "in_signed 8 (- 56)"
    by (auto simp: length_Suc_conv)
  with g show ?thesis by simp
qed

text \<open>An integer field bound to a query value takes the number the text denotes cut down to the width of the
  field: the result is in range always, and the number itself exactly when that fits - a text out of
  range is not refused but wraps around. A text that is no 64-bit number leaves the default, silently.\<close>

theorem bound_integer_wraps:
  assumes "0 < n" "q \<noteq> []" "be_query env q \<noteq> []"
  shows "bind_fields env True i [GField name True False [(''query'', q)] (TInt n)] [d] =
      Some (Inr ([case atoi (be_query env q) of Some v \<Rightarrow> VInt (wrap_int n v) | None \<Rightarrow> d], [])) \<and>
    in_signed n (wrap_int n v) \<and> (wrap_int n v = v \<longleftrightarrow> in_signed n v) \<and> (wrap_int n v - v) mod 2 ^ n = 0"
proof (intro conjI)
  show "bind_fields env True i [GField name True False [(''query'', q)] (TInt n)] [d] =
      Some (Inr ([case atoi (be_query env q) of Some v \<Rightarrow> VInt (wrap_int n v) | None \<Rightarrow> d], []))"
    using assms by (simp add: getByStructField_def plan_tag_def nonempty_def bind_text_def setByReflect_def set_base_def
        Let_def split: option.splits)
  have "(wrap_int n v - v) mod 2 ^ n = ((v + 2 ^ (n - 1)) mod 2 ^ n - (v + 2 ^ (n - 1))) mod 2 ^ n"
    by (simp add: wrap_int_def algebra_simps)
  also have "\<dots> = 0" by (simp add: mod_diff_left_eq)
  finally show "(wrap_int n v - v) mod 2 ^ n = 0" .
qed (use assms in \<open>simp_all add: wrap_int_range wrap_int_same\<close>)

theorem bound_integer_wraps_witness:
  "bind_fields (text_env_of (\<lambda>_. ''4294967297'') (\<lambda>_. []) []) True 0 [GField ''N'' True False [(''query'', ''n'')] (TInt 32)] [VInt 0] =
     Some (Inr ([VInt 1], []))"
proof -
  have "atoi ''4294967297'' = Some 4294967297" by code_simp
  then show ?thesis
    using bound_integer_wraps [of 32 "''n''" "text_env_of (\<lambda>_. ''4294967297'') (\<lambda>_. []) []" 0 "''N''" "VInt 0"]
    by (simp add: text_env_of_def wrap_int_def)
qed

lemma bind_field_cons:
  "bind_field env addr i f (\<lambda>fs' vs'. bind_fields env False 0 fs' vs' = None) v = Some (Inr (v, [])) \<Longrightarrow>
   bind_fields env addr i (f # fs) (v # vs) =
     map_option (map_sum id (apfst ((#) v))) (bind_fields env addr (Suc i) fs vs)"
  unfolding bind_fields_step by (simp split: option.splits sum.splits prod.splits)

text \<open>An embedded struct without tags of its own, the usual way to share inputs, is never bound: \<open>getAll\<close>
  goes on with the next field before it looks inside, although the plan of the embedded struct
  was built for it. Whatever tags the embedded fields have and whatever the request holds, they keep
  the values they had.\<close>

theorem embedded_struct_unbound:
  assumes "\<forall>k \<in> set [''path'', ''query'', ''form'', ''post'', ''jwt'', ''cookie'', ''header'', ''cli'']. map_of tags k = None"
  shows "has_child (GField name x True tags (TStruct inner)) \<and>
    bind_fields env True i (GField name x True tags (TStruct inner) # fs) (v # vs) =
      map_option (map_sum id (apfst ((#) v))) (bind_fields env True (Suc i) fs vs)"
proof -
  have "getByStructField env (GField name x True tags (TStruct inner)) v = (NotBound, v)"
    using assms by (simp add: getByStructField_def plan_tag_def get_rest_def)
  then have "bind_field env True i (GField name x True tags (TStruct inner))
      (\<lambda>fs' vs'. bind_fields env False 0 fs' vs' = None) v = Some (Inr (v, []))"
    using assms by (simp add: bind_field_def reads_in_place_def plan_tag_def)
  from bind_field_cons [OF this] show ?thesis by (simp add: has_child_def del: bind_fields.simps)
qed

theorem embedded_struct_unbound_witness:
  "bind_fields (text_env_of (\<lambda>_. ''7'') (\<lambda>_. []) []) True 0
     [GField ''Paging'' True True [] (TStruct [GField ''Page'' True False [(''query'', ''page'')] (TInt 64)])]
     [VStruct [VInt 0]] = Some (Inr ([VStruct [VInt 0]], []))"
  using embedded_struct_unbound [of "[]" "''Paging''" True "[GField ''Page'' True False [(''query'', ''page'')] (TInt 64)]"
      "text_env_of (\<lambda>_. ''7'') (\<lambda>_. []) []" 0 "[]" "VStruct [VInt 0]" "[]"] by simp

text \<open>A string default is what an absent query value leaves, but a form that does not mention the field
  replaces it by the empty string; and a default on a \<open>time.Time\<close> field is never applied, whether it
  parses or not.\<close>

theorem defaults_and_absence:
  assumes "d \<noteq> ''-''" "q \<noteq> []" "be_query env q = []" "be_form env q = []"
    and "prefix ''application/x-www-form-urlencoded'' (content_type env)"
  shows "let field = (\<lambda>src t. GField name True False [(src, q), (''default'', d)] t);
             start = (\<lambda>t. zero_of (TStruct [field ''query'' t])) in
    setDefault ps (TStruct [field ''query'' TString]) (start TString) = Inr (VStruct [VString d]) \<and>
    bind_fields env True i [field ''query'' TString] [VString d] = Some (Inr ([VString d], [])) \<and>
    bind_fields env True i [field ''form'' TString] [VString d] = Some (Inr ([VString []], [])) \<and>
    setDefault ps (TStruct [field ''query'' TTime]) (start TTime) = Inr (VStruct [VTime zeroTime])"
  using assms
  by (simp add: setDefault_def setByReflect_def set_base_def getByStructField_def plan_tag_def nonempty_def get_form_def
      bind_text_def Let_def)

theorem defaults_and_absence_witness:
  "setDefault text_parsers (TStruct [GField ''At'' True False [(''query'', ''at''), (''default'', ''2024-01-01T00:00:00Z'')] TTime])
     (VStruct [VTime zeroTime]) = Inr (VStruct [VTime zeroTime])"
proof -
  have "prefix ''application/x-www-form-urlencoded''
      (content_type (text_env_of (\<lambda>_. []) (\<lambda>_. []) ''application/x-www-form-urlencoded''))"
    by (simp add: content_type_def text_env_of_def) code_simp
  then show ?thesis
    using defaults_and_absence [of "''2024-01-01T00:00:00Z''" "''at''"
        "text_env_of (\<lambda>_. []) (\<lambda>_. []) ''application/x-www-form-urlencoded''" "''At''" text_parsers 0]
    by (simp add: text_env_of_def Let_def)
qed

end
