(* ===== verification/Config_Merge.thy ===== *)
theory Config_Merge
  imports Prelude
begin

section \<open>Merging configuration values\<close>

text \<open>
  \<open>merge.go\<close>: \<open>mergeStruct\<close> lays the non-zero values of one struct over another. A value seen through reflection is
  a \<open>cval\<close>: a struct with its fields (name, settable, value), a pointer (with the zero value of its element
  type, which a nil pointer is given when it is dereferenced for writing) or anything else, of which only matters whether it
  is the zero value. Values are trees: sharing between the two structs is not represented, and \<open>mergeStruct\<close>
  never writes through a pointer it has just copied. A panic of reflection is \<open>None\<close>.
\<close>

datatype cval =
    CVal "string option"
  | CPtr cval "cval option"
  | CStruct "cfield list"
and cfield = CField (cf_name: string) (cf_settable: bool) (cf_value: cval)

fun czero :: "cval \<Rightarrow> cval" and czero_fields :: "cfield list \<Rightarrow> cfield list" where
  "czero (CVal _) = CVal None"
| "czero (CPtr z _) = CPtr z None"
| "czero (CStruct fs) = CStruct (czero_fields fs)"
| "czero_fields [] = []"
| "czero_fields (CField n s v # fs) = CField n s (czero v) # czero_fields fs"

text \<open>A pointer points to a value of its element type.\<close>

fun wf_cval :: "cval \<Rightarrow> bool" and wf_cfields :: "cfield list \<Rightarrow> bool" where
  "wf_cval (CVal _) = True"
| "wf_cval (CPtr z p) = (case p of None \<Rightarrow> True | Some v \<Rightarrow> czero v = z \<and> wf_cval v)"
| "wf_cval (CStruct fs) = wf_cfields fs"
| "wf_cfields [] = True"
| "wf_cfields (CField n s v # fs) = (wf_cval v \<and> wf_cfields fs)"

subsection \<open>The merge\<close>

text \<open>
  \<open>mergeValue\<close>: a struct field by field; a pointer is copied over nil, two pointers to structs are
  merged, any other pointer stays; everything else is overwritten unless the source is zero.
\<close>

fun merge_field :: "cval \<Rightarrow> cval \<Rightarrow> cval option" and mergeValue :: "cfield list \<Rightarrow> cfield list \<Rightarrow> cfield list option" where
  "merge_field (CStruct ds) src =
     (case src of CStruct ss \<Rightarrow> map_option CStruct (mergeValue ds ss) | _ \<Rightarrow> None)"
| "merge_field (CPtr z d) src =
     (case src of
        CPtr z' s \<Rightarrow>
          (case s of
             None \<Rightarrow> Some (CPtr z d)
           | Some sv \<Rightarrow>
               (case d of
                  None \<Rightarrow> Some (CPtr z (Some sv))
                | Some (CStruct ds) \<Rightarrow>
                    (case sv of
                       CStruct ss \<Rightarrow> map_option (\<lambda>r. CPtr z (Some (CStruct r))) (mergeValue ds ss)
                     | _ \<Rightarrow> None)
                | Some dv \<Rightarrow> Some (CPtr z (Some dv))))
      | _ \<Rightarrow> None)"
| "merge_field (CVal d) src =
     (case src of CVal s \<Rightarrow> Some (CVal (if s = None then d else s)) | _ \<Rightarrow> None)"
| "mergeValue [] ss = Some []"
| "mergeValue (d # ds) [] = None"
| "mergeValue (CField n settable d # ds) (s # ss) =
     (case (if settable then merge_field d (cf_value s) else Some d) of
        None \<Rightarrow> None
      | Some r \<Rightarrow> map_option ((#) (CField n settable r)) (mergeValue ds ss))"

text \<open>
  \<open>indirect\<close> follows pointers; a nil pointer that is settable is given a new zero value, one that is not
  makes \<open>Set\<close> panic. \<open>put_back\<close> is the pointer after a write to what \<open>indirect\<close> returned.
\<close>

fun indirect :: "bool \<Rightarrow> cval \<Rightarrow> cval option" where
  "indirect settable (CPtr z None) = (if settable then indirect True z else None)"
| "indirect settable (CPtr z (Some v)) = indirect True v"
| "indirect settable v = Some v"

fun put_back :: "cval \<Rightarrow> cval \<Rightarrow> cval" where
  "put_back (CPtr z None) r = CPtr z (Some (put_back z r))"
| "put_back (CPtr z (Some v)) r = CPtr z (Some (put_back v r))"
| "put_back _ r = r"

text \<open>\<open>src\<close> is \<open>None\<close> for a nil interface; the result is the pointer \<open>dst\<close> after the call.\<close>

definition mergeStruct :: "cval \<Rightarrow> cval option \<Rightarrow> (string + cval) option" where
  "mergeStruct dst src =
     (case src of
        None \<Rightarrow> Some (Inr dst)
      | Some (CPtr z None) \<Rightarrow> Some (Inr dst)
      | Some s \<Rightarrow>
          (case dst of
             CPtr _ _ \<Rightarrow>
               (case (indirect False dst, indirect False s) of
                  (Some d', Some s') \<Rightarrow>
                    (case (d', s') of
                       (CStruct ds, CStruct ss) \<Rightarrow>
                         map_option (\<lambda>r. Inr (put_back dst (CStruct r))) (mergeValue ds ss)
                     | _ \<Rightarrow> Some (Inl ''both dst and src must be or point to struct''))
                | _ \<Rightarrow> None)
           | _ \<Rightarrow> Some (Inl ''dst must be a pointer'')))"

text \<open>\<open>mergeSingle\<close>: the last argument that is not zero.\<close>

definition mergeSingle :: "'a \<Rightarrow> 'a list \<Rightarrow> 'a" where
  "mergeSingle zero args = (case find (\<lambda>x. x \<noteq> zero) (rev args) of Some x \<Rightarrow> x | None \<Rightarrow> zero)"

subsection \<open>Layers\<close>

text \<open>
  What the start-up relies on: settings are laid over each other one after the other, and it does not matter
  whether two neighbouring layers were merged before. \<open>kind\<close> tells which values can be merged with
  each other, \<open>blank\<close> is the layer that says nothing.
\<close>

locale layering =
  fixes merge :: "'a \<Rightarrow> 'a \<Rightarrow> 'a option" and ok :: "'a \<Rightarrow> bool" and kind :: "'a \<Rightarrow> 'k" and blank :: "'a \<Rightarrow> 'a"
  assumes merge_ok: "\<lbrakk>ok a; ok b; kind a = kind b\<rbrakk> \<Longrightarrow> \<exists>c. merge a b = Some c \<and> ok c \<and> kind c = kind a"
    and merge_assoc: "\<lbrakk>ok a; ok b; ok c; kind a = kind b; kind b = kind c\<rbrakk> \<Longrightarrow>
      Option.bind (merge a b) (\<lambda>x. merge x c) = Option.bind (merge b c) (merge a)"
    and merge_idem: "ok a \<Longrightarrow> merge a a = Some a"
    and merge_blank: "ok a \<Longrightarrow> merge a (blank a) = Some a"
begin

fun layers :: "'a \<Rightarrow> 'a list \<Rightarrow> 'a option" where
  "layers a [] = Some a"
| "layers a (b # bs) = Option.bind (merge a b) (\<lambda>c. layers c bs)"

lemma layers_append: "layers a (xs @ ys) = Option.bind (layers a xs) (\<lambda>b. layers b ys)"
  by (induction xs arbitrary: a) (auto split: Option.bind_split)

lemma layers_total:
  "\<lbrakk>ok a; \<forall>b \<in> set bs. ok b \<and> kind b = kind a\<rbrakk> \<Longrightarrow> \<exists>c. layers a bs = Some c \<and> ok c \<and> kind c = kind a"
proof (induction bs arbitrary: a)
  case (Cons b bs)
  then obtain c where "merge a b = Some c" "ok c" "kind c = kind a" using merge_ok [of a b] by auto
  moreover have "\<exists>d. layers c bs = Some d \<and> ok d \<and> kind d = kind c"
    using Cons.prems \<open>ok c\<close> \<open>kind c = kind a\<close> by (intro Cons.IH) auto
  ultimately show ?case by simp
qed simp

text \<open>Layers may be merged beforehand.\<close>

lemma layers_merged:
  "\<lbrakk>ok a; ok b; kind b = kind a; \<forall>c \<in> set cs. ok c \<and> kind c = kind a\<rbrakk> \<Longrightarrow>
    layers a (b # cs) = Option.bind (layers b cs) (merge a)"
proof (induction cs arbitrary: b)
  case (Cons c cs)
  obtain x where x: "merge a b = Some x" "ok x" "kind x = kind a" using Cons.prems merge_ok [of a b] by auto
  obtain y where y: "merge b c = Some y" "ok y" "kind y = kind a" using Cons.prems merge_ok [of b c] by auto
  have "layers a (b # c # cs) = Option.bind (merge x c) (\<lambda>d. layers d cs)" by (simp add: x)
  also have "\<dots> = layers a (y # cs)"
    using merge_assoc [of a b c] Cons.prems by (simp add: x y)
  also have "\<dots> = Option.bind (layers y cs) (merge a)" using Cons.IH [of y] Cons.prems y by simp
  finally show ?case by (simp add: y)
qed simp

lemma layer_twice: "\<lbrakk>ok a; ok b; kind a = kind b; merge a b = Some c\<rbrakk> \<Longrightarrow> merge c b = Some c"
  using merge_assoc [of a b b] merge_idem [of b] by simp

end

subsection \<open>The merge of structs is a layering\<close>

lemma czero_idem [simp]: "czero (czero v) = czero v" "czero_fields (czero_fields fs) = czero_fields fs"
  by (induction v and fs rule: czero_czero_fields.induct) simp_all

lemma wf_czero [simp]: "wf_cval (czero v)" "wf_cfields (czero_fields fs)"
  by (induction v and fs rule: czero_czero_fields.induct) simp_all

lemma czero_shapes:
  "czero v = CVal x \<longleftrightarrow> x = None \<and> (\<exists>y. v = CVal y)"
  "czero v = CPtr z p \<longleftrightarrow> p = None \<and> (\<exists>q. v = CPtr z q)"
  "czero v = CStruct gs \<longleftrightarrow> (\<exists>fs. v = CStruct fs \<and> gs = czero_fields fs)"
  by (cases v; auto)+

lemma czero_fields_Nil [simp]: "czero_fields fs = [] \<longleftrightarrow> fs = []" "[] = czero_fields fs \<longleftrightarrow> fs = []"
  by (cases fs rule: czero_fields.cases; simp)+

lemma czero_fields_Cons:
  "czero_fields fs = g # gs \<longleftrightarrow> (\<exists>n s v fs'. fs = CField n s v # fs' \<and> g = CField n s (czero v) \<and> gs = czero_fields fs')"
  by (cases fs rule: czero_fields.cases) auto

lemma merge_total:
  "\<lbrakk>wf_cval a; wf_cval b; czero a = czero b\<rbrakk> \<Longrightarrow> \<exists>c. merge_field a b = Some c \<and> wf_cval c \<and> czero c = czero a"
  "\<lbrakk>wf_cfields fs; wf_cfields gs; czero_fields fs = czero_fields gs\<rbrakk> \<Longrightarrow>
     \<exists>hs. mergeValue fs gs = Some hs \<and> wf_cfields hs \<and> czero_fields hs = czero_fields fs"
proof (induction a b and fs gs rule: merge_field_mergeValue.induct)
  case (1 ds src)
  then show ?case by (cases src) auto
next
  case (2 z d src)
  then obtain s where src: "src = CPtr z s" by (cases src) auto
  show ?case
  proof (cases s)
    case None
    with 2 src show ?thesis by simp
  next
    case (Some sv)
    show ?thesis
    proof (cases "\<exists>ds. d = Some (CStruct ds)")
      case True
      then obtain ds where d: "d = Some (CStruct ds)" by blast
      with 2 src Some obtain ss where sv: "sv = CStruct ss" "czero_fields ds = czero_fields ss" "wf_cfields ds" "wf_cfields ss"
        by (cases sv) auto
      then obtain hs where "mergeValue ds ss = Some hs" "wf_cfields hs" "czero_fields hs = czero_fields ds"
        using 2(1) [OF src Some d] by blast
      with sv 2(2) show ?thesis by (simp add: src Some d)
    next
      case False
      with 2(2-4) src Some show ?thesis by (cases d) (auto split: cval.splits)
    qed
  qed
next
  case (3 d src)
  then show ?case by (cases src) auto
next
  case (6 n settable d ds s ss)
  then show ?case by (cases s) (auto split: if_splits)
qed auto

lemma czero_eq_shapes:
  "czero v = czero (CVal x) \<longleftrightarrow> (\<exists>y. v = CVal y)"
  "czero v = czero (CPtr z p) \<longleftrightarrow> (\<exists>q. v = CPtr z q)"
  "czero v = czero (CStruct fs) \<longleftrightarrow> (\<exists>gs. v = CStruct gs \<and> czero_fields gs = czero_fields fs)"
  by (cases v; auto)+

lemma merge_associative:
  "\<lbrakk>wf_cval a; wf_cval b; wf_cval c; czero b = czero a; czero c = czero a\<rbrakk> \<Longrightarrow>
    Option.bind (merge_field a b) (\<lambda>x. merge_field x c) = Option.bind (merge_field b c) (merge_field a)"
  "\<lbrakk>wf_cfields fs; wf_cfields gs; wf_cfields hs; czero_fields gs = czero_fields fs; czero_fields hs = czero_fields fs\<rbrakk> \<Longrightarrow>
    Option.bind (mergeValue fs gs) (\<lambda>x. mergeValue x hs) = Option.bind (mergeValue gs hs) (mergeValue fs)"
proof (induction a b and fs gs arbitrary: c and hs rule: merge_field_mergeValue.induct)
  case (1 ds src)
  from 1(5,6) obtain ss cs where c: "src = CStruct ss" "c = CStruct cs" "czero_fields ss = czero_fields ds"
    "czero_fields cs = czero_fields ds"
    unfolding czero_eq_shapes by blast
  have "Option.bind (mergeValue ds ss) (\<lambda>x. mergeValue x cs) = Option.bind (mergeValue ss cs) (mergeValue ds)"
    using 1 c by simp
  then show ?case by (cases "mergeValue ds ss"; cases "mergeValue ss cs") (auto simp: c)
next
  case (2 z d src)
  from 2(5,6) obtain s t where c: "src = CPtr z s" "c = CPtr z t"
    unfolding czero_eq_shapes by blast
  obtain ab where ab: "merge_field (CPtr z d) src = Some (CPtr z ab)"
    using merge_total(1) [OF 2(2,3)] 2(5) by (auto simp: czero_shapes)
  obtain bc where bc: "merge_field src c = Some (CPtr z bc)"
    using merge_total(1) [OF 2(3,4)] 2(5,6) c(1) by (auto simp: czero_shapes)
  show ?case
  proof (cases "\<exists>sv tv ds. s = Some sv \<and> t = Some tv \<and> d = Some (CStruct ds)")
    case True
    then obtain sv tv ds where v: "s = Some sv" "t = Some tv" "d = Some (CStruct ds)" by blast
    with 2(2-4) c have z: "z = czero (CStruct ds)" "czero sv = z" "czero tv = z" by auto
    then obtain ss cs where w: "sv = CStruct ss" "tv = CStruct cs" "czero_fields ss = czero_fields ds"
      "czero_fields cs = czero_fields ds"
      by (cases sv; cases tv) auto
    have "Option.bind (mergeValue ds ss) (\<lambda>x. mergeValue x cs) = Option.bind (mergeValue ss cs) (mergeValue ds)"
      using 2(1) [OF c(1) v(1,3) refl w(1)] 2(2-4) w v c by simp
    then show ?thesis by (cases "mergeValue ds ss"; cases "mergeValue ss cs") (auto simp: c v w)
  next
    case False
    then show ?thesis
      using ab bc by (cases s; cases t; cases d) (auto simp: c split: cval.splits)
  qed
next
  case (3 d src)
  then obtain s t where "src = CVal s" "c = CVal t" by (cases src; cases c) auto
  then show ?case by auto
next
  case (6 n settable d ds s ss)
  obtain sv where s: "s = CField n settable sv" using 6(6) by (cases s) auto
  obtain tv cs where hs: "hs = CField n settable tv # cs" using 6(7) by (auto simp: czero_fields_Cons)
  have k: "czero sv = czero d" "czero tv = czero d" "wf_cval d" "wf_cval sv" "wf_cval tv" using 6(3-7) by (auto simp: s hs)
  have "\<exists>r. (if settable then merge_field d (cf_value s) else Some d) = Some r"
    using merge_total(1) [of d sv] k by (auto simp: s)
  then have rest: "Option.bind (mergeValue ds ss) (\<lambda>x. mergeValue x cs) = Option.bind (mergeValue ss cs) (mergeValue ds)"
    using 6(2) [where hs = cs] 6(3-7) by (auto simp: s hs)
  show ?case
  proof (cases settable)
    case True
    have "Option.bind (merge_field d sv) (\<lambda>x. merge_field x tv) = Option.bind (merge_field sv tv) (merge_field d)"
      using 6(1) [where c = tv] True k by (simp add: s)
    with rest show ?thesis
      by (cases "merge_field d sv"; cases "merge_field sv tv"; cases "mergeValue ds ss"; cases "mergeValue ss cs")
        (auto simp: s hs True split: option.splits)
  next
    case False
    with rest show ?thesis
      by (cases "mergeValue ds ss"; cases "mergeValue ss cs") (auto simp: s hs)
  qed
qed auto

lemma merge_same: "wf_cval a \<Longrightarrow> merge_field a a = Some a" "wf_cfields fs \<Longrightarrow> mergeValue fs fs = Some fs"
proof (induction a and fs rule: wf_cval_wf_cfields.induct)
  case (2 z p)
  then show ?case by (cases p) (auto split: cval.splits)
qed auto

lemma merge_zero: "wf_cval a \<Longrightarrow> merge_field a (czero a) = Some a"
  "wf_cfields fs \<Longrightarrow> mergeValue fs (czero_fields fs) = Some fs"
  by (induction a and fs rule: czero_czero_fields.induct) auto

interpretation cfg: layering merge_field wf_cval czero czero
proof unfold_locales
  fix a b
  assume "wf_cval a" "wf_cval b" "czero a = czero b"
  then show "\<exists>c. merge_field a b = Some c \<and> wf_cval c \<and> czero c = czero a" by (rule merge_total)
qed (simp_all add: merge_associative merge_same merge_zero)

definition last_set :: "'a \<Rightarrow> 'a \<Rightarrow> 'a \<Rightarrow> 'a" where
  "last_set zero a b = (if b = zero then a else b)"

interpretation single: layering "\<lambda>a b. Some (last_set zero a b)" "\<lambda>_. True" "\<lambda>_. ()" "\<lambda>_. zero" for zero :: 'a
  by unfold_locales (auto simp: last_set_def)

lemma mergeSingle_snoc: "mergeSingle zero (xs @ [x]) = last_set zero (mergeSingle zero xs) x"
  by (simp add: mergeSingle_def last_set_def)

lemma mergeSingle_layers: "single.layers zero zero xs = Some (mergeSingle zero xs)"
proof (induction xs rule: rev_induct)
  case (snoc x xs)
  then show ?case by (simp add: single.layers_append mergeSingle_snoc)
qed (simp add: mergeSingle_def)

subsection \<open>What a merged configuration says\<close>

text \<open>
  What a configuration says at a path of field numbers, through structs and pointers to structs: a plain setting
  (\<open>None\<close> when it is zero), a pointer to something else, a field that reflection may not set, or nothing
  because a pointer to a struct on the way is nil. No reading: there is no such path.
\<close>

datatype reading = Plain "string option" | Pointer "cval option" | Fixed cval | Absent

fun reads :: "cval \<Rightarrow> nat list \<Rightarrow> reading option" and reads_field :: "cfield list \<Rightarrow> nat \<Rightarrow> nat list \<Rightarrow> reading option" where
  "reads (CVal x) p = (if p = [] then Some (Plain x) else None)"
| "reads (CStruct fs) [] = None"
| "reads (CStruct fs) (i # p) = reads_field fs i p"
| "reads (CPtr (CStruct zs) None) p = Some Absent"
| "reads (CPtr (CStruct zs) (Some v)) p = reads v p"
| "reads (CPtr z t) p = (if p = [] then Some (Pointer t) else None)"
| "reads_field [] i p = None"
| "reads_field (CField n settable v # fs) 0 p =
     (if settable then reads v p else if p = [] then Some (Fixed v) else None)"
| "reads_field (CField n settable v # fs) (Suc i) p = reads_field fs i p"

text \<open>The later layer decides where it says something; a pointer to no struct and a fixed field are the earlier layer's.\<close>

fun override :: "reading \<Rightarrow> reading \<Rightarrow> reading" where
  "override (Plain x) (Plain y) = Plain (case y of None \<Rightarrow> x | Some v \<Rightarrow> Some v)"
| "override (Pointer x) (Pointer y) = Pointer (case x of None \<Rightarrow> y | Some v \<Rightarrow> Some v)"
| "override (Fixed v) _ = Fixed v"
| "override Absent b = b"
| "override a _ = a"

definition overridden :: "reading option \<Rightarrow> reading option \<Rightarrow> reading option" where
  "overridden a b = (case a of None \<Rightarrow> None | Some x \<Rightarrow> map_option (override x) b)"

lemma czero_struct: "czero v = czero (CStruct fs) \<longleftrightarrow> (\<exists>gs. v = CStruct gs \<and> czero_fields gs = czero_fields fs)"
  by (rule czero_eq_shapes)

lemma reads_plain_ptr: "\<forall>zs. z \<noteq> CStruct zs \<Longrightarrow> reads (CPtr z t) p = (if p = [] then Some (Pointer t) else None)"
  by (cases z) auto

lemma override_absent [simp]: "override a Absent = a"
  by (cases a) simp_all

lemma overridden_absent: "overridden (Some Absent) b = b" "overridden a (Some Absent) = a"
  by (cases b; simp add: overridden_def) (cases a; simp add: overridden_def)

lemma merge_reads:
  "\<lbrakk>wf_cval a; wf_cval b; czero a = czero b; merge_field a b = Some c\<rbrakk> \<Longrightarrow> reads c p = overridden (reads a p) (reads b p)"
  "\<lbrakk>wf_cfields fs; wf_cfields gs; czero_fields fs = czero_fields gs; mergeValue fs gs = Some hs\<rbrakk> \<Longrightarrow>
     reads_field hs i p = overridden (reads_field fs i p) (reads_field gs i p)"
proof (induction a b and fs gs arbitrary: c p and hs i p rule: merge_field_mergeValue.induct)
  case (1 ds src)
  from 1(4) obtain ss where src: "src = CStruct ss" "czero_fields ss = czero_fields ds" by (cases src) auto
  with 1(5) obtain hs where hs: "mergeValue ds ss = Some hs" "c = CStruct hs" by auto
  with 1 src show ?case by (cases p) (auto simp: overridden_def)
next
  case (2 z d src)
  from 2(4) obtain s where src: "src = CPtr z s" by (cases src) auto
  show ?case
  proof (cases "\<exists>zs. z = CStruct zs")
    case False
    then have "c = CPtr z (case d of None \<Rightarrow> s | Some v \<Rightarrow> Some v)"
      using 2(2,5) by (cases s; cases d) (auto simp: src split: cval.splits)
    with False show ?thesis by (cases d) (auto simp: src reads_plain_ptr overridden_def)
  next
    case True
    then obtain zs where z: "z = CStruct zs" by blast
    show ?thesis
    proof (cases "d = None \<or> s = None")
      case True
      with 2(5) have "d = None \<and> c = src \<or> s = None \<and> c = CPtr z d" by (cases s) (auto simp: src)
      then show ?thesis by (auto simp: src z overridden_absent)
    next
      case False
      then obtain dv sv where v: "d = Some dv" "s = Some sv" by auto
      with 2(2,3) src z obtain ds ss where w: "dv = CStruct ds" "sv = CStruct ss" "czero_fields ds = zs" "czero_fields ss = zs"
        "wf_cfields ds" "wf_cfields ss" by (cases dv; cases sv) auto
      with 2(5) v src obtain hs where hs: "mergeValue ds ss = Some hs" "c = CPtr z (Some (CStruct hs))" by auto
      have "reads_field hs i q = overridden (reads_field ds i q) (reads_field ss i q)" for i q
        using 2(1) [OF src v(2) v(1) w(1) w(2) w(5,6) _ hs(1)] w by simp
      then show ?thesis by (cases p) (simp_all add: hs v w z src overridden_def)
    qed
  qed
next
  case (3 d src)
  then obtain s where src: "src = CVal s" by (cases src) auto
  with 3 have c: "c = CVal (if s = None then d else s)" by simp
  show ?case by (cases s) (simp_all add: c src overridden_def)
next
  case (6 n settable d ds s ss)
  obtain sv where s: "s = CField n settable sv" "czero sv = czero d" "czero_fields ss = czero_fields ds"
    using 6(5) by (cases s) auto
  obtain r rs where r: "(if settable then merge_field d sv else Some d) = Some r" "mergeValue ds ss = Some rs"
    "hs = CField n settable r # rs"
    using 6(6) by (auto simp: s split: option.splits cong: if_cong)
  show ?case
  proof (cases i)
    case 0
    show ?thesis
    proof (cases settable)
      case True
      then have "reads r q = overridden (reads d q) (reads sv q)" for q
        using 6(1) [where c = r and p = q] 6(3-5) r by (simp add: s)
      with True show ?thesis by (simp add: 0 r s)
    next
      case False
      then show ?thesis using r by (simp add: 0 s overridden_def)
    qed
  next
    case (Suc j)
    have "reads_field rs j p = overridden (reads_field ds j p) (reads_field ss j p)"
      using 6(2) [where hs = rs and i = j and p = p] 6(3-5) r s by (auto split: if_splits)
    then show ?thesis by (simp add: Suc r s)
  qed
qed (auto simp: overridden_def)

subsection \<open>Properties\<close>

text \<open>The start-up's own call: both sides are pointers to structs.\<close>

definition cfg_ptr :: "cfield list \<Rightarrow> cval" where
  "cfg_ptr fs = CPtr (CStruct (czero_fields fs)) (Some (CStruct fs))"

lemma mergeStruct_ptr:
  "mergeStruct (cfg_ptr fs) (Some (cfg_ptr gs)) =
     map_option (\<lambda>r. Inr (CPtr (CStruct (czero_fields fs)) (Some (CStruct r)))) (mergeValue fs gs)"
  by (simp add: mergeStruct_def cfg_ptr_def)

lemma mergeStruct_eq:
  "mergeValue fs gs = Some r \<Longrightarrow> czero_fields r = czero_fields fs \<Longrightarrow>
    mergeStruct (cfg_ptr fs) (Some (cfg_ptr gs)) = Some (Inr (cfg_ptr r))"
  unfolding mergeStruct_ptr by (simp add: cfg_ptr_def)

lemma mergeStruct_cfg:
  "\<lbrakk>wf_cfields fs; wf_cfields gs; czero_fields gs = czero_fields fs\<rbrakk> \<Longrightarrow>
    \<exists>hs. mergeStruct (cfg_ptr fs) (Some (cfg_ptr gs)) = Some (Inr (cfg_ptr hs)) \<and> mergeValue fs gs = Some hs \<and>
      wf_cfields hs \<and> czero_fields hs = czero_fields fs"
  using merge_total(2) [of fs gs] mergeStruct_eq [of fs gs] by auto

text \<open>C25. Laying one configuration over another of the same type never panics and keeps its type, and what the result
  says is this: a plain setting is the later layer's unless that is zero, then the earlier layer's; a struct behind a
  pointer is the one layer's when the other has a nil pointer, and merged setting by setting when both have one; a
  pointer to anything but a struct is the earlier layer's unless it is nil there; a field that reflection may
  not set is the earlier layer's. So it does not matter whether the upper layers were merged first, a layer
  that says nothing changes nothing, and laying the same layer on twice changes nothing more.\<close>

theorem config_layers:
  assumes "wf_cfields fs" "wf_cfields gs" "wf_cfields hs" "czero_fields gs = czero_fields fs"
    and "czero_fields hs = czero_fields fs"
  shows "\<exists>fg gh r. mergeStruct (cfg_ptr fs) (Some (cfg_ptr gs)) = Some (Inr (cfg_ptr fg)) \<and>
      mergeStruct (cfg_ptr gs) (Some (cfg_ptr hs)) = Some (Inr (cfg_ptr gh)) \<and>
      mergeStruct (cfg_ptr fg) (Some (cfg_ptr hs)) = Some (Inr (cfg_ptr r)) \<and>
      mergeStruct (cfg_ptr fs) (Some (cfg_ptr gh)) = Some (Inr (cfg_ptr r)) \<and>
      mergeStruct (cfg_ptr fg) (Some (cfg_ptr gs)) = Some (Inr (cfg_ptr fg)) \<and>
      mergeStruct (cfg_ptr fs) (Some (cfg_ptr (czero_fields gs))) = Some (Inr (cfg_ptr fs)) \<and>
      czero_fields r = czero_fields fs \<and>
      (\<forall>p. reads (cfg_ptr fg) p = overridden (reads (cfg_ptr fs) p) (reads (cfg_ptr gs) p))"
proof -
  obtain fg where fg: "mergeStruct (cfg_ptr fs) (Some (cfg_ptr gs)) = Some (Inr (cfg_ptr fg))" "mergeValue fs gs = Some fg"
    "wf_cfields fg" "czero_fields fg = czero_fields fs"
    using mergeStruct_cfg [of fs gs] assms by auto
  obtain gh where gh: "mergeStruct (cfg_ptr gs) (Some (cfg_ptr hs)) = Some (Inr (cfg_ptr gh))" "mergeValue gs hs = Some gh"
    "wf_cfields gh" "czero_fields gh = czero_fields gs"
    using mergeStruct_cfg [of gs hs] assms by auto
  obtain r where r: "mergeStruct (cfg_ptr fg) (Some (cfg_ptr hs)) = Some (Inr (cfg_ptr r))" "mergeValue fg hs = Some r"
    "czero_fields r = czero_fields fs"
    using mergeStruct_cfg [of fg hs] assms fg by auto
  have "mergeValue fs gh = Some r" "mergeValue fg gs = Some fg"
    using merge_associative(2) [of fs gs hs] merge_associative(2) [of fs gs gs] merge_same(2) [of gs] assms fg gh r
    by simp_all
  moreover have "mergeValue fs (czero_fields gs) = Some fs"
    using merge_zero(2) [OF assms(1)] assms(4) by simp
  moreover have "reads (cfg_ptr fg) p = overridden (reads (cfg_ptr fs) p) (reads (cfg_ptr gs) p)" for p
    using merge_reads(2) [OF assms(1,2) assms(4) [symmetric] fg(2)] by (cases p) (simp_all add: cfg_ptr_def overridden_def)
  ultimately show ?thesis
    using fg gh r by (intro exI [of _ fg] exI [of _ gh] exI [of _ r]) (simp add: mergeStruct_eq)
qed

text \<open>What a layer can not say. A setting cannot be put back to its zero value; a pointer that is set to
  anything but a struct is not replaced; and a struct of another package, \<open>time.Time\<close> for one, whose fields are not
  exported, is never merged.\<close>

theorem config_layer_limits:
  "mergeValue [CField n True (CVal d)] [CField n True (CVal None)] = Some [CField n True (CVal d)]"
  "mergeValue [CField n True (CPtr z (Some (CVal d)))] [CField n True (CPtr z (Some (CVal s)))] =
     Some [CField n True (CPtr z (Some (CVal d)))]"
  "mergeValue [CField n True (CStruct [CField m False t])] [CField n True (CStruct [CField m False t'])] =
     Some [CField n True (CStruct [CField m False t])]"
  by simp_all

theorem config_layers_witness:
  "\<exists>r. mergeStruct (cfg_ptr [CField ''Bind'' True (CVal (Some '':80'')), CField ''Prefix'' True (CVal (Some ''a''))])
     (Some (cfg_ptr [CField ''Bind'' True (CVal None), CField ''Prefix'' True (CVal (Some ''b''))])) = Some (Inr (cfg_ptr r)) \<and>
   r = [CField ''Bind'' True (CVal (Some '':80'')), CField ''Prefix'' True (CVal (Some ''b''))]"
proof -
  let ?f = "[CField ''Bind'' True (CVal (Some '':80'')), CField ''Prefix'' True (CVal (Some ''a''))]"
  let ?g = "[CField ''Bind'' True (CVal None), CField ''Prefix'' True (CVal (Some ''b''))]"
  obtain r where "mergeStruct (cfg_ptr ?f) (Some (cfg_ptr ?g)) = Some (Inr (cfg_ptr r))"
    using config_layers [of ?f ?g ?g] by auto
  then show ?thesis unfolding mergeStruct_ptr by (auto simp: cfg_ptr_def)
qed

end
