(* ===== verification/Server_Boot.thy ===== *)
theory Server_Boot
  imports Config_Merge
begin

section \<open>Starting and stopping a server\<close>

text \<open>
  \<open>NewServer\<close>, \<open>Update\<close> and its callers, \<open>serveInitOnly\<close> and \<open>Serve\<close> of \<open>serve.go\<close>, and the part of \<open>serve_cli.go\<close> that makes a
  server from the command line. The configuration is a struct in the sense of \<open>Config_Merge\<close>. The YAML decoder, the files,
  the key material and the construction of library clients are arguments, collected in \<open>boot_env\<close>. Hooks of
  the application are state transformers with an error; what they may change is the configuration of the server and a
  \<open>world\<close> that holds everything else, the registered functions among it.
\<close>

subsection \<open>Settings\<close>

fun cfg_get :: "string list \<Rightarrow> cfield list \<Rightarrow> cval option" where
  "cfg_get [] fs = None"
| "cfg_get (n # ns) fs =
     (case find (\<lambda>f. cf_name f = n) fs of
        None \<Rightarrow> None
      | Some f \<Rightarrow>
          if ns = [] then Some (cf_value f)
          else (case cf_value f of CStruct gs \<Rightarrow> cfg_get ns gs | _ \<Rightarrow> None))"

fun cfg_put :: "string list \<Rightarrow> cval \<Rightarrow> cfield list \<Rightarrow> cfield list" where
  "cfg_put [] v fs = fs"
| "cfg_put (n # ns) v fs =
     map (\<lambda>f. if cf_name f \<noteq> n then f
              else if ns = [] then CField n (cf_settable f) v
              else CField n (cf_settable f)
                     (case cf_value f of CStruct gs \<Rightarrow> CStruct (cfg_put ns v gs) | w \<Rightarrow> w)) fs"

definition cfg_str :: "string list \<Rightarrow> cfield list \<Rightarrow> string" where
  "cfg_str p fs = (case cfg_get p fs of Some (CVal (Some s)) \<Rightarrow> s | _ \<Rightarrow> [])"

definition cfg_set :: "string list \<Rightarrow> cfield list \<Rightarrow> bool" where
  "cfg_set p fs \<longleftrightarrow> (case cfg_get p fs of Some (CVal (Some s)) \<Rightarrow> True | _ \<Rightarrow> False)"

definition to_upper :: "string \<Rightarrow> string" where
  "to_upper s =
     map (\<lambda>c. let n = (of_char c :: nat) in if 97 \<le> n \<and> n \<le> 122 then char_of (n - 32) else c) s"

definition filePrefix :: "cfield list \<Rightarrow> string" where
  "filePrefix fs = to_lower (cfg_str [''Prefix''] fs)"

definition envPrefix :: "cfield list \<Rightarrow> string" where
  "envPrefix fs = to_upper (cfg_str [''Prefix''] fs)"

subsection \<open>Hooks\<close>

record 'w boot_state =
  bs_config :: "cfield list"
  bs_world :: 'w

type_synonym 'w hook = "'w boot_state \<Rightarrow> string option \<times> 'w boot_state"

record 'w fn_hooks =
  fh_path :: string
  fh_OnInit :: "'w hook option"
  fh_OnShutdown :: "'w hook option"

record 'w ext_hooks =
  eh_name :: string
  eh_SQLSchema :: "(string \<Rightarrow> string) option"
  eh_OnInit :: "'w hook option"
  eh_OnFunctionInit :: "('w fn_hooks \<Rightarrow> 'w hook) option"
  eh_OnServe :: "'w hook option"
  eh_OnShutdown :: "'w hook option"

text \<open>\<open>OnInit\<close>, \<open>OnServe\<close> and \<open>OnShutdown\<close> of the configuration itself.\<close>

record 'w cfg_hooks =
  ch_OnInit :: "'w hook option"
  ch_OnServe :: "'w hook option"
  ch_OnShutdown :: "'w hook option"

record ('x, 'w) boot_env =
  bo_zero :: "cfield list"
  bo_now :: cval
  bo_default :: bytes
  bo_yaml :: "bytes \<Rightarrow> cfield list \<Rightarrow> string + cfield list"
  bo_ext_updates :: "(bytes \<Rightarrow> 'x \<Rightarrow> 'x) list"
  bo_fs :: "(string \<Rightarrow> string \<Rightarrow> (string + bytes) option) option"
  bo_file :: "string \<Rightarrow> string \<Rightarrow> bytes option"
  bo_getenv :: "string \<Rightarrow> string"
  bo_b64 :: "string \<Rightarrow> string + bytes"
  bo_gcm :: "bytes \<Rightarrow> bytes \<Rightarrow> string + bytes"
  bo_genkey :: "string + string"
  bo_setups :: "(cfield list \<Rightarrow> string + cfield list) list"
  bo_has_sql :: "cfield list \<Rightarrow> bool"
  bo_exec :: "string \<Rightarrow> 'w hook"
  bo_exts :: "'w ext_hooks list"
  bo_functions :: "'w \<Rightarrow> 'w fn_hooks list"
  bo_registered :: "'w \<Rightarrow> 'w fn_hooks list"
  bo_internal :: "'w \<Rightarrow> 'w fn_hooks list"

text \<open>Hooks at the start: the first error ends it. Hooks at the end, and those whose errors are only printed: all run.\<close>

fun run_hooks :: "(string \<times> 'w hook option) list \<Rightarrow> 'w boot_state \<Rightarrow> string + 'w boot_state" where
  "run_hooks [] st = Inr st"
| "run_hooks ((msg, h) # hs) st =
     (case h of
        None \<Rightarrow> run_hooks hs st
      | Some g \<Rightarrow> (case g st of (Some e, _) \<Rightarrow> Inl (msg @ e) | (None, st') \<Rightarrow> run_hooks hs st'))"

fun run_all :: "(string \<times> 'w hook option) list \<Rightarrow> 'w boot_state \<Rightarrow> string list \<times> 'w boot_state" where
  "run_all [] st = ([], st)"
| "run_all ((msg, h) # hs) st =
     (case h of
        None \<Rightarrow> run_all hs st
      | Some g \<Rightarrow>
          (case g st of
             (e, st') \<Rightarrow>
               (case run_all hs st' of
                  (es, st2) \<Rightarrow> ((case e of None \<Rightarrow> [] | Some m \<Rightarrow> [msg @ m]) @ es, st2))))"

subsection \<open>Loading the configuration\<close>

text \<open>
  The state is the configuration with that of the extensions. An extension reads its own section and
  drops errors; settings marked as secure are not shown to it.
\<close>

definition Update ::
  "('x, 'w) boot_env \<Rightarrow> bytes \<Rightarrow> bool \<Rightarrow> cfield list \<times> 'x \<Rightarrow> string + cfield list \<times> 'x" where
  "Update env setting secure st =
     (case bo_yaml env setting (fst st) of
        Inl e \<Rightarrow> Inl e
      | Inr fs \<Rightarrow>
          Inr (fs, if secure then snd st else fold (\<lambda>u. u setting) (bo_ext_updates env) (snd st)))"

definition updateBuf ::
  "('x, 'w) boot_env \<Rightarrow> bytes \<Rightarrow> string \<Rightarrow> bool \<Rightarrow> cfield list \<times> 'x \<Rightarrow> string + cfield list \<times> 'x" where
  "updateBuf env buf filename secure st =
     (if suffix ''.enc'' filename then
        let var = envPrefix (fst st) @ ''_SECRET''; key = bo_getenv env var in
        if key = [] then Inl (''encrypted config `'' @ filename @ ''` found but '' @ var @ '' not set'')
        else
          bind_res (bo_b64 env key) (\<lambda>keybuf.
            if length keybuf \<noteq> 32 then Inl (''invalid key '' @ var @ '': '' @ key)
            else bind_res (bo_gcm env keybuf buf) (\<lambda>buf'. Update env buf' secure st))
      else Update env buf secure st)"

text \<open>A file that can not be opened is skipped, whatever the reason.\<close>

definition updateFS ::
  "('x, 'w) boot_env \<Rightarrow> string \<Rightarrow> bool \<Rightarrow> cfield list \<times> 'x \<Rightarrow> string + cfield list \<times> 'x" where
  "updateFS env filename secure st =
     (case bo_fs env of
        None \<Rightarrow> Inr st
      | Some open_read \<Rightarrow>
          (case open_read (cfg_str [''ConfigDir''] (fst st)) filename of
             None \<Rightarrow> Inr st
           | Some r \<Rightarrow> bind_res r (\<lambda>buf. updateBuf env buf filename secure st)))"

definition updateFile ::
  "('x, 'w) boot_env \<Rightarrow> string \<Rightarrow> bool \<Rightarrow> cfield list \<times> 'x \<Rightarrow> string + cfield list \<times> 'x" where
  "updateFile env filename secure st =
     (case bo_file env (cfg_str [''ConfigDir''] (fst st)) filename of
        None \<Rightarrow> Inr st
      | Some buf \<Rightarrow> updateBuf env buf filename secure st)"

fun run_steps :: "('s \<Rightarrow> string + 's) list \<Rightarrow> 's \<Rightarrow> string + 's" where
  "run_steps [] s = Inr s"
| "run_steps (f # fs) s = bind_res (f s) (run_steps fs)"

definition config_files :: "cfield list \<Rightarrow> string list" where
  "config_files fs = [filePrefix fs @ ''.config.yaml'', filePrefix fs @ ''.config.enc'']"

definition secrets_files :: "string list" where
  "secrets_files = [''secrets.config.json'', ''secrets.config.enc'']"

definition load_files :: "('x, 'w) boot_env \<Rightarrow> cfield list \<times> 'x \<Rightarrow> string + cfield list \<times> 'x" where
  "load_files env st =
     (let cs = config_files (fst st) in
      run_steps
        (map (\<lambda>f. updateFS env f False) cs @ map (\<lambda>f. updateFS env f True) secrets_files @
         map (\<lambda>f. updateFile env f False) cs @ map (\<lambda>f. updateFile env f True) secrets_files) st)"

text \<open>\<open>generateKeyIfNotExist\<close>.\<close>

definition generateKey :: "('x, 'w) boot_env \<Rightarrow> cfield list \<Rightarrow> string + cfield list" where
  "generateKey env fs =
     (if cfg_set [''Login'', ''PrivateKey''] fs \<or> cfg_set [''Login'', ''PublicKey''] fs then Inr fs
      else bind_res (bo_genkey env) (\<lambda>k. Inr (cfg_put [''Login'', ''PrivateKey''] (CVal (Some k)) fs)))"

text \<open>The configuration a server starts from: empty but for the time and the prefix.\<close>

definition initial_config :: "('x, 'w) boot_env \<Rightarrow> cfield list" where
  "initial_config env =
     (let fs = cfg_put [''StartAt''] (bo_now env) (bo_zero env) in
      if cfg_str [''Prefix''] fs = [] then cfg_put [''Prefix''] (CVal (Some ''allino'')) fs else fs)"

text \<open>The extensions are chosen before anything is loaded.\<close>

definition server_exts :: "('x, 'w) boot_env \<Rightarrow> 'w ext_hooks list" where
  "server_exts env = (if cfg_set [''System'', ''DisableExtension''] (bo_zero env) then [] else bo_exts env)"

definition pointee :: "cfield list \<Rightarrow> cval \<Rightarrow> cfield list" where
  "pointee fs p = (case p of CPtr _ (Some (CStruct gs)) \<Rightarrow> gs | _ \<Rightarrow> fs)"

definition load_bytes :: "('x, 'w) boot_env \<Rightarrow> cfield list \<times> 'x \<Rightarrow> string + cfield list \<times> 'x" where
  "load_bytes env st =
     (if cfg_set [''ConfigBytes''] (fst st) then Update env (cfg_str [''ConfigBytes''] (fst st)) False st else Inr st)"

definition load_config ::
  "('x, 'w) boot_env \<Rightarrow> cval option \<Rightarrow> 'x \<Rightarrow> (string + cfield list \<times> 'x) option" where
  "load_config env user x =
     (case Update env (bo_default env) False (initial_config env, x) of
        Inl e \<Rightarrow> Some (Inl e)
      | Inr (fs, x1) \<Rightarrow>
          (case mergeStruct (cfg_ptr fs) user of
             None \<Rightarrow> None
           | Some (Inl e) \<Rightarrow> Some (Inl e)
           | Some (Inr p) \<Rightarrow> Some (bind_res (load_bytes env (pointee fs p, x1)) (load_files env))))"

subsection \<open>Making a server\<close>

definition migration_allowed :: "cfield list \<Rightarrow> bool" where
  "migration_allowed fs =
     (case cfg_get [''SQL'', ''AllowMigrate''] fs of Some (CPtr _ (Some (CVal None))) \<Rightarrow> False | _ \<Rightarrow> True)"

definition schema_hook :: "('x, 'w) boot_env \<Rightarrow> cfield list \<Rightarrow> 'w ext_hooks \<Rightarrow> string \<times> 'w hook option" where
  "schema_hook env fs ext =
     (''SQL schema error for Extension '' @ eh_name ext @ '': '',
      case eh_SQLSchema ext of
        None \<Rightarrow> None
      | Some sch \<Rightarrow>
          (let s = sch (cfg_str [''SQL'', ''Driver''] fs) in if s = [] then None else Some (bo_exec env s)))"

definition schema_hooks :: "('x, 'w) boot_env \<Rightarrow> cfield list \<Rightarrow> (string \<times> 'w hook option) list" where
  "schema_hooks env fs =
     (if bo_has_sql env fs \<and> migration_allowed fs then map (schema_hook env fs) (server_exts env) else [])"

definition ext_inits :: "'w ext_hooks list \<Rightarrow> (string \<times> 'w hook option) list" where
  "ext_inits = map (\<lambda>e. (''OnInit error for Extension '' @ eh_name e @ '': '', eh_OnInit e))"

definition fn_inits :: "'w fn_hooks list \<Rightarrow> (string \<times> 'w hook option) list" where
  "fn_inits = map (\<lambda>f. (''OnInit error for Function '' @ fh_path f @ '': '', fh_OnInit f))"

definition init_hooks :: "('x, 'w) boot_env \<Rightarrow> 'w cfg_hooks \<Rightarrow> 'w boot_state \<Rightarrow> string + 'w boot_state" where
  "init_hooks env ch st =
     bind_res (run_hooks [(''OnInit error: '', ch_OnInit ch)] st) (\<lambda>st1.
     bind_res (run_hooks (ext_inits (server_exts env)) st1) (\<lambda>st2.
     bind_res (run_hooks (schema_hooks env (bs_config st2)) st2) (\<lambda>st3.
       run_hooks (fn_inits (bo_functions env (bs_world st3))) st3)))"

definition NewServer ::
  "('x, 'w) boot_env \<Rightarrow> 'w cfg_hooks \<Rightarrow> cval option \<Rightarrow> 'x \<Rightarrow> 'w \<Rightarrow> (string + 'w boot_state \<times> 'x) option" where
  "NewServer env ch user x w =
     (case load_config env user x of
        None \<Rightarrow> None
      | Some r \<Rightarrow>
          Some (bind_res r (\<lambda>(fs, x').
            bind_res (run_steps (generateKey env # bo_setups env) fs) (\<lambda>fs'.
            bind_res (init_hooks env ch \<lparr>bs_config = fs', bs_world = w\<rparr>) (\<lambda>st. Inr (st, x'))))))"

subsection \<open>Serving\<close>

definition fn_init_hooks :: "'w ext_hooks \<Rightarrow> 'w fn_hooks list \<Rightarrow> (string \<times> 'w hook option) list" where
  "fn_init_hooks ext fns =
     (case eh_OnFunctionInit ext of
        None \<Rightarrow> []
      | Some g \<Rightarrow>
          map (\<lambda>f. (''OnHandlerInit error for Extension `'' @ eh_name ext @ ''` to path `'' @ fh_path f @ ''`: '', Some (g f))) fns)"

fun init_functions :: "('x, 'w) boot_env \<Rightarrow> 'w ext_hooks list \<Rightarrow> 'w boot_state \<Rightarrow> string list \<times> 'w boot_state" where
  "init_functions env [] st = ([], st)"
| "init_functions env (ext # exts) st =
     (case run_all (fn_init_hooks ext (bo_registered env (bs_world st))) st of
        (es1, st1) \<Rightarrow>
          (case run_all (fn_init_hooks ext (bo_internal env (bs_world st1))) st1 of
             (es2, st2) \<Rightarrow> (case init_functions env exts st2 of (es3, st3) \<Rightarrow> (es1 @ es2 @ es3, st3))))"

definition serveInitOnly :: "('x, 'w) boot_env \<Rightarrow> 'w cfg_hooks \<Rightarrow> 'w boot_state \<Rightarrow> string list \<times> 'w boot_state" where
  "serveInitOnly env ch st =
     (case init_functions env (server_exts env) st of
        (es1, st1) \<Rightarrow>
          (case run_all ((''OnServe error: '', ch_OnServe ch) #
              map (\<lambda>e. (''OnServe error for Extension `'' @ eh_name e @ ''`: '', eh_OnServe e)) (server_exts env)) st1 of
             (es2, st2) \<Rightarrow> (es1 @ es2, st2)))"

datatype listen_target = UnixSocket string | Tls443 | TcpAddr string

definition listen_on :: "cfield list \<Rightarrow> listen_target" where
  "listen_on fs =
     (let addr = cfg_str [''Bind''] fs in
      if prefix ''unix:'' addr then UnixSocket (trim_prefix ''unix:'' addr)
      else if cfg_set [''Https'', ''CertFile''] fs then Tls443
      else TcpAddr addr)"

text \<open>The protocol and the URL the start is announced with.\<close>

definition announced :: "cfield list \<Rightarrow> string \<times> string" where
  "announced fs =
     (let bnd = cfg_str [''Bind''] fs; proto = (if cfg_set [''Https'', ''CertFile''] fs then ''https'' else ''http'') in
      if prefix ''unix:'' bnd then (''unix'', bnd)
      else (proto, proto @ ''://'' @ (if prefix '':'' bnd then ''localhost'' else []) @ bnd))"

text \<open>\<open>log.Fatalf\<close> ends the process: \<open>ListenFatal\<close>.\<close>

datatype listen_result = Listening | ListenFailed string | ListenFatal

definition debug_unsilences :: "cfield list \<Rightarrow> cfield list" where
  "debug_unsilences fs =
     (if cfg_set [''Debug''] fs \<and> cfg_set [''Log'', ''Silent''] fs then cfg_put [''Log'', ''Silent''] (CVal None) fs else fs)"

definition shutdown_hooks ::
  "('x, 'w) boot_env \<Rightarrow> 'w cfg_hooks \<Rightarrow> 'w \<Rightarrow> (string \<times> 'w hook option) list" where
  "shutdown_hooks env ch w =
     map (\<lambda>f. (''OnShutdown error for Function `'' @ fh_path f @ ''`: '', fh_OnShutdown f)) (bo_functions env w) @
     map (\<lambda>e. (''OnShutdown error for Extension `'' @ eh_name e @ ''`: '', eh_OnShutdown e)) (server_exts env) @
     [(''OnShutdown error: '', ch_OnShutdown ch)]"

text \<open>
  \<open>Serve\<close>: the errors it prints and the final state; \<open>None\<close> when the process ends. \<open>serving\<close> is everything that
  happens between the start and the end of the application context, \<open>drained\<close> the error of fiber's shutdown.
\<close>

definition Serve_run ::
  "('x, 'w) boot_env \<Rightarrow> 'w cfg_hooks \<Rightarrow> (listen_target \<Rightarrow> listen_result) \<Rightarrow> ('w boot_state \<Rightarrow> 'w boot_state) \<Rightarrow>
    string option \<Rightarrow> 'w boot_state \<Rightarrow> (string list \<times> 'w boot_state) option" where
  "Serve_run env ch listen serving drained st =
     (case listen (listen_on (bs_config st)) of
        ListenFatal \<Rightarrow> None
      | ListenFailed e \<Rightarrow>
          Some ([(case listen_on (bs_config st) of
                    UnixSocket _ \<Rightarrow> ''Failed to listen on unix socket: ''
                  | _ \<Rightarrow> ''Failed to listen on TCP:'' @ cfg_str [''Bind''] (bs_config st) @ '': '') @ e], st)
      | Listening \<Rightarrow>
          (case serveInitOnly env ch (st\<lparr>bs_config := debug_unsilences (bs_config st)\<rparr>) of
             (es1, st1) \<Rightarrow>
               let st2 = serving st1 in
               (case run_all (shutdown_hooks env ch (bs_world st2)) st2 of
                  (es2, st3) \<Rightarrow>
                    Some (es1 @ (case drained of None \<Rightarrow> [] | Some e \<Rightarrow> [''Shutdown error: '' @ e]) @ es2, st3))))"

subsection \<open>What extensions see\<close>

text \<open>\<open>Prefix\<close> and \<open>ConfigDir\<close> have the tag \<open>json:"-"\<close>: the decoder does not set them.\<close>

definition same_paths :: "cfield list \<Rightarrow> cfield list \<Rightarrow> bool" where
  "same_paths fs gs \<longleftrightarrow>
     cfg_str [''ConfigDir''] fs = cfg_str [''ConfigDir''] gs \<and> cfg_str [''Prefix''] fs = cfg_str [''Prefix''] gs"

definition keeps_paths :: "('x, 'w) boot_env \<Rightarrow> bool" where
  "keeps_paths env \<longleftrightarrow> (\<forall>b fs gs. bo_yaml env b fs = Inr gs \<longrightarrow> same_paths fs gs)"

definition alike :: "cfield list \<times> 'x \<Rightarrow> cfield list \<times> 'x \<Rightarrow> bool" where
  "alike st st' \<longleftrightarrow> same_paths (fst st) (fst st') \<and> snd st = snd st'"

lemma same_paths_laws:
  "same_paths fs fs" "same_paths fs gs \<Longrightarrow> same_paths gs fs" "same_paths fs gs \<Longrightarrow> same_paths gs hs \<Longrightarrow> same_paths fs hs"
  by (simp_all add: same_paths_def)

lemma bind_res_Inr: "bind_res r k = Inr y \<longleftrightarrow> (\<exists>x. r = Inr x \<and> k x = Inr y)"
  by (cases r) simp_all

lemma Update_paths: "keeps_paths env \<Longrightarrow> Update env b sec st = Inr st2 \<Longrightarrow> same_paths (fst st) (fst st2)"
  by (auto simp: Update_def keeps_paths_def split: sum.splits)

lemma Update_alike:
  assumes "keeps_paths env" "alike st st'" "Update env b sec st = Inr st2" "Update env b' sec st' = Inr st2'"
    and "sec \<or> b = b'"
  shows "alike st2 st2'"
  using Update_paths [OF assms(1,3)] Update_paths [OF assms(1,4)] assms(2-5)
  by (auto simp: alike_def Update_def same_paths_def split: sum.splits)

lemma updateBuf_Update:
  assumes "updateBuf env buf f sec st = Inr st2"
  obtains b where "Update env b sec st = Inr st2"
    "suffix ''.enc'' f \<Longrightarrow> \<exists>k. bo_b64 env (bo_getenv env (envPrefix (fst st) @ ''_SECRET'')) = Inr k \<and> bo_gcm env k buf = Inr b"
    "\<not> suffix ''.enc'' f \<Longrightarrow> b = buf"
  using assms by (auto simp: updateBuf_def Let_def bind_res_Inr split: if_splits)

lemma updateBuf_alike:
  assumes "keeps_paths env" "alike st st'" "updateBuf env b f sec st = Inr st2" "updateBuf env b' f sec st' = Inr st2'"
    and "sec \<or> b = b'"
  shows "alike st2 st2'"
proof -
  obtain c where c: "Update env c sec st = Inr st2"
    "suffix ''.enc'' f \<Longrightarrow> \<exists>k. bo_b64 env (bo_getenv env (envPrefix (fst st) @ ''_SECRET'')) = Inr k \<and> bo_gcm env k b = Inr c"
    "\<not> suffix ''.enc'' f \<Longrightarrow> c = b"
    using updateBuf_Update [OF assms(3)] by blast
  obtain c' where c': "Update env c' sec st' = Inr st2'"
    "suffix ''.enc'' f \<Longrightarrow> \<exists>k. bo_b64 env (bo_getenv env (envPrefix (fst st') @ ''_SECRET'')) = Inr k \<and> bo_gcm env k b' = Inr c'"
    "\<not> suffix ''.enc'' f \<Longrightarrow> c' = b'"
    using updateBuf_Update [OF assms(4)] by blast
  have "envPrefix (fst st) = envPrefix (fst st')" using assms(2) by (simp add: alike_def same_paths_def envPrefix_def)
  then have "sec \<or> c = c'" using assms(5) c(2,3) c'(2,3) by (cases "suffix ''.enc'' f") auto
  then show ?thesis using Update_alike [OF assms(1,2) c(1) c'(1)] by blast
qed

text \<open>Two environments that differ in the secrets files only.\<close>

definition with_secrets ::
  "(string \<Rightarrow> string \<Rightarrow> (string + bytes) option) option \<Rightarrow> (string \<Rightarrow> string \<Rightarrow> bytes option) \<Rightarrow>
    ('x, 'w) boot_env \<Rightarrow> ('x, 'w) boot_env" where
  "with_secrets sfs sfile env = env\<lparr>
     bo_fs := map_option (\<lambda>open_read d f. if f \<in> set secrets_files then Option.bind sfs (\<lambda>g. g d f) else open_read d f) (bo_fs env),
     bo_file := (\<lambda>d f. if f \<in> set secrets_files then sfile d f else bo_file env d f)\<rparr>"

lemma with_secrets_sel [simp]:
  "bo_yaml (with_secrets sfs sfile env) = bo_yaml env" "bo_ext_updates (with_secrets sfs sfile env) = bo_ext_updates env"
  "bo_getenv (with_secrets sfs sfile env) = bo_getenv env" "bo_b64 (with_secrets sfs sfile env) = bo_b64 env"
  "bo_gcm (with_secrets sfs sfile env) = bo_gcm env" "bo_default (with_secrets sfs sfile env) = bo_default env"
  "initial_config (with_secrets sfs sfile env) = initial_config env"
  by (simp_all add: with_secrets_def initial_config_def)

lemma with_secrets_Update [simp]: "Update (with_secrets sfs sfile env) = Update env"
  by (intro ext) (simp add: Update_def split: sum.splits)

lemma with_secrets_updateBuf [simp]: "updateBuf (with_secrets sfs sfile env) = updateBuf env"
  by (intro ext) (simp only: updateBuf_def with_secrets_sel with_secrets_Update)

lemma with_secrets_load_bytes [simp]: "load_bytes (with_secrets sfs sfile env) = load_bytes env"
  by (intro ext) (simp add: load_bytes_def)

lemma run_steps_paths:
  "\<lbrakk>run_steps fs st = Inr st2; \<And>f s s2. f \<in> set fs \<Longrightarrow> f s = Inr s2 \<Longrightarrow> same_paths (fst s) (fst s2)\<rbrakk> \<Longrightarrow>
    same_paths (fst st) (fst st2)"
proof (induction fs arbitrary: st)
  case (Cons f fs)
  from Cons.prems(1) obtain s1 where "f st = Inr s1" "run_steps fs s1 = Inr st2" by (auto simp: bind_res_Inr)
  with Cons.IH [of s1] Cons.prems(2) show ?case by (meson list.set_intros same_paths_laws(3))
qed (simp add: same_paths_def)

lemma update_paths:
  assumes "keeps_paths env"
  shows "updateBuf env b f sec st = Inr st2 \<Longrightarrow> same_paths (fst st) (fst st2)"
    and "updateFS env f sec st = Inr st2 \<Longrightarrow> same_paths (fst st) (fst st2)"
    and "updateFile env f sec st = Inr st2 \<Longrightarrow> same_paths (fst st) (fst st2)"
proof -
  have buf: "same_paths (fst st) (fst st2)" if u: "updateBuf env b f sec st = Inr st2" for b
    using updateBuf_Update [OF u] Update_paths [OF assms] by metis
  then show "updateBuf env b f sec st = Inr st2 \<Longrightarrow> same_paths (fst st) (fst st2)" .
  show "updateFS env f sec st = Inr st2 \<Longrightarrow> same_paths (fst st) (fst st2)"
    "updateFile env f sec st = Inr st2 \<Longrightarrow> same_paths (fst st) (fst st2)"
    by (auto simp: updateFS_def updateFile_def bind_res_Inr same_paths_laws(1) intro: buf split: option.splits)
qed

lemma load_files_paths: "keeps_paths env \<Longrightarrow> load_files env st = Inr st2 \<Longrightarrow> same_paths (fst st) (fst st2)"
  unfolding load_files_def Let_def by (erule run_steps_paths) (auto dest: update_paths)

lemma alike_laws: "alike st st" "alike st st' \<Longrightarrow> alike st' st" "alike st st' \<Longrightarrow> alike st' st2 \<Longrightarrow> alike st st2"
  by (auto simp: alike_def same_paths_def)

lemma secure_step:
  assumes "keeps_paths env"
  shows "updateFS env f True st = Inr st2 \<Longrightarrow> alike st st2" "updateFile env f True st = Inr st2 \<Longrightarrow> alike st st2"
proof -
  have buf: "alike st st2" if u: "updateBuf env b f True st = Inr st2" for b st2
  proof -
    obtain c where c: "Update env c True st = Inr st2" using updateBuf_Update [OF u] by metis
    then have "snd st2 = snd st" by (auto simp: Update_def split: sum.splits)
    with Update_paths [OF assms c] show ?thesis by (simp add: alike_def)
  qed
  show "updateFS env f True st = Inr st2 \<Longrightarrow> alike st st2" "updateFile env f True st = Inr st2 \<Longrightarrow> alike st st2"
    by (auto simp: updateFS_def updateFile_def bind_res_Inr intro: alike_laws(1) buf split: option.splits)
qed

lemma open_step:
  assumes "keeps_paths env" "alike st st'" "f \<notin> set secrets_files"
  shows "updateFS env f False st = Inr st2 \<Longrightarrow> updateFS (with_secrets sfs sfile env) f False st' = Inr st2' \<Longrightarrow> alike st2 st2'"
    and "updateFile env f False st = Inr st2 \<Longrightarrow> updateFile (with_secrets sfs sfile env) f False st' = Inr st2' \<Longrightarrow> alike st2 st2'"
proof -
  have d: "cfg_str [''ConfigDir''] (fst st') = cfg_str [''ConfigDir''] (fst st)"
    using assms(2) by (simp add: alike_def same_paths_def)
  have same: "\<lbrakk>updateBuf env b f False st = Inr s; updateBuf env b f False st' = Inr s'\<rbrakk> \<Longrightarrow> alike s s'" for b s s'
    using updateBuf_alike [OF assms(1,2), of b f False s b s'] by simp
  have "bo_file (with_secrets sfs sfile env) d f = bo_file env d f" for d
    using assms(3) by (simp add: with_secrets_def)
  with d show "updateFile env f False st = Inr st2 \<Longrightarrow> updateFile (with_secrets sfs sfile env) f False st' = Inr st2' \<Longrightarrow> alike st2 st2'"
    using assms(2) by (auto simp: updateFile_def intro: same split: option.splits)
  have "bo_fs (with_secrets sfs sfile env) = None \<and> bo_fs env = None \<or>
      (\<exists>g h. bo_fs (with_secrets sfs sfile env) = Some g \<and> bo_fs env = Some h \<and>
        g (cfg_str [''ConfigDir''] (fst st)) f = h (cfg_str [''ConfigDir''] (fst st)) f)"
    using assms(3) by (cases "bo_fs env") (simp_all add: with_secrets_def)
  with d show "updateFS env f False st = Inr st2 \<Longrightarrow> updateFS (with_secrets sfs sfile env) f False st' = Inr st2' \<Longrightarrow> alike st2 st2'"
    using assms(2) by (auto simp: updateFS_def bind_res_Inr intro: same split: option.splits)
qed

lemma run_steps_append: "run_steps (xs @ ys) s = bind_res (run_steps xs s) (run_steps ys)"
  by (induction xs arbitrary: s) (simp_all add: bind_res_def split: sum.splits)

lemma run_steps_alike:
  assumes "\<And>f st st' st2 st2'. \<lbrakk>f \<in> set fs; alike st st'; g f st = Inr st2; h f st' = Inr st2'\<rbrakk> \<Longrightarrow> alike st2 st2'"
  shows "\<lbrakk>alike st st'; run_steps (map g fs) st = Inr st2; run_steps (map h fs) st' = Inr st2'\<rbrakk> \<Longrightarrow> alike st2 st2'"
  using assms
proof (induction fs arbitrary: st st')
  case (Cons f fs)
  then obtain s1 s1' where "g f st = Inr s1" "h f st' = Inr s1'" "run_steps (map g fs) s1 = Inr st2"
    "run_steps (map h fs) s1' = Inr st2'" by (auto simp: bind_res_Inr)
  moreover from this have "alike s1 s1'" using Cons.prems(1) Cons.prems(4) [of f st st'] by simp
  ultimately show ?case
    by (intro Cons.IH [of s1 s1']) (assumption | rule Cons.prems(4), erule list.set_intros(2))+
qed simp

lemma secure_pair:
  assumes "keeps_paths env" "alike st st'"
  shows "updateFS env f True st = Inr st2 \<Longrightarrow> updateFS (with_secrets sfs sfile env) f True st' = Inr st2' \<Longrightarrow> alike st2 st2'"
    and "updateFile env f True st = Inr st2 \<Longrightarrow> updateFile (with_secrets sfs sfile env) f True st' = Inr st2' \<Longrightarrow> alike st2 st2'"
proof -
  have k: "keeps_paths (with_secrets sfs sfile env)" using assms(1) by (simp add: keeps_paths_def)
  show "updateFS env f True st = Inr st2 \<Longrightarrow> updateFS (with_secrets sfs sfile env) f True st' = Inr st2' \<Longrightarrow> alike st2 st2'"
    "updateFile env f True st = Inr st2 \<Longrightarrow> updateFile (with_secrets sfs sfile env) f True st' = Inr st2' \<Longrightarrow> alike st2 st2'"
    using secure_step [OF assms(1)] secure_step [OF k] assms(2) alike_laws(2,3) by metis+
qed

lemma load_files_alike:
  assumes "keeps_paths env" "load_files env st = Inr st2" "load_files (with_secrets sfs sfile env) st = Inr st2'"
    and "filePrefix (fst st) \<noteq> ''secrets''"
  shows "alike st2 st2'"
proof -
  let ?e = "with_secrets sfs sfile env" and ?cs = "config_files (fst st)"
  have cs: "f \<notin> set secrets_files" if "f \<in> set ?cs" for f
    using that assms(4) by (auto simp: config_files_def secrets_files_def)
  from assms(2,3) obtain a b c a' b' c' where
    "run_steps (map (\<lambda>f. updateFS env f False) ?cs) st = Inr a" "run_steps (map (\<lambda>f. updateFS ?e f False) ?cs) st = Inr a'"
    "run_steps (map (\<lambda>f. updateFS env f True) secrets_files) a = Inr b" "run_steps (map (\<lambda>f. updateFS ?e f True) secrets_files) a' = Inr b'"
    "run_steps (map (\<lambda>f. updateFile env f False) ?cs) b = Inr c" "run_steps (map (\<lambda>f. updateFile ?e f False) ?cs) b' = Inr c'"
    "run_steps (map (\<lambda>f. updateFile env f True) secrets_files) c = Inr st2" "run_steps (map (\<lambda>f. updateFile ?e f True) secrets_files) c' = Inr st2'"
    unfolding load_files_def Let_def run_steps_append bind_res_Inr by blast
  note r = this
  have "alike a a'"
    by (rule run_steps_alike [OF _ alike_laws(1) r(1,2)]) (rule open_step(1) [OF assms(1) _ cs])
  then have "alike b b'"
    by (rule run_steps_alike [OF _ _ r(3,4), rotated]) (rule secure_pair(1) [OF assms(1)])
  then have "alike c c'"
    by (rule run_steps_alike [OF _ _ r(5,6), rotated]) (rule open_step(2) [OF assms(1) _ cs])
  then show ?thesis
    by (rule run_steps_alike [OF _ _ r(7,8), rotated]) (rule secure_pair(2) [OF assms(1)])
qed

text \<open>C24. What the extensions know of a server's configuration does not depend on the secrets files: whatever these hold, and
  whether they exist, two starts that succeed leave every extension with the same settings. (Not so with the
  prefix \<open>secrets\<close>: then \<open>secrets.config.enc\<close> is an ordinary configuration file too.)\<close>

theorem secrets_hidden_from_extensions:
  assumes "keeps_paths env"
    and "load_config env user x = Some (Inr (fs, y))"
    and "load_config (with_secrets sfs sfile env) user x = Some (Inr (gs, z))"
    and "filePrefix fs \<noteq> ''secrets''"
  shows "y = z \<and> filePrefix gs = filePrefix fs"
proof -
  let ?e = "with_secrets sfs sfile env"
  from assms(2) obtain bs x1 p where u: "Update env (bo_default env) False (initial_config env, x) = Inr (bs, x1)"
    "mergeStruct (cfg_ptr bs) user = Some (Inr p)"
    by (auto simp: load_config_def split: sum.splits option.splits)
  then have "bind_res (load_bytes env (pointee bs p, x1)) (load_files env) = Inr (fs, y)"
    "bind_res (load_bytes env (pointee bs p, x1)) (load_files ?e) = Inr (gs, z)"
    using assms(2,3) by (simp_all add: load_config_def)
  then obtain s1 where s1: "load_files env s1 = Inr (fs, y)" "load_files ?e s1 = Inr (gs, z)"
    unfolding bind_res_Inr by auto
  have "same_paths (fst s1) fs"
    using load_files_paths [OF assms(1) s1(1)] by simp
  then have "filePrefix (fst s1) \<noteq> ''secrets''"
    using assms(4) by (simp add: same_paths_def filePrefix_def)
  from load_files_alike [OF assms(1) s1 this] show ?thesis
    by (simp add: alike_def same_paths_def filePrefix_def)
qed

subsection \<open>Hooks of functions\<close>

lemma run_hooks_append: "run_hooks (xs @ ys) st = bind_res (run_hooks xs st) (run_hooks ys)"
  by (induction xs st rule: run_hooks.induct) (auto split: option.splits prod.splits)

lemma run_hooks_none: "\<forall>h \<in> set hs. snd h = None \<Longrightarrow> run_hooks hs st = Inr st"
  by (induction hs st rule: run_hooks.induct) auto

definition keeps_empty :: "('x, 'w) boot_env \<Rightarrow> 'w hook option \<Rightarrow> bool" where
  "keeps_empty env h \<longleftrightarrow>
     (\<forall>g st. h = Some g \<longrightarrow> bo_functions env (bs_world st) = [] \<longrightarrow> bo_functions env (bs_world (snd (g st))) = [])"

lemma run_hooks_empty:
  "\<lbrakk>run_hooks hs st = Inr st2; \<forall>h \<in> set hs. keeps_empty env (snd h); bo_functions env (bs_world st) = []\<rbrakk> \<Longrightarrow>
    bo_functions env (bs_world st2) = []"
proof (induction hs st rule: run_hooks.induct)
  case (2 msg h hs st)
  show ?case
  proof (cases h)
    case None
    with 2 show ?thesis by simp
  next
    case (Some g)
    with 2(3) obtain st' where st': "g st = (None, st')" "run_hooks hs st' = Inr st2"
      by (auto split: option.splits prod.splits)
    have "bo_functions env (bs_world st') = []"
      using 2(4,5) Some st'(1) by (force simp: keeps_empty_def)
    with 2(2) [OF Some st'(1) [symmetric] refl st'(2)] 2(4) show ?thesis by simp
  qed
qed simp

text \<open>What loading the configuration depends on.\<close>

definition same_sources :: "('x, 'w) boot_env \<Rightarrow> ('x, 'v) boot_env \<Rightarrow> bool" where
  "same_sources env env' \<longleftrightarrow>
     bo_zero env = bo_zero env' \<and> bo_now env = bo_now env' \<and> bo_default env = bo_default env' \<and> bo_yaml env = bo_yaml env' \<and>
     bo_ext_updates env = bo_ext_updates env' \<and> bo_fs env = bo_fs env' \<and> bo_file env = bo_file env' \<and>
     bo_getenv env = bo_getenv env' \<and> bo_b64 env = bo_b64 env' \<and> bo_gcm env = bo_gcm env' \<and> bo_genkey env = bo_genkey env'"

lemma same_sources_load:
  assumes "same_sources env env'"
  shows "load_config env = load_config env'" "generateKey env = generateKey env'"
proof -
  note eqs = assms [unfolded same_sources_def]
  have u: "Update env = Update env'"
    by (intro ext) (simp only: Update_def eqs)
  then have b: "updateBuf env = updateBuf env'"
    by (intro ext) (simp only: updateBuf_def eqs)
  then have f: "updateFS env = updateFS env'" "updateFile env = updateFile env'"
    by ((intro ext)?, simp only: updateFS_def updateFile_def eqs)+
  then have l: "load_files env = load_files env'" by (intro ext) (simp only: load_files_def)
  have "load_bytes env = load_bytes env'" "initial_config env = initial_config env'"
    by ((intro ext)?, simp only: load_bytes_def initial_config_def eqs u)+
  then show "load_config env = load_config env'"
    by (intro ext) (simp only: load_config_def eqs u l)
  show "generateKey env = generateKey env'" by (intro ext) (simp only: generateKey_def eqs)
qed

text \<open>The functions with other \<open>OnInit\<close> hooks.\<close>

definition with_OnInit :: "('w fn_hooks \<Rightarrow> 'w hook option) \<Rightarrow> ('x, 'w) boot_env \<Rightarrow> ('x, 'w) boot_env" where
  "with_OnInit g env = env\<lparr>bo_functions := (\<lambda>w. map (\<lambda>f. f\<lparr>fh_OnInit := g f\<rparr>) (bo_functions env w))\<rparr>"

lemma with_OnInit_functions:
  "bo_functions (with_OnInit g env) w = map (\<lambda>f. f\<lparr>fh_OnInit := g f\<rparr>) (bo_functions env w)"
  by (simp add: with_OnInit_def)

lemma with_OnInit_sources: "same_sources (with_OnInit g env) env"
  by (simp add: with_OnInit_def same_sources_def)

lemma with_OnInit_server:
  "server_exts (with_OnInit g env) = server_exts env" "schema_hook (with_OnInit g env) = schema_hook env"
  "schema_hooks (with_OnInit g env) = schema_hooks env"
proof -
  have sel: "bo_zero (with_OnInit g env) = bo_zero env" "bo_exts (with_OnInit g env) = bo_exts env"
    "bo_exec (with_OnInit g env) = bo_exec env" "bo_has_sql (with_OnInit g env) = bo_has_sql env"
    by (simp_all add: with_OnInit_def)
  show exts: "server_exts (with_OnInit g env) = server_exts env" by (simp only: server_exts_def sel)
  show hook: "schema_hook (with_OnInit g env) = schema_hook env" by (intro ext) (simp only: schema_hook_def sel)
  show "schema_hooks (with_OnInit g env) = schema_hooks env" by (intro ext) (simp only: schema_hooks_def sel exts hook)
qed

lemma with_OnInit_setups: "bo_setups (with_OnInit g env) = bo_setups env"
  by (simp add: with_OnInit_def)

text \<open>The usual program makes the server first and registers its functions then, as the command line does. Then no
  function's \<open>OnInit\<close> is ever called: unless a hook of the configuration or of an extension registers functions while the
  server is made, \<open>NewServer\<close> is the same whatever \<open>OnInit\<close> hooks the functions have, and nothing after it calls them.\<close>

theorem function_OnInit_needs_early_registration:
  assumes "bo_functions env w = []" "keeps_empty env (ch_OnInit ch)"
    and "\<forall>e \<in> set (bo_exts env). keeps_empty env (eh_OnInit e)" "\<forall>s. keeps_empty env (Some (bo_exec env s))"
  shows "NewServer (with_OnInit g env) ch user x w = NewServer env ch user x w"
proof -
  have "init_hooks (with_OnInit g env) ch \<lparr>bs_config = fs, bs_world = w\<rparr> = init_hooks env ch \<lparr>bs_config = fs, bs_world = w\<rparr>" for fs
  proof -
    have "bo_functions env (bs_world st3) = []"
      if "run_hooks [(''OnInit error: '', ch_OnInit ch)] \<lparr>bs_config = fs, bs_world = w\<rparr> = Inr st1"
        "run_hooks (ext_inits (server_exts env)) st1 = Inr st2"
        "run_hooks (schema_hooks env (bs_config st2)) st2 = Inr st3" for st1 st2 st3
    proof -
      have "bo_functions env (bs_world st1) = []"
        using run_hooks_empty [OF that(1), of env] assms(1,2) by simp
      then have "bo_functions env (bs_world st2) = []"
        using run_hooks_empty [OF that(2), of env] assms(3) by (auto simp: server_exts_def ext_inits_def split: if_splits)
      then show ?thesis
        by (rule run_hooks_empty [OF that(3), of env, rotated])
          (auto simp: schema_hooks_def schema_hook_def assms(4) Let_def keeps_empty_def [of env None] split: option.splits)
    qed
    then show ?thesis
      by (auto simp: init_hooks_def bind_res_def fn_inits_def with_OnInit_server with_OnInit_functions split: sum.splits)
  qed
  note eq = this
  show ?thesis
    unfolding NewServer_def same_sources_load [OF with_OnInit_sources] with_OnInit_setups eq ..
qed

definition text_boot :: "'w ext_hooks list \<Rightarrow> ('w \<Rightarrow> 'w fn_hooks list) \<Rightarrow> (string, 'w) boot_env" where
  "text_boot exts fns = \<lparr>
     bo_zero = [CField ''StartAt'' True (CStruct []), CField ''Prefix'' True (CVal None), CField ''ConfigDir'' True (CVal None),
       CField ''Bind'' True (CVal None), CField ''Login'' True (CStruct [CField ''PrivateKey'' True (CVal None)])],
     bo_now = CStruct [], bo_default = '':80'',
     bo_yaml = (\<lambda>b fs. Inr (cfg_put [''Bind''] (CVal (Some b)) fs)),
     bo_ext_updates = [(\<lambda>b x. x @ b)], bo_fs = None, bo_file = (\<lambda>d f. None),
     bo_getenv = (\<lambda>_. []), bo_b64 = Inr, bo_gcm = (\<lambda>k b. Inr b), bo_genkey = Inr ''key'', bo_setups = [],
     bo_has_sql = (\<lambda>_. False), bo_exec = (\<lambda>s st. (None, st)), bo_exts = exts,
     bo_functions = fns, bo_registered = fns, bo_internal = (\<lambda>_. [])\<rparr>"

lemma cfg_get_put_other: "n \<noteq> m \<Longrightarrow> cfg_get (n # ns) (cfg_put (m # ms) v fs) = cfg_get (n # ns) fs"
proof (induction fs)
  case (Cons f fs)
  then show ?case by (cases f) (auto split: option.splits)
qed simp

lemma text_boot_paths: "keeps_paths (text_boot exts fns)"
  by (simp add: keeps_paths_def text_boot_def same_paths_def cfg_str_def cfg_get_put_other del: cfg_get.simps cfg_put.simps)

theorem secrets_hidden_from_extensions_witness:
  "\<exists>fs gs. load_config (text_boot [] (\<lambda>_ :: unit. [])) None ''x'' = Some (Inr (fs, ''x:80'')) \<and>
    load_config (with_secrets None (\<lambda>d f. if f = ''secrets.config.json'' then Some ''s'' else None) (text_boot [] (\<lambda>_ :: unit. [])))
      None ''x'' = Some (Inr (gs, ''x:80'')) \<and> fs \<noteq> gs"
proof -
  let ?e = "text_boot [] (\<lambda>_ :: unit. [])"
    and ?s = "with_secrets None (\<lambda>d f. if f = ''secrets.config.json'' then Some ''s'' else None) (text_boot [] (\<lambda>_ :: unit. []))"
  let ?fs = "\<lambda>b. [CField ''StartAt'' True (CStruct []), CField ''Prefix'' True (CVal (Some ''allino'')), CField ''ConfigDir'' True (CVal None),
       CField ''Bind'' True (CVal (Some b)), CField ''Login'' True (CStruct [CField ''PrivateKey'' True (CVal None)])]"
  note defs = load_config_def text_boot_def with_secrets_def Update_def initial_config_def cfg_str_def pointee_def cfg_ptr_def
    load_bytes_def cfg_set_def load_files_def config_files_def secrets_files_def updateFS_def updateFile_def updateBuf_def
    mergeStruct_def Let_def
  have a: "load_config ?e None ''x'' = Some (Inr (?fs '':80'', ''x:80''))"
    by (simp add: defs)
  have p: "filePrefix (?fs '':80'') = ''allino''" by code_simp
  have n: "\<not> suffix ''.enc'' ''secrets.config.json''" by code_simp
  have f: "filePrefix (?fs '':80'') @ ''.config.yaml'' \<noteq> ''secrets.config.json''" "filePrefix (?fs '':80'') @ ''.config.enc'' \<noteq> ''secrets.config.json''"
    unfolding p by simp_all
  have b: "load_config ?s None ''x'' = Some (Inr (?fs ''s'', ''x:80''))"
    using f n by (simp add: defs)
  have "''x:80'' = ''x:80'' \<and> filePrefix (?fs ''s'') = filePrefix (?fs '':80'')"
    using secrets_hidden_from_extensions [OF text_boot_paths a b] p by simp
  with a b show ?thesis by auto
qed

theorem function_OnInit_needs_early_registration_witness:
  "let fn = (\<lambda>h. \<lparr>fh_path = ''/p'', fh_OnInit = h, fh_OnShutdown = None\<rparr>);
       env = text_boot [] (\<lambda>registered. if registered then [fn (Some (\<lambda>st. (Some ''fails'', st)))] else []);
       ch = \<lparr>ch_OnInit = None, ch_OnServe = None, ch_OnShutdown = None\<rparr> in
   NewServer env ch None ''x'' False = NewServer (with_OnInit (\<lambda>_. None) env) ch None ''x'' False \<and>
   map (\<lambda>f. fh_OnInit f = None) (bo_functions env True) = [False]"
  unfolding Let_def
  by (rule conjI, rule function_OnInit_needs_early_registration [symmetric])
    (simp_all add: text_boot_def keeps_empty_def)

end
