(* ===== verification/Server_Cli.thy ===== *)
theory Server_Cli
  imports Server_Boot
begin

section \<open>The command line's server\<close>

text \<open>
  \<open>initServer\<close>, \<open>CLIServer\<close> and \<open>NewCLI\<close> of \<open>serve_cli.go\<close>. The command line keeps a pointer to the configuration
  the application passed; the server has a configuration of its own, into which that one was merged. The
  world of the hooks is therefore paired with the application's configuration here.
\<close>

record cli_flags =
  cl_configDir :: string
  cl_workDir :: string
  cl_bind :: string
  cl_set :: "string list"
  cl_debug :: bool
  cl_allow_migrate :: bool

subsection \<open>Hooks that do not know of the application's configuration\<close>

definition lift_hook :: "'w hook \<Rightarrow> ('w \<times> 'u) hook" where
  "lift_hook h st =
     (case h \<lparr>bs_config = bs_config st, bs_world = fst (bs_world st)\<rparr> of
        (e, st') \<Rightarrow> (e, \<lparr>bs_config = bs_config st', bs_world = (bs_world st', snd (bs_world st))\<rparr>))"

definition lift_fn :: "'w fn_hooks \<Rightarrow> ('w \<times> 'u) fn_hooks" where
  "lift_fn f = \<lparr>fh_path = fh_path f, fh_OnInit = map_option lift_hook (fh_OnInit f),
     fh_OnShutdown = map_option lift_hook (fh_OnShutdown f)\<rparr>"

text \<open>The hook for functions is not used while a server is made.\<close>

definition lift_ext :: "'w ext_hooks \<Rightarrow> ('w \<times> 'u) ext_hooks" where
  "lift_ext e = \<lparr>eh_name = eh_name e, eh_SQLSchema = eh_SQLSchema e, eh_OnInit = map_option lift_hook (eh_OnInit e),
     eh_OnFunctionInit = None, eh_OnServe = map_option lift_hook (eh_OnServe e),
     eh_OnShutdown = map_option lift_hook (eh_OnShutdown e)\<rparr>"

definition lift_env :: "('x, 'w) boot_env \<Rightarrow> ('x, 'w \<times> 'u) boot_env" where
  "lift_env env = \<lparr>bo_zero = bo_zero env, bo_now = bo_now env, bo_default = bo_default env, bo_yaml = bo_yaml env,
     bo_ext_updates = bo_ext_updates env, bo_fs = bo_fs env, bo_file = bo_file env, bo_getenv = bo_getenv env,
     bo_b64 = bo_b64 env, bo_gcm = bo_gcm env, bo_genkey = bo_genkey env, bo_setups = bo_setups env,
     bo_has_sql = bo_has_sql env, bo_exec = (\<lambda>s. lift_hook (bo_exec env s)), bo_exts = map lift_ext (bo_exts env),
     bo_functions = (\<lambda>w. map lift_fn (bo_functions env (fst w))),
     bo_registered = (\<lambda>w. map lift_fn (bo_registered env (fst w))),
     bo_internal = (\<lambda>w. map lift_fn (bo_internal env (fst w)))\<rparr>"

subsection \<open>The server\<close>

text \<open>
  \<open>initServer\<close>: \<open>OnInit\<close> is replaced by a hook that writes the flags into the application's configuration and calls the
  one that was there. \<open>envs\<close> is the environment by working directory (\<open>os.Chdir\<close>); a nil configuration is replaced by
  an empty one.
\<close>

definition flagged :: "cli_flags \<Rightarrow> cfield list \<Rightarrow> cfield list" where
  "flagged fl u =
     (let u1 = (if cl_configDir fl \<noteq> [] then cfg_put [''ConfigDir''] (CVal (Some (cl_configDir fl))) u else u)
      in if cl_bind fl \<noteq> [] then cfg_put [''Bind''] (CVal (Some (cl_bind fl))) u1 else u1)"

definition cli_OnInit :: "cli_flags \<Rightarrow> ('w \<times> cfield list) hook option \<Rightarrow> ('w \<times> cfield list) hook" where
  "cli_OnInit fl oninit st =
     (let st' = st\<lparr>bs_world := (fst (bs_world st), flagged fl (snd (bs_world st)))\<rparr>
      in case oninit of None \<Rightarrow> (None, st') | Some h \<Rightarrow> h st')"

definition initServer ::
  "(string \<Rightarrow> ('x, 'w) boot_env) \<Rightarrow> cli_flags \<Rightarrow> 'w hook option \<Rightarrow> cfield list option \<Rightarrow> 'x \<Rightarrow> 'w \<Rightarrow>
    (string + ('w \<times> cfield list) boot_state \<times> 'x) option" where
  "initServer envs fl oninit config x w =
     (let env = envs (cl_workDir fl); u = (case config of Some fs \<Rightarrow> fs | None \<Rightarrow> bo_zero env) in
      NewServer (lift_env env)
        \<lparr>ch_OnInit = Some (cli_OnInit fl (map_option lift_hook oninit)), ch_OnServe = None, ch_OnShutdown = None\<rparr>
        (Some (cfg_ptr u)) x (w, u))"

text \<open>\<open>--set key=value\<close>, and the arguments by their position.\<close>

definition cli_vars :: "string list \<Rightarrow> string list \<Rightarrow> string \<Rightarrow> string option" where
  "cli_vars sets args =
     fold (\<lambda>(i, v) m. m(itoa (int i) \<mapsto> v)) (List.enumerate 0 args)
       (fold (\<lambda>v m. case index_of CHR ''='' v of
                Some i \<Rightarrow> if i > 0 then m(take i v \<mapsto> drop (Suc i) v) else m
              | None \<Rightarrow> m) sets Map.empty)"

text \<open>\<open>CLIServer\<close>, on the configuration of the server that \<open>initServer\<close> returned.\<close>

definition cli_config :: "cli_flags \<Rightarrow> cfield list \<Rightarrow> cfield list" where
  "cli_config fl fs =
     (let fs1 = (if cl_debug fl then cfg_put [''Debug''] (CVal (Some ''true'')) fs else fs) in
      if cl_allow_migrate fl \<and> (case cfg_get [''SQL'', ''AllowMigrate''] fs1 of Some (CPtr _ None) \<Rightarrow> True | _ \<Rightarrow> False)
      then cfg_put [''SQL'', ''AllowMigrate''] (CPtr (CVal None) (Some (CVal (Some ''true'')))) fs1 else fs1)"

definition CLIServer ::
  "(string \<Rightarrow> ('x, 'w) boot_env) \<Rightarrow> cli_flags \<Rightarrow> string list \<Rightarrow> 'w hook option \<Rightarrow> cfield list option \<Rightarrow> 'x \<Rightarrow> 'w \<Rightarrow>
    (string + ('w \<times> cfield list) boot_state \<times> 'x \<times> (string \<Rightarrow> string option)) option" where
  "CLIServer envs fl args oninit config x w =
     map_option (map_sum id (\<lambda>(st, x'). (st\<lparr>bs_config := cli_config fl (bs_config st)\<rparr>, x', cli_vars (cl_set fl) args)))
       (initServer envs fl oninit config x w)"

text \<open>The commands of \<open>NewCLI\<close>: those of the framework that are not disabled, then those of the extensions.\<close>

definition builtin_commands :: "(string \<times> string) list" where
  "builtin_commands =
     [(''serve'', ''serve''), (''run'', ''run''), (''proxyvisor-plugin'', ''plugin-start''), (''openapi'', ''openapi''),
      (''route'', ''route''), (''mcp'', ''mcp''), (''version'', ''version''), (''sqlschema'', ''sqlschema''),
      (''keygen'', ''keygen''), (''encrypt'', ''encrypt'')]"

definition cli_commands :: "string list \<Rightarrow> string list \<Rightarrow> string list" where
  "cli_commands disabled ext_commands =
     map snd (filter (\<lambda>c. fst c \<notin> set disabled) builtin_commands) @ ext_commands"

subsection \<open>\<open>sqlschema\<close>\<close>

text \<open>The schema of an extension for a driver, when it has one; the lines of the command. \<open>driver\<close> is the flag.\<close>

definition schema_text :: "string \<Rightarrow> 'w ext_hooks \<Rightarrow> string option" where
  "schema_text driver ext =
     (case eh_SQLSchema ext of None \<Rightarrow> None | Some sch \<Rightarrow> (let s = sch driver in if s = [] then None else Some s))"

definition schema_block :: "'w ext_hooks \<Rightarrow> string \<Rightarrow> string list" where
  "schema_block ext schema =
     [replicate 32 CHR ''-'', ''-- SQL schema: '' @ eh_name ext @ '' extension'', replicate 32 CHR ''-'', [], trim_space schema]"

definition cmd_sqlschema :: "('x, 'w) boot_env \<Rightarrow> cfield list \<Rightarrow> string \<Rightarrow> string list" where
  "cmd_sqlschema env fs driver =
     concat (map (\<lambda>ext. case schema_text (if driver = [] then cfg_str [''SQL'', ''Driver''] fs else driver) ext of
         None \<Rightarrow> [] | Some schema \<Rightarrow> schema_block ext schema) (server_exts env))"

text \<open>Without the flag it prints, in their order, the schemas that the start of the server executes.\<close>

lemma sqlschema_prints_the_migrations:
  assumes "bo_has_sql env fs" "migration_allowed fs"
  shows "map snd (schema_hooks env fs) =
      map (\<lambda>ext. map_option (bo_exec env) (schema_text (cfg_str [''SQL'', ''Driver''] fs) ext)) (server_exts env)"
    and "cmd_sqlschema env fs [] =
      concat (map (\<lambda>ext. case schema_text (cfg_str [''SQL'', ''Driver''] fs) ext of
         None \<Rightarrow> [] | Some schema \<Rightarrow> schema_block ext schema) (server_exts env))"
  using assms by (auto simp: schema_hooks_def schema_hook_def schema_text_def cmd_sqlschema_def Let_def split: option.split)

subsection \<open>Flags that come too late\<close>

definition attach :: "'u \<Rightarrow> 'w boot_state \<Rightarrow> ('w \<times> 'u) boot_state" where
  "attach u st = \<lparr>bs_config = bs_config st, bs_world = (bs_world st, u)\<rparr>"

lemma attach_sel [simp]:
  "bs_config (attach u st) = bs_config st" "bs_world (attach u st) = (bs_world st, u)"
  by (simp_all add: attach_def)

lemma lift_hook_attach [simp]: "lift_hook h (attach u st) = (case h st of (e, st') \<Rightarrow> (e, attach u st'))"
  by (cases st) (simp add: lift_hook_def attach_def)

lemma run_hooks_attach:
  "run_hooks (map (apsnd (map_option lift_hook)) hs) (attach u st) = map_sum id (attach u) (run_hooks hs st)"
  by (induction hs st rule: run_hooks.induct) (auto split: option.splits prod.splits)

lemma lift_sources: "same_sources (lift_env env) env"
  by (simp add: lift_env_def same_sources_def)

lemma lift_exts: "server_exts (lift_env env) = map lift_ext (server_exts env)"
  by (simp add: server_exts_def lift_env_def)

lemma lift_schema_hook: "schema_hook (lift_env env) fs (lift_ext e) = apsnd (map_option lift_hook) (schema_hook env fs e)"
  by (simp add: schema_hook_def lift_ext_def lift_env_def Let_def split: option.splits)

lemma lift_has_sql: "bo_has_sql (lift_env env) = bo_has_sql env" "bo_setups (lift_env env) = bo_setups env"
  by (simp_all add: lift_env_def)

lemma lift_schema: "schema_hooks (lift_env env) fs = map (apsnd (map_option lift_hook)) (schema_hooks env fs)"
  by (simp add: schema_hooks_def lift_exts lift_schema_hook lift_has_sql)

lemma lift_functions: "bo_functions (lift_env env) (w, v) = map lift_fn (bo_functions env w)"
  by (simp add: lift_env_def)

lemma attach_world: "(attach u st)\<lparr>bs_world := (bs_world st, v)\<rparr> = attach v st"
  by (simp add: attach_def)

lemma cli_OnInit_attach:
  "cli_OnInit fl (map_option lift_hook oninit) (attach u st) =
    (case oninit of None \<Rightarrow> (None, attach (flagged fl u) st)
     | Some h \<Rightarrow> (case h st of (e, st') \<Rightarrow> (e, attach (flagged fl u) st')))"
  by (auto simp: cli_OnInit_def attach_world split: option.splits)

lemma lift_fn_inits: "fn_inits (map lift_fn fns) = map (apsnd (map_option lift_hook)) (fn_inits fns)"
  by (simp add: lift_fn_def fn_inits_def)

lemma bind_res_map: "bind_res (map_sum id f r) k = bind_res r (\<lambda>x. k (f x))"
  by (cases r) simp_all

lemma map_bind_res: "map_sum id f (bind_res r k) = bind_res r (\<lambda>x. map_sum id f (k x))"
  by (cases r) simp_all

lemma lift_init_hooks:
  "init_hooks (lift_env env) \<lparr>ch_OnInit = Some (cli_OnInit fl (map_option lift_hook oninit)), ch_OnServe = None, ch_OnShutdown = None\<rparr>
     (attach u st) =
   map_sum id (attach (flagged fl u))
     (init_hooks env \<lparr>ch_OnInit = oninit, ch_OnServe = None, ch_OnShutdown = None\<rparr> st)"
proof -
  let ?l = "map (apsnd (map_option lift_hook))" and ?u = "flagged fl u"
  have one: "run_hooks [(''OnInit error: '', Some (cli_OnInit fl (map_option lift_hook oninit)))] (attach u st) =
      map_sum id (attach ?u) (run_hooks [(''OnInit error: '', oninit)] st)"
    by (auto simp: cli_OnInit_attach split: option.splits prod.splits)
  have two: "ext_inits (server_exts (lift_env env)) = ?l (ext_inits (server_exts env))"
    by (simp add: lift_exts lift_ext_def ext_inits_def)
  show ?thesis
    unfolding init_hooks_def cfg_hooks.simps one two bind_res_map run_hooks_attach lift_schema attach_sel lift_functions
      lift_fn_inits map_bind_res ..
qed

text \<open>The flags \<open>--bind\<close> and \<open>--config-dir\<close> are accepted and do nothing: they are written to the application's
  configuration object after the server has copied it and loaded its files, so the server that is
  started, its configuration included, is the one that is started without them. The only thing that
  differs is that object.\<close>

theorem bind_and_config_dir_are_ignored:
  shows "map_option (map_sum id (\<lambda>(st, x'). (bs_config st, fst (bs_world st), x'))) (initServer envs fl oninit config x w) =
    map_option (map_sum id (\<lambda>(st, x'). (bs_config st, bs_world st, x')))
      (NewServer (envs (cl_workDir fl)) \<lparr>ch_OnInit = oninit, ch_OnServe = None, ch_OnShutdown = None\<rparr>
        (Some (cfg_ptr (case config of Some fs \<Rightarrow> fs | None \<Rightarrow> bo_zero (envs (cl_workDir fl))))) x w)"
proof -
  let ?env = "envs (cl_workDir fl)"
  let ?u = "case config of Some fs \<Rightarrow> fs | None \<Rightarrow> bo_zero ?env"
  have at: "\<lparr>bs_config = fs, bs_world = (w, ?u)\<rparr> = attach ?u \<lparr>bs_config = fs, bs_world = w\<rparr>" for fs
    by (simp add: attach_def)
  show ?thesis
    unfolding initServer_def Let_def NewServer_def same_sources_load [OF lift_sources] lift_has_sql at lift_init_hooks
    by (cases "load_config ?env (Some (cfg_ptr ?u)) x") (auto simp: bind_res_def split: sum.splits)
qed

end
