(* ===== verification/Static_Files.thy ===== *)
theory Static_Files
  imports Http_Error
begin

section \<open>Static files\<close>

text \<open>
  \<open>serve_handle_fs.go\<close>: the handler for static files with its fallbacks, entity tags and ranges. The file
  system is the function \<open>Open\<close> of an \<open>fs.FS\<close>; MIME types, time formats and hexadecimal numbers are arguments. What is written is
  the response of \<open>Http_Error\<close>, or the error handed to fiber.
\<close>

text \<open>An open file: what \<open>Stat\<close> says (modification time in seconds and len), and what reading it gives.\<close>

record sfile =
  sf_stat :: "(int \<times> int) option"
  sf_bytes :: bytes

type_synonym file_system = "string \<Rightarrow> sfile option"

text \<open>\<open>fs.ValidPath\<close>, and the documented duty of every file system to refuse other paths.\<close>

definition valid_path :: "string \<Rightarrow> bool" where
  "valid_path name \<longleftrightarrow> name = ''.'' \<or> (\<forall>elem \<in> set (split_on CHR ''/'' name). elem \<noteq> [] \<and> elem \<noteq> ''.'' \<and> elem \<noteq> ''..'')"

definition refuses_invalid :: "file_system \<Rightarrow> bool" where
  "refuses_invalid files \<longleftrightarrow> (\<forall>name. \<not> valid_path name \<longrightarrow> files name = None)"

record spa =
  sp_files :: file_system
  sp_fallbacks :: "string list"
  sp_errorPath :: string
  sp_useStartAt :: bool
  sp_startAt :: int
  sp_mime :: "string \<Rightarrow> string"
  sp_httptime :: "int \<Rightarrow> string"
  sp_hex :: "int \<Rightarrow> string"
  sp_status :: "int \<Rightarrow> string"

subsection \<open>Opening\<close>

fun open_first :: "file_system \<Rightarrow> string list \<Rightarrow> sfile option" where
  "open_first files [] = None"
| "open_first files (fb # fbs) = (case files fb of Some f \<Rightarrow> Some f | None \<Rightarrow> open_first files fbs)"

definition spa_Open :: "spa \<Rightarrow> string \<Rightarrow> sfile option" where
  "spa_Open e name =
     (case sp_files e name of
        Some f \<Rightarrow> Some f
      | None \<Rightarrow>
          (case sp_files e (name @ ''.html'') of
             Some f \<Rightarrow> Some f
           | None \<Rightarrow> open_first (sp_files e) (sp_fallbacks e)))"

text \<open>\<open>filepath.Ext\<close>: from the last dot of the last path element.\<close>

definition file_ext :: "string \<Rightarrow> string" where
  "file_ext path =
     (let r = rev path; a = takeWhile (\<lambda>c. c \<noteq> CHR ''.'' \<and> c \<noteq> CHR ''/'') r in
      case drop (length a) r of
        c # _ \<Rightarrow> if c = CHR ''.'' then CHR ''.'' # rev a else []
      | [] \<Rightarrow> [])"

definition getExt :: "string \<Rightarrow> string" where
  "getExt path = (let ext = file_ext path in if ext \<noteq> [] then drop 1 ext else ''html'')"

subsection \<open>Ranges\<close>

text \<open>\<open>int64\<close> addition of one.\<close>

definition inc64 :: "int \<Rightarrow> int" where
  "inc64 i = (if i = 2 ^ 63 - 1 then - (2 ^ 63) else i + 1)"

definition range_bounds :: "int \<Rightarrow> int \<Rightarrow> int \<Rightarrow> string + int \<times> int" where
  "range_bounds len start stop =
     (if start \<ge> len \<or> start > stop then Inl ''range out of bounds''
      else Inr (start, if stop > len then len else stop))"

definition parseRange :: "string \<Rightarrow> int \<Rightarrow> string + int \<times> int" where
  "parseRange rng len =
     (if \<not> prefix ''bytes='' rng then Inl ''invalid range''
      else
        (case split_on CHR ''-'' (trim_prefix ''bytes='' rng) of
           [a, b] \<Rightarrow>
             if a = [] then
               (case atoi b of
                  None \<Rightarrow> Inl ''invalid syntax''
                | Some ofs \<Rightarrow> Inr (len - (if ofs > len then len else ofs), len))
             else
               (case atoi a of
                  None \<Rightarrow> Inl ''invalid syntax''
                | Some start \<Rightarrow>
                    if b = [] then range_bounds len start len
                    else
                      (case atoi b of
                         None \<Rightarrow> Inl ''invalid syntax''
                       | Some last_pos \<Rightarrow> range_bounds len start (inc64 last_pos)))
         | _ \<Rightarrow> Inl ''invalid range format''))"

subsection \<open>Serving\<close>

datatype fiber_error = ErrNotFound | ErrInternalServerError

definition modTime :: "spa \<Rightarrow> int \<Rightarrow> sfile \<Rightarrow> int" where
  "modTime e now f = (if sp_useStartAt e then sp_startAt e else case sf_stat f of None \<Rightarrow> now | Some (m, _) \<Rightarrow> m)"

definition etag :: "spa \<Rightarrow> int \<Rightarrow> int \<Rightarrow> string" where
  "etag e m len = ''W/'' @ [CHR 0x22] @ sp_hex e m @ ''-'' @ sp_hex e len @ [CHR 0x22]"

text \<open>\<open>hdr\<close> gives the headers of the request. The file is sent as a stream with an explicit length.\<close>

definition serveFile ::
  "spa \<Rightarrow> int \<Rightarrow> (string \<Rightarrow> string) \<Rightarrow> sfile \<Rightarrow> string \<Rightarrow> response \<Rightarrow> fiber_error + response" where
  "serveFile e now hdr f name r =
     (case sf_stat f of
        None \<Rightarrow> Inl ErrInternalServerError
      | Some (_, len) \<Rightarrow>
          let m = modTime e now f; tag = etag e m len;
              r1 = fiber_Set ''ETag'' tag (fiber_Set ''Last-Modified'' (sp_httptime e m)
                     (fiber_Set ''Cache-Control'' ''public, max-age=3600''
                       (fiber_Set ''Content-Type'' (sp_mime e (getExt name)) r)))
          in
          if hdr ''If-None-Match'' \<noteq> [] \<and> hdr ''If-None-Match'' = tag
          then Inr (fiber_Send (RawBytes (sp_status e 304)) (fiber_Status 304 r1))
          else if hdr ''Range'' \<noteq> [] then
            (case parseRange (hdr ''Range'') len of
               Inl _ \<Rightarrow> Inr (fiber_Send (RawBytes ''Invalid Range'') (fiber_Status 416 r1))
             | Inr (start, stop) \<Rightarrow>
                 Inr (fiber_Send (RawBytes (take (nat (stop - start)) (drop (nat start) (sf_bytes f))))
                   (fiber_Set ''Content-Length'' (itoa (stop - start))
                     (fiber_Set ''Content-Range'' (''bytes '' @ itoa start @ ''-'' @ itoa (stop - 1) @ ''/'' @ itoa len)
                       (fiber_Status 206 r1)))))
          else Inr (fiber_Send (RawBytes (sf_bytes f)) (fiber_Set ''Content-Length'' (itoa len) r1)))"

definition spa_Handler :: "spa \<Rightarrow> int \<Rightarrow> (string \<Rightarrow> string) \<Rightarrow> string \<Rightarrow> response \<Rightarrow> fiber_error + response" where
  "spa_Handler e now hdr name r =
     (case spa_Open e name of
        Some f \<Rightarrow> serveFile e now hdr f name r
      | None \<Rightarrow>
          if sp_errorPath e \<noteq> [] then
            (case spa_Open e (sp_errorPath e) of
               Some f \<Rightarrow> serveFile e now hdr f name r
             | None \<Rightarrow> Inl ErrNotFound)
          else Inl ErrNotFound)"

subsection \<open>Which files are served\<close>

lemma rooted_invalid: "\<not> valid_path (CHR ''/'' # p)"
  by (simp add: valid_path_def)

lemma rooted_refused: "refuses_invalid files \<Longrightarrow> files (CHR ''/'' # p) = None"
  using rooted_invalid by (simp add: refuses_invalid_def)

lemma spa_Open_rooted:
  "refuses_invalid (sp_files e) \<Longrightarrow> spa_Open e (CHR ''/'' # p) = open_first (sp_files e) (sp_fallbacks e)"
  by (simp add: spa_Open_def rooted_refused)

lemma open_first_agree: "\<forall>fb \<in> set fbs. files fb = files' fb \<Longrightarrow> open_first files fbs = open_first files' fbs"
  by (induction fbs) (auto split: option.splits)

text \<open>The first of some names that exists.\<close>

lemma open_first_filter:
  "open_first files ns = (case filter (\<lambda>n. files n \<noteq> None) ns of [] \<Rightarrow> None | n # _ \<Rightarrow> files n)"
  by (induction ns) (auto split: option.split)

text \<open>C33. The path of a request starts with a slash, and a file system opens no path that does (\<open>fs.ValidPath\<close>): so the handler never serves
  the file that was asked for, and replacing the file system by any other that has the same files under the names of the fallbacks, the error
  path and the error path with \<open>.html\<close> changes no answer. The answer is the first fallback that exists; if there is none and an
  error path is set, the file of the error path or, failing that, of the error path with \<open>.html\<close>; and otherwise \<open>ErrNotFound\<close>.
  Either file is served by \<open>serveFile\<close> under the name that was asked for, which decides its MIME type; the error page with
  the status of a file that was found.\<close>

theorem static_files_are_never_found:
  assumes "refuses_invalid (sp_files e)" "refuses_invalid files'"
    and "\<forall>n \<in> set (sp_fallbacks e) \<union> {sp_errorPath e, sp_errorPath e @ ''.html''}. files' n = sp_files e n"
  shows "spa_Handler (e\<lparr>sp_files := files'\<rparr>) now hdr (CHR ''/'' # p) r = spa_Handler e now hdr (CHR ''/'' # p) r \<and>
    (let fallbacks = filter (\<lambda>n. sp_files e n \<noteq> None) (sp_fallbacks e);
         pages = filter (\<lambda>n. sp_files e n \<noteq> None) [sp_errorPath e, sp_errorPath e @ ''.html'']
     in spa_Handler e now hdr (CHR ''/'' # p) r =
          (if fallbacks \<noteq> [] then serveFile e now hdr (the (sp_files e (hd fallbacks))) (CHR ''/'' # p) r
           else if sp_errorPath e \<noteq> [] \<and> pages \<noteq> [] then serveFile e now hdr (the (sp_files e (hd pages))) (CHR ''/'' # p) r
           else Inl ErrNotFound))"
proof -
  have o: "open_first files' (sp_fallbacks e) = open_first (sp_files e) (sp_fallbacks e)"
    by (rule open_first_agree) (use assms(3) in auto)
  have serve: "serveFile (e\<lparr>sp_files := files'\<rparr>) = serveFile e"
  proof -
    have "sp_mime (e\<lparr>sp_files := files'\<rparr>) = sp_mime e" "sp_httptime (e\<lparr>sp_files := files'\<rparr>) = sp_httptime e"
      "sp_hex (e\<lparr>sp_files := files'\<rparr>) = sp_hex e" "sp_status (e\<lparr>sp_files := files'\<rparr>) = sp_status e"
      "sp_useStartAt (e\<lparr>sp_files := files'\<rparr>) = sp_useStartAt e" "sp_startAt (e\<lparr>sp_files := files'\<rparr>) = sp_startAt e"
      by simp_all
    then show ?thesis by (intro ext) (simp only: serveFile_def modTime_def etag_def)
  qed
  have err: "spa_Open (e\<lparr>sp_files := files'\<rparr>) (sp_errorPath e) = spa_Open e (sp_errorPath e)"
    using assms(3) o by (auto simp: spa_Open_def split: option.splits)
  have same: "spa_Handler (e\<lparr>sp_files := files'\<rparr>) now hdr (CHR ''/'' # p) r = spa_Handler e now hdr (CHR ''/'' # p) r"
    using assms(1,2) by (auto simp: spa_Handler_def spa_Open_rooted o serve err split: option.splits)
  let ?fbs = "filter (\<lambda>n. sp_files e n \<noteq> None) (sp_fallbacks e)"
  have found: "n # ns = ?fbs \<Longrightarrow> sp_files e n \<noteq> None" for n ns
    using Cons_eq_filterD by fastforce
  have rooted: "spa_Open e (CHR ''/'' # p) = (case ?fbs of [] \<Rightarrow> None | n # _ \<Rightarrow> sp_files e n)"
    using assms(1) by (simp add: spa_Open_rooted open_first_filter)
  let ?pages = "filter (\<lambda>n. sp_files e n \<noteq> None) [sp_errorPath e, sp_errorPath e @ ''.html'']"
  have page: "?fbs = [] \<Longrightarrow> spa_Open e (sp_errorPath e) = (case ?pages of [] \<Rightarrow> None | n # _ \<Rightarrow> sp_files e n)"
    by (auto simp: spa_Open_def open_first_filter split: option.split)
  have found': "n # ns = ?pages \<Longrightarrow> sp_files e n \<noteq> None" for n ns
    using Cons_eq_filterD by fastforce
  have "spa_Handler e now hdr (CHR ''/'' # p) r =
          (if ?fbs \<noteq> [] then serveFile e now hdr (the (sp_files e (hd ?fbs))) (CHR ''/'' # p) r
           else if sp_errorPath e \<noteq> [] \<and> ?pages \<noteq> [] then serveFile e now hdr (the (sp_files e (hd ?pages))) (CHR ''/'' # p) r
           else Inl ErrNotFound)"
  proof (cases ?fbs)
    case (Cons n ns)
    then obtain f where "sp_files e n = Some f" using found [of n ns] by auto
    then show ?thesis unfolding spa_Handler_def rooted Cons by simp
  next
    case Nil
    note open_page = page [OF Nil]
    show ?thesis
    proof (cases ?pages)
      case (Cons n ns)
      then obtain f where "sp_files e n = Some f" using found' [of n ns] by auto
      then show ?thesis unfolding spa_Handler_def rooted Nil open_page Cons by simp
    next
      case no_page: Nil
      show ?thesis unfolding spa_Handler_def rooted Nil open_page no_page by simp
    qed
  qed
  then show ?thesis using same unfolding Let_def by blast
qed

definition text_spa :: spa where
  "text_spa = \<lparr>sp_files = (\<lambda>n. if n = ''app.js'' then Some \<lparr>sf_stat = Some (0, 2), sf_bytes = ''js''\<rparr>
       else if n = ''index.html'' then Some \<lparr>sf_stat = Some (0, 4), sf_bytes = ''page''\<rparr> else None),
     sp_fallbacks = [''index.html''], sp_errorPath = [], sp_useStartAt = False, sp_startAt = 0, sp_mime = id,
     sp_httptime = (\<lambda>_. ''t''), sp_hex = itoa, sp_status = itoa\<rparr>"

lemma text_spa_refuses: "refuses_invalid (sp_files text_spa)"
proof -
  have "valid_path ''app.js''" "valid_path ''index.html''" by code_simp+
  then show ?thesis by (auto simp: refuses_invalid_def text_spa_def)
qed

text \<open>The same with an error page and no fallback.\<close>

theorem static_files_are_never_found_witness:
  "(\<exists>r. spa_Handler (text_spa\<lparr>sp_fallbacks := [], sp_errorPath := ''index''\<rparr>) 0 (\<lambda>_. []) ''/app.js'' new_response = Inr r \<and>
     rp_body r = [RawBytes ''page'']) \<and>
   (\<exists>r. spa_Handler text_spa 0 (\<lambda>_. []) ''/app.js'' new_response = Inr r \<and> rp_body r = [RawBytes ''page''])"
proof -
  let ?page = "text_spa\<lparr>sp_fallbacks := [], sp_errorPath := ''index''\<rparr>"
  have "refuses_invalid (sp_files ?page)" using text_spa_refuses by simp
  note page = static_files_are_never_found [OF this this, of 0 "\<lambda>_. []" "''app.js''" new_response, THEN conjunct2]
  have "spa_Handler ?page 0 (\<lambda>_. []) ''/app.js'' new_response =
      serveFile ?page 0 (\<lambda>_. []) \<lparr>sf_stat = Some (0, 4), sf_bytes = ''page''\<rparr> ''/app.js'' new_response"
    by (subst page [unfolded Let_def]) (simp_all add: text_spa_def)
  moreover have "spa_Handler text_spa 0 (\<lambda>_. []) ''/app.js'' new_response =
      serveFile text_spa 0 (\<lambda>_. []) \<lparr>sf_stat = Some (0, 4), sf_bytes = ''page''\<rparr> ''/app.js'' new_response"
    by (subst static_files_are_never_found [OF text_spa_refuses text_spa_refuses, of 0 "\<lambda>_. []" "''app.js''" new_response,
        THEN conjunct2, unfolded Let_def]) (simp_all add: text_spa_def)
  ultimately show ?thesis by (simp add: serveFile_def Let_def fiber_Send_def)
qed

subsection \<open>Ranges are inside the file\<close>

lemma range_number_nonneg: "digits_val acc s = Some v \<Longrightarrow> 0 \<le> acc \<Longrightarrow> 0 \<le> v"
  by (induction s arbitrary: acc) (auto simp: is_digit_def split: if_splits)

lemma atoi_no_minus: "CHR ''-'' \<notin> set s \<Longrightarrow> atoi s = Some i \<Longrightarrow> 0 \<le> i \<and> i < 2 ^ 63"
  by (cases s)
    (auto simp: atoi_def Let_def in_int64_def is_digit_def split: if_splits option.splits dest: range_number_nonneg)

lemma split_two: "split_on c s = [a, b] \<Longrightarrow> c \<notin> set a \<and> c \<notin> set b"
  using split_on_no_sep_elem [of _ c s] by fastforce

lemma parseRange_inside:
  assumes "parseRange rng len = Inr (s, e)" "0 \<le> len"
  shows "0 \<le> s \<and> s \<le> e \<and> e \<le> len"
proof -
  obtain x y where xy: "split_on CHR ''-'' (trim_prefix ''bytes='' rng) = [x, y]"
    using assms(1) by (auto simp: parseRange_def split: if_splits list.splits)
  note n = atoi_no_minus [OF split_two [OF xy, THEN conjunct1]] atoi_no_minus [OF split_two [OF xy, THEN conjunct2]]
  show ?thesis
    using assms n by (auto simp: parseRange_def xy range_bounds_def split: if_splits option.splits)
qed

lemma itoa_no_minus: "0 \<le> i \<Longrightarrow> CHR ''-'' \<notin> set (itoa i)"
  using digit_not_sign nat_digits_digits by (fastforce simp: itoa_def)

lemma trim_bytes: "trim_prefix ''bytes='' (''bytes='' @ x) = x"
  by (simp add: trim_prefix_def)

lemma parseRange_parts:
  assumes "CHR ''-'' \<notin> set a" "CHR ''-'' \<notin> set b"
  shows "parseRange (''bytes='' @ a @ ''-'' @ b) len =
     (if a = [] then
        (case atoi b of
           None \<Rightarrow> Inl ''invalid syntax''
         | Some ofs \<Rightarrow> Inr (len - (if ofs > len then len else ofs), len))
      else
        (case atoi a of
           None \<Rightarrow> Inl ''invalid syntax''
         | Some start \<Rightarrow>
             if b = [] then range_bounds len start len
             else
               (case atoi b of
                  None \<Rightarrow> Inl ''invalid syntax''
                | Some last_pos \<Rightarrow> range_bounds len start (inc64 last_pos))))"
proof -
  have "split_on CHR ''-'' (a @ ''-'' @ b) = [a, b]"
    using assms by (simp add: split_on_sep split_on_no_sep)
  then show ?thesis unfolding parseRange_def trim_bytes by simp
qed

text \<open>A range that is accepted lies inside the file, whatever the header says, numbers beyond 64 bits and the largest
  one, which wraps around, included; and a well-formed range means what it should: \<open>a-b\<close> is the bytes \<open>a\<close> to \<open>b\<close> cut
  at the end of the file, \<open>a-\<close> all from \<open>a\<close> on, \<open>-n\<close> the last \<open>n\<close>. (A range that is empty, \<open>-0\<close> or \<open>a-(a-1)\<close>, is
  accepted too and answered with an upper bound below the lower one.)\<close>

theorem range_is_inside:
  assumes "0 \<le> len"
  shows "(parseRange rng len = Inr (s, e) \<longrightarrow> 0 \<le> s \<and> s \<le> e \<and> e \<le> len) \<and>
    (0 \<le> a \<and> a \<le> b \<and> b < 2 ^ 63 - 1 \<longrightarrow>
       parseRange (''bytes='' @ itoa a @ ''-'' @ itoa b) len =
         (if a < len then Inr (a, min (b + 1) len) else Inl ''range out of bounds'')) \<and>
    (0 \<le> a \<and> a < 2 ^ 63 \<longrightarrow>
       parseRange (''bytes='' @ itoa a @ ''-'') len = (if a < len then Inr (a, len) else Inl ''range out of bounds'') \<and>
       parseRange (''bytes=-'' @ itoa a) len = Inr (len - min a len, len)) \<and>
    parseRange ''bytes=-0'' len = Inr (len, len)"
proof -
  have ab: "parseRange (''bytes='' @ itoa a @ ''-'' @ itoa b) len =
      (if a < len then Inr (a, min (b + 1) len) else Inl ''range out of bounds'')"
    if "0 \<le> a \<and> a \<le> b \<and> b < 2 ^ 63 - 1"
    using that parseRange_parts [of "itoa a" "itoa b" len] itoa_no_minus
    by (auto simp: atoi_itoa in_int64_def range_bounds_def inc64_def)
  have a: "parseRange (''bytes='' @ itoa a @ ''-'') len = (if a < len then Inr (a, len) else Inl ''range out of bounds'')"
    "parseRange (''bytes=-'' @ itoa a) len = Inr (len - min a len, len)" if "0 \<le> a \<and> a < 2 ^ 63" for a
    using that parseRange_parts [of "itoa a" "[]" len] parseRange_parts [of "[]" "itoa a" len] itoa_no_minus
    by (auto simp: atoi_itoa in_int64_def range_bounds_def min_def)
  have "itoa 0 = ''0''" by code_simp
  then have "parseRange ''bytes=-0'' len = Inr (len, len)"
    using a(2) [of 0] assms by simp
  then show ?thesis using parseRange_inside [OF _ assms] ab a by blast
qed

theorem range_is_inside_witness:
  "parseRange ''bytes=2-9'' 5 = Inr (2, 5) \<and> parseRange ''bytes=-3'' 5 = Inr (2, 5)"
proof -
  have "itoa 2 = ''2''" "itoa 9 = ''9''" "itoa 3 = ''3''" by code_simp+
  then show ?thesis
    using range_is_inside [of 5 _ _ _ 2 9] range_is_inside [of 5 _ _ _ 3 9] by simp
qed

end
