(* ===== verification/File_Jobs.thy ===== *)
theory File_Jobs
  imports Http_Error
begin

section \<open>File jobs\<close>

text \<open>
  \<open>typedhandler_file.go\<close>: \<open>NewFileJob\<close> runs a handler on every file below a path, looking into \<open>zip\<close>, \<open>tar\<close>, \<open>gzip\<close> and
  compressed tar files. \<open>jobhandler\<close> is the body shared by its two jobs; nested entries are calls of the \<open>stream\<close> job,
  which is cached by its input, and the only part of the input that is kept is the path. The archive libraries, the
  file system and the JSON of outputs and errors are arguments; the database is taken to store what it is given, and the handler not to ask for
  an abort. An error is an interface value: it can be nil, hold a nil \<open>*MapError\<close>, or hold an error.
\<close>

datatype ferr = MapErr "(string \<times> ferr iface) list" | GoErr string

type_synonym stream = "bytes \<times> string option"

subsection \<open>Collecting results\<close>

text \<open>\<open>ueResult\<close>: the map and the pointer start as nil.\<close>

record 'u ueResult =
  ur_res :: "(string \<times> 'u) list"
  ur_err :: "(string \<times> ferr iface) list option"

definition new_result :: "'u ueResult" where
  "new_result = \<lparr>ur_res = [], ur_err = None\<rparr>"

definition put_err :: "string \<Rightarrow> ferr iface \<Rightarrow> 'u ueResult \<Rightarrow> 'u ueResult" where
  "put_err path e u =
     u\<lparr>ur_err := Some (AList.update path e (case ur_err u of None \<Rightarrow> [] | Some es \<Rightarrow> es))\<rparr>"

text \<open>\<open>errors.As\<close> finds a \<open>*MapError\<close>, which may be nil; only one that is not nil is taken apart.\<close>

definition Collect_results :: "string \<Rightarrow> (string \<times> 'u) list \<Rightarrow> ferr iface \<Rightarrow> 'u ueResult \<Rightarrow> 'u ueResult" where
  "Collect_results path umap err u =
     (let u1 =
        (case err of
           NilIface \<Rightarrow> u
         | Is (MapErr es) \<Rightarrow>
             u\<lparr>ur_err := Some (fold (\<lambda>(k, v). AList.update k v) es (case ur_err u of None \<Rightarrow> [] | Some xs \<Rightarrow> xs))\<rparr>
         | e \<Rightarrow> put_err path e u)
      in u1\<lparr>ur_res := fold (\<lambda>(k, v). AList.update k v) umap (ur_res u1)\<rparr>)"

definition CollectOne :: "string \<Rightarrow> 'u \<Rightarrow> ferr iface \<Rightarrow> 'u ueResult \<Rightarrow> 'u ueResult" where
  "CollectOne path uone err u =
     (let u1 = (case err of NilIface \<Rightarrow> u | e \<Rightarrow> put_err path e u) in
      u1\<lparr>ur_res := AList.update path uone (ur_res u1)\<rparr>)"

text \<open>\<open>return u.res, u.err\<close>: the pointer becomes an interface, which is not nil even when the pointer is.\<close>

definition Result_of :: "'u ueResult \<Rightarrow> (string \<times> 'u) list \<times> ferr iface" where
  "Result_of u = (ur_res u, case ur_err u of None \<Rightarrow> NilPtr | Some es \<Rightarrow> Is (MapErr es))"

subsection \<open>Names\<close>

definition isTarPath :: "string \<Rightarrow> bool" where
  "isTarPath path \<longleftrightarrow> suffix ''.tar'' path"

definition isGzipPath :: "string \<Rightarrow> bool" where
  "isGzipPath path \<longleftrightarrow> suffix ''.gz'' path \<or> suffix ''.gzip'' path"

definition isTarGzipPath :: "string \<Rightarrow> bool" where
  "isTarGzipPath path \<longleftrightarrow> suffix ''.tar.gz'' path \<or> suffix ''.tgz'' path \<or> suffix ''.tar.gzip'' path"

definition stripGzipSuffix :: "string \<Rightarrow> string" where
  "stripGzipSuffix path =
     (if suffix ''.tar.gz'' path then trim_suffix ''.gz'' path
      else if suffix ''.tar.gzip'' path then trim_suffix ''.gzip'' path
      else if suffix ''.tgz'' path then trim_suffix ''.tgz'' path @ ''.tar''
      else if suffix ''.gzip'' path then trim_suffix ''.gzip'' path
      else if suffix ''.gz'' path then trim_suffix ''.gz'' path
      else path)"

subsection \<open>The handler\<close>

text \<open>
  Archives: the entries that are no directories, and the error the reader stopped with. \<open>fi_marshal\<close>, \<open>fi_unmarshal\<close> and
  \<open>fi_err_json\<close> are the JSON of an output map and of a (normalised) error.
\<close>

record 'u file_lib =
  fi_open :: "string \<Rightarrow> string + stream"
  fi_zip :: "string \<Rightarrow> string + (string \<times> (string + stream)) list"
  fi_gunzip :: "stream \<Rightarrow> string + stream"
  fi_tar :: "stream \<Rightarrow> (string \<times> stream) list \<times> string option"
  fi_zero :: 'u
  fi_marshal :: "(string \<times> 'u) list \<Rightarrow> string + bytes"
  fi_unmarshal :: "bytes \<Rightarrow> string + (string \<times> 'u) list"
  fi_err_json :: "ferr \<Rightarrow> string + bytes"
  fi_handler :: "string \<Rightarrow> stream \<Rightarrow> 'u \<times> ferr iface"

type_synonym 'u file_out = "(string \<times> 'u) list \<times> ferr iface"

text \<open>What is stored for a path: the JSON of an error or of an output.\<close>

type_synonym file_cache = "(string \<times> (bytes + bytes)) list"

text \<open>
  The call of the cached job: \<open>run\<close> is its body. An output is stored as JSON when the error is really nil, the JSON of the error
  otherwise, and nothing when it does not encode. What is stored is read back; if that fails the body runs. The error type is the
  interface \<open>error\<close>, into which \<open>json.Unmarshal\<close> takes nothing but \<open>null\<close>: a stored error never is a hit.
\<close>

definition stored_out :: "'u file_lib \<Rightarrow> 'u file_out \<Rightarrow> string + (bytes + bytes)" where
  "stored_out lib out =
     (case snd out of Is e \<Rightarrow> map_sum id Inl (fi_err_json lib e) | _ \<Rightarrow> map_sum id Inr (fi_marshal lib (fst out)))"

definition read_out :: "'u file_lib \<Rightarrow> bytes + bytes \<Rightarrow> 'u file_out option" where
  "read_out lib entry =
     (case entry of
        Inr outjson \<Rightarrow> (case fi_unmarshal lib outjson of Inl _ \<Rightarrow> None | Inr m \<Rightarrow> Some (m, NilIface))
      | Inl errjson \<Rightarrow> if errjson = ''null'' then Some ([], NilIface) else None)"

definition call_sjob ::
  "'u file_lib \<Rightarrow> (string \<Rightarrow> stream option \<Rightarrow> file_cache \<Rightarrow> ('u file_out \<times> file_cache) option) \<Rightarrow>
    string \<Rightarrow> stream \<Rightarrow> file_cache \<Rightarrow> ('u file_out \<times> file_cache) option" where
  "call_sjob lib run path src st =
     (case Option.bind (map_of st path) (read_out lib) of
        Some out \<Rightarrow> Some (out, st)
      | None \<Rightarrow>
          (case run path (Some src) st of
             None \<Rightarrow> None
           | Some (out, st') \<Rightarrow>
               Some (out, case stored_out lib out of Inl _ \<Rightarrow> st' | Inr entry \<Rightarrow> AList.update path entry st')))"

definition entry_path :: "string \<Rightarrow> string \<Rightarrow> string" where
  "entry_path path name = path @ ''!'' @ name"

lemma entry_path_inject [simp]: "entry_path path a = entry_path path b \<longleftrightarrow> a = b"
  by (simp add: entry_path_def)

fun run_entries ::
  "'u file_lib \<Rightarrow> (string \<Rightarrow> stream option \<Rightarrow> file_cache \<Rightarrow> ('u file_out \<times> file_cache) option) \<Rightarrow>
    string \<Rightarrow> (string \<times> (string + stream)) list \<Rightarrow> 'u ueResult \<Rightarrow> file_cache \<Rightarrow>
    ('u ueResult \<times> file_cache) option" where
  "run_entries lib run path [] u st = Some (u, st)"
| "run_entries lib run path ((name, entry) # es) u st =
     (let p = entry_path path name in
      case entry of
        Inl e \<Rightarrow> run_entries lib run path es (CollectOne p (fi_zero lib) (Is (GoErr e)) u) st
      | Inr src \<Rightarrow>
          (case call_sjob lib run p src st of
             None \<Rightarrow> None
           | Some ((m, e), st') \<Rightarrow> run_entries lib run path es (Collect_results p m e u) st'))"

definition run_tar ::
  "'u file_lib \<Rightarrow> (string \<Rightarrow> stream option \<Rightarrow> file_cache \<Rightarrow> ('u file_out \<times> file_cache) option) \<Rightarrow>
    string \<Rightarrow> stream \<Rightarrow> file_cache \<Rightarrow> ('u file_out \<times> file_cache) option" where
  "run_tar lib run path src st =
     (case fi_tar lib src of
        (entries, err) \<Rightarrow>
          (case run_entries lib run path (map (apsnd Inr) entries) new_result st of
             None \<Rightarrow> None
           | Some (u, st') \<Rightarrow>
               Some (Result_of (case err of None \<Rightarrow> u | Some e \<Rightarrow> CollectOne path (fi_zero lib) (Is (GoErr e)) u), st')))"

text \<open>The body of \<open>jobhandler\<close>: \<open>run\<close> is the handler that the nested \<open>stream\<close> job calls.\<close>

definition jobhandler_body ::
  "'u file_lib \<Rightarrow> (string \<Rightarrow> stream option \<Rightarrow> file_cache \<Rightarrow> ('u file_out \<times> file_cache) option) \<Rightarrow>
    string \<Rightarrow> stream option \<Rightarrow> file_cache \<Rightarrow> ('u file_out \<times> file_cache) option" where
  "jobhandler_body lib run path reader st =
     (if suffix ''.zip'' path then
        (if reader \<noteq> None then Some (([], Is (GoErr (''zip from io.Reader is not supported: '' @ path))), st)
         else
           (case fi_zip lib path of
              Inl e \<Rightarrow> Some (([], Is (GoErr e)), st)
            | Inr entries \<Rightarrow>
                map_option (apfst Result_of) (run_entries lib run path entries new_result st)))
      else
        (case (case reader of Some r \<Rightarrow> Inr r | None \<Rightarrow> fi_open lib path) of
           Inl e \<Rightarrow> Some (([], Is (GoErr e)), st)
         | Inr source \<Rightarrow>
             if isTarGzipPath path then
               (case fi_gunzip lib source of
                  Inl e \<Rightarrow> Some (([], Is (GoErr e)), st)
                | Inr g \<Rightarrow> run_tar lib run path g st)
             else if isTarPath path then run_tar lib run path source st
             else if isGzipPath path then
               (case fi_gunzip lib source of
                  Inl e \<Rightarrow> Some (([], Is (GoErr e)), st)
                | Inr g \<Rightarrow>
                    let inner = stripGzipSuffix path in
                    (case call_sjob lib run inner g st of
                       None \<Rightarrow> None
                     | Some ((m, e), st') \<Rightarrow> Some (Result_of (Collect_results inner m e new_result), st')))
             else
               (case fi_handler lib path source of
                  (res, err) \<Rightarrow> Some (Result_of (CollectOne path res err new_result), st))))"

text \<open>\<open>jobhandler\<close>, with a bound on the nesting of archives: \<open>None\<close> when it does not suffice. The code has no bound.\<close>

primrec jobhandler ::
  "nat \<Rightarrow> 'u file_lib \<Rightarrow> string \<Rightarrow> stream option \<Rightarrow> file_cache \<Rightarrow> ('u file_out \<times> file_cache) option" where
  "jobhandler 0 lib = (\<lambda>path reader st. None)"
| "jobhandler (Suc n) lib = jobhandler_body lib (jobhandler n lib)"

text \<open>
  The function itself walks a directory and calls the dispatch job on each file; \<open>visits\<close> is what
  \<open>filepath.WalkDir\<close> reports (an error, a directory or a file), \<open>walkErr\<close> its own error.
\<close>

datatype visit_entry = WalkFailed string | WalkDir | WalkFile

definition walk_files ::
  "'u file_lib \<Rightarrow> (string \<Rightarrow> 's \<Rightarrow> 'u file_out \<times> 's) \<Rightarrow> string \<Rightarrow> (string \<times> visit_entry) list \<Rightarrow> string option \<Rightarrow> 's \<Rightarrow>
    'u file_out \<times> 's" where
  "walk_files lib djob path visits walkErr st =
     (case fold (\<lambda>(p, d) (u, s).
              (case d of
                 WalkFailed e \<Rightarrow> (CollectOne p (fi_zero lib) (Is (GoErr e)) u, s)
               | WalkDir \<Rightarrow> (u, s)
               | WalkFile \<Rightarrow> (case djob p s of ((m, e), s') \<Rightarrow> (Collect_results p m e u, s')))) visits (new_result, st) of
        (u, s) \<Rightarrow>
          (Result_of (case walkErr of None \<Rightarrow> u | Some e \<Rightarrow> CollectOne path (fi_zero lib) (Is (GoErr e)) u), s))"

subsection \<open>Plain entries\<close>

definition plain_name :: "string \<Rightarrow> bool" where
  "plain_name path \<longleftrightarrow> \<not> suffix ''.zip'' path \<and> \<not> isTarGzipPath path \<and> \<not> isTarPath path \<and> \<not> isGzipPath path"

lemma jobhandler_plain:
  "plain_name path \<Longrightarrow> fi_handler lib path src = (v, NilIface) \<Longrightarrow>
    jobhandler (Suc n) lib path (Some src) st = Some (([(path, v)], NilPtr), st)"
  by (simp add: jobhandler_body_def plain_name_def CollectOne_def Result_of_def new_result_def)

text \<open>An archive of plain files, all handled without error and with outputs that survive JSON.\<close>

definition good_entries :: "'u file_lib \<Rightarrow> string \<Rightarrow> (string \<times> stream) list \<Rightarrow> bool" where
  "good_entries lib path es \<longleftrightarrow>
     distinct (map fst es) \<and>
     (\<forall>(name, src) \<in> set es. plain_name (entry_path path name) \<and>
        snd (fi_handler lib (entry_path path name) src) = NilIface \<and>
        (\<exists>b. fi_marshal lib [(entry_path path name, fst (fi_handler lib (entry_path path name) src))] = Inr b \<and>
          fi_unmarshal lib b = Inr [(entry_path path name, fst (fi_handler lib (entry_path path name) src))]))"

text \<open>The JSON stored for a value that encodes.\<close>

definition json_of :: "'u file_lib \<Rightarrow> string \<times> 'u \<Rightarrow> bytes" where
  "json_of lib v = (case fi_marshal lib [v] of Inr b \<Rightarrow> b | Inl _ \<Rightarrow> [])"

definition entry_value :: "'u file_lib \<Rightarrow> string \<Rightarrow> string \<times> stream \<Rightarrow> string \<times> 'u" where
  "entry_value lib path e = (entry_path path (fst e), fst (fi_handler lib (entry_path path (fst e)) (snd e)))"

lemma update_fresh: "k \<notin> fst ` set xs \<Longrightarrow> AList.update k v xs = xs @ [(k, v)]"
  by (induction xs) auto

lemma call_sjob_plain:
  "\<lbrakk>plain_name p; snd (fi_handler lib p src) = NilIface; Option.bind (map_of st p) (read_out lib) = None;
    fi_marshal lib [(p, fst (fi_handler lib p src))] = Inr b\<rbrakk> \<Longrightarrow>
   call_sjob lib (jobhandler (Suc n) lib) p src st =
     Some (([(p, fst (fi_handler lib p src))], NilPtr), AList.update p (Inr b) st)"
  using jobhandler_plain [of p lib src "fst (fi_handler lib p src)" n st]
  by (simp add: call_sjob_def stored_out_def prod_eq_iff del: jobhandler.simps)

definition errs_of :: "'u ueResult \<Rightarrow> (string \<times> ferr iface) list" where
  "errs_of u = (case ur_err u of None \<Rightarrow> [] | Some xs \<Rightarrow> xs)"

lemma Collect_typed_nil:
  "\<lbrakk>p \<notin> fst ` set (ur_res u); p \<notin> fst ` set (errs_of u)\<rbrakk> \<Longrightarrow>
   Collect_results p [(p, v)] NilPtr u = u\<lparr>ur_res := ur_res u @ [(p, v)], ur_err := Some (errs_of u @ [(p, NilPtr)])\<rparr>"
  by (simp add: Collect_results_def put_err_def errs_of_def update_fresh Let_def)

text \<open>The first run over an archive of plain entries: every one is collected with a typed nil, and stored without error.\<close>

lemma run_fresh_entries:
  "\<lbrakk>good_entries lib path es; \<forall>e \<in> set es. Option.bind (map_of st (entry_path path (fst e))) (read_out lib) = None;
    \<forall>e \<in> set es. entry_path path (fst e) \<notin> fst ` set (ur_res u) \<union> fst ` set (errs_of u)\<rbrakk> \<Longrightarrow>
   run_entries lib (jobhandler (Suc n) lib) path (map (apsnd Inr) es) u st =
      Some (u\<lparr>ur_res := ur_res u @ map (entry_value lib path) es,
              ur_err := (if es = [] then ur_err u else Some (errs_of u @ map (\<lambda>e. (entry_path path (fst e), NilPtr)) es))\<rparr>,
            fold (\<lambda>e. AList.update (entry_path path (fst e)) (Inr (json_of lib (entry_value lib path e)))) es st)"
proof (induction es arbitrary: u st)
  case (Cons e es)
  obtain name src where e: "e = (name, src)" by (cases e)
  let ?p = "entry_path path name" and ?v = "fst (fi_handler lib (entry_path path name) src)"
  let ?u = "u\<lparr>ur_res := ur_res u @ [(?p, ?v)], ur_err := Some (errs_of u @ [(?p, NilPtr)])\<rparr>"
  let ?st = "AList.update ?p (Inr (json_of lib (?p, ?v))) st"
  have "fi_marshal lib [(?p, ?v)] = Inr (json_of lib (?p, ?v))"
    using Cons.prems(1) by (auto simp: e good_entries_def json_of_def)
  then have call: "call_sjob lib (jobhandler (Suc n) lib) ?p src st = Some (([(?p, ?v)], NilPtr), ?st)"
    using Cons.prems by (intro call_sjob_plain) (auto simp: e good_entries_def)
  have coll: "Collect_results ?p [(?p, ?v)] NilPtr u = ?u"
    using Cons.prems by (intro Collect_typed_nil) (auto simp: e)
  have "run_entries lib (jobhandler (Suc n) lib) path (map (apsnd Inr) es) ?u ?st =
      Some (?u\<lparr>ur_res := ur_res ?u @ map (entry_value lib path) es,
              ur_err := (if es = [] then ur_err ?u else Some (errs_of ?u @ map (\<lambda>e. (entry_path path (fst e), NilPtr)) es))\<rparr>,
            fold (\<lambda>e. AList.update (entry_path path (fst e)) (Inr (json_of lib (entry_value lib path e)))) es ?st)"
    using Cons.prems by (intro Cons.IH) (auto simp: e good_entries_def update_conv' errs_of_def)
  then show ?case
    by (simp add: e call coll Let_def del: jobhandler.simps) (simp add: entry_value_def errs_of_def)
qed simp

lemma run_cached_entries:
  "\<lbrakk>good_entries lib path es;
    \<forall>e \<in> set es. map_of st (entry_path path (fst e)) = Some (Inr (json_of lib (entry_value lib path e)));
    \<forall>e \<in> set es. entry_path path (fst e) \<notin> fst ` set (ur_res u)\<rbrakk> \<Longrightarrow>
   run_entries lib run path (map (apsnd Inr) es) u st =
     Some (u\<lparr>ur_res := ur_res u @ map (entry_value lib path) es\<rparr>, st)"
proof (induction es arbitrary: u)
  case (Cons e es)
  let ?u = "u\<lparr>ur_res := ur_res u @ [entry_value lib path e]\<rparr>"
  have "run_entries lib run path (map (apsnd Inr) es) ?u st =
     Some (?u\<lparr>ur_res := ur_res ?u @ map (entry_value lib path) es\<rparr>, st)"
    using Cons.prems by (intro Cons.IH) (fastforce simp: good_entries_def entry_value_def image_iff)+
  moreover have "fi_unmarshal lib (json_of lib (entry_value lib path e)) = Inr [entry_value lib path e]"
    using Cons.prems(1) by (auto simp: good_entries_def json_of_def entry_value_def)
  then have "read_out lib (Inr (json_of lib (entry_value lib path e))) = Some ([entry_value lib path e], NilIface)"
    by (simp add: read_out_def)
  ultimately show ?case
    using Cons.prems
    by (cases e)
       (simp add: call_sjob_def Collect_results_def update_fresh Let_def, simp add: entry_value_def update_fresh)
qed simp

lemma map_of_fold_update:
  "distinct (map f es) \<Longrightarrow> e \<in> set es \<Longrightarrow> map_of (fold (\<lambda>e. AList.update (f e) (g e)) es st) (f e) = Some (g e)"
proof (induction es arbitrary: st)
  case (Cons a es)
  have other: "k \<notin> f ` set xs \<Longrightarrow> map_of (fold (\<lambda>e. AList.update (f e) (g e)) xs s) k = map_of s k" for k xs s
    by (induction xs arbitrary: s) (auto simp: update_conv')
  show ?case
    using Cons by (cases "e = a") (auto simp: other update_conv')
qed simp

lemma tar_suffix: "\<lbrakk>isTarPath path; suffix b path\<rbrakk> \<Longrightarrow> suffix ''.tar'' b \<or> suffix b ''.tar''"
  by (auto simp: isTarPath_def dest: suffix_same_cases)

lemma tar_is_nothing_else:
  assumes "isTarPath path"
  shows "\<not> suffix ''.zip'' path" "\<not> isTarGzipPath path" "\<not> isGzipPath path"
  unfolding isTarGzipPath_def isGzipPath_def
  by (auto dest!: tar_suffix [OF assms]) (simp_all add: suffix_to_prefix)

subsection \<open>The error of a good archive\<close>

text \<open>C26. A tar archive (\<open>es\<close>: its entries that are no directories, at least one, read to the end without error) whose entries have
  different names, none ending in \<open>.zip\<close>, \<open>.tar\<close>, \<open>.tgz\<close>, \<open>.gz\<close> or \<open>.gzip\<close>, and are all handled without error, with outputs that JSON
  keeps; nothing is stored for them yet and storing works. The first run returns every result together with an error: one
  error entry per file, each a nil \<open>*MapError\<close> in an interface that is not nil (\<open>return u.res, u.err\<close>). What is stored
  is the JSON of the result alone, so a second run returns the same results, no error entry at all, only the nil
  pointer, and stores nothing new. The bound \<open>n + 2\<close> on the nesting is enough for every \<open>n\<close>.\<close>

theorem archive_entries_reported_as_errors:
  assumes tar: "suffix ''.tar'' path" "fi_open lib path = Inr src" "fi_tar lib src = (es, None)" "es \<noteq> []" "distinct (map fst es)"
    and plain: "\<forall>(name, s) \<in> set es. \<forall>x \<in> {''.zip'', ''.tar'', ''.tgz'', ''.gz'', ''.gzip''}. \<not> suffix x (path @ ''!'' @ name)"
    and fine: "\<forall>(name, s) \<in> set es. \<exists>b. fi_handler lib (path @ ''!'' @ name) s = (val name, NilIface) \<and>
      fi_marshal lib [(path @ ''!'' @ name, val name)] = Inr b \<and> fi_unmarshal lib b = Inr [(path @ ''!'' @ name, val name)]"
    and fresh: "\<forall>(name, s) \<in> set es. map_of st (path @ ''!'' @ name) = None"
  shows "\<exists>st'. jobhandler (n + 2) lib path None st =
           Some ((map (\<lambda>(name, s). (path @ ''!'' @ name, val name)) es,
                  Is (MapErr (map (\<lambda>(name, s). (path @ ''!'' @ name, NilPtr)) es))), st') \<and>
         (\<forall>(name, s) \<in> set es. \<exists>b. fi_marshal lib [(path @ ''!'' @ name, val name)] = Inr b \<and>
            map_of st' (path @ ''!'' @ name) = Some (Inr b)) \<and>
         jobhandler (n + 2) lib path None st' =
           Some ((map (\<lambda>(name, s). (path @ ''!'' @ name, val name)) es, NilPtr), st')"
proof -
  have "plain_name (entry_path path name)" if "(name, s) \<in> set es" for name s
  proof -
    have "\<not> suffix x (path @ ''!'' @ name)" if "x \<in> {''.zip'', ''.tar'', ''.tgz'', ''.gz'', ''.gzip''}" for x
      using plain \<open>(name, s) \<in> set es\<close> that by blast
    moreover have "suffix ''.gz'' ''.tar.gz''" "suffix ''.gzip'' ''.tar.gzip''" by (simp_all add: suffix_to_prefix)
    ultimately show ?thesis
      by (auto simp: plain_name_def entry_path_def isTarPath_def isGzipPath_def isTarGzipPath_def dest: suffix_order.trans)
  qed
  then have good: "good_entries lib path es"
    using tar(5) fine by (force simp: good_entries_def entry_path_def)
  have fresh': "\<forall>e \<in> set es. Option.bind (map_of st (entry_path path (fst e))) (read_out lib) = None"
    using fresh by (auto simp: entry_path_def)
  have val: "entry_value lib path (name, s) = (path @ ''!'' @ name, val name)" if "(name, s) \<in> set es" for name s
    using fine that by (force simp: entry_value_def entry_path_def)
  then have vals: "map (entry_value lib path) es = map (\<lambda>(name, s). (path @ ''!'' @ name, val name)) es" by auto
  have errs: "map (\<lambda>e. (entry_path path (fst e), NilPtr)) es = map (\<lambda>(name, s). (path @ ''!'' @ name, NilPtr)) es"
    by (auto simp: entry_path_def)
  let ?js = "\<lambda>e. Inr (json_of lib (entry_value lib path e)) :: bytes + bytes"
  let ?st = "fold (\<lambda>e. AList.update (entry_path path (fst e)) (?js e)) es st"
  have is_tar: "isTarPath path" using tar(1) by (simp add: isTarPath_def)
  have unfold: "jobhandler (n + 2) lib path None s = run_tar lib (jobhandler (Suc n) lib) path src s" for s
    unfolding add_2_eq_Suc' jobhandler.simps(2) [of "Suc n"] jobhandler_body_def
    using tar is_tar tar_is_nothing_else [OF is_tar] by (simp add: Let_def)
  have "distinct (map (\<lambda>e. entry_path path (fst e)) es)"
    using good by (simp add: good_entries_def distinct_map inj_on_def)
  then have cached: "\<forall>e \<in> set es. map_of ?st (entry_path path (fst e)) = Some (?js e)"
    by (intro ballI) (rule map_of_fold_update [where g = ?js])
  have stored: "\<exists>b. fi_marshal lib [(path @ ''!'' @ name, val name)] = Inr b \<and> map_of ?st (path @ ''!'' @ name) = Some (Inr b)"
    if mem: "(name, s) \<in> set es" for name s
  proof -
    obtain b where "fi_marshal lib [(path @ ''!'' @ name, val name)] = Inr b" using bspec [OF fine mem] by auto
    then show ?thesis using bspec [OF cached mem] val [OF mem] by (simp add: json_of_def entry_path_def)
  qed
  have "run_tar lib (jobhandler (Suc n) lib) path src st =
      Some ((map (entry_value lib path) es, Is (MapErr (map (\<lambda>e. (entry_path path (fst e), NilPtr)) es))), ?st)"
    using run_fresh_entries [OF good fresh', of new_result n] tar(4)
    by (simp add: run_tar_def tar(3) Result_of_def new_result_def errs_of_def del: jobhandler.simps)
  moreover have "run_tar lib (jobhandler (Suc n) lib) path src ?st = Some ((map (entry_value lib path) es, NilPtr), ?st)"
    using run_cached_entries [OF good cached, of new_result]
    by (simp add: run_tar_def tar(3) Result_of_def new_result_def del: jobhandler.simps)
  ultimately have runs: "jobhandler (n + 2) lib path None st = Some ((map (entry_value lib path) es,
        Is (MapErr (map (\<lambda>e. (entry_path path (fst e), NilPtr)) es))), ?st)"
      "jobhandler (n + 2) lib path None ?st = Some ((map (entry_value lib path) es, NilPtr), ?st)"
    by (simp_all only: unfold)
  show ?thesis
  proof (rule exI [of _ ?st], intro conjI)
    show "\<forall>(name, s) \<in> set es. \<exists>b. fi_marshal lib [(path @ ''!'' @ name, val name)] = Inr b \<and>
            map_of ?st (path @ ''!'' @ name) = Some (Inr b)"
      using stored by blast
  qed (fact runs [unfolded vals errs])+
qed

definition text_archives :: "nat file_lib" where
  "text_archives =
     \<lparr>fi_open = (\<lambda>p. Inr ([], None)), fi_zip = (\<lambda>p. Inr []), fi_gunzip = Inr,
      fi_tar = (\<lambda>s. ([(''a.txt'', ([], None))], None)), fi_zero = 0, fi_marshal = (\<lambda>m. Inr (concat (map fst m))),
      fi_unmarshal = (\<lambda>b. Inr [(b, 7)]), fi_err_json = (\<lambda>e. Inr ''{}''),
      fi_handler = (\<lambda>p s. (7, NilIface))\<rparr>"

theorem archive_entries_reported_as_errors_witness:
  "\<exists>st'. jobhandler (0 + 2) text_archives ''x.tar'' None [] =
      Some (([(''x.tar!a.txt'', 7)], Is (MapErr [(''x.tar!a.txt'', NilPtr)])), st') \<and>
    map_of st' ''x.tar!a.txt'' = Some (Inr ''x.tar!a.txt'') \<and>
    jobhandler (0 + 2) text_archives ''x.tar'' None st' = Some (([(''x.tar!a.txt'', 7)], NilPtr), st')"
  using archive_entries_reported_as_errors [of "''x.tar''" text_archives "([], None)" "[(''a.txt'', ([], None))]" "\<lambda>_. 7" "[]" 0]
  by (simp add: text_archives_def suffix_to_prefix)

subsection \<open>Nesting\<close>

text \<open>The bound only has to be large enough.\<close>

definition extends ::
  "(string \<Rightarrow> stream option \<Rightarrow> file_cache \<Rightarrow> ('u file_out \<times> file_cache) option) \<Rightarrow>
   (string \<Rightarrow> stream option \<Rightarrow> file_cache \<Rightarrow> ('u file_out \<times> file_cache) option) \<Rightarrow> bool" where
  "extends f g \<longleftrightarrow> (\<forall>path reader st r. f path reader st = Some r \<longrightarrow> g path reader st = Some r)"

lemma call_sjob_mono: "extends f g \<Longrightarrow> call_sjob lib f p src st = Some r \<Longrightarrow> call_sjob lib g p src st = Some r"
  by (auto simp: call_sjob_def extends_def split: option.splits prod.splits)

lemma run_entries_mono:
  "extends f g \<Longrightarrow> run_entries lib f path es u st = Some r \<Longrightarrow> run_entries lib g path es u st = Some r"
  by (induction lib f path es u st rule: run_entries.induct)
     (auto simp: Let_def dest: call_sjob_mono split: sum.splits option.splits prod.splits)

lemma run_tar_mono: "extends f g \<Longrightarrow> run_tar lib f path src st = Some r \<Longrightarrow> run_tar lib g path src st = Some r"
  by (auto simp: run_tar_def dest: run_entries_mono split: option.splits prod.splits)

lemma jobhandler_body_mono: "extends f g \<Longrightarrow> extends (jobhandler_body lib f) (jobhandler_body lib g)"
  unfolding extends_def [of "jobhandler_body lib f"] jobhandler_body_def Let_def
  by (auto dest: run_entries_mono run_tar_mono call_sjob_mono split: if_splits sum.splits option.splits prod.splits)

lemma jobhandler_extends: "extends (jobhandler n lib) (jobhandler (Suc n) lib)"
  by (induction n) (simp add: extends_def, simp add: jobhandler_body_mono)

lemma jobhandler_more: "jobhandler n lib path reader st = Some r \<Longrightarrow> jobhandler (n + k) lib path reader st = Some r"
proof (induction k)
  case (Suc k)
  then show ?case using jobhandler_extends [of "n + k" lib] unfolding extends_def by (metis add_Suc_right)
qed simp

text \<open>
  What the name of a file leads to: the handler takes the compressions off one by one, and opens a tar archive if one is reached.
\<close>

lemma stripGzipSuffix_shorter:
  assumes "isGzipPath path" "\<not> isTarGzipPath path" shows "length (stripGzipSuffix path) < length path"
proof -
  have "suffix x path \<Longrightarrow> x \<noteq> [] \<Longrightarrow> length (trim_suffix x path) < length path" for x
    by (cases path) (auto simp: trim_suffix_def)
  then show ?thesis using assms by (auto simp: stripGzipSuffix_def isGzipPath_def isTarGzipPath_def)
qed

function opens_tar :: "string \<Rightarrow> bool" where
  "opens_tar path =
     (if isTarPath path \<or> isTarGzipPath path then True
      else if isGzipPath path then opens_tar (stripGzipSuffix path) else False)"
  by pat_completeness auto
termination
  by (relation "measure length") (use stripGzipSuffix_shorter in auto)

declare opens_tar.simps [simp del]

definition returns :: "'u file_lib \<Rightarrow> string \<Rightarrow> stream option \<Rightarrow> bool" where
  "returns lib path reader \<longleftrightarrow> (\<exists>n. \<forall>st. jobhandler n lib path reader st \<noteq> None)"

lemma jobhandler_le: "jobhandler n lib path reader st \<noteq> None \<Longrightarrow> n \<le> k \<Longrightarrow> jobhandler k lib path reader st \<noteq> None"
  using jobhandler_more [of n lib path reader st _ "k - n"] by fastforce

lemma call_sjob_returns: "run path (Some src) st \<noteq> None \<Longrightarrow> call_sjob lib run path src st \<noteq> None"
  by (cases "Option.bind (map_of st path) (read_out lib)") (auto simp: call_sjob_def)

text \<open>A file whose name does not lead to a tar archive: compressions end with the suffixes of the name, whatever they contain.\<close>

lemma no_tar_returns:
  "\<not> opens_tar path \<Longrightarrow> jobhandler (Suc (length path)) lib path (Some src) st \<noteq> None"
proof (induction "length path" arbitrary: path src st rule: less_induct)
  case less
  have no: "\<not> isTarPath path" "\<not> isTarGzipPath path" using less.prems by (auto simp: opens_tar.simps [of path])
  show ?case
  proof (cases "isGzipPath path")
    case True
    let ?inner = "stripGzipSuffix path"
    have lt: "length ?inner < length path" using True no(2) by (rule stripGzipSuffix_shorter)
    have "\<not> opens_tar ?inner" using less.prems True no by (simp add: opens_tar.simps [of path])
    then have "jobhandler (length path) lib ?inner (Some g) s \<noteq> None" for g s
      using lt by (intro jobhandler_le [OF less.hyps [OF lt]]) simp_all
    then have "call_sjob lib (jobhandler (length path) lib) ?inner g s \<noteq> None" for g s
      by (rule call_sjob_returns)
    note call = this
    show ?thesis
    proof (cases "fi_gunzip lib src")
      case (Inr g)
      from call [of g st] obtain m e st' where
        "call_sjob lib (jobhandler (length path) lib) ?inner g st = Some ((m, e), st')"
        by (cases "call_sjob lib (jobhandler (length path) lib) ?inner g st") auto
      then show ?thesis using no True Inr
        unfolding jobhandler.simps(2) jobhandler_body_def by (simp add: Let_def del: jobhandler.simps)
    qed (use no True in \<open>simp add: jobhandler_body_def\<close>)
  qed (use no in \<open>simp add: jobhandler_body_def split: prod.split\<close>)
qed

text \<open>Calls for the entries of an archive return together, and so does the archive.\<close>

lemma run_entries_returns:
  "\<forall>name s. (name, Inr s) \<in> set es \<longrightarrow> (\<forall>st. run (entry_path path name) (Some s) st \<noteq> None) \<Longrightarrow>
   run_entries lib run path es u st \<noteq> None"
proof (induction es arbitrary: u st)
  case (Cons e es)
  obtain name entry where e: "e = (name, entry)" by (cases e)
  have IH: "run_entries lib run path es u st \<noteq> None" for u st using Cons.IH Cons.prems by auto
  show ?case
  proof (cases entry)
    case (Inr s)
    have "(name, Inr s) \<in> set (e # es)" by (simp add: e Inr)
    with Cons.prems have "run (entry_path path name) (Some s) st \<noteq> None" by blast
    then have "call_sjob lib run (entry_path path name) s st \<noteq> None" by (rule call_sjob_returns)
    then show ?thesis using IH by (auto simp: e Inr Let_def)
  qed (simp add: e IH)
qed simp

lemma run_tar_returns:
  assumes "\<forall>name s. (name, s) \<in> set (fst (fi_tar lib src)) \<longrightarrow> (\<forall>st. run (entry_path path name) (Some s) st \<noteq> None)"
  shows "run_tar lib run path src st \<noteq> None"
proof -
  obtain es err where src: "fi_tar lib src = (es, err)" by fastforce
  have "run_entries lib run path (map (apsnd Inr) es) new_result st \<noteq> None"
    using assms by (intro run_entries_returns) (auto simp: src)
  then show ?thesis by (auto simp: run_tar_def src split: option.split)
qed

lemma entries_bound: "\<exists>n. \<forall>name \<in> set names. length (entry_path path name) < n" for names
proof -
  have "finite ((\<lambda>name. length (entry_path path name)) ` set names)" by simp
  then show ?thesis unfolding finite_nat_set_iff_bounded by auto
qed

lemma no_tar_in_tar_returns:
  assumes "\<forall>p src name s. (name, s) \<in> set (fst (fi_tar lib src)) \<longrightarrow> \<not> opens_tar (entry_path p name)"
  shows "returns lib path (Some src)"
proof (induction "length path" arbitrary: path src rule: less_induct)
  case less
  have tar: "\<exists>n. \<forall>st. run_tar lib (jobhandler n lib) path g st \<noteq> None" for g
  proof -
    obtain n where n: "\<forall>name \<in> set (map fst (fst (fi_tar lib g))). length (entry_path path name) < n"
      using entries_bound by blast
    have "jobhandler n lib (entry_path path name) (Some s) st \<noteq> None" if "(name, s) \<in> set (fst (fi_tar lib g))" for name s st
    proof (rule jobhandler_le [OF no_tar_returns])
      show "\<not> opens_tar (entry_path path name)" using assms that by blast
      show "Suc (length (entry_path path name)) \<le> n" using n that by force
    qed
    then have "run_tar lib (jobhandler n lib) path g st \<noteq> None" for st by (intro run_tar_returns) blast
    then show ?thesis by blast
  qed
  have gz: "\<exists>n. \<forall>st. call_sjob lib (jobhandler n lib) (stripGzipSuffix path) g st \<noteq> None"
    if name: "isGzipPath path" "\<not> isTarGzipPath path" for g
  proof -
    obtain n where "\<forall>st. jobhandler n lib (stripGzipSuffix path) (Some g) st \<noteq> None"
      using less.hyps [of "stripGzipSuffix path" g] stripGzipSuffix_shorter [OF name] by (auto simp: returns_def)
    then have "call_sjob lib (jobhandler n lib) (stripGzipSuffix path) g st \<noteq> None" for st
      by (intro call_sjob_returns) (rule spec)
    then show ?thesis by blast
  qed
  have body: "returns lib path (Some src)" if "\<forall>st. jobhandler_body lib (jobhandler n lib) path (Some src) st \<noteq> None" for n
    using that unfolding returns_def by (intro exI [of _ "Suc n"]) simp
  consider "suffix ''.zip'' path" | "\<not> suffix ''.zip'' path" "isTarGzipPath path" | "\<not> suffix ''.zip'' path" "\<not> isTarGzipPath path" "isTarPath path"
    | "\<not> suffix ''.zip'' path" "\<not> isTarGzipPath path" "\<not> isTarPath path" "isGzipPath path"
    | "\<not> suffix ''.zip'' path" "\<not> isTarGzipPath path" "\<not> isTarPath path" "\<not> isGzipPath path" by blast
  then show ?case
  proof cases
    case 2
    then show ?thesis
    proof (cases "fi_gunzip lib src")
      case (Inr g)
      with 2 tar [of g] body show ?thesis by (auto simp: jobhandler_body_def)
    qed (use body [of 0] in \<open>simp add: jobhandler_body_def\<close>)
  next
    case 3
    with tar [of src] body show ?thesis by (auto simp: jobhandler_body_def)
  next
    case 4
    then show ?thesis
    proof (cases "fi_gunzip lib src")
      case (Inr g)
      obtain n where "\<forall>st. call_sjob lib (jobhandler n lib) (stripGzipSuffix path) g st \<noteq> None"
        using gz [of g] 4 by blast
      with 4 Inr show ?thesis by (intro body [of n]) (auto simp: jobhandler_body_def Let_def split: option.split)
    qed (use body [of 0] in \<open>simp add: jobhandler_body_def\<close>)
  qed (rule body [of 0], simp add: jobhandler_body_def split: prod.split)+
qed

lemma returns_stable:
  assumes "returns lib path reader"
  shows "\<exists>n out st'. \<forall>k. jobhandler (n + k) lib path reader st = Some (out, st')"
proof -
  obtain n out st' where "jobhandler n lib path reader st = Some (out, st')"
    using assms unfolding returns_def by fast
  then show ?thesis using jobhandler_more by blast
qed

lemma opened_returns:
  assumes "\<not> suffix ''.zip'' path" "\<And>src. fi_open lib path = Inr src \<Longrightarrow> returns lib path (Some src)"
  shows "returns lib path None"
proof (cases "fi_open lib path")
  case (Inl e)
  then show ?thesis unfolding returns_def using assms(1) by (intro exI [of _ "Suc 0"]) (simp add: jobhandler_body_def)
next
  case (Inr src)
  obtain n where "\<forall>st. jobhandler n lib path (Some src) st \<noteq> None" using assms(2) [OF Inr] unfolding returns_def by blast
  then have "\<forall>st. jobhandler (Suc n) lib path (Some src) st \<noteq> None" by (intro allI) (rule jobhandler_le [of n], rule spec, simp_all)
  then show ?thesis unfolding returns_def using assms(1) Inr by (intro exI [of _ "Suc n"]) (simp add: jobhandler_body_def)
qed

lemma zip_returns:
  assumes "suffix ''.zip'' path"
    and "\<And>es name s. fi_zip lib path = Inr es \<Longrightarrow> (name, Inr s) \<in> set es \<Longrightarrow> returns lib (entry_path path name) (Some s)"
  shows "returns lib path None"
proof (cases "fi_zip lib path")
  case (Inl e)
  then show ?thesis unfolding returns_def using assms(1) by (intro exI [of _ "Suc 0"]) (simp add: jobhandler_body_def)
next
  case (Inr es)
  have "\<exists>n. \<forall>name s. (name, Inr s) \<in> set xs \<longrightarrow> (\<forall>st. jobhandler n lib (entry_path path name) (Some s) st \<noteq> None)"
    if "set xs \<subseteq> set es" for xs
    using that
  proof (induction xs)
    case (Cons x xs)
    then obtain n where n: "\<forall>name s. (name, Inr s) \<in> set xs \<longrightarrow> (\<forall>st. jobhandler n lib (entry_path path name) (Some s) st \<noteq> None)"
      by auto
    have "\<exists>k. \<forall>name s. x = (name, Inr s) \<longrightarrow> (\<forall>st. jobhandler k lib (entry_path path name) (Some s) st \<noteq> None)"
    proof (cases x)
      case (Pair name entry)
      then show ?thesis using assms(2) [OF Inr, of name] Cons.prems by (cases entry) (auto simp: returns_def)
    qed
    then obtain k where k: "\<forall>name s. x = (name, Inr s) \<longrightarrow> (\<forall>st. jobhandler k lib (entry_path path name) (Some s) st \<noteq> None)"
      by blast
    show ?case
    proof (intro exI [of _ "max n k"] allI impI)
      fix name s st assume "(name, Inr s) \<in> set (x # xs)"
      then consider "x = (name, Inr s)" | "(name, Inr s) \<in> set xs" by auto
      then show "jobhandler (max n k) lib (entry_path path name) (Some s) st \<noteq> None"
      proof cases
        case 1
        then have "jobhandler k lib (entry_path path name) (Some s) st \<noteq> None" using k by blast
        then show ?thesis by (rule jobhandler_le) simp
      next
        case 2
        then have "jobhandler n lib (entry_path path name) (Some s) st \<noteq> None" using n by blast
        then show ?thesis by (rule jobhandler_le) simp
      qed
    qed
  qed simp
  then obtain n where n: "\<forall>name s. (name, Inr s) \<in> set es \<longrightarrow> (\<forall>st. jobhandler n lib (entry_path path name) (Some s) st \<noteq> None)"
    by blast
  then have "run_entries lib (jobhandler n lib) path es new_result st \<noteq> None" for st by (rule run_entries_returns)
  then show ?thesis unfolding returns_def using assms(1) Inr by (intro exI [of _ "Suc n"]) (simp add: jobhandler_body_def)
qed

text \<open>A compressed tar archive that contains itself: every call makes another one.\<close>

definition text_quine :: "nat file_lib" where
  "text_quine = text_archives\<lparr>fi_tar := (\<lambda>s. ([(''r.tar.gz'', s)], None))\<rparr>"

lemma quine_never_returns: "isTarGzipPath path \<Longrightarrow> jobhandler n text_quine path (Some src) [] = None"
proof (induction n arbitrary: path)
  case (Suc n)
  have "isTarGzipPath (entry_path path ''r.tar.gz'')"
    by (simp add: isTarGzipPath_def entry_path_def suffix_def)
  from Suc.IH [OF this] have call: "call_sjob text_quine (jobhandler n text_quine) (entry_path path ''r.tar.gz'') src [] = None"
    by (simp add: call_sjob_def)
  have "\<not> suffix ''.zip'' path"
    using Suc.prems by (auto simp: isTarGzipPath_def dest: suffix_same_cases) (auto dest!: suffix_same_cases simp: suffix_to_prefix prefix_def)
  moreover have "fi_gunzip text_quine s = Inr s" "fi_tar text_quine s = ([(''r.tar.gz'', s)], None)" for s
    by (simp_all add: text_quine_def text_archives_def)
  ultimately show ?case using call Suc.prems
    by (simp add: jobhandler_body_def run_tar_def Let_def)
qed simp

text \<open>C34. When a file job returns, for any archive libraries and any content. \<open>opens_tar\<close> tells whether a name leads to a tar
  archive: \<open>.tar\<close>, \<open>.tgz\<close>, \<open>.tar.gz\<close>, \<open>.tar.gzip\<close>, or \<open>.gz\<close>, \<open>.gzip\<close> before such a name. A name that does not, and is no
  \<open>.zip\<close>, always returns: a compressed file is followed only as long as its name has compression suffixes, even if it
  contains itself. If no tar archive has an entry that leads to a tar archive again, every file returns, a zip archive of
  compressed tar archives included. From some nesting bound on, every larger bound gives the same result. Nothing
  in the code bounds the nesting: with a \<open>tar.gz\<close> that contains itself (such files exist) no bound gives a result, the
  code calls itself without end.\<close>

theorem file_job_returns:
  assumes "\<not> suffix ''.zip'' path \<and> \<not> opens_tar path \<or>
    (\<forall>src p name s. (name, s) \<in> set (fst (fi_tar lib src)) \<longrightarrow> \<not> opens_tar (p @ ''!'' @ name))"
  shows "(\<exists>n out st'. \<forall>k. jobhandler (n + k) lib path None st = Some (out, st')) \<and>
    (\<exists>quine :: nat file_lib. \<forall>n. jobhandler n quine ''r.tar.gz'' None [] = None)"
proof
  have "returns lib path None"
  proof (cases "suffix ''.zip'' path \<or> opens_tar path")
    case True
    with assms have flat: "\<forall>p src name s. (name, s) \<in> set (fst (fi_tar lib src)) \<longrightarrow> \<not> opens_tar (entry_path p name)"
      unfolding entry_path_def by metis
    show ?thesis
      by (cases "suffix ''.zip'' path")
        (rule zip_returns opened_returns, assumption, rule no_tar_in_tar_returns [OF flat])+
  next
    case False
    then have "returns lib path (Some src)" for src
      unfolding returns_def using no_tar_returns [of path lib src] by blast
    then show ?thesis using False by (intro opened_returns) auto
  qed
  then show "\<exists>n out st'. \<forall>k. jobhandler (n + k) lib path None st = Some (out, st')" by (rule returns_stable)
  have "jobhandler n text_quine ''r.tar.gz'' None [] = None" for n
  proof (cases n)
    case (Suc m)
    have "jobhandler m text_quine ''r.tar.gz!r.tar.gz'' (Some ([], None)) [] = None"
      by (rule quine_never_returns) (simp add: isTarGzipPath_def suffix_to_prefix)
    then show ?thesis
      by (simp add: Suc jobhandler_body_def run_tar_def call_sjob_def entry_path_def Let_def text_quine_def text_archives_def
          isTarGzipPath_def suffix_to_prefix)
  qed simp
  then show "\<exists>quine :: nat file_lib. \<forall>n. jobhandler n quine ''r.tar.gz'' None [] = None" by blast
qed

theorem file_job_returns_witness:
  "\<exists>n out st'. \<forall>k. jobhandler (n + k) text_quine ''notes.txt.gz.gz'' None [] = Some (out, st')"
  using file_job_returns [of "''notes.txt.gz.gz''" text_quine "[]"]
  by (simp add: opens_tar.simps isTarPath_def isTarGzipPath_def isGzipPath_def stripGzipSuffix_def trim_suffix_def suffix_to_prefix)

end
