(* ===== verification/Tag_Plan.thy ===== *)
theory Tag_Plan
  imports Prelude
begin

section \<open>Plans over struct tags\<close>

text \<open>
  \<open>ext/tag.go\<close>: a plan lists the fields of a struct type with their tags, nested structs inside; \<open>ExecutePlan\<close> and \<open>EachPlan\<close>
  walk it and hand the fields with a tag and a type to a callback, which reads and writes them through a
  \<open>FieldAccess\<close>. Types and values are those reflection sees. A field of a target is named by its path from the root. A panic is
  \<open>None\<close>.
\<close>

subsection \<open>Types\<close>

text \<open>
  A named type has methods on values and methods on pointers only; \<open>TBasic\<close> stands for every kind that is
  not a struct, a pointer, a slice or an interface. A field has a name, is exported or not, embedded or not, and
  has tags.
\<close>

datatype gtype =
    TBasic string "string list" "string list"
  | TStruct string "string list" "string list" "gfield list"
  | TPtr gtype
  | TSlice gtype
  | TIface string "string list"
and gfield =
    GField (gf_name: string) (gf_exported: bool) (gf_embedded: bool) (gf_tag: "(string \<times> string) list") (gf_type: gtype)

fun method_set :: "gtype \<Rightarrow> string list" where
  "method_set (TBasic _ vm _) = vm"
| "method_set (TStruct _ vm _ _) = vm"
| "method_set (TPtr (TBasic _ vm pm)) = vm @ pm"
| "method_set (TPtr (TStruct _ vm pm _)) = vm @ pm"
| "method_set (TIface _ ms) = ms"
| "method_set _ = []"

fun is_iface :: "gtype \<Rightarrow> bool" where
  "is_iface (TIface _ _) = True"
| "is_iface _ = False"

fun is_ptr :: "gtype \<Rightarrow> bool" where
  "is_ptr (TPtr _) = True"
| "is_ptr _ = False"

fun elem_type :: "gtype \<Rightarrow> gtype" where
  "elem_type (TPtr t) = t"
| "elem_type t = t"

definition implements :: "gtype \<Rightarrow> gtype \<Rightarrow> bool" where
  "implements t tt \<longleftrightarrow> set (method_set tt) \<subseteq> set (method_set t)"

definition typeMatch :: "gtype \<Rightarrow> gtype \<Rightarrow> bool" where
  "typeMatch tt ft \<longleftrightarrow>
     ft = tt \<or> is_iface tt \<and> (implements ft tt \<or> \<not> is_ptr ft \<and> implements (TPtr ft) tt)"

definition typeSliceMatch :: "gtype \<Rightarrow> gtype \<Rightarrow> bool" where
  "typeSliceMatch tt ft =
     (case (tt, ft) of (TSlice et, TSlice ef) \<Rightarrow> et = ef \<or> typeMatch et ef | _ \<Rightarrow> False)"

subsection \<open>Building a plan\<close>

datatype 'l rplan = RPlan (rp_taglist: "string list") (rp_typ: gtype) (rp_fields: "'l fplan list")
and 'l fplan =
    FPlan (fp_tags: "string list") (fp_tagoks: "bool list") (fp_name: string) (fp_typ: gtype) (fp_index: nat)
      (fp_sf: gfield) (fp_child: "'l rplan option") (fp_local: 'l)

definition field_tags :: "string list \<Rightarrow> gfield \<Rightarrow> string list" where
  "field_tags tg f = map (\<lambda>t. case map_of (gf_tag f) t of Some v \<Rightarrow> v | None \<Rightarrow> []) tg"

definition field_tagoks :: "string list \<Rightarrow> gfield \<Rightarrow> bool list" where
  "field_tagoks tg f = map (\<lambda>t. map_of (gf_tag f) t \<noteq> None) tg"

text \<open>
  Fields that are neither exported nor embedded are left out; only struct fields that are no pointers have a plan of
  their own. \<open>init\<close> is \<open>initlocal\<close>.
\<close>

fun plan_of :: "string list \<Rightarrow> (string \<Rightarrow> string list \<Rightarrow> bool list \<Rightarrow> 'l) \<Rightarrow> gtype \<Rightarrow> 'l rplan option"
and plan_fields :: "string list \<Rightarrow> (string \<Rightarrow> string list \<Rightarrow> bool list \<Rightarrow> 'l) \<Rightarrow> nat \<Rightarrow> gfield list \<Rightarrow> 'l fplan list" where
  "plan_of tg init (TStruct n vm pm fs) = Some (RPlan tg (TStruct n vm pm fs) (plan_fields tg init 0 fs))"
| "plan_of tg init (TBasic n vm pm) = None"
| "plan_of tg init (TPtr t) = None"
| "plan_of tg init (TSlice t) = None"
| "plan_of tg init (TIface n ms) = None"
| "plan_fields tg init i [] = []"
| "plan_fields tg init i (GField nm exported embedded tag ty # fs) =
     (let f = GField nm exported embedded tag ty; rest = plan_fields tg init (Suc i) fs in
      if \<not> exported \<and> \<not> embedded then rest
      else FPlan (field_tags tg f) (field_tagoks tg f) nm ty i f (plan_of tg init ty)
             (init nm (field_tags tg f) (field_tagoks tg f)) # rest)"

definition NewReflectPlan ::
  "gtype \<Rightarrow> string list \<Rightarrow> (string \<Rightarrow> string list \<Rightarrow> bool list \<Rightarrow> 'l) \<Rightarrow> 'l rplan option" where
  "NewReflectPlan t tg init = plan_of tg init (elem_type t)"

subsection \<open>Walking a plan\<close>

text \<open>\<open>slices.Index\<close>.\<close>

fun tag_index :: "string \<Rightarrow> string list \<Rightarrow> nat option" where
  "tag_index t [] = None"
| "tag_index t (x # xs) = (if x = t then Some 0 else map_option Suc (tag_index t xs))"

datatype plan_err = ErrNotStruct | ErrNotRegisterdTag | CallbackErr string

text \<open>
  What a callback is given: \<open>ac_path\<close> is the field in the target, \<open>ac_ro\<close> tells that it is
  not exported (reflection lets nobody read or write it).
\<close>

record 'l access =
  ac_tagidx :: nat
  ac_path :: "nat list"
  ac_ro :: bool
  ac_type :: gtype
  ac_fp :: "'l fplan"
  ac_slice :: bool

text \<open>
  \<open>ExecutePlan\<close>: \<open>cur\<close> is the type of the struct the walk is in. The error of a nested walk is dropped.
\<close>

fun exec_walk ::
  "nat \<Rightarrow> gtype \<Rightarrow> ('l access \<Rightarrow> 's \<Rightarrow> string option \<times> 's) \<Rightarrow> nat list \<Rightarrow> gtype \<Rightarrow> 'l rplan \<Rightarrow> 's \<Rightarrow>
    (plan_err option \<times> 's) option"
and exec_fields ::
  "nat \<Rightarrow> gtype \<Rightarrow> ('l access \<Rightarrow> 's \<Rightarrow> string option \<times> 's) \<Rightarrow> nat list \<Rightarrow> gfield list \<Rightarrow> 'l fplan list \<Rightarrow> 's \<Rightarrow>
    (plan_err option \<times> 's) option" where
  "exec_walk k tt cb path cur (RPlan tg ty fps) s =
     (case cur of TStruct _ _ _ fs \<Rightarrow> exec_fields k tt cb path fs fps s | _ \<Rightarrow> Some (Some ErrNotStruct, s))"
| "exec_fields k tt cb path fs [] s = Some (None, s)"
| "exec_fields k tt cb path fs (FPlan tags oks nm ty i sf child loc # fps) s =
     (if i \<ge> length fs then None
      else
        let f = fs ! i in
        case (child, gf_type f) of
          (Some ch, TStruct n vm pm gs) \<Rightarrow>
            (case exec_walk k tt cb (path @ [i]) (TStruct n vm pm gs) ch s of
               None \<Rightarrow> None
             | Some (_, s') \<Rightarrow> exec_fields k tt cb path fs fps s')
        | _ \<Rightarrow>
            if \<not> oks ! k then exec_fields k tt cb path fs fps s
            else if \<not> typeSliceMatch tt ty \<and> \<not> typeMatch tt ty then exec_fields k tt cb path fs fps s
            else
              (case cb \<lparr>ac_tagidx = k, ac_path = path @ [i], ac_ro = \<not> gf_exported f, ac_type = gf_type f,
                        ac_fp = FPlan tags oks nm ty i sf child loc, ac_slice = typeSliceMatch tt ty\<rparr> s of
                 (Some e, s') \<Rightarrow> Some (Some (CallbackErr e), s')
               | (None, s') \<Rightarrow> exec_fields k tt cb path fs fps s'))"

text \<open>A target: nil, or a value of a type, which may be a nil pointer.\<close>

datatype target = NilTarget | NilPointer gtype | Target gtype

definition ExecutePlan ::
  "'l rplan option \<Rightarrow> string \<Rightarrow> gtype \<Rightarrow> target \<Rightarrow> ('l access \<Rightarrow> 's \<Rightarrow> string option \<times> 's) option \<Rightarrow> 's \<Rightarrow>
    (plan_err option \<times> 's) option" where
  "ExecutePlan r tag tt tgt callback s =
     (case (r, callback) of
        (Some rp, Some cb) \<Rightarrow>
          if tgt = NilTarget \<or> tag = [] then Some (Some ErrNotStruct, s)
          else
            (case tag_index tag (rp_taglist rp) of
               None \<Rightarrow> Some (Some ErrNotRegisterdTag, s)
             | Some k \<Rightarrow>
                 (case tgt of
                    Target t \<Rightarrow> exec_walk k tt cb [] (elem_type t) rp s
                  | _ \<Rightarrow> Some (Some ErrNotStruct, s)))
      | _ \<Rightarrow> Some (Some ErrNotStruct, s))"

text \<open>\<open>EachPlan\<close>, without a target.\<close>

fun each_walk ::
  "nat \<Rightarrow> gtype \<Rightarrow> ('l fplan \<Rightarrow> 's \<Rightarrow> string option \<times> 's) \<Rightarrow> 'l rplan \<Rightarrow> 's \<Rightarrow> plan_err option \<times> 's"
and each_fields ::
  "nat \<Rightarrow> gtype \<Rightarrow> ('l fplan \<Rightarrow> 's \<Rightarrow> string option \<times> 's) \<Rightarrow> 'l fplan list \<Rightarrow> 's \<Rightarrow> plan_err option \<times> 's" where
  "each_walk k tt cb (RPlan tg ty fps) s = each_fields k tt cb fps s"
| "each_fields k tt cb [] s = (None, s)"
| "each_fields k tt cb (FPlan tags oks nm ty i sf child loc # fps) s =
     (case (case child of None \<Rightarrow> (None, s) | Some ch \<Rightarrow> each_walk k tt cb ch s) of
        (Some e, s1) \<Rightarrow> (Some e, s1)
      | (None, s1) \<Rightarrow>
          if \<not> oks ! k then each_fields k tt cb fps s1
          else if \<not> typeSliceMatch tt ty \<and> \<not> typeMatch tt ty then each_fields k tt cb fps s1
          else
            (case cb (FPlan tags oks nm ty i sf child loc) s1 of
               (Some e, s2) \<Rightarrow> (Some (CallbackErr e), s2)
             | (None, s2) \<Rightarrow> each_fields k tt cb fps s2))"

definition EachPlan ::
  "'l rplan option \<Rightarrow> string \<Rightarrow> gtype \<Rightarrow> ('l fplan \<Rightarrow> 's \<Rightarrow> string option \<times> 's) option \<Rightarrow> 's \<Rightarrow> plan_err option \<times> 's" where
  "EachPlan r tag tt callback s =
     (case (r, callback) of
        (Some rp, Some cb) \<Rightarrow>
          if tag = [] then (Some ErrNotStruct, s)
          else
            (case tag_index tag (rp_taglist rp) of
               None \<Rightarrow> (Some ErrNotRegisterdTag, s)
             | Some k \<Rightarrow> each_walk k tt cb rp s)
      | _ \<Rightarrow> (Some ErrNotStruct, s))"

subsection \<open>Fields of a target\<close>

text \<open>\<open>Accessor\<close> follows the index of the plan from the root of the target; the flag for slices is not set.\<close>

definition Accessor :: "gtype \<Rightarrow> nat \<Rightarrow> 'l fplan \<Rightarrow> target \<Rightarrow> 'l access option option" where
  "Accessor tt k fp tgt =
     (case tgt of
        Target t \<Rightarrow>
          (case elem_type t of
             TStruct _ _ _ fs \<Rightarrow>
               if \<not> typeMatch tt (fp_typ fp) then Some None
               else if fp_index fp \<ge> length fs then None
               else Some (Some \<lparr>ac_tagidx = k, ac_path = [fp_index fp], ac_ro = \<not> gf_exported (fs ! fp_index fp),
                                ac_type = gf_type (fs ! fp_index fp), ac_fp = fp, ac_slice = False\<rparr>)
           | _ \<Rightarrow> Some None)
      | _ \<Rightarrow> Some None)"

text \<open>Values. \<open>GNil\<close> is nil; an interface holds a value with its type.\<close>

datatype gval =
    GNil
  | GAtom "string option"
  | GStruct "gval list"
  | GPtr gval
  | GSlice "gval list"
  | GBox gtype gval

fun gzero :: "gtype \<Rightarrow> gval" and gzero_fields :: "gfield list \<Rightarrow> gval list" where
  "gzero (TBasic _ _ _) = GAtom None"
| "gzero (TStruct _ _ _ fs) = GStruct (gzero_fields fs)"
| "gzero (TPtr _) = GNil"
| "gzero (TSlice _) = GNil"
| "gzero (TIface _ _) = GNil"
| "gzero_fields [] = []"
| "gzero_fields (GField _ _ _ _ ty # fs) = gzero ty # gzero_fields fs"

fun get_at :: "nat list \<Rightarrow> gval \<Rightarrow> gval option" where
  "get_at [] v = Some v"
| "get_at (i # is) (GStruct vs) = (if i < length vs then get_at is (vs ! i) else None)"
| "get_at (i # is) v = None"

fun put_at :: "nat list \<Rightarrow> gval \<Rightarrow> gval \<Rightarrow> gval" where
  "put_at [] w v = w"
| "put_at (i # is) w (GStruct vs) = (if i < length vs then GStruct (vs[i := put_at is w (vs ! i)]) else GStruct vs)"
| "put_at (i # is) w v = v"

text \<open>
  A value of static type \<open>ft\<close> as the \<open>any\<close> that \<open>Interface()\<close> makes of it (\<open>None\<close>: the nil interface), and a
  value with its dynamic type as it is stored in a variable of type \<open>ft\<close>.
\<close>

definition to_any :: "gtype \<Rightarrow> gval \<Rightarrow> (gtype \<times> gval) option" where
  "to_any ft v = (if is_iface ft then (case v of GBox dt w \<Rightarrow> Some (dt, w) | _ \<Rightarrow> None) else Some (ft, v))"

definition store_as :: "gtype \<Rightarrow> gtype \<Rightarrow> gval \<Rightarrow> gval" where
  "store_as ft dt v = (if is_iface ft then GBox dt v else v)"

text \<open>Assignability and conversion are rules of the language, given by the reflection library.\<close>

record reflect_lib =
  rl_assignable :: "gtype \<Rightarrow> gtype \<Rightarrow> bool"
  rl_convertible :: "gtype \<Rightarrow> gtype \<Rightarrow> bool"
  rl_convert :: "gtype \<Rightarrow> gtype \<Rightarrow> gval \<Rightarrow> gval"

text \<open>\<open>settable\<close>: the target was passed as a pointer. The value is an \<open>any\<close>.\<close>

definition access_Set :: "reflect_lib \<Rightarrow> bool \<Rightarrow> 'l access \<Rightarrow> (gtype \<times> gval) option \<Rightarrow> gval \<Rightarrow> gval" where
  "access_Set lib settable a value tgt =
     (if \<not> settable \<or> ac_ro a then tgt
      else
        (case value of
           None \<Rightarrow> put_at (ac_path a) (gzero (ac_type a)) tgt
         | Some (dt, v) \<Rightarrow>
             if rl_assignable lib dt (ac_type a) then put_at (ac_path a) (store_as (ac_type a) dt v) tgt
             else if rl_convertible lib dt (ac_type a) then put_at (ac_path a) (rl_convert lib dt (ac_type a) v) tgt
             else tgt))"

text \<open>The element \<open>SetFillSlice\<close> hands to \<open>fill\<close>, and where it puts the answer.\<close>

definition fill_proto :: "gtype \<Rightarrow> (gtype \<times> gval) option" where
  "fill_proto et = (case et of TPtr e \<Rightarrow> Some (et, GPtr (gzero e)) | _ \<Rightarrow> to_any et (gzero et))"

definition fill_place :: "reflect_lib \<Rightarrow> gtype \<Rightarrow> (gtype \<times> gval) option \<Rightarrow> gval" where
  "fill_place lib et vv =
     (case vv of
        None \<Rightarrow> gzero et
      | Some (dt, v) \<Rightarrow>
          if rl_assignable lib dt et then store_as et dt v
          else if rl_convertible lib dt et then rl_convert lib dt et v
          else
            (case et of
               TPtr e \<Rightarrow>
                 if rl_assignable lib dt e then GPtr (store_as e dt v)
                 else if rl_convertible lib dt e then GPtr (rl_convert lib dt e v)
                 else GNil
             | _ \<Rightarrow> gzero et))"

definition SetFillSlice ::
  "reflect_lib \<Rightarrow> bool \<Rightarrow> 'l access \<Rightarrow> int \<Rightarrow>
    (nat \<Rightarrow> (gtype \<times> gval) option \<Rightarrow> (gtype \<times> gval) option \<times> bool) option \<Rightarrow> gval \<Rightarrow> gval" where
  "SetFillSlice lib settable a len fill tgt =
     (if \<not> settable \<or> ac_ro a then tgt
      else
        (case ac_type a of
           TSlice et \<Rightarrow>
             put_at (ac_path a)
               (GSlice (map (\<lambda>i. case fill of
                               None \<Rightarrow> gzero et
                             | Some f \<Rightarrow> (case f i (fill_proto et) of (vv, ok) \<Rightarrow> if ok then fill_place lib et vv else gzero et))
                          [0..<nat len])) tgt
         | _ \<Rightarrow> tgt))"

text \<open>
  \<open>Get\<close>: the value of type \<open>tt\<close>. Reading an unexported field, a type assertion that fails and the type of a nil interface
  are panics. Elements of a slice that fit in no way stay zero.
\<close>

definition get_elem :: "reflect_lib \<Rightarrow> gtype \<Rightarrow> gtype \<Rightarrow> gval \<Rightarrow> gval option" where
  "get_elem lib et ef v =
     (case to_any ef v of
        None \<Rightarrow> None
      | Some (dt, w) \<Rightarrow>
          Some (if rl_assignable lib dt et then store_as et dt w
                else if rl_convertible lib dt et then rl_convert lib dt et w
                else (case et of TPtr e \<Rightarrow> if rl_assignable lib dt e then GPtr (store_as e dt w) else GNil | _ \<Rightarrow> gzero et)))"

definition type_assert :: "gtype \<Rightarrow> (gtype \<times> gval) option \<Rightarrow> gval option" where
  "type_assert tt v =
     (case v of
        None \<Rightarrow> None
      | Some (dt, w) \<Rightarrow>
          if is_iface tt then (if implements dt tt then Some (GBox dt w) else None)
          else if dt = tt then Some w else None)"

fun all_elems :: "('a \<Rightarrow> 'b option) \<Rightarrow> 'a list \<Rightarrow> 'b list option" where
  "all_elems f [] = Some []"
| "all_elems f (x # xs) =
     (case f x of None \<Rightarrow> None | Some y \<Rightarrow> map_option ((#) y) (all_elems f xs))"

definition access_Get :: "reflect_lib \<Rightarrow> gtype \<Rightarrow> 'l access \<Rightarrow> gval \<Rightarrow> gval option" where
  "access_Get lib tt a tgt =
     (case get_at (ac_path a) tgt of
        None \<Rightarrow> None
      | Some fv \<Rightarrow>
          if \<not> ac_slice a then
            (if is_ptr (ac_type a) \<and> fv = GNil then Some (gzero tt)
             else if ac_ro a then None
             else type_assert tt (to_any (ac_type a) fv))
          else
            (case (ac_type a, tt) of
               (TSlice ef, TSlice et) \<Rightarrow>
                 if ac_ro a then Some (GSlice (map (\<lambda>_. gzero et) (case fv of GSlice vs \<Rightarrow> vs | _ \<Rightarrow> [])))
                 else map_option GSlice (all_elems (get_elem lib et ef) (case fv of GSlice vs \<Rightarrow> vs | _ \<Rightarrow> []))
             | _ \<Rightarrow> Some (gzero tt)))"

subsection \<open>Which fields are visited\<close>

text \<open>
  The fields of a struct type that a plan can know, with their paths: \<open>leaf_fields\<close> has those that are no
  structs, in depth-first order, \<open>all_fields\<close> the structs too, each after its own fields.
\<close>

fun leaf_fields :: "nat list \<Rightarrow> nat \<Rightarrow> gfield list \<Rightarrow> (nat list \<times> gfield) list"
and leaves_of :: "nat list \<Rightarrow> gtype \<Rightarrow> (nat list \<times> gfield) list option" where
  "leaf_fields path i [] = []"
| "leaf_fields path i (GField nm exported embedded tag ty # fs) =
     (if \<not> exported \<and> \<not> embedded then []
      else case leaves_of (path @ [i]) ty of Some ls \<Rightarrow> ls | None \<Rightarrow> [(path @ [i], GField nm exported embedded tag ty)]) @
     leaf_fields path (Suc i) fs"
| "leaves_of path (TStruct n vm pm fs) = Some (leaf_fields path 0 fs)"
| "leaves_of path (TBasic n vm pm) = None"
| "leaves_of path (TPtr t) = None"
| "leaves_of path (TSlice t) = None"
| "leaves_of path (TIface n ms) = None"

fun all_fields :: "nat list \<Rightarrow> nat \<Rightarrow> gfield list \<Rightarrow> (nat list \<times> gfield) list"
and below :: "nat list \<Rightarrow> gtype \<Rightarrow> (nat list \<times> gfield) list" where
  "all_fields path i [] = []"
| "all_fields path i (GField nm exported embedded tag ty # fs) =
     (if \<not> exported \<and> \<not> embedded then []
      else below (path @ [i]) ty @ [(path @ [i], GField nm exported embedded tag ty)]) @ all_fields path (Suc i) fs"
| "below path (TStruct n vm pm fs) = all_fields path 0 fs"
| "below path (TBasic n vm pm) = []"
| "below path (TPtr t) = []"
| "below path (TSlice t) = []"
| "below path (TIface n ms) = []"

fun is_struct :: "gtype \<Rightarrow> bool" where
  "is_struct (TStruct _ _ _ _) = True"
| "is_struct _ = False"

lemma leaves_of_None: "leaves_of path ty = None \<longleftrightarrow> \<not> is_struct ty"
  by (cases ty) simp_all

lemma plan_of_None: "plan_of tg init ty = None \<longleftrightarrow> \<not> is_struct ty"
  by (cases ty) simp_all

lemma below_no_struct: "\<not> is_struct ty \<Longrightarrow> below path ty = []"
  by (cases ty) simp_all

lemma leaf_fields_are_all_but_structs:
  "leaf_fields path i fs = filter (\<lambda>(p, f). \<not> is_struct (gf_type f)) (all_fields path i fs)"
  "leaves_of path ty = (if is_struct ty then Some (filter (\<lambda>(p, f). \<not> is_struct (gf_type f)) (below path ty)) else None)"
  by (induction path i fs and path ty rule: leaf_fields_leaves_of.induct)
     (auto simp: leaves_of_None below_no_struct)

definition wanted :: "string \<Rightarrow> gtype \<Rightarrow> nat list \<times> gfield \<Rightarrow> bool" where
  "wanted tag tt pf \<longleftrightarrow>
     map_of (gf_tag (snd pf)) tag \<noteq> None \<and> (typeSliceMatch tt (gf_type (snd pf)) \<or> typeMatch tt (gf_type (snd pf)))"

definition field_plan :: "string list \<Rightarrow> (string \<Rightarrow> string list \<Rightarrow> bool list \<Rightarrow> 'l) \<Rightarrow> nat list \<times> gfield \<Rightarrow> 'l fplan" where
  "field_plan tg init pf =
     FPlan (field_tags tg (snd pf)) (field_tagoks tg (snd pf)) (gf_name (snd pf)) (gf_type (snd pf)) (last (fst pf)) (snd pf)
       (plan_of tg init (gf_type (snd pf))) (init (gf_name (snd pf)) (field_tags tg (snd pf)) (field_tagoks tg (snd pf)))"

definition field_access ::
  "string list \<Rightarrow> (string \<Rightarrow> string list \<Rightarrow> bool list \<Rightarrow> 'l) \<Rightarrow> nat \<Rightarrow> gtype \<Rightarrow> nat list \<times> gfield \<Rightarrow> 'l access" where
  "field_access tg init k tt pf =
     \<lparr>ac_tagidx = k, ac_path = fst pf, ac_ro = \<not> gf_exported (snd pf), ac_type = gf_type (snd pf),
      ac_fp = field_plan tg init pf, ac_slice = typeSliceMatch tt (gf_type (snd pf))\<rparr>"

lemma tag_index_nth: "tag_index t xs = Some k \<Longrightarrow> k < length xs \<and> xs ! k = t"
  by (induction xs arbitrary: k) (auto split: if_splits)

lemma tag_index_set: "t \<in> set xs \<Longrightarrow> \<exists>k. tag_index t xs = Some k"
  by (induction xs) auto

lemma tagoks_nth: "k < length tg \<Longrightarrow> field_tagoks tg f ! k \<longleftrightarrow> map_of (gf_tag f) (tg ! k) \<noteq> None"
  by (simp add: field_tagoks_def)

lemma drop_is_Cons: "drop i fs = f # gs \<Longrightarrow> i < length fs \<and> fs ! i = f \<and> drop (Suc i) fs = gs"
  by (metis drop_Suc drop_all linorder_not_le list.sel(3) neq_Nil_conv nth_via_drop tl_drop)

lemma exec_fields_leaf:
  assumes "k < length tg" "tg ! k = tag" "i < length fs" "fs ! i = f" "\<not> is_struct (gf_type f)"
    and "field_plan tg init (path @ [i], f) = fp"
  shows "exec_fields k tt cb path fs (fp # fps) s =
     (if \<not> wanted tag tt (path @ [i], f) then exec_fields k tt cb path fs fps s
      else
        (case cb (field_access tg init k tt (path @ [i], f)) s of
           (Some e, s') \<Rightarrow> Some (Some (CallbackErr e), s')
         | (None, s') \<Rightarrow> exec_fields k tt cb path fs fps s'))"
proof -
  have c: "plan_of tg init (gf_type f) = None" using assms(5) by (simp add: plan_of_None)
  show ?thesis
    using assms(1-5) unfolding assms(6) [symmetric] field_plan_def
    by (simp add: c wanted_def field_access_def field_plan_def tagoks_nth)
qed

lemma exec_fields_struct:
  assumes "i < length fs" "fs ! i = f" "plan_of tg init (gf_type f) = Some ch"
    and "field_plan tg init (path @ [i], f) = fp"
  shows "exec_fields k tt cb path fs (fp # fps) s =
     (case exec_walk k tt cb (path @ [i]) (gf_type f) ch s of
        None \<Rightarrow> None
      | Some (_, s') \<Rightarrow> exec_fields k tt cb path fs fps s')"
  using assms(1-3) unfolding assms(4) [symmetric] field_plan_def
  by (cases "gf_type f") simp_all

lemma plan_fields_Cons:
  "plan_fields tg init i (f # fs) =
     (if \<not> gf_exported f \<and> \<not> gf_embedded f then plan_fields tg init (Suc i) fs
      else field_plan tg init (path @ [i], f) # plan_fields tg init (Suc i) fs)"
  by (cases f) (simp add: field_plan_def Let_def)

lemma exec_visits:
  assumes "\<And>a s. fst (cb a s) = None"
  shows "k < length tg \<Longrightarrow> tg ! k = tag \<Longrightarrow> plan_of tg init ty = Some rp \<Longrightarrow>
      exec_walk k tt cb path ty rp s =
        Some (None, fold (\<lambda>pf s. snd (cb (field_access tg init k tt pf) s)) (filter (wanted tag tt) (the (leaves_of path ty))) s)"
    and "k < length tg \<Longrightarrow> tg ! k = tag \<Longrightarrow> drop i fs = gs \<Longrightarrow> 
      exec_fields k tt cb path fs (plan_fields tg init i gs) s =
        Some (None, fold (\<lambda>pf s. snd (cb (field_access tg init k tt pf) s)) (filter (wanted tag tt) (leaf_fields path i gs)) s)"
proof (induction tg init ty and tg init i gs arbitrary: path rp s and path fs s rule: plan_of_plan_fields.induct)
  case (7 tg init i nm exported embedded tag' ty gs)
  let ?f = "GField nm exported embedded tag' ty"
  have i: "i < length fs" "fs ! i = ?f" "drop (Suc i) fs = gs"
    using drop_is_Cons [OF 7(5)] by simp_all
  note rest = 7(1) [OF refl 7(3,4) i(3)]
  show ?case
  proof (cases "\<not> exported \<and> \<not> embedded")
    case True
    then show ?thesis using rest by simp
  next
    case False
    note IH = 7(2) [OF refl refl False 7(3,4)]
    let ?fp = "field_plan tg init (path @ [i], ?f)"
    have fps: "plan_fields tg init i (?f # gs) = ?fp # plan_fields tg init (Suc i) gs"
      using False by (subst plan_fields_Cons [of _ _ _ _ _ path]) simp
    show ?thesis
    proof (cases "plan_of tg init ty")
      case None
      then have none: "\<not> is_struct ty" "leaves_of (path @ [i]) ty = None"
        by (simp_all add: plan_of_None leaves_of_None)
      have cb: "cb a s = (None, snd (cb a s))" for a s using assms [of a s] by (simp add: prod_eq_iff)
      have leaves: "leaf_fields path i (?f # gs) = (path @ [i], ?f) # leaf_fields path (Suc i) gs"
        using False none by simp
      show ?thesis
        unfolding fps leaves exec_fields_leaf [OF 7(3,4) i(1,2), unfolded gfield.sel, OF none(1) refl]
        by (subst cb) (simp add: rest)
    next
      case (Some ch)
      then obtain ls where ls: "leaves_of (path @ [i]) ty = Some ls" by (cases ty) simp_all
      then have leaves: "leaf_fields path i (?f # gs) = the (leaves_of (path @ [i]) ty) @ leaf_fields path (Suc i) gs"
        using False by auto
      show ?thesis
        unfolding fps leaves exec_fields_struct [OF i(1,2), unfolded gfield.sel, OF Some refl] IH [OF Some]
        by (simp add: rest)
    qed
  qed
qed auto

lemma each_fields_step:
  fixes cb :: "'l fplan \<Rightarrow> 's \<Rightarrow> string option \<times> 's"
  assumes "k < length tg" "tg ! k = tag" "field_plan tg init pf = fp"
  shows "each_fields k tt cb (fp # fps) s =
     (case (case plan_of tg init (gf_type (snd pf)) of None \<Rightarrow> (None, s) | Some ch \<Rightarrow> each_walk k tt cb ch s) of
        (Some e, s1) \<Rightarrow> (Some e, s1)
      | (None, s1) \<Rightarrow>
          if \<not> wanted tag tt pf then each_fields k tt cb fps s1
          else
            (case cb fp s1 of
               (Some e, s2) \<Rightarrow> (Some (CallbackErr e), s2)
             | (None, s2) \<Rightarrow> each_fields k tt cb fps s2))"
proof -
  have merge: "(if \<not> a then X else if \<not> b \<and> \<not> c then X else Y) = (if \<not> (a \<and> (b \<or> c)) then X else Y)"
    for a b c and X Y :: "plan_err option \<times> 's" by simp
  show ?thesis
    unfolding assms(3) [symmetric] field_plan_def each_fields.simps merge tagoks_nth [OF assms(1)] assms(2)
      wanted_def ..
qed

lemma each_visits:
  assumes "\<And>fp s. fst (cb fp s) = None"
  shows "k < length tg \<Longrightarrow> tg ! k = tag \<Longrightarrow> plan_of tg init ty = Some rp \<Longrightarrow>
      each_walk k tt cb rp s = (None, fold (\<lambda>pf s. snd (cb (field_plan tg init pf) s)) (filter (wanted tag tt) (below path ty)) s)"
    and "k < length tg \<Longrightarrow> tg ! k = tag \<Longrightarrow>
      each_fields k tt cb (plan_fields tg init i gs) s =
        (None, fold (\<lambda>pf s. snd (cb (field_plan tg init pf) s)) (filter (wanted tag tt) (all_fields path i gs)) s)"
proof (induction tg init ty and tg init i gs arbitrary: path rp s and path s rule: plan_of_plan_fields.induct)
  case (1 tg init n vm pm fs)
  have rp: "rp = RPlan tg (TStruct n vm pm fs) (plan_fields tg init 0 fs)" using 1(4) by simp
  show ?case unfolding rp each_walk.simps below.simps by (rule 1(1) [OF 1(2,3)])
next
  case (7 tg init i nm exported embedded tag' ty gs)
  let ?f = "GField nm exported embedded tag' ty"
  note rest = 7(1) [OF refl 7(3,4)]
  show ?case
  proof (cases "\<not> exported \<and> \<not> embedded")
    case True
    then show ?thesis using rest by simp
  next
    case False
    note IH = 7(2) [OF refl refl False 7(3,4)]
    have fps: "plan_fields tg init i (?f # gs) = field_plan tg init (path @ [i], ?f) # plan_fields tg init (Suc i) gs"
      using False by (subst plan_fields_Cons [of _ _ _ _ _ path]) simp
    have inner: "(case plan_of tg init ty of None \<Rightarrow> (None, s) | Some ch \<Rightarrow> each_walk k tt cb ch s) =
        (None, fold (\<lambda>pf s. snd (cb (field_plan tg init pf) s)) (filter (wanted tag tt) (below (path @ [i]) ty)) s)"
    proof (cases "plan_of tg init ty")
      case None
      then have "below (path @ [i]) ty = []" by (simp add: plan_of_None below_no_struct)
      with None show ?thesis by simp
    qed (simp add: IH)
    have fields: "all_fields path i (?f # gs) = below (path @ [i]) ty @ (path @ [i], ?f) # all_fields path (Suc i) gs"
      using False by simp
    have cb: "cb fp s = (None, snd (cb fp s))" for fp s using assms [of fp s] by (simp add: prod_eq_iff)
    show ?thesis
      unfolding fps fields each_fields_step [OF 7(3,4) refl] snd_conv gfield.sel inner
      by (subst cb) (simp add: rest)
  qed
qed simp_all

text \<open>The field at a path.\<close>

fun field_at :: "nat list \<Rightarrow> gfield list \<Rightarrow> gfield option" where
  "field_at [] fs = None"
| "field_at [i] fs = (if i < length fs then Some (fs ! i) else None)"
| "field_at (i # j # is) fs =
     (if i < length fs then (case gf_type (fs ! i) of TStruct _ _ _ gs \<Rightarrow> field_at (j # is) gs | _ \<Rightarrow> None) else None)"

lemma field_at_no_fields [simp]: "field_at p [] = None"
  by (induction p "[] :: gfield list" rule: field_at.induct) simp_all

lemma all_fields_at:
  "drop i fs = gs \<Longrightarrow> (p, f) \<in> set (all_fields path i gs) \<Longrightarrow> \<exists>q. p = path @ q \<and> q \<noteq> [] \<and> field_at q fs = Some f"
  "(p, f) \<in> set (below path ty) \<Longrightarrow> \<exists>n vm pm hs q. ty = TStruct n vm pm hs \<and> p = path @ q \<and> q \<noteq> [] \<and> field_at q hs = Some f"
proof (induction path i gs and path ty arbitrary: fs and rule: all_fields_below.induct)
  case (2 path i nm exported embedded tag ty gs)
  let ?f = "GField nm exported embedded tag ty"
  have i: "i < length fs" "fs ! i = ?f" "drop (Suc i) fs = gs"
    using drop_is_Cons [OF 2(3)] by simp_all
  consider "(p, f) \<in> set (below (path @ [i]) ty)" "\<not> (\<not> exported \<and> \<not> embedded)" | "(p, f) = (path @ [i], ?f)"
    | "(p, f) \<in> set (all_fields path (Suc i) gs)"
    using 2(4) by (auto split: if_splits)
  then show ?case
  proof cases
    case 1
    then obtain n vm pm hs q where q: "ty = TStruct n vm pm hs" "p = (path @ [i]) @ q" "q \<noteq> []" "field_at q hs = Some f"
      using 2(1) by blast
    then have "field_at (i # q) fs = Some f" by (cases q) (simp_all add: i)
    with q(2) show ?thesis by (intro exI [of _ "i # q"]) simp
  next
    case 2
    then show ?thesis by (intro exI [of _ "[i]"]) (simp add: i)
  next
    case 3
    then show ?thesis using \<open>drop (Suc i) fs = gs\<close> 2(2) by blast
  qed
next
  case (3 path n vm pm fs)
  then show ?case by fastforce
qed simp_all

text \<open>The plan of a type, and what the fields of the type are.\<close>

lemma NewReflectPlan_SomeE:
  assumes "NewReflectPlan t tg init = Some rp"
  obtains n vm pm fs where "elem_type t = TStruct n vm pm fs" "plan_of tg init (elem_type t) = Some rp"
    "rp_taglist rp = tg" "rp = RPlan tg (TStruct n vm pm fs) (plan_fields tg init 0 fs)"
  using assms by (cases "elem_type t") (auto simp: NewReflectPlan_def)

fun struct_fields :: "gtype \<Rightarrow> gfield list" where
  "struct_fields (TStruct _ _ _ fs) = fs"
| "struct_fields _ = []"

definition plan_visits :: "string \<Rightarrow> gtype \<Rightarrow> gtype \<Rightarrow> (nat list \<times> gfield) list" where
  "plan_visits tag tt t = filter (wanted tag tt) (all_fields [] 0 (struct_fields (elem_type t)))"

text \<open>C38. Which fields a plan visits, and in which order. With callbacks that do not fail, \<open>EachPlan\<close> visits every field that
  has the tag and the type, those of nested structs first and then the struct itself; \<open>ExecutePlan\<close>, on a target of the plan's type,
  never panics and visits the same fields in the same order except those that are structs themselves, whatever their
  tags; and each path leads to the field it was made for. (The comment on \<open>EachPlan\<close> promises the same behaviour.)\<close>

theorem plans_visit_the_same_fields:
  assumes "NewReflectPlan t tg init = Some rp" "tag \<in> set tg" "tag \<noteq> []" "elem_type t' = elem_type t"
    and "\<And>a s. fst (cb a s) = None" "\<And>fp s. fst (cb' fp s) = None"
  shows "\<exists>k. tag_index tag tg = Some k \<and>
      ExecutePlan (Some rp) tag tt (Target t') (Some cb) s =
        Some (None, fold (\<lambda>pf s. snd (cb (field_access tg init k tt pf) s))
                      (filter (\<lambda>pf. \<not> is_struct (gf_type (snd pf))) (plan_visits tag tt t)) s) \<and>
      EachPlan (Some rp) tag tt (Some cb') s' =
        (None, fold (\<lambda>pf s. snd (cb' (field_plan tg init pf) s)) (plan_visits tag tt t) s') \<and>
      (\<forall>(p, f) \<in> set (plan_visits tag tt t). field_at p (struct_fields (elem_type t)) = Some f)"
proof -
  obtain n vm pm fs where t: "elem_type t = TStruct n vm pm fs" "plan_of tg init (elem_type t) = Some rp" "rp_taglist rp = tg"
    using assms(1) by (rule NewReflectPlan_SomeE)
  obtain k where k: "tag_index tag tg = Some k" "k < length tg" "tg ! k = tag"
    using tag_index_set [OF assms(2)] tag_index_nth by blast
  have "(p, f) \<in> set (plan_visits tag tt t) \<Longrightarrow> field_at p fs = Some f" for p f
    using all_fields_at(1) [of 0 fs fs p f "[]"] by (auto simp: plan_visits_def t)
  moreover have "filter (wanted tag tt) (leaf_fields [] 0 fs) = filter (\<lambda>pf. \<not> is_struct (gf_type (snd pf))) (plan_visits tag tt t)"
    by (simp add: leaf_fields_are_all_but_structs plan_visits_def t case_prod_beta conj_commute)
  ultimately show ?thesis
    using exec_visits(1) [OF assms(5) k(2,3) t(2)] each_visits(1) [OF assms(6) k(2,3) t(2), where path = "[]"] assms(3,4) k(1)
    by (auto simp: ExecutePlan_def EachPlan_def t plan_visits_def)
qed

subsection \<open>Errors\<close>

lemma exec_total:
  "k < length tg \<Longrightarrow> plan_of tg init ty = Some rp \<Longrightarrow> \<exists>r. exec_walk k tt cb path ty rp s = Some r"
  "k < length tg \<Longrightarrow> drop i fs = gs \<Longrightarrow> \<exists>r. exec_fields k tt cb path fs (plan_fields tg init i gs) s = Some r"
proof (induction tg init ty and tg init i gs arbitrary: path rp s and path fs s rule: plan_of_plan_fields.induct)
  case (7 tg init i nm exported embedded tag' ty gs)
  let ?f = "GField nm exported embedded tag' ty"
  have i: "i < length fs" "fs ! i = ?f" "drop (Suc i) fs = gs"
    using drop_is_Cons [OF 7(4)] by simp_all
  note rest = 7(1) [OF refl 7(3) i(3)]
  show ?case
  proof (cases "\<not> exported \<and> \<not> embedded")
    case True
    then show ?thesis using rest by simp
  next
    case False
    note IH = 7(2) [OF refl refl False 7(3)]
    have fps: "plan_fields tg init i (?f # gs) = field_plan tg init (path @ [i], ?f) # plan_fields tg init (Suc i) gs"
      using False by (subst plan_fields_Cons [of _ _ _ _ _ path]) simp
    show ?thesis
    proof (cases "plan_of tg init ty")
      case None
      then have none: "\<not> is_struct (gf_type ?f)" by (simp add: plan_of_None)
      show ?thesis
        unfolding fps exec_fields_leaf [OF 7(3) refl i(1,2) none refl]
        using rest by (auto split: option.splits prod.splits)
    next
      case (Some ch)
      then show ?thesis
        unfolding fps exec_fields_struct [OF i(1,2), unfolded gfield.sel, OF Some refl]
        using rest IH [OF Some] by (auto split: option.splits prod.splits)
    qed
  qed
qed auto

lemma exec_top_level:
  assumes "\<And>a s. length (ac_path a) = 1 \<Longrightarrow> fst (cb a s) = None" "k < length tg"
  shows "drop i fs = gs \<Longrightarrow> \<exists>s'. exec_fields k tt cb [] fs (plan_fields tg init i gs) s = Some (None, s')"
proof (induction gs arbitrary: i s)
  case (Cons f gs)
  have i: "i < length fs" "fs ! i = f" "drop (Suc i) fs = gs"
    using drop_is_Cons [OF Cons.prems] by simp_all
  note rest = Cons.IH [OF i(3)]
  show ?case
  proof (cases "\<not> gf_exported f \<and> \<not> gf_embedded f")
    case True
    then show ?thesis using rest by (subst plan_fields_Cons [of _ _ _ _ _ "[]"]) simp
  next
    case False
    have fps: "plan_fields tg init i (f # gs) = field_plan tg init ([] @ [i], f) # plan_fields tg init (Suc i) gs"
      using False by (subst plan_fields_Cons [of _ _ _ _ _ "[]"]) simp
    show ?thesis
    proof (cases "plan_of tg init (gf_type f)")
      case None
      then have none: "\<not> is_struct (gf_type f)" by (simp add: plan_of_None)
      have "fst (cb (field_access tg init k tt ([] @ [i], f)) s) = None"
        by (rule assms(1)) (simp add: field_access_def)
      then show ?thesis
        unfolding fps exec_fields_leaf [OF assms(2) refl i(1,2) none refl]
        using rest by (auto split: option.splits prod.splits)
    next
      case (Some ch)
      then show ?thesis
        unfolding fps exec_fields_struct [OF i(1,2) Some refl]
        using rest exec_total(1) [OF assms(2) Some, of tt cb "[] @ [i]" s] by (auto split: option.splits prod.splits)
    qed
  qed
qed simp

lemma each_fails:
  assumes "\<And>fp s. fst (cb fp s) \<noteq> None"
  shows "k < length tg \<Longrightarrow> tg ! k = tag \<Longrightarrow> plan_of tg init ty = Some rp \<Longrightarrow>
      fst (each_walk k tt cb rp s) = None \<Longrightarrow> filter (wanted tag tt) (below path ty) = []"
    and "k < length tg \<Longrightarrow> tg ! k = tag \<Longrightarrow>
      fst (each_fields k tt cb (plan_fields tg init i gs) s) = None \<Longrightarrow> filter (wanted tag tt) (all_fields path i gs) = []"
proof (induction tg init ty and tg init i gs arbitrary: path rp s and path s rule: plan_of_plan_fields.induct)
  case (1 tg init n vm pm fs)
  have rp: "rp = RPlan tg (TStruct n vm pm fs) (plan_fields tg init 0 fs)" using 1(4) by simp
  show ?case unfolding below.simps by (rule 1(1) [OF 1(2,3)]) (use 1(5) rp in simp)
next
  case (7 tg init i nm exported embedded tag' ty gs)
  let ?f = "GField nm exported embedded tag' ty"
  note rest = 7(1) [OF refl 7(3,4)]
  show ?case
  proof (cases "\<not> exported \<and> \<not> embedded")
    case True
    then show ?thesis using rest 7(5) by simp
  next
    case False
    note IH = 7(2) [OF refl refl False 7(3,4)]
    have fps: "plan_fields tg init i (?f # gs) = field_plan tg init (path @ [i], ?f) # plan_fields tg init (Suc i) gs"
      using False by (subst plan_fields_Cons [of _ _ _ _ _ path]) simp
    have fields: "all_fields path i (?f # gs) = below (path @ [i]) ty @ (path @ [i], ?f) # all_fields path (Suc i) gs"
      using False by simp
    obtain s1 where s1: "(case plan_of tg init ty of None \<Rightarrow> (None, s) | Some ch \<Rightarrow> each_walk k tt cb ch s) = (None, s1)"
      "\<not> wanted tag tt (path @ [i], ?f)" "fst (each_fields k tt cb (plan_fields tg init (Suc i) gs) s1) = None"
      using 7(5) assms unfolding fps each_fields_step [OF 7(3,4) refl] snd_conv gfield.sel
      by (auto split: option.splits prod.splits if_splits) (metis fst_conv option.distinct(1))+
    have "filter (wanted tag tt) (below (path @ [i]) ty) = []"
    proof (cases "plan_of tg init ty")
      case None
      then show ?thesis by (simp add: plan_of_None below_no_struct)
    next
      case (Some ch)
      with s1(1) have "fst (each_walk k tt cb ch s) = None" by simp
      then show ?thesis by (rule IH [OF Some])
    qed
    with s1(2) rest [OF s1(3)] show ?thesis unfolding fields by simp
  qed
qed auto

text \<open>An error from a field of a nested struct is lost by \<open>ExecutePlan\<close>: when the fields of the target itself cause
  none, the walk ends without an error, whatever the callbacks of nested fields returned. \<open>EachPlan\<close> does report it:
  with a callback that always fails it returns no error only if there is no field to visit.\<close>

theorem nested_errors_are_dropped:
  assumes "NewReflectPlan t tg init = Some rp" "tag \<in> set tg" "tag \<noteq> []" "elem_type t' = elem_type t"
    and "\<And>a s. length (ac_path a) = 1 \<Longrightarrow> fst (cb a s) = None" "\<And>fp s. fst (cb' fp s) \<noteq> None"
  shows "(\<exists>s1. ExecutePlan (Some rp) tag tt (Target t') (Some cb) s = Some (None, s1)) \<and>
    (plan_visits tag tt t \<noteq> [] \<longrightarrow> fst (EachPlan (Some rp) tag tt (Some cb') s') \<noteq> None)"
proof -
  obtain n vm pm fs where t: "elem_type t = TStruct n vm pm fs" "plan_of tg init (elem_type t) = Some rp" "rp_taglist rp = tg"
    "rp = RPlan tg (TStruct n vm pm fs) (plan_fields tg init 0 fs)"
    using assms(1) by (rule NewReflectPlan_SomeE)
  obtain k where k: "tag_index tag tg = Some k" "k < length tg" "tg ! k = tag"
    using tag_index_set [OF assms(2)] tag_index_nth by blast
  show ?thesis
    using exec_top_level [where cb = cb, OF assms(5) k(2), where i = 0 and fs = fs and gs = fs and tt = tt and init = init and s = s] each_fails(1) [where cb = cb', OF assms(6) k(2,3) t(2), where tt = tt and s = s' and path = "[]"]
      assms(3,4) k(1)
    by (auto simp: ExecutePlan_def EachPlan_def t(1,3) t(4) plan_visits_def)
qed

subsection \<open>Reading and writing\<close>

lemma get_put: "get_at p tgt \<noteq> None \<Longrightarrow> get_at p (put_at p w tgt) = Some w"
  by (induction p w tgt rule: put_at.induct) (auto split: if_splits)

lemma put_put: "put_at p v (put_at p w tgt) = put_at p v tgt"
  by (induction p w tgt rule: put_at.induct) auto

lemma get_put_other:
  "\<not> prefix p q \<Longrightarrow> \<not> prefix q p \<Longrightarrow> get_at q (put_at p w tgt) = get_at q tgt"
proof (induction p w tgt arbitrary: q rule: put_at.induct)
  case (2 i "is" w vs)
  then show ?case by (cases q) (auto simp: nth_list_update)
qed auto

text \<open>A value that is set is read back: on an access to an exported field of a target passed as a pointer, \<open>Get\<close> after \<open>Set\<close>
  gives the value, boxed when the field is an interface; other fields keep what they had, and setting a second value
  forgets the first. Without a pointer, or on an unexported field, \<open>Set\<close> does nothing and says nothing.\<close>

theorem access_roundtrip:
  assumes "get_at (ac_path a) tgt \<noteq> None" "\<not> ac_ro a" "\<not> ac_slice a"
    and "rl_assignable lib dt (ac_type a)" "is_iface (ac_type a) \<Longrightarrow> implements dt (ac_type a)"
  shows "access_Get lib (ac_type a) a (access_Set lib True a (Some (dt, v)) tgt) = Some (store_as (ac_type a) dt v) \<and>
    (\<forall>q. \<not> prefix (ac_path a) q \<and> \<not> prefix q (ac_path a) \<longrightarrow>
       get_at q (access_Set lib True a (Some (dt, v)) tgt) = get_at q tgt) \<and>
    access_Set lib True a (Some (dt, v)) (access_Set lib True a x tgt) = access_Set lib True a (Some (dt, v)) tgt \<and>
    access_Set lib False a x tgt = tgt"
proof -
  let ?w = "store_as (ac_type a) dt v"
  have set: "access_Set lib True a (Some (dt, v)) tg = put_at (ac_path a) ?w tg" for tg
    using assms by (simp add: access_Set_def)
  have "access_Get lib (ac_type a) a (put_at (ac_path a) ?w tgt) = Some ?w"
  proof (cases "is_ptr (ac_type a) \<and> ?w = GNil")
    case True
    then show ?thesis
      using assms by (cases "ac_type a") (simp_all add: access_Get_def get_put)
  next
    case False
    then show ?thesis
      using assms by (auto simp: access_Get_def get_put type_assert_def to_any_def store_as_def)
  qed
  moreover have "access_Set lib True a (Some (dt, v)) (access_Set lib True a x tgt) = put_at (ac_path a) ?w tgt"
    unfolding set by (cases x) (auto simp: access_Set_def put_put)
  moreover have "access_Set lib False a x tgt = tgt" by (simp add: access_Set_def)
  ultimately show ?thesis by (simp add: set get_put_other)
qed

text \<open>When \<open>Get\<close> panics, on a field that the walk found by its type. On a field that is no interface: exactly when \<open>T\<close> is an
  interface that only the pointer to the field's type implements (the walk accepts such a field) or when the field is not
  exported. On a field that is an interface: when it is nil, or when what it holds has not the methods of \<open>T\<close>. A nil
  pointer is read as the zero value instead.\<close>

theorem get_panics:
  assumes "get_at (ac_path a) tgt = Some fv" "\<not> ac_slice a" "typeMatch tt (ac_type a)"
    and "is_iface (ac_type a) \<Longrightarrow> fv = GNil \<or> (\<exists>dt w. fv = GBox dt w)"
  shows "access_Get lib tt a tgt = None \<longleftrightarrow>
    \<not> (is_ptr (ac_type a) \<and> fv = GNil) \<and>
    (ac_ro a \<or>
     (if is_iface (ac_type a) then fv = GNil \<or> (\<exists>dt w. fv = GBox dt w \<and> \<not> (if is_iface tt then implements dt tt else dt = tt))
      else is_iface tt \<and> \<not> implements (ac_type a) tt))"
  using assms by (auto simp: access_Get_def type_assert_def to_any_def typeMatch_def)

text \<open>\<open>Accessor\<close> on a field that \<open>EachPlan\<close> visited reaches that field when it is one of the target's own. For a field of a nested struct
  it reaches the target's own field with the same number, of whatever type, or panics when there is none.\<close>

theorem accessor_ignores_nesting:
  assumes "(p, f) \<in> set (plan_visits tag tt t)" "typeMatch tt (gf_type f)" "elem_type t' = elem_type t"
  shows "case Accessor tt k (field_plan tg init (p, f)) (Target t') of
      None \<Rightarrow> 1 < length p
    | Some None \<Rightarrow> False
    | Some (Some a) \<Rightarrow>
        ac_path a = [last p] \<and> (ac_path a = p \<longleftrightarrow> length p = 1) \<and>
        map_option gf_type (field_at [last p] (struct_fields (elem_type t))) = Some (ac_type a)"
proof -
  let ?fs = "struct_fields (elem_type t)"
  have p: "p \<noteq> []" "field_at p ?fs = Some f"
    using assms(1) all_fields_at(1) [of 0 ?fs ?fs p f "[]"] by (auto simp: plan_visits_def)
  then obtain n vm pm where t: "elem_type t = TStruct n vm pm ?fs"
    by (cases "elem_type t"; cases p) auto
  have one: "[last p] = p \<longleftrightarrow> length p = 1"
    using p(1) by (cases p) auto
  have "last p < length ?fs" if "length p = 1"
    using that p(2) by (cases p) (auto split: if_splits)
  then have outside: "1 < length p" if "\<not> last p < length ?fs"
    using that p(1) by (metis One_nat_def Suc_lessI length_greater_0_conv)
  have acc: "Accessor tt k (field_plan tg init (p, f)) (Target t') =
      (if last p < length ?fs
       then Some (Some \<lparr>ac_tagidx = k, ac_path = [last p], ac_ro = \<not> gf_exported (?fs ! last p),
                         ac_type = gf_type (?fs ! last p), ac_fp = field_plan tg init (p, f), ac_slice = False\<rparr>)
       else None)"
    unfolding Accessor_def target.case assms(3) by (subst t) (simp add: field_plan_def assms(2))
  show ?thesis
    unfolding acc using one outside by auto
qed

subsection \<open>Examples\<close>

text \<open>A struct with a string, a nested struct that has the tag itself, and a pointer.\<close>

definition text_string :: gtype where
  "text_string = TBasic ''string'' [] []"

definition text_inner :: gtype where
  "text_inner = TStruct ''Inner'' [] [''Scan''] [GField ''Id'' True False [(''x'', ''id'')] text_string]"

definition text_outer :: gtype where
  "text_outer = TStruct ''Outer'' [] []
     [GField ''Inner'' True True [(''x'', ''in'')] text_inner, GField ''Name'' True False [(''x'', ''n'')] text_string]"

definition text_any :: gtype where
  "text_any = TIface ''any'' []"

definition text_scan :: gtype where
  "text_scan = TIface ''Scanner'' [''Scan'']"

definition text_plan :: "unit rplan" where
  "text_plan = the (NewReflectPlan (TPtr text_outer) [''x''] (\<lambda>_ _ _. ()))"

lemma text_plan: "NewReflectPlan (TPtr text_outer) [''x''] (\<lambda>_ _ _. ()) = Some text_plan"
  by (simp add: text_plan_def NewReflectPlan_def text_outer_def)

lemma text_visits:
  "map snd (plan_visits ''x'' text_any (TPtr text_outer)) =
     [GField ''Id'' True False [(''x'', ''id'')] text_string, GField ''Inner'' True True [(''x'', ''in'')] text_inner,
      GField ''Name'' True False [(''x'', ''n'')] text_string]"
  by (simp add: plan_visits_def text_outer_def text_inner_def text_any_def text_string_def wanted_def typeMatch_def
      implements_def)

theorem plans_visit_the_same_fields_witness:
  "fst (EachPlan (Some text_plan) ''x'' text_any (Some (\<lambda>fp s. (None, s @ [fp_name fp]))) []) = None \<and>
   snd (EachPlan (Some text_plan) ''x'' text_any (Some (\<lambda>fp s. (None, s @ [fp_name fp]))) []) = [''Id'', ''Inner'', ''Name''] \<and>
   map_option snd (ExecutePlan (Some text_plan) ''x'' text_any (Target (TPtr text_outer))
     (Some (\<lambda>a s. (None, s @ [(fp_name (ac_fp a), ac_path a)]))) []) = Some [(''Id'', [0, 0]), (''Name'', [1])]"
  using plans_visit_the_same_fields [OF text_plan, of "''x''" "TPtr text_outer"
      "\<lambda>a s. (None, s @ [(fp_name (ac_fp a), ac_path a)])" "\<lambda>fp s. (None, s @ [fp_name fp])" text_any "[]" "[]"]
  by (auto simp: plan_visits_def text_outer_def text_inner_def text_any_def text_string_def wanted_def typeMatch_def
      implements_def field_plan_def field_access_def)

theorem nested_errors_are_dropped_witness:
  "\<exists>s1. ExecutePlan (Some text_plan) ''x'' text_any (Target (TPtr text_outer))
     (Some (\<lambda>a (s :: nat). (if length (ac_path a) = 1 then None else Some ''bad'', s))) 0 = Some (None, s1)"
  using nested_errors_are_dropped [OF text_plan, of "''x''" "TPtr text_outer"
      "\<lambda>a (s :: nat). (if length (ac_path a) = 1 then None else Some ''bad'', s)" "\<lambda>fp (s :: nat). (Some ''bad'', s)" text_any 0 0]
  by auto

definition text_lib_plan :: reflect_lib where
  "text_lib_plan = \<lparr>rl_assignable = (\<lambda>t u. t = u \<or> is_iface u \<and> implements t u), rl_convertible = (\<lambda>_ _. False),
     rl_convert = (\<lambda>_ _ v. v)\<rparr>"

definition text_access :: "nat list \<Rightarrow> gtype \<Rightarrow> unit access" where
  "text_access p ty = \<lparr>ac_tagidx = 0, ac_path = p, ac_ro = False, ac_type = ty,
     ac_fp = FPlan [] [] [] ty 0 (GField [] True False [] ty) None (), ac_slice = False\<rparr>"

theorem access_roundtrip_witness:
  "access_Get text_lib_plan text_string (text_access [0, 0] text_string)
     (access_Set text_lib_plan True (text_access [0, 0] text_string) (Some (text_string, GAtom (Some ''v'')))
       (GStruct [GStruct [GAtom None], GAtom None])) = Some (GAtom (Some ''v''))"
  using access_roundtrip [of "text_access [0, 0] text_string" "GStruct [GStruct [GAtom None], GAtom None]" text_lib_plan
      text_string "GAtom (Some ''v'')" None]
  by (simp add: text_access_def text_lib_plan_def text_string_def store_as_def)

theorem get_panics_witness:
  "access_Get text_lib_plan text_scan (text_access [0] text_inner) (GStruct [GStruct [GAtom None], GAtom None]) = None"
  using get_panics [of "text_access [0] text_inner" "GStruct [GStruct [GAtom None], GAtom None]" "GStruct [GAtom None]"
      text_scan text_lib_plan]
  by (simp add: text_access_def text_scan_def text_inner_def typeMatch_def implements_def)

end
