(* ===== verification/Open_Api.thy ===== *)
theory Open_Api
  imports Tag_Plan "HOL-Library.Char_ord" "HOL-Library.List_Lexorder" "HOL-Library.Multiset"
begin

section \<open>Descriptions of the routes\<close>

text \<open>
  \<open>typedhandler_openapi.go\<close>, \<open>typedhandler_route_utils.go\<close> and \<open>printRoute\<close> of \<open>serve_cli_action.go\<close>: what the program tells of its
  handlers. Options are shared by reference, and describing one writes defaults into it; they are kept in a store by
  number. Types are those of \<open>Tag_Plan\<close>. The schema library is an argument, as is the sorting of handlers.
\<close>

record api_opt =
  ao_Method :: string
  ao_Path :: string
  ao_SubMethod :: "string list"
  ao_ContentType :: string
  ao_ResponseStatusCode :: int
  ao_ErrorStatusCode :: int
  ao_Summary :: string
  ao_Description :: string
  ao_Package :: string
  ao_inputType :: "gtype option"
  ao_outputType :: "gtype option"
  ao_errorType :: "gtype option"

text \<open>\<open>jsonino.SchemaFrom\<close> and the sample of a schema as JSON text.\<close>

record 'sc schema_lib =
  sl_from :: "gtype \<Rightarrow> 'sc option"
  sl_sample :: "'sc \<Rightarrow> bytes"

definition tag_get :: "gfield \<Rightarrow> string \<Rightarrow> string" where
  "tag_get f t = (case map_of (gf_tag f) t of Some v \<Rightarrow> v | None \<Rightarrow> [])"

text \<open>\<open>*multipart.FileHeader\<close>; of the struct only its identity matters.\<close>

definition file_header :: gtype where
  "file_header = TPtr (TStruct ''multipart.FileHeader'' [] [] [])"

definition is_file :: "gtype \<Rightarrow> bool" where
  "is_file t \<longleftrightarrow> t = file_header"

subsection \<open>OpenAPI\<close>

record 'sc parameter =
  pa_Name :: string
  pa_In :: string
  pa_Required :: bool
  pa_Schema :: "'sc option"

datatype 'sc form_prop = BinaryString | PropSchema "'sc option"

record 'sc operation =
  op_Summary :: string
  op_Description :: string
  op_Parameters :: "'sc parameter list"
  op_RequestBody :: "(string \<times> (string \<rightharpoonup> 'sc form_prop)) option"
  op_Responses :: "string \<rightharpoonup> string \<times> string \<times> 'sc option"

text \<open>The first of the tags that is not empty.\<close>

fun tag_source :: "string list \<Rightarrow> gfield \<Rightarrow> (string \<times> string) option" where
  "tag_source [] f = None"
| "tag_source (t # ts) f = (if tag_get f t \<noteq> [] then Some (t, tag_get f t) else tag_source ts f)"

fun parseParameters ::
  "'sc schema_lib \<Rightarrow> gfield list \<Rightarrow> 'sc parameter list \<times> (string \<rightharpoonup> 'sc form_prop) option \<times> bool \<Rightarrow>
    'sc parameter list \<times> (string \<rightharpoonup> 'sc form_prop) option \<times> bool" where
  "parseParameters lib [] acc = acc"
| "parseParameters lib (f # fs) (params, form, multipart) =
     (case tag_source [''path'', ''query'', ''form''] f of
        None \<Rightarrow> parseParameters lib fs (params, form, multipart)
      | Some (src, name) \<Rightarrow>
          if src \<noteq> ''form'' then
            parseParameters lib fs
              (params @ [\<lparr>pa_Name = name, pa_In = src, pa_Required = True, pa_Schema = sl_from lib (gf_type f)\<rparr>], form, multipart)
          else
            (let props = (case form of Some p \<Rightarrow> p | None \<Rightarrow> Map.empty) in
             if is_file (gf_type f) then parseParameters lib fs (params, Some (props(name \<mapsto> BinaryString)), True)
             else parseParameters lib fs (params, Some (props(name \<mapsto> PropSchema (sl_from lib (gf_type f)))), multipart)))"

definition api_defaults :: "api_opt \<Rightarrow> api_opt" where
  "api_defaults o1 =
     o1\<lparr>ao_Method := if ao_Method o1 = [] then ''GET'' else ao_Method o1,
        ao_ContentType := if ao_ContentType o1 = [] then ''application/json'' else ao_ContentType o1,
        ao_ResponseStatusCode := if ao_ResponseStatusCode o1 = 0 then 200 else ao_ResponseStatusCode o1\<rparr>"

text \<open>An operation of an option that already has its defaults; a missing input type is a panic.\<close>

definition operation_of :: "'sc schema_lib \<Rightarrow> api_opt \<Rightarrow> 'sc operation option" where
  "operation_of lib o1 =
     (case ao_inputType o1 of
        None \<Rightarrow> None
      | Some it \<Rightarrow>
          (case (if is_struct (elem_type it) then parseParameters lib (struct_fields (elem_type it)) ([], None, False)
                 else ([], None, False)) of
             (params, form, multipart) \<Rightarrow>
               let success = (''Success'', ao_ContentType o1, Option.bind (ao_outputType o1) (sl_from lib));
                   resp = [itoa (ao_ResponseStatusCode o1) \<mapsto> success]
               in Some \<lparr>op_Summary = ao_Summary o1, op_Description = ao_Description o1, op_Parameters = params,
                    op_RequestBody =
                      map_option (\<lambda>p. (if multipart then ''multipart/form-data'' else ''application/x-www-form-urlencoded'', p)) form,
                    op_Responses =
                      (case ao_errorType o1 of
                         None \<Rightarrow> resp
                       | Some et \<Rightarrow>
                           if is_struct (elem_type et) then
                             (case sl_from lib et of
                                None \<Rightarrow> resp
                              | Some sch \<Rightarrow> resp(itoa (ao_ErrorStatusCode o1) \<mapsto> (''Error'', ao_ContentType o1, Some sch)))
                           else resp)\<rparr>))"

type_synonym 'sc api_paths = "string \<Rightarrow> (string \<rightharpoonup> 'sc operation) option"

text \<open>The method of the path is read before the defaults are written.\<close>

definition addOperation ::
  "'sc schema_lib \<Rightarrow> nat \<Rightarrow> 'sc api_paths \<times> (nat \<Rightarrow> api_opt) \<Rightarrow> ('sc api_paths \<times> (nat \<Rightarrow> api_opt)) option" where
  "addOperation lib i st =
     (case st of
        (paths, opts) \<Rightarrow>
          let meth = to_lower (ao_Method (opts i)); path = ao_Path (opts i);
              ops = (case paths path of Some m \<Rightarrow> m | None \<Rightarrow> Map.empty); o1 = api_defaults (opts i)
          in map_option (\<lambda>op1. (paths(path \<mapsto> ops(meth \<mapsto> op1)), opts(i := o1))) (operation_of lib o1))"

fun addOperations ::
  "'sc schema_lib \<Rightarrow> nat list \<Rightarrow> 'sc api_paths \<times> (nat \<Rightarrow> api_opt) \<Rightarrow> ('sc api_paths \<times> (nat \<Rightarrow> api_opt)) option" where
  "addOperations lib [] st = Some st"
| "addOperations lib (i # is) st = Option.bind (addOperation lib i st) (addOperations lib is)"

text \<open>The document: title, version and paths, over the functions and then the plain fiber handlers.\<close>

definition GenerateOpenAPI ::
  "'sc schema_lib \<Rightarrow> string \<times> string \<Rightarrow> nat list \<Rightarrow> nat list \<Rightarrow> (nat \<Rightarrow> api_opt) \<Rightarrow>
    ((string \<times> string \<times> string \<times> 'sc api_paths) \<times> (nat \<Rightarrow> api_opt)) option" where
  "GenerateOpenAPI lib info functions plain opts =
     map_option (\<lambda>(paths, opts'). ((''3.1.0'', fst info, snd info, paths), opts'))
       (addOperations lib (functions @ plain) (Map.empty, opts))"

subsection \<open>Routes\<close>

definition isRequired :: "gfield \<Rightarrow> bool" where
  "isRequired f \<longleftrightarrow> tag_get f ''validate'' \<noteq> [] \<and> ''required'' \<in> set (split_on CHR '','' (tag_get f ''validate''))"

text \<open>\<open>Type.Name\<close>: unnamed types have none.\<close>

fun type_name :: "gtype \<Rightarrow> string" where
  "type_name (TBasic n _ _) = n"
| "type_name (TStruct n _ _ _) = n"
| "type_name (TIface n _) = n"
| "type_name _ = []"

definition formatParam :: "gfield \<Rightarrow> string \<Rightarrow> string" where
  "formatParam f name =
     (let n = name @ (if isRequired f then ''*'' else []); typ = type_name (gf_type f); dflt = tag_get f ''default'' in
      if dflt \<noteq> [] then n @ ''='' @ typ @ ''(default='' @ dflt @ '')'' else n @ ''='' @ typ)"

text \<open>\<open>i\<close> is the number of the field: the separator depends on it.\<close>

fun route_params :: "'sc schema_lib \<Rightarrow> nat \<Rightarrow> gfield list \<Rightarrow> string \<times> string \<times> bool \<Rightarrow> string \<times> string \<times> bool" where
  "route_params lib i [] acc = acc"
| "route_params lib i (f # fs) (params, form, multipart) =
     route_params lib (Suc i) fs
       (case tag_source [''post'', ''path'', ''query'', ''form''] f of
          None \<Rightarrow> (params, form, multipart)
        | Some (src, name) \<Rightarrow>
            if src = ''post'' then
              (params, (case sl_from lib (gf_type f) of Some sch \<Rightarrow> sl_sample lib sch | None \<Rightarrow> form), multipart)
            else if src = ''query'' then (params @ (if i \<noteq> 0 then ''&'' else []) @ formatParam f name, form, multipart)
            else if src = ''form'' then
              (params, form @ (if i \<noteq> 0 then ''&'' else []) @ formatParam f name, multipart \<or> is_file (gf_type f))
            else (params, form, multipart))"

definition byte_slice :: gtype where
  "byte_slice = TSlice (TBasic ''uint8'' [] [])"

definition generateRoute :: "'sc schema_lib \<Rightarrow> api_opt \<Rightarrow> (string \<times> string) option" where
  "generateRoute lib o1 =
     (case ao_inputType o1 of
        None \<Rightarrow> None
      | Some it \<Rightarrow>
          (let base = ao_Method o1 @ '' '' @ ao_Path o1;
               (path, body) =
                 (if is_struct (elem_type it) then
                    (case route_params lib 0 (struct_fields (elem_type it)) ([], [], False) of
                       (params, form, multipart) \<Rightarrow>
                         (base @ (if params \<noteq> [] then ''?'' @ params else []),
                          form @ (if form \<noteq> [] \<and> multipart then '' (multipart/form-data)'' else [])))
                  else (base, []))
           in Some (path,
                case ao_outputType o1 of
                  None \<Rightarrow> body
                | Some t \<Rightarrow>
                    if t = byte_slice then body @ ''  Response:'' @ [CHR 0x0A] @ ''    Binary ('' @ ao_ContentType o1 @ '')''
                    else
                      (case sl_from lib t of
                         Some sch \<Rightarrow>
                           (if body \<noteq> [] then ''  Request:'' @ [CHR 0x0A] @ ''    '' @ body @ [CHR 0x0A] else []) @
                           ''  Response:'' @ [CHR 0x0A] @ ''    '' @ sl_sample lib sch
                       | None \<Rightarrow> if body \<noteq> [] then ''  Request:'' @ [CHR 0x0A] @ ''    '' @ body else []))))"

text \<open>
  \<open>printRoute\<close> after its note: a block of lines per package in the order of their names; \<open>warn\<close> is the mark of a duplicate.
  \<open>sort_Slice\<close> sorts by path and then method.
\<close>

definition handler_less :: "api_opt \<Rightarrow> api_opt \<Rightarrow> bool" where
  "handler_less a b =
     (if ao_Path a = ao_Path b then ao_Method a < ao_Method b else ao_Path a < ao_Path b)"

definition route_lines :: "'sc schema_lib \<Rightarrow> string \<Rightarrow> api_opt list \<Rightarrow> api_opt \<Rightarrow> string list option" where
  "route_lines lib warn allh r =
     (case generateRoute lib r of
        None \<Rightarrow> None
      | Some (line, form) \<Rightarrow>
          (let dup = (length (filter (\<lambda>x. ao_Method x = ao_Method r \<and> ao_Path x = ao_Path r) allh) > 1) in
           Some ((line @ (if ao_Summary r = [] then [] else ''  # '' @ ao_Summary r) @ (if dup then ''  '' @ warn else [])) #
                 (if form \<noteq> [] then [form] else []))))"

fun concat_lines :: "('a \<Rightarrow> string list option) \<Rightarrow> 'a list \<Rightarrow> string list option" where
  "concat_lines f [] = Some []"
| "concat_lines f (x # xs) = Option.bind (f x) (\<lambda>ls. map_option ((@) ls) (concat_lines f xs))"

definition printRoute ::
  "'sc schema_lib \<Rightarrow> (string \<Rightarrow> string) \<Rightarrow> string \<Rightarrow> (api_opt list \<Rightarrow> api_opt list) \<Rightarrow> api_opt list \<Rightarrow> string list option" where
  "printRoute lib cleanPkg warn sort_Slice allh =
     concat_lines
       (\<lambda>pkg. map_option (\<lambda>ls. (''## '' @ cleanPkg pkg) # ls @ [[]])
                (concat_lines (route_lines lib warn allh) (sort_Slice (filter (\<lambda>r. ao_Package r = pkg) allh))))
       (sort (remdups (map ao_Package allh)))"

subsection \<open>The document\<close>

definition entry_at :: "'sc api_paths \<Rightarrow> string \<Rightarrow> string \<Rightarrow> 'sc operation option" where
  "entry_at paths p m = Option.bind (paths p) (\<lambda>ops. ops m)"

lemma entry_at_empty [simp]: "entry_at Map.empty p m = None"
  by (simp add: entry_at_def)

lemma entry_at_update:
  "entry_at (paths(q \<mapsto> (case paths q of Some ms \<Rightarrow> ms | None \<Rightarrow> Map.empty)(k \<mapsto> v))) p m =
     (if p = q \<and> m = k then Some v else entry_at paths p m)"
  by (auto simp: entry_at_def split: option.split)

text \<open>The function that an entry of the document is made of: the last of those with the path and the method.\<close>

definition described_by :: "(nat \<Rightarrow> api_opt) \<Rightarrow> nat list \<Rightarrow> string \<Rightarrow> string \<Rightarrow> nat option" where
  "described_by opts ids p m = find (\<lambda>i. ao_Path (opts i) = p \<and> to_lower (ao_Method (opts i)) = m) (rev ids)"

lemma find_append: "find P (xs @ ys) = (case find P xs of Some x \<Rightarrow> Some x | None \<Rightarrow> find P ys)"
  by (induction xs) auto

lemma described_by_Cons:
  "described_by opts (i # ids) p m =
     (case described_by opts ids p m of
        Some j \<Rightarrow> Some j
      | None \<Rightarrow> if ao_Path (opts i) = p \<and> to_lower (ao_Method (opts i)) = m then Some i else None)"
  by (simp add: described_by_def find_append split: option.split)

lemma described_by_cong: "\<forall>i \<in> set ids. opts i = opts' i \<Longrightarrow> described_by opts ids p m = described_by opts' ids p m"
  unfolding described_by_def by (rule find_cong) auto

lemma described_by_mem: "described_by opts ids p m = Some i \<Longrightarrow> i \<in> set ids"
  by (auto simp: described_by_def dest!: find_SomeD)

lemma api_defaults_keep [simp]:
  "ao_Path (api_defaults o1) = ao_Path o1" "ao_inputType (api_defaults o1) = ao_inputType o1"
  by (simp_all add: api_defaults_def)

lemma api_defaults_idem [simp]: "api_defaults (api_defaults o1) = api_defaults o1"
  by (simp add: api_defaults_def)

lemma operation_of_None: "operation_of lib o1 = None \<longleftrightarrow> ao_inputType o1 = None"
  by (auto simp: operation_of_def Let_def split: option.splits prod.splits)

lemma addOperations_spec:
  "\<lbrakk>distinct ids; \<forall>i \<in> set ids. ao_inputType (opts i) \<noteq> None\<rbrakk> \<Longrightarrow>
   \<exists>paths'. addOperations lib ids (paths, opts) =
       Some (paths', \<lambda>j. if j \<in> set ids then api_defaults (opts j) else opts j) \<and>
     (\<forall>p m. entry_at paths' p m =
        (case described_by opts ids p m of Some i \<Rightarrow> operation_of lib (api_defaults (opts i)) | None \<Rightarrow> entry_at paths p m))"
proof (induction ids arbitrary: paths opts)
  case Nil
  then show ?case by (simp add: described_by_def)
next
  case (Cons i ids)
  let ?o = "api_defaults (opts i)" and ?opts = "opts(i := api_defaults (opts i))"
  obtain op1 where op1: "operation_of lib ?o = Some op1"
    using Cons.prems(2) operation_of_None [of lib ?o] by fastforce
  let ?paths = "paths(ao_Path (opts i) \<mapsto>
    (case paths (ao_Path (opts i)) of Some m \<Rightarrow> m | None \<Rightarrow> Map.empty)(to_lower (ao_Method (opts i)) \<mapsto> op1))"
  have first: "addOperation lib i (paths, opts) = Some (?paths, ?opts)"
    by (simp add: addOperation_def Let_def op1)
  have same: "\<forall>j \<in> set ids. ?opts j = opts j" using Cons.prems(1) by auto
  have "distinct ids" "\<forall>j \<in> set ids. ao_inputType (?opts j) \<noteq> None" using Cons.prems same by auto
  from Cons.IH [OF this, of ?paths] obtain paths' where
    rest: "addOperations lib ids (?paths, ?opts) = Some (paths', \<lambda>j. if j \<in> set ids then api_defaults (?opts j) else ?opts j)"
    and entries: "\<forall>p m. entry_at paths' p m =
      (case described_by ?opts ids p m of Some j \<Rightarrow> operation_of lib (api_defaults (?opts j)) | None \<Rightarrow> entry_at ?paths p m)"
    by blast
  have opts: "(\<lambda>j. if j \<in> set ids then api_defaults (?opts j) else ?opts j) =
      (\<lambda>j. if j \<in> set (i # ids) then api_defaults (opts j) else opts j)"
    using Cons.prems(1) by auto
  have "entry_at paths' p m = (case described_by opts (i # ids) p m of
      Some j \<Rightarrow> operation_of lib (api_defaults (opts j)) | None \<Rightarrow> entry_at paths p m)" for p m
  proof -
    have c: "described_by ?opts ids p m = described_by opts ids p m"
      by (rule described_by_cong) (use same in simp)
    show ?thesis
    proof (cases "described_by opts ids p m")
      case None
      then show ?thesis
        using entries unfolding c entry_at_update by (simp add: described_by_Cons op1 c)
    next
      case (Some j)
      then have "?opts j = opts j" using same described_by_mem by blast
      with Some show ?thesis
        using entries by (simp add: described_by_Cons c)
    qed
  qed
  then show ?case using first rest by (auto simp: opts)
qed

text \<open>What the OpenAPI document lists. When every handler has an input type, there is an entry exactly for the path and the
  lower-case method of each (a later handler replaces an earlier one), whatever other methods it is registered for; the
  defaults are written into the options. So a second document can differ: options that \<open>NewFunction\<close> has not completed and
  that have no method are listed under the empty method by the first and under \<open>get\<close> by the second.\<close>

theorem openapi_entries:
  assumes "distinct (functions @ plain)" "\<forall>i \<in> set (functions @ plain). ao_inputType (opts i) \<noteq> None"
  shows "\<exists>doc doc2 opts2.
    GenerateOpenAPI lib info functions plain opts = Some (doc, opts2) \<and>
    GenerateOpenAPI lib info functions plain opts2 = Some (doc2, opts2) \<and>
    (\<forall>p m. entry_at (snd (snd (snd doc))) p m =
       Option.bind (described_by opts (functions @ plain) p m) (\<lambda>i. operation_of lib (api_defaults (opts i)))) \<and>
    (\<forall>p m. entry_at (snd (snd (snd doc2))) p m =
       Option.bind (described_by (\<lambda>i. api_defaults (opts i)) (functions @ plain) p m)
         (\<lambda>i. operation_of lib (api_defaults (opts i))))"
proof -
  let ?ids = "functions @ plain" and ?opts2 = "\<lambda>j. if j \<in> set (functions @ plain) then api_defaults (opts j) else opts j"
  have twice: "(\<lambda>j. if j \<in> set ?ids then api_defaults (?opts2 j) else ?opts2 j) = ?opts2" by auto
  obtain p1 where p1: "addOperations lib ?ids (Map.empty, opts) = Some (p1, ?opts2)"
    "\<forall>p m. entry_at p1 p m = (case described_by opts ?ids p m of
       Some i \<Rightarrow> operation_of lib (api_defaults (opts i)) | None \<Rightarrow> entry_at Map.empty p m)"
    using addOperations_spec [OF assms, of lib Map.empty] by blast
  have "\<forall>i \<in> set ?ids. ao_inputType (?opts2 i) \<noteq> None" using assms(2) by auto
  then obtain p2 where p2: "addOperations lib ?ids (Map.empty, ?opts2) = Some (p2, ?opts2)"
    "\<forall>p m. entry_at p2 p m = (case described_by ?opts2 ?ids p m of
       Some i \<Rightarrow> operation_of lib (api_defaults (?opts2 i)) | None \<Rightarrow> entry_at Map.empty p m)"
    using addOperations_spec [OF assms(1), of ?opts2 lib Map.empty] unfolding twice by blast
  have cong: "described_by ?opts2 ?ids p m = described_by (\<lambda>i. api_defaults (opts i)) ?ids p m" for p m
    by (rule described_by_cong) auto
  have e2: "entry_at p2 p m = Option.bind (described_by (\<lambda>i. api_defaults (opts i)) ?ids p m)
      (\<lambda>i. operation_of lib (api_defaults (opts i)))" for p m
    using p2(2) described_by_mem [of ?opts2 ?ids p m]
    unfolding cong entry_at_empty by (cases "described_by (\<lambda>i. api_defaults (opts i)) ?ids p m") auto
  have e1: "entry_at p1 p m = Option.bind (described_by opts ?ids p m) (\<lambda>i. operation_of lib (api_defaults (opts i)))" for p m
    using p1(2) by (simp split: option.split)
  have "GenerateOpenAPI lib info functions plain opts = Some ((''3.1.0'', fst info, snd info, p1), ?opts2)"
    "GenerateOpenAPI lib info functions plain ?opts2 = Some ((''3.1.0'', fst info, snd info, p2), ?opts2)"
    unfolding GenerateOpenAPI_def p1(1) p2(1) by simp_all
  then show ?thesis using e1 e2 by fastforce
qed

text \<open>A handler without an input type (\<open>TypedHandleFiber\<close> makes such options) is a panic for the document and for the list of
  routes, though both say that they include plain handlers.\<close>

lemma addOperations_panic:
  "\<exists>i \<in> set ids. ao_inputType (opts i) = None \<Longrightarrow> addOperations lib ids (paths, opts) = None"
proof (induction ids arbitrary: paths opts)
  case (Cons i ids)
  show ?case
  proof (cases "operation_of lib (api_defaults (opts i))")
    case None
    then show ?thesis by (simp add: addOperation_def Let_def)
  next
    case (Some op1)
    then have "ao_inputType (opts i) \<noteq> None" using operation_of_None [of lib "api_defaults (opts i)"] by auto
    with Cons.prems have "\<exists>j \<in> set ids. ao_inputType ((opts(i := api_defaults (opts i))) j) = None" by auto
    note rest = Cons.IH [OF this]
    show ?thesis using Some by (simp add: addOperation_def Let_def rest del: fun_upd_apply)
  qed
qed simp

lemma concat_lines_None: "x \<in> set xs \<Longrightarrow> f x = None \<Longrightarrow> concat_lines f xs = None"
  by (induction xs) (auto split: Option.bind_split)

theorem plain_handlers_break_descriptions:
  assumes "ao_inputType o1 = None" "i \<in> set (functions @ plain)" "opts i = o1" "o1 \<in> set allh"
    and "\<And>xs. mset (sort_Slice xs) = mset xs"
  shows "GenerateOpenAPI lib info functions plain opts = None \<and> generateRoute lib o1 = None \<and>
    printRoute lib cleanPkg warn sort_Slice allh = None"
proof (intro conjI)
  have ex: "\<exists>i \<in> set (functions @ plain). ao_inputType (opts i) = None"
    using assms(1-3) by blast
  show "GenerateOpenAPI lib info functions plain opts = None"
    unfolding GenerateOpenAPI_def addOperations_panic [OF ex] by simp
  show route: "generateRoute lib o1 = None" by (simp add: generateRoute_def assms(1))
  have "o1 \<in> set (sort_Slice (filter (\<lambda>r. ao_Package r = ao_Package o1) allh))"
    using assms(4) by (simp add: assms(5) flip: set_mset_mset)
  then have "concat_lines (route_lines lib warn allh) (sort_Slice (filter (\<lambda>r. ao_Package r = ao_Package o1) allh)) = None"
    by (rule concat_lines_None) (simp add: route_lines_def route)
  then show "printRoute lib cleanPkg warn sort_Slice allh = None"
    unfolding printRoute_def by (intro concat_lines_None [of "ao_Package o1"]) (use assms(4) in auto)
qed

text \<open>The separator of a route's parameters depends on the number of the field, not of the parameter: unless the very first field is a
  query parameter, the text starts with one.\<close>

lemma route_params_query: "0 < i \<Longrightarrow> (\<exists>q. fst (route_params lib i fs (params, form, multipart)) = params @ q \<and> (q = [] \<or> hd q = CHR ''&''))"
proof (induction fs arbitrary: i params form multipart)
  case (Cons f fs)
  have IH: "\<exists>q. fst (route_params lib (Suc i) fs (ps, fo, mu)) = ps @ q \<and> (q = [] \<or> hd q = CHR ''&'')" for ps fo mu
    by (rule Cons.IH) simp
  show ?case
  proof (cases "tag_source [''post'', ''path'', ''query'', ''form''] f")
    case None
    then show ?thesis using IH [of params form multipart] by simp
  next
    case (Some p)
    obtain src name where p: "p = (src, name)" by (cases p)
    show ?thesis
    proof (cases "src = ''query''")
      case True
      then show ?thesis
        using IH [of "params @ ''&'' @ formatParam f name" form multipart] Some p Cons.prems by auto
    next
      case False
      then show ?thesis using Some p IH by auto
    qed
  qed
qed simp

theorem leading_separator:
  assumes "\<nexists>name. tag_source [''post'', ''path'', ''query'', ''form''] f = Some (''query'', name)"
    and "fst (route_params lib 0 (f # fs) ([], [], False)) \<noteq> []"
  shows "hd (fst (route_params lib 0 (f # fs) ([], [], False))) = CHR ''&''"
proof -
  have one: "\<exists>fo mu. route_params lib 0 (f # fs) ([], [], False) = route_params lib (Suc 0) fs ([], fo, mu)"
    using assms(1)
    by (cases "tag_source [''post'', ''path'', ''query'', ''form''] f") (auto split: prod.splits)
  then obtain fo mu where "route_params lib 0 (f # fs) ([], [], False) = route_params lib (Suc 0) fs ([], fo, mu)" by blast
  with route_params_query [of "Suc 0" lib fs "[]" fo mu] assms(2) show ?thesis by auto
qed

subsection \<open>Examples\<close>

definition text_schema :: "string schema_lib" where
  "text_schema = \<lparr>sl_from = (\<lambda>t. Some (type_name t)), sl_sample = (\<lambda>s. s)\<rparr>"

definition text_api :: "gtype option \<Rightarrow> api_opt" where
  "text_api it = \<lparr>ao_Method = [], ao_Path = ''/x'', ao_SubMethod = [''POST''], ao_ContentType = [], ao_ResponseStatusCode = 0,
     ao_ErrorStatusCode = 0, ao_Summary = [], ao_Description = [], ao_Package = ''p'', ao_inputType = it, ao_outputType = None,
     ao_errorType = None\<rparr>"

theorem openapi_entries_witness:
  "\<exists>doc doc2 opts2. GenerateOpenAPI text_schema (''a'', ''1'') [0] [] (\<lambda>_. text_api (Some text_inner)) = Some (doc, opts2) \<and>
     GenerateOpenAPI text_schema (''a'', ''1'') [0] [] opts2 = Some (doc2, opts2) \<and>
     entry_at (snd (snd (snd doc))) ''/x'' [] \<noteq> None \<and> entry_at (snd (snd (snd doc))) ''/x'' ''get'' = None \<and>
     entry_at (snd (snd (snd doc2))) ''/x'' ''get'' \<noteq> None"
proof -
  let ?opts = "\<lambda>_ :: nat. text_api (Some text_inner)"
  have m: "to_lower ''GET'' = ''get''" "to_lower [] = []" by code_simp+
  obtain doc doc2 opts2 where d: "GenerateOpenAPI text_schema (''a'', ''1'') [0] [] ?opts = Some (doc, opts2)"
    "GenerateOpenAPI text_schema (''a'', ''1'') [0] [] opts2 = Some (doc2, opts2)"
    "entry_at (snd (snd (snd doc))) p q =
       Option.bind (described_by ?opts ([0] @ []) p q) (\<lambda>i. operation_of text_schema (api_defaults (?opts i)))"
    "entry_at (snd (snd (snd doc2))) p q =
       Option.bind (described_by (\<lambda>i. api_defaults (?opts i)) ([0] @ []) p q) (\<lambda>i. operation_of text_schema (api_defaults (?opts i)))"
    for p q
    using openapi_entries [of "[0]" "[]" ?opts text_schema "(''a'', ''1'')"] by (auto simp: text_api_def)
  have "operation_of text_schema (api_defaults (text_api (Some text_inner))) \<noteq> None"
    by (simp add: operation_of_None text_api_def)
  then show ?thesis
    using d(1,2) by (intro exI [of _ doc] exI [of _ doc2] exI [of _ opts2])
      (simp add: d(3,4) described_by_def text_api_def api_defaults_def m)
qed

theorem plain_handlers_break_descriptions_witness:
  "printRoute text_schema (\<lambda>p. p) ''!'' (\<lambda>xs. xs) [text_api None] = None"
  using plain_handlers_break_descriptions [of "text_api None" 0 "[0]" "[]" "\<lambda>_. text_api None" "[text_api None]" "\<lambda>xs. xs"
      text_schema "([], [])" "\<lambda>p. p" "''!''"]
  by (simp add: text_api_def)

theorem leading_separator_witness:
  "hd (fst (route_params text_schema 0
     [GField ''Id'' True False [(''path'', ''id'')] text_string, GField ''Q'' True False [(''query'', ''q'')] text_string]
     ([], [], False))) = CHR ''&''"
  by (rule leading_separator) (simp_all add: tag_get_def)

end
