(* ===== verification/Ai_Client.thy ===== *)
theory Ai_Client
  imports Http_Error
begin

section \<open>AI clients\<close>

text \<open>
  \<open>ai.go\<close>, \<open>ai_chatgpt.go\<close>, \<open>ai_ollama.go\<close> and \<open>serve_ai.go\<close>: the choice of a provider, the two clients with their loops of tool
  calls, and the handler that \<open>NewAI\<close> makes of a prompt. The HTTP exchange, JSON and YAML are arguments; tools are functions on
  a state that the exchange may change too. A message is a JSON object.
\<close>

record ai_config =
  ai_DefaultModel :: string
  ai_ToolMaxBodySize :: int
  ai_ToolMaxLoop :: int
  ai_APIKey :: string
  ai_ResponseAPIURL :: string

text \<open>A tool: its name, its description, its input schema as JSON, and its code on Go values of type \<open>'a\<close>.\<close>

record ('a, 's) ai_tool =
  tl_Name :: string
  tl_Description :: string
  tl_Schema :: "string + json"
  tl_UnmarshalInput :: "bytes \<Rightarrow> string + 'a"
  tl_Handlefunc :: "'a \<Rightarrow> 's \<Rightarrow> (string option \<times> 'a) \<times> 's"
  tl_MarshalOutput :: "'a \<Rightarrow> string + bytes"

text \<open>Answers of the two services.\<close>

record cg_item =
  ci_Type :: string
  ci_Name :: string
  ci_Arguments :: bytes
  ci_CallID :: string
  ci_Content :: "(string \<times> string) list"

record cg_response =
  cr_ID :: string
  cr_Output :: "cg_item list"

record ol_call =
  oc_Name :: string
  oc_Arguments :: json

record ol_response =
  or_Content :: string
  or_ToolCalls :: "ol_call list"

text \<open>\<open>ae_post\<close> takes the URL, the headers and the body.\<close>

record 's ai_env =
  ae_encode :: "json \<Rightarrow> string + bytes"
  ae_post :: "string \<Rightarrow> (string \<times> string) list \<Rightarrow> bytes \<Rightarrow> 's \<Rightarrow> (string + int \<times> bytes) \<times> 's"
  ae_cg_parse :: "bytes \<Rightarrow> string + cg_response"
  ae_ol_parse :: "bytes \<Rightarrow> string + ol_response"

subsection \<open>Providers\<close>

definition RegisterAIProvider :: "string \<Rightarrow> 'f \<Rightarrow> (string \<rightharpoonup> 'f) \<Rightarrow> (string \<rightharpoonup> 'f)" where
  "RegisterAIProvider provider fn registered = registered(provider \<mapsto> fn)"

definition NewAIProvider :: "(string \<rightharpoonup> (ai_config \<Rightarrow> string \<Rightarrow> 'i)) \<Rightarrow> ai_config \<Rightarrow> string \<Rightarrow> string \<Rightarrow> 'i option" where
  "NewAIProvider registered cfg provider model = map_option (\<lambda>fn. fn cfg model) (registered provider)"

definition ai_Select :: "(string \<rightharpoonup> (ai_config \<Rightarrow> string \<Rightarrow> 'i)) \<Rightarrow> ai_config \<Rightarrow> string list \<Rightarrow> 'i option" where
  "ai_Select registered cfg model =
     (let m = (case model of [] \<Rightarrow> [] | x # _ \<Rightarrow> x); sel = (if m = [] then ai_DefaultModel cfg else m) in
      if sel = [] then None
      else
        (case index_of CHR ''/'' sel of
           Some i \<Rightarrow> if i = 0 then None else NewAIProvider registered cfg (take i sel) (drop (Suc i) sel)
         | None \<Rightarrow> None))"

definition findTool :: "('a, 's) ai_tool list \<Rightarrow> string \<Rightarrow> ('a, 's) ai_tool option" where
  "findTool tools name = find (\<lambda>t. tl_Name t = name) tools"

text \<open>The description of the tools; \<open>wrap\<close> is the shape the service wants.\<close>

fun tool_defs :: "(('a, 's) ai_tool \<Rightarrow> json \<Rightarrow> json) \<Rightarrow> ('a, 's) ai_tool list \<Rightarrow> string + json list" where
  "tool_defs wrap [] = Inr []"
| "tool_defs wrap (t # ts) =
     bind_res (tl_Schema t) (\<lambda>sch. bind_res (tool_defs wrap ts) (\<lambda>ds. Inr (wrap t sch # ds)))"

subsection \<open>ChatGPT\<close>

definition cg_tool :: "('a, 's) ai_tool \<Rightarrow> json \<Rightarrow> json" where
  "cg_tool t sch =
     JsObj [(''type'', JsStr ''function''), (''name'', JsStr (tl_Name t)), (''description'', JsStr (tl_Description t)),
            (''parameters'', sch)]"

definition cg_body :: "string \<Rightarrow> json list \<Rightarrow> json list \<Rightarrow> string \<Rightarrow> json" where
  "cg_body model input defs previousResponseID =
     JsObj ([(''model'', JsStr model), (''input'', JsArr input),
             (''text'', JsObj [(''format'', JsObj [(''type'', JsStr ''json_object'')])])] @
            (if defs \<noteq> [] then [(''tools'', JsArr defs)] else []) @
            (if previousResponseID \<noteq> [] then [(''previous_response_id'', JsStr previousResponseID)] else []))"

definition encode_or_empty :: "'s ai_env \<Rightarrow> json \<Rightarrow> bytes" where
  "encode_or_empty env j = (case ae_encode env j of Inl _ \<Rightarrow> [] | Inr b \<Rightarrow> b)"

definition responsesCreate ::
  "'s ai_env \<Rightarrow> ai_config \<Rightarrow> string \<Rightarrow> string \<Rightarrow> json list \<Rightarrow> ('a, 's) ai_tool list \<Rightarrow> 's \<Rightarrow> (string + cg_response) \<times> 's" where
  "responsesCreate env cfg model previousResponseID input tools s =
     (case tool_defs cg_tool tools of
        Inl e \<Rightarrow> (Inl e, s)
      | Inr defs \<Rightarrow>
          (case ae_post env (ai_ResponseAPIURL cfg)
                  [(''Authorization'', ''Bearer '' @ ai_APIKey cfg), (''Content-Type'', ''application/json'')]
                  (encode_or_empty env (cg_body model input defs previousResponseID)) s of
             (Inl e, s') \<Rightarrow> (Inl e, s')
           | (Inr (status, raw), s') \<Rightarrow>
               if status \<ge> 300 then (Inl (''openai error: '' @ raw), s') else (ae_cg_parse env raw, s')))"

datatype cg_round = Answer string | Failed string | ToolOutputs "json list"

definition cg_output :: "ai_config \<Rightarrow> string \<Rightarrow> bytes \<Rightarrow> json" where
  "cg_output cfg callID out =
     JsObj [(''type'', JsStr ''function_call_output''), (''call_id'', JsStr callID),
            (''output'', JsStr (if ai_ToolMaxBodySize cfg > 0 \<and> int (length out) > ai_ToolMaxBodySize cfg
                               then take (nat (ai_ToolMaxBodySize cfg)) out else out))]"

text \<open>The items of an answer: the first text ends everything, a tool call is run at once.\<close>

fun cg_items ::
  "'s ai_env \<Rightarrow> ai_config \<Rightarrow> ('a, 's) ai_tool list \<Rightarrow> cg_item list \<Rightarrow> json list \<Rightarrow> 's \<Rightarrow> cg_round \<times> 's" where
  "cg_items env cfg tools [] next s = (ToolOutputs next, s)"
| "cg_items env cfg tools (item # items) next s =
     (if ci_Type item = ''message'' then
        (case find (\<lambda>c. fst c = ''output_text'') (ci_Content item) of
           Some c \<Rightarrow> (Answer (snd c), s)
         | None \<Rightarrow> cg_items env cfg tools items next s)
      else if ci_Type item = ''function_call'' then
        (case findTool tools (ci_Name item) of
           None \<Rightarrow> (Failed (''tool not found: '' @ ci_Name item), s)
         | Some t \<Rightarrow>
             (case tl_UnmarshalInput t (ci_Arguments item) of
                Inl e \<Rightarrow> (Failed e, s)
              | Inr input \<Rightarrow>
                  (case tl_Handlefunc t input s of
                     ((Some e, _), s') \<Rightarrow>
                       cg_items env cfg tools items
                         (next @ [cg_output cfg (ci_CallID item) (encode_or_empty env (JsObj [(''error'', JsStr e)]))]) s'
                   | ((None, out), s') \<Rightarrow>
                       (case tl_MarshalOutput t out of
                          Inl e \<Rightarrow> (Failed e, s')
                        | Inr b \<Rightarrow> cg_items env cfg tools items (next @ [cg_output cfg (ci_CallID item) b]) s'))))
      else cg_items env cfg tools items next s)"

definition cg_step ::
  "'s ai_env \<Rightarrow> ai_config \<Rightarrow> string \<Rightarrow> ('a, 's) ai_tool list \<Rightarrow> string \<Rightarrow> json list \<Rightarrow> 's \<Rightarrow> cg_round \<times> 's" where
  "cg_step env cfg model tools responseID messages s =
     (case responsesCreate env cfg model responseID messages tools s of
        (Inl e, s') \<Rightarrow> (Failed e, s')
      | (Inr resp, s') \<Rightarrow> cg_items env cfg tools (cr_Output resp) [] s')"

text \<open>The loop: \<open>responseID\<close> is declared before it and never assigned.\<close>

partial_function (option) cg_loop ::
  "'s ai_env \<Rightarrow> ai_config \<Rightarrow> string \<Rightarrow> ('a, 's) ai_tool list \<Rightarrow> string \<Rightarrow> int \<Rightarrow> json list \<Rightarrow> 's \<Rightarrow>
    ((string + string) \<times> 's) option" where
  "cg_loop env cfg model tools responseID depth messages s =
     (case cg_step env cfg model tools responseID messages s of
        (Answer text, s') \<Rightarrow> Some (Inr text, s')
      | (Failed e, s') \<Rightarrow> Some (Inl e, s')
      | (ToolOutputs next, s') \<Rightarrow>
          if next = [] then Some (Inl ''no output returned'', s')
          else if ai_ToolMaxLoop cfg > 0 \<and> depth + 1 \<ge> ai_ToolMaxLoop cfg then Some (Inl ''tool max loop exceeded'', s')
          else cg_loop env cfg model tools responseID (depth + 1) next s')"

definition cg_Inference ::
  "'s ai_env \<Rightarrow> ai_config \<Rightarrow> string \<Rightarrow> ('a, 's) ai_tool list \<Rightarrow> json list \<Rightarrow> 's \<Rightarrow> ((string + string) \<times> 's) option" where
  "cg_Inference env cfg model tools messages s = cg_loop env cfg model tools [] 0 messages s"

subsection \<open>Ollama\<close>

definition ol_tool :: "('a, 's) ai_tool \<Rightarrow> json \<Rightarrow> json" where
  "ol_tool t sch =
     JsObj [(''type'', JsStr ''function''),
            (''function'', JsObj ([(''name'', JsStr (tl_Name t))] @
               (if tl_Description t \<noteq> [] then [(''description'', JsStr (tl_Description t))] else []) @
               [(''parameters'', sch)]))]"

definition ol_request :: "string \<Rightarrow> json list \<Rightarrow> json list \<Rightarrow> json" where
  "ol_request model messages defs =
     JsObj ([(''model'', JsStr model), (''messages'', JsArr messages)] @
            (if defs \<noteq> [] then [(''tools'', JsArr defs)] else []) @ [(''stream'', JsBool False)])"

definition ol_assistant :: "ol_response \<Rightarrow> json" where
  "ol_assistant r =
     JsObj [(''role'', JsStr ''assistant''), (''content'', JsStr (or_Content r)),
            (''tool_calls'', JsArr (map (\<lambda>c. JsObj [(''function'',
               JsObj [(''name'', JsStr (oc_Name c)), (''arguments'', oc_Arguments c)])]) (or_ToolCalls r)))]"

definition ol_result :: "string \<Rightarrow> bytes \<Rightarrow> json" where
  "ol_result name out = JsObj [(''role'', JsStr ''tool''), (''name'', JsStr name), (''content'', JsStr out)]"

text \<open>Tool calls: an unknown tool is passed over, every error ends the inference.\<close>

fun ol_calls ::
  "'s ai_env \<Rightarrow> ('a, 's) ai_tool list \<Rightarrow> ol_call list \<Rightarrow> json list \<Rightarrow> 's \<Rightarrow> (string + json list) \<times> 's" where
  "ol_calls env tools [] messages s = (Inr messages, s)"
| "ol_calls env tools (tc # tcs) messages s =
     (case findTool tools (oc_Name tc) of
        None \<Rightarrow> ol_calls env tools tcs messages s
      | Some t \<Rightarrow>
          (case bind_res (ae_encode env (oc_Arguments tc)) (tl_UnmarshalInput t) of
             Inl e \<Rightarrow> (Inl e, s)
           | Inr input \<Rightarrow>
               (case tl_Handlefunc t input s of
                  ((Some e, _), s') \<Rightarrow> (Inl e, s')
                | ((None, out), s') \<Rightarrow>
                    (case tl_MarshalOutput t out of
                       Inl e \<Rightarrow> (Inl e, s')
                     | Inr b \<Rightarrow> ol_calls env tools tcs (messages @ [ol_result (oc_Name tc) b]) s'))))"

text \<open>The loop, with the number of rounds that are left.\<close>

fun ol_loop ::
  "nat \<Rightarrow> 's ai_env \<Rightarrow> string \<Rightarrow> string \<Rightarrow> ('a, 's) ai_tool list \<Rightarrow> json list \<Rightarrow> json list \<Rightarrow> 's \<Rightarrow> (string + string) \<times> 's" where
  "ol_loop 0 env url model tools defs messages s = (Inl ''tool call loop exceeded'', s)"
| "ol_loop (Suc n) env url model tools defs messages s =
     (case ae_encode env (ol_request model messages defs) of
        Inl e \<Rightarrow> (Inl e, s)
      | Inr buf \<Rightarrow>
          (case ae_post env url [(''Content-Type'', ''application/json'')] buf s of
             (Inl e, s') \<Rightarrow> (Inl e, s')
           | (Inr (status, body), s') \<Rightarrow>
               if status \<noteq> 200 then (Inl (''ollama: '' @ body), s')
               else
                 (case ae_ol_parse env body of
                    Inl e \<Rightarrow> (Inl e, s')
                  | Inr r \<Rightarrow>
                      if or_ToolCalls r = [] then (Inr (or_Content r), s')
                      else
                        (case ol_calls env tools (or_ToolCalls r) (messages @ [ol_assistant r]) s' of
                           (Inl e, s2) \<Rightarrow> (Inl e, s2)
                         | (Inr messages', s2) \<Rightarrow> ol_loop n env url model tools defs messages' s2))))"

definition ol_Inference ::
  "'s ai_env \<Rightarrow> string \<Rightarrow> string \<Rightarrow> ('a, 's) ai_tool list \<Rightarrow> json list \<Rightarrow> 's \<Rightarrow> ((string + string) \<times> 's) option" where
  "ol_Inference env url model tools messages s =
     Some (case tool_defs ol_tool tools of
             Inl e \<Rightarrow> (Inl e, s)
           | Inr defs \<Rightarrow> ol_loop 10 env url model tools defs messages s)"

subsection \<open>Prompts\<close>

text \<open>\<open>SplitFrontMatter\<close>: the front matter, the body, and whether there is any.\<close>

fun find_dashes :: "string list \<Rightarrow> (string list \<times> string list) option" where
  "find_dashes [] = None"
| "find_dashes (l # ls) =
     (if trim_space l = ''---'' then Some ([], ls) else map_option (apfst ((#) l)) (find_dashes ls))"

definition SplitFrontMatter :: "string \<Rightarrow> string \<times> string \<times> bool" where
  "SplitFrontMatter s =
     (case split_on (CHR 0x0A) s of
        [] \<Rightarrow> ([], s, False)
      | l # ls \<Rightarrow>
          if trim_space l \<noteq> ''---'' then ([], s, False)
          else
            (case find_dashes ls of
               Some (fm, body) \<Rightarrow> (join_with [CHR 0x0A] fm, join_with [CHR 0x0A] body, True)
             | None \<Rightarrow> ([], s, False)))"

text \<open>
  \<open>NewAI\<close>: \<open>None\<close> for the nil function, else the name and the description of the option and the prompt. \<open>yaml\<close> reads the front
  matter (name and description).
\<close>

definition NewAI_option ::
  "(bytes \<Rightarrow> string + string \<times> string) \<Rightarrow> string \<Rightarrow> string \<times> string \<Rightarrow> ((string \<times> string) \<times> string) option" where
  "NewAI_option yaml prompt option =
     (case SplitFrontMatter prompt of
        (fm, promptbody, ok) \<Rightarrow>
          (case (if ok then yaml fm else Inr ([], [])) of
             Inl e \<Rightarrow> None
           | Inr (n, d) \<Rightarrow>
               if promptbody = [] then None
               else Some ((if n \<noteq> [] then n else fst option, if d \<noteq> [] then d else snd option), promptbody)))"

text \<open>
  The handler of \<open>NewAI\<close>; \<open>None\<close> is a panic (no provider) or an inference that never returns.
\<close>

definition NewAI_handler ::
  "('a \<Rightarrow> string + bytes) \<Rightarrow> (bytes \<Rightarrow> string + 'b) \<Rightarrow> string \<Rightarrow> (json list \<Rightarrow> 's \<Rightarrow> ((string + string) \<times> 's) option) option \<Rightarrow>
    'a \<Rightarrow> 's \<Rightarrow> ((string + 'b) \<times> 's) option" where
  "NewAI_handler yaml_marshal unmarshal promptbody ai input s =
     (case yaml_marshal input of
        Inl e \<Rightarrow> Some (Inl e, s)
      | Inr buf \<Rightarrow>
          (case ai of
             None \<Rightarrow> None
           | Some infer \<Rightarrow>
               map_option (apfst (\<lambda>r. bind_res r unmarshal))
                 (infer [JsObj [(''role'', JsStr ''user''),
                                (''content'', JsStr (trim_space promptbody @ [CHR 0x0A] @ ''---'' @ [CHR 0x0A] @
                                   ''Input data:'' @ [CHR 0x0A, CHR 0x0A] @ buf))]] s)))"

subsection \<open>Counting the requests\<close>

definition counted :: "'s ai_env \<Rightarrow> ('s \<times> nat) ai_env" where
  "counted env = \<lparr>ae_encode = ae_encode env,
     ae_post = (\<lambda>url hs b (s, k). case ae_post env url hs b s of (r, s') \<Rightarrow> (r, (s', Suc k))),
     ae_cg_parse = ae_cg_parse env, ae_ol_parse = ae_ol_parse env\<rparr>"

definition counted_tool :: "('a, 's) ai_tool \<Rightarrow> ('a, 's \<times> nat) ai_tool" where
  "counted_tool t = \<lparr>tl_Name = tl_Name t, tl_Description = tl_Description t, tl_Schema = tl_Schema t,
     tl_UnmarshalInput = tl_UnmarshalInput t,
     tl_Handlefunc = (\<lambda>x (s, k). case tl_Handlefunc t x s of (r, s') \<Rightarrow> (r, (s', k))),
     tl_MarshalOutput = tl_MarshalOutput t\<rparr>"

abbreviation "counted_tools \<equiv> map counted_tool"

lemma counted_tool_sel [simp]:
  "tl_Name (counted_tool t) = tl_Name t" "tl_Schema (counted_tool t) = tl_Schema t"
  "tl_Description (counted_tool t) = tl_Description t"
  "tl_UnmarshalInput (counted_tool t) = tl_UnmarshalInput t" "tl_MarshalOutput (counted_tool t) = tl_MarshalOutput t"
  "tl_Handlefunc (counted_tool t) x (s, k) = (case tl_Handlefunc t x s of (r, s') \<Rightarrow> (r, (s', k)))"
  by (simp_all add: counted_tool_def)

lemma counted_sel [simp]:
  "ae_encode (counted env) = ae_encode env" "ae_cg_parse (counted env) = ae_cg_parse env"
  "ae_ol_parse (counted env) = ae_ol_parse env" "encode_or_empty (counted env) = encode_or_empty env"
  "ae_post (counted env) url hs b (s, k) = (case ae_post env url hs b s of (r, s') \<Rightarrow> (r, (s', Suc k)))"
  by (simp_all add: counted_def encode_or_empty_def fun_eq_iff)

lemma findTool_counted: "findTool (counted_tools tools) n = map_option counted_tool (findTool tools n)"
  by (induction tools) (auto simp: findTool_def)

lemma tool_defs_counted:
  "(\<And>t j. wrap (counted_tool t) j = wrap' t j) \<Longrightarrow> tool_defs wrap (counted_tools tools) = tool_defs wrap' tools"
  by (induction tools) simp_all

lemma cg_items_counted:
  "cg_items (counted env) cfg (counted_tools tools) items next (s, k) =
     (case cg_items env cfg tools items next s of (r, s') \<Rightarrow> (r, (s', k)))"
  by (induction items arbitrary: "next" s)
    (simp_all add: findTool_counted split: option.split sum.split prod.split)

lemma responsesCreate_counted:
  "responsesCreate (counted env) cfg model i m (counted_tools tools) (s, k) =
     (case responsesCreate env cfg model i m tools s of
        (r, s') \<Rightarrow> (r, (s', case tool_defs cg_tool tools of Inl e \<Rightarrow> k | Inr d \<Rightarrow> Suc k)))"
  by (simp add: responsesCreate_def tool_defs_counted [where wrap' = cg_tool] cg_tool_def split: sum.split prod.split)

lemma cg_step_counted:
  "\<exists>r s' k'. cg_step (counted env) cfg model (counted_tools tools) i m (s, k) = (r, (s', k')) \<and> k' \<le> Suc k"
  by (auto simp: cg_step_def responsesCreate_counted cg_items_counted split: sum.split prod.split)

lemma cg_loop_counted:
  assumes "0 \<le> depth" "depth < ai_ToolMaxLoop cfg"
  shows "\<exists>r s' k'. cg_loop (counted env) cfg model (counted_tools tools) i depth m (s, k) = Some (r, (s', k')) \<and>
    int k' \<le> int k + (ai_ToolMaxLoop cfg - depth)"
  using assms
proof (induction "nat (ai_ToolMaxLoop cfg - depth)" arbitrary: depth m s k)
  case 0
  then show ?case by simp
next
  case (Suc n)
  obtain r s' k' where step: "cg_step (counted env) cfg model (counted_tools tools) i m (s, k) = (r, (s', k'))" "k' \<le> Suc k"
    using cg_step_counted [of env cfg model tools i m s k] by auto
  show ?case
  proof (cases "\<exists>next. r = ToolOutputs next \<and> next \<noteq> [] \<and> depth + 1 < ai_ToolMaxLoop cfg")
    case True
    then obtain "next" where r: "r = ToolOutputs next" "next \<noteq> []" and d: "depth + 1 < ai_ToolMaxLoop cfg" by blast
    have "\<exists>q t k2. cg_loop (counted env) cfg model (counted_tools tools) i (depth + 1) next (s', k') = Some (q, (t, k2)) \<and>
        int k2 \<le> int k' + (ai_ToolMaxLoop cfg - (depth + 1))"
      using Suc.hyps(2) Suc.prems d by (intro Suc.hyps(1)) auto
    then show ?thesis
      using step r d by (subst cg_loop.simps) auto
  next
    case False
    then show ?thesis
      using step Suc.prems by (subst cg_loop.simps) (auto split: cg_round.split)
  qed
qed

lemma ol_calls_counted:
  "ol_calls (counted env) (counted_tools tools) tcs messages (s, k) =
     (case ol_calls env tools tcs messages s of (r, s') \<Rightarrow> (r, (s', k)))"
  by (induction tcs arbitrary: messages s)
    (simp_all add: findTool_counted split: option.split sum.split prod.split)

lemma ol_loop_counted:
  "\<exists>r s' k'. ol_loop n (counted env) url model (counted_tools tools) defs messages (s, k) = (r, (s', k')) \<and> k' \<le> k + n"
proof (induction n arbitrary: messages s k)
  case (Suc n)
  have IH: "\<exists>r s' k'. ol_loop n (counted env) url model (counted_tools tools) defs ms (t, Suc k) = (r, (s', k')) \<and>
      k' \<le> Suc (k + n)" for ms t
    using Suc.IH [of ms t "Suc k"] by simp
  show ?case
    by (simp add: ol_calls_counted IH split: sum.split prod.split)
qed simp

subsection \<open>The contract of an AI\<close>

text \<open>
  What the handler of \<open>NewAI\<close> relies on: an inference returns, and makes at most \<open>limit\<close> requests. The state is paired with
  the number of requests made.
\<close>

locale bounded_ai =
  fixes infer :: "json list \<Rightarrow> 's \<times> nat \<Rightarrow> ((string + string) \<times> 's \<times> nat) option" and limit :: nat
  assumes infer_returns: "\<exists>r s' k'. infer messages (s, k) = Some (r, (s', k')) \<and> k' \<le> k + limit"
begin

lemma handler_returns:
  "\<exists>r s' k'. NewAI_handler yaml_marshal unmarshal promptbody (Some infer) input (s, k) = Some (r, (s', k')) \<and> k' \<le> k + limit"
proof (cases "yaml_marshal input")
  case (Inr buf)
  obtain r s' k' where "infer [JsObj [(''role'', JsStr ''user''),
      (''content'', JsStr (trim_space promptbody @ [CHR 0x0A] @ ''---'' @ [CHR 0x0A] @ ''Input data:'' @ [CHR 0x0A, CHR 0x0A] @ buf))]]
      (s, k) = Some (r, (s', k'))" "k' \<le> k + limit"
    using infer_returns by blast
  then show ?thesis by (simp add: NewAI_handler_def Inr)
qed (simp add: NewAI_handler_def)

end

definition limited :: "ai_config \<Rightarrow> nat \<Rightarrow> ai_config" where
  "limited cfg n = cfg\<lparr>ai_ToolMaxLoop := int (Suc n)\<rparr>"

interpretation chatgpt: bounded_ai "cg_Inference (counted env) (limited cfg n) model (counted_tools tools)" "Suc n"
  for env :: "'s ai_env" and cfg n model and tools :: "('a, 's) ai_tool list"
proof unfold_locales
  fix messages :: "json list" and s :: 's and k
  show "\<exists>r s' k'. cg_Inference (counted env) (limited cfg n) model (counted_tools tools) messages (s, k) = Some (r, (s', k')) \<and>
      k' \<le> k + Suc n"
    using cg_loop_counted [of 0 "limited cfg n" env model tools "[]" messages s k]
    by (fastforce simp: cg_Inference_def limited_def)
qed

interpretation ollama: bounded_ai "ol_Inference (counted env) url model (counted_tools tools)" 10
  for env :: "'s ai_env" and url model and tools :: "('a, 's) ai_tool list"
proof unfold_locales
  fix messages :: "json list" and s :: 's and k
  show "\<exists>r s' k'. ol_Inference (counted env) url model (counted_tools tools) messages (s, k) = Some (r, (s', k')) \<and> k' \<le> k + 10"
    using ol_loop_counted [of 10 env url model tools _ messages s k]
    by (auto simp: ol_Inference_def split: sum.split)
qed

lemma cg_loop_unbounded:
  assumes "ai_ToolMaxLoop cfg = 0" "\<And>m s. \<exists>outs s'. cg_step env cfg model tools [] m s = (ToolOutputs outs, s') \<and> outs \<noteq> []"
  shows "cg_loop env cfg model tools [] d messages s = None"
proof -
  have no: False if "cg_loop e c mo ts i d m s = Some y" "e = env" "c = cfg" "mo = model" "ts = tools" "i = []"
    for e c mo ts i d m s y
    using that
  proof (induction rule: cg_loop.raw_induct [rotated, consumes 1])
    case (1 loop e c mo ts i d m s r)
    obtain outs s' where "cg_step env cfg model tools [] m s = (ToolOutputs outs, s')" "outs \<noteq> []"
      using assms(2) [of m s] by blast
    with 1 assms(1) show ?case by (cases r) auto
  qed
  show ?thesis
    by (rule ccontr) (auto dest: no [OF _ refl refl refl refl refl])
qed

text \<open>C35. A function made by \<open>NewAI\<close> returns, whatever the service answers: over Ollama after at most ten requests, over ChatGPT after at
  most \<open>ToolMaxLoop\<close> when that is positive. When it is zero nothing bounds the loop: if every round ends in tool
  outputs, the inference never returns.\<close>

theorem tool_loop_is_bounded:
  "(\<exists>r s' k. NewAI_handler ym um body (Some (ol_Inference (counted env) url model (counted_tools tools))) input (s, 0) =
      Some (r, (s', k)) \<and> k \<le> 10) \<and>
   (\<exists>r s' k. NewAI_handler ym um body (Some (cg_Inference (counted env) (limited cfg n) model (counted_tools tools))) input
      (s, 0) = Some (r, (s', k)) \<and> k \<le> Suc n) \<and>
   (ai_ToolMaxLoop cfg = 0 \<and> (\<forall>m s. \<exists>outs s'. cg_step env cfg model tools [] m s = (ToolOutputs outs, s') \<and> outs \<noteq> []) \<longrightarrow>
      cg_Inference env cfg model tools messages s = None)"
proof (intro conjI impI)
  show "\<exists>r s' k. NewAI_handler ym um body (Some (ol_Inference (counted env) url model (counted_tools tools))) input (s, 0) =
      Some (r, (s', k)) \<and> k \<le> 10"
    using ollama.handler_returns [of ym um body env url model tools input s 0] by simp
  show "\<exists>r s' k. NewAI_handler ym um body (Some (cg_Inference (counted env) (limited cfg n) model (counted_tools tools))) input
      (s, 0) = Some (r, (s', k)) \<and> k \<le> Suc n"
    using chatgpt.handler_returns [of ym um body env cfg n model tools input s 0] by simp
next
  assume "ai_ToolMaxLoop cfg = 0 \<and> (\<forall>m s. \<exists>outs s'. cg_step env cfg model tools [] m s = (ToolOutputs outs, s') \<and> outs \<noteq> [])"
  then show "cg_Inference env cfg model tools messages s = None"
    unfolding cg_Inference_def by (intro cg_loop_unbounded) auto
qed

subsection \<open>What the model is told\<close>

text \<open>The requests of a conversation with ChatGPT all have the shape of the first: no request refers to an earlier answer.\<close>

definition same_without_id :: "ai_config \<Rightarrow> string \<Rightarrow> 's ai_env \<Rightarrow> 's ai_env \<Rightarrow> bool" where
  "same_without_id cfg model env env' \<longleftrightarrow>
     ae_encode env' = ae_encode env \<and> ae_cg_parse env' = ae_cg_parse env \<and>
     (\<forall>hs input defs s. ae_post env' (ai_ResponseAPIURL cfg) hs (encode_or_empty env (cg_body model input defs [])) s =
        ae_post env (ai_ResponseAPIURL cfg) hs (encode_or_empty env (cg_body model input defs [])) s)"

lemma cg_items_encode: "ae_encode env' = ae_encode env \<Longrightarrow> cg_items env' cfg tools items next s = cg_items env cfg tools items next s"
  by (induction items arbitrary: "next" s)
    (simp_all add: encode_or_empty_def split: option.split sum.split prod.split)

lemma cg_step_without_id:
  "same_without_id cfg model env env' \<Longrightarrow> cg_step env' cfg model tools [] m s = cg_step env cfg model tools [] m s"
proof -
  assume same: "same_without_id cfg model env env'"
  then have enc: "encode_or_empty env' = encode_or_empty env" "ae_cg_parse env' = ae_cg_parse env"
    and items: "cg_items env' cfg tools items next s = cg_items env cfg tools items next s" for items "next" s
    by (simp_all add: same_without_id_def encode_or_empty_def fun_eq_iff cg_items_encode)
  have post: "ae_post env' (ai_ResponseAPIURL cfg) hs (encode_or_empty env (cg_body model input defs [])) s =
      ae_post env (ai_ResponseAPIURL cfg) hs (encode_or_empty env (cg_body model input defs [])) s" for hs input defs s
    using same unfolding same_without_id_def by blast
  show ?thesis
    unfolding cg_step_def responsesCreate_def enc post items ..
qed

lemma cg_loop_without_id_le:
  assumes "same_without_id cfg model env env'" "cg_loop env cfg model tools [] d m s = Some y"
  shows "cg_loop env' cfg model tools [] d m s = Some y"
proof -
  have "cg_loop env' c mo ts i d m s = Some y"
    if "cg_loop e c mo ts i d m s = Some y" "e = env" "c = cfg" "mo = model" "ts = tools" "i = []" for e c mo ts i d m s y
    using that
  proof (induction rule: cg_loop.raw_induct [rotated, consumes 1])
    case (1 loop e c mo ts i d m s r)
    obtain q s' where step: "cg_step env cfg model tools [] m s = (q, s')" by fastforce
    have step': "cg_step env' cfg model tools [] m s = (q, s')"
      by (simp add: cg_step_without_id [OF assms(1)] step)
    show ?case
    proof (cases q)
      case (ToolOutputs outs)
      show ?thesis
        using 1 step step' ToolOutputs by (subst cg_loop.simps) (auto split: if_splits)
    qed (use 1 step step' in \<open>subst cg_loop.simps, simp\<close>)+
  qed
  with assms(2) show ?thesis by blast
qed

text \<open>The client for ChatGPT forgets the conversation. After a round of tool calls only their outputs are sent, and the id of the earlier
  answer never is (\<open>responseID\<close> is not assigned): from then on the result does not depend on the prompt, only
  on those outputs; and two services that agree on requests without \<open>previous_response_id\<close> can not be told apart.\<close>

theorem chatgpt_forgets_the_prompt:
  assumes "cg_step env cfg model tools [] m1 s1 = (ToolOutputs outs, s')"
    and "cg_step env cfg model tools [] m2 s2 = (ToolOutputs outs, s')"
    and "same_without_id cfg model env env'" "same_without_id cfg model env' env"
  shows "cg_Inference env cfg model tools m1 s1 = cg_Inference env cfg model tools m2 s2 \<and>
    cg_Inference env' cfg model tools m s = cg_Inference env cfg model tools m s"
proof
  show "cg_Inference env cfg model tools m1 s1 = cg_Inference env cfg model tools m2 s2"
    unfolding cg_Inference_def by (subst (1 2) cg_loop.simps) (simp add: assms(1,2))
  show "cg_Inference env' cfg model tools m s = cg_Inference env cfg model tools m s"
    unfolding cg_Inference_def
    using cg_loop_without_id_le [OF assms(3), of tools 0 m s] cg_loop_without_id_le [OF assms(4), of tools 0 m s]
    by (cases "cg_loop env cfg model tools [] 0 m s"; cases "cg_loop env' cfg model tools [] 0 m s") auto
qed

subsection \<open>Unknown tools and failing tools\<close>

definition known_call :: "('a, 's) ai_tool list \<Rightarrow> ol_call \<Rightarrow> bool" where
  "known_call tools c \<longleftrightarrow> findTool tools (oc_Name c) \<noteq> None"

lemma ol_calls_known: "ol_calls env tools tcs messages s = ol_calls env tools (filter (known_call tools) tcs) messages s"
  by (induction tcs arbitrary: messages s) (simp_all add: known_call_def split: option.split sum.split prod.split)

lemma ol_calls_answers:
  "ol_calls env tools tcs messages s = (Inr ms, s') \<Longrightarrow>
     \<exists>as. ms = messages @ as \<and> length as = length (filter (known_call tools) tcs)"
proof (induction tcs arbitrary: messages s)
  case (Cons tc tcs)
  show ?case
  proof (cases "findTool tools (oc_Name tc)")
    case None
    then show ?thesis using Cons by (simp add: known_call_def)
  next
    case (Some t)
    with Cons.prems obtain b s2 where "ol_calls env tools tcs (messages @ [ol_result (oc_Name tc) b]) s2 = (Inr ms, s')"
      by (auto split: option.splits sum.splits prod.splits)
    from Cons.IH [OF this] Some show ?thesis by (auto simp: known_call_def)
  qed
qed simp

text \<open>The two clients treat bad tool calls differently. Ollama passes over a call of a tool that does not exist: the model gets
  one answer per known call and is not told of the others; an error of a tool ends the inference. ChatGPT ends the
  inference at an unknown tool, and tells the model of a tool's error, after which it goes on.\<close>

theorem bad_tool_calls:
  assumes "findTool tools (ci_Name item) = None" "ci_Type item = ''function_call''"
    and "findTool tools (ci_Name item') = Some t" "ci_Type item' = ''function_call''"
    and "tl_UnmarshalInput t (ci_Arguments item') = Inr input" "tl_Handlefunc t input s = ((Some e, out), s')"
  shows "ol_calls env tools tcs messages s = ol_calls env tools (filter (known_call tools) tcs) messages s \<and>
    (\<forall>ms s2. ol_calls env tools tcs messages s = (Inr ms, s2) \<longrightarrow>
       (\<exists>as. ms = messages @ as \<and> length as = length (filter (known_call tools) tcs))) \<and>
    (\<forall>c. oc_Name c = ci_Name item' \<and> ae_encode env (oc_Arguments c) = Inr (ci_Arguments item') \<longrightarrow>
       ol_calls env tools (c # tcs) messages s = (Inl e, s')) \<and>
    cg_items env cfg tools (item # items) pending s = (Failed (''tool not found: '' @ ci_Name item), s) \<and>
    cg_items env cfg tools (item' # items) pending s =
      cg_items env cfg tools items
        (pending @ [cg_output cfg (ci_CallID item') (encode_or_empty env (JsObj [(''error'', JsStr e)]))]) s'"
  using assms by (auto simp: ol_calls_answers intro: ol_calls_known)

subsection \<open>Choosing a provider, reading a prompt\<close>

theorem select_provider:
  assumes "CHR ''/'' \<notin> set p" "p \<noteq> []"
  shows "ai_Select reg cfg [p @ ''/'' @ m] = NewAIProvider reg cfg p m \<and>
    ai_Select reg cfg [[]] = ai_Select reg cfg [] \<and>
    ai_Select reg (cfg\<lparr>ai_DefaultModel := p @ ''/'' @ m\<rparr>) [] = NewAIProvider reg (cfg\<lparr>ai_DefaultModel := p @ ''/'' @ m\<rparr>) p m \<and>
    NewAIProvider (RegisterAIProvider p fn reg) cfg p m = Some (fn cfg m)"
  using assms by (simp add: ai_Select_def index_of_append Let_def NewAIProvider_def RegisterAIProvider_def)

lemma find_dashes_append:
  "\<forall>l \<in> set xs. trim_space l \<noteq> ''---'' \<Longrightarrow> find_dashes (xs @ ''---'' # ys) = Some (xs, ys)"
proof (induction xs)
  case Nil
  have "trim_space ''---'' = ''---''" by code_simp
  then show ?case by simp
qed simp

lemma split_lines_append: "split_on c (a @ c # b) = split_on c a @ split_on c b"
proof (induction a)
  case (Cons x a)
  then show ?case by (cases "split_on c a") (auto split: list.splits)
qed simp

text \<open>Front matter between two lines of three dashes is taken off a prompt exactly, whatever the body holds, when no line of it is three dashes
  itself; a prompt that does not start with such a line, or has no second one, is its own body.\<close>

theorem front_matter_roundtrip:
  assumes "\<forall>l \<in> set (split_on (CHR 0x0A) fm). trim_space l \<noteq> ''---''"
  shows "SplitFrontMatter (''---'' @ [CHR 0x0A] @ fm @ [CHR 0x0A] @ ''---'' @ [CHR 0x0A] @ body) = (fm, body, True) \<and>
    SplitFrontMatter (''---'' @ [CHR 0x0A] @ fm) = ([], ''---'' @ [CHR 0x0A] @ fm, False)"
proof -
  have dashes: "trim_space ''---'' = ''---''" by code_simp
  have none: "find_dashes xs = None" if "\<forall>l \<in> set xs. trim_space l \<noteq> ''---''" for xs
    using that by (induction xs) simp_all
  have head: "split_on (CHR 0x0A) (''---'' @ CHR 0x0A # x) = ''---'' # split_on (CHR 0x0A) x" for x
    by (simp add: split_lines_append)
  have mid: "split_on (CHR 0x0A) (fm @ CHR 0x0A # ''---'' @ CHR 0x0A # body) =
      split_on (CHR 0x0A) fm @ ''---'' # split_on (CHR 0x0A) body"
    unfolding split_lines_append head by simp
  have one: "''---'' @ [CHR 0x0A] @ fm @ [CHR 0x0A] @ ''---'' @ [CHR 0x0A] @ body =
      ''---'' @ CHR 0x0A # (fm @ CHR 0x0A # ''---'' @ CHR 0x0A # body)"
    and two: "''---'' @ [CHR 0x0A] @ fm = ''---'' @ CHR 0x0A # fm" by simp_all
  have "SplitFrontMatter (''---'' @ CHR 0x0A # (fm @ CHR 0x0A # ''---'' @ CHR 0x0A # body)) = (fm, body, True)"
    unfolding SplitFrontMatter_def head mid by (simp add: dashes find_dashes_append [OF assms] join_split_on)
  moreover have "SplitFrontMatter (''---'' @ CHR 0x0A # fm) = ([], ''---'' @ CHR 0x0A # fm, False)"
    unfolding SplitFrontMatter_def head by (simp add: dashes none [OF assms])
  ultimately show ?thesis unfolding one two by simp
qed

subsection \<open>Examples\<close>

definition text_chat :: "unit ai_env" where
  "text_chat = \<lparr>ae_encode = (\<lambda>_. Inr ''{}''), ae_post = (\<lambda>url hs b s. (Inr (200, ''r''), s)),
     ae_cg_parse = (\<lambda>_. Inr \<lparr>cr_ID = ''1'', cr_Output =
       [\<lparr>ci_Type = ''function_call'', ci_Name = ''now'', ci_Arguments = [], ci_CallID = ''c'', ci_Content = []\<rparr>]\<rparr>),
     ae_ol_parse = (\<lambda>_. Inl ''bad'')\<rparr>"

definition text_now :: "string option \<Rightarrow> (nat, unit) ai_tool" where
  "text_now err = \<lparr>tl_Name = ''now'', tl_Description = [], tl_Schema = Inr JsNull, tl_UnmarshalInput = (\<lambda>_. Inr 0),
     tl_Handlefunc = (\<lambda>x s. ((err, x), s)), tl_MarshalOutput = (\<lambda>_. Inr ''1'')\<rparr>"

definition text_ai :: ai_config where
  "text_ai = \<lparr>ai_DefaultModel = ''chatgpt/gpt'', ai_ToolMaxBodySize = 0, ai_ToolMaxLoop = 0, ai_APIKey = [],
     ai_ResponseAPIURL = []\<rparr>"

lemma text_step: "cg_step text_chat text_ai model [text_now None] i m s = (ToolOutputs [cg_output text_ai ''c'' ''1''], ())"
  by (simp add: cg_step_def responsesCreate_def text_chat_def text_now_def findTool_def)

theorem tool_loop_is_bounded_witness:
  "cg_Inference text_chat text_ai ''gpt'' [text_now None] [] () = None \<and>
   (\<exists>r s' k. NewAI_handler (\<lambda>x. Inr x) (\<lambda>x. Inr x) ''p''
      (Some (cg_Inference (counted text_chat) (limited text_ai 1) ''gpt'' (counted_tools [text_now None]))) ''i'' ((), 0) =
      Some (r, (s', k)) \<and> k \<le> 2)"
  using tool_loop_is_bounded [where ym = "\<lambda>x. Inr x" and um = "\<lambda>x. Inr x" and body = "''p''" and env = text_chat
      and url = "[]" and model = "''gpt''" and tools = "[text_now None]" and input = "''i''" and s = "()" and cfg = text_ai
      and n = 1 and messages = "[]"]
  by (auto simp: text_step) (simp add: text_ai_def)+

theorem chatgpt_forgets_the_prompt_witness:
  "cg_Inference text_chat text_ai ''gpt'' [text_now None] [JsStr ''a''] () =
   cg_Inference text_chat text_ai ''gpt'' [text_now None] [JsStr ''b''] ()"
  using chatgpt_forgets_the_prompt [OF text_step text_step, where env' = text_chat]
  by (simp add: same_without_id_def)

definition text_item :: "string \<Rightarrow> cg_item" where
  "text_item name = \<lparr>ci_Type = ''function_call'', ci_Name = name, ci_Arguments = ''{}'', ci_CallID = ''c'', ci_Content = []\<rparr>"

theorem bad_tool_calls_witness:
  "cg_items text_chat text_ai [text_now (Some ''late'')] [text_item ''x''] [] () = (Failed (''tool not found: '' @ ''x''), ()) \<and>
   ol_calls text_chat [text_now (Some ''late'')] [\<lparr>oc_Name = ''x'', oc_Arguments = JsNull\<rparr>] [] () = (Inr [], ())"
  using bad_tool_calls [where tools = "[text_now (Some ''late'')]" and item = "text_item ''x''" and item' = "text_item ''now''"
      and t = "text_now (Some ''late'')" and input = 0 and s = "()" and e = "''late''" and out = 0 and s' = "()"
      and env = text_chat and tcs = "[\<lparr>oc_Name = ''x'', oc_Arguments = JsNull\<rparr>]" and messages = "[]" and cfg = text_ai
      and items = "[]" and pending = "[]"]
  by (simp add: text_item_def text_now_def findTool_def known_call_def)

theorem front_matter_roundtrip_witness:
  "SplitFrontMatter (''---'' @ [CHR 0x0A] @ ''name: a'' @ [CHR 0x0A] @ ''---'' @ [CHR 0x0A] @ ''Hi'') = (''name: a'', ''Hi'', True)"
proof -
  have "\<forall>l \<in> set (split_on (CHR 0x0A) ''name: a''). trim_space l \<noteq> ''---''" by code_simp
  from front_matter_roundtrip [OF this, of "''Hi''"] show ?thesis by simp
qed

end
