(* ===== verification/Function_New.thy ===== *)
theory Function_New
  imports Open_Api
begin

section \<open>Making functions\<close>

text \<open>
  \<open>NewFunction\<close> and its relatives (\<open>typedhandler.go\<close>, \<open>typedhandler_new.go\<close>): the defaults of an option, the types it is given, the
  registration; and \<open>typedhandler_job_marshal.go\<close>: functions inside the inputs of other functions. The type parameters \<open>T\<close>, \<open>U\<close>
  and \<open>E\<close> are types of \<open>Tag_Plan\<close>. A panic, or a recursion without end, is \<open>None\<close>.
\<close>

subsection \<open>The package of a function\<close>

definition cleanPkg :: "string \<Rightarrow> string" where
  "cleanPkg pkg = (case index_of CHR ''.'' pkg of Some i \<Rightarrow> if i > 0 then take i pkg else pkg | None \<Rightarrow> pkg)"

text \<open>\<open>frames\<close> are the names of the functions on the stack, at most sixteen, the nearest first.\<close>

definition findExternalCaller :: "string list \<Rightarrow> string list \<Rightarrow> string" where
  "findExternalCaller excludePrefixes frames =
     (case find (\<lambda>fn. fn \<noteq> [] \<and> \<not> (\<exists>p \<in> set excludePrefixes. prefix p fn)) (take 16 frames) of
        Some fn \<Rightarrow> cleanPkg fn
      | None \<Rightarrow> [])"

subsection \<open>Types that hold functions\<close>

text \<open>
  Types with names, which may be recursive. The environment gives a named type its underlying type, and tells whether values
  and whether pointers of it have \<open>FindMaster\<close>.
\<close>

datatype rtype = RName string | RPtr rtype | RSlice rtype | RArray rtype | RMap rtype | RStruct "rtype list" | ROther

type_synonym renv = "string \<Rightarrow> rtype \<times> bool \<times> bool"

fun parts :: "rtype \<Rightarrow> rtype list" where
  "parts (RPtr t) = [t]"
| "parts (RSlice t) = [t]"
| "parts (RArray t) = [t]"
| "parts (RMap t) = [t]"
| "parts (RStruct ts) = ts"
| "parts _ = []"

definition children :: "renv \<Rightarrow> rtype \<Rightarrow> rtype list" where
  "children env t = (case t of RName n \<Rightarrow> parts (fst (env n)) | _ \<Rightarrow> parts t)"

text \<open>The type or the pointer to it implements \<open>SelfDiscovery\<close>.\<close>

definition discovers :: "renv \<Rightarrow> rtype \<Rightarrow> bool" where
  "discovers env t \<longleftrightarrow>
     (case t of
        RName n \<Rightarrow> fst (snd (env n)) \<or> snd (snd (env n))
      | RPtr (RName n) \<Rightarrow> snd (snd (env n))
      | _ \<Rightarrow> False)"

text \<open>The name under which the environment knows a type.\<close>

fun named_type :: "gtype \<Rightarrow> rtype" where
  "named_type (TBasic n _ _) = RName n"
| "named_type (TStruct n _ _ _) = RName n"
| "named_type (TIface n _) = RName n"
| "named_type (TPtr t) = RPtr (named_type t)"
| "named_type (TSlice t) = RSlice (named_type t)"

text \<open>The recursion of \<open>hasSelfDiscovery\<close>, with the types that are still to be looked at.\<close>

partial_function (option) discover_any :: "renv \<Rightarrow> rtype list \<Rightarrow> bool option" where
  "discover_any env ts =
     (case ts of
        [] \<Rightarrow> Some False
      | t # rest \<Rightarrow> if discovers env t then Some True else discover_any env (children env t @ rest))"

definition hasSelfDiscovery :: "renv \<Rightarrow> rtype \<Rightarrow> bool option" where
  "hasSelfDiscovery env t = discover_any env [t]"

subsection \<open>\<open>NewFunction\<close>\<close>

record fn_options = api_opt +
  no_Name :: string
  no_Class :: string
  no_RedirectStatusCode :: int
  no_NoWrapJSON :: bool
  no_InputTypeHint :: "gtype option"
  no_OutputTypeHint :: "gtype option"
  no_ErrorTypeHint :: "gtype option"
  no_eiserror :: bool
  no_hasSelfDiscovery :: bool

definition JSON_type :: string where
  "JSON_type = ''application/json''"

text \<open>\<open>APIResponse\<close> and \<open>APIError\<close>.\<close>

definition APIResponse :: "gtype \<Rightarrow> gtype" where
  "APIResponse u = TStruct ''APIResponse'' [] [] [GField ''Data'' True False [(''json'', ''data'')] u]"

definition APIError :: "gtype \<Rightarrow> gtype" where
  "APIError e = TStruct ''APIError'' [] [''Error''] [GField ''Err'' True False [(''json'', ''error'')] e]"

definition error_type :: gtype where
  "error_type = TIface ''error'' [''Error'']"

definition is_any :: "gtype \<Rightarrow> bool" where
  "is_any t \<longleftrightarrow> (case t of TIface _ ms \<Rightarrow> ms = [] | _ \<Rightarrow> False)"

text \<open>\<open>setDefault\<close> on a new input: only structs, pointers to structs and \<open>any\<close> are inputs.\<close>

definition default_ok :: "gtype \<Rightarrow> bool" where
  "default_ok t \<longleftrightarrow> is_any t \<or> is_struct t \<or> is_ptr t \<and> is_struct (elem_type t)"

definition option_defaults :: "string list \<Rightarrow> fn_options \<Rightarrow> fn_options" where
  "option_defaults frames o1 =
     o1\<lparr>ao_Package := if ao_Package o1 = [] then findExternalCaller [''github.com/wh-kuromai/allino''] frames else ao_Package o1,
        ao_Method := if ao_Method o1 = [] then ''GET'' else ao_Method o1,
        ao_ResponseStatusCode := if ao_ResponseStatusCode o1 = 0 then 200 else ao_ResponseStatusCode o1,
        ao_ErrorStatusCode := if ao_ErrorStatusCode o1 = 0 then 400 else ao_ErrorStatusCode o1,
        no_RedirectStatusCode := if no_RedirectStatusCode o1 = 0 then 302 else no_RedirectStatusCode o1\<rparr>"

definition or_hint :: "gtype option \<Rightarrow> gtype \<Rightarrow> gtype option" where
  "or_hint hint t = (case hint of Some h \<Rightarrow> Some h | None \<Rightarrow> Some t)"

definition option_types :: "gtype \<Rightarrow> gtype \<Rightarrow> gtype \<Rightarrow> fn_options \<Rightarrow> fn_options" where
  "option_types t u e o1 =
     (let plain = (no_NoWrapJSON o1 \<or> ao_ContentType o1 \<noteq> JSON_type) in
      o1\<lparr>ao_outputType := or_hint (no_OutputTypeHint o1) (if plain then u else APIResponse u),
         ao_errorType := or_hint (no_ErrorTypeHint o1) (if plain then e else APIError e),
         ao_inputType := or_hint (no_InputTypeHint o1) t,
         no_eiserror := (e = error_type)\<rparr>)"

record fn_registry =
  fr_list :: "fn_options list"
  fr_master :: "string \<rightharpoonup> fn_options"

definition NewFunction ::
  "renv \<Rightarrow> string list \<Rightarrow> gtype \<Rightarrow> gtype \<Rightarrow> gtype \<Rightarrow> fn_options \<Rightarrow> fn_registry \<Rightarrow>
    (fn_options \<times> fn_registry) option" where
  "NewFunction env frames t u e option reg =
     (if \<not> default_ok t then None
      else
        (case hasSelfDiscovery env (named_type t) of
           None \<Rightarrow> None
         | Some sd \<Rightarrow>
             (let o1 = (option_types t u e (option_defaults frames option))\<lparr>no_hasSelfDiscovery := sd\<rparr> in
              Some (o1,
                \<lparr>fr_list = fr_list reg @ [o1],
                 fr_master = (if no_Name o1 \<noteq> [] then (fr_master reg)(no_Name o1 \<mapsto> o1) else fr_master reg)\<rparr>))))"

text \<open>\<open>NewTypedAPI\<close> and \<open>NewTypedUI\<close> differ in the content type.\<close>

definition empty_option :: fn_options where
  "empty_option = \<lparr>ao_Method = [], ao_Path = [], ao_SubMethod = [], ao_ContentType = [], ao_ResponseStatusCode = 0,
     ao_ErrorStatusCode = 0, ao_Summary = [], ao_Description = [], ao_Package = [], ao_inputType = None, ao_outputType = None,
     ao_errorType = None, no_Name = [], no_Class = [], no_RedirectStatusCode = 0, no_NoWrapJSON = False, no_InputTypeHint = None,
     no_OutputTypeHint = None, no_ErrorTypeHint = None, no_eiserror = False, no_hasSelfDiscovery = False\<rparr>"

definition typed_option :: "string \<Rightarrow> string \<Rightarrow> fn_options" where
  "typed_option path contentType =
     empty_option\<lparr>ao_Path := path, ao_Method := ''GET'', ao_SubMethod := [''POST''], ao_ContentType := contentType\<rparr>"

definition NewTypedAPI where
  "NewTypedAPI env frames t u e path = NewFunction env frames t u e (typed_option path JSON_type)"

definition NewTypedUI where
  "NewTypedUI env frames t u e path = NewFunction env frames t u e (typed_option path ''text/html'')"

definition GetClassHandlers :: "string \<Rightarrow> fn_registry \<Rightarrow> fn_options list" where
  "GetClassHandlers cls reg = filter (\<lambda>o1. no_Class o1 = cls) (fr_list reg)"

text \<open>\<open>InputSchema\<close> and the others.\<close>

definition schema_of :: "'sc schema_lib \<Rightarrow> gtype option \<Rightarrow> 'sc option" where
  "schema_of lib t = Option.bind t (sl_from lib)"

subsection \<open>Functions inside inputs\<close>

text \<open>
  \<open>fillSelfDiscovery\<close> on the fields of a struct. \<open>master\<close> is \<open>FindMaster\<close> of a field by its type and value, with the type of
  the answer; \<open>assignable\<close> is the rule of the language. The answer tells whether there was no \<open>ErrTypeMismatch\<close>; the one of
  the nested call \<open>deep\<close> is dropped. \<open>None\<close> is a depth that was not enough.
\<close>

fun fill_fields ::
  "(gtype \<Rightarrow> gval \<Rightarrow> (gtype \<times> gval) option) \<Rightarrow> (gtype \<Rightarrow> gtype \<Rightarrow> bool) \<Rightarrow> (gtype \<Rightarrow> gval \<Rightarrow> gval option) \<Rightarrow>
    gfield list \<Rightarrow> gval list \<Rightarrow> (bool \<times> gval list) option" where
  "fill_fields master assignable deep [] vs = Some (True, vs)"
| "fill_fields master assignable deep (f # fs) [] = Some (True, [])"
| "fill_fields master assignable deep (f # fs) (v # vs) =
     (let ft = gf_type f; rest = (\<lambda>w. map_option (apsnd ((#) w)) (fill_fields master assignable deep fs vs)) in
      if \<not> gf_exported f then rest v
      else
        (case (if ''FindMaster'' \<in> set (method_set (TPtr ft)) then master ft v else None) of
           Some (mt, mv) \<Rightarrow>
             if assignable mt ft then Option.bind (deep ft (store_as ft mt mv)) rest else Some (False, v # vs)
         | None \<Rightarrow> Option.bind (deep ft v) rest))"

fun fill_deep :: "(gtype \<Rightarrow> gval \<Rightarrow> (bool \<times> gval) option) \<Rightarrow> gtype \<Rightarrow> gval \<Rightarrow> gval option" where
  "fill_deep fill (TStruct n vm pm fs) v = map_option snd (fill (TStruct n vm pm fs) v)"
| "fill_deep fill (TPtr (TStruct n vm pm fs)) (GPtr v) = map_option (\<lambda>p. GPtr (snd p)) (fill (TStruct n vm pm fs) v)"
| "fill_deep fill _ v = Some v"

text \<open>The argument is the type and the value that \<open>target\<close> points to.\<close>

primrec fillSelfDiscovery ::
  "(gtype \<Rightarrow> gval \<Rightarrow> (gtype \<times> gval) option) \<Rightarrow> (gtype \<Rightarrow> gtype \<Rightarrow> bool) \<Rightarrow> nat \<Rightarrow> gtype \<Rightarrow> gval \<Rightarrow>
    (bool \<times> gval) option" where
  "fillSelfDiscovery master assignable 0 t v = None"
| "fillSelfDiscovery master assignable (Suc n) t v =
     (case (t, v) of
        (TStruct _ _ _ fs, GStruct vs) \<Rightarrow>
          map_option (apsnd GStruct) (fill_fields master assignable (fill_deep (fillSelfDiscovery master assignable n)) fs vs)
      | _ \<Rightarrow> Some (True, v))"

text \<open>\<open>GenericFunction.FindMaster\<close>: what the name in the field \<open>Handler\<close> stands for, whatever its type.\<close>

definition FindMaster :: "(string \<rightharpoonup> gtype \<times> gval) \<Rightarrow> gtype \<Rightarrow> gval \<Rightarrow> (gtype \<times> gval) option" where
  "FindMaster masters ft v = masters (case get_at [6] v of Some (GAtom (Some h)) \<Rightarrow> h | _ \<Rightarrow> [])"

subsection \<open>What \<open>NewFunction\<close> makes sure of\<close>

lemma option_defaults_complete:
  "ao_Method (option_defaults frames o1) \<noteq> [] \<and> ao_ResponseStatusCode (option_defaults frames o1) \<noteq> 0 \<and>
   ao_ErrorStatusCode (option_defaults frames o1) \<noteq> 0 \<and> no_RedirectStatusCode (option_defaults frames o1) \<noteq> 0"
  by (simp add: option_defaults_def)

lemma option_types_keep [simp]:
  "ao_Method (option_types t u e o1) = ao_Method o1" "ao_Path (option_types t u e o1) = ao_Path o1"
  "ao_ResponseStatusCode (option_types t u e o1) = ao_ResponseStatusCode o1"
  "ao_ErrorStatusCode (option_types t u e o1) = ao_ErrorStatusCode o1"
  "ao_Package (option_types t u e o1) = ao_Package o1" "no_Name (option_types t u e o1) = no_Name o1"
  "no_RedirectStatusCode (option_types t u e o1) = no_RedirectStatusCode o1"
  by (simp_all add: option_types_def Let_def)

lemma option_types_input: "ao_inputType (option_types t u e o1) \<noteq> None"
  by (simp add: option_types_def Let_def or_hint_def split: option.split)

text \<open>The functions a program makes one after the other.\<close>

fun new_functions ::
  "renv \<Rightarrow> (string list \<times> gtype \<times> gtype \<times> gtype \<times> fn_options) list \<Rightarrow> fn_registry \<Rightarrow> fn_registry option" where
  "new_functions env [] reg = Some reg"
| "new_functions env ((frames, t, u, e, o1) # calls) reg =
     Option.bind (NewFunction env frames t u e o1 reg) (\<lambda>(_, reg'). new_functions env calls reg')"

definition complete_option :: "fn_options \<Rightarrow> bool" where
  "complete_option o1 \<longleftrightarrow> ao_Method o1 \<noteq> [] \<and> ao_ResponseStatusCode o1 \<noteq> 0 \<and> ao_ErrorStatusCode o1 \<noteq> 0 \<and>
     no_RedirectStatusCode o1 \<noteq> 0 \<and> ao_inputType o1 \<noteq> None"

lemma NewFunction_options:
  assumes "NewFunction env frames t u e o1 reg = Some (o2, reg')"
  shows "\<exists>sd. hasSelfDiscovery env (named_type t) = Some sd \<and>
    o2 = (option_types t u e (option_defaults frames o1))\<lparr>no_hasSelfDiscovery := sd\<rparr>"
  using assms by (auto simp: NewFunction_def Let_def split: if_splits option.splits)

lemma option_types_others: "ao_outputType (option_types t u e o1) \<noteq> None" "ao_errorType (option_types t u e o1) \<noteq> None"
  by (simp_all add: option_types_def Let_def or_hint_def split: option.split)

lemma NewFunction_complete:
  assumes "NewFunction env frames t u e o1 reg = Some (o2, reg')"
  shows "complete_option o2" "fr_list reg' = fr_list reg @ [o2]"
    "fr_master reg' = (if no_Name o1 \<noteq> [] then (fr_master reg)(no_Name o1 \<mapsto> o2) else fr_master reg)"
proof -
  obtain sd where o2: "o2 = (option_types t u e (option_defaults frames o1))\<lparr>no_hasSelfDiscovery := sd\<rparr>"
    using NewFunction_options [OF assms] by blast
  have reg': "reg' = \<lparr>fr_list = fr_list reg @ [o2], fr_master = (if no_Name o2 \<noteq> [] then (fr_master reg)(no_Name o2 \<mapsto> o2) else fr_master reg)\<rparr>"
    using assms by (auto simp: NewFunction_def Let_def split: if_splits option.splits)
  show "complete_option o2" using option_defaults_complete option_types_input by (simp add: o2 complete_option_def)
  have "no_Name o2 = no_Name o1" by (simp add: o2 option_defaults_def)
  then show "fr_list reg' = fr_list reg @ [o2]"
    "fr_master reg' = (if no_Name o1 \<noteq> [] then (fr_master reg)(no_Name o1 \<mapsto> o2) else fr_master reg)"
    by (simp_all add: reg')
qed

lemma new_functions_complete:
  "new_functions env calls reg = Some reg' \<Longrightarrow> \<forall>o1 \<in> set (fr_list reg). complete_option o1 \<Longrightarrow>
    (\<forall>o1 \<in> set (fr_list reg'). complete_option o1) \<and> length (fr_list reg') = length (fr_list reg) + length calls"
proof (induction env calls reg rule: new_functions.induct)
  case (2 env frames t u e o1 calls reg)
  then obtain o2 reg2 where r: "NewFunction env frames t u e o1 reg = Some (o2, reg2)" "new_functions env calls reg2 = Some reg'"
    by (auto simp: bind_eq_Some_conv)
  from 2(1) [OF r(1) refl r(2)] 2(3) NewFunction_complete [OF r(1)] show ?case by auto
qed simp

text \<open>What describing a complete option does to it.\<close>

definition described :: "api_opt \<Rightarrow> api_opt" where
  "described o1 = (if ao_ContentType o1 = [] then o1\<lparr>ao_ContentType := ''application/json''\<rparr> else o1)"

lemma complete_defaults:
  "complete_option o1 \<Longrightarrow> api_defaults (api_opt.truncate o1) = described (api_opt.truncate o1)"
  by (cases o1) (simp add: complete_option_def api_defaults_def described_def api_opt.truncate_def)

lemma complete_method: "complete_option o1 \<Longrightarrow> to_lower (ao_Method (api_opt.truncate o1)) \<noteq> []"
  by (simp add: complete_option_def api_opt.truncate_def to_lower_def)

lemma find_caller:
  assumes "length inner < 16" "\<forall>fn \<in> set inner. fn = [] \<or> (\<exists>p \<in> set ps. prefix p fn)"
    and "fn \<noteq> []" "\<not> (\<exists>p \<in> set ps. prefix p fn)"
  shows "findExternalCaller ps (inner @ fn # outer) = cleanPkg fn"
proof -
  have t: "take 16 (inner @ fn # outer) = inner @ take (16 - length inner) (fn # outer)"
    and k: "16 - length inner = Suc (15 - length inner)"
    using assms(1) by simp_all
  have "find (\<lambda>fn. fn \<noteq> [] \<and> \<not> (\<exists>p \<in> set ps. prefix p fn)) inner = None"
    using assms(2) by (auto simp: find_None_iff)
  then show ?thesis using assms(3,4) unfolding findExternalCaller_def t k find_append by simp
qed

lemma cleanPkg_dot: "\<lbrakk>CHR ''.'' \<notin> set host; host \<noteq> []\<rbrakk> \<Longrightarrow> cleanPkg (host @ CHR ''.'' # rest) = host"
  by (simp add: cleanPkg_def index_of_append)

text \<open>A function made without a package has, as its package, what stands before the first dot of the path of the calling function:
  \<open>github\<close> for everything under \<open>github.com/\<close>, the first label of the host for every module of a host. Its method, its three
  status codes and its types are always there, and it is the last of the list of functions.\<close>

theorem package_stops_at_the_first_dot:
  assumes "NewFunction env (inner @ (host @ CHR ''.'' # rest) # outer) t u e option reg = Some (o2, reg')"
    and "ao_Package option = []" "host \<noteq> []" "CHR ''.'' \<notin> set host"
    and "length inner < 16" "\<forall>fn \<in> set inner. fn = [] \<or> prefix ''github.com/wh-kuromai/allino'' fn"
    and "\<not> prefix ''github.com/wh-kuromai/allino'' (host @ CHR ''.'' # rest)"
  shows "ao_Package o2 = host \<and> complete_option o2 \<and> ao_outputType o2 \<noteq> None \<and> ao_errorType o2 \<noteq> None \<and>
    fr_list reg' = fr_list reg @ [o2] \<and> (no_Name option \<noteq> [] \<longrightarrow> fr_master reg' (no_Name option) = Some o2)"
proof -
  have caller: "findExternalCaller [''github.com/wh-kuromai/allino''] (inner @ (host @ CHR ''.'' # rest) # outer) = host"
    using find_caller [of inner "[''github.com/wh-kuromai/allino'']" "host @ CHR ''.'' # rest" outer] assms(3-7)
    by (simp add: cleanPkg_dot)
  obtain sd where "o2 = (option_types t u e (option_defaults (inner @ (host @ CHR ''.'' # rest) # outer) option))
      \<lparr>no_hasSelfDiscovery := sd\<rparr>"
    using NewFunction_options [OF assms(1)] by blast
  moreover have "ao_Package (option_defaults (inner @ (host @ CHR ''.'' # rest) # outer) option) = host"
    using assms(2) caller by (simp add: option_defaults_def)
  ultimately have "ao_Package o2 = host \<and> ao_outputType o2 \<noteq> None \<and> ao_errorType o2 \<noteq> None"
    by (simp add: option_types_others)
  then show ?thesis using NewFunction_complete [OF assms(1)] by simp
qed

text \<open>Describing the functions of a program. When they are all made by \<open>NewFunction\<close>, the document can always be made, every
  entry of it belongs to one of them and says what its options say. But the options are written to, and they are those of
  the running functions: each that has no content type answers as JSON from then on.\<close>

theorem describing_changes_content_types:
  assumes "new_functions env calls \<lparr>fr_list = [], fr_master = Map.empty\<rparr> = Some reg"
    and "distinct ids" "set ids \<subseteq> {..<length calls}"
  shows "\<exists>doc opts2.
    GenerateOpenAPI lib info ids [] (\<lambda>i. api_opt.truncate (fr_list reg ! i)) = Some (doc, opts2) \<and>
    (\<forall>i. opts2 i = (if i \<in> set ids then described (api_opt.truncate (fr_list reg ! i)) else api_opt.truncate (fr_list reg ! i))) \<and>
    (\<forall>p m. entry_at (snd (snd (snd doc))) p m =
       Option.bind (described_by opts2 ids p m) (\<lambda>i. operation_of lib (opts2 i))) \<and>
    (\<forall>p. entry_at (snd (snd (snd doc))) p [] = None)"
proof -
  let ?opts = "\<lambda>i. api_opt.truncate (fr_list reg ! i)"
  let ?opts2 = "\<lambda>i. if i \<in> set ids then described (?opts i) else ?opts i"
  have complete: "complete_option (fr_list reg ! i)" if "i \<in> set ids" for i
    using new_functions_complete [OF assms(1)] assms(3) that by (auto simp: subset_iff)
  then have same: "api_defaults (?opts i) = ?opts2 i" if "i \<in> set ids" for i using complete_defaults that by simp
  have input: "\<forall>i \<in> set ids. ao_inputType (?opts i) \<noteq> None"
    using complete by (auto simp: complete_option_def api_opt.truncate_def)
  have opts2: "(\<lambda>j. if j \<in> set ids then api_defaults (?opts j) else ?opts j) = ?opts2" using same by auto
  obtain paths where p: "addOperations lib ids (Map.empty, ?opts) = Some (paths, ?opts2)"
    "\<forall>p m. entry_at paths p m = (case described_by ?opts ids p m of
       Some i \<Rightarrow> operation_of lib (api_defaults (?opts i)) | None \<Rightarrow> entry_at Map.empty p m)"
    using addOperations_spec [OF assms(2) input, of lib Map.empty] unfolding opts2 by blast
  have keys: "ao_Path (described o1) = ao_Path o1" "ao_Method (described o1) = ao_Method o1" for o1
    by (simp_all add: described_def)
  have by2: "described_by ?opts ids p m = described_by ?opts2 ids p m" for p m
    unfolding described_by_def by (rule find_cong) (auto simp: keys)
  have e: "entry_at paths p m = Option.bind (described_by ?opts2 ids p m) (\<lambda>i. operation_of lib (?opts2 i))" for p m
    using p(2) same described_by_mem [of ?opts2 ids p m] unfolding by2 entry_at_empty
    by (cases "described_by ?opts2 ids p m") auto
  have "described_by ?opts2 ids p [] = None" for p
    using complete_method complete by (fastforce simp: described_by_def find_None_iff keys)
  then have none: "entry_at paths p [] = None" for p by (simp add: e)
  have "GenerateOpenAPI lib info ids [] ?opts = Some ((''3.1.0'', fst info, snd info, paths), ?opts2)"
    by (simp add: GenerateOpenAPI_def p(1))
  then show ?thesis using e none by (intro exI [of _ "(''3.1.0'', fst info, snd info, paths)"] exI [of _ ?opts2]) simp
qed

subsection \<open>Which types hold functions\<close>

definition child :: "renv \<Rightarrow> rtype \<Rightarrow> rtype \<Rightarrow> bool" where
  "child env t c \<longleftrightarrow> c \<in> set (children env t)"

definition holds_function :: "renv \<Rightarrow> rtype \<Rightarrow> bool" where
  "holds_function env t \<longleftrightarrow> (\<exists>t'. (child env)\<^sup>*\<^sup>* t t' \<and> discovers env t')"

text \<open>The types that are not, and do not hold, a part of themselves.\<close>

abbreviation unfolds :: "renv \<Rightarrow> rtype \<Rightarrow> bool" where
  "unfolds env \<equiv> Wellfounded.accp (\<lambda>c t. child env t c)"

lemma holds_function_step:
  "holds_function env t \<longleftrightarrow> discovers env t \<or> (\<exists>c \<in> set (children env t). holds_function env c)"
  unfolding holds_function_def child_def [symmetric]
  by (metis (mono_tags, lifting) child_def converse_rtranclpE converse_rtranclp_into_rtranclp rtranclp.rtrancl_refl)

lemma discover_any_sound:
  "discover_any env ts = Some b \<Longrightarrow>
    (b \<longleftrightarrow> (\<exists>t \<in> set ts. holds_function env t)) \<and> (\<not> b \<longrightarrow> (\<forall>t \<in> set ts. unfolds env t))"
proof (induction arbitrary: rule: discover_any.raw_induct [rotated, consumes 1])
  case (1 f env ts b)
  show ?case
  proof (cases ts)
    case Nil
    with 1(2) show ?thesis by auto
  next
    case (Cons t rest)
    show ?thesis
    proof (cases "discovers env t")
      case True
      with 1(2) Cons show ?thesis using holds_function_step [of env t] by simp
    next
      case False
      with 1(2) Cons have "f env (children env t @ rest) = Some b" by simp
      from 1(1) [OF this]
      have ih: "b \<longleftrightarrow> (\<exists>x \<in> set (children env t @ rest). holds_function env x)"
        "\<not> b \<Longrightarrow> x \<in> set (children env t @ rest) \<Longrightarrow> unfolds env x" for x
        by blast+
      have "holds_function env t \<longleftrightarrow> (\<exists>c \<in> set (children env t). holds_function env c)"
        using holds_function_step [of env t] False by blast
      with ih(1) have "b \<longleftrightarrow> (\<exists>x \<in> set ts. holds_function env x)" unfolding Cons by auto
      moreover have "unfolds env t" if "\<not> b" by (rule accpI) (use ih(2) that in \<open>auto simp: child_def\<close>)
      ultimately show ?thesis using ih(2) Cons by auto
    qed
  qed
qed

lemma discover_any_total:
  "unfolds env t \<Longrightarrow> discover_any env rest \<noteq> None \<Longrightarrow> discover_any env (t # rest) \<noteq> None"
proof (induction t arbitrary: rest rule: accp.induct)
  case (accI t)
  have "discover_any env (cs @ rest) \<noteq> None" if "set cs \<subseteq> set (children env t)" for cs
    using that by (induction cs) (use accI in \<open>auto simp: child_def\<close>)
  then have "discover_any env (children env t @ rest) \<noteq> None" by blast
  then show ?case by (subst discover_any.simps) (cases "discovers env t"; simp)
qed

text \<open>What \<open>hasSelfDiscovery\<close> answers. When the type unfolds into finitely many parts it answers whether one of them holds a
  function; when it does not, and no part has \<open>FindMaster\<close>, the recursion never ends, so \<open>NewFunction\<close> does not
  return: an input may not hold a list or a tree of itself.\<close>

theorem recursive_inputs_never_return:
  "(unfolds env (named_type t) \<longrightarrow> hasSelfDiscovery env (named_type t) = Some (holds_function env (named_type t))) \<and>
   (\<not> unfolds env (named_type t) \<longrightarrow> \<not> holds_function env (named_type t) \<longrightarrow>
      hasSelfDiscovery env (named_type t) = None \<and> NewFunction env frames t u e option reg = None)"
proof -
  let ?t = "named_type t"
  have sound: "hasSelfDiscovery env ?t = Some b \<Longrightarrow> (b \<longleftrightarrow> holds_function env ?t) \<and> (\<not> b \<longrightarrow> unfolds env ?t)" for b
    using discover_any_sound [of env "[?t]" b] by (simp add: hasSelfDiscovery_def)
  have "discover_any env [] \<noteq> None" by (simp add: discover_any.simps)
  from discover_any_total [OF _ this, of ?t]
  have total: "unfolds env ?t \<Longrightarrow> hasSelfDiscovery env ?t \<noteq> None" by (simp add: hasSelfDiscovery_def)
  have never: "hasSelfDiscovery env ?t = None" if "\<not> unfolds env ?t" "\<not> holds_function env ?t"
    using sound that by (cases "hasSelfDiscovery env ?t") auto
  show ?thesis
    using total sound never by (cases "hasSelfDiscovery env ?t") (auto simp: NewFunction_def)
qed

subsection \<open>Functions in inputs are never filled in\<close>

text \<open>The fields that ask for the function they stand for, with a function known under their name.\<close>

definition asks_for_function :: "(string \<rightharpoonup> gtype \<times> gval) \<Rightarrow> gfield \<times> gval \<Rightarrow> bool" where
  "asks_for_function masters p \<longleftrightarrow>
     gf_exported (fst p) \<and> ''FindMaster'' \<in> set (method_set (TPtr (gf_type (fst p)))) \<and>
     FindMaster masters (gf_type (fst p)) (snd p) \<noteq> None"

definition mismatch :: "(string \<rightharpoonup> gtype \<times> gval) \<Rightarrow> gtype \<Rightarrow> gval \<Rightarrow> bool" where
  "mismatch masters t v \<longleftrightarrow>
     (case (t, v) of (TStruct _ _ _ fs, GStruct vs) \<Rightarrow> list_ex (asks_for_function masters) (zip fs vs) | _ \<Rightarrow> False)"

text \<open>A pointer can be assigned to its own type, to an interface, and to a named pointer type, which has no methods.\<close>

definition pointer_rule :: "(gtype \<Rightarrow> gtype \<Rightarrow> bool) \<Rightarrow> bool" where
  "pointer_rule assignable \<longleftrightarrow>
     (\<forall>g ft. assignable (TPtr g) ft \<longrightarrow> ft = TPtr g \<or> is_iface ft \<or> (\<exists>n. ft = TBasic n [] []))"

lemma not_assignable:
  assumes "pointer_rule assignable" "''FindMaster'' \<in> set (method_set (TPtr ft))"
  shows "\<not> assignable (TPtr g) ft"
proof
  assume "assignable (TPtr g) ft"
  then have "ft = TPtr g \<or> is_iface ft \<or> (\<exists>n. ft = TBasic n [] [])" using assms(1) by (auto simp: pointer_rule_def)
  then show False using assms(2) by (cases ft) auto
qed

definition masters_are_pointers :: "(string \<rightharpoonup> gtype \<times> gval) \<Rightarrow> bool" where
  "masters_are_pointers masters \<longleftrightarrow> (\<forall>h mt mv. masters h = Some (mt, mv) \<longrightarrow> is_ptr mt)"

lemma master_pointer:
  assumes "masters_are_pointers masters" "FindMaster masters ft v = Some (mt, mv)"
  shows "\<exists>g. mt = TPtr g"
proof -
  have "is_ptr mt" using assms unfolding masters_are_pointers_def FindMaster_def by blast
  then show ?thesis by (cases mt) auto
qed

lemma fill_fields_keep:
  assumes "pointer_rule assignable" "masters_are_pointers masters"
    and deep: "\<And>ft x w. deep ft x = Some w \<Longrightarrow> w = x"
  shows "fill_fields (FindMaster masters) assignable deep fs vs = Some (ok, ws) \<Longrightarrow>
    ws = vs \<and> (ok \<longleftrightarrow> \<not> list_ex (asks_for_function masters) (zip fs vs))"
proof (induction fs arbitrary: vs ok ws)
  case (Cons f fs)
  show ?case
  proof (cases vs)
    case (Cons v rest)
    note vs = this
    show ?thesis
    proof (cases "asks_for_function masters (f, v)")
      case True
      then obtain mt mv where m: "FindMaster masters (gf_type f) v = Some (mt, mv)"
        and f: "gf_exported f" "''FindMaster'' \<in> set (method_set (TPtr (gf_type f)))"
        by (auto simp: asks_for_function_def)
      obtain g where "mt = TPtr g" using master_pointer [OF assms(2) m] by blast
      then have "\<not> assignable mt (gf_type f)" using not_assignable [OF assms(1) f(2)] by simp
      then have "ok = False" "ws = vs" using Cons.prems m f by (auto simp: vs Let_def)
      then show ?thesis using True by (simp add: vs)
    next
      case False
      then have "\<exists>x. fill_fields (FindMaster masters) assignable deep fs rest = Some (ok, x) \<and> ws = v # x"
        using Cons.prems deep
        by (auto simp: vs Let_def asks_for_function_def bind_eq_Some_conv apsnd_def split: if_splits option.splits)
      then show ?thesis using Cons.IH False by (auto simp: vs)
    qed
  qed (use Cons.prems in auto)
qed simp

lemma fill_fields_returns:
  assumes "pointer_rule assignable" "masters_are_pointers masters"
    and deep: "\<And>ft x w. deep ft x = Some w \<Longrightarrow> w = x"
  shows "\<forall>x \<in> set vs. \<forall>ft. deep ft x \<noteq> None \<Longrightarrow> fill_fields (FindMaster masters) assignable deep fs vs \<noteq> None"
proof (induction fs arbitrary: vs)
  case (Cons f fs)
  show ?case
  proof (cases vs)
    case (Cons v rest)
    note vs = this
    have rest: "fill_fields (FindMaster masters) assignable deep fs rest \<noteq> None" using Cons.IH Cons.prems vs by simp
    obtain w where v: "deep (gf_type f) v = Some w" using Cons.prems vs by fastforce
    show ?thesis
    proof (cases "gf_exported f \<and> ''FindMaster'' \<in> set (method_set (TPtr (gf_type f)))")
      case True
      show ?thesis
      proof (cases "FindMaster masters (gf_type f) v")
        case (Some p)
        obtain mt mv where p: "p = (mt, mv)" by (cases p)
        obtain g where "mt = TPtr g" using master_pointer [OF assms(2)] Some p by blast
        then have "\<not> assignable mt (gf_type f)" using not_assignable [OF assms(1)] True by simp
        then show ?thesis using True Some p by (simp add: vs Let_def)
      qed (use True rest v in \<open>auto simp: vs Let_def\<close>)
    qed (use rest v in \<open>auto simp: vs Let_def\<close>)
  qed simp
qed simp

lemma fill_deep_keep:
  assumes "\<And>t x ok w. fill t x = Some (ok, w) \<Longrightarrow> w = x"
  shows "fill_deep fill ft v = Some w \<Longrightarrow> w = v"
  by (cases "(fill, ft, v)" rule: fill_deep.cases) (auto dest: assms)

lemma fill_deep_returns:
  assumes "\<And>t x. size x \<le> size v \<Longrightarrow> fill t x \<noteq> None"
  shows "fill_deep fill ft v \<noteq> None"
  using assms by (cases "(fill, ft, v)" rule: fill_deep.cases) auto

lemma fill_keep:
  assumes "pointer_rule assignable" "masters_are_pointers masters"
  shows "fillSelfDiscovery (FindMaster masters) assignable n t v = Some (ok, w) \<Longrightarrow>
    w = v \<and> (ok \<longleftrightarrow> \<not> mismatch masters t v)"
proof (induction n arbitrary: t v ok w)
  case (Suc n)
  have deep: "fill_deep (fillSelfDiscovery (FindMaster masters) assignable n) ft x = Some y \<Longrightarrow> y = x" for ft x y
    by (rule fill_deep_keep [rotated], assumption) (use Suc.IH in blast)
  have fields: "fill_fields (FindMaster masters) assignable (fill_deep (fillSelfDiscovery (FindMaster masters) assignable n)) fs vs =
      Some (ok, ws) \<Longrightarrow> ws = vs \<and> (ok \<longleftrightarrow> \<not> list_ex (asks_for_function masters) (zip fs vs))" for fs vs ok ws
    by (rule fill_fields_keep [OF assms deep])
  show ?case
    using Suc.prems fields
    by (auto simp: mismatch_def apsnd_def split: gtype.splits gval.splits)
qed simp

lemma fill_returns:
  assumes "pointer_rule assignable" "masters_are_pointers masters"
  shows "size v < n \<Longrightarrow> fillSelfDiscovery (FindMaster masters) assignable n t v \<noteq> None"
proof (induction n arbitrary: t v)
  case (Suc n)
  let ?deep = "fill_deep (fillSelfDiscovery (FindMaster masters) assignable n)"
  have keep: "?deep ft x = Some y \<Longrightarrow> y = x" for ft x y
    by (rule fill_deep_keep [rotated], assumption) (use fill_keep [OF assms] in blast)
  have "fill_fields (FindMaster masters) assignable ?deep fs vs \<noteq> None" if "v = GStruct vs" for fs vs
  proof (rule fill_fields_returns [OF assms keep])
    show "\<forall>x \<in> set vs. \<forall>ft. ?deep ft x \<noteq> None"
    proof (intro ballI allI fill_deep_returns)
      fix x y ft t assume "x \<in> set vs" "size (y :: gval) \<le> size x"
      then have "size y < n" using Suc.prems that size_list_estimation' [of x vs "size x" size] by fastforce
      then show "fillSelfDiscovery (FindMaster masters) assignable n t y \<noteq> None" by (rule Suc.IH)
    qed
  qed
  then show ?case by (auto split: gtype.splits gval.splits)
qed simp

text \<open>\<open>fillSelfDiscovery\<close> is to put, into the fields of an input that hold a function by its name, the function itself. It never
  does: for every input the answer comes, with the input as it was. A field of a function type is refused with
  \<open>ErrTypeMismatch\<close> as soon as the name is known, because what is registered is a pointer to the function; a
  field that is a pointer, a slice or an interface is not asked at all; and the errors of nested structs are dropped.\<close>

theorem functions_are_never_filled_in:
  assumes "pointer_rule assignable" "masters_are_pointers masters" "size v < n"
  shows "fillSelfDiscovery (FindMaster masters) assignable n t v = Some (\<not> mismatch masters t v, v)"
proof -
  obtain ok w where f: "fillSelfDiscovery (FindMaster masters) assignable n t v = Some (ok, w)"
    using fill_returns [OF assms] by fastforce
  then show ?thesis using fill_keep [OF assms(1,2) f] by simp
qed

subsection \<open>Examples\<close>

text \<open>Types without parts, and a node that points to a node.\<close>

definition text_renv :: renv where
  "text_renv n = (if n = ''Node'' then (RStruct [RName ''string'', RPtr (RName ''Node'')], False, False) else (ROther, False, False))"

definition text_node :: gtype where
  "text_node = TStruct ''Node'' [] [] [GField ''V'' True False [] text_string, GField ''Next'' True False [] (TPtr text_string)]"

lemma text_discovers [simp]: "\<not> discovers text_renv t"
  by (auto simp: discovers_def text_renv_def split: rtype.split)

lemma text_new:
  "NewFunction text_renv frames text_inner text_string error_type empty_option reg =
     (let o1 = (option_types text_inner text_string error_type (option_defaults frames empty_option))\<lparr>no_hasSelfDiscovery := False\<rparr>
      in Some (o1, \<lparr>fr_list = fr_list reg @ [o1], fr_master = fr_master reg\<rparr>))"
proof -
  have "hasSelfDiscovery text_renv (named_type text_inner) = Some False"
    unfolding hasSelfDiscovery_def text_inner_def named_type.simps
    by (subst discover_any.simps, simp add: children_def text_renv_def, subst discover_any.simps, simp)
  then show ?thesis
    by (simp add: NewFunction_def default_ok_def text_inner_def Let_def option_types_def option_defaults_def empty_option_def)
qed

theorem package_stops_at_the_first_dot_witness:
  "map_option (\<lambda>p. ao_Package (fst p))
     (NewFunction text_renv [''github.com/wh-kuromai/allino.NewFunction'', ''github.com/you/app.init''] text_inner text_string
       error_type empty_option \<lparr>fr_list = [], fr_master = Map.empty\<rparr>) = Some ''github''"
proof -
  let ?reg = "\<lparr>fr_list = [], fr_master = Map.empty\<rparr>"
  let ?frames = "[''github.com/wh-kuromai/allino.NewFunction''] @ (''github'' @ CHR ''.'' # ''com/you/app.init'') # []"
  obtain o2 reg' where n: "NewFunction text_renv ?frames text_inner text_string error_type empty_option ?reg = Some (o2, reg')"
    unfolding text_new Let_def by blast
  have "ao_Package o2 = ''github''"
    using package_stops_at_the_first_dot [OF n] by (simp add: empty_option_def)
  then show ?thesis using n by simp
qed

lemma text_content: "ao_ContentType (option_types t u e (option_defaults frames empty_option)) = []"
  by (simp add: option_types_def Let_def option_defaults_def empty_option_def)

theorem describing_changes_content_types_witness:
  "\<exists>reg doc opts2. new_functions text_renv [([], text_inner, text_string, error_type, empty_option)]
       \<lparr>fr_list = [], fr_master = Map.empty\<rparr> = Some reg \<and>
     ao_ContentType (fr_list reg ! 0) = [] \<and>
     GenerateOpenAPI text_schema (''a'', ''1'') [0] [] (\<lambda>i. api_opt.truncate (fr_list reg ! i)) = Some (doc, opts2) \<and>
     ao_ContentType (opts2 0) = ''application/json''"
proof -
  let ?calls = "[([], text_inner, text_string, error_type, empty_option)]"
  obtain reg where r: "new_functions text_renv ?calls \<lparr>fr_list = [], fr_master = Map.empty\<rparr> = Some reg"
    and c: "ao_ContentType (fr_list reg ! 0) = []"
    using that by (simp add: text_new Let_def text_content)
  have "ao_ContentType (api_opt.truncate (fr_list reg ! 0)) = []" using c by (simp add: api_opt.truncate_def)
  then show ?thesis
    using describing_changes_content_types [OF r, of "[0]" text_schema "(''a'', ''1'')"] r c by (auto simp: described_def)
qed

lemma text_node_loops: "unfolds text_renv t \<Longrightarrow> t \<noteq> RName ''Node'' \<and> t \<noteq> RPtr (RName ''Node'')"
proof (induction t rule: accp.induct)
  case (accI t)
  have "child text_renv (RName ''Node'') (RPtr (RName ''Node''))" "child text_renv (RPtr (RName ''Node'')) (RName ''Node'')"
    by (simp_all add: child_def children_def text_renv_def)
  then show ?case using accI(2) by blast
qed

theorem recursive_inputs_never_return_witness:
  "hasSelfDiscovery text_renv (RName ''Node'') = None \<and>
   NewFunction text_renv [] text_node text_string error_type empty_option \<lparr>fr_list = [], fr_master = Map.empty\<rparr> = None"
proof -
  have "\<not> holds_function text_renv (RName ''Node'')" by (simp add: holds_function_def)
  moreover have "\<not> unfolds text_renv (RName ''Node'')" using text_node_loops by blast
  ultimately show ?thesis
    using recursive_inputs_never_return [of text_renv text_node] by (simp add: text_node_def)
qed

definition text_function :: gtype where
  "text_function = TStruct ''GenericFunction'' [] [''FindMaster'']
     (replicate 6 (GField ''private'' False False [] text_string) @ [GField ''Handler'' True False [(''json'', ''handler'')] text_string])"

theorem functions_are_never_filled_in_witness:
  "fillSelfDiscovery (FindMaster [''f'' \<mapsto> (TPtr text_function, GPtr GNil)]) (\<lambda>t u. t = u \<or> is_iface u) 20
     (TStruct ''In'' [] [] [GField ''F'' True False [] text_function])
     (GStruct [GStruct (replicate 6 (GAtom None) @ [GAtom (Some ''f'')])]) =
   Some (False, GStruct [GStruct (replicate 6 (GAtom None) @ [GAtom (Some ''f'')])])"
  using functions_are_never_filled_in [of "\<lambda>t u. t = u \<or> is_iface u" "[''f'' \<mapsto> (TPtr text_function, GPtr GNil)]"
      "GStruct [GStruct (replicate 6 (GAtom None) @ [GAtom (Some ''f'')])]" 20
      "TStruct ''In'' [] [] [GField ''F'' True False [] text_function]"]
  by (simp add: pointer_rule_def masters_are_pointers_def mismatch_def asks_for_function_def FindMaster_def text_function_def
      numeral_eq_Suc)

end
