(* ===== verification/Config_Values.thy ===== *)
theory Config_Values
  imports Complex_Main Server_Boot "HOL-Library.Word"
begin

section \<open>Values of the configuration\<close>

text \<open>
  \<open>serve_yaml.go\<close>: durations and sizes as they stand in a configuration file; \<open>env.go\<close>; \<open>serve_id.go\<close>: the id of a server; \<open>serve_sqids.go\<close>;
  \<open>serve_cli_keygen.go\<close>: encrypted configurations and new keys. \<open>strconv.ParseFloat\<close>, the rounding to \<open>float64\<close> and the
  conversion back are arguments. Text is ASCII.
\<close>

subsection \<open>\<open>time.ParseDuration\<close>\<close>

text \<open>The numbers are \<open>uint64\<close>; \<open>None\<close> is the error of the function.\<close>

fun leadingInt :: "int \<Rightarrow> string \<Rightarrow> (int \<times> string) option" where
  "leadingInt x [] = Some (x, [])"
| "leadingInt x (c # cs) =
     (if \<not> is_digit c then Some (x, c # cs)
      else if x > 2 ^ 63 div 10 then None
      else let y = x * 10 + (int (of_char c) - 48) in if y > 2 ^ 63 then None else leadingInt y cs)"

fun leadingFraction :: "int \<Rightarrow> int \<Rightarrow> bool \<Rightarrow> string \<Rightarrow> int \<times> int \<times> string" where
  "leadingFraction x scale over [] = (x, scale, [])"
| "leadingFraction x scale over (c # cs) =
     (if \<not> is_digit c then (x, scale, c # cs)
      else if over \<or> x > (2 ^ 63 - 1) div 10 then leadingFraction x scale True cs
      else let y = x * 10 + (int (of_char c) - 48) in
        if y > 2 ^ 63 then leadingFraction x scale True cs else leadingFraction y (scale * 10) False cs)"

definition unitMap :: "string \<Rightarrow> int option" where
  "unitMap = map_of
     [(''ns'', 1), (''us'', 1000), ([CHR 0xC2, CHR 0xB5, CHR ''s''], 1000), ([CHR 0xCE, CHR 0xBC, CHR ''s''], 1000),
      (''ms'', 1000000), (''s'', 1000000000), (''m'', 60000000000), (''h'', 3600000000000)]"

definition unit_char :: "char \<Rightarrow> bool" where
  "unit_char c \<longleftrightarrow> c \<noteq> CHR ''.'' \<and> \<not> is_digit c"

text \<open>The digits after a point, their scale, what is left, and whether there were any.\<close>

definition fraction_part :: "string \<Rightarrow> int \<times> int \<times> string \<times> bool" where
  "fraction_part s =
     (if s \<noteq> [] \<and> hd s = CHR ''.'' then
        (case leadingFraction 0 1 False (tl s) of (f, sc, r) \<Rightarrow> (f, sc, r, length r \<noteq> length (tl s)))
      else (0, 1, s, False))"

text \<open>One number with its unit, and what is left. \<open>fl\<close> rounds to \<open>float64\<close>.\<close>

definition duration_part :: "(rat \<Rightarrow> rat) \<Rightarrow> string \<Rightarrow> (int \<times> string) option" where
  "duration_part fl s =
     (if s = [] \<or> unit_char (hd s) then None
      else
        (case leadingInt 0 s of
           None \<Rightarrow> None
         | Some (v, s1) \<Rightarrow>
             (let pre = (length s1 \<noteq> length s);
                  (f, scale, s2, post) = fraction_part s1;
                  u = takeWhile unit_char s2
              in
              if \<not> pre \<and> \<not> post \<or> u = [] then None
              else
                (case unitMap u of
                   None \<Rightarrow> None
                 | Some unit \<Rightarrow>
                     if v > 2 ^ 63 div unit then None
                     else
                       (let w = v * unit + (if f > 0 then \<lfloor>fl (of_int f * fl (of_int unit / of_int scale))\<rfloor> else 0) in
                        if f > 0 \<and> w > 2 ^ 63 then None else Some (w, dropWhile unit_char s2))))))"

lemma leadingInt_rest: "leadingInt x s = Some (v, r) \<Longrightarrow> length r \<le> length s"
  by (induction x s rule: leadingInt.induct) (auto simp: Let_def split: if_splits)

lemma leadingFraction_rest: "leadingFraction x sc b s = (v, sc', r) \<Longrightarrow> length r \<le> length s"
  by (induction x sc b s arbitrary: v sc' r rule: leadingFraction.induct) (auto simp: Let_def split: if_splits intro: le_SucI)

lemma drop_unit: "takeWhile P s \<noteq> [] \<Longrightarrow> length (dropWhile P s) < length s"
  by (cases s) (auto simp: length_dropWhile_le le_imp_less_Suc split: if_splits)

lemma duration_part_rest:
  assumes "duration_part fl s = Some (v, r)"
  shows "length r < length s"
proof -
  obtain v1 s1 where i: "leadingInt 0 s = Some (v1, s1)"
    using assms by (auto simp: duration_part_def split: if_splits option.splits)
  obtain f sc s2 post where m: "fraction_part s1 = (f, sc, s2, post)" by (cases "fraction_part s1")
  have "length s2 \<le> length s1"
  proof (cases "s1 \<noteq> [] \<and> hd s1 = CHR ''.''")
    case True
    obtain x y r where l: "leadingFraction 0 1 False (tl s1) = (x, y, r)" by (cases "leadingFraction 0 1 False (tl s1)")
    then have "s2 = r" using m True by (simp add: fraction_part_def)
    then show ?thesis using leadingFraction_rest [OF l] by simp
  qed (use m in \<open>auto simp: fraction_part_def\<close>)
  moreover have "takeWhile unit_char s2 \<noteq> [] \<and> r = dropWhile unit_char s2"
    using assms by (auto simp: duration_part_def i m Let_def split: if_splits option.splits)
  ultimately show ?thesis using leadingInt_rest [OF i] drop_unit [of unit_char s2] by auto
qed

text \<open>The sum wraps in \<open>uint64\<close> before it is compared.\<close>

function duration_sum :: "(rat \<Rightarrow> rat) \<Rightarrow> int \<Rightarrow> string \<Rightarrow> int option" where
  "duration_sum fl d s =
     (if s = [] then Some d
      else
        (case duration_part fl s of
           None \<Rightarrow> None
         | Some (v, r) \<Rightarrow> (let d' = (d + v) mod 2 ^ 64 in if d' > 2 ^ 63 then None else duration_sum fl d' r)))"
  by pat_completeness auto
termination by (relation "measure (\<lambda>(fl, d, s). length s)") (auto dest: duration_part_rest)

declare duration_sum.simps [simp del]

definition ParseDuration :: "(rat \<Rightarrow> rat) \<Rightarrow> string \<Rightarrow> int option" where
  "ParseDuration fl s =
     (let (neg, r) = (case s of c # cs \<Rightarrow> if c = CHR ''-'' \<or> c = CHR ''+'' then (c = CHR ''-'', cs) else (False, s) | [] \<Rightarrow> (False, s)) in
      if r = ''0'' then Some 0
      else if r = [] then None
      else
        (case duration_sum fl 0 r of
           None \<Rightarrow> None
         | Some d \<Rightarrow> if neg then Some (- d) else if d > 2 ^ 63 - 1 then None else Some d))"

subsection \<open>Durations and sizes in YAML\<close>

text \<open>The product of two \<open>int64\<close>.\<close>

definition mul_int64 :: "int \<Rightarrow> int \<Rightarrow> int" where
  "mul_int64 a b = sint (word_of_int a * word_of_int b :: 64 word)"

definition yaml_Duration :: "(rat \<Rightarrow> rat) \<Rightarrow> bytes \<Rightarrow> int option" where
  "yaml_Duration fl b =
     (if b = [] then Some 0
      else
        (case atoi (trim_space b) of
           Some n \<Rightarrow> Some (mul_int64 n second)
         | None \<Rightarrow> ParseDuration fl (trim_space b)))"

definition unitMul :: "string \<Rightarrow> int option" where
  "unitMul = map_of
     [(''B'', 1), (''KB'', 1000), (''MB'', 1000000), (''GB'', 1000000000), (''TB'', 1000000000000),
      (''KIB'', 1024), (''MIB'', 1048576), (''GIB'', 1073741824), (''TIB'', 1099511627776)]"

definition yaml_ByteSize ::
  "(string \<Rightarrow> rat option) \<Rightarrow> (rat \<Rightarrow> rat) \<Rightarrow> (rat \<Rightarrow> int) \<Rightarrow> bytes \<Rightarrow> string + int" where
  "yaml_ByteSize parse_float fl to_int b =
     (let s = trim_space (to_upper b) in
      if s = [] then Inr 0
      else
        (case atoi s of
           Some n \<Rightarrow> Inr n
         | None \<Rightarrow>
             (let i = length s - length (takeWhile (\<lambda>c. \<not> is_digit c) (rev s));
                  numPart = trim_space (take i s); u = trim_space (drop i s); unitPart = (if u = [] then ''B'' else u)
              in
              (case unitMul unitPart of
                 None \<Rightarrow> Inl ''unknown size unit''
               | Some mul \<Rightarrow>
                   (case parse_float numPart of
                      None \<Rightarrow> Inl ''invalid size number''
                    | Some v \<Rightarrow> Inr (to_int (fl (v * of_int mul))))))))"

text \<open>\<open>ByteSize.Megabytes\<close>: the division of integers truncates.\<close>

definition Megabytes :: "int \<Rightarrow> int" where
  "Megabytes b = (if b < 0 then - ((- b) div (1024 * 1024)) else b div (1024 * 1024))"

subsection \<open>The environment, the id of the server, Sqids\<close>

definition environ_entry :: "string \<Rightarrow> (string \<times> string) option" where
  "environ_entry kv = (case index_of CHR ''='' kv of Some i \<Rightarrow> Some (take i kv, drop (Suc i) kv) | None \<Rightarrow> None)"

definition environMap :: "string list \<Rightarrow> string \<rightharpoonup> string" where
  "environMap environ =
     fold (\<lambda>kv m. case environ_entry kv of Some (k, v) \<Rightarrow> m(k \<mapsto> v) | None \<Rightarrow> m) environ Map.empty"

text \<open>
  \<open>sid_file\<close> is the content of the file, if it can be read, \<open>sid_writable\<close> tells whether it can be written, \<open>sid_cached\<close> is the id the
  running server remembers. \<open>fresh\<close> is what \<open>xid.New\<close> returns; the last component tells whether an error is logged.
\<close>

record sid_state =
  sid_cached :: string
  sid_file :: "string option"
  sid_writable :: bool

definition sid_name :: "(string \<Rightarrow> string) \<Rightarrow> bool \<Rightarrow> string \<Rightarrow> string" where
  "sid_name temp debug config_name =
     (let fname = (if config_name \<noteq> [] then config_name else ''allino.serverid'') in if debug then temp fname else fname)"

definition ServerID :: "string \<Rightarrow> sid_state \<Rightarrow> string \<times> sid_state \<times> bool" where
  "ServerID fresh st =
     (if sid_cached st \<noteq> [] then (sid_cached st, st, False)
      else
        (let sid = (case sid_file st of Some buf \<Rightarrow> trim_space buf | None \<Rightarrow> []) in
         if sid = [] then
           (fresh, st\<lparr>sid_cached := fresh, sid_file := (if sid_writable st then Some fresh else sid_file st)\<rparr>, \<not> sid_writable st)
         else (sid, st\<lparr>sid_cached := sid\<rparr>, False)))"

text \<open>A restart of the process.\<close>

definition restarted :: "sid_state \<Rightarrow> sid_state" where
  "restarted st = st\<lparr>sid_cached := []\<rparr>"

text \<open>The Sqids library encodes a list of numbers, or fails, and decodes to a list.\<close>

definition EncodeN :: "(nat list \<Rightarrow> string option) \<Rightarrow> nat \<Rightarrow> string" where
  "EncodeN enc n = (case enc [n] of Some s \<Rightarrow> s | None \<Rightarrow> [])"

definition DecodeN :: "(string \<Rightarrow> nat list) \<Rightarrow> string \<Rightarrow> nat" where
  "DecodeN dec s = (case dec s of [] \<Rightarrow> 0 | n # _ \<Rightarrow> n)"

subsection \<open>Encrypting a configuration, making keys\<close>

text \<open>
  \<open>cliEncrypt\<close>. \<open>unb64\<close> and \<open>b64\<close> are the unpadded URL encoding, \<open>encrypt\<close> is AES-GCM with its nonce, \<open>fresh\<close> are 32 random bytes. The answer is the
  key to note, when there was none, and the file with its content.
\<close>

record key_lib =
  kl_b64 :: "bytes \<Rightarrow> string"
  kl_unb64 :: "string \<Rightarrow> string + bytes"
  kl_encrypt :: "bytes \<Rightarrow> bytes \<Rightarrow> string + bytes"

definition encrypted_name :: "string \<Rightarrow> string" where
  "encrypted_name filepath = trim_suffix ''.json'' (trim_suffix ''.yaml'' filepath) @ ''.enc''"

definition cliEncrypt ::
  "key_lib \<Rightarrow> (string \<Rightarrow> string) \<Rightarrow> bytes \<Rightarrow> string \<Rightarrow> string \<Rightarrow> (string + bytes) \<Rightarrow> string + string option \<times> string \<times> bytes" where
  "cliEncrypt lib getenv fresh envprefix filepath content =
     bind_res content (\<lambda>buf.
       let var = envprefix @ ''_SECRET''; key = getenv var in
       bind_res
         (if key = [] then Inr (Some (kl_b64 lib fresh), fresh)
          else bind_res (kl_unb64 lib key) (\<lambda>keybuf.
            if length keybuf \<noteq> 32 then Inl (''invalid key '' @ var @ '': '' @ key) else Inr (None, keybuf)))
         (\<lambda>(note, keybuf).
            bind_res (kl_encrypt lib keybuf buf) (\<lambda>encbuf. Inr (note, encrypted_name filepath, encbuf))))"

text \<open>
  \<open>cliKeygen\<close>: a document is a list of keys and values. The addresses of redis and of the database are put into the map
  after it has been written out. A file that is there already, or cannot be examined, is not replaced, or is.
\<close>

datatype file_stat = StatOk | StatMissing | StatError

definition fileExists :: "file_stat \<Rightarrow> bool" where
  "fileExists st \<longleftrightarrow> st = StatOk"

definition cliKeygen ::
  "((string \<times> 'v) list \<Rightarrow> bytes) \<Rightarrow> string + 'v \<Rightarrow> 'v option \<Rightarrow> 'v option \<Rightarrow> file_stat \<Rightarrow>
    string + (string \<times> 'v) list \<times> bytes" where
  "cliKeygen encode genkey redis sql stat =
     bind_res genkey (\<lambda>priv.
       let login = [(''privatekey'', priv)]; buf = encode login;
           login1 = (case redis of Some r \<Rightarrow> login @ [(''redis'', r)] | None \<Rightarrow> login);
           login2 = (case sql of Some q \<Rightarrow> login1 @ [(''sql'', q)] | None \<Rightarrow> login1)
       in if fileExists stat then Inl ''`secrets.config.json` already exist'' else Inr (login2, buf))"

subsection \<open>Texts of durations\<close>

lemma units: "unitMap u = Some k \<Longrightarrow> u \<noteq> [] \<and> (\<forall>c \<in> set u. unit_char c) \<and> \<not> is_space (last u) \<and> 0 < k"
  by (auto simp: unitMap_def unit_char_def is_digit_def is_space_def split: if_splits)

lemma digits_val_ge: "digits_val x ds = Some v \<Longrightarrow> 0 \<le> x \<Longrightarrow> x \<le> v"
proof (induction x ds rule: digits_val.induct)
  case (2 x c cs)
  then have "digits_val (x * 10 + (int (of_char c) - 48)) cs = Some v" "is_digit c" by (auto split: if_splits)
  moreover have "0 \<le> int (of_char c) - 48" using \<open>is_digit c\<close> by (simp add: is_digit_def)
  ultimately show ?case using 2 by fastforce
qed simp

lemma leadingInt_digits:
  "\<lbrakk>digits_val x ds = Some v; 0 \<le> x; v \<le> 2 ^ 63; r = [] \<or> \<not> is_digit (hd r)\<rbrakk> \<Longrightarrow> leadingInt x (ds @ r) = Some (v, r)"
proof (induction x ds rule: digits_val.induct)
  case (1 x)
  then show ?case by (cases r) auto
next
  case (2 x c cs)
  let ?y = "x * 10 + (int (of_char c) - 48)"
  have d: "is_digit c" "digits_val ?y cs = Some v" using 2(2) by (auto split: if_splits)
  then have "0 \<le> ?y" "?y \<le> v" "10 * x \<le> ?y" using digits_val_ge [OF d(2)] 2(3) by (auto simp: is_digit_def)
  moreover from this have "x \<le> 2 ^ 63 div 10" using 2(4) by linarith
  ultimately show ?case using 2 d by (simp add: Let_def)
qed

lemma duration_part_text:
  assumes "unitMap u = Some k" "int v * k \<le> 2 ^ 63" "r = [] \<or> \<not> unit_char (hd r)"
  shows "duration_part fl (nat_digits v @ u @ r) = Some (int v * k, r)"
proof -
  note u = units [OF assms(1)]
  have "int v \<le> int v * k" using u by (simp add: mult_le_cancel_left1)
  then have i: "leadingInt 0 (nat_digits v @ u @ r) = Some (int v, u @ r)"
    using assms(2) u by (intro leadingInt_digits) (auto simp: digits_val_nat_digits unit_char_def hd_append)
  have hd: "\<not> unit_char (hd (nat_digits v @ u @ r))"
    using nat_digits_digits [of "hd (nat_digits v)" v] by (simp add: unit_char_def)
  have f: "fraction_part (u @ r) = (0, 1, u @ r, False)" using u by (auto simp: fraction_part_def unit_char_def)
  have tw: "takeWhile unit_char (u @ r) = u" "dropWhile unit_char (u @ r) = r"
    using u assms(3) by (cases r; simp add: takeWhile_append dropWhile_append)+
  have "int v \<le> 2 ^ 63 div k" using assms(2) u by (simp add: zdiv_mono1 [of "int v * k" "2 ^ 63" k, simplified])
  then show ?thesis using hd u by (simp add: duration_part_def i f tw assms(1))
qed

definition duration_text :: "(nat \<times> string) list \<Rightarrow> string" where
  "duration_text parts = concat (map (\<lambda>(v, u). nat_digits v @ u) parts)"

definition duration_total :: "(nat \<times> string) list \<Rightarrow> int" where
  "duration_total parts = (\<Sum>(v, u) \<leftarrow> parts. int v * the (unitMap u))"

definition known_units :: "(nat \<times> string) list \<Rightarrow> bool" where
  "known_units parts \<longleftrightarrow> list_all (\<lambda>(v, u). unitMap u \<noteq> None) parts"

lemma duration_text_hd: "duration_text parts = [] \<or> is_digit (hd (duration_text parts))"
proof (cases parts)
  case (Cons p ps)
  obtain v u where "p = (v, u)" by (cases p)
  then show ?thesis using Cons nat_digits_digits [of "hd (nat_digits v)" v] by (simp add: duration_text_def)
qed (simp add: duration_text_def)

lemma duration_total_nonneg: "known_units parts \<Longrightarrow> 0 \<le> duration_total parts"
proof (induction parts)
  case (Cons p ps)
  obtain v u where p: "p = (v, u)" by (cases p)
  with Cons obtain k where "unitMap u = Some k" by (auto simp: known_units_def)
  with Cons p show ?case using units [of u k] by (simp add: known_units_def duration_total_def)
qed (simp add: duration_total_def)

lemma duration_sum_text:
  "\<lbrakk>known_units parts; 0 \<le> d; d + duration_total parts \<le> 2 ^ 63\<rbrakk> \<Longrightarrow>
    duration_sum fl d (duration_text parts) = Some (d + duration_total parts)"
proof (induction parts arbitrary: d)
  case Nil
  then show ?case by (subst duration_sum.simps) (simp add: duration_text_def duration_total_def)
next
  case (Cons p ps)
  obtain v u where p: "p = (v, u)" by (cases p)
  obtain k where k: "unitMap u = Some k" and ps: "known_units ps" using Cons.prems(1) by (auto simp: known_units_def p)
  have t: "duration_text (p # ps) = nat_digits v @ u @ duration_text ps" "duration_total (p # ps) = int v * k + duration_total ps"
    by (simp_all add: duration_text_def duration_total_def p k)
  have b: "0 \<le> int v * k" "int v * k \<le> 2 ^ 63 \<and> d + int v * k \<le> 2 ^ 63"
    using Cons.prems(2,3) duration_total_nonneg [OF ps] units [OF k] t(2) by auto
  have r: "duration_text ps = [] \<or> \<not> unit_char (hd (duration_text ps))"
    using duration_text_hd [of ps] by (auto simp: unit_char_def)
  have "(d + int v * k) mod 2 ^ 64 = d + int v * k" using b Cons.prems(2) by simp
  then show ?case
    using Cons.IH [OF ps, of "d + int v * k"] Cons.prems b duration_part_text [OF k _ r, of v fl]
    unfolding t by (subst duration_sum.simps) (simp add: Let_def)
qed

lemma trim_space_id: "\<lbrakk>s \<noteq> []; \<not> is_space (hd s); \<not> is_space (last s)\<rbrakk> \<Longrightarrow> trim_space s = s"
  unfolding trim_space_def by (simp add: dropWhile_eq_self_iff [THEN iffD2] hd_rev)

lemma digits_val_None: "c \<in> set s \<Longrightarrow> \<not> is_digit c \<Longrightarrow> digits_val x s = None"
  by (induction x s rule: digits_val.induct) auto

lemma atoi_None: "c \<in> set s \<Longrightarrow> \<not> is_digit c \<Longrightarrow> c \<noteq> CHR ''-'' \<Longrightarrow> c \<noteq> CHR ''+'' \<Longrightarrow> atoi s = None"
  by (cases s) (auto simp: atoi_def digits_val_None)

lemma duration_text_last:
  assumes "parts \<noteq> []" "known_units parts"
  shows "duration_text parts \<noteq> [] \<and> \<not> is_space (last (duration_text parts)) \<and> unit_char (last (duration_text parts))"
proof -
  obtain ps p where p: "parts = ps @ [p]" using assms(1) by (metis rev_exhaust)
  obtain v u where vu: "p = (v, u)" by (cases p)
  obtain k where k: "unitMap u = Some k" using assms(2) by (auto simp: known_units_def p vu)
  have "duration_text parts = duration_text ps @ nat_digits v @ u" by (simp add: duration_text_def p vu)
  then show ?thesis using units [OF k] by simp
qed

lemma mul_int64: "in_int64 (mul_int64 a b) \<and> (mul_int64 a b = a * b \<longleftrightarrow> in_int64 (a * b))"
proof -
  have w: "mul_int64 a b = sint (word_of_int (a * b) :: 64 word)" by (simp add: mul_int64_def)
  have r: "in_int64 (mul_int64 a b)"
    using sint_greater_eq [of "word_of_int (a * b) :: 64 word"] sint_less [of "word_of_int (a * b) :: 64 word"]
    by (simp add: w in_int64_def)
  moreover have "mul_int64 a b = a * b" if "in_int64 (a * b)"
    using that unfolding w sint_sbintrunc' by (simp add: in_int64_def signed_take_bit_int_eq_self)
  ultimately show ?thesis by metis
qed

text \<open>C39. Durations in a configuration. A text of numbers with units is the sum of its parts, and with a sign before it the
  negative of that, as long as the sum fits. A bare number counts seconds, but its product wraps: beyond nine
  billion seconds it is another duration, with no error.\<close>

theorem durations_in_configuration:
  assumes "parts \<noteq> []" "known_units parts" "duration_total parts < 2 ^ 63" "in_int64 n"
  shows "yaml_Duration fl (duration_text parts) = Some (duration_total parts) \<and>
    yaml_Duration fl (CHR ''-'' # duration_text parts) = Some (- duration_total parts) \<and>
    (\<exists>r. yaml_Duration fl (itoa n) = Some r \<and> in_int64 r \<and> (r = n * second \<longleftrightarrow> in_int64 (n * second)))"
proof -
  let ?s = "duration_text parts"
  note l = duration_text_last [OF assms(1,2)]
  have h: "is_digit (hd ?s)" using duration_text_hd l by blast
  then have sp: "\<not> is_space (hd ?s)" by (auto simp: is_digit_def is_space_def)
  have t: "trim_space ?s = ?s" "trim_space (CHR ''-'' # ?s) = CHR ''-'' # ?s"
    using l sp by (auto intro: trim_space_id simp: is_space_def)
  have sum: "duration_sum fl 0 ?s = Some (duration_total parts)"
    using duration_sum_text [OF assms(2), of 0 fl] assms(3) by simp
  have unit: "unit_char (last ?s)" "last ?s \<in> set ?s" using l by auto
  have no_sign: "last ?s \<noteq> CHR ''-'' \<and> last ?s \<noteq> CHR ''+''"
  proof -
    obtain ps v u where p: "parts = ps @ [(v, u)]" using assms(1) by (metis rev_exhaust surj_pair)
    then obtain k where k: "unitMap u = Some k" using assms(2) by (auto simp: known_units_def)
    have "last ?s = last u" using units [OF k] by (simp add: duration_text_def p)
    then show ?thesis using k by (auto simp: unitMap_def split: if_splits)
  qed
  have a: "atoi ?s = None" "atoi (CHR ''-'' # ?s) = None"
    using unit no_sign by (auto intro!: atoi_None [of "last ?s"] simp: unit_char_def)
  have zero: "?s \<noteq> ''0''" using unit by (auto simp: unit_char_def is_digit_def)
  obtain c cs where c: "?s = c # cs" using l by (cases ?s) auto
  then have "c \<noteq> CHR ''-'' \<and> c \<noteq> CHR ''+''" using h digit_not_sign by simp
  then have "ParseDuration fl ?s = Some (duration_total parts)"
    using sum l assms(3) c zero unfolding ParseDuration_def c by auto
  moreover have "ParseDuration fl (CHR ''-'' # ?s) = Some (- duration_total parts)"
    using sum zero l by (simp add: ParseDuration_def)
  moreover have "yaml_Duration fl (itoa n) = Some (mul_int64 n second)"
  proof -
    have "trim_space (itoa n) = itoa n"
      using itoa_chars [of "hd (itoa n)" n] itoa_chars [of "last (itoa n)" n]
      by (intro trim_space_id) (auto simp: is_space_def is_digit_def)
    then show ?thesis by (simp add: yaml_Duration_def atoi_itoa [OF assms(4)])
  qed
  ultimately show ?thesis using t a l mul_int64 [of n second] by (simp add: yaml_Duration_def)
qed

subsection \<open>Texts of sizes\<close>

text \<open>Whole numbers below \<open>2 ^ 53\<close> are exact in \<open>float64\<close>.\<close>

definition exact_floats :: "(string \<Rightarrow> rat option) \<Rightarrow> (rat \<Rightarrow> rat) \<Rightarrow> (rat \<Rightarrow> int) \<Rightarrow> bool" where
  "exact_floats parse_float fl to_int \<longleftrightarrow>
     (\<forall>n < 2 ^ 53. parse_float (nat_digits n) = Some (of_nat n) \<and> fl (of_nat n) = of_nat n \<and> to_int (of_nat n) = int n)"

lemma size_units:
  assumes "unitMul u = Some k"
  shows "u \<noteq> [] \<and> (\<forall>c \<in> set u. \<not> is_digit c \<and> \<not> is_space c \<and> c \<noteq> CHR ''-'' \<and> c \<noteq> CHR ''+'') \<and> 0 < k"
  using assms by (auto simp: unitMul_def is_digit_def is_space_def split: if_splits)

lemma to_upper_append: "to_upper (xs @ ys) = to_upper xs @ to_upper ys"
  by (simp add: to_upper_def)

lemma to_upper_id: "\<forall>c \<in> set xs. is_digit c \<or> is_space c \<Longrightarrow> to_upper xs = xs"
  by (induction xs) (auto simp: to_upper_def is_digit_def is_space_def Let_def)

lemma trim_left: "\<forall>c \<in> set sp. is_space c \<Longrightarrow> u \<noteq> [] \<Longrightarrow> \<not> is_space (hd u) \<Longrightarrow> \<not> is_space (last u) \<Longrightarrow> trim_space (sp @ u) = u"
  unfolding trim_space_def by (simp add: dropWhile_append dropWhile_eq_self_iff [THEN iffD2] hd_rev)

text \<open>Sizes in a configuration: a number, spaces, and a unit in letters of any case are that many units, exact as long as
  the size is below \<open>2 ^ 53\<close>; \<open>KB\<close>, \<open>MB\<close>, \<open>GB\<close>, \<open>TB\<close> are powers of a thousand, but \<open>Megabytes\<close>, which the log file is
  rotated by, counts those of 1024: 100MB are 95 of them, and everything below one is zero.\<close>

theorem sizes_in_configuration:
  assumes "exact_floats parse_float fl to_int" "unitMul (to_upper u) = Some k" "\<forall>c \<in> set sp. is_space c"
    and "int n * k < 2 ^ 53"
  shows "yaml_ByteSize parse_float fl to_int (nat_digits n @ sp @ u) = Inr (int n * k) \<and>
    Megabytes (int n * k) = int n * k div 1048576 \<and> (int n * k < 1048576 \<longrightarrow> Megabytes (int n * k) = 0)"
proof -
  let ?U = "to_upper u" and ?d = "nat_digits n"
  note U = size_units [OF assms(2)]
  have nd: "\<forall>c \<in> set ?d. is_digit c" using nat_digits_digits by blast
  have space: "is_digit c \<Longrightarrow> \<not> is_space c" for c by (auto simp: is_digit_def is_space_def)
  have up: "to_upper (?d @ sp @ u) = ?d @ sp @ ?U"
    using to_upper_id [of ?d] to_upper_id [of sp] nd assms(3) by (simp add: to_upper_append)
  have t: "trim_space (?d @ sp @ ?U) = ?d @ sp @ ?U" "trim_space ?d = ?d"
    using nd U space by (simp_all add: trim_space_id)
  have "hd ?U \<in> set (?d @ sp @ ?U)" using U by simp
  then have a: "atoi (?d @ sp @ ?U) = None" using U by (metis atoi_None hd_in_set)
  have "takeWhile (\<lambda>c. \<not> is_digit c) (rev (?d @ sp @ ?U)) = rev (sp @ ?U)"
  proof -
    have all: "\<And>c. c \<in> set (rev (sp @ ?U)) \<Longrightarrow> \<not> is_digit c" using U assms(3) space by auto
    have "takeWhile (\<lambda>c. \<not> is_digit c) (rev ?d) = []" using nd by (cases "rev ?d") (auto simp: takeWhile_eq_Nil_iff)
    with takeWhile_append2 [of "rev (sp @ ?U)" "\<lambda>c. \<not> is_digit c" "rev ?d", OF all]
    show ?thesis by (simp add: append_assoc [symmetric] del: append_assoc)
  qed
  then have i: "length (?d @ sp @ ?U) - length (takeWhile (\<lambda>c. \<not> is_digit c) (rev (?d @ sp @ ?U))) = length ?d" by simp
  have un: "trim_space (sp @ ?U) = ?U" using trim_left [OF assms(3)] U by simp
  obtain m where m: "k = int m" "0 < m" using U by (metis zero_less_imp_eq_int)
  have "n \<le> n * m" using m by simp
  moreover have "n * m < 2 ^ 53" using assms(4) m by (simp flip: of_nat_mult)
  ultimately have b: "n < 2 ^ 53" "n * m < 2 ^ 53" by linarith+
  then have f: "parse_float ?d = Some (of_nat n)" "to_int (fl (of_nat n * of_int k)) = int n * k"
    using assms(1) unfolding exact_floats_def m by (simp_all flip: of_nat_mult)
  have "yaml_ByteSize parse_float fl to_int (?d @ sp @ u) = Inr (int n * k)"
    unfolding yaml_ByteSize_def Let_def up t a i using U f assms(2) by (simp add: t un)
  moreover have "0 \<le> int n * k" using U by simp
  ultimately show ?thesis by (auto simp: Megabytes_def)
qed

subsection \<open>Identity and keys\<close>

text \<open>The id of a server does not change while it runs, whatever happens to its file, and not at a restart either,
  if the file can be written and read again. With a file that cannot be written each start has another id; a
  file of blanks counts as none.\<close>

theorem server_id_is_stable:
  assumes "ServerID fresh st = (sid, st1, logged)" "trim_space fresh = fresh" "fresh \<noteq> []"
  shows "sid \<noteq> [] \<and> (\<forall>f other. ServerID other (st1\<lparr>sid_file := f\<rparr>) = (sid, st1\<lparr>sid_file := f\<rparr>, False)) \<and>
    (sid_cached st = [] \<and> (sid_writable st \<or> (\<exists>buf. sid_file st = Some buf \<and> trim_space buf \<noteq> [])) \<longrightarrow>
      (\<forall>other. fst (ServerID other (restarted st1)) = sid)) \<and>
    (sid_cached st = [] \<and> \<not> sid_writable st \<and> sid_file st = None \<longrightarrow>
      logged \<and> (\<forall>other. fst (ServerID other (restarted st1)) = other))"
  using assms by (cases "sid_file st") (auto simp: ServerID_def restarted_def Let_def split: if_splits)

text \<open>An encrypted configuration is read back. What \<open>cliEncrypt\<close> writes, with the key it printed or found in the
  environment, is loaded by the server like the file it was made from, under the name it was given.\<close>

theorem encrypted_config_roundtrip:
  assumes "cliEncrypt lib getenv fresh (envPrefix (fst st)) filepath (Inr content) = Inr (note, name, enc)"
    and "length fresh = 32" "\<And>b. kl_b64 lib b \<noteq> []" "\<And>b. bo_b64 env (kl_b64 lib b) = Inr b"
    and "\<And>k. bo_b64 env k = kl_unb64 lib k"
    and "\<And>k m c. kl_encrypt lib k m = Inr c \<Longrightarrow> bo_gcm env k c = Inr m"
    and "bo_getenv env (envPrefix (fst st) @ ''_SECRET'') =
      (case note of Some k \<Rightarrow> k | None \<Rightarrow> getenv (envPrefix (fst st) @ ''_SECRET''))"
  shows "suffix ''.enc'' name \<and> updateBuf env enc name secure st = Update env content secure st"
proof -
  let ?var = "envPrefix (fst st) @ ''_SECRET''"
  have name: "name = encrypted_name filepath"
    using assms(1) by (auto simp: cliEncrypt_def Let_def bind_res_def split: sum.splits if_splits)
  then have s: "suffix ''.enc'' name" by (auto simp: encrypted_name_def suffix_def)
  obtain keybuf where k: "kl_encrypt lib keybuf content = Inr enc" "length keybuf = 32"
    "bo_getenv env ?var \<noteq> []" "bo_b64 env (bo_getenv env ?var) = Inr keybuf"
  proof (cases "getenv ?var = []")
    case True
    then have "note = Some (kl_b64 lib fresh)" "kl_encrypt lib fresh content = Inr enc"
      using assms(1) by (auto simp: cliEncrypt_def Let_def bind_res_def split: sum.splits)
    then show ?thesis using assms(2-4,7) that [of fresh] by simp
  next
    case False
    then obtain kb where "kl_unb64 lib (getenv ?var) = Inr kb" "length kb = 32" "note = None" "kl_encrypt lib kb content = Inr enc"
      using assms(1) by (auto simp: cliEncrypt_def Let_def bind_res_def split: sum.splits if_splits)
    then show ?thesis using assms(5,7) False that [of kb] by simp
  qed
  show ?thesis using s k assms(6) [OF k(1)] by (simp add: updateBuf_def Let_def)
qed

text \<open>The new keys are the only thing in the file that \<open>cliKeygen\<close> writes: the addresses of redis and of the database come too
  late. A file whose state cannot be determined is written over.\<close>

theorem keygen_leaves_out_connections:
  assumes "cliKeygen encode (Inr priv) redis sql stat = Inr (login, buf)"
  shows "buf = encode [(''privatekey'', priv)] \<and> (stat = StatMissing \<or> stat = StatError) \<and>
    map_of login ''redis'' = redis \<and> map_of login ''sql'' = sql"
  using assms by (cases stat) (auto simp: cliKeygen_def Let_def bind_res_def fileExists_def split: option.splits if_splits)

text \<open>The environment is read entry by entry: of several with one name the last counts, an entry without \<open>=\<close> is passed over.\<close>

lemma environMap_last: "environMap environ = map_of (rev (List.map_filter environ_entry environ))"
proof -
  have "fold (\<lambda>kv m. case environ_entry kv of Some (k, v) \<Rightarrow> m(k \<mapsto> v) | None \<Rightarrow> m) environ m =
      m ++ map_of (rev (List.map_filter environ_entry environ))" for m
    by (induction environ arbitrary: m) (auto simp: map_filter_simps split: option.split)
  then show ?thesis by (simp add: environMap_def)
qed

text \<open>Sqids. What is encoded is decoded; but a text that is none, one that cannot be encoded, and the text of zero are all zero.\<close>

theorem sqids_roundtrip:
  assumes "\<And>n s. enc [n] = Some s \<Longrightarrow> dec s = [n]" "dec [] = []"
  shows "DecodeN dec (EncodeN enc n) = (if enc [n] = None then 0 else n)"
  using assms by (auto simp: DecodeN_def EncodeN_def split: option.split)

subsection \<open>Examples\<close>

theorem durations_in_configuration_witness:
  "yaml_Duration id ''1h30m'' = Some 5400000000000 \<and> yaml_Duration id ''-1h30m'' = Some (- 5400000000000) \<and>
   yaml_Duration id (itoa 9300000000) \<noteq> Some (9300000000 * second)"
proof -
  have "nat_digits 1 = ''1''" "nat_digits 30 = ''30''" by code_simp+
  then have d: "nat_digits (Suc 0) = ''1''" "nat_digits 30 = ''30''" by simp_all
  have "duration_text [(1, ''h''), (30, ''m'')] = ''1h30m''" "duration_total [(1, ''h''), (30, ''m'')] = 5400000000000"
    by (simp_all add: duration_text_def duration_total_def unitMap_def d)
  moreover have "known_units [(1, ''h''), (30, ''m'')]" by (simp add: known_units_def unitMap_def)
  ultimately show ?thesis
    using durations_in_configuration [of "[(1, ''h''), (30, ''m'')]" 9300000000 id] by (auto simp: in_int64_def)
qed

text \<open>Numbers in decimal digits are parsed; rationals stand for \<open>float64\<close>.\<close>

lemma text_floats: "exact_floats (\<lambda>s. map_option of_int (digits_val 0 s)) id floor"
  by (auto simp: exact_floats_def digits_val_nat_digits)

theorem sizes_in_configuration_witness:
  "yaml_ByteSize (\<lambda>s. map_option of_int (digits_val 0 s)) id floor ''100 mB'' = Inr 100000000 \<and> Megabytes 100000000 = 95"
proof -
  have "unitMul (to_upper ''mB'') = Some 1000000" by code_simp
  from sizes_in_configuration [OF text_floats this, of "'' ''" 100]
  have r: "yaml_ByteSize (\<lambda>s. map_option of_int (digits_val 0 s)) id floor (nat_digits 100 @ '' '' @ ''mB'') = Inr (int 100 * 1000000) \<and>
      Megabytes (int 100 * 1000000) = int 100 * 1000000 div 1048576"
    by (simp add: is_space_def)
  have d: "nat_digits 100 = ''100''" by code_simp
  show ?thesis using r unfolding d by simp
qed

theorem server_id_is_stable_witness:
  "fst (ServerID ''b'' (restarted (fst (snd (ServerID ''a'' \<lparr>sid_cached = [], sid_file = None, sid_writable = True\<rparr>))))) = ''a'' \<and>
   fst (ServerID ''b'' (restarted (fst (snd (ServerID ''a'' \<lparr>sid_cached = [], sid_file = None, sid_writable = False\<rparr>))))) = ''b''"
proof -
  have t: "trim_space ''a'' = ''a''" by code_simp
  let ?st = "\<lambda>w. \<lparr>sid_cached = [], sid_file = None, sid_writable = w\<rparr>"
  have "ServerID ''a'' (?st w) = (''a'', fst (snd (ServerID ''a'' (?st w))), snd (snd (ServerID ''a'' (?st w))))" for w
    by (simp add: ServerID_def)
  from server_id_is_stable [OF this t, of True] server_id_is_stable [OF this t, of False] show ?thesis by simp
qed

definition text_keys :: key_lib where
  "text_keys = \<lparr>kl_b64 = (\<lambda>b. CHR ''k'' # b), kl_unb64 = (\<lambda>s. Inr (tl s)), kl_encrypt = (\<lambda>k m. Inr (k @ m))\<rparr>"

theorem encrypted_config_roundtrip_witness:
  "\<exists>env :: (string, unit) boot_env.
     updateBuf env (replicate 32 CHR ''x'' @ '':81'') ''app.config.enc'' False ([], []) = Update env '':81'' False ([], [])"
proof -
  let ?key = "CHR ''k'' # replicate 32 CHR ''x''"
  let ?env = "(text_boot [] (\<lambda>_ :: unit. []))\<lparr>bo_getenv := (\<lambda>_. ?key), bo_b64 := (\<lambda>s. Inr (tl s)), bo_gcm := (\<lambda>k c. Inr (drop (length k) c))\<rparr>"
  have name: "encrypted_name ''app.config.yaml'' = ''app.config.enc''" by code_simp
  have "cliEncrypt text_keys (\<lambda>_. []) (replicate 32 CHR ''x'') (envPrefix (fst ([], []))) ''app.config.yaml'' (Inr '':81'') =
      Inr (Some ?key, ''app.config.enc'', replicate 32 CHR ''x'' @ '':81'')"
    by (simp add: cliEncrypt_def text_keys_def bind_res_def Let_def name)
  from encrypted_config_roundtrip [OF this, of ?env False] show ?thesis by (intro exI [of _ ?env]) (simp add: text_keys_def)
qed

theorem keygen_leaves_out_connections_witness:
  "\<exists>login. cliKeygen (concat \<circ> map fst) (Inr ''p'') (Some ''r'') None StatError = Inr (login, ''privatekey'') \<and>
     map_of login ''redis'' = Some ''r''"
proof -
  obtain login buf where k: "cliKeygen (concat \<circ> map fst) (Inr ''p'') (Some ''r'') None StatError = Inr (login, buf)"
    by (simp add: cliKeygen_def Let_def bind_res_def fileExists_def)
  show ?thesis using keygen_leaves_out_connections [OF k] k by simp
qed

theorem sqids_roundtrip_witness:
  "DecodeN (\<lambda>s. if s = [] then [] else [length s - 1]) (EncodeN (\<lambda>ns. Some (replicate (Suc (hd ns)) CHR ''x'')) 5) = 5"
  using sqids_roundtrip [of "\<lambda>ns. Some (replicate (Suc (hd ns)) CHR ''x'')" "\<lambda>s. if s = [] then [] else [length s - 1]" 5] by simp

end
