(* ===== verification/Extension_Options.thy ===== *)
theory Extension_Options
  imports Tag_Plan
begin

section \<open>Extensions and their options\<close>

text \<open>
  \<open>serve_extension.go\<close> and \<open>Option.WithExt\<close>: the configuration of an extension, and the values an extension finds in the options
  of a function. The map of an option is shared by every copy of it, so maps stand in a heap and an option has the
  address of its map, or nil. \<open>set_default\<close> is \<open>setDefault\<close> on what a pointer of a type points to; its errors are dropped.
\<close>

subsection \<open>Options of functions\<close>

type_synonym ext_map = "gtype \<rightharpoonup> (gtype \<times> gval) \<times> bool"

record ext_heap =
  eh_next :: nat
  eh_maps :: "nat \<Rightarrow> ext_map"

definition new_map :: "ext_heap \<Rightarrow> nat \<times> ext_heap" where
  "new_map h = (eh_next h, h\<lparr>eh_next := Suc (eh_next h), eh_maps := (eh_maps h)(eh_next h := Map.empty)\<rparr>)"

definition map_at :: "nat option \<Rightarrow> ext_heap \<Rightarrow> nat \<times> ext_heap" where
  "map_at exts h = (case exts of Some r \<Rightarrow> (r, h) | None \<Rightarrow> new_map h)"

definition WithExt ::
  "(gtype \<Rightarrow> gval \<Rightarrow> gval) \<Rightarrow> gtype \<times> gval \<Rightarrow> nat option \<Rightarrow> ext_heap \<Rightarrow> nat option \<times> ext_heap" where
  "WithExt set_default v exts h =
     (case (v, map_at exts h) of
        ((t, x), (r, h1)) \<Rightarrow>
          (let x' = (if is_ptr t then set_default t x else x) in
           (Some r, h1\<lparr>eh_maps := (eh_maps h1)(r := (eh_maps h1 r)(t \<mapsto> ((t, x'), True)))\<rparr>)))"

text \<open>
  \<open>OptionExt\<close> for the type \<open>F\<close> of the options of the extension; \<open>None\<close> is a nil option. The value made for a pointer type is a pointer to
  it, and is stored only if it has the type itself.
\<close>

definition OptionExt ::
  "gtype \<Rightarrow> nat option option \<Rightarrow> ext_heap \<Rightarrow> (gval \<times> bool) \<times> nat option option \<times> ext_heap" where
  "OptionExt F opt h =
     (case opt of
        None \<Rightarrow> ((gzero F, False), opt, h)
      | Some exts \<Rightarrow>
          (case map_at exts h of
             (r, h1) \<Rightarrow>
               (case eh_maps h1 r F of
                  Some ((t, x), isUserSet) \<Rightarrow>
                    if t = F then ((x, isUserSet), Some (Some r), h1) else ((gzero F, False), Some (Some r), h1)
                | None \<Rightarrow>
                    if is_ptr F \<and> TPtr F = F then
                      ((GPtr GNil, False), Some (Some r),
                       h1\<lparr>eh_maps := (eh_maps h1)(r := (eh_maps h1 r)(F \<mapsto> ((TPtr F, GPtr GNil), False)))\<rparr>)
                    else ((gzero F, False), Some (Some r), h1))))"

subsection \<open>The configuration of an extension\<close>

record extension =
  ex_Name :: string
  ex_E :: gtype
  ex_F :: gtype
  ex_Config :: gval

definition any_type :: "gtype \<Rightarrow> bool" where
  "any_type t \<longleftrightarrow> (case t of TIface _ ms \<Rightarrow> ms = [] | _ \<Rightarrow> False)"

definition NewExtension :: "string \<Rightarrow> gtype \<Rightarrow> gtype \<Rightarrow> extension list \<Rightarrow> extension \<times> extension list" where
  "NewExtension name e f exts =
     (let c = \<lparr>ex_Name = name, ex_E = e, ex_F = f, ex_Config = GPtr (gzero e)\<rparr> in (c, exts @ [c]))"

definition initConfig :: "(gtype \<Rightarrow> gval \<Rightarrow> gval) \<Rightarrow> (gtype \<times> gval) option \<Rightarrow> extension \<Rightarrow> extension" where
  "initConfig set_default extconfig c =
     (if any_type (ex_E c) then c
      else
        (case extconfig of
           None \<Rightarrow> c
         | Some (t, v) \<Rightarrow>
             if t = TPtr (ex_E c) then c\<lparr>ex_Config := set_default t v\<rparr>
             else if t = ex_E c then c\<lparr>ex_Config := set_default (TPtr t) (GPtr v)\<rparr>
             else c))"

text \<open>\<open>decode\<close> is \<open>YAMLPathUnmarshal\<close>: what it has made of the configuration, and its error, which is dropped.\<close>

definition ext_Update ::
  "(bytes \<Rightarrow> string \<Rightarrow> gtype \<Rightarrow> gval \<Rightarrow> gval \<times> string option) \<Rightarrow> bytes \<Rightarrow> extension \<Rightarrow> string option \<times> extension" where
  "ext_Update decode setting c =
     (if any_type (ex_E c) then (None, c)
      else (None, c\<lparr>ex_Config := fst (decode setting (''$.'' @ ex_Name c) (TPtr (ex_E c)) (ex_Config c))\<rparr>))"

text \<open>
  \<open>YAMLPathUnmarshal\<close> over a YAML library: a panic is an error too. The library answers \<open>None\<close> for a panic; \<open>find_node\<close> gives the node of a
  path, \<open>decode_node\<close> its decoding into a value, which can stop halfway.
\<close>

definition YAMLPathUnmarshal ::
  "(bytes \<Rightarrow> string + 'doc) \<Rightarrow> ('doc \<Rightarrow> string \<Rightarrow> (string + 'node) option) \<Rightarrow>
    ('node \<Rightarrow> gtype \<Rightarrow> gval \<Rightarrow> gval \<times> string option option) \<Rightarrow> bytes \<Rightarrow> string \<Rightarrow> gtype \<Rightarrow> gval \<Rightarrow> gval \<times> string option" where
  "YAMLPathUnmarshal parse find_node decode_node buf path t config =
     (case parse buf of
        Inl e \<Rightarrow> (config, Some e)
      | Inr doc \<Rightarrow>
          (case find_node doc path of
             None \<Rightarrow> (config, Some ''key not found'')
           | Some (Inl e) \<Rightarrow> (config, Some e)
           | Some (Inr n) \<Rightarrow>
               (case decode_node n t config of
                  (config', None) \<Rightarrow> (config', Some ''key not found'')
                | (config', Some e) \<Rightarrow> (config', e))))"

text \<open>The configuration of an extension when a server starts: what the program passes, then each file in turn.\<close>

definition ext_loaded ::
  "(gtype \<Rightarrow> gval \<Rightarrow> gval) \<Rightarrow> (bytes \<Rightarrow> string \<Rightarrow> gtype \<Rightarrow> gval \<Rightarrow> gval \<times> string option) \<Rightarrow>
    (string \<rightharpoonup> gtype \<times> gval) \<Rightarrow> bytes list \<Rightarrow> extension \<Rightarrow> extension" where
  "ext_loaded set_default decode passed settings c =
     fold (\<lambda>s c. snd (ext_Update decode s c)) settings (initConfig set_default (passed (ex_Name c)) c)"

subsection \<open>What an extension finds\<close>

lemma never_default: "TPtr F \<noteq> F"
proof
  assume "TPtr F = F"
  then have "size (TPtr F) = size F" by simp
  then show False by simp
qed

definition found :: "gtype \<Rightarrow> nat option option \<Rightarrow> ext_heap \<Rightarrow> ((gtype \<times> gval) \<times> bool) option" where
  "found F opt h = (case opt of Some (Some r) \<Rightarrow> eh_maps h r F | _ \<Rightarrow> None)"

definition key_ok :: "gtype \<Rightarrow> (gtype \<times> gval) \<times> bool \<Rightarrow> bool" where
  "key_ok F p \<longleftrightarrow> fst (fst p) = F \<and> snd p"

definition well_keyed :: "ext_heap \<Rightarrow> bool" where
  "well_keyed h \<longleftrightarrow> (\<forall>r F p. eh_maps h r F = Some p \<longrightarrow> key_ok F p)"

lemma key_ok_user [simp]: "key_ok F ((F, x), True)"
  by (simp add: key_ok_def)

lemma well_keyed_empty: "well_keyed \<lparr>eh_next = 0, eh_maps = \<lambda>_. Map.empty\<rparr>"
  by (simp add: well_keyed_def)

lemma map_at_keyed: "well_keyed h \<Longrightarrow> well_keyed (snd (map_at exts h))"
  by (auto simp: well_keyed_def map_at_def new_map_def split: option.splits)

lemma WithExt_keyed [inv_intros]: "well_keyed h \<Longrightarrow> well_keyed (snd (WithExt sd v exts h))"
  using map_at_keyed [of h exts]
  by (cases v; cases "map_at exts h") (auto simp: well_keyed_def WithExt_def Let_def)

lemma OptionExt_map:
  "OptionExt F (Some exts) h = (((case eh_maps (snd (map_at exts h)) (fst (map_at exts h)) F of
       Some ((t, x), u) \<Rightarrow> if t = F then (x, u) else (gzero F, False) | None \<Rightarrow> (gzero F, False))),
     Some (Some (fst (map_at exts h))), snd (map_at exts h))"
  by (simp add: OptionExt_def never_default split: option.split prod.split)

lemma OptionExt_keyed [inv_intros]: "well_keyed h \<Longrightarrow> well_keyed (snd (snd (OptionExt F opt h)))"
  by (cases opt) (auto simp: OptionExt_map map_at_keyed OptionExt_def [of F None])

text \<open>What an extension finds in the options of a function: the value that was put there for its type, as the user's; and otherwise
  the zero value of the type. A value with defaults is never made, for a pointer type the answer is nil. Asking changes no map.\<close>

theorem option_extension_found:
  assumes "well_keyed h" "OptionExt F opt h = ((x, ok), opt', h')"
  shows "(x, ok) = (case found F opt h of Some ((_, y), _) \<Rightarrow> (y, True) | None \<Rightarrow> (gzero F, False)) \<and>
    (is_ptr F \<and> \<not> ok \<longrightarrow> x = GNil) \<and> (\<forall>r < eh_next h. eh_maps h' r = eh_maps h r)"
proof -
  have p: "is_ptr F \<Longrightarrow> gzero F = GNil" by (cases F) simp_all
  show ?thesis
  proof (cases opt)
    case (Some exts)
    show ?thesis
    proof (cases exts)
      case None
      then show ?thesis using assms(2) Some p by (auto simp: OptionExt_map map_at_def new_map_def found_def)
    next
      case (Some r)
      note r = \<open>opt = Some exts\<close> Some
      show ?thesis
      proof (cases "eh_maps h r F")
        case None
        then show ?thesis using assms(2) r p by (auto simp: OptionExt_map map_at_def found_def)
      next
        case (Some e)
        then have "key_ok F e" using assms(1) unfolding well_keyed_def by blast
        then show ?thesis using assms(2) r Some p by (cases e) (auto simp: OptionExt_map map_at_def found_def key_ok_def)
      qed
    qed
  qed (use assms(2) p in \<open>simp add: OptionExt_def found_def\<close>)
qed

text \<open>Options are passed by value, but the map is not copied. Two functions made from the same options, each with its own value
  for an extension, both get the later value as soon as the options they are made from have any extension value at all;
  only when they have none does each keep its own.\<close>

theorem copied_options_share_extensions:
  assumes "WithExt sd (t, a) base h = (e1, h1)" "WithExt sd (t, b) base h1 = (e2, h2)"
  shows "fst (OptionExt t (Some e2) h2) = (if is_ptr t then sd t b else b, True) \<and>
    fst (OptionExt t (Some e1) h2) =
      (case base of None \<Rightarrow> (if is_ptr t then sd t a else a, True) | Some _ \<Rightarrow> (if is_ptr t then sd t b else b, True))"
  using assms
  by (cases base) (auto simp: WithExt_def OptionExt_def map_at_def new_map_def Let_def)

lemma fold_ext_Update:
  "\<not> any_type (ex_E c) \<Longrightarrow> fold (\<lambda>s c. snd (ext_Update decode s c)) settings c =
     c\<lparr>ex_Config := fold (\<lambda>s v. fst (decode s (''$.'' @ ex_Name c) (TPtr (ex_E c)) v)) settings (ex_Config c)\<rparr>"
  by (induction settings arbitrary: c) (simp_all add: ext_Update_def)

text \<open>The configuration of an extension: its section of each file in turn, whatever errors occur, over what the program passes.
  The defaults of its fields are there only when the program passes a value of its type or a pointer to one; with
  nothing, or with a value of another type, the files are read over zero values.\<close>

theorem extension_defaults_need_a_value:
  assumes "\<not> any_type e" "c = fst (NewExtension name e f exts)"
  shows "ex_Config (ext_loaded sd decode passed settings c) =
    fold (\<lambda>s v. fst (decode s (''$.'' @ name) (TPtr e) v)) settings
      (case passed name of
         Some (t, v) \<Rightarrow>
           if t = TPtr e then sd (TPtr e) v else if t = e then sd (TPtr e) (GPtr v) else GPtr (gzero e)
       | None \<Rightarrow> GPtr (gzero e))"
  using assms
  by (simp add: ext_loaded_def initConfig_def NewExtension_def Let_def fold_ext_Update split: option.split prod.split)

subsection \<open>Examples\<close>

theorem option_extension_found_witness:
  "fst (OptionExt text_string (Some None) \<lparr>eh_next = 0, eh_maps = \<lambda>_. Map.empty\<rparr>) = (gzero text_string, False) \<and>
   fst (OptionExt (TPtr text_string) (Some None) \<lparr>eh_next = 0, eh_maps = \<lambda>_. Map.empty\<rparr>) = (GNil, False)"
proof -
  let ?h = "\<lparr>eh_next = 0, eh_maps = \<lambda>_. Map.empty\<rparr>"
  have "fst (OptionExt F (Some None) ?h) = (gzero F, False)" for F
    using option_extension_found [OF well_keyed_empty, of F "Some None"]
    by (cases "OptionExt F (Some None) ?h") (auto simp: found_def)
  then show ?thesis by simp
qed

theorem copied_options_share_extensions_witness:
  "\<exists>base h e1 h1 e2 h2. WithExt (\<lambda>_ v. v) (text_string, GAtom (Some ''0'')) None \<lparr>eh_next = 0, eh_maps = \<lambda>_. Map.empty\<rparr> = (base, h) \<and>
     WithExt (\<lambda>_ v. v) (text_string, GAtom (Some ''a'')) base h = (e1, h1) \<and>
     WithExt (\<lambda>_ v. v) (text_string, GAtom (Some ''b'')) base h1 = (e2, h2) \<and>
     fst (OptionExt text_string (Some e1) h2) = (GAtom (Some ''b''), True)"
proof -
  obtain base h where b: "WithExt (\<lambda>_ v. v) (text_string, GAtom (Some ''0'')) None \<lparr>eh_next = 0, eh_maps = \<lambda>_. Map.empty\<rparr> = (base, h)"
    by (metis surj_pair)
  obtain e1 h1 where 1: "WithExt (\<lambda>_ v. v) (text_string, GAtom (Some ''a'')) base h = (e1, h1)" by (metis surj_pair)
  obtain e2 h2 where 2: "WithExt (\<lambda>_ v. v) (text_string, GAtom (Some ''b'')) base h1 = (e2, h2)" by (metis surj_pair)
  have "base \<noteq> None" using b by (auto simp: WithExt_def map_at_def new_map_def Let_def)
  then have "fst (OptionExt text_string (Some e1) h2) = (GAtom (Some ''b''), True)"
    using copied_options_share_extensions [OF 1 2] by (auto simp: text_string_def)
  then show ?thesis using b 1 2 by blast
qed

theorem extension_defaults_need_a_value_witness:
  "ex_Config (ext_loaded (\<lambda>_ _. GPtr (GStruct [GAtom (Some ''default'')])) (\<lambda>_ _ _ v. (v, Some ''error'')) (\<lambda>_. None) [''x'']
     (fst (NewExtension ''e'' text_inner text_string []))) = GPtr (GStruct [GAtom None])"
  using extension_defaults_need_a_value [of text_inner "fst (NewExtension ''e'' text_inner text_string [])" "''e''" text_string "[]"]
  by (simp add: any_type_def text_inner_def text_string_def)

end
