(* ===== verification/Job_Hooks.thy ===== *)
theory Job_Hooks
  imports Redis_Stream
begin

section \<open>Starting the job system\<close>

text \<open>
  The job extension (\<open>typedhandler_job.go\<close>, \<open>typedhandler_job_sql_init.go\<close>): what is done for each function when a server starts, the
  direct call of the command line, and the status of the job store (\<open>typedhandler_job_store.go\<close>). The parts of the server are
  counted: \<open>js_workers\<close> are the loops started by \<open>WorkerInit\<close>, \<open>js_reapers\<close> the reaping tasks on the wheel.
\<close>

record job_server =
  js_manager :: "jobManager option"
  js_sql :: "bool option"
  js_workers :: nat
  js_reapers :: nat
  js_streams :: "(string \<times> streamType) list option"
  js_opts :: "string \<rightharpoonup> fn_option"
  js_log :: "string list"

text \<open>\<open>je_init\<close> is the error of \<open>callSQLStrategy.Init\<close>, with or without migration.\<close>

record job_env =
  je_migrate :: "bool option"
  je_init :: "bool \<Rightarrow> string option"
  je_prefix :: string
  je_redis :: bool
  je_onInit :: "fn_option \<Rightarrow> (unit \<Rightarrow> string \<times> string option) option"
  je_ttl :: "fn_option \<Rightarrow> duration"

definition no_jobs :: job_server where
  "no_jobs = \<lparr>js_manager = None, js_sql = None, js_workers = 0, js_reapers = 0, js_streams = None, js_opts = Map.empty,
     js_log = []\<rparr>"

text \<open>The first function that needs it makes the SQL strategy, its worker and its reaping task; \<open>js_sql\<close> tells whether the tables
  could be migrated.\<close>

definition ensure_sql :: "job_env \<Rightarrow> job_server \<Rightarrow> job_server" where
  "ensure_sql env st =
     (case js_sql st of
        Some _ \<Rightarrow> st
      | None \<Rightarrow>
          (let allowed = (je_migrate env = Some True) in
           st\<lparr>js_sql := Some allowed, js_workers := Suc (js_workers st), js_reapers := Suc (js_reapers st),
              js_log := js_log st @ (case je_init env allowed of None \<Rightarrow> [] | Some e \<Rightarrow> [e])\<rparr>))"

definition sql_init :: "job_env \<Rightarrow> fn_option \<Rightarrow> job_server \<Rightarrow> fn_option \<times> job_server" where
  "sql_init env opt st =
     (case callSQLInit opt of
        (opt', sqlneed) \<Rightarrow>
          if \<not> sqlneed then (opt', st)
          else
            (let m = (case js_manager st of None \<Rightarrow> newJobManager | Some m \<Rightarrow> m) in
             (opt', (ensure_sql env st)\<lparr>js_manager :=
                Some (m\<lparr>jm_handlers := jobset_Add (encodeHandlerName opt') (jm_handlers m)\<rparr>)\<rparr>)))"

definition redis_init :: "job_env \<Rightarrow> fn_option \<Rightarrow> job_server \<Rightarrow> job_server" where
  "redis_init env opt st =
     (case callRedisInit (je_prefix env) (je_redis env) (je_onInit env opt) (je_ttl env opt) opt of
        Inl e \<Rightarrow> st\<lparr>js_log := js_log st @ [e]\<rparr>
      | Inr None \<Rightarrow> st
      | Inr (Some sty) \<Rightarrow>
          st\<lparr>js_streams := Some (fst (AddStream sty (case js_streams st of None \<Rightarrow> [] | Some sts \<Rightarrow> sts)))\<rparr>)"

text \<open>\<open>OnFunctionInit\<close> of the extension; the options it keeps are those with the flags of the mode.\<close>

definition job_OnFunctionInit :: "job_env \<Rightarrow> fn_option \<Rightarrow> job_server \<Rightarrow> job_server" where
  "job_OnFunctionInit env opt st =
     (case sql_init env opt st of
        (opt', st1) \<Rightarrow>
          (let st2 = redis_init env opt' st1 in st2\<lparr>js_opts := (js_opts st2)(encodeHandlerName opt' \<mapsto> opt')\<rparr>))"

definition init_jobs :: "job_env \<Rightarrow> fn_option list \<Rightarrow> job_server" where
  "init_jobs env opts = fold (job_OnFunctionInit env) opts no_jobs"

text \<open>\<open>OnServe\<close>: streams are listened to when there are any.\<close>

definition job_OnServe :: "job_server \<Rightarrow> string list" where
  "job_OnServe st = (case js_streams st of None \<Rightarrow> [] | Some sts \<Rightarrow> makeStreams sts)"

text \<open>\<open>call_direct\<close>: a handler that is not known is a nil option, and its name a panic. The answer is the job id that is
  noted in the runtime and what the invoker returns.\<close>

definition call_direct ::
  "(bytes \<Rightarrow> string) \<Rightarrow> (fn_option \<Rightarrow> string \<Rightarrow> string \<Rightarrow> bytes \<Rightarrow> 'r) \<Rightarrow> string \<Rightarrow> string \<Rightarrow> bytes \<Rightarrow> job_server \<Rightarrow>
    (string \<times> 'r) option" where
  "call_direct sha invoker requestid handler injson st =
     (case js_opts st handler of
        None \<Rightarrow> None
      | Some opt \<Rightarrow>
          Some (JobID sha opt [] injson requestid, invoker opt (encodeHandlerName opt) (handlerVersion opt) injson))"

record job_status =
  st_Configured :: bool
  st_Backend :: string
  st_Handlers :: "string list"
  st_LockedHandlers :: "string list"
  st_ActiveJobs :: int
  st_Concurrency :: int
  st_DequeueAttempts :: int

definition job_status_of :: "string \<Rightarrow> int \<Rightarrow> jobManager option \<Rightarrow> job_status" where
  "job_status_of backend concurrency manager =
     (case manager of
        None \<Rightarrow> \<lparr>st_Configured = True, st_Backend = backend, st_Handlers = [], st_LockedHandlers = [], st_ActiveJobs = 0,
          st_Concurrency = concurrency, st_DequeueAttempts = 0\<rparr>
      | Some m \<Rightarrow> \<lparr>st_Configured = True, st_Backend = backend, st_Handlers = jm_handlers m, st_LockedHandlers = lockedHandlers m,
          st_ActiveJobs = activeJobs m, st_Concurrency = concurrency, st_DequeueAttempts = attempt m\<rparr>)"

text \<open>\<open>Server.JobStore\<close> and \<open>Status\<close>; there is no store without the SQL strategy.\<close>

definition job_status :: "string \<Rightarrow> int \<Rightarrow> job_server \<Rightarrow> job_status option" where
  "job_status backend concurrency st =
     (if js_sql st = None then None else Some (job_status_of backend concurrency (js_manager st)))"

subsection \<open>What is set up\<close>

definition needs_sql :: "fn_option \<Rightarrow> bool" where
  "needs_sql opt \<longleftrightarrow> o_mode opt \<in> {ModeAsync, ModeCache, ModeDedupe, ModeOnce, ModeMemoized, ModeDispatch}"

lemma callSQLInit_need: "snd (callSQLInit opt) = needs_sql opt"
  by (cases "o_mode opt") (simp_all add: callSQLInit_def needs_sql_def Let_def)

lemma callSQLInit_keep [simp]:
  "o_name (fst (callSQLInit opt)) = o_name opt" "o_mode (fst (callSQLInit opt)) = o_mode opt"
  by (cases "o_mode opt"; simp add: callSQLInit_def Let_def)+

text \<open>The invariant of the start: what is there after the functions \<open>opts\<close>.\<close>

definition set_up :: "job_env \<Rightarrow> fn_option list \<Rightarrow> job_server \<Rightarrow> bool" where
  "set_up env opts st \<longleftrightarrow>
     (js_sql st = (if filter needs_sql opts = [] then None else Some (je_migrate env = Some True))) \<and>
     js_workers st = (if js_sql st = None then 0 else 1) \<and> js_reapers st = js_workers st \<and>
     (case js_manager st of
        None \<Rightarrow> js_sql st = None
      | Some m \<Rightarrow> js_sql st \<noteq> None \<and> set (jm_handlers m) = o_name ` set (filter needs_sql opts) \<and>
          lockedHandlers m = [] \<and> activeJobs m = 0) \<and>
     js_opts st = map_of (rev (map (\<lambda>opt. (o_name opt, fst (callSQLInit opt))) opts)) \<and>
     (js_streams st \<noteq> None \<longleftrightarrow> je_redis env \<and> filter IsTarget opts \<noteq> [])"

lemma redis_init_keep [simp]:
  "js_sql (redis_init env opt st) = js_sql st" "js_workers (redis_init env opt st) = js_workers st"
  "js_reapers (redis_init env opt st) = js_reapers st" "js_manager (redis_init env opt st) = js_manager st"
  "js_opts (redis_init env opt st) = js_opts st"
  by (simp_all add: redis_init_def split: sum.split option.split)

lemma redis_init_streams:
  "js_streams (redis_init env opt st) \<noteq> None \<longleftrightarrow> js_streams st \<noteq> None \<or> je_redis env \<and> IsTarget opt"
  by (cases "o_mode opt") (auto simp: redis_init_def callRedisInit_def IsTarget_def Let_def)

lemma sql_init_keep [simp]:
  "js_streams (snd (sql_init env opt st)) = js_streams st" "js_opts (snd (sql_init env opt st)) = js_opts st"
  "fst (sql_init env opt st) = fst (callSQLInit opt)"
  by (auto simp: sql_init_def ensure_sql_def Let_def split: prod.split option.split)

lemma sql_init_need:
  "snd (sql_init env opt st) =
     (if needs_sql opt then (ensure_sql env st)\<lparr>js_manager := Some ((case js_manager st of None \<Rightarrow> newJobManager | Some m \<Rightarrow> m)
        \<lparr>jm_handlers := jobset_Add (o_name opt) (jm_handlers (case js_manager st of None \<Rightarrow> newJobManager | Some m \<Rightarrow> m))\<rparr>)\<rparr> else st)"
proof -
  obtain o1 need where c: "callSQLInit opt = (o1, need)" by (cases "callSQLInit opt")
  have "need = needs_sql opt" "o_name o1 = o_name opt"
    using callSQLInit_need [of opt] callSQLInit_keep(1) [of opt] by (simp_all add: c)
  then show ?thesis by (simp add: sql_init_def c Let_def encodeHandlerName_def)
qed

lemma ensure_sql_fields [simp]:
  "js_sql (ensure_sql env st) = (case js_sql st of None \<Rightarrow> Some (je_migrate env = Some True) | Some b \<Rightarrow> Some b)"
  "js_workers (ensure_sql env st) = js_workers st + (if js_sql st = None then 1 else 0)"
  "js_reapers (ensure_sql env st) = js_reapers st + (if js_sql st = None then 1 else 0)"
  by (simp_all add: ensure_sql_def Let_def split: option.split)

lemma OnFunctionInit_fields:
  "js_sql (job_OnFunctionInit env opt st) = js_sql (snd (sql_init env opt st))"
  "js_workers (job_OnFunctionInit env opt st) = js_workers (snd (sql_init env opt st))"
  "js_reapers (job_OnFunctionInit env opt st) = js_reapers (snd (sql_init env opt st))"
  "js_manager (job_OnFunctionInit env opt st) = js_manager (snd (sql_init env opt st))"
  "js_opts (job_OnFunctionInit env opt st) = (js_opts st)(o_name opt \<mapsto> fst (callSQLInit opt))"
  "js_streams (job_OnFunctionInit env opt st) \<noteq> None \<longleftrightarrow> js_streams st \<noteq> None \<or> je_redis env \<and> IsTarget opt"
proof -
  obtain o1 st1 where s: "sql_init env opt st = (o1, st1)" by (cases "sql_init env opt st")
  have o1: "o1 = fst (callSQLInit opt)" "js_streams st1 = js_streams st" "js_opts st1 = js_opts st"
    using sql_init_keep [of env opt st] by (simp_all add: s)
  have "IsTarget o1 = IsTarget opt" by (simp add: o1 IsTarget_def)
  then show "js_sql (job_OnFunctionInit env opt st) = js_sql (snd (sql_init env opt st))"
    "js_workers (job_OnFunctionInit env opt st) = js_workers (snd (sql_init env opt st))"
    "js_reapers (job_OnFunctionInit env opt st) = js_reapers (snd (sql_init env opt st))"
    "js_manager (job_OnFunctionInit env opt st) = js_manager (snd (sql_init env opt st))"
    "js_opts (job_OnFunctionInit env opt st) = (js_opts st)(o_name opt \<mapsto> fst (callSQLInit opt))"
    "js_streams (job_OnFunctionInit env opt st) \<noteq> None \<longleftrightarrow> js_streams st \<noteq> None \<or> je_redis env \<and> IsTarget opt"
    using redis_init_streams [of env o1 st1] o1
    by (simp_all add: job_OnFunctionInit_def s Let_def encodeHandlerName_def)
qed

lemma set_up_step:
  assumes "set_up env opts st"
  shows "set_up env (opts @ [opt]) (job_OnFunctionInit env opt st)"
proof (cases "needs_sql opt")
  case False
  then have "snd (sql_init env opt st) = st" by (simp add: sql_init_need)
  then show ?thesis
    using assms False OnFunctionInit_fields(6) [of env opt st]
    unfolding set_up_def OnFunctionInit_fields(1-5) by (cases "js_manager st"; auto split: if_splits)
next
  case True
  let ?m = "case js_manager st of None \<Rightarrow> newJobManager | Some m \<Rightarrow> m"
  have s: "snd (sql_init env opt st) =
      (ensure_sql env st)\<lparr>js_manager := Some (?m\<lparr>jm_handlers := jobset_Add (o_name opt) (jm_handlers ?m)\<rparr>)\<rparr>"
    using True by (simp add: sql_init_need)
  have m: "set (jm_handlers ?m) = o_name ` set (filter needs_sql opts) \<and> lockedHandlers ?m = [] \<and> activeJobs ?m = 0"
  proof (cases "js_manager st")
    case None
    then have "js_sql st = None" using assms unfolding set_up_def None option.case by blast
    then have "filter needs_sql opts = []" using assms unfolding set_up_def by (cases "filter needs_sql opts") auto
    with None show ?thesis by (simp add: newJobManager_def)
  next
    case (Some m)
    show ?thesis using assms unfolding set_up_def Some option.case by blast
  qed
  have q: "js_sql st = (if filter needs_sql opts = [] then None else Some (je_migrate env = Some True))"
    "js_workers st = (if js_sql st = None then 0 else 1)" "js_reapers st = js_workers st"
    "js_opts st = map_of (rev (map (\<lambda>opt. (o_name opt, fst (callSQLInit opt))) opts))"
    "js_streams st \<noteq> None \<longleftrightarrow> je_redis env \<and> filter IsTarget opts \<noteq> []"
    using assms unfolding set_up_def by blast+
  let ?st = "job_OnFunctionInit env opt st"
  have sql: "js_sql ?st = Some (je_migrate env = Some True)"
    unfolding OnFunctionInit_fields s using q(1) by simp
  have count: "js_workers ?st = 1" "js_reapers ?st = 1" unfolding OnFunctionInit_fields s using q(2,3) by simp_all
  have manager: "js_manager ?st = Some (?m\<lparr>jm_handlers := jobset_Add (o_name opt) (jm_handlers ?m)\<rparr>)"
    unfolding OnFunctionInit_fields s by simp
  have opts: "js_opts ?st = map_of (rev (map (\<lambda>opt. (o_name opt, fst (callSQLInit opt))) (opts @ [opt])))"
    unfolding OnFunctionInit_fields q(4) by simp
  have streams: "js_streams ?st \<noteq> None \<longleftrightarrow> je_redis env \<and> filter IsTarget (opts @ [opt]) \<noteq> []"
    unfolding OnFunctionInit_fields q(5) by auto
  show ?thesis
    unfolding set_up_def sql count manager opts using streams m True by simp
qed

text \<open>Starting the job system. After all functions are initialised there is a SQL strategy exactly when one of them has a job
  mode that needs it, with one worker and one reaping task however many there are; the manager works for exactly those
  functions, the options kept are the last of each name, and streams are listened to exactly when redis is there and a
  function wants them. The tables are made only with an explicit permission. So a function whose job flags are set
  without a mode has no backend: with it alone there is no strategy.\<close>

theorem jobs_set_up:
  "js_sql (init_jobs env opts) = (if \<exists>opt \<in> set opts. needs_sql opt then Some (je_migrate env = Some True) else None) \<and>
   js_workers (init_jobs env opts) = (if \<exists>opt \<in> set opts. needs_sql opt then 1 else 0) \<and>
   js_reapers (init_jobs env opts) = (if \<exists>opt \<in> set opts. needs_sql opt then 1 else 0) \<and>
   (case job_status backend concurrency (init_jobs env opts) of
      None \<Rightarrow> \<not> (\<exists>opt \<in> set opts. needs_sql opt)
    | Some s \<Rightarrow> set (st_Handlers s) = o_name ` {opt \<in> set opts. needs_sql opt} \<and> st_LockedHandlers s = [] \<and> st_ActiveJobs s = 0) \<and>
   (\<forall>handler. call_direct sha invoker requestid handler injson (init_jobs env opts) = None \<longleftrightarrow> handler \<notin> o_name ` set opts) \<and>
   (job_OnServe (init_jobs env opts) \<noteq> [] \<longrightarrow> je_redis env \<and> (\<exists>opt \<in> set opts. IsTarget opt))"
proof -
  have up: "set_up env opts (init_jobs env opts)"
  proof (induction opts rule: rev_induct)
    case Nil
    show ?case by (simp add: set_up_def init_jobs_def no_jobs_def)
  next
    case (snoc opt opts)
    then show ?case using set_up_step by (simp add: init_jobs_def)
  qed
  have "js_opts (init_jobs env opts) handler = None \<longleftrightarrow> handler \<notin> o_name ` set opts" for handler
    using up by (auto simp: set_up_def map_of_eq_None_iff image_image)
  then have direct: "call_direct sha invoker requestid handler injson (init_jobs env opts) = None \<longleftrightarrow> handler \<notin> o_name ` set opts" for handler
    unfolding call_direct_def by (metis (no_types, lifting) option.case_eq_if option.distinct(1))
  have serve: "job_OnServe (init_jobs env opts) \<noteq> [] \<longrightarrow> je_redis env \<and> (\<exists>opt \<in> set opts. IsTarget opt)"
    using up by (auto simp: set_up_def job_OnServe_def filter_empty_conv split: option.splits)
  have sql: "js_sql (init_jobs env opts) = (if \<exists>opt \<in> set opts. needs_sql opt then Some (je_migrate env = Some True) else None)"
    using up by (auto simp: set_up_def filter_empty_conv)
  have count: "js_workers (init_jobs env opts) = (if js_sql (init_jobs env opts) = None then 0 else 1)"
    "js_reapers (init_jobs env opts) = js_workers (init_jobs env opts)"
    using up by (simp_all add: set_up_def)
  have status: "case job_status backend concurrency (init_jobs env opts) of
      None \<Rightarrow> \<not> (\<exists>opt \<in> set opts. needs_sql opt)
    | Some s \<Rightarrow> set (st_Handlers s) = o_name ` {opt \<in> set opts. needs_sql opt} \<and> st_LockedHandlers s = [] \<and> st_ActiveJobs s = 0"
    using up sql unfolding set_up_def job_status_def job_status_of_def by (cases "js_manager (init_jobs env opts)") (simp_all split: if_splits)
  show ?thesis using sql count direct serve status by simp
qed

subsection \<open>Examples\<close>

definition text_job_fn :: "string \<Rightarrow> job_mode \<Rightarrow> bool \<Rightarrow> fn_option" where
  "text_job_fn n mode async =
     \<lparr>o_name = n, o_version = [], o_mode = mode,
      o_job = \<lparr>Async = async, Cache = False, CacheErrOnHit = False, Dedupe = False, Priority = 0, CacheExpire = 0, Interval = 0\<rparr>\<rparr>"

definition text_jobs :: job_env where
  "text_jobs = \<lparr>je_migrate = None, je_init = (\<lambda>_. None), je_prefix = [], je_redis = False, je_onInit = (\<lambda>_. None), je_ttl = (\<lambda>_. 0)\<rparr>"

text \<open>A mode, and the flag alone.\<close>

theorem jobs_set_up_witness:
  "js_sql (init_jobs text_jobs [text_job_fn ''a'' ModeAsync False]) = Some False \<and>
   js_sql (init_jobs text_jobs [text_job_fn ''a'' ModeNormal True]) = None"
  using jobs_set_up [of text_jobs "[text_job_fn ''a'' ModeAsync False]" "[]" 0 "\<lambda>_. []" "\<lambda>_ _ _ _. ()" "[]" "[]"]
    jobs_set_up [of text_jobs "[text_job_fn ''a'' ModeNormal True]" "[]" 0 "\<lambda>_. []" "\<lambda>_ _ _ _. ()" "[]" "[]"]
  by (simp add: needs_sql_def text_job_fn_def text_jobs_def)

end
