(* ===== verification/Console.thy ===== *)
theory Console
  imports Job_Hooks Mcp
begin

section \<open>What the command line prints\<close>

text \<open>
  The commands \<open>run\<close> and \<open>mcp\<close> (\<open>serve_cli.go\<close>, \<open>serve_cli_action.go\<close>) and the list of jobs (\<open>serve_cli_job.go\<close>). Output is a list of lines without
  colours. \<open>sprint\<close> is \<open>fmt.Sprint\<close> on JSON; how it writes numbers, lists and objects is an argument. A panic is
  \<open>None\<close>.
\<close>

subsection \<open>The items of MCP\<close>

type_synonym item = "(string \<times> json) list"

definition sprint :: "(json \<Rightarrow> string) \<Rightarrow> json option \<Rightarrow> string" where
  "sprint other v =
     (case v of
        None \<Rightarrow> ''<nil>''
      | Some JsNull \<Rightarrow> ''<nil>''
      | Some (JsStr s) \<Rightarrow> s
      | Some (JsBool b) \<Rightarrow> (if b then ''true'' else ''false'')
      | Some w \<Rightarrow> other w)"

fun object_of :: "json \<Rightarrow> item option" where
  "object_of (JsObj kvs) = Some kvs"
| "object_of _ = None"

definition mcpListFromResult :: "json \<Rightarrow> string \<Rightarrow> item list" where
  "mcpListFromResult result key =
     (case obj_get key result of Some (JsArr xs) \<Rightarrow> List.map_filter object_of xs | _ \<Rightarrow> [])"

text \<open>\<open>mcpSchemaArgs\<close>: the properties by name, a star on those that are required, and their types.\<close>

definition arg_label :: "(json \<Rightarrow> string) \<Rightarrow> item \<Rightarrow> string \<Rightarrow> string" where
  "arg_label other schema name =
     name @ (if name \<in> set (required_names (JsObj schema)) then ''*'' else []) @
     (case map_of (properties (JsObj schema)) name of
        Some (JsObj prop) \<Rightarrow>
          (let typ = sprint other (map_of prop ''type'') in if typ \<noteq> [] \<and> typ \<noteq> ''<nil>'' then ''='' @ typ else [])
      | _ \<Rightarrow> [])"

definition mcpSchemaArgs :: "(json \<Rightarrow> string) \<Rightarrow> item \<Rightarrow> string" where
  "mcpSchemaArgs other schema =
     join_with ''&'' (map (arg_label other schema) (sort_key str_key (map fst (properties (JsObj schema)))))"

definition prompt_part :: "(json \<Rightarrow> string) \<Rightarrow> item \<Rightarrow> string option" where
  "prompt_part other arg =
     (let name = sprint other (map_of arg ''name'') in
      if name = [] then None
      else Some (if map_of arg ''required'' = Some (JsBool True) then name @ ''*'' else name))"

definition mcpPromptArgsLine :: "(json \<Rightarrow> string) \<Rightarrow> item list \<Rightarrow> string" where
  "mcpPromptArgsLine other args = join_with ''&'' (sort_key str_key (List.map_filter (prompt_part other) args))"

subsection \<open>Printing them\<close>

definition with_desc :: "string \<Rightarrow> string \<Rightarrow> string" where
  "with_desc line desc = (if desc \<noteq> [] then line @ ''  # '' @ desc else line)"

definition tool_lines :: "(json \<Rightarrow> string) \<Rightarrow> item \<Rightarrow> string list" where
  "tool_lines other it =
     with_desc (''- '' @ sprint other (map_of it ''name'')) (sprint other (map_of it ''description'')) #
     (case map_of it ''inputSchema'' of
        Some (JsObj schema) \<Rightarrow>
          (let args = mcpSchemaArgs other schema in if args \<noteq> [] then [''  Args: '' @ args] else [])
      | _ \<Rightarrow> [])"

definition prompt_lines :: "(json \<Rightarrow> string) \<Rightarrow> item \<Rightarrow> string list" where
  "prompt_lines other it =
     with_desc (''- '' @ sprint other (map_of it ''name'')) (sprint other (map_of it ''description'')) #
     (case map_of it ''arguments'' of
        Some (JsArr args) \<Rightarrow>
          (if args \<noteq> [] then [''  Args: '' @ mcpPromptArgsLine other (List.map_filter object_of args)] else [])
      | _ \<Rightarrow> [])"

definition resource_lines :: "(json \<Rightarrow> string) \<Rightarrow> item \<Rightarrow> string list" where
  "resource_lines other it =
     (let mime = sprint other (map_of it ''mimeType'') in
      with_desc (''- '' @ sprint other (map_of it ''name'') @ '' ('' @ sprint other (map_of it ''uri'') @ '')'')
        (sprint other (map_of it ''description'')) #
      (if mime \<noteq> [] then [''  MIME: '' @ mime] else []))"

definition print_section :: "string \<Rightarrow> string \<Rightarrow> (item \<Rightarrow> string list) \<Rightarrow> string + json \<Rightarrow> string list" where
  "print_section title key lines result =
     (case result of
        Inl e \<Rightarrow> [''## '' @ title, ''Error: '' @ e, []]
      | Inr r \<Rightarrow>
          (let items = mcpListFromResult r key in
           (''## '' @ title) # (if items = [] then [''(none)''] else concat (map lines items)) @ [[]]))"

definition printMCPTools :: "(json \<Rightarrow> string) \<Rightarrow> mcp_server \<Rightarrow> string list" where
  "printMCPTools other s = print_section ''Tools'' ''tools'' (tool_lines other) (mcpToolsList s)"

definition printMCPPrompts :: "(json \<Rightarrow> string) \<Rightarrow> mcp_lib \<Rightarrow> mcp_server \<Rightarrow> string list" where
  "printMCPPrompts other lib s = print_section ''Prompts'' ''prompts'' (prompt_lines other) (mcpPromptsList lib s)"

definition printMCPResources :: "(json \<Rightarrow> string) \<Rightarrow> mcp_lib \<Rightarrow> mcp_server \<Rightarrow> string list" where
  "printMCPResources other lib s = print_section ''Resources'' ''resources'' (resource_lines other) (mcpResourcesList lib s)"

text \<open>\<open>printMCP\<close>. \<open>resolve\<close> is \<open>mcpResolvePath\<close>.\<close>

definition dir_lines :: "(string \<Rightarrow> string) \<Rightarrow> string \<Rightarrow> string list \<Rightarrow> string list" where
  "dir_lines resolve title dirs = (if dirs = [] then [] else title # map (\<lambda>d. ''  - '' @ resolve d) dirs)"

definition printMCP ::
  "(json \<Rightarrow> string) \<Rightarrow> (string \<Rightarrow> string) \<Rightarrow> string list \<Rightarrow> string list \<Rightarrow> mcp_lib \<Rightarrow> mcp_server \<Rightarrow> string list" where
  "printMCP other resolve prompt_dirs resource_dirs lib s =
     (let cfg = ms_config s; endpoint = mcpEndpoint cfg;
          enabled = (mcpOptions s ''tool'' \<noteq> [] \<or> mcpOptions s ''resource'' \<noteq> [] \<or> mcpOptions s ''prompt'' \<noteq> [] \<or>
            prompt_dirs \<noteq> [] \<or> resource_dirs \<noteq> []) in
      [''MCP Endpoint:'', ''  POST '' @ endpoint, ''Metadata Endpoint:'', ''  GET '' @ endpoint, ''Protocol:'', ''  2024-11-05'',
       ''Transport:'', ''  streamable-http'', ''Resource URI:'',
       ''  '' @ mcpResourceScheme cfg @ ''://'' @ mcpResourceHost cfg @ ''/<relative-path>'',
       ''Enabled:'', ''  '' @ (if enabled then ''true'' else ''false'')] @
      dir_lines resolve ''Prompt Dirs:'' prompt_dirs @ dir_lines resolve ''Resource Dirs:'' resource_dirs @ [[]] @
      printMCPTools other s @ printMCPPrompts other lib s @ printMCPResources other lib s)"

subsection \<open>The list of jobs\<close>

text \<open>The map from ids to numbers is a package variable, \<open>None\<close> while it is nil; writing to a nil map is a panic.\<close>

definition jobIDtoJobNum ::
  "string \<Rightarrow> (string \<rightharpoonup> int) option \<times> int \<Rightarrow> (int \<times> (string \<rightharpoonup> int) option \<times> int) option" where
  "jobIDtoJobNum jid st =
     (case st of
        (m, lastjobID) \<Rightarrow>
          (case Option.bind m (\<lambda>f. f jid) of
             Some num \<Rightarrow> Some (num, m, lastjobID)
           | None \<Rightarrow>
               (case m of
                  None \<Rightarrow> None
                | Some f \<Rightarrow> Some (lastjobID + 1, Some (f(jid \<mapsto> lastjobID + 1)), lastjobID + 1))))"

fun job_lines ::
  "(time \<Rightarrow> string) \<Rightarrow> jobInfo list \<Rightarrow> (string \<rightharpoonup> int) option \<times> int \<Rightarrow> (string list \<times> (string \<rightharpoonup> int) option \<times> int) option" where
  "job_lines clock [] st = Some ([], st)"
| "job_lines clock (j # js) st =
     Option.bind (jobIDtoJobNum (ji_jobid j) st) (\<lambda>(num, st1).
       let status = m_status (ji_meta j) in
       if status < 0 \<or> int (length sqlStatusCodeStrings) \<le> status then None
       else
         map_option (apfst ((#) (itoa num @ ''  '' @ ji_handler j @ ''  '' @ sqlStatusCodeStrings ! nat status @ ''  '' @
             clock (ji_updated j) @ ''  '' @ (case ji_leased j of None \<Rightarrow> ''-'' | Some t \<Rightarrow> clock t))))
           (job_lines clock js st1))"

definition PrintJobList ::
  "(time \<Rightarrow> string) \<Rightarrow> jobInfo list \<Rightarrow> (string \<rightharpoonup> int) option \<times> int \<Rightarrow> (string list \<times> (string \<rightharpoonup> int) option \<times> int) option" where
  "PrintJobList clock jobs st =
     (if jobs = [] then Some ([''no jobs''], st)
      else map_option (apfst ((#) ''JOB  HANDLER  STATUS  UPDATED  LEASE'')) (job_lines clock jobs st))"

text \<open>The variables as the package declares them; nothing else assigns them.\<close>

definition job_numbers :: "(string \<rightharpoonup> int) option \<times> int" where
  "job_numbers = (None, 0)"

subsection \<open>\<open>run\<close>\<close>

text \<open>
  The body of the command up to the wait for the jobs it started. \<open>names\<close> are the keys of the map of options in the order of
  one iteration. The invoker answers with the lines that print the input, the key, the output, the error and the system
  error; the two documents are printed by \<open>show\<close>, the system error by \<open>hex\<close>.
\<close>

definition cmd_run ::
  "(bytes \<Rightarrow> string) \<Rightarrow>
    (fn_option \<Rightarrow> string \<Rightarrow> string \<Rightarrow> bytes \<Rightarrow> string list \<times> string \<times> bytes option \<times> bytes option \<times> job_error option) \<Rightarrow>
    (bytes \<Rightarrow> string list) \<Rightarrow> (job_error \<Rightarrow> string) \<Rightarrow> string \<Rightarrow> string list \<Rightarrow> string list \<Rightarrow> bytes \<Rightarrow> job_server \<Rightarrow> string list option" where
  "cmd_run sha invoker show hex requestid names args injson st =
     (case args of
        [] \<Rightarrow> None
      | a # _ \<Rightarrow>
          (case find_handler names a of
             Inl _ \<Rightarrow> Some [''Error: handler '' @ [CHR 0x27] @ a @ [CHR 0x27] @ '' not found.'']
           | Inr handler \<Rightarrow>
               (case call_direct sha invoker requestid handler (if injson = [] then ''{}'' else injson) st of
                  None \<Rightarrow> None
                | Some (_, input, key, out, err, syserr) \<Rightarrow>
                    Some ((''Running handler '' @ [CHR 0x27] @ handler @ [CHR 0x27] @ ''...'') # input @
                      (case syserr of
                         Some e \<Rightarrow> [''Error: '' @ hex e]
                       | None \<Rightarrow>
                           (''JobID: '' @ key) # (case out of None \<Rightarrow> [] | Some d \<Rightarrow> ''Output:'' # show d) @
                           (case err of None \<Rightarrow> [] | Some d \<Rightarrow> ''Error:'' # show d))))))"

subsection \<open>What is shown\<close>

lemma map_res_Inr: "map_res f xs = Inr ys \<Longrightarrow> list_all2 (\<lambda>x y. f x = Inr y) xs ys"
proof (induction xs arbitrary: ys)
  case (Cons x xs)
  then show ?case by (cases "f x"; cases "map_res f xs") auto
qed simp

text \<open>The lines of a tool from its options.\<close>

definition tool_entry :: "(json \<Rightarrow> string) \<Rightarrow> mcp_fn \<Rightarrow> string list" where
  "tool_entry other opt =
     with_desc (''- '' @ mcpFunctionName opt) (mf_Description opt) #
     (case mf_input opt of
        Inr (JsObj schema) \<Rightarrow> (let args = mcpSchemaArgs other schema in if args \<noteq> [] then [''  Args: '' @ args] else [])
      | _ \<Rightarrow> [])"

lemma tool_lines_entry:
  "tool_json opt = Inr t \<Longrightarrow> \<exists>it. t = JsObj it \<and> tool_lines other it = tool_entry other opt"
  by (cases "mf_input opt"; cases "mf_output opt") (auto simp: tool_json_def tool_lines_def tool_entry_def sprint_def split: json.split)

lemma tool_items:
  "list_all2 (\<lambda>x y. tool_json x = Inr y) opts ts \<Longrightarrow>
    map (tool_lines other) (List.map_filter object_of ts) = map (tool_entry other) opts"
proof (induction rule: list_all2_induct)
  case (Cons x xs y ys)
  then show ?case using tool_lines_entry [OF Cons(1), of other] by auto
qed simp

text \<open>\<open>mcp\<close> prints the tools that can be called. When no schema fails, the section lists, in their order, exactly the functions
  the protocol lists, each with its description and its arguments; every name that is printed is found by a call, and
  every name that a call finds is printed.\<close>

theorem console_lists_callable_tools:
  assumes "mcpToolsList s = Inr r"
  shows "printMCPTools other s =
      ''## Tools'' # (if mcpOptions s ''tool'' = [] then [''(none)''] else concat (map (tool_entry other) (mcpOptions s ''tool''))) @ [[]] \<and>
    {name. findMCPOption s ''tool'' name \<noteq> None} = mcpFunctionName ` set (mcpOptions s ''tool'')"
proof -
  obtain ts where ts: "map_res tool_json (mcpOptions s ''tool'') = Inr ts" "r = JsObj [(''tools'', JsArr ts)]"
    using assms by (cases "map_res tool_json (mcpOptions s ''tool'')") (auto simp: mcpToolsList_def)
  note all = map_res_Inr [OF ts(1)]
  have items: "map (tool_lines other) (List.map_filter object_of ts) = map (tool_entry other) (mcpOptions s ''tool'')"
    by (rule tool_items [OF all])
  then have empty: "List.map_filter object_of ts = [] \<longleftrightarrow> mcpOptions s ''tool'' = []" by (metis map_is_Nil_conv)
  have "mcpListFromResult r ''tools'' = List.map_filter object_of ts" by (simp add: mcpListFromResult_def ts(2))
  then have "printMCPTools other s =
      ''## Tools'' # (if mcpOptions s ''tool'' = [] then [''(none)''] else concat (map (tool_entry other) (mcpOptions s ''tool''))) @ [[]]"
    by (simp add: printMCPTools_def print_section_def assms empty items)
  moreover have "{name. findMCPOption s ''tool'' name \<noteq> None} = mcpFunctionName ` set (mcpOptions s ''tool'')"
    by (auto simp: findMCPOption_def find_None_iff simp del: not_None_eq)
  ultimately show ?thesis by blast
qed

text \<open>The list of jobs is never printed: the map of the numbers is nil, so the first job is a panic.\<close>

theorem job_list_panics: "PrintJobList clock jobs job_numbers = (if jobs = [] then Some ([''no jobs''], job_numbers) else None)"
  by (cases jobs) (simp_all add: PrintJobList_def job_numbers_def jobIDtoJobNum_def)

definition versioned_name :: "string \<Rightarrow> string \<Rightarrow> bool" where
  "versioned_name handler k \<longleftrightarrow> (case index_of CHR ''@'' k of None \<Rightarrow> False | Some idx \<Rightarrow> 0 < idx \<and> take idx k = handler)"

lemma find_handler_versioned:
  "find_handler names handler =
     (if handler \<in> set names then Inr handler
      else case find (versioned_name handler) names of Some k \<Rightarrow> Inr k | None \<Rightarrow> Inl ErrHandlerNotFound)"
  unfolding find_handler_def versioned_name_def [abs_def] ..

lemma versioned_name_iff:
  "versioned_name a k \<longleftrightarrow> (\<exists>rest. a \<noteq> [] \<and> CHR ''@'' \<notin> set a \<and> k = a @ CHR ''@'' # rest)"
proof
  assume "versioned_name a k"
  then obtain i where i: "index_of CHR ''@'' k = Some i" "0 < i" "take i k = a"
    unfolding versioned_name_def by (cases "index_of CHR ''@'' k") auto
  note f = index_of_Some [OF i(1)]
  have "k = take i k @ CHR ''@'' # drop (Suc i) k" using id_take_nth_drop [of i k] f by metis
  moreover have "a \<noteq> []" using i f by auto
  ultimately show "\<exists>rest. a \<noteq> [] \<and> CHR ''@'' \<notin> set a \<and> k = a @ CHR ''@'' # rest" using i(3) f by auto
qed (auto simp: index_of_append versioned_name_def)

lemma find_handler_known: "find_handler names a = Inr k \<Longrightarrow> k \<in> set names"
  by (auto simp: find_handler_versioned dest!: find_SomeD split: if_splits option.splits)

lemma find_handler_unknown:
  "(\<exists>e. find_handler names a = Inl e) \<longleftrightarrow> (\<forall>k \<in> set names. k \<noteq> a \<and> \<not> versioned_name a k)"
proof (cases "find (versioned_name a) names")
  case None
  then have "\<not> (\<exists>k. k \<in> set names \<and> versioned_name a k)" by (simp only: find_None_iff simp_thms)
  with None show ?thesis by (auto simp: find_handler_versioned)
next
  case (Some k)
  then show ?thesis using find_SomeD [OF Some] by (auto simp: find_handler_versioned)
qed

text \<open>\<open>run\<close> with an argument never meets a handler without options, whatever the order of the map: it prints that there is
  none, exactly when no name is the argument or has it before its first \<open>@\<close>, or runs the one it found. Without an
  argument it is a panic.\<close>

theorem run_finds_its_handler:
  assumes "set names = dom (js_opts st)"
  shows "cmd_run sha invoker show hex requestid names [] injson st = None \<and>
    cmd_run sha invoker show hex requestid names (a # args) injson st \<noteq> None \<and>
    (cmd_run sha invoker show hex requestid names (a # args) injson st = Some [''Error: handler '' @ [CHR 0x27] @ a @ [CHR 0x27] @ '' not found.'']
      \<longleftrightarrow> (\<forall>k \<in> dom (js_opts st). k \<noteq> a \<and> \<not> (\<exists>rest. a \<noteq> [] \<and> CHR ''@'' \<notin> set a \<and> k = a @ CHR ''@'' # rest)))"
proof -
  note none = find_handler_unknown [of names a, unfolded assms versioned_name_iff]
  show ?thesis
  proof (cases "find_handler names a")
    case (Inl e)
    then have "\<forall>k \<in> dom (js_opts st). k \<noteq> a \<and> \<not> (\<exists>rest. a \<noteq> [] \<and> CHR ''@'' \<notin> set a \<and> k = a @ CHR ''@'' # rest)"
      using none by blast
    then show ?thesis using Inl by (simp add: cmd_run_def)
  next
    case (Inr k)
    then obtain opt where opt: "js_opts st k = Some opt" using find_handler_known [OF Inr] assms by blast
    have "\<not> (\<forall>k \<in> dom (js_opts st). k \<noteq> a \<and> \<not> (\<exists>rest. a \<noteq> [] \<and> CHR ''@'' \<notin> set a \<and> k = a @ CHR ''@'' # rest))"
      using none Inr by auto
    moreover have "\<exists>l1 l2. cmd_run sha invoker show hex requestid names (a # args) injson st =
        Some ((''Running handler '' @ l1) # l2)"
      using Inr opt by (auto simp: cmd_run_def call_direct_def split: prod.split)
    moreover have "cmd_run sha invoker show hex requestid names [] injson st = None" by (simp add: cmd_run_def)
    ultimately show ?thesis by auto
  qed
qed

subsection \<open>Examples\<close>

theorem console_lists_callable_tools_witness:
  "printMCPTools (\<lambda>_. []) text_mcp_server = [''## Tools'', ''- up'', []]"
proof -
  have "to_lower ''Tool'' = ''tool''" "to_lower ''tool'' = ''tool''" "normalize_name ''up'' = ''up''" by code_simp+
  then have o: "mcpOptions text_mcp_server ''tool'' = [text_tool]" and n: "mcpFunctionName text_tool = ''up''"
    by (simp_all add: mcpOptions_def text_mcp_server_def text_tool_def mcpFunctionName_def Let_def)
  obtain r where r: "mcpToolsList text_mcp_server = Inr r"
    by (simp add: mcpToolsList_def o tool_json_def text_tool_def)
  have e: "tool_entry (\<lambda>_. []) text_tool = [''- up'']"
    unfolding tool_entry_def n by (simp add: text_tool_def with_desc_def)
  show ?thesis using console_lists_callable_tools [OF r, of "\<lambda>_. []"] by (simp add: o e)
qed

theorem run_finds_its_handler_witness:
  "cmd_run (\<lambda>_. []) (\<lambda>_ _ _ _. ([], [], None, None, None)) (\<lambda>_. []) (\<lambda>_. []) [] [''a''] [''a''] []
     (init_jobs text_jobs [text_job_fn ''a'' ModeAsync False]) \<noteq> None"
proof -
  have "set [''a''] = dom (js_opts (init_jobs text_jobs [text_job_fn ''a'' ModeAsync False]))"
    by (simp add: init_jobs_def job_OnFunctionInit_def sql_init_def redis_init_def callSQLInit_def callRedisInit_def text_job_fn_def
        ensure_sql_def no_jobs_def text_jobs_def Let_def encodeHandlerName_def)
  from run_finds_its_handler [OF this] show ?thesis by blast
qed

end
