(* ===== verification/Request_Identity.thy ===== *)
theory Request_Identity
  imports Job_Codec
begin

section \<open>The identity of a request\<close>

text \<open>
  \<open>Runtime\<close> (\<open>serve_request.go\<close>): the id of a request and the address of its client, both kept once they are known, the functions that run
  when it ends, the cache of regular expressions; and the address of a node (\<open>session_sticky.go\<close>). A runtime that belongs to no
  request has no fiber context, \<open>None\<close>, and asking that for a header or an address is a panic, also \<open>None\<close>.
\<close>

datatype origin = REQUEST_VIRTUAL | REQUEST_HTTP | REQUEST_WS | REQUEST_CRON | REQUEST_JOB | REQUEST_CLI | REQUEST_STREAM

fun requestTypeStr :: "origin \<Rightarrow> string" where
  "requestTypeStr REQUEST_VIRTUAL = ''virtual''"
| "requestTypeStr REQUEST_HTTP = ''http''"
| "requestTypeStr REQUEST_WS = ''ws''"
| "requestTypeStr REQUEST_CRON = ''cron''"
| "requestTypeStr REQUEST_JOB = ''job''"
| "requestTypeStr REQUEST_CLI = ''cli''"
| "requestTypeStr REQUEST_STREAM = ''stream''"

record trusted_proxy =
  TrustXRequestID :: bool
  TrustXForwardedFor :: bool

text \<open>The headers, empty where there is none, and the remote address.\<close>

record fiber_ctx =
  fb_header :: "string \<Rightarrow> string"
  fb_remote :: "string option"

record request_ids =
  rq_requestid :: string
  rq_clientip :: string

definition no_ids :: request_ids where
  "no_ids = \<lparr>rq_requestid = [], rq_clientip = []\<rparr>"

text \<open>\<open>fresh\<close> is what \<open>xid.New\<close> returns.\<close>

definition RequestID :: "trusted_proxy \<Rightarrow> fiber_ctx option \<Rightarrow> string \<Rightarrow> request_ids \<Rightarrow> (string \<times> request_ids) option" where
  "RequestID cfg fiber fresh st =
     (if rq_requestid st \<noteq> [] then Some (rq_requestid st, st)
      else
        map_option (\<lambda>rid. let rid' = (if rid = [] then fresh else rid) in (rid', st\<lparr>rq_requestid := rid'\<rparr>))
          (if TrustXRequestID cfg then map_option (\<lambda>c. fb_header c ''X-Request-ID'') fiber else Some []))"

definition ClientIP :: "trusted_proxy \<Rightarrow> fiber_ctx option \<Rightarrow> request_ids \<Rightarrow> (string \<times> request_ids) option" where
  "ClientIP cfg fiber st =
     (if rq_clientip st \<noteq> [] then Some (rq_clientip st, st)
      else
        map_option
          (\<lambda>c. let xff = (if TrustXForwardedFor cfg then fb_header c ''X-Forwarded-For'' else []);
                   ip = (if xff \<noteq> [] then xff else case fb_remote c of None \<Rightarrow> ''unknown'' | Some a \<Rightarrow> a)
               in (ip, st\<lparr>rq_clientip := ip\<rparr>))
          fiber)"

text \<open>\<open>Defer\<close> and \<open>do_defer\<close>: first come, first run; the errors are dropped. A function may register others, which do not run.\<close>

definition Defer :: "('w \<Rightarrow> string option \<times> 'w) \<Rightarrow> ('w \<Rightarrow> string option \<times> 'w) list \<Rightarrow> ('w \<Rightarrow> string option \<times> 'w) list" where
  "Defer fn deferfn = deferfn @ [fn]"

definition do_defer :: "('w \<Rightarrow> string option \<times> 'w) list \<Rightarrow> 'w \<Rightarrow> 'w" where
  "do_defer deferfn w = fold (\<lambda>fn w. snd (fn w)) deferfn w"

definition cachedRegex :: "(string \<Rightarrow> string + 'r) \<Rightarrow> string \<Rightarrow> (string \<rightharpoonup> 'r) \<Rightarrow> (string + 'r) \<times> (string \<rightharpoonup> 'r)" where
  "cachedRegex compile rx cache =
     (case cache rx of
        Some re \<Rightarrow> (Inr re, cache)
      | None \<Rightarrow> (case compile rx of Inl e \<Rightarrow> (Inl e, cache) | Inr re \<Rightarrow> (Inr re, cache(rx \<mapsto> re))))"

text \<open>\<open>getLocalIP\<close>: an address of an interface is \<open>None\<close> when it is no \<open>IPNet\<close>, and else its text, whether it is a loopback address
  and whether it is IPv4. An interface that cannot list its addresses is passed over.\<close>

record net_iface =
  if_up :: bool
  if_loopback :: bool
  if_addrs :: "(string \<times> bool \<times> bool) option list option"

fun usable_ip :: "(string \<times> bool \<times> bool) option \<Rightarrow> string option" where
  "usable_ip None = None"
| "usable_ip (Some (ip, loopback, v4)) = (if loopback \<or> \<not> v4 then None else Some ip)"

definition getLocalIP :: "net_iface list option \<Rightarrow> string" where
  "getLocalIP ifaces =
     (case ifaces of
        None \<Rightarrow> []
      | Some is \<Rightarrow>
          (case concat (map (\<lambda>i. if if_up i \<and> \<not> if_loopback i
                                 then (case if_addrs i of None \<Rightarrow> [] | Some as \<Rightarrow> List.map_filter usable_ip as) else []) is) of
             [] \<Rightarrow> []
           | ip # _ \<Rightarrow> ip))"

subsection \<open>What is shown\<close>

text \<open>Who a request is does not change while it lasts; and without a trusted proxy no header has a say in it. With one the
  whole header is taken, so what the client sent before the proxy added its part is the address that is logged.\<close>

theorem identity_of_request:
  assumes "RequestID cfg fiber fresh st = Some (rid, st1)" "fresh \<noteq> []"
    and "ClientIP cfg (Some c) st1 = Some (ip, st2)" "fb_remote c \<noteq> Some []"
  shows "rid \<noteq> [] \<and> ip \<noteq> [] \<and> (\<forall>fiber' other. RequestID cfg fiber' other st2 = Some (rid, st2)) \<and>
    (\<forall>fiber'. ClientIP cfg fiber' st2 = Some (ip, st2)) \<and>
    (\<not> TrustXRequestID cfg \<longrightarrow> (\<forall>fiber'. RequestID cfg fiber' fresh st = Some (rid, st1))) \<and>
    (\<not> TrustXForwardedFor cfg \<longrightarrow> (\<forall>h. ClientIP cfg (Some (c\<lparr>fb_header := h\<rparr>)) st1 = Some (ip, st2))) \<and>
    (TrustXForwardedFor cfg \<and> rq_clientip st = [] \<and> fb_header c ''X-Forwarded-For'' \<noteq> [] \<longrightarrow> ip = fb_header c ''X-Forwarded-For'')"
proof -
  have r: "rid \<noteq> [] \<and> rq_requestid st1 = rid \<and> rq_clientip st1 = rq_clientip st"
    using assms(1,2) by (auto simp: RequestID_def Let_def split: if_splits)
  have i: "ip \<noteq> [] \<and> rq_clientip st2 = ip \<and> rq_requestid st2 = rq_requestid st1"
    using assms(3,4) by (auto simp: ClientIP_def Let_def split: if_splits option.splits)
  have "\<not> TrustXRequestID cfg \<longrightarrow> (\<forall>fiber'. RequestID cfg fiber' fresh st = Some (rid, st1))"
    using assms(1) by (auto simp: RequestID_def Let_def split: if_splits)
  moreover have "\<not> TrustXForwardedFor cfg \<longrightarrow> (\<forall>h. ClientIP cfg (Some (c\<lparr>fb_header := h\<rparr>)) st1 = Some (ip, st2))"
    using assms(3) by (auto simp: ClientIP_def Let_def split: if_splits)
  moreover have "TrustXForwardedFor cfg \<and> rq_clientip st = [] \<and> fb_header c ''X-Forwarded-For'' \<noteq> [] \<longrightarrow>
      ip = fb_header c ''X-Forwarded-For''"
    using assms(3) r by (auto simp: ClientIP_def Let_def)
  ultimately show ?thesis using r i by (simp add: RequestID_def ClientIP_def)
qed

lemma length_split_on: "length (split_on c s) = Suc (count_list s c)"
  by (induction s) (auto split: list.splits)

lemma decodeJobID_colons: "count_list s CHR '':'' \<noteq> 3 \<Longrightarrow> decodeJobID s = Inl (BadJobID ''invalid jobid format'')"
  using length_split_on [of "CHR '':''" s] by (auto simp: decodeJobID_def split: list.split)

lemma count_list_mem: "c \<in> set s \<Longrightarrow> 0 < count_list s c"
  by (induction s) auto

lemma append_sep_inject: "c \<notin> set k \<Longrightarrow> c \<notin> set k' \<Longrightarrow> k @ c # r = k' @ c # r' \<longleftrightarrow> k = k' \<and> r = r'"
  by (auto simp: append_eq_append_conv2 Cons_eq_append_conv append_eq_Cons_conv)

text \<open>C36. When do two calls of one function share a job, for a function that neither caches nor deduplicates, called from two requests that have no
  id yet? The request id is the \<open>X-Request-ID\<close> header if the proxy is trusted and the header is not empty, else a fresh
  one (\<open>xid\<close>, not empty). With \<open>k\<close>, \<open>k'\<close> the idempotency keys of the inputs, or where there is none the hash of
  the name and the input's JSON (neither with a dot, as in hexadecimal hashes), the job ids are equal exactly when both \<open>k = k'\<close>
  and the request ids are equal. So without a trusted proxy calls with different fresh ids never share a job, even with the same
  input; with one, calls of the same key and header always do, whoever sent them, and the second is taken for the first. A
  different input without idempotency key is another job unless the hashes collide. With a colon in such a header
  the id of the job cannot be read back.\<close>

theorem request_ids_in_job_ids:
  assumes "\<not> Dedupe (o_job opt)" "\<not> Cache (o_job opt)"
    and rids: "RequestID cfg (Some c) fresh no_ids = Some (rid, st)" "RequestID cfg (Some c') fresh' no_ids = Some (rid', st')"
      "fresh \<noteq> []" "fresh' \<noteq> []"
    and keys: "k = (if idem = [] then sha (o_name opt @ injson) else idem)" "k' = (if idem' = [] then sha (o_name opt @ injson') else idem')"
      "CHR ''.'' \<notin> set k" "CHR ''.'' \<notin> set k'"
  shows "(JobID sha opt idem injson rid = JobID sha opt idem' injson' rid' \<longleftrightarrow>
      k = k' \<and>
      (if TrustXRequestID cfg \<and> fb_header c ''X-Request-ID'' \<noteq> [] then fb_header c ''X-Request-ID'' else fresh) =
      (if TrustXRequestID cfg \<and> fb_header c' ''X-Request-ID'' \<noteq> [] then fb_header c' ''X-Request-ID'' else fresh')) \<and>
    (TrustXRequestID cfg \<and> CHR '':'' \<in> set (fb_header c ''X-Request-ID'') \<longrightarrow>
       decodeJobID (JobID sha opt idem injson rid) = Inl (BadJobID ''invalid jobid format''))"
proof -
  have rid: "rid = (if TrustXRequestID cfg \<and> fb_header c ''X-Request-ID'' \<noteq> [] then fb_header c ''X-Request-ID'' else fresh)"
    "rid' = (if TrustXRequestID cfg \<and> fb_header c' ''X-Request-ID'' \<noteq> [] then fb_header c' ''X-Request-ID'' else fresh')"
    using rids(1,2) by (auto simp: RequestID_def no_ids_def Let_def split: if_splits)
  then have ne: "rid \<noteq> []" "rid' \<noteq> []" using rids(3,4) by (simp_all split: if_splits)
  have ids: "JobID sha opt i j r = ''job:v1:'' @ o_name opt @ '':'' @
      (if i = [] then sha (o_name opt @ j) else i) @ CHR ''.'' # r" if "r \<noteq> []" for i j r
    using that assms(1,2) by (simp add: JobID_def encodeJobID_def encodeHandlerName_def encodeJobKey_def Let_def)
  have "JobID sha opt idem injson rid = JobID sha opt idem' injson' rid' \<longleftrightarrow> k = k' \<and> rid = rid'"
    unfolding ids [OF ne(1)] ids [OF ne(2)] keys(1,2) [symmetric]
    using append_sep_inject [OF keys(3,4)] by simp
  moreover have "decodeJobID (JobID sha opt idem injson r) = Inl (BadJobID ''invalid jobid format'')" if "CHR '':'' \<in> set r" for r
  proof (rule decodeJobID_colons)
    have "r \<noteq> []" using that by auto
    then show "count_list (JobID sha opt idem injson r) CHR '':'' \<noteq> 3"
      using count_list_mem [OF that] by (simp add: ids)
  qed
  then have "TrustXRequestID cfg \<and> CHR '':'' \<in> set (fb_header c ''X-Request-ID'') \<longrightarrow>
      decodeJobID (JobID sha opt idem injson rid) = Inl (BadJobID ''invalid jobid format'')"
    using rid(1) by (auto split: if_splits)
  ultimately show ?thesis by (simp only: rid)
qed

text \<open>The cache of regular expressions never changes an answer.\<close>

theorem regex_cache_transparent:
  assumes "\<forall>rx re. cache rx = Some re \<longrightarrow> compile rx = Inr re"
  shows "fst (cachedRegex compile rx cache) = compile rx \<and>
    (\<forall>rx' re. snd (cachedRegex compile rx cache) rx' = Some re \<longrightarrow> compile rx' = Inr re)"
  using assms by (auto simp: cachedRegex_def split: option.splits sum.splits)

text \<open>The deferred functions run in the order they were registered, each on what the ones before it left.\<close>

lemma do_defer_order: "do_defer (Defer fn fns) w = snd (fn (do_defer fns w))"
  by (simp add: do_defer_def Defer_def)

subsection \<open>Examples\<close>

definition text_fiber :: "string \<Rightarrow> fiber_ctx" where
  "text_fiber h = \<lparr>fb_header = (\<lambda>_. h), fb_remote = Some ''10.0.0.1:80''\<rparr>"

theorem identity_of_request_witness:
  "\<exists>st2. ClientIP \<lparr>TrustXRequestID = True, TrustXForwardedFor = True\<rparr> (Some (text_fiber ''a, b'')) no_ids = Some (''a, b'', st2) \<and>
     (\<forall>fiber'. ClientIP \<lparr>TrustXRequestID = True, TrustXForwardedFor = True\<rparr> fiber' (st2\<lparr>rq_requestid := ''a, b''\<rparr>) = Some (''a, b'', st2\<lparr>rq_requestid := ''a, b''\<rparr>))"
proof -
  let ?cfg = "\<lparr>TrustXRequestID = True, TrustXForwardedFor = True\<rparr>" and ?c = "text_fiber ''a, b''"
  have 1: "RequestID ?cfg (Some ?c) ''x'' no_ids = Some (''a, b'', \<lparr>rq_requestid = ''a, b'', rq_clientip = []\<rparr>)"
    by (simp add: RequestID_def text_fiber_def no_ids_def Let_def)
  have 2: "ClientIP ?cfg (Some ?c) \<lparr>rq_requestid = ''a, b'', rq_clientip = []\<rparr> = Some (''a, b'', \<lparr>rq_requestid = ''a, b'', rq_clientip = ''a, b''\<rparr>)"
    by (simp add: ClientIP_def text_fiber_def Let_def)
  have "fb_remote ?c \<noteq> Some []" by (simp add: text_fiber_def)
  from identity_of_request [OF 1 _ 2 this]
  show ?thesis by (intro exI [of _ "\<lparr>rq_requestid = [], rq_clientip = ''a, b''\<rparr>"]) (simp add: ClientIP_def text_fiber_def no_ids_def Let_def)
qed

theorem request_ids_in_job_ids_witness:
  "let opt = \<lparr>o_name = ''mail'', o_version = [], o_mode = ModeAsync,
       o_job = \<lparr>Async = True, Cache = False, CacheErrOnHit = False, Dedupe = False, Priority = 0, CacheExpire = 0, Interval = 0\<rparr>\<rparr>;
     sha = map (\<lambda>x. if x = CHR ''.'' then CHR ''0'' else x) in
   JobID sha opt [] ''{}'' ''a:b'' \<noteq> JobID sha opt [] ''{1}'' ''a:b'' \<and>
   decodeJobID (JobID sha opt [] ''{}'' ''a:b'') = Inl (BadJobID ''invalid jobid format'')"
proof -
  let ?cfg = "\<lparr>TrustXRequestID = True, TrustXForwardedFor = False\<rparr>" and ?c = "text_fiber ''a:b''"
  have r: "RequestID ?cfg (Some ?c) f no_ids = Some (''a:b'', \<lparr>rq_requestid = ''a:b'', rq_clientip = []\<rparr>)" for f
    by (simp add: RequestID_def text_fiber_def no_ids_def Let_def)
  show ?thesis
    unfolding Let_def
    by (use request_ids_in_job_ids [OF _ _ r r _ _ refl refl, of _ "''x''" "''y''" "[]" _ "''{}''" "[]" "''{1}''"] in
        \<open>simp add: text_fiber_def\<close>)
qed

theorem regex_cache_transparent_witness:
  "fst (cachedRegex Inr ''a'' [''b'' \<mapsto> ''b'']) = Inr ''a''"
proof -
  have h: "\<forall>rx re. [''b'' \<mapsto> ''b''] rx = Some re \<longrightarrow> Inr rx = (Inr re :: string + string)" by simp
  show ?thesis by (rule regex_cache_transparent [OF h, THEN conjunct1])
qed

end
