(* ===== verification/Connections.thy ===== *)
theory Connections
  imports Acl Request_Identity
begin

section \<open>Clients of other services\<close>

text \<open>
  How the configuration becomes clients: \<open>serve_redis.go\<close>, \<open>serve_sql.go\<close>, \<open>s3.go\<close>, \<open>serve_httpclient.go\<close>, \<open>hostclient.go\<close>, \<open>serve_casbin.go\<close>
  (\<open>setup\<close> and \<open>configPath\<close>) and \<open>serve_handle_ws.go\<close>. A library call is an argument that answers with an
  error or a client; \<open>None\<close> is the nil client.
\<close>

subsection \<open>Paths\<close>

text \<open>\<open>filepath.Clean\<close> over the elements of a path, the kept ones last first, and \<open>filepath.Join\<close> of two paths.\<close>

fun clean_elems :: "bool \<Rightarrow> string list \<Rightarrow> string list \<Rightarrow> string list" where
  "clean_elems rooted kept [] = rev kept"
| "clean_elems rooted kept (e # es) =
     (if e = [] \<or> e = ''.'' then clean_elems rooted kept es
      else if e = ''..'' then
        (case kept of
           [] \<Rightarrow> clean_elems rooted (if rooted then [] else [''..'']) es
         | k # ks \<Rightarrow> clean_elems rooted (if k = ''..'' then ''..'' # kept else ks) es)
      else clean_elems rooted (e # kept) es)"

definition IsAbs :: "string \<Rightarrow> bool" where
  "IsAbs p \<longleftrightarrow> p \<noteq> [] \<and> hd p = CHR ''/''"

definition Clean :: "string \<Rightarrow> string" where
  "Clean p =
     (let out = join_with ''/'' (clean_elems (IsAbs p) [] (split_on CHR ''/'' p)) in
      if IsAbs p then CHR ''/'' # out else if out = [] then ''.'' else out)"

definition Join :: "string \<Rightarrow> string \<Rightarrow> string" where
  "Join a b = (if a = [] then (if b = [] then [] else Clean b) else if b = [] then Clean a else Clean (a @ ''/'' @ b))"

definition configPath :: "string \<Rightarrow> string \<Rightarrow> string \<Rightarrow> string" where
  "configPath ConfigDir AbsWorkDir path =
     (if path = [] \<or> IsAbs path then path
      else if ConfigDir \<noteq> [] then Join ConfigDir path
      else if AbsWorkDir \<noteq> [] then Join AbsWorkDir path
      else path)"

subsection \<open>Casbin\<close>

record casbin_config =
  ModelPath :: string
  PolicyPath :: string
  Adapter :: string
  cb_DSN :: string
  cb_Database :: string
  Table :: string
  TenantClaim :: string

record 'o pg_options =
  pg_Database :: string
  pg_rest :: 'o

record ('o, 'a, 'e) casbin_lib =
  cl_file :: "string \<Rightarrow> 'a"
  cl_parse :: "string \<Rightarrow> string + 'o pg_options"
  cl_by_db :: "'o pg_options \<Rightarrow> string \<Rightarrow> string + 'a"
  cl_by_dsn :: "string \<Rightarrow> string list \<Rightarrow> string + 'a"
  cl_enforcer :: "string \<Rightarrow> 'a option \<Rightarrow> string + 'e"

definition casbin_defaults :: "casbin_config \<Rightarrow> casbin_config" where
  "casbin_defaults c =
     c\<lparr>Adapter := (if Adapter c = [] then ''csv'' else Adapter c),
       TenantClaim := (if TenantClaim c = [] then ''tenant'' else TenantClaim c)\<rparr>"

definition postgres_adapter :: "('o, 'a, 'e) casbin_lib \<Rightarrow> casbin_config \<Rightarrow> string \<Rightarrow> string + 'a" where
  "postgres_adapter lib c dsn =
     (if Table c \<noteq> [] then
        bind_res (cl_parse lib dsn) (\<lambda>options.
          cl_by_db lib (if cb_Database c \<noteq> [] then options\<lparr>pg_Database := cb_Database c\<rparr> else options) (Table c))
      else cl_by_dsn lib dsn (if cb_Database c \<noteq> [] then [cb_Database c] else []))"

text \<open>\<open>path\<close> is \<open>s.configPath\<close>, \<open>sqldsn\<close> the DSN of the section \<open>sql\<close>. The section itself is written to.\<close>

definition casbin_setup ::
  "('o, 'a, 'e) casbin_lib \<Rightarrow> (string \<Rightarrow> string) \<Rightarrow> string \<Rightarrow> casbin_config \<Rightarrow> (string + 'e option) \<times> casbin_config" where
  "casbin_setup lib path sqldsn c =
     (if ModelPath c = [] then (Inr None, c)
      else
        (let c' = casbin_defaults c; modelPath = path (ModelPath c'); kind = to_lower (Adapter c') in
         ((if kind \<in> {''csv'', ''cvs'', ''file''} then
             map_sum id Some (cl_enforcer lib modelPath
               (if PolicyPath c' = [] then None else Some (cl_file lib (path (PolicyPath c')))))
           else if kind \<in> {''postgres'', ''postgresql''} then
             (let dsn = (if cb_DSN c' = [] then sqldsn else cb_DSN c') in
              if dsn = [] then Inl ''casbin postgres adapter requires casbin.dsn or sql.dsn''
              else bind_res (postgres_adapter lib c' dsn) (\<lambda>adapter. map_sum id Some (cl_enforcer lib modelPath (Some adapter))))
           else Inl (''unsupported casbin adapter: '' @ Adapter c')),
          c')))"

subsection \<open>Redis, SQL, S3 and HTTP\<close>

record redis_config =
  rd_URL :: string
  rd_ClusterURL :: string

datatype 'o redis_client = Single 'o | Cluster 'o

definition redis_connect ::
  "(string \<Rightarrow> string + 'o) \<Rightarrow> (string \<Rightarrow> string + 'o) \<Rightarrow> redis_config \<Rightarrow> string + 'o redis_client option" where
  "redis_connect parse parse_cluster c =
     (if rd_URL c \<noteq> [] then map_sum id (Some \<circ> Single) (parse (rd_URL c))
      else if rd_ClusterURL c \<noteq> [] then map_sum id (Some \<circ> Cluster) (parse_cluster (rd_ClusterURL c))
      else Inr None)"

record sql_config =
  Driver :: string
  DSN :: string
  AllowMigrate :: "bool option"

text \<open>The name of a temporary file is joined and not used.\<close>

definition sql_connect :: "(string \<Rightarrow> string \<Rightarrow> string + 'd) \<Rightarrow> sql_config \<Rightarrow> (string + 'd option) \<times> sql_config" where
  "sql_connect opendb c =
     (if Driver c = [] then (Inr None, c)
      else
        (let c' = (if Driver c = ''sqlite'' \<and> DSN c = [] then c\<lparr>AllowMigrate := Some True\<rparr> else c) in
         (map_sum id Some (opendb (Driver c') (DSN c')), c')))"

record s3_static =
  BaseEndpoint :: string
  s3_Key :: string
  s3_Secret :: string
  s3_Session :: string
  UsePathStyle :: bool

record s3_config =
  AWSRegion :: string
  Static :: "s3_static option"

text \<open>What the library is asked for: the region or the credentials, and the options of the client.\<close>

datatype s3_load = WithRegion string | WithCredentials string string string

definition s3_setup ::
  "(s3_load \<Rightarrow> string + 'c) \<Rightarrow> s3_config \<Rightarrow> string + ('c \<times> (string \<times> bool) option) option" where
  "s3_setup load c =
     (if AWSRegion c \<noteq> [] then map_sum id (\<lambda>cfg. Some (cfg, None)) (load (WithRegion ''ap-northeast-1''))
      else
        (case Static c of
           Some st \<Rightarrow>
             map_sum id (\<lambda>cfg. Some (cfg, Some (BaseEndpoint st, UsePathStyle st)))
               (load (WithCredentials (s3_Key st) (s3_Secret st) (s3_Session st)))
         | None \<Rightarrow> Inr None))"

record http_client_config =
  Timeout :: int
  MaxIdleConns :: int
  MaxIdleConnsPerHost :: int
  IdleConnTimeout :: int

text \<open>The client: its timeout and, unless it is the default one, the three numbers of its transport.\<close>

definition httpclient_setup :: "http_client_config \<Rightarrow> int \<times> (int \<times> int \<times> int) option" where
  "httpclient_setup c =
     (Timeout c,
      if MaxIdleConns c \<noteq> 0 \<or> MaxIdleConnsPerHost c \<noteq> 0 \<or> IdleConnTimeout c \<noteq> 0
      then Some (MaxIdleConns c, MaxIdleConnsPerHost c, IdleConnTimeout c) else None)"

subsection \<open>One client for each host\<close>

text \<open>
  \<open>getHostClient\<close> with several callers: each loads the map, and if it finds nothing makes a client and stores it unless
  another was there first. Clients are the numbers of their allocations. \<open>sync.Map\<close> makes each of the two one step.
\<close>

datatype host_call = Calling string | Made string nat | Got string nat

record host_world =
  hw_map :: "string \<rightharpoonup> nat"
  hw_next :: nat
  hw_calls :: "host_call list"

definition host_load :: "nat \<Rightarrow> host_world \<Rightarrow> host_world" where
  "host_load i w =
     (case hw_calls w ! i of
        Calling host \<Rightarrow>
          (case hw_map w host of
             Some c \<Rightarrow> w\<lparr>hw_calls := (hw_calls w)[i := Got host c]\<rparr>
           | None \<Rightarrow> w\<lparr>hw_next := Suc (hw_next w), hw_calls := (hw_calls w)[i := Made host (hw_next w)]\<rparr>)
      | _ \<Rightarrow> w)"

definition host_store :: "nat \<Rightarrow> host_world \<Rightarrow> host_world" where
  "host_store i w =
     (case hw_calls w ! i of
        Made host c \<Rightarrow>
          (case hw_map w host of
             Some a \<Rightarrow> w\<lparr>hw_calls := (hw_calls w)[i := Got host a]\<rparr>
           | None \<Rightarrow> w\<lparr>hw_map := (hw_map w)(host \<mapsto> c), hw_calls := (hw_calls w)[i := Got host c]\<rparr>)
      | _ \<Rightarrow> w)"

inductive host_step :: "host_world \<Rightarrow> host_world \<Rightarrow> bool" where
  call: "host_step w (w\<lparr>hw_calls := hw_calls w @ [Calling host]\<rparr>)"
| load: "i < length (hw_calls w) \<Longrightarrow> host_step w (host_load i w)"
| store: "i < length (hw_calls w) \<Longrightarrow> host_step w (host_store i w)"

definition no_hosts :: host_world where
  "no_hosts = \<lparr>hw_map = Map.empty, hw_next = 0, hw_calls = []\<rparr>"

inductive hosts_reachable :: "host_world \<Rightarrow> bool" where
  start: "hosts_reachable no_hosts"
| step: "hosts_reachable w \<Longrightarrow> host_step w w' \<Longrightarrow> hosts_reachable w'"

inductive_cases host_stepE: "host_step w w'"

subsection \<open>Web sockets\<close>

record websocket_config =
  HandshakeTimeout :: int
  Subprotocols :: "string list"
  Origins :: "string list"
  ReadBufferSize :: int
  WriteBufferSize :: int

text \<open>The library's configuration has a plain switch for compression, the program's one that may be absent.\<close>

definition ToFiberWebSocketConfig :: "websocket_config \<times> bool option \<Rightarrow> (websocket_config \<times> bool) option" where
  "ToFiberWebSocketConfig cfg = (case cfg of (c, Some b) \<Rightarrow> Some (c, b) | (c, None) \<Rightarrow> None)"

definition ws_config :: "websocket_config \<times> bool option \<Rightarrow> (websocket_config \<times> bool) list \<Rightarrow> websocket_config \<times> bool" where
  "ws_config server c =
     (let (cfg, compress) = (case c of x # _ \<Rightarrow> x | [] \<Rightarrow> (\<lparr>HandshakeTimeout = 0, Subprotocols = [], Origins = [],
            ReadBufferSize = 0, WriteBufferSize = 0\<rparr>, False));
          (s, enable) = server in
      (\<lparr>HandshakeTimeout = (if HandshakeTimeout cfg = 0 then HandshakeTimeout s else HandshakeTimeout cfg),
        Subprotocols = (if Subprotocols cfg = [] then Subprotocols s else Subprotocols cfg),
        Origins = (if Origins cfg = [] then Origins s else Origins cfg),
        ReadBufferSize = (if ReadBufferSize cfg = 0 then ReadBufferSize s else ReadBufferSize cfg),
        WriteBufferSize = (if WriteBufferSize cfg = 0 then WriteBufferSize s else WriteBufferSize cfg)\<rparr>,
       case enable of Some b \<Rightarrow> b | None \<Rightarrow> compress))"

text \<open>
  The handler in front of the upgrade. \<open>request\<close> is the handler of the program, with the functions it defers; \<open>upgrade\<close> is \<open>c.Next()\<close>.
  The error of the handler is not passed on: the answer is the one built so far.
\<close>

definition ws_request ::
  "('w \<Rightarrow> string option \<times> ('w \<Rightarrow> string option \<times> 'w) list \<times> 'w) \<Rightarrow> ('w \<Rightarrow> string option \<times> 'w) \<Rightarrow> 'w \<Rightarrow> string option \<times> 'w" where
  "ws_request request upgrade w =
     (case request w of
        (Some e, deferfn, w1) \<Rightarrow> (None, do_defer deferfn w1)
      | (None, deferfn, w1) \<Rightarrow> (case upgrade w1 of (r, w2) \<Rightarrow> (r, do_defer deferfn w2)))"

subsection \<open>Paths\<close>

lemma split_on_append: "split_on c (a @ c # b) = split_on c a @ split_on c b"
proof (induction a)
  case (Cons x a)
  then show ?case by (cases "split_on c a") auto
qed simp

definition plain_elem :: "string \<Rightarrow> bool" where
  "plain_elem e \<longleftrightarrow> e \<noteq> [] \<and> e \<noteq> ''.''"

lemma clean_elems_plain:
  "''..'' \<notin> set es \<Longrightarrow> clean_elems rooted kept (ds @ es) = clean_elems rooted kept ds @ filter plain_elem es"
proof (induction rooted kept ds rule: clean_elems.induct)
  case (1 rooted kept)
  then show ?case by (induction es arbitrary: kept) (auto simp: plain_elem_def)
next
  case (2 rooted kept e ds)
  then show ?case by (cases kept) auto
qed

text \<open>A file named in the configuration stays under the directory of the configuration, or else the one of the program, when its
  path is not absolute and does not go up.\<close>

theorem config_path_stays_inside:
  assumes "path \<noteq> []" "\<not> IsAbs path" "''..'' \<notin> set (split_on CHR ''/'' path)" "dir = (if ConfigDir \<noteq> [] then ConfigDir else AbsWorkDir)" "dir \<noteq> []"
  shows "\<exists>p. configPath ConfigDir AbsWorkDir path = Clean p \<and> IsAbs p = IsAbs dir \<and>
    clean_elems (IsAbs p) [] (split_on CHR ''/'' p) =
      clean_elems (IsAbs dir) [] (split_on CHR ''/'' dir) @ filter plain_elem (split_on CHR ''/'' path)"
proof -
  let ?p = "dir @ ''/'' @ path"
  have abs: "IsAbs ?p = IsAbs dir" using assms(5) by (simp add: IsAbs_def)
  have "configPath ConfigDir AbsWorkDir path = Clean ?p"
    using assms by (auto simp: configPath_def Join_def)
  moreover have "clean_elems (IsAbs dir) [] (split_on CHR ''/'' ?p) =
      clean_elems (IsAbs dir) [] (split_on CHR ''/'' dir) @ filter plain_elem (split_on CHR ''/'' path)"
    using clean_elems_plain [OF assms(3)] by (simp add: split_on_append)
  ultimately show ?thesis using abs by (intro exI [of _ ?p]) simp
qed

subsection \<open>Access control and its enforcer\<close>

lemma some_client: "map_sum id Some r = Inr x \<Longrightarrow> x \<noteq> None"
  by (cases r) auto

lemma bind_some_client: "bind_res r (\<lambda>a. map_sum id Some (g a)) = Inr x \<Longrightarrow> x \<noteq> None"
  by (cases r) (auto dest: some_client)

text \<open>Without a model there is no enforcer, and then every function that names a resource is refused, whoever calls it; with one there is an
  enforcer or the start fails, and the claim that holds the tenant has a name.\<close>

theorem no_model_no_access:
  assumes "casbin_setup lib path sqldsn c = (Inr enf, c')"
  shows "(enf = None \<longleftrightarrow> ModelPath c = []) \<and>
    (enf = None \<longrightarrow> (\<forall>opt user tenant input. ACLResource opt \<noteq> [] \<longrightarrow>
       enforceACL (Some opt) (map_option enforce enf) user tenant input = Some ErrCasbinNotConfigured)) \<and>
    (enf \<noteq> None \<longrightarrow> TenantClaim c' \<noteq> [] \<and>
       (to_lower (Adapter c') \<in> {''csv'', ''cvs'', ''file'', ''postgres'', ''postgresql''}))"
proof -
  have "(enf = None \<longleftrightarrow> ModelPath c = []) \<and> (enf \<noteq> None \<longrightarrow> TenantClaim c' \<noteq> [] \<and>
       (to_lower (Adapter c') \<in> {''csv'', ''cvs'', ''file'', ''postgres'', ''postgresql''}))"
  proof (cases "ModelPath c = []")
    case True
    then show ?thesis using assms by (simp add: casbin_setup_def)
  next
    case False
    let ?r = "fst (casbin_setup lib path sqldsn c)"
    have c': "c' = casbin_defaults c" using assms False by (simp add: casbin_setup_def Let_def)
    have "enf \<noteq> None \<and> to_lower (Adapter c') \<in> {''csv'', ''cvs'', ''file'', ''postgres'', ''postgresql''}"
      using assms False unfolding casbin_setup_def Let_def c'
      by (simp split: if_splits) (auto dest: some_client bind_some_client)
    then show ?thesis using False c' by (simp add: casbin_defaults_def)
  qed
  moreover have "enf = None \<longrightarrow> (\<forall>opt user tenant input. ACLResource opt \<noteq> [] \<longrightarrow>
       enforceACL (Some opt) (map_option enforce enf) user tenant input = Some ErrCasbinNotConfigured)"
    by (simp add: enforceACL_def)
  ultimately show ?thesis by blast
qed

subsection \<open>Clients\<close>

text \<open>The name of the temporary database is dropped: SQLite is opened with an empty name and leave to make its tables. The region of S3 is not
  read, and a static configuration beside a region is not used.\<close>

theorem sqlite_file_is_dropped:
  "sql_connect opendb \<lparr>Driver = ''sqlite'', DSN = [], AllowMigrate = m\<rparr> =
     (map_sum id Some (opendb ''sqlite'' []), \<lparr>Driver = ''sqlite'', DSN = [], AllowMigrate = Some True\<rparr>)"
  by (simp add: sql_connect_def)

theorem s3_region_is_fixed:
  "r \<noteq> [] \<Longrightarrow> r' \<noteq> [] \<Longrightarrow> s3_setup load \<lparr>AWSRegion = r, Static = s\<rparr> = s3_setup load \<lparr>AWSRegion = r', Static = s'\<rparr>"
  by (simp add: s3_setup_def)

lemma redis_prefers_single: "rd_URL c \<noteq> [] \<Longrightarrow> redis_connect p q c = redis_connect p q' (c\<lparr>rd_ClusterURL := u\<rparr>)"
  by (simp add: redis_connect_def)

subsection \<open>One client for each host\<close>

text \<open>What a caller got is in the map; a number names one client: the map has it at most once, and a client that was made and not
  stored is not in the map and held by one call.\<close>

definition got_inv :: "host_world \<Rightarrow> bool" where
  "got_inv w \<longleftrightarrow> (\<forall>i < length (hw_calls w). \<forall>host c. hw_calls w ! i = Got host c \<longrightarrow> hw_map w host = Some c)"

definition map_inv :: "host_world \<Rightarrow> bool" where
  "map_inv w \<longleftrightarrow> (\<forall>host c. hw_map w host = Some c \<longrightarrow> c < hw_next w \<and> (\<forall>host'. hw_map w host' = Some c \<longrightarrow> host' = host))"

definition made_inv :: "host_world \<Rightarrow> bool" where
  "made_inv w \<longleftrightarrow> (\<forall>i < length (hw_calls w). \<forall>host c. hw_calls w ! i = Made host c \<longrightarrow>
     c < hw_next w \<and> (\<forall>h. hw_map w h \<noteq> Some c) \<and> (\<forall>j < length (hw_calls w). \<forall>h. hw_calls w ! j = Made h c \<longrightarrow> j = i))"

lemmas host_invs = got_inv_def map_inv_def made_inv_def

lemma made_inv_mono:
  assumes "made_inv w" "hw_map w' = hw_map w" "hw_next w' = hw_next w"
    and "\<And>k h c. k < length (hw_calls w') \<Longrightarrow> hw_calls w' ! k = Made h c \<Longrightarrow> k < length (hw_calls w) \<and> hw_calls w ! k = Made h c"
  shows "made_inv w'"
  unfolding made_inv_def
proof (intro allI impI)
  fix k h c assume "k < length (hw_calls w')" "hw_calls w' ! k = Made h c"
  from assms(4) [OF this] assms(1) have "c < hw_next w \<and> (\<forall>h. hw_map w h \<noteq> Some c) \<and>
      (\<forall>j < length (hw_calls w). \<forall>h. hw_calls w ! j = Made h c \<longrightarrow> j = k)"
    unfolding made_inv_def by blast
  then show "c < hw_next w' \<and> (\<forall>h. hw_map w' h \<noteq> Some c) \<and> (\<forall>j < length (hw_calls w'). \<forall>h. hw_calls w' ! j = Made h c \<longrightarrow> j = k)"
    using assms(2-4) by auto
qed

lemma host_invs_call:
  assumes "got_inv w" "map_inv w" "made_inv w" "w' = w\<lparr>hw_calls := hw_calls w @ [Calling host]\<rparr>"
  shows "got_inv w'" "map_inv w'" "made_inv w'"
proof -
  show "got_inv w'" using assms(1) by (auto simp: got_inv_def assms(4) nth_append)
  show "map_inv w'" using assms(2) by (simp add: map_inv_def assms(4))
  have old: "k < length (hw_calls w') \<Longrightarrow> hw_calls w' ! k = Made h c \<Longrightarrow> k < length (hw_calls w) \<and> hw_calls w ! k = Made h c" for k h c
    using assms(4) by (cases "k < length (hw_calls w)") (auto simp: nth_append less_Suc_eq)
  show "made_inv w'" by (rule made_inv_mono [OF assms(3)]) (simp_all add: old assms(4))
qed

lemma host_invs_made:
  assumes "got_inv w" "map_inv w" "made_inv w" "i < length (hw_calls w)"
    and "w' = w\<lparr>hw_next := Suc (hw_next w), hw_calls := (hw_calls w)[i := Made host (hw_next w)]\<rparr>"
  shows "got_inv w'" "map_inv w'" "made_inv w'"
proof -
  show "got_inv w'" using assms(1,4) by (auto simp: got_inv_def assms(5) nth_list_update split: if_splits)
  show "map_inv w'" using assms(2) by (simp add: map_inv_def assms(5) less_Suc_eq)
  have fresh: "\<forall>h. hw_map w h \<noteq> Some (hw_next w)" using assms(2) by (auto simp: map_inv_def)
  have unused: "\<forall>j < length (hw_calls w). \<forall>h. hw_calls w ! j \<noteq> Made h (hw_next w)" using assms(3) by (auto simp: made_inv_def)
  show "made_inv w'"
    unfolding made_inv_def
  proof (intro allI impI)
    fix k h c
    assume k: "k < length (hw_calls w')" "hw_calls w' ! k = Made h c"
    show "c < hw_next w' \<and> (\<forall>h. hw_map w' h \<noteq> Some c) \<and> (\<forall>j < length (hw_calls w'). \<forall>h. hw_calls w' ! j = Made h c \<longrightarrow> j = k)"
    proof (cases "k = i")
      case True
      then show ?thesis using k fresh unused assms(4) by (simp add: assms(5) nth_list_update)
    next
      case False
      then have old: "hw_calls w ! k = Made h c" "k < length (hw_calls w)" using k by (simp_all add: assms(5))
      then have "c < hw_next w \<and> (\<forall>h. hw_map w h \<noteq> Some c) \<and> (\<forall>j < length (hw_calls w). \<forall>h. hw_calls w ! j = Made h c \<longrightarrow> j = k)"
        using assms(3) unfolding made_inv_def by blast
      then show ?thesis using assms(4) by (auto simp: assms(5) nth_list_update split: if_splits)
    qed
  qed
qed

text \<open>A call that is answered from the map.\<close>

lemma host_invs_got:
  assumes "got_inv w" "map_inv w" "made_inv w" "i < length (hw_calls w)" "hw_map w host = Some c"
    and "w' = w\<lparr>hw_calls := (hw_calls w)[i := Got host c]\<rparr>"
  shows "got_inv w'" "map_inv w'" "made_inv w'"
proof -
  show "got_inv w'" using assms(1,4,5) by (auto simp: got_inv_def assms(6) nth_list_update split: if_splits)
  show "map_inv w'" using assms(2) by (simp add: map_inv_def assms(6))
  show "made_inv w'"
    by (rule made_inv_mono [OF assms(3)]) (use assms(4) in \<open>auto simp: assms(6) nth_list_update split: if_splits\<close>)
qed

lemma host_invs_stored:
  assumes "got_inv w" "map_inv w" "made_inv w" "i < length (hw_calls w)" "hw_calls w ! i = Made host c" "hw_map w host = None"
    and "w' = w\<lparr>hw_map := (hw_map w)(host \<mapsto> c), hw_calls := (hw_calls w)[i := Got host c]\<rparr>"
  shows "got_inv w'" "map_inv w'" "made_inv w'"
proof -
  have c: "c < hw_next w" "\<forall>h. hw_map w h \<noteq> Some c" and only: "\<forall>j < length (hw_calls w). \<forall>h. hw_calls w ! j = Made h c \<longrightarrow> j = i"
    using assms(3-5) unfolding made_inv_def by blast+
  show "got_inv w'"
    unfolding got_inv_def
  proof (intro allI impI)
    fix k h c' assume "k < length (hw_calls w')" "hw_calls w' ! k = Got h c'"
    then show "hw_map w' h = Some c'"
      using assms(1,4,6) by (cases "k = i") (auto simp: got_inv_def assms(7))
  qed
  show "map_inv w'" using assms(2) c by (auto simp: map_inv_def assms(7))
  show "made_inv w'"
    unfolding made_inv_def
  proof (intro allI impI)
    fix k h c' assume k: "k < length (hw_calls w')" "hw_calls w' ! k = Made h c'"
    then have ne: "k \<noteq> i" using assms(4) by (auto simp: assms(7))
    then have old: "hw_calls w ! k = Made h c'" "k < length (hw_calls w)" using k by (simp_all add: assms(7))
    then have "c' \<noteq> c" using only ne by blast
    moreover have "c' < hw_next w \<and> (\<forall>h. hw_map w h \<noteq> Some c') \<and> (\<forall>j < length (hw_calls w). \<forall>h. hw_calls w ! j = Made h c' \<longrightarrow> j = k)"
      using assms(3) old unfolding made_inv_def by blast
    ultimately show "c' < hw_next w' \<and> (\<forall>h. hw_map w' h \<noteq> Some c') \<and> (\<forall>j < length (hw_calls w'). \<forall>h. hw_calls w' ! j = Made h c' \<longrightarrow> j = k)"
      using assms(4) by (auto simp: assms(7) nth_list_update split: if_splits)
  qed
qed

lemma host_invs_step:
  assumes "got_inv w" "map_inv w" "made_inv w" "host_step w w'"
  shows "got_inv w' \<and> map_inv w' \<and> made_inv w'"
  using assms(4)
proof cases
  case (call host)
  then show ?thesis using host_invs_call [OF assms(1-3)] by blast
next
  case (load i)
  show ?thesis
  proof (cases "hw_calls w ! i")
    case (Calling host)
    then show ?thesis
      using host_invs_made [OF assms(1-3) load(2)] host_invs_got [OF assms(1-3) load(2)] load(1)
      by (cases "hw_map w host") (auto simp: host_load_def)
  qed (use assms load in \<open>simp_all add: host_load_def\<close>)
next
  case (store i)
  show ?thesis
  proof (cases "hw_calls w ! i")
    case (Made host c)
    then show ?thesis
      using host_invs_stored [OF assms(1-3) store(2) Made] host_invs_got [OF assms(1-3) store(2)] store(1)
      by (cases "hw_map w host") (auto simp: host_store_def)
  qed (use assms store in \<open>simp_all add: host_store_def\<close>)
qed

lemma hosts_reachable_inv: "hosts_reachable w \<Longrightarrow> got_inv w \<and> map_inv w \<and> made_inv w"
proof (induction rule: hosts_reachable.induct)
  case start
  show ?case by (simp add: host_invs no_hosts_def)
next
  case (step w w')
  then show ?case using host_invs_step by blast
qed

text \<open>Whatever the interleaving, two calls get the same client if and only if they ask for the same host, and a call needs no more than two
  steps of its own.\<close>

theorem host_clients_are_shared:
  assumes "hosts_reachable w" "i < length (hw_calls w)" "j < length (hw_calls w)"
    and "hw_calls w ! i = Got host c" "hw_calls w ! j = Got host' c'"
  shows "c = c' \<longleftrightarrow> host = host'"
proof -
  have "hw_map w host = Some c" "hw_map w host' = Some c'"
    using hosts_reachable_inv [OF assms(1)] assms(2-5) unfolding got_inv_def by blast+
  then show ?thesis using hosts_reachable_inv [OF assms(1)] unfolding map_inv_def by force
qed

lemma host_call_returns:
  assumes "i < length (hw_calls w)"
  shows "hw_calls w ! i = Made host c \<Longrightarrow> \<exists>a. hw_calls (host_store i w) ! i = Got host a"
    and "hw_calls w ! i = Calling host \<Longrightarrow> \<exists>a. hw_calls (host_load i w) ! i \<in> {Got host a, Made host a}"
  using assms by (auto simp: host_store_def host_load_def split: option.splits)

subsection \<open>Web sockets\<close>

text \<open>A handler's own configuration wins over the server's, except for compression, where the server's wins. A handler that refuses a
  connection ends it without an upgrade and without its error: the answer is the empty one.\<close>

theorem websocket_settings:
  "ws_config (s, enable) [(cfg, compress)] =
     (\<lparr>HandshakeTimeout = (if HandshakeTimeout cfg = 0 then HandshakeTimeout s else HandshakeTimeout cfg),
       Subprotocols = (if Subprotocols cfg = [] then Subprotocols s else Subprotocols cfg),
       Origins = (if Origins cfg = [] then Origins s else Origins cfg),
       ReadBufferSize = (if ReadBufferSize cfg = 0 then ReadBufferSize s else ReadBufferSize cfg),
       WriteBufferSize = (if WriteBufferSize cfg = 0 then WriteBufferSize s else WriteBufferSize cfg)\<rparr>,
      (if enable = None then compress else the enable)) \<and>
   (fst (request w) \<noteq> None \<longrightarrow> ws_request request upgrade w = (None, do_defer (fst (snd (request w))) (snd (snd (request w)))))"
  by (auto simp: ws_config_def ws_request_def split: option.splits prod.splits)

subsection \<open>Examples\<close>

theorem host_clients_are_shared_witness:
  "\<exists>w. hosts_reachable w \<and> hw_calls w ! 0 = Got ''a'' 0 \<and> hw_calls w ! 1 = Got ''a'' 0 \<and> hw_next w = 2 \<and> ((0::nat) = 0 \<longleftrightarrow> ''a'' = ''a'')"
proof -
  let ?call = "\<lambda>w. w\<lparr>hw_calls := hw_calls w @ [Calling ''a'']\<rparr>"
  let ?w = "host_store 1 (host_store 0 (host_load 1 (host_load 0 (?call (?call no_hosts)))))"
  have calls: "hw_calls ?w = [Got ''a'' 0, Got ''a'' 0]" "hw_next ?w = 2"
    by (simp_all add: host_store_def host_load_def no_hosts_def)
  have "hosts_reachable ?w"
    by (intro hosts_reachable.step [OF _ host_step.store] hosts_reachable.step [OF _ host_step.load]
        hosts_reachable.step [OF _ host_step.call] hosts_reachable.start)
      (simp_all add: host_store_def host_load_def no_hosts_def)
  with host_clients_are_shared [OF this, of 0 1 "''a''" 0 "''a''" 0] calls show ?thesis
    by (intro exI [of _ ?w]) simp
qed

theorem config_path_stays_inside_witness:
  "configPath ''/etc/app'' [] ''acl/model.conf'' = ''/etc/app/acl/model.conf''"
proof -
  have "''..'' \<notin> set (split_on CHR ''/'' ''acl/model.conf'')" by simp
  then obtain p where p: "configPath ''/etc/app'' [] ''acl/model.conf'' = Clean p" "IsAbs p = IsAbs ''/etc/app''"
    "clean_elems (IsAbs p) [] (split_on CHR ''/'' p) =
      clean_elems (IsAbs ''/etc/app'') [] (split_on CHR ''/'' ''/etc/app'') @ filter plain_elem (split_on CHR ''/'' ''acl/model.conf'')"
    using config_path_stays_inside [of "''acl/model.conf''" "''/etc/app''" "''/etc/app''" "[]"] by (auto simp: IsAbs_def)
  then show ?thesis by (simp add: Clean_def IsAbs_def plain_elem_def)
qed

theorem no_model_no_access_witness:
  "enforceACL (Some \<lparr>ACLResource = ''doc'', ACLAction = []\<rparr>) None (Inr ''u'') (Inr ''t'') GNil = Some ErrCasbinNotConfigured"
proof -
  let ?lib = "\<lparr>cl_file = (\<lambda>_. ()), cl_parse = (\<lambda>_. Inl ''x''), cl_by_db = (\<lambda>_ _. Inr ()), cl_by_dsn = (\<lambda>_ _. Inr ()),
    cl_enforcer = (\<lambda>_ _. Inr ())\<rparr> :: (unit, unit, unit) casbin_lib"
  let ?c = "\<lparr>ModelPath = [], PolicyPath = [], Adapter = [], cb_DSN = [], cb_Database = [], Table = [], TenantClaim = []\<rparr>"
  have "casbin_setup ?lib id [] ?c = (Inr None, ?c)" by (simp add: casbin_setup_def)
  from no_model_no_access [OF this] show ?thesis by simp
qed

theorem s3_region_is_fixed_witness:
  "s3_setup Inr \<lparr>AWSRegion = ''eu-west-1'', Static = None\<rparr> = s3_setup Inr \<lparr>AWSRegion = ''us-east-1'', Static = None\<rparr>"
  by (rule s3_region_is_fixed) simp_all

end
