(* ===== verification/Log_Setup.thy ===== *)
theory Log_Setup
  imports Config_Values
begin

section \<open>Logs and the progress display\<close>

text \<open>
  \<open>serve_log.go\<close>: how the configuration becomes the cores of the logger and the writers of the access log; and the display of
  \<open>serve_cli_app.go\<close>, which keeps the last lines. Loggers that rotate are objects; they are numbered in the order they are made. Cron,
  files and the levels and encoders of zap are arguments.
\<close>

subsection \<open>Rotation\<close>

record rotate_config =
  rt_Cron :: "string option"
  rt_Filename :: string
  rt_MaxSize :: int
  rt_MaxAge :: time
  rt_MaxBackups :: int
  rt_LocalTime :: bool
  rt_Compress :: bool
  rt_logger :: "nat option"

record lumberjack =
  lj_Filename :: string
  lj_MaxSize :: int
  lj_MaxAge :: int
  lj_MaxBackups :: int
  lj_LocalTime :: bool
  lj_Compress :: bool

text \<open>The loggers made so far, the entries of cron (each with the section whose file it rotates) and the files that were opened.\<close>

record log_state =
  ls_loggers :: "lumberjack list"
  ls_cron :: "(string \<times> rotate_config) list"
  ls_files :: "string list"

definition day :: time where
  "day = 24 * 3600 * 1000000000"

text \<open>\<open>math.Ceil(cfg.MaxAge.Hours() / 24.0)\<close>, over exact fractions.\<close>

definition age_days :: "time \<Rightarrow> int" where
  "age_days age = - ((- age) div day)"

text \<open>The receiver of \<open>ToLogger\<close> is a copy: the logger is remembered in the copy, so the section that was asked does not change.\<close>

definition ToLogger :: "rotate_config \<Rightarrow> log_state \<Rightarrow> nat \<times> log_state" where
  "ToLogger cfg st =
     (case rt_logger cfg of
        Some l \<Rightarrow> (l, st)
      | None \<Rightarrow>
          (length (ls_loggers st),
           st\<lparr>ls_loggers := ls_loggers st @
             [\<lparr>lj_Filename = rt_Filename cfg, lj_MaxSize = Megabytes (rt_MaxSize cfg), lj_MaxAge = age_days (rt_MaxAge cfg),
               lj_MaxBackups = rt_MaxBackups cfg, lj_LocalTime = rt_LocalTime cfg, lj_Compress = rt_Compress cfg\<rparr>]\<rparr>))"

subsection \<open>Writers\<close>

text \<open>\<open>NilWriter\<close> is the nil interface.\<close>

datatype writer = NilWriter | Stdout | Stderr | FileWriter string | RotateWriter nat

record 'enc log_output =
  lo_To :: string
  lo_Level :: "string option"
  lo_Format :: "string option"
  lo_Encoder :: "'enc option"
  lo_Path :: string
  lo_Rotate :: "rotate_config option"

text \<open>\<open>ll_cron\<close> and \<open>ll_open\<close> are the errors of \<open>AddFunc\<close> and \<open>OpenFile\<close>; \<open>ll_production\<close> is the production encoder with ISO times.\<close>

record ('enc, 'lvl) log_lib =
  ll_cron :: "string \<Rightarrow> string option"
  ll_open :: "string \<Rightarrow> string option"
  ll_level :: "string \<Rightarrow> string + 'lvl"
  ll_debug :: 'lvl
  ll_info :: 'lvl
  ll_production :: 'enc

definition add_rotation :: "('enc, 'lvl) log_lib \<Rightarrow> rotate_config \<Rightarrow> log_state \<Rightarrow> string option \<times> log_state" where
  "add_rotation lib r st =
     (case rt_Cron r of
        None \<Rightarrow> (None, st)
      | Some spec \<Rightarrow>
          (case ll_cron lib spec of
             Some e \<Rightarrow> (Some e, st)
           | None \<Rightarrow> (None, st\<lparr>ls_cron := ls_cron st @ [(spec, r)]\<rparr>)))"

definition logWriter :: "('enc, 'lvl) log_lib \<Rightarrow> 'enc log_output \<Rightarrow> log_state \<Rightarrow> (string + writer) \<times> log_state" where
  "logWriter lib c st =
     (if lo_To c = ''file'' then
        (case lo_Rotate c of
           Some r \<Rightarrow>
             (case add_rotation lib r st of
                (Some e, st1) \<Rightarrow> (Inl e, st1)
              | (None, st1) \<Rightarrow> (case ToLogger r st1 of (l, st2) \<Rightarrow> (Inr (RotateWriter l), st2)))
         | None \<Rightarrow>
             (case ll_open lib (lo_Path c) of
                Some e \<Rightarrow> (Inl e, st)
              | None \<Rightarrow> (Inr (FileWriter (lo_Path c)), st\<lparr>ls_files := ls_files st @ [lo_Path c]\<rparr>)))
      else if lo_To c = ''stdout'' then (Inr Stdout, st)
      else if lo_To c = ''stderr'' then (Inr Stderr, st)
      else (Inr NilWriter, st))"

text \<open>What the entry of cron does when its time has come: the number of the logger it rotates.\<close>

definition cron_rotate :: "string \<times> rotate_config \<Rightarrow> log_state \<Rightarrow> nat \<times> log_state" where
  "cron_rotate entry st = ToLogger (snd entry) st"

fun cron_rotations :: "(string \<times> rotate_config) list \<Rightarrow> log_state \<Rightarrow> nat list \<times> log_state" where
  "cron_rotations [] st = ([], st)"
| "cron_rotations (e # es) st =
     (case cron_rotate e st of (l, st1) \<Rightarrow> (case cron_rotations es st1 of (ls, st2) \<Rightarrow> (l # ls, st2)))"

subsection \<open>The logger\<close>

record ('enc, 'lvl) log_core =
  co_json :: bool
  co_encoder :: 'enc
  co_writer :: writer
  co_level :: 'lvl

definition log_level :: "('enc, 'lvl) log_lib \<Rightarrow> bool \<Rightarrow> 'enc log_output \<Rightarrow> string + 'lvl" where
  "log_level lib debug c =
     (case lo_Level c of Some l \<Rightarrow> ll_level lib l | None \<Rightarrow> Inr (if debug then ll_debug lib else ll_info lib))"

definition loadErrLogConfig ::
  "('enc, 'lvl) log_lib \<Rightarrow> bool \<Rightarrow> 'enc log_output \<Rightarrow> log_state \<Rightarrow> (string + ('enc, 'lvl) log_core) \<times> log_state" where
  "loadErrLogConfig lib debug c st =
     (case logWriter lib c st of
        (Inl e, st1) \<Rightarrow> (Inl e, st1)
      | (Inr w, st1) \<Rightarrow>
          (map_sum id
             (\<lambda>level. \<lparr>co_json = (lo_Format c = Some ''json''),
               co_encoder = (case lo_Encoder c of Some e \<Rightarrow> e | None \<Rightarrow> ll_production lib), co_writer = w, co_level = level\<rparr>)
             (log_level lib debug c),
           st1))"

text \<open>The first error ends the loops of \<open>loadErrLogConfigAll\<close> and \<open>loadAccessLogConfigAll\<close>.\<close>

fun load_outputs :: "('c \<Rightarrow> log_state \<Rightarrow> (string + 'w) \<times> log_state) \<Rightarrow> 'c list \<Rightarrow> log_state \<Rightarrow> (string + 'w list) \<times> log_state" where
  "load_outputs load [] st = (Inr [], st)"
| "load_outputs load (c # cs) st =
     (case load c st of
        (Inl e, st1) \<Rightarrow> (Inl e, st1)
      | (Inr w, st1) \<Rightarrow> (case load_outputs load cs st1 of (r, st2) \<Rightarrow> (map_sum id ((#) w) r, st2)))"

definition loadErrLogConfigAll ::
  "('enc, 'lvl) log_lib \<Rightarrow> bool \<Rightarrow> 'enc log_output list \<Rightarrow> log_state \<Rightarrow> (string + ('enc, 'lvl) log_core list) \<times> log_state" where
  "loadErrLogConfigAll lib debug cs st = load_outputs (loadErrLogConfig lib debug) cs st"

text \<open>The middleware of the access log is the list of its writers; \<open>None\<close> when there is none.\<close>

definition loadAccessLogConfigAll ::
  "('enc, 'lvl) log_lib \<Rightarrow> 'enc log_output list \<Rightarrow> log_state \<Rightarrow> (string + writer list option) \<times> log_state" where
  "loadAccessLogConfigAll lib cs st =
     (case load_outputs (logWriter lib) cs st of
        (r, st1) \<Rightarrow> (map_sum id (\<lambda>ws. if ws = [] then None else Some ws) r, st1))"

record zap_config =
  AddCaller :: bool
  AddCallerSkip :: int
  AddStacktrace :: "string option"

datatype 'lvl zap_option = Caller | CallerSkip int | Stacktrace 'lvl

record 'enc log_config =
  lc_Zap :: zap_config
  lc_AccessLog :: "'enc log_output list"
  lc_ErrorLog :: "'enc log_output list"

definition zap_options :: "('enc, 'lvl) log_lib \<Rightarrow> zap_config \<Rightarrow> string + 'lvl zap_option list" where
  "zap_options lib z =
     (let opts = (if AddCaller z then [Caller] else []) @ (if AddCallerSkip z \<noteq> 0 then [CallerSkip (AddCallerSkip z)] else []) in
      case AddStacktrace z of
        None \<Rightarrow> Inr opts
      | Some l \<Rightarrow> map_sum id (\<lambda>level. opts @ [Stacktrace level]) (ll_level lib l))"

definition log_Setup ::
  "('enc, 'lvl) log_lib \<Rightarrow> bool \<Rightarrow> 'enc log_config \<Rightarrow> log_state \<Rightarrow>
    (string + (('enc, 'lvl) log_core list \<times> 'lvl zap_option list) \<times> writer list option) \<times> log_state" where
  "log_Setup lib debug c st =
     (case loadErrLogConfigAll lib debug (lc_ErrorLog c) st of
        (Inl e, st1) \<Rightarrow> (Inl e, st1)
      | (Inr cores, st1) \<Rightarrow>
          (case zap_options lib (lc_Zap c) of
             Inl e \<Rightarrow> (Inl e, st1)
           | Inr opts \<Rightarrow>
               (case loadAccessLogConfigAll lib (lc_AccessLog c) st1 of
                  (Inl e, st2) \<Rightarrow> (Inl e, st2)
                | (Inr access, st2) \<Rightarrow> (Inr ((cores, opts), access), st2))))"

subsection \<open>The progress display\<close>

definition zLOGLINES :: nat where
  "zLOGLINES = 8"

record 'p cli_model =
  cm_progress :: 'p
  cm_current :: int
  cm_total :: int
  cm_logidx :: nat
  cm_logs :: "string list"

datatype 'f cli_msg = LogMsg string | ProgressMsg rat int int | CloseMsg | FrameMsg 'f | OtherMsg

datatype 'c cli_cmd = WaitForLog | BarCmd 'c | Quit | NoCmd

text \<open>The bar: what it becomes and the command it asks for.\<close>

record ('p, 'f, 'c) bar_lib =
  bl_set :: "rat \<Rightarrow> 'p \<Rightarrow> 'p \<times> 'c"
  bl_frame :: "'f \<Rightarrow> 'p \<Rightarrow> 'p \<times> 'c"
  bl_view :: "'p \<Rightarrow> string"

definition new_cli_model :: "'p \<Rightarrow> 'p cli_model" where
  "new_cli_model p = \<lparr>cm_progress = p, cm_current = 0, cm_total = 0, cm_logidx = 0, cm_logs = replicate zLOGLINES []\<rparr>"

fun cli_Update :: "('p, 'f, 'c) bar_lib \<Rightarrow> 'f cli_msg \<Rightarrow> 'p cli_model \<Rightarrow> 'p cli_model \<times> 'c cli_cmd" where
  "cli_Update lib (LogMsg line) m =
     (m\<lparr>cm_logs := (cm_logs m)[cm_logidx m := line],
        cm_logidx := (if zLOGLINES \<le> cm_logidx m + 1 then 0 else cm_logidx m + 1)\<rparr>, WaitForLog)"
| "cli_Update lib (ProgressMsg percent cur tot) m =
     (case bl_set lib percent (cm_progress m) of
        (p, c) \<Rightarrow> (m\<lparr>cm_current := cur, cm_total := tot, cm_progress := p\<rparr>, BarCmd c))"
| "cli_Update lib CloseMsg m = (m, Quit)"
| "cli_Update lib (FrameMsg f) m = (case bl_frame lib f (cm_progress m) of (p, c) \<Rightarrow> (m\<lparr>cm_progress := p\<rparr>, BarCmd c))"
| "cli_Update lib OtherMsg m = (m, NoCmd)"

definition view_logs :: "'p cli_model \<Rightarrow> string list" where
  "view_logs m =
     map (\<lambda>i. let j = i + cm_logidx m in cm_logs m ! (if zLOGLINES \<le> j then j - zLOGLINES else j)) [0..<zLOGLINES]"

definition cli_View :: "('p, 'f, 'c) bar_lib \<Rightarrow> 'p cli_model \<Rightarrow> string" where
  "cli_View lib m =
     [CHR 0x0A] @ bl_view lib (cm_progress m) @ '' ('' @ itoa (cm_current m) @ ''/'' @ itoa (cm_total m) @ '')'' @ [CHR 0x0A] @
     concat (map (\<lambda>l. l @ [CHR 0x0A]) (view_logs m))"

subsection \<open>What the configuration gives\<close>

text \<open>What a section asks for, said once more without the order of the steps: when it fails, and what its writer is, \<open>n\<close> being the number of
  rotating loggers made before.\<close>

definition output_fails :: "('enc, 'lvl) log_lib \<Rightarrow> 'enc log_output \<Rightarrow> bool" where
  "output_fails lib c \<longleftrightarrow>
     lo_To c = ''file'' \<and>
       (case lo_Rotate c of
          Some r \<Rightarrow> (case rt_Cron r of None \<Rightarrow> False | Some spec \<Rightarrow> ll_cron lib spec \<noteq> None)
        | None \<Rightarrow> ll_open lib (lo_Path c) \<noteq> None)"

definition level_fails :: "('enc, 'lvl) log_lib \<Rightarrow> 'enc log_output \<Rightarrow> bool" where
  "level_fails lib c \<longleftrightarrow> (case lo_Level c of None \<Rightarrow> False | Some l \<Rightarrow> \<exists>e. ll_level lib l = Inl e)"

definition rotates :: "'enc log_output \<Rightarrow> bool" where
  "rotates c \<longleftrightarrow> lo_To c = ''file'' \<and> lo_Rotate c \<noteq> None"

definition writer_of :: "nat \<Rightarrow> 'enc log_output \<Rightarrow> writer" where
  "writer_of n c =
     (if rotates c then RotateWriter n else if lo_To c = ''file'' then FileWriter (lo_Path c)
      else if lo_To c = ''stdout'' then Stdout else if lo_To c = ''stderr'' then Stderr else NilWriter)"

definition unused_logger :: "'enc log_output \<Rightarrow> bool" where
  "unused_logger c \<longleftrightarrow> (case lo_Rotate c of None \<Rightarrow> True | Some r \<Rightarrow> rt_logger r = None)"

lemma logWriter_effect:
  assumes "logWriter lib c st = (res, st1)" "unused_logger c"
  shows "output_fails lib c \<Longrightarrow> \<exists>e. res = Inl e"
    and "\<not> output_fails lib c \<Longrightarrow> res = Inr (writer_of (length (ls_loggers st)) c) \<and>
      length (ls_loggers st1) = length (ls_loggers st) + (if rotates c then 1 else 0)"
  using assms
  by (auto simp: logWriter_def output_fails_def writer_of_def rotates_def add_rotation_def ToLogger_def unused_logger_def
      split: option.splits if_splits)

definition core_of :: "('enc, 'lvl) log_lib \<Rightarrow> bool \<Rightarrow> 'enc log_output \<Rightarrow> writer \<Rightarrow> ('enc, 'lvl) log_core" where
  "core_of lib debug c w =
     \<lparr>co_json = (lo_Format c = Some ''json''), co_encoder = (case lo_Encoder c of Some e \<Rightarrow> e | None \<Rightarrow> ll_production lib),
      co_writer = w, co_level = projr (log_level lib debug c)\<rparr>"

lemma loadErrLogConfig_effect:
  assumes "loadErrLogConfig lib debug c st = (res, st1)" "unused_logger c"
  shows "output_fails lib c \<or> level_fails lib c \<Longrightarrow> \<exists>e. res = Inl e"
    and "\<not> (output_fails lib c \<or> level_fails lib c) \<Longrightarrow> res = Inr (core_of lib debug c (writer_of (length (ls_loggers st)) c)) \<and>
      length (ls_loggers st1) = length (ls_loggers st) + (if rotates c then 1 else 0)"
proof -
  obtain r st2 where w: "logWriter lib c st = (r, st2)" by (cases "logWriter lib c st")
  note eff = logWriter_effect [OF w assms(2)]
  have level: "level_fails lib c \<longleftrightarrow> (\<exists>e. log_level lib debug c = Inl e)"
    by (auto simp: level_fails_def log_level_def split: option.split)
  show "\<exists>e. res = Inl e" if "output_fails lib c \<or> level_fails lib c"
  proof (cases r)
    case (Inr x)
    then have "level_fails lib c" using that eff(1) by auto
    then show ?thesis using assms(1) w Inr level by (auto simp: loadErrLogConfig_def)
  qed (use assms(1) w in \<open>auto simp: loadErrLogConfig_def\<close>)
  show "res = Inr (core_of lib debug c (writer_of (length (ls_loggers st)) c)) \<and>
      length (ls_loggers st1) = length (ls_loggers st) + (if rotates c then 1 else 0)" if good: "\<not> (output_fails lib c \<or> level_fails lib c)"
  proof -
    obtain l where l: "log_level lib debug c = Inr l" using good level by (cases "log_level lib debug c") auto
    then show ?thesis using assms(1) w eff(2) good by (auto simp: loadErrLogConfig_def core_of_def)
  qed
qed

text \<open>What the loops rely on: a step fails on the sections that are wrong and yields \<open>val\<close> on the others.\<close>

definition loads_as ::
  "('enc log_output \<Rightarrow> bool) \<Rightarrow> (nat \<Rightarrow> 'enc log_output \<Rightarrow> 'w) \<Rightarrow> ('enc log_output \<Rightarrow> log_state \<Rightarrow> (string + 'w) \<times> log_state) \<Rightarrow>
    'enc log_output list \<Rightarrow> bool" where
  "loads_as bad val load cs \<longleftrightarrow> (\<forall>c \<in> set cs. \<forall>st res st1. load c st = (res, st1) \<longrightarrow>
     (if bad c then \<exists>e. res = Inl e
      else res = Inr (val (length (ls_loggers st)) c) \<and> length (ls_loggers st1) = length (ls_loggers st) + (if rotates c then 1 else 0)))"

lemma load_outputs_effect:
  assumes "loads_as bad val load cs"
    and "load_outputs load cs st = (res, st1)"
  shows "(\<exists>c \<in> set cs. bad c) \<longleftrightarrow> (\<exists>e. res = Inl e)"
    and "\<not> (\<exists>c \<in> set cs. bad c) \<Longrightarrow>
      res = Inr (map2 (\<lambda>i c. val (length (ls_loggers st) + length (filter rotates (take i cs))) c) [0..<length cs] cs) \<and>
      length (ls_loggers st1) = length (ls_loggers st) + length (filter rotates cs)"
proof -
  have "(if \<exists>c \<in> set cs. bad c then \<exists>e. res = Inl e
     else res = Inr (map2 (\<lambda>i c. val (length (ls_loggers st) + length (filter rotates (take i cs))) c) [0..<length cs] cs) \<and>
      length (ls_loggers st1) = length (ls_loggers st) + length (filter rotates cs))"
    using assms
  proof (induction cs arbitrary: st res st1)
    case (Cons c cs)
    obtain r st2 where r: "load c st = (r, st2)" by (cases "load c st")
    have here: "if bad c then \<exists>e. r = Inl e
      else r = Inr (val (length (ls_loggers st)) c) \<and> length (ls_loggers st2) = length (ls_loggers st) + (if rotates c then 1 else 0)"
      using Cons.prems(1) r unfolding loads_as_def by (meson list.set_intros(1))
    show ?case
    proof (cases "bad c")
      case True
      then show ?thesis using here Cons.prems(2) r by auto
    next
      case False
      obtain rs st3 where rs: "load_outputs load cs st2 = (rs, st3)" by (cases "load_outputs load cs st2")
      have ih: "if \<exists>c \<in> set cs. bad c then \<exists>e. rs = Inl e
         else rs = Inr (map2 (\<lambda>i c. val (length (ls_loggers st2) + length (filter rotates (take i cs))) c) [0..<length cs] cs) \<and>
           length (ls_loggers st3) = length (ls_loggers st2) + length (filter rotates cs)"
        by (rule Cons.IH [OF _ rs]) (use Cons.prems(1) in \<open>simp add: loads_as_def\<close>)
      have upt: "[0..<length (c # cs)] = 0 # map Suc [0..<length cs]" by (simp add: upt_conv_Cons map_Suc_upt del: upt_Suc)
      have "res = map_sum id ((#) (val (length (ls_loggers st)) c)) rs" "st1 = st3"
        using Cons.prems(2) r rs here False by auto
      moreover have "length (ls_loggers st2) = length (ls_loggers st) + (if rotates c then 1 else 0)" using here False by simp
      ultimately show ?thesis
        using ih False unfolding upt by (auto simp: zip_map1 comp_def split: if_splits intro!: map_cong)
    qed
  qed simp
  then show "(\<exists>c \<in> set cs. bad c) \<longleftrightarrow> (\<exists>e. res = Inl e)"
    and "\<not> (\<exists>c \<in> set cs. bad c) \<Longrightarrow>
      res = Inr (map2 (\<lambda>i c. val (length (ls_loggers st) + length (filter rotates (take i cs))) c) [0..<length cs] cs) \<and>
      length (ls_loggers st1) = length (ls_loggers st) + length (filter rotates cs)"
    by (auto split: if_splits)
qed

text \<open>The writers of a list of sections, \<open>n\<close> loggers having been made before.\<close>

definition writers_of :: "nat \<Rightarrow> 'enc log_output list \<Rightarrow> writer list" where
  "writers_of n cs = map2 (\<lambda>i c. writer_of (n + length (filter rotates (take i cs))) c) [0..<length cs] cs"

lemma length_writers_of [simp]: "length (writers_of n cs) = length cs"
  by (simp add: writers_of_def)

lemma error_log_loads:
  assumes "\<forall>c \<in> set cs. unused_logger c"
  shows "loads_as (\<lambda>c. output_fails lib c \<or> level_fails lib c) (\<lambda>n c. core_of lib debug c (writer_of n c)) (loadErrLogConfig lib debug) cs"
  unfolding loads_as_def
proof (intro ballI allI impI)
  fix c st res st1 assume c: "c \<in> set cs" "loadErrLogConfig lib debug c st = (res, st1)"
  show "if output_fails lib c \<or> level_fails lib c then \<exists>e. res = Inl e
      else res = Inr (core_of lib debug c (writer_of (length (ls_loggers st)) c)) \<and>
        length (ls_loggers st1) = length (ls_loggers st) + (if rotates c then 1 else 0)"
    using loadErrLogConfig_effect [OF c(2)] c(1) assms by (cases "output_fails lib c \<or> level_fails lib c") simp_all
qed

lemma access_log_loads:
  assumes "\<forall>c \<in> set cs. unused_logger c"
  shows "loads_as (output_fails lib) writer_of (logWriter lib) cs"
  unfolding loads_as_def
proof (intro ballI allI impI)
  fix c st res st1 assume c: "c \<in> set cs" "logWriter lib c st = (res, st1)"
  show "if output_fails lib c then \<exists>e. res = Inl e
      else res = Inr (writer_of (length (ls_loggers st)) c) \<and>
        length (ls_loggers st1) = length (ls_loggers st) + (if rotates c then 1 else 0)"
    using logWriter_effect [OF c(2)] c(1) assms by (cases "output_fails lib c") simp_all
qed

text \<open>\<open>Setup\<close> fails exactly when a section or the level of the stack traces is wrong. Otherwise every section of the error log gives one core and
  every section of the access log one writer, in their order, each with the settings of its own section; a section whose target is none of the
  three names gets the nil writer, and no error.\<close>

theorem log_setup_outputs:
  assumes "\<forall>c \<in> set (lc_ErrorLog cfg) \<union> set (lc_AccessLog cfg). unused_logger c"
    and "log_Setup lib debug cfg st = (res, st1)"
  shows "((\<exists>e. res = Inl e) \<longleftrightarrow>
      (\<exists>c \<in> set (lc_ErrorLog cfg). output_fails lib c \<or> level_fails lib c) \<or> (\<exists>c \<in> set (lc_AccessLog cfg). output_fails lib c) \<or>
      (\<exists>e. zap_options lib (lc_Zap cfg) = Inl e)) \<and>
    (\<forall>cores opts access. res = Inr ((cores, opts), access) \<longrightarrow>
      (let n = length (ls_loggers st); n' = n + length (filter rotates (lc_ErrorLog cfg)) in
       cores = map2 (core_of lib debug) (lc_ErrorLog cfg) (writers_of n (lc_ErrorLog cfg)) \<and>
       (case access of Some ws \<Rightarrow> ws | None \<Rightarrow> []) = writers_of n' (lc_AccessLog cfg)))"
proof -
  let ?bad = "\<lambda>c. output_fails lib c \<or> level_fails lib c"
  obtain r1 s1 where r1: "load_outputs (loadErrLogConfig lib debug) (lc_ErrorLog cfg) st = (r1, s1)"
    by (cases "load_outputs (loadErrLogConfig lib debug) (lc_ErrorLog cfg) st")
  obtain r2 s2 where r2: "load_outputs (logWriter lib) (lc_AccessLog cfg) s1 = (r2, s2)"
    by (cases "load_outputs (logWriter lib) (lc_AccessLog cfg) s1")
  have unused: "\<forall>c \<in> set (lc_ErrorLog cfg). unused_logger c" "\<forall>c \<in> set (lc_AccessLog cfg). unused_logger c"
    using assms(1) by auto
  note e1 = load_outputs_effect [OF error_log_loads [OF unused(1)] r1]
  note e2 = load_outputs_effect [OF access_log_loads [OF unused(2)] r2]
  have zip: "map2 (\<lambda>i c. core_of lib debug c (writer_of (n + length (filter rotates (take i cs))) c)) [0..<length cs] cs =
      map2 (core_of lib debug) cs (writers_of n cs)" for n and cs :: "'a log_output list"
    by (rule nth_equalityI) (simp_all add: writers_of_def)
  show ?thesis
  proof (cases r1)
    case (Inl e)
    then show ?thesis using e1(1) assms(2) r1 by (auto simp: log_Setup_def loadErrLogConfigAll_def)
  next
    case (Inr cores)
    note ok1 = Inr
    then have good: "\<not> (\<exists>c \<in> set (lc_ErrorLog cfg). ?bad c)" using e1(1) by simp
    show ?thesis
    proof (cases "zap_options lib (lc_Zap cfg)")
      case (Inl e)
      then show ?thesis using ok1 assms(2) r1 by (auto simp: log_Setup_def loadErrLogConfigAll_def)
    next
      case (Inr opts)
      show ?thesis
      proof (cases r2)
        case (Inl e)
        then show ?thesis using e2(1) Inr ok1 assms(2) r1 r2
          by (auto simp: log_Setup_def loadErrLogConfigAll_def loadAccessLogConfigAll_def)
      next
        case (Inr ws)
        then have good2: "\<not> (\<exists>c \<in> set (lc_AccessLog cfg). output_fails lib c)" using e2(1) by simp
        have "res = Inr ((cores, opts), if ws = [] then None else Some ws)"
          using Inr \<open>zap_options lib (lc_Zap cfg) = Inr opts\<close> ok1 assms(2) r1 r2
          by (auto simp: log_Setup_def loadErrLogConfigAll_def loadAccessLogConfigAll_def)
        then show ?thesis
          using good good2 \<open>zap_options lib (lc_Zap cfg) = Inr opts\<close> e1(2) [OF good] e2(2) [OF good2] ok1 Inr
          by (auto simp: Let_def zip writers_of_def)
      qed
    qed
  qed
qed

subsection \<open>Rotation by cron\<close>

text \<open>The writers handed out are loggers that exist, and the entries of cron hold sections that never remember one.\<close>

definition known_writer :: "log_state \<Rightarrow> writer \<Rightarrow> bool" where
  "known_writer st w \<longleftrightarrow> (\<forall>l. w = RotateWriter l \<longrightarrow> l < length (ls_loggers st))"

definition cron_unused :: "log_state \<Rightarrow> bool" where
  "cron_unused st \<longleftrightarrow> (\<forall>entry \<in> set (ls_cron st). rt_logger (snd entry) = None)"

definition log_grows :: "log_state \<Rightarrow> log_state \<Rightarrow> bool" where
  "log_grows st st1 \<longleftrightarrow> length (ls_loggers st) \<le> length (ls_loggers st1) \<and> (cron_unused st \<longrightarrow> cron_unused st1)"

lemma logWriter_known:
  assumes "logWriter lib c st = (res, st1)" "unused_logger c"
  shows "log_grows st st1" "res = Inr w \<Longrightarrow> known_writer st1 w"
  using assms
  by (auto simp: logWriter_def add_rotation_def ToLogger_def unused_logger_def log_grows_def cron_unused_def known_writer_def
      split: option.splits if_splits)

lemma loadErrLogConfig_known:
  assumes "loadErrLogConfig lib debug c st = (res, st1)" "unused_logger c"
  shows "log_grows st st1" "res = Inr co \<Longrightarrow> known_writer st1 (co_writer co)"
proof -
  obtain r st2 where w: "logWriter lib c st = (r, st2)" by (cases "logWriter lib c st")
  show "log_grows st st1" using assms(1) w logWriter_known(1) [OF w assms(2)]
    by (auto simp: loadErrLogConfig_def split: sum.splits)
  show "known_writer st1 (co_writer co)" if res: "res = Inr co"
  proof (cases r)
    case (Inr x)
    have "known_writer st2 x" by (rule logWriter_known(2) [OF w assms(2) Inr])
    then show ?thesis using assms(1) w Inr res
      by (cases "log_level lib debug c") (auto simp: loadErrLogConfig_def)
  qed (use assms(1) w res in \<open>auto simp: loadErrLogConfig_def\<close>)
qed

lemma log_grows_known: "log_grows st st1 \<Longrightarrow> known_writer st w \<Longrightarrow> known_writer st1 w"
  by (auto simp: log_grows_def known_writer_def)

lemma load_outputs_known:
  assumes "\<And>c st res st1. c \<in> set cs \<Longrightarrow> load c st = (res, st1) \<Longrightarrow> log_grows st st1"
    and "\<And>c st x st1. c \<in> set cs \<Longrightarrow> load c st = (Inr x, st1) \<Longrightarrow> known_writer st1 (wr x)"
    and "load_outputs load cs st = (res, st1)"
  shows "log_grows st st1 \<and> (\<forall>xs. res = Inr xs \<longrightarrow> (\<forall>x \<in> set xs. known_writer st1 (wr x)))"
  using assms
proof (induction cs arbitrary: st res st1)
  case Nil
  then show ?case by (auto simp: log_grows_def)
next
  case (Cons c cs)
  obtain r st2 where r: "load c st = (r, st2)" by (cases "load c st")
  have g: "log_grows st st2" using Cons.prems(1) [OF _ r] by simp
  show ?case
  proof (cases r)
    case (Inl e)
    then show ?thesis using g Cons.prems(3) r by auto
  next
    case (Inr x)
    have k: "known_writer st2 (wr x)" using Cons.prems(2) [of c st x st2] r Inr by simp
    obtain rs st3 where rs: "load_outputs load cs st2 = (rs, st3)" by (cases "load_outputs load cs st2")
    have ih: "log_grows st2 st3 \<and> (\<forall>xs. rs = Inr xs \<longrightarrow> (\<forall>x \<in> set xs. known_writer st3 (wr x)))"
      by (rule Cons.IH [OF _ _ rs]) (rule Cons.prems(1) Cons.prems(2), rule list.set_intros(2), assumption+)+
    have "st1 = st3" "res = map_sum id ((#) x) rs" using Cons.prems(3) r rs Inr by auto
    moreover have "log_grows st st3" using g ih by (auto simp: log_grows_def)
    ultimately show ?thesis using ih log_grows_known [OF conjunct1 [OF ih] k] by (cases rs) auto
  qed
qed

lemma cron_rotations_fresh:
  "\<forall>entry \<in> set es. rt_logger (snd entry) = None \<Longrightarrow> l \<in> set (fst (cron_rotations es st)) \<Longrightarrow> length (ls_loggers st) \<le> l"
proof (induction es arbitrary: st)
  case (Cons e es)
  obtain l1 st1 where c: "cron_rotate e st = (l1, st1)" by (cases "cron_rotate e st")
  then have "l1 = length (ls_loggers st)" "length (ls_loggers st) \<le> length (ls_loggers st1)"
    using Cons.prems(1) by (auto simp: cron_rotate_def ToLogger_def)
  moreover have "l = l1 \<or> l \<in> set (fst (cron_rotations es st1))"
    using Cons.prems(2) c by (auto split: prod.splits)
  ultimately show ?case using Cons.IH [of st1] Cons.prems(1) by auto
qed simp

text \<open>The logger that cron rotates is made when its time has come: it is never one that the logger or the access log writes to. These go on
  writing to the file they hold.\<close>

theorem rotation_misses_the_writers:
  assumes "\<forall>c \<in> set (lc_ErrorLog cfg) \<union> set (lc_AccessLog cfg). unused_logger c" "cron_unused st"
    and "log_Setup lib debug cfg st = (Inr ((cores, opts), access), st2)" "set es \<subseteq> set (ls_cron st2)"
  shows "\<forall>l \<in> set (fst (cron_rotations es st2)). RotateWriter l \<notin> co_writer ` set cores \<and>
    RotateWriter l \<notin> set (case access of Some ws \<Rightarrow> ws | None \<Rightarrow> [])"
proof -
  obtain s1 where s1: "load_outputs (loadErrLogConfig lib debug) (lc_ErrorLog cfg) st = (Inr cores, s1)"
    using assms(3) by (auto simp: log_Setup_def loadErrLogConfigAll_def split: prod.splits sum.splits)
  obtain ws where s2: "load_outputs (logWriter lib) (lc_AccessLog cfg) s1 = (Inr ws, st2)" "(case access of Some ws \<Rightarrow> ws | None \<Rightarrow> []) = ws"
    using assms(3) s1
    by (cases "fst (load_outputs (logWriter lib) (lc_AccessLog cfg) s1)")
      (auto simp: log_Setup_def loadErrLogConfigAll_def loadAccessLogConfigAll_def split: prod.splits sum.splits if_splits)
  have 1: "log_grows st s1 \<and> (\<forall>xs. (Inr cores :: string + _) = Inr xs \<longrightarrow> (\<forall>x \<in> set xs. known_writer s1 (co_writer x)))"
    by (rule load_outputs_known [OF _ _ s1]) (use assms(1) loadErrLogConfig_known in blast)+
  have 2: "log_grows s1 st2 \<and> (\<forall>xs. (Inr ws :: string + _) = Inr xs \<longrightarrow> (\<forall>x \<in> set xs. known_writer st2 x))"
    by (rule load_outputs_known [where wr = "\<lambda>w. w", OF _ _ s2(1)]) (use assms(1) logWriter_known in blast)+
  have "known_writer st2 w" if "w \<in> co_writer ` set cores \<union> set ws" for w
    using that 1 2 log_grows_known by auto
  moreover have "cron_unused st2" using 1 2 assms(2) by (auto simp: log_grows_def)
  then have "\<forall>l \<in> set (fst (cron_rotations es st2)). length (ls_loggers st2) \<le> l"
    using cron_rotations_fresh [of es _ st2] assms(4) by (auto simp: cron_unused_def)
  ultimately show ?thesis unfolding s2(2) by (force simp: known_writer_def)
qed

text \<open>A limit in days is the age rounded up; a size below a mebibyte is none.\<close>

theorem rotation_limits:
  "day * (age_days age - 1) < age \<and> age \<le> day * age_days age \<and>
    (0 \<le> rt_MaxSize cfg \<and> rt_MaxSize cfg < 1048576 \<and> rt_logger cfg = None \<longrightarrow>
      lj_MaxSize (ls_loggers (snd (ToLogger cfg st)) ! fst (ToLogger cfg st)) = 0)"
proof -
  have "day * ((- age) div day) \<le> - age \<and> - age < day * ((- age) div day) + day"
    using mult_div_mod_eq [of day "- age"] pos_mod_bound [of day "- age"] pos_mod_sign [of day "- age"]
    unfolding day_def by linarith
  then show ?thesis by (simp add: age_days_def algebra_simps ToLogger_def Megabytes_def)
qed

subsection \<open>What the display shows\<close>

lemma view_logs_rotated:
  assumes "length (cm_logs m) = zLOGLINES" "cm_logidx m < zLOGLINES"
  shows "view_logs m = drop (cm_logidx m) (cm_logs m) @ take (cm_logidx m) (cm_logs m)"
  using assms by (intro nth_equalityI) (auto simp: view_logs_def Let_def nth_append add.commute)

definition display_ok :: "'p cli_model \<Rightarrow> bool" where
  "display_ok m \<longleftrightarrow> length (cm_logs m) = zLOGLINES \<and> cm_logidx m < zLOGLINES"

lemma view_logs_line:
  assumes "display_ok m"
  shows "display_ok (fst (cli_Update lib (LogMsg l) m)) \<and> view_logs (fst (cli_Update lib (LogMsg l) m)) = tl (view_logs m) @ [l]"
proof -
  let ?i = "cm_logidx m" and ?ls = "cm_logs m"
  have i: "?i < length ?ls" "length ?ls = zLOGLINES" using assms by (simp_all add: display_ok_def)
  then have "view_logs m = ?ls ! ?i # drop (Suc ?i) ?ls @ take ?i ?ls"
    by (simp add: view_logs_rotated Cons_nth_drop_Suc)
  moreover have "display_ok (fst (cli_Update lib (LogMsg l) m))"
    using i by (auto simp: display_ok_def)
  moreover have "view_logs (fst (cli_Update lib (LogMsg l) m)) = drop (Suc ?i) ?ls @ take ?i ?ls @ [l]"
  proof (cases "zLOGLINES \<le> Suc ?i")
    case True
    then have "drop (Suc ?i) ?ls = []" "length ?ls = Suc ?i" using i by auto
    then show ?thesis
      using True i by (subst view_logs_rotated) (simp_all add: upd_conv_take_nth_drop zLOGLINES_def)
  next
    case False
    then show ?thesis
      using i by (subst view_logs_rotated) (simp_all add: upd_conv_take_nth_drop take_Suc_conv_app_nth)
  qed
  ultimately show ?thesis by simp
qed

lemma view_logs_other:
  "\<forall>l. msg \<noteq> LogMsg l \<Longrightarrow> display_ok m \<Longrightarrow> display_ok (fst (cli_Update lib msg m)) \<and> view_logs (fst (cli_Update lib msg m)) = view_logs m"
  by (cases msg) (auto simp: display_ok_def view_logs_def split: prod.split)

text \<open>The messages the program has sent so far, in their order.\<close>

fun cli_run :: "('p, 'f, 'c) bar_lib \<Rightarrow> 'f cli_msg list \<Rightarrow> 'p cli_model \<Rightarrow> 'p cli_model" where
  "cli_run lib [] m = m"
| "cli_run lib (msg # msgs) m = cli_run lib msgs (fst (cli_Update lib msg m))"

fun log_line :: "'f cli_msg \<Rightarrow> string option" where
  "log_line (LogMsg l) = Some l"
| "log_line _ = None"

lemma view_logs_run:
  "display_ok m \<Longrightarrow> view_logs (cli_run lib msgs m) =
     drop (length (List.map_filter log_line msgs)) (view_logs m @ List.map_filter log_line msgs)"
proof (induction msgs arbitrary: m)
  case (Cons msg msgs)
  have len: "length (view_logs m) = zLOGLINES" for m :: "'a cli_model" by (simp add: view_logs_def)
  show ?case
  proof (cases msg)
    case (LogMsg l)
    have "view_logs m \<noteq> []" using len [of m] by (auto simp: zLOGLINES_def)
    then obtain x xs where "view_logs m = x # xs" by (cases "view_logs m") auto
    then show ?thesis
      using Cons.IH view_logs_line [OF Cons.prems, of lib l] LogMsg by (simp del: drop_append)
  qed (use Cons.IH view_logs_other [of msg m lib, OF _ Cons.prems] in \<open>simp_all\<close>)
qed simp

text \<open>The display shows the last eight lines that were written, the oldest first, whatever else was sent between them.\<close>

theorem display_keeps_last_lines:
  "view_logs (cli_run lib msgs (new_cli_model p)) =
     (let lines = replicate 8 [] @ List.map_filter log_line msgs in drop (length lines - 8) lines)"
proof -
  have "display_ok (new_cli_model p)" by (simp add: display_ok_def new_cli_model_def zLOGLINES_def)
  moreover have "view_logs (new_cli_model p) = replicate 8 []"
    by (simp add: view_logs_def new_cli_model_def zLOGLINES_def numeral_eq_Suc upt_rec)
  ultimately show ?thesis by (simp add: view_logs_run Let_def)
qed

subsection \<open>Examples\<close>

definition text_log_lib :: "(unit, nat) log_lib" where
  "text_log_lib =
     \<lparr>ll_cron = (\<lambda>spec. if spec = [] then Some ''empty spec'' else None), ll_open = (\<lambda>_. None),
      ll_level = (\<lambda>l. if l = ''warn'' then Inr 1 else Inl ''level''), ll_debug = 9, ll_info = 0, ll_production = ()\<rparr>"

definition text_output :: "string \<Rightarrow> rotate_config option \<Rightarrow> unit log_output" where
  "text_output target r =
     \<lparr>lo_To = target, lo_Level = None, lo_Format = None, lo_Encoder = None, lo_Path = ''app.log'', lo_Rotate = r\<rparr>"

definition text_rotation :: rotate_config where
  "text_rotation =
     \<lparr>rt_Cron = Some ''@daily'', rt_Filename = ''app.log'', rt_MaxSize = 1000000, rt_MaxAge = 0, rt_MaxBackups = 3, rt_LocalTime = True,
      rt_Compress = False, rt_logger = None\<rparr>"

definition text_log_config :: "unit log_config" where
  "text_log_config =
     \<lparr>lc_Zap = \<lparr>AddCaller = False, AddCallerSkip = 0, AddStacktrace = None\<rparr>, lc_AccessLog = [text_output ''sdtout'' None],
      lc_ErrorLog = [text_output ''file'' (Some text_rotation)]\<rparr>"

definition no_logs :: log_state where
  "no_logs = \<lparr>ls_loggers = [], ls_cron = [], ls_files = []\<rparr>"

lemmas text_log_defs = text_log_lib_def text_output_def text_rotation_def text_log_config_def no_logs_def

lemma text_log_setup:
  "\<exists>co st. log_Setup text_log_lib False text_log_config no_logs = (Inr (([co], []), Some [NilWriter]), st) \<and>
    co_writer co = RotateWriter 0 \<and> ls_cron st = [(''@daily'', text_rotation)] \<and> length (ls_loggers st) = 1"
  by (simp add: log_Setup_def loadErrLogConfigAll_def loadAccessLogConfigAll_def loadErrLogConfig_def logWriter_def add_rotation_def ToLogger_def
      log_level_def zap_options_def text_log_defs)

lemma text_log_unused: "\<forall>c \<in> set (lc_ErrorLog text_log_config) \<union> set (lc_AccessLog text_log_config). unused_logger c"
  by (simp add: text_log_defs unused_logger_def)

theorem log_setup_outputs_witness:
  "\<exists>access. (case access of Some ws \<Rightarrow> ws | None \<Rightarrow> []) = writers_of 1 (lc_AccessLog text_log_config) \<and> access = Some [NilWriter]"
proof -
  obtain co st where s: "log_Setup text_log_lib False text_log_config no_logs = (Inr (([co], []), Some [NilWriter]), st)"
    using text_log_setup by blast
  have "filter rotates (lc_ErrorLog text_log_config) = lc_ErrorLog text_log_config" by (simp add: text_log_defs rotates_def)
  moreover have "length (ls_loggers no_logs) + length (lc_ErrorLog text_log_config) = 1" by (simp add: text_log_defs)
  ultimately show ?thesis using log_setup_outputs [OF text_log_unused s] by (simp add: Let_def)
qed

theorem rotation_misses_the_writers_witness:
  "\<exists>st. fst (cron_rotations [(''@daily'', text_rotation)] st) = [1] \<and> RotateWriter 1 \<noteq> RotateWriter 0 \<and> ls_cron st = [(''@daily'', text_rotation)]"
proof -
  obtain co st where s: "log_Setup text_log_lib False text_log_config no_logs = (Inr (([co], []), Some [NilWriter]), st)"
    "co_writer co = RotateWriter 0" "ls_cron st = [(''@daily'', text_rotation)]" "length (ls_loggers st) = 1"
    using text_log_setup by blast
  have "cron_unused no_logs" by (simp add: cron_unused_def no_logs_def)
  from rotation_misses_the_writers [OF text_log_unused this s(1), of "[(''@daily'', text_rotation)]"] s
  show ?thesis by (intro exI [of _ st]) (simp add: cron_rotate_def ToLogger_def text_rotation_def)
qed

theorem rotation_limits_witness:
  "lj_MaxSize (ls_loggers (snd (ToLogger text_rotation no_logs)) ! fst (ToLogger text_rotation no_logs)) = 0"
  using rotation_limits [of 0 text_rotation no_logs] by (simp add: text_rotation_def)

end
