(* ===== verification/With_Session.thy ===== *)
theory With_Session
  imports Session Redis_Session
begin

section \<open>The session of a handler\<close>

text \<open>
  \<open>GetSession\<close> and \<open>WithSession\<close> (\<open>session.go\<close>): one interface over the sticky sessions of \<open>Session\<close> and the redis sessions of
  \<open>Redis_Session\<close>, and what becomes of two requests at the same time. A value carries its Go type: \<open>is_S\<close> tells whether it is
  a \<open>*S\<close>.
\<close>

datatype 'v session_ptr = StickyValue 'v | RedisPtr nat

datatype session_failure = StickyFailure session_error | RedisFailure session_fault

definition sticky_value ::
  "('v \<Rightarrow> bool) \<Rightarrow> 'v option \<Rightarrow> sessionConfig \<Rightarrow> time \<Rightarrow> string \<Rightarrow> 'v sessionManager \<Rightarrow> (session_failure + 'v) \<times> 'v sessionManager" where
  "sticky_value is_S init cfg now sid m =
     (case getStickySessionEntry init cfg now sid m of
        (Inl e, m1) \<Rightarrow> (Inl (StickyFailure e), m1)
      | (Inr entry, m1) \<Rightarrow>
          (case se_value entry of
             Some v \<Rightarrow> ((if is_S v then Inr v else Inl (StickyFailure (SessionError ''type not match''))), m1)
           | None \<Rightarrow> (Inl (StickyFailure (SessionError ''type not match'')), m1)))"

text \<open>The arguments of the redis half are those of \<open>getRedisSessionEntryMulti\<close>, up to the request.\<close>

definition GetSession ::
  "string \<Rightarrow> ('v sessionManager \<Rightarrow> (session_failure + 'v) \<times> 'v sessionManager) \<Rightarrow> ('q \<Rightarrow> (session_fault + nat) \<times> 'q) \<Rightarrow>
    'v sessionManager \<times> 'q \<Rightarrow> (session_failure + 'v session_ptr) \<times> 'v sessionManager \<times> 'q" where
  "GetSession sessiontype sticky redis w =
     (case w of (m, q) \<Rightarrow>
        if sessiontype = ''sticky'' then (case sticky m of (r, m1) \<Rightarrow> (map_sum id StickyValue r, m1, q))
        else (case redis q of (r, q1) \<Rightarrow> (map_sum RedisFailure RedisPtr r, m, q1)))"

text \<open>\<open>WithSession\<close> in one piece: \<open>fn\<close> gets the pointer. The sticky half holds the mutex of the entry around \<open>fn\<close>, which
  one call alone does not see; the redis half has none.\<close>

definition WithSession ::
  "string \<Rightarrow> ('v sessionManager \<Rightarrow> (session_failure + 'v) \<times> 'v sessionManager) \<Rightarrow> ('q \<Rightarrow> (session_fault + nat) \<times> 'q) \<Rightarrow>
    ('v session_ptr \<Rightarrow> 'v sessionManager \<times> 'q \<Rightarrow> session_failure option \<times> 'v sessionManager \<times> 'q) \<Rightarrow>
    'v sessionManager \<times> 'q \<Rightarrow> session_failure option \<times> 'v sessionManager \<times> 'q" where
  "WithSession sessiontype sticky redis fn w =
     (case GetSession sessiontype sticky redis w of
        (Inl e, w1) \<Rightarrow> (Some e, w1)
      | (Inr p, w1) \<Rightarrow> fn p w1)"

subsection \<open>Redis sessions at the same time\<close>

text \<open>
  A request whose handler is \<open>WithSession\<close> with a function that changes the value by \<open>f\<close>: what \<open>WithSession\<close> returns and the request
  at the end of the handler. Its deferred write comes later; no lock is taken in between.
\<close>

definition with_value :: "('s \<Rightarrow> 's) \<Rightarrow> unit session_ptr \<Rightarrow> unit sessionManager \<times> 's session_req \<Rightarrow>
    session_failure option \<times> unit sessionManager \<times> 's session_req" where
  "with_value f p w = (None, map_prod id (case p of RedisPtr ptr \<Rightarrow> set_entry ptr f | StickyValue _ \<Rightarrow> id) w)"

definition with_handler ::
  "'s json_type \<Rightarrow> string \<Rightarrow> string \<Rightarrow> string \<Rightarrow> login_error option \<Rightarrow> string \<Rightarrow> ('s \<Rightarrow> 's) \<Rightarrow> hashes \<Rightarrow>
    session_failure option \<times> 's session_req" where
  "with_handler ty pre name uid err sid f db =
     map_prod id snd (WithSession ''redis'' (\<lambda>m. (Inl (StickyFailure ErrNoOp), m))
       (getRedisSessionEntryMulti ty db None pre uid err sid) (with_value f) (session_setup, new_req name))"

definition visit_open ::
  "'s json_type \<Rightarrow> string \<Rightarrow> string \<Rightarrow> string \<Rightarrow> login_error option \<Rightarrow> string \<Rightarrow> ('s \<Rightarrow> 's) \<Rightarrow> hashes \<Rightarrow> 's session_req" where
  "visit_open ty pre name uid err sid f db =
     (case getRedisSessionEntryMulti ty db None pre uid err sid (new_req name) of
        (Inl e, q) \<Rightarrow> q
      | (Inr ptr, q) \<Rightarrow> set_entry ptr f q)"

lemma with_handler_open:
  assumes "json_ok ty" "stored ty (db (visit_key pre uid err sid)) name = Some v" "err = None \<or> err = Some ErrNotLoggedIn"
  shows "with_handler ty pre name uid err sid f db = (None, visit_open ty pre name uid err sid f db)"
  using multi_open [where db = db, OF assms]
  by (auto simp: with_handler_def WithSession_def GetSession_def with_value_def visit_open_def Let_def)

lemma visit_open_close: "snd (visit ty pre name uid err sid f db) = session_deferfn ty (visit_open ty pre name uid err sid f db) None db"
  by (simp add: visit_def visit_open_def split: prod.split sum.split)

lemma visit_open_write:
  assumes "json_ok ty" "stored ty (db (visit_key pre uid err sid)) name = Some v" "err = None \<or> err = Some ErrNotLoggedIn" "f v \<noteq> v"
  shows "\<exists>b. b \<noteq> [] \<and> jt_dec ty b = (f v, None) \<and> (\<forall>db'. session_deferfn ty (visit_open ty pre name uid err sid f db) None db' =
    hset (visit_key pre uid err sid) (AList.update name b (db (visit_key pre uid err sid))) db')"
proof -
  let ?key = "visit_key pre uid err sid"
  obtain entrystr where e: "jt_dec ty entrystr = (v, None)"
    "getRedisSessionEntryMulti ty db None pre uid err sid (new_req name) =
        (Inr 0, \<lparr>sq_cache = Some \<lparr>rs_key = ?key, rs_value = db ?key, rs_created = (db ?key = []),
           rs_checks = [(name, CheckEntry entrystr 0)]\<rparr>, sq_heap = [v], sq_name = name\<rparr>)"
    using multi_open [where db = db, OF assms(1-3)] by (auto simp: Let_def)
  obtain b where b: "jt_enc ty (f v) = Inr b" "b \<noteq> []" "jt_dec ty b = (f v, None)"
    using assms(1) by (auto simp: json_ok_def)
  have "entrystr \<noteq> b" using e(1) b(3) assms(4) by auto
  then show ?thesis
    using b by (intro exI [of _ b]) (simp add: visit_open_def e(2) set_entry_def session_deferfn_def)
qed

text \<open>C37. \<open>WithSession\<close> is documented to hold a mutex of the session while its function runs; for a redis session it does not. Two
  requests of one visitor (logged in or not, the same key) call it before the deferred write of either, on entries \<open>n1\<close> and \<open>n2\<close>
  whose values \<open>v1\<close>, \<open>v2\<close> their functions really change; JSON is taken to keep every value of the type and redis not to fail. Both calls
  run and return no error. When the first request ends, its change is stored. When the second ends, its own change is stored
  and the first is lost: on the same entry what is left is \<open>fb\<close> of the value both read, not of what the first made of it; on
  different entries the first one's entry is back at \<open>v1\<close>, if it was in redis before (the whole hash is written as it was read). Only
  an entry the first request created outlives the second.\<close>

theorem redis_sessions_lose_updates:
  assumes json: "\<forall>v. \<exists>b. jt_enc ty v = Inr b \<and> b \<noteq> [] \<and> jt_dec ty b = (v, None)"
    and visitor: "err = None \<and> key = pre @ '':sid:'' @ sid \<or> err = Some ErrNotLoggedIn \<and> key = pre @ '':uid:'' @ uid"
    and vals: "stored ty (db key) n1 = Some v1" "stored ty (db key) n2 = Some v2" "fa v1 \<noteq> v1" "fb v2 \<noteq> v2"
  shows "\<exists>q1 q2. with_handler ty pre n1 uid err sid fa db = (None, q1) \<and> with_handler ty pre n2 uid err sid fb db = (None, q2) \<and>
    stored ty (session_deferfn ty q1 None db key) n1 = Some (fa v1) \<and>
    (let final = session_deferfn ty q2 None (session_deferfn ty q1 None db) key in
     stored ty final n2 = Some (fb v2) \<and>
     (n1 \<noteq> n2 \<longrightarrow> stored ty final n1 = Some (if map_of (db key) n1 \<noteq> None then v1 else fa v1)))"
proof -
  define q1 where "q1 = visit_open ty pre n1 uid err sid fa db"
  define q2 where "q2 = visit_open ty pre n2 uid err sid fb db"
  have assms: "json_ok ty" "err = None \<or> err = Some ErrNotLoggedIn" "key = visit_key pre uid err sid"
    "stored ty (db key) n1 = Some v1" "stored ty (db key) n2 = Some v2" "fa v1 \<noteq> v1" "fb v2 \<noteq> v2"
    "q1 = visit_open ty pre n1 uid err sid fa db" "q2 = visit_open ty pre n2 uid err sid fb db"
    using json visitor vals by (auto simp: json_ok_def visit_key_def uid_key_def sid_key_def q1_def q2_def)
  have h: "with_handler ty pre n1 uid err sid fa db = (None, q1)" "with_handler ty pre n2 uid err sid fb db = (None, q2)"
    using assms(1-5) by (simp_all add: with_handler_open q1_def q2_def)
  obtain b1 where b1: "b1 \<noteq> []" "jt_dec ty b1 = (fa v1, None)"
    "\<forall>db'. session_deferfn ty q1 None db' = hset key (AList.update n1 b1 (db key)) db'"
    using visit_open_write [of ty db pre uid err sid n1 v1 fa] assms by blast
  obtain b2 where b2: "b2 \<noteq> []" "jt_dec ty b2 = (fb v2, None)"
    "\<forall>db'. session_deferfn ty q2 None db' = hset key (AList.update n2 b2 (db key)) db'"
    using visit_open_write [of ty db pre uid err sid n2 v2 fb] assms by blast
  have final: "map_of (session_deferfn ty q2 None (session_deferfn ty q1 None db) key) n =
      (if n = n2 then Some b2 else if map_of (db key) n \<noteq> None then map_of (db key) n else if n = n1 then Some b1 else None)" for n
    by (auto simp: b1(3) b2(3) hset_def merge_conv' AList.update_conv' map_add_def split: option.splits)
  have "stored ty (session_deferfn ty q1 None db key) n1 = Some (fa v1)"
    by (simp add: b1 hset_def stored_def merge_fields)
  moreover have "stored ty (session_deferfn ty q2 None (session_deferfn ty q1 None db) key) n2 = Some (fb v2)"
    unfolding stored_def final by (simp add: b2(1,2))
  moreover have "stored ty (session_deferfn ty q2 None (session_deferfn ty q1 None db) key) n1 =
      Some (if map_of (db key) n1 \<noteq> None then v1 else fa v1)" if "n1 \<noteq> n2"
    using assms(4) that unfolding stored_def final by (auto simp: b1(1,2))
  ultimately show ?thesis using h by (simp add: Let_def)
qed

subsection \<open>What the two halves share\<close>

text \<open>A sticky session needs a value of the type that is asked for; otherwise the call fails and its function does not run, though the
  session is kept alive.\<close>

theorem session_of_another_type:
  assumes "map_of (sessionStore m) sid = Some entry" "se_value entry = Some v" "\<not> is_S v"
  shows "WithSession ''sticky'' (sticky_value is_S init cfg now sid) redis fn (m, q) =
    (Some (StickyFailure (SessionError ''type not match'')),
     m\<lparr>sessionStore := AList.update sid (entry\<lparr>expireAt := now + sc_Expire cfg\<rparr>) (sessionStore m)\<rparr>, q)"
  using assms by (cases entry) (simp add: WithSession_def GetSession_def sticky_value_def getStickySessionEntry_def Let_def)

subsection \<open>Examples\<close>

theorem redis_sessions_lose_updates_witness:
  "\<exists>q1 q2. with_handler text_json ''s'' ''cart'' ''u'' None ''sid'' (\<lambda>v. v @ ''a'') (\<lambda>_. []) = (None, q1) \<and>
     with_handler text_json ''s'' ''cart'' ''u'' None ''sid'' (\<lambda>v. v @ ''b'') (\<lambda>_. []) = (None, q2) \<and>
     stored text_json (session_deferfn text_json q2 None (session_deferfn text_json q1 None (\<lambda>_. [])) ''s:sid:sid'') ''cart'' =
       Some ''b''"
proof -
  let ?db = "(\<lambda>_. []) :: hashes"
  have z: "stored text_json (?db k) ''cart'' = Some []" for k :: string by (simp add: stored_def text_json_def)
  from redis_sessions_lose_updates [where db = ?db and fa = "\<lambda>v. v @ ''a''" and fb = "\<lambda>v. v @ ''b''" and err = None
      and pre = "''s''" and sid = "''sid''" and uid = "''u''", OF text_json_ok [unfolded json_ok_def] _ z z, of "''s:sid:sid''"]
  show ?thesis by (force simp: Let_def)
qed

theorem session_of_another_type_witness:
  "fst (WithSession ''sticky'' (sticky_value (\<lambda>v. v = (1::nat)) None
     \<lparr>sc_Expire = 10, sc_Resources = (\<lambda>_. 0), sc_NodeIP = [], sc_NodeIPEnv = [], sc_ProxyableHosts = [], sc_ProxyableHostsRegex = []\<rparr> 0 ''a'')
     (\<lambda>q. (Inr 0, q)) (\<lambda>p w. (None, w))
     (session_setup\<lparr>sessionStore := [(''a'', \<lparr>preserved = False, se_sid = ''a'', se_name = ''n'', se_use = [], se_value = Some 2, expireAt = 0\<rparr>)]\<rparr>, ())) =
   Some (StickyFailure (SessionError ''type not match''))"
proof -
  let ?e = "\<lparr>preserved = False, se_sid = ''a'', se_name = ''n'', se_use = [], se_value = Some 2, expireAt = 0\<rparr> :: nat stickySessionEntry"
  have "map_of (sessionStore (session_setup\<lparr>sessionStore := [(''a'', ?e)]\<rparr>)) ''a'' = Some ?e" by simp
  note eq = session_of_another_type [where is_S = "\<lambda>v. v = (1::nat)" and v = 2, OF this]
  show ?thesis by (subst eq) simp_all
qed

end
