(* ===== verification/Binding_Plan.thy ===== *)
theory Binding_Plan
  imports Request_Binding
begin

section \<open>Plans of input types\<close>

text \<open>
  \<open>buildPlan\<close> (\<open>reflectplan.go\<close>): the tags of the fields of an input type, looked up once. \<open>Request_Binding\<close> reads a field's tags from the type;
  here the plan is built as the code builds it, and shown to hold what is read there. A kind is the head of its type.
\<close>

definition tagKindStrings :: "string list" where
  "tagKindStrings = [''path'', ''query'', ''form'', ''post'', ''jwt'', ''cookie'', ''header'', ''regex'', ''cli'', ''resource'']"

definition tagSize :: nat where
  "tagSize = 10"

datatype reflectPlan = ReflectPlan (pl_typ: gtype) (pl_fields: "fieldPlan option list")
  and fieldPlan = FieldPlan (fp_tags: "string list") (fp_tagoks: "bool list") (fp_name: string) (fp_typ: gtype) (fp_basetyp: gtype)
    (fp_ispointer: bool) (fp_child: "reflectPlan option")

text \<open>\<open>*multipart.FileHeader\<close>, which is one type here, is a pointer to a type that no field is bound through.\<close>

fun is_pointer :: "gtype \<Rightarrow> bool" where
  "is_pointer (TPtr t) = True"
| "is_pointer TFile = True"
| "is_pointer _ = False"

fun pointee :: "gtype \<Rightarrow> gtype" where
  "pointee (TPtr t) = t"
| "pointee TFile = TOther"
| "pointee t = t"

text \<open>The loop over the kinds of tags: the value of a tag and whether there is one.\<close>

definition lookup_tags :: "string \<Rightarrow> (string \<times> string) list \<Rightarrow> (string \<times> bool) list" where
  "lookup_tags name ts =
     map (\<lambda>k. case map_of ts (tagKindStrings ! k) of
        Some v \<Rightarrow> (if v = [] then name else v, True)
      | None \<Rightarrow> ([], False)) [0..<tagSize]"

fun build_fields :: "gfield list \<Rightarrow> fieldPlan option list" where
  "build_fields [] = []"
| "build_fields (GField n x a ts t # fs) =
     (if \<not> x \<and> \<not> a then None
      else Some (FieldPlan (map fst (lookup_tags n ts)) (map snd (lookup_tags n ts)) n t (if is_pointer t then pointee t else t) (is_pointer t)
        (case t of
           TStruct gs \<Rightarrow> if a then Some (ReflectPlan t (build_fields gs)) else None
         | _ \<Rightarrow> None))) # build_fields fs"

definition buildPlan :: "gtype \<Rightarrow> reflectPlan option" where
  "buildPlan t =
     (case (case t of TPtr u \<Rightarrow> u | _ \<Rightarrow> t) of
        TStruct fs \<Rightarrow> Some (ReflectPlan (TStruct fs) (build_fields fs))
      | _ \<Rightarrow> None)"

subsection \<open>What a plan holds\<close>

definition planned_tag :: "fieldPlan \<Rightarrow> nat \<Rightarrow> string option" where
  "planned_tag p k = (if fp_tagoks p ! k then Some (fp_tags p ! k) else None)"

definition plan_agrees :: "gfield \<Rightarrow> fieldPlan option \<Rightarrow> bool" where
  "plan_agrees f entry \<longleftrightarrow>
     (entry = None \<longleftrightarrow> \<not> gf_exported f \<and> \<not> gf_anon f) \<and>
     (\<forall>p. entry = Some p \<longrightarrow>
        fp_name p = gf_name f \<and> fp_typ p = gf_type f \<and> length (fp_tags p) = tagSize \<and> length (fp_tagoks p) = tagSize \<and>
        (\<forall>k < tagSize. planned_tag p k = plan_tag f (tagKindStrings ! k)) \<and>
        fp_child p = (if has_child f then buildPlan (gf_type f) else None))"

lemma build_fields_agree: "list_all2 plan_agrees fs (build_fields fs)"
proof (induction fs)
  case (Cons f fs)
  obtain n x a ts t where f: "f = GField n x a ts t" by (cases f)
  have "plan_agrees f (hd (build_fields (f # fs)))"
    by (cases t) (auto simp: plan_agrees_def f planned_tag_def plan_tag_def has_child_def buildPlan_def lookup_tags_def tagSize_def split: option.split)
  then show ?case using Cons by (simp add: f)
qed simp

text \<open>A plan has an entry for each field of the struct, in the order of the fields; it is missing exactly for the fields that can not be set; it
  holds the tags the binding reads and, for an embedded struct, the plan of that struct. What is no struct has no plan.\<close>

lemma plan_holds_the_tags:
  "t = TStruct fs \<or> t = TPtr (TStruct fs) \<Longrightarrow>
     \<exists>entries. buildPlan t = Some (ReflectPlan (TStruct fs) entries) \<and> list_all2 plan_agrees fs entries"
  using build_fields_agree by (auto simp: buildPlan_def)

lemma no_struct_no_plan: "buildPlan t = None \<longleftrightarrow> (\<forall>fs. t \<noteq> TStruct fs \<and> t \<noteq> TPtr (TStruct fs))"
  by (auto simp: buildPlan_def split: gtype.splits)

end
