(* ===== verification/Stream_Listen.thy ===== *)
theory Stream_Listen
  imports Redis_Stream "HOL-Library.Multiset"
begin

section \<open>Listening to a stream\<close>

text \<open>
  The read loop at the end of \<open>StartListen\<close> and \<open>Received\<close> (\<open>typedhandler_job_redis.go\<close>): a node reads one new entry of its group at a time,
  hands it to the pool and acknowledges it when its listener has returned, with an error or without. The node may stop at any moment; what
  it had handed to the pool is gone with it, what redis knows stays, and it starts again with \<open>StartListen\<close>, as its mode says. \<open>li_ran\<close> lists the entries whose listener has run.
\<close>

record listen_state =
  li_stream :: stream
  li_pending :: "string list"
  li_queue :: "message list"
  li_ran :: "message list"

text \<open>\<open>XREADGROUP ... COUNT 1\<close> with the id \<open>>\<close>: the first entry the group has not seen, which becomes pending for the consumer.\<close>

definition xreadgroup :: "(string \<Rightarrow> nat) \<Rightarrow> string \<Rightarrow> string \<Rightarrow> stream \<Rightarrow> (message \<times> stream) option" where
  "xreadgroup key grp consumer s =
     (case group_deliveries key grp s of
        [] \<Rightarrow> None
      | m # _ \<Rightarrow> Some (m, s\<lparr>sr_groups := AList.update grp (msg_id m) (sr_groups s),
                            sr_consumers := List.insert (grp, consumer) (sr_consumers s)\<rparr>))"

text \<open>One turn of the loop. A failed read is logged and tried again; \<open>Received\<close> hands the message to the pool.\<close>

definition listen_poll :: "(string \<Rightarrow> nat) \<Rightarrow> string \<Rightarrow> string \<Rightarrow> string option \<Rightarrow> listen_state \<Rightarrow> listen_state" where
  "listen_poll key grp consumer fault st =
     (case fault of
        Some e \<Rightarrow> st
      | None \<Rightarrow>
          (case xreadgroup key grp consumer (li_stream st) of
             None \<Rightarrow> st
           | Some (m, s) \<Rightarrow>
               st\<lparr>li_stream := s, li_pending := li_pending st @ [msg_id m], li_queue := li_queue st @ [m]\<rparr>))"

text \<open>The pool has run the \<open>i\<close>-th message that waits; the acknowledgement may fail, which is only logged.\<close>

definition listen_finish :: "nat \<Rightarrow> string option \<Rightarrow> listen_state \<Rightarrow> listen_state" where
  "listen_finish i ackfault st =
     (if i < length (li_queue st) then
        (let m = li_queue st ! i in
         st\<lparr>li_queue := take i (li_queue st) @ drop (Suc i) (li_queue st), li_ran := li_ran st @ [m],
            li_pending := (if ackfault = None then remove1 (msg_id m) (li_pending st) else li_pending st)\<rparr>)
      else st)"

datatype listen_event = Appended message | Polled "string option" | Finished nat "string option" | Restarted string

text \<open>A restart: the pool is empty, \<open>StartListen\<close> trims the stream if there is a TTL and may replay it, and the loop goes on.\<close>

definition listen_restart :: "(string \<Rightarrow> nat) \<Rightarrow> string \<Rightarrow> string \<Rightarrow> streamType \<Rightarrow> string \<Rightarrow> listen_state \<Rightarrow> listen_state" where
  "listen_restart key grp consumer sty threshold st =
     (let so = Some (li_stream st);
          fin = observe key threshold sty so;
          db = (\<lambda>_. case fin of Some s \<Rightarrow> sr_entries s | None \<Rightarrow> [])
      in case StartListen key grp consumer threshold db (\<lambda>_. None) sty so fin of
           Some (None, ms, Some s) \<Rightarrow> st\<lparr>li_stream := s, li_queue := ms\<rparr>
         | _ \<Rightarrow> st\<lparr>li_queue := []\<rparr>)"

fun listen_step :: "(string \<Rightarrow> nat) \<Rightarrow> string \<Rightarrow> string \<Rightarrow> streamType \<Rightarrow> listen_event \<Rightarrow> listen_state \<Rightarrow> listen_state" where
  "listen_step key grp consumer sty (Appended m) st =
     st\<lparr>li_stream := (li_stream st)\<lparr>sr_entries := sr_entries (li_stream st) @ [m], sr_lastgen := msg_id m\<rparr>\<rparr>"
| "listen_step key grp consumer sty (Polled fault) st = listen_poll key grp consumer fault st"
| "listen_step key grp consumer sty (Finished i ackfault) st = listen_finish i ackfault st"
| "listen_step key grp consumer sty (Restarted threshold) st = listen_restart key grp consumer sty threshold st"

text \<open>Redis gives new entries greater ids than it gave before.\<close>

definition event_ok :: "(string \<Rightarrow> nat) \<Rightarrow> listen_event \<Rightarrow> listen_state \<Rightarrow> bool" where
  "event_ok key ev st \<longleftrightarrow> (case ev of Appended m \<Rightarrow> key (sr_lastgen (li_stream st)) < key (msg_id m) | _ \<Rightarrow> True)"

fun listen_run :: "(string \<Rightarrow> nat) \<Rightarrow> string \<Rightarrow> string \<Rightarrow> streamType \<Rightarrow> listen_event list \<Rightarrow> listen_state \<Rightarrow> listen_state option" where
  "listen_run key grp consumer sty [] st = Some st"
| "listen_run key grp consumer sty (ev # evs) st =
     (if event_ok key ev st then listen_run key grp consumer sty evs (listen_step key grp consumer sty ev st) else None)"

text \<open>In mode \<open>fanout\<close> a restart keeps the position of the group, be the consumer known or not.\<close>

lemma fanout_restart:
  assumes "sty_mode sty = ModeFanout" "map_of (sr_groups (li_stream st)) grp = Some pos"
  shows "listen_restart key grp consumer sty threshold st =
    st\<lparr>li_stream := (li_stream st)\<lparr>sr_entries := (if sty_TTL sty = 0 then sr_entries (li_stream st)
         else filter (\<lambda>m. key threshold \<le> key (msg_id m)) (sr_entries (li_stream st)))\<rparr>, li_queue := []\<rparr>"
  using assms
  by (simp add: listen_restart_def observe_def StartListen_def xtrim_minid_def xgroup_create_def Let_def)

text \<open>In mode \<open>replayall\<close> a restart puts all messages behind the start position into the pool again, those that were run as well.\<close>

lemma replayall_restart:
  assumes "sty_mode sty = ModeReplayAll" "sty_TTL sty = 0" "sty_start sty \<noteq> ''$''" "sty_start sty \<noteq> []"
    and "sr_entries (li_stream st) = E @ [m]" "sr_lastgen (li_stream st) = msg_id m" "msg_id m \<notin> {''0'', [], ''$''}"
    and "in_order key (E @ [m])" "key (sty_start sty) < key (msg_id m)"
  shows "li_queue (listen_restart key grp consumer sty threshold st) = after_id key (sty_start sty) (E @ [m])"
proof -
  have "starting key threshold sty (Some (li_stream st)) (li_stream st) E m (\<lambda>_. E @ [m]) (li_stream st) []"
    using assms by (simp add: starting_def observe_def)
  from starting_replay [OF this assms(9)] show ?thesis
    using assms(1,2,5) by (simp add: listen_restart_def observe_def StartListen_def Let_def)
qed

subsection \<open>How often an entry is run\<close>

definition position :: "string \<Rightarrow> listen_state \<Rightarrow> string option" where
  "position grp st = map_of (sr_groups (li_stream st)) grp"

definition handed :: "listen_state \<Rightarrow> message list" where
  "handed st = li_ran st @ li_queue st"

text \<open>What was handed out lies at or before the position of the group, and no id was handed out twice.\<close>

definition listen_inv :: "(string \<Rightarrow> nat) \<Rightarrow> string \<Rightarrow> string \<Rightarrow> listen_state \<Rightarrow> bool" where
  "listen_inv key grp pos st \<longleftrightarrow>
     position grp st = Some pos \<and> key pos \<le> key (sr_lastgen (li_stream st)) \<and> in_order key (sr_entries (li_stream st)) \<and>
     (\<forall>e \<in> set (sr_entries (li_stream st)). key (msg_id e) \<le> key (sr_lastgen (li_stream st))) \<and> distinct (map msg_id (handed st)) \<and>
     (\<forall>m \<in> set (handed st). key (msg_id m) \<le> key pos)"

definition complete :: "(string \<Rightarrow> nat) \<Rightarrow> nat \<Rightarrow> string \<Rightarrow> listen_state \<Rightarrow> bool" where
  "complete key start pos st \<longleftrightarrow>
     set (handed st) = {m \<in> set (sr_entries (li_stream st)). start < key (msg_id m) \<and> key (msg_id m) \<le> key pos}"

lemma first_after:
  assumes "in_order key ms" "after_id key pos ms = m # rest"
  shows "m \<in> set ms" "key pos < key (msg_id m)"
    "\<forall>e \<in> set ms. key pos < key (msg_id e) \<and> key (msg_id e) \<le> key (msg_id m) \<longrightarrow> e = m"
proof -
  have "m \<in> set (after_id key pos ms)" by (simp add: assms(2))
  then show "m \<in> set ms" "key pos < key (msg_id m)" by (simp_all add: after_id_def)
  have "in_order key (after_id key pos ms)" using assms(1) by (simp add: in_order_def after_id_def sorted_wrt_filter)
  then have rest: "\<forall>e \<in> set rest. key (msg_id m) < key (msg_id e)" by (simp add: assms(2) in_order_def)
  show "\<forall>e \<in> set ms. key pos < key (msg_id e) \<and> key (msg_id e) \<le> key (msg_id m) \<longrightarrow> e = m"
  proof (intro ballI impI)
    fix e assume "e \<in> set ms" "key pos < key (msg_id e) \<and> key (msg_id e) \<le> key (msg_id m)"
    then have "e \<in> set (m # rest)" "key (msg_id e) \<le> key (msg_id m)" by (auto simp: after_id_def simp flip: assms(2))
    then show "e = m" using rest by (auto simp: not_le [symmetric])
  qed
qed

lemma mset_handed_finish: "mset (handed (listen_finish i f st)) = mset (handed st)"
proof (cases "i < length (li_queue st)")
  case True
  have "mset (li_queue st) = mset (take i (li_queue st)) + {#li_queue st ! i#} + mset (drop (Suc i) (li_queue st))"
    by (subst id_take_nth_drop [OF True]) simp
  then show ?thesis using True by (simp add: listen_finish_def handed_def Let_def)
qed (simp add: listen_finish_def)

text \<open>The step of an event, with what it may do to the position and to what was handed out.\<close>

definition goes_on :: "(string \<Rightarrow> nat) \<Rightarrow> string \<Rightarrow> nat \<Rightarrow> string \<Rightarrow> listen_state \<Rightarrow> string \<Rightarrow> listen_state \<Rightarrow> bool" where
  "goes_on key grp start pos st pos' st' \<longleftrightarrow>
     listen_inv key grp pos' st' \<and> key pos \<le> key pos' \<and>
     (\<forall>x. x \<notin> msg_id ` set (handed st) \<and> key x \<le> key pos \<longrightarrow> x \<notin> msg_id ` set (handed st'))"

lemma appended_goes_on:
  assumes "listen_inv key grp pos st" "event_ok key (Appended m) st" "st' = listen_step key grp consumer sty (Appended m) st"
  shows "goes_on key grp start pos st pos st'" "complete key start pos st \<Longrightarrow> complete key start pos st'"
proof -
  have m: "\<forall>e \<in> set (sr_entries (li_stream st)). key (msg_id e) < key (msg_id m)" "key pos < key (msg_id m)"
    using assms(1,2) by (force simp: listen_inv_def event_ok_def)+
  then show "goes_on key grp start pos st pos st'"
    using assms(1) by (auto simp: assms(3) goes_on_def listen_inv_def position_def handed_def in_order_def sorted_wrt_append less_imp_le)
  show "complete key start pos st'" if "complete key start pos st"
  proof -
    have "{x \<in> insert m E. start < key (msg_id x) \<and> key (msg_id x) \<le> key pos} = {x \<in> E. start < key (msg_id x) \<and> key (msg_id x) \<le> key pos}" for E
      using m(2) by auto
    then show ?thesis using that by (simp add: complete_def handed_def assms(3))
  qed
qed

lemma polled_goes_on:
  assumes "listen_inv key grp pos st" "st' = listen_step key grp consumer sty (Polled fault) st"
  shows "\<exists>pos'. goes_on key grp start pos st pos' st' \<and> (complete key start pos st \<and> start \<le> key pos \<longrightarrow> complete key start pos' st')"
proof (cases "fault = None \<and> after_id key pos (sr_entries (li_stream st)) \<noteq> []")
  case True
  have ord: "in_order key (sr_entries (li_stream st))" and pos: "map_of (sr_groups (li_stream st)) grp = Some pos"
    using assms(1) by (simp_all add: listen_inv_def position_def)
  obtain m rest where m: "after_id key pos (sr_entries (li_stream st)) = m # rest"
    using True by (cases "after_id key pos (sr_entries (li_stream st))") auto
  note first = first_after [OF ord m]
  have st': "li_stream st' = (li_stream st)\<lparr>sr_groups := AList.update grp (msg_id m) (sr_groups (li_stream st)),
      sr_consumers := List.insert (grp, consumer) (sr_consumers (li_stream st))\<rparr>"
    "li_queue st' = li_queue st @ [m]" "li_ran st' = li_ran st"
    using True m pos by (simp_all add: assms(2) listen_poll_def xreadgroup_def group_deliveries_def)
  have new: "msg_id m \<notin> msg_id ` set (handed st)"
    using assms(1) first(2) by (force simp: listen_inv_def image_iff not_le [symmetric])
  have handed: "handed st' = handed st @ [m]" by (simp add: handed_def st')
  have "goes_on key grp start pos st (msg_id m) st'"
    using assms(1) first(1,2) new
    by (auto simp: goes_on_def listen_inv_def position_def handed st' AList.update_conv' less_imp_le intro: order.trans)
  moreover have "complete key start (msg_id m) st'" if "complete key start pos st" "start \<le> key pos"
    using that first by (auto simp: complete_def handed st')
  ultimately show ?thesis by blast
next
  case False
  then have "st' = st"
    using assms by (auto simp: listen_poll_def xreadgroup_def group_deliveries_def listen_inv_def position_def split: option.split)
  then show ?thesis using assms(1) by (auto simp: goes_on_def)
qed

lemma handed_inv:
  assumes "mset (handed st') = mset (handed st)" "li_stream st' = li_stream st"
  shows "listen_inv key grp pos st' = listen_inv key grp pos st" "complete key start pos st' = complete key start pos st"
    "set (handed st') = set (handed st)"
proof -
  show set: "set (handed st') = set (handed st)" by (rule mset_eq_setD [OF assms(1)])
  have "mset (map msg_id (handed st')) = mset (map msg_id (handed st))" by (simp add: assms(1))
  then have "distinct (map msg_id (handed st')) = distinct (map msg_id (handed st))" by (rule mset_eq_imp_distinct_iff)
  then show "listen_inv key grp pos st' = listen_inv key grp pos st" "complete key start pos st' = complete key start pos st"
    by (simp_all add: listen_inv_def complete_def position_def set assms(2))
qed

lemma step_goes_on:
  assumes "listen_inv key grp pos st" "event_ok key ev st" "sty_mode sty = ModeFanout"
  shows "\<exists>pos'. goes_on key grp start pos st pos' (listen_step key grp consumer sty ev st) \<and>
    (complete key start pos st \<and> start \<le> key pos \<and> (\<forall>t. ev \<noteq> Restarted t) \<longrightarrow> complete key start pos' (listen_step key grp consumer sty ev st))"
proof (cases ev)
  case (Appended m)
  then show ?thesis using appended_goes_on [OF assms(1) _ refl] assms(2) by blast
next
  case (Polled fault)
  then show ?thesis using polled_goes_on [OF assms(1) refl] by blast
next
  case (Finished i f)
  have "li_stream (listen_finish i f st) = li_stream st" by (simp add: listen_finish_def Let_def)
  from handed_inv [OF mset_handed_finish this] assms(1) show ?thesis
    unfolding Finished goes_on_def by (intro exI [of _ pos]) auto
next
  case (Restarted threshold)
  have "map_of (sr_groups (li_stream st)) grp = Some pos" using assms(1) by (simp add: listen_inv_def position_def)
  note r = fanout_restart [OF assms(3) this]
  show ?thesis using assms(1)
    by (intro exI [of _ pos])
      (auto simp: Restarted r goes_on_def listen_inv_def position_def handed_def in_order_def sorted_wrt_filter)
qed

lemma run_goes_on:
  assumes "sty_mode sty = ModeFanout" "listen_inv key grp pos st" "listen_run key grp consumer sty evs st = Some st'"
  shows "\<exists>pos'. goes_on key grp start pos st pos' st' \<and>
    (complete key start pos st \<and> start \<le> key pos \<and> (\<forall>t. Restarted t \<notin> set evs) \<longrightarrow> complete key start pos' st')"
  using assms(2,3)
proof (induction evs arbitrary: pos st)
  case Nil
  then show ?case by (auto simp: goes_on_def)
next
  case (Cons ev evs)
  let ?st1 = "listen_step key grp consumer sty ev st"
  have ok: "event_ok key ev st" and run: "listen_run key grp consumer sty evs ?st1 = Some st'"
    using Cons.prems(2) by (auto split: if_splits)
  obtain pos1 where 1: "goes_on key grp start pos st pos1 ?st1"
    "complete key start pos st \<and> start \<le> key pos \<and> (\<forall>t. ev \<noteq> Restarted t) \<longrightarrow> complete key start pos1 ?st1"
    using step_goes_on [OF Cons.prems(1) ok assms(1)] by blast
  then have inv: "listen_inv key grp pos1 ?st1" by (simp add: goes_on_def)
  obtain pos2 where 2: "goes_on key grp start pos1 ?st1 pos2 st'"
    "complete key start pos1 ?st1 \<and> start \<le> key pos1 \<and> (\<forall>t. Restarted t \<notin> set evs) \<longrightarrow> complete key start pos2 st'"
    using Cons.IH [OF inv run] by blast
  have "goes_on key grp start pos st pos2 st'" using 1(1) 2(1) unfolding goes_on_def by (meson order.trans)
  moreover have "complete key start pos2 st'" if "complete key start pos st" "start \<le> key pos" "\<forall>t. Restarted t \<notin> set (ev # evs)"
  proof -
    have "key pos \<le> key pos1" using 1(1) by (simp add: goes_on_def)
    then show ?thesis using that 1(2) 2(2) by auto
  qed
  ultimately show ?case by blast
qed

definition listening :: "stream \<Rightarrow> listen_state" where
  "listening s = \<lparr>li_stream = s, li_pending = [], li_queue = [], li_ran = []\<rparr>"

text \<open>C32. A node that listens to one stream in mode \<open>fanout\<close>, with its group at position \<open>pos\<close>: redis gives ids in order, a read that fails
  took nothing. However polls, runs in any order, lost acknowledgements, new entries and restarts (the whole of \<open>StartListen\<close>, trim included)
  follow each other, no entry is run twice. If it is not restarted and has nothing left to read or to run, it has run exactly the entries behind
  \<open>pos\<close>. But what it had read and not run when it stopped is never run afterwards: the loop asks for new entries only, and those stay
  pending. In mode \<open>replayall\<close> this is not so: a restart runs the messages behind the start position again (\<open>replayall_restart\<close>), as
  the first start in mode \<open>replay\<close> does.\<close>

theorem entries_run_at_most_once:
  assumes "sty_mode sty = ModeFanout" "map_of (sr_groups s) grp = Some pos" "key pos \<le> key (sr_lastgen s)"
    and "sorted_wrt (\<lambda>a b. key (msg_id a) < key (msg_id b)) (sr_entries s)"
    and "\<forall>e \<in> set (sr_entries s). key (msg_id e) \<le> key (sr_lastgen s)" "listen_run key grp consumer sty evs (listening s) = Some st"
  shows "distinct (map msg_id (li_ran st)) \<and>
    ((\<forall>t. Restarted t \<notin> set evs) \<and> li_queue st = [] \<and> group_deliveries key grp (li_stream st) = [] \<longrightarrow>
       set (li_ran st) = {m \<in> set (sr_entries (li_stream st)). key pos < key (msg_id m)}) \<and>
    (\<forall>m \<in> set (li_queue st). \<forall>t evs' st'. listen_run key grp consumer sty (Restarted t # evs') st = Some st' \<longrightarrow>
       m \<notin> set (li_ran st'))"
proof -
  have inv0: "listen_inv key grp pos (listening s)" and comp0: "complete key (key pos) pos (listening s)"
    using assms(2-5) by (auto simp: in_order_def listen_inv_def listening_def position_def handed_def complete_def)
  obtain pos' where go: "goes_on key grp (key pos) pos (listening s) pos' st"
    "(\<forall>t. Restarted t \<notin> set evs) \<longrightarrow> complete key (key pos) pos' st"
    using run_goes_on [OF assms(1) inv0 assms(6), of "key pos"] comp0 by auto
  then have inv: "listen_inv key grp pos' st" by (simp add: goes_on_def)
  have "set (li_ran st) = {m \<in> set (sr_entries (li_stream st)). key pos < key (msg_id m)}"
    if "(\<forall>t. Restarted t \<notin> set evs)" "li_queue st = []" "group_deliveries key grp (li_stream st) = []"
  proof -
    have "\<forall>e \<in> set (sr_entries (li_stream st)). key (msg_id e) \<le> key pos'"
      using that(3) inv by (auto simp: group_deliveries_def listen_inv_def position_def after_id_def filter_empty_conv not_less)
    then show ?thesis using go(2) that(1,2) by (auto simp: complete_def handed_def after_id_def)
  qed
  moreover have "m \<notin> set (li_ran st')"
    if m: "m \<in> set (li_queue st)" and run: "listen_run key grp consumer sty (Restarted t # evs') st = Some st'" for m t evs' st'
  proof -
    let ?r = "listen_step key grp consumer sty (Restarted t) st"
    have r: "listen_run key grp consumer sty evs' ?r = Some st'" using run by (simp add: event_ok_def)
    have "map_of (sr_groups (li_stream st)) grp = Some pos'" using inv by (simp add: listen_inv_def position_def)
    note restart = fanout_restart [OF assms(1) this]
    have invr: "listen_inv key grp pos' ?r"
      using inv by (auto simp: restart listen_inv_def position_def handed_def in_order_def sorted_wrt_filter)
    have "msg_id m \<notin> msg_id ` set (handed ?r)" "key (msg_id m) \<le> key pos'"
      using inv m by (auto simp: restart listen_inv_def handed_def)
    then have "msg_id m \<notin> msg_id ` set (handed st')"
      using run_goes_on [OF assms(1) invr r] by (auto simp: goes_on_def)
    then show ?thesis by (auto simp: handed_def)
  qed
  moreover have "distinct (map msg_id (li_ran st))" using inv by (simp add: listen_inv_def handed_def)
  ultimately show ?thesis by blast
qed

subsection \<open>Examples\<close>

text \<open>The position of an id is its length. The node reads the only entry, stops before it is run, and is started again.\<close>

definition text_entry :: message where
  "text_entry = \<lparr>msg_id = ''aa'', msg_input = Some ''{}'', msg_version = Some ''1.0.0''\<rparr>"

definition text_stream :: stream where
  "text_stream = \<lparr>sr_entries = [text_entry], sr_lastgen = ''aa'', sr_groups = [(''g'', ''a'')], sr_consumers = []\<rparr>"

lemma text_poll:
  "\<exists>st. listen_run length ''g'' ''c'' (plain_sty ModeFanout) [Polled None] (listening text_stream) = Some st \<and> li_queue st = [text_entry] \<and> li_ran st = [] \<and>
     li_pending st = [''aa''] \<and> listen_run length ''g'' ''c'' (plain_sty ModeFanout) [Restarted [], Polled None] st = Some (st\<lparr>li_queue := []\<rparr>)"
  by (simp add: listening_def text_stream_def text_entry_def listen_poll_def xreadgroup_def group_deliveries_def after_id_def event_ok_def
      listen_restart_def StartListen_def observe_def plain_sty_def Let_def)

theorem entries_run_at_most_once_witness:
  "\<exists>st st'. listen_run length ''g'' ''c'' (plain_sty ModeFanout) [Polled None] (listening text_stream) = Some st \<and> text_entry \<in> set (li_queue st) \<and>
     listen_run length ''g'' ''c'' (plain_sty ModeFanout) [Restarted [], Polled None] st = Some st' \<and> text_entry \<notin> set (li_ran st') \<and> li_queue st' = []"
proof -
  obtain st where st: "listen_run length ''g'' ''c'' (plain_sty ModeFanout) [Polled None] (listening text_stream) = Some st" "li_queue st = [text_entry]"
    "listen_run length ''g'' ''c'' (plain_sty ModeFanout) [Restarted [], Polled None] st = Some (st\<lparr>li_queue := []\<rparr>)"
    using text_poll by blast
  have pre: "map_of (sr_groups text_stream) ''g'' = Some ''a''" "length ''a'' \<le> length (sr_lastgen text_stream)"
    "sorted_wrt (\<lambda>a b. length (msg_id a) < length (msg_id b)) (sr_entries text_stream)" "\<forall>e \<in> set (sr_entries text_stream). length (msg_id e) \<le> length (sr_lastgen text_stream)"
    by (simp_all add: text_stream_def text_entry_def)
  have "sty_mode (plain_sty ModeFanout) = ModeFanout" by (simp add: plain_sty_def)
  from entries_run_at_most_once [OF this pre st(1)] st(2,3)
  have "text_entry \<notin> set (li_ran (st\<lparr>li_queue := []\<rparr>))" by (metis list.set_intros(1))
  then show ?thesis using st by (intro exI [of _ st] exI [of _ "st\<lparr>li_queue := []\<rparr>"]) simp
qed

end
