(* ===== verification/Job_Pool.thy ===== *)
theory Job_Pool
  imports Job_Worker
begin

section \<open>The pool of the job manager\<close>

text \<open>
  \<open>Init\<close>, \<open>Do\<close> and the loop of \<open>WorkerInit\<close> (\<open>typedhandler_job_manager.go\<close>) around the steps of \<open>Job_Worker\<close>: as many goroutines as the
  configuration says take functions from a channel without a buffer. The loop leases a job, offers it, and waits until a goroutine takes it;
  only then is its heartbeat put on the wheel. A job that has to keep an interval leaves the pool and waits on the wheel. \<open>opts\<close> are the
  registered functions.
\<close>

record job_pool =
  jp_size :: nat
  jp_jm :: jobManager
  jp_store :: callSQLStrategy
  jp_offered :: "sqlJobTask option"
  jp_running :: "(time \<times> sqlJobTask) list"
  jp_parked :: "(time \<times> sqlJobTask) list"

definition pool_Init :: "nat \<Rightarrow> jobManager \<Rightarrow> callSQLStrategy \<Rightarrow> job_pool" where
  "pool_Init n jm c = \<lparr>jp_size = n, jp_jm = jm, jp_store = c, jp_offered = None, jp_running = [], jp_parked = []\<rparr>"

text \<open>One turn of the loop; it is not possible while a job is offered. \<open>None\<close> is that, or a panic.\<close>

definition pool_dequeue ::
  "string option \<Rightarrow> time \<Rightarrow> duration \<Rightarrow> (string \<rightharpoonup> worker_fn) \<Rightarrow> job_pool \<Rightarrow> job_pool option" where
  "pool_dequeue fault now lease opts p =
     (if jp_offered p \<noteq> None then None
      else
        (case worker_dequeue fault now lease opts (jp_jm p) (jp_store p) of
           None \<Rightarrow> None
         | Some (Inl e, jm, c) \<Rightarrow> Some (p\<lparr>jp_jm := jm, jp_store := c\<rparr>)
         | Some (Inr t, jm, c) \<Rightarrow> Some (p\<lparr>jp_jm := jm, jp_store := c, jp_offered := Some t\<rparr>)))"

text \<open>A goroutine that is free takes the offered job.\<close>

definition pool_take :: "(rat \<Rightarrow> int) \<Rightarrow> time \<Rightarrow> (string \<rightharpoonup> worker_fn) \<Rightarrow> job_pool \<Rightarrow> job_pool option" where
  "pool_take to_dur now opts p =
     (if length (jp_running p) < jp_size p then
        (case jp_offered p of
           None \<Rightarrow> None
         | Some t \<Rightarrow>
             (case opts (t_handler t) of
                None \<Rightarrow> None
              | Some w \<Rightarrow>
                  (case worker_start to_dur now w t (jp_jm p) of
                     (None, jm) \<Rightarrow> Some (p\<lparr>jp_jm := jm, jp_offered := None, jp_running := jp_running p @ [(now, t)]\<rparr>)
                   | (Some d, jm) \<Rightarrow> Some (p\<lparr>jp_jm := jm, jp_offered := None, jp_parked := jp_parked p @ [(now, t)]\<rparr>))))
      else None)"

text \<open>The heartbeats on the wheel: those of the jobs that were taken.\<close>

definition beating :: "job_pool \<Rightarrow> sqlJobTask list" where
  "beating p = map snd (jp_running p) @ map snd (jp_parked p)"

definition pool_beat :: "string option \<Rightarrow> time \<Rightarrow> duration \<Rightarrow> nat \<Rightarrow> job_pool \<Rightarrow> job_pool option" where
  "pool_beat fault now lease i p =
     (if i < length (beating p)
      then Some (p\<lparr>jp_store := snd (LeaseUpdate fault now (t_key (beating p ! i)) lease (jp_store p))\<rparr>) else None)"

text \<open>A job ends, in the pool or on the wheel.\<close>

definition drop_nth :: "nat \<Rightarrow> 'a list \<Rightarrow> 'a list" where
  "drop_nth i xs = take i xs @ drop (Suc i) xs"

definition pool_finish :: "worker_env \<Rightarrow> (string \<rightharpoonup> worker_fn) \<Rightarrow> nat \<Rightarrow> job_pool \<Rightarrow> job_pool option" where
  "pool_finish env opts i p =
     (if i < length (beating p) then
        (case (jp_running p @ jp_parked p) ! i of
           (started, t) \<Rightarrow>
             Option.bind (opts (t_handler t)) (\<lambda>w.
               map_option
                 (\<lambda>(jm, c). p\<lparr>jp_jm := jm, jp_store := c,
                    jp_running := (if i < length (jp_running p) then drop_nth i (jp_running p) else jp_running p),
                    jp_parked := (if i < length (jp_running p) then jp_parked p
                      else drop_nth (i - length (jp_running p)) (jp_parked p))\<rparr>)
                 (worker_finish env started w t (jp_jm p) (jp_store p))))
      else None)"

text \<open>The steps of this node, and those other nodes take on the store.\<close>

inductive pool_step :: "(string \<rightharpoonup> worker_fn) \<Rightarrow> job_pool \<Rightarrow> job_pool \<Rightarrow> bool" for opts where
  dequeue: "pool_dequeue fault now lease opts p = Some p' \<Longrightarrow> pool_step opts p p'"
| taken: "pool_take to_dur now opts p = Some p' \<Longrightarrow> pool_step opts p p'"
| beat: "pool_beat fault now lease i p = Some p' \<Longrightarrow> pool_step opts p p'"
| finish: "pool_finish env opts i p = Some p' \<Longrightarrow> pool_step opts p p'"
| others: "pool_step opts p (p\<lparr>jp_store := apply_op op (jp_store p)\<rparr>)"

inductive pool_reachable :: "(string \<rightharpoonup> worker_fn) \<Rightarrow> nat \<Rightarrow> jobManager \<Rightarrow> callSQLStrategy \<Rightarrow> job_pool \<Rightarrow> bool" for opts n jm c where
  start: "pool_reachable opts n jm c (pool_Init n jm c)"
| step: "pool_reachable opts n jm c p \<Longrightarrow> pool_step opts p p' \<Longrightarrow> pool_reachable opts n jm c p'"

subsection \<open>Bounds\<close>

definition pool_ok :: "nat \<Rightarrow> job_pool \<Rightarrow> bool" where
  "pool_ok n p \<longleftrightarrow> jp_size p = n \<and> length (jp_running p) \<le> n \<and> (n = 0 \<longrightarrow> jp_parked p = [])"

lemma length_drop_nth: "i < length xs \<Longrightarrow> length (drop_nth i xs) = length xs - 1"
  by (simp add: drop_nth_def)

lemma pool_step_ok: "pool_step opts p p' \<Longrightarrow> pool_ok n p \<Longrightarrow> pool_ok n p'"
  by (induction rule: pool_step.induct)
    (auto simp: pool_ok_def pool_dequeue_def pool_take_def pool_beat_def pool_finish_def beating_def length_drop_nth
      split: if_splits option.splits sum.splits prod.splits bind_splits)

text \<open>No more jobs run in the pool than it has goroutines; with none a job that was leased stays offered and nothing is run.\<close>

lemma pool_bounded: "pool_reachable opts n jm c p \<Longrightarrow> pool_ok n p"
proof (induction rule: pool_reachable.induct)
  case start
  show ?case by (simp add: pool_Init_def pool_ok_def)
next
  case (step p p')
  then show ?case using pool_step_ok by blast
qed

subsection \<open>The lease of an offered job\<close>

text \<open>Heartbeats, each with its time, its lease and the place of its job.\<close>

fun pool_beats :: "(time \<times> duration \<times> nat) list \<Rightarrow> job_pool \<Rightarrow> job_pool option" where
  "pool_beats [] p = Some p"
| "pool_beats ((now, lease, i) # bs) p = Option.bind (pool_beat None now lease i p) (pool_beats bs)"

lemma pool_beat_effect:
  assumes "pool_beat None now lease i p = Some p'" "k \<notin> set (map t_key (beating p))"
  shows "p'\<lparr>jp_store := jp_store p\<rparr> = p" "find_exec (cs_db (jp_store p')) k = find_exec (cs_db (jp_store p)) k"
    "\<exists>op. jp_store p' = apply_op op (jp_store p)" "maxretry (jp_store p') = maxretry (jp_store p)"
proof -
  have i: "i < length (beating p)" "p' = p\<lparr>jp_store := snd (LeaseUpdate None now (t_key (beating p ! i)) lease (jp_store p))\<rparr>"
    using assms(1) by (auto simp: pool_beat_def split: if_splits)
  have "t_key (beating p ! i) \<noteq> k" using assms(2) i(1) nth_mem [OF i(1)] by auto
  then show "find_exec (cs_db (jp_store p')) k = find_exec (cs_db (jp_store p)) k"
    by (simp add: i(2) LeaseUpdate_def exec_def on_db_def find_exec_update_other)
  show "p'\<lparr>jp_store := jp_store p\<rparr> = p" "maxretry (jp_store p') = maxretry (jp_store p)"
    by (simp_all add: i(2) LeaseUpdate_def exec_def on_db_def)
  show "\<exists>op. jp_store p' = apply_op op (jp_store p)"
    by (rule exI [of _ "OpLeaseUpdate None now (t_key (beating p ! i)) lease"]) (simp add: i(2))
qed

lemma pool_beats_effect:
  assumes "pool_beats bs p = Some p'" "k \<notin> set (map t_key (beating p))" "store_reachable (jp_store p)"
  shows "p'\<lparr>jp_store := jp_store p\<rparr> = p \<and> find_exec (cs_db (jp_store p')) k = find_exec (cs_db (jp_store p)) k \<and>
    store_reachable (jp_store p') \<and> maxretry (jp_store p') = maxretry (jp_store p)"
  using assms
proof (induction bs arbitrary: p)
  case (Cons b bs)
  obtain now lease i where b: "b = (now, lease, i)" by (cases b)
  obtain p1 where p1: "pool_beat None now lease i p = Some p1" "pool_beats bs p1 = Some p'"
    using Cons.prems(1) by (auto simp: b split: bind_splits)
  note e = pool_beat_effect [OF p1(1) Cons.prems(2)]
  have same: "jp_running p1 = jp_running p" "jp_parked p1 = jp_parked p" using arg_cong [OF e(1), of jp_running] arg_cong [OF e(1), of jp_parked] by simp_all
  have "store_reachable (jp_store p1)" using e(3) Cons.prems(3) by (auto intro: reach_step)
  then have "p'\<lparr>jp_store := jp_store p1\<rparr> = p1 \<and> find_exec (cs_db (jp_store p')) k = find_exec (cs_db (jp_store p1)) k \<and>
    store_reachable (jp_store p') \<and> maxretry (jp_store p') = maxretry (jp_store p1)"
    using Cons.IH [OF p1(2)] Cons.prems(2) by (simp add: beating_def same)
  then show ?case using e by (metis job_pool.surjective job_pool.update_convs(3))
qed simp

lemma worker_dequeue_Dequeue:
  assumes "worker_dequeue None now lease opts jm c = Some (Inr t, jm', c')"
  shows "\<exists>hs e t0 e'. Dequeue None now hs lease c e = (Inr t0, c', e') \<and> t_key t0 = t_key t \<and> t_handler t0 = t_handler t"
  using assms by (auto simp: worker_dequeue_def Let_def split: prod.splits sum.splits option.splits) (intro exI conjI, assumption, simp_all)

text \<open>C31. A node leases a job \<open>t\<close> while every goroutine of its pool is busy, and runs no other job of that key. The job is offered and waits: it cannot
  be taken, and whatever heartbeats the running jobs send, its row stays as the dequeue left it, with the lease of that moment. Once the lease is
  over, a reaping (with a driver that binds the arguments of its three statements, nothing else touching the row) takes the job away from this
  node: if its retries are below the maximum the row is queued again, unleased, for the same handler and due, so any node may lease it; if they are
  used up it is recorded as failed (or deleted, with its TTL over). This node knows nothing of it: as soon as a goroutine is free the
  pool takes the job and runs it, a second time or after it was given up.\<close>

theorem offered_job_is_not_renewed:
  assumes "store_reachable (jp_store p)" "pool_dequeue None now lease opts p = Some p1" "jp_offered p1 = Some t"
    and busy: "jp_size p1 \<le> length (jp_running p1)"
    and single: "\<forall>(s, x) \<in> set (jp_running p) \<union> set (jp_parked p). t_key x \<noteq> t_key t"
    and beats: "pool_beats bs p1 = Some p2"
    and reaping: "restarts bind" "0 \<le> lease" "now + lease < u"
  shows "jp_offered p2 = Some t \<and> pool_take to_dur u opts p2 = None \<and>
    (\<exists>q row. find_exec (cs_db (jp_store p)) (t_key t) = Some q \<and> find_exec (cs_db (jp_store p2)) (t_key t) = Some row \<and>
      e_status row = 1 \<and> e_leased row = Some (now + lease) \<and>
      (let after = find_exec (cs_db (snd (Reaping None bind u (jp_store p2)))) (t_key t) in
       if \<exists>n. e_retry q = Some n \<and> maxretry (jp_store p) \<le> n
       then (case after of None \<Rightarrow> (\<exists>x. e_ttl q = Some x \<and> x < u) | Some r \<Rightarrow> e_status r = 3)
       else \<exists>r. after = Some r \<and> e_status r = 0 \<and> e_leased r = None \<and> e_handler r = t_handler t \<and> e_run_at r \<le> u)) \<and>
    (\<forall>p3 v. jp_offered p3 = Some t \<and> length (jp_running p3) < jp_size p3 \<longrightarrow>
      (\<exists>p4. pool_take to_dur v opts p3 = Some p4 \<and> jp_offered p4 = None \<and> t \<in> set (map snd (jp_running p4 @ jp_parked p4))))"
proof -
  obtain jm c where d: "worker_dequeue None now lease opts (jp_jm p) (jp_store p) = Some (Inr t, jm, c)" "p1 = p\<lparr>jp_jm := jm, jp_store := c, jp_offered := Some t\<rparr>"
    using assms(2,3) by (auto simp: pool_dequeue_def split: if_splits option.splits prod.splits sum.splits)
  obtain hs e t0 e' where dq: "Dequeue None now hs lease (jp_store p) e = (Inr t0, c, e')" "t_key t0 = t_key t" "t_handler t0 = t_handler t"
    using worker_dequeue_Dequeue [OF d(1)] by blast
  obtain w where w: "opts (t_handler t) = Some w"
    using d(1) by (auto simp: worker_dequeue_def Let_def split: prod.splits sum.splits option.splits)
  have runs: "\<exists>p4. pool_take to_dur v opts p3 = Some p4 \<and> jp_offered p4 = None \<and> t \<in> set (map snd (jp_running p4 @ jp_parked p4))"
    if "jp_offered p3 = Some t \<and> length (jp_running p3) < jp_size p3" for p3 v
    using that w by (auto simp: pool_take_def split: prod.split option.split)
  have other: "t_key t \<notin> set (map t_key (beating p1))"
    using single unfolding d(2) beating_def by fastforce
  have inv: "store_inv (jp_store p)" by (rule reachable_inv [OF assms(1)])
  then have wf: "wf_keys (cs_db (jp_store p))" by (simp add: store_inv_def db_inv_def)
  obtain q where q: "next_job now hs (cs_db (jp_store p)) = Some q"
    using dq(1) by (cases "next_job now hs (cs_db (jp_store p))") (auto simp: Dequeue_cases)
  note q' = next_job_Some [OF q wf]
  have key: "e_key q = t_key t" "e_handler q = t_handler t" using dq q by (auto simp: Dequeue_cases)
  have c: "find_exec (cs_db c) (t_key t) = Some (lease_row now lease q)" "maxretry c = maxretry (jp_store p)"
    using dq(1) q find_exec_lease [OF wf q'(1)] key by (auto simp: Dequeue_cases)
  have "find_exec (cs_db (jp_store p)) (t_key t) = Some q" using find_exec_unique [OF wf q'(1)] key(1) by simp
  note row = this
  have "store_reachable c"
  proof -
    have "c = apply_op (OpDequeue None now hs lease) (jp_store p)" using dq(1) q by (auto simp: Dequeue_cases)
    then show ?thesis using reach_step [OF assms(1), of "OpDequeue None now hs lease"] by simp
  qed
  then have b: "p2\<lparr>jp_store := jp_store p1\<rparr> = p1" "find_exec (cs_db (jp_store p2)) (t_key t) = Some (lease_row now lease q)"
    "store_reachable (jp_store p2)" "maxretry (jp_store p2) = maxretry (jp_store p)"
    using pool_beats_effect [OF beats other] c d(2) by auto
  have same: "jp_offered p2 = Some t" "jp_running p2 = jp_running p1" "jp_size p2 = jp_size p1"
    using arg_cong [OF b(1), of jp_offered] arg_cong [OF b(1), of jp_running] arg_cong [OF b(1), of jp_size] assms(3) by simp_all
  have "db_inv (cs_db (jp_store p2))" using reachable_inv [OF b(3)] by (simp add: store_inv_def)
  then have reap: "find_exec (cs_db (snd (Reaping None bind u (jp_store p2)))) (t_key t) = reap_row u (maxretry (jp_store p2)) (lease_row now lease q)"
    by (simp add: Reaping_restart [OF reaping(1)] on_db_def find_exec_reap b(2))
  have lease: "e_status (lease_row now lease q) = 1" "e_leased (lease_row now lease q) = Some (now + lease)"
    by (simp_all add: lease_row_def)
  have "e_run_at q \<le> u" using q'(2) reaping(2,3) by (simp add: dq_eligible_def)
  then have "let after = find_exec (cs_db (snd (Reaping None bind u (jp_store p2)))) (t_key t) in
       if \<exists>n. e_retry q = Some n \<and> maxretry (jp_store p) \<le> n
       then (case after of None \<Rightarrow> (\<exists>x. e_ttl q = Some x \<and> x < u) | Some r \<Rightarrow> e_status r = 3)
       else \<exists>r. after = Some r \<and> e_status r = 0 \<and> e_leased r = None \<and> e_handler r = t_handler t \<and> e_run_at r \<le> u"
    unfolding reap using reaping(3) b(4)
    by (cases "e_retry q"; cases "e_ttl q") (auto simp: reap_row_def lease_row_def past_def key)
  then have "\<exists>q row. find_exec (cs_db (jp_store p)) (t_key t) = Some q \<and> find_exec (cs_db (jp_store p2)) (t_key t) = Some row \<and>
      e_status row = 1 \<and> e_leased row = Some (now + lease) \<and>
      (let after = find_exec (cs_db (snd (Reaping None bind u (jp_store p2)))) (t_key t) in
       if \<exists>n. e_retry q = Some n \<and> maxretry (jp_store p) \<le> n
       then (case after of None \<Rightarrow> (\<exists>x. e_ttl q = Some x \<and> x < u) | Some r \<Rightarrow> e_status r = 3)
       else \<exists>r. after = Some r \<and> e_status r = 0 \<and> e_leased r = None \<and> e_handler r = t_handler t \<and> e_run_at r \<le> u)"
    using row b(2) lease by blast
  moreover have "jp_offered p2 = Some t \<and> pool_take to_dur u opts p2 = None"
    using same busy by (simp add: pool_take_def)
  ultimately show ?thesis using runs by blast
qed

subsection \<open>Examples\<close>

text \<open>A pool of one goroutine that runs the job \<open>m1\<close>, and one job in the queue.\<close>

definition text_pool :: job_pool where
  "text_pool = (pool_Init 1 text_manager queued_store)\<lparr>jp_running := [(44, \<lparr>t_key = ''m1'', t_handler = ''up'', t_meta = zeroMeta, t_input = None\<rparr>)]\<rparr>"

theorem offered_job_is_not_renewed_witness:
  "\<exists>p1 t row. pool_dequeue None 45 5 [''up'' \<mapsto> text_worker] text_pool = Some p1 \<and> jp_offered p1 = Some t \<and> t_key t = text_key \<and>
     find_exec (cs_db (snd (Reaping None restart_binding 51 (jp_store p1)))) text_key = Some row \<and> e_status row = 0"
proof -
  let ?opts = "[''up'' \<mapsto> text_worker]"
  let ?d = "pool_dequeue None 45 5 ?opts text_pool"
  let ?sum = "\<lambda>p. (map_option (\<lambda>t. (t_key t, t_handler t)) (jp_offered p), jp_size p, length (jp_running p))"
  have ok: "map_option ?sum ?d = Some (Some (text_key, ''up''), 1, 1)" by code_simp
  obtain p1 t where p1: "?d = Some p1" "jp_offered p1 = Some t" "t_key t = text_key" "t_handler t = ''up''" "jp_size p1 = 1"
    "length (jp_running p1) = 1"
    using ok by (cases ?d) auto
  have re: "store_reachable (jp_store text_pool)"
    unfolding text_pool_def pool_Init_def queued_store_def empty_store_def by (simp, intro reachable_acquire reach_init)
  have row: "map_option (\<lambda>r. case e_retry r of None \<Rightarrow> True | Some k \<Rightarrow> k < maxretry (jp_store text_pool))
      (find_exec (cs_db (jp_store text_pool)) text_key) = Some True" by code_simp
  have key: "''m1'' \<noteq> text_key" by code_simp
  have other: "\<forall>(s, x) \<in> set (jp_running text_pool) \<union> set (jp_parked text_pool). t_key x \<noteq> t_key t"
    unfolding p1(3) using key by (simp add: text_pool_def pool_Init_def)
  from offered_job_is_not_renewed [OF re p1(1,2) _ other pool_beats.simps(1) restarts_restart_binding, of 51 floor] row p1
  show ?thesis by (auto simp: Let_def split: if_splits option.splits)
qed

end
