(* ===== verification/Spec2Isabelle.thy ===== *)
theory Spec2Isabelle
  imports Revoker Time_Wheel Rand_Cron Ema Job_Worker Future Session Login Acl
    Routes Pipeline Kvs Redis_Session Redis_Stream Mcp Request_Binding
    Config_Merge Server_Boot Server_Cli Static_Files File_Jobs
    Tag_Plan Open_Api Ai_Client Function_New
    Config_Values Extension_Options Job_Hooks Console Request_Identity
    Connections Log_Setup With_Session Binding_Plan Stream_Listen Job_Pool
begin

text \<open>
  \<^bold>\<open>The program.\<close> allino is a Go framework for HTTP handlers that can also run as background jobs. A typed
  handler (\<open>typedhandler.go\<close>) is called from HTTP, from another handler, from the command line or by a
  worker. A call passes access control (\<open>serve_casbin.go\<close>), then, by its job mode, either the sticky-session
  router (\<open>session*.go\<close>) or the job layer (\<open>typedhandler_job*.go\<close>), which locks, caches and queues
  executions in a SQL table and runs queued ones in workers. Long waits, heartbeats and collectors are
  tasks of one time wheel (\<open>internal/timewheel\<close>); revoked logins are kept in rotating buckets over a radix
  trie (\<open>ext/revoker\<close>, \<open>internal/trie\<close>).

  \<^bold>\<open>How to read the model.\<close> Each operation is a definition that returns its result and the new state; one
  theory stands for one part of the program. Time is an \<open>int\<close> in nanoseconds and is an argument wherever the code
  reads the clock. A panic is the outcome \<open>None\<close>; an error is a value of an error datatype; a fault of the
  database driver is an explicit argument, so every theorem speaks of faulty runs too. A mutex-protected
  method is one step, and interleavings are sequences of steps. Code outside the repository (JSON, SHA-256,
  encryption, JWT, Casbin, SQL driver, random numbers, network) is an argument of the definitions that use
  it; what is assumed of it is a hypothesis of the theorem that needs it, and each such theorem has a
  witness with a concrete function. Floating-point numbers are rationals, with the conversion to an
  integer as an argument. Machine integers are wrapped to their width where the code can reach the end of it (integers bound from a
  request, durations, ranges, the counters of session resources); elsewhere the theorems name the bound they need.

  \<^bold>\<open>The theories.\<close>

  \<^item> \<open>Prelude\<close>: strings, decimal numbers, results, association lists; the collections \<open>model_defs\<close> and
    \<open>inv_intros\<close>.

  \<^item> \<open>Prefix_Index\<close> and \<open>Radix_Trie\<close> (\<open>internal/trie/trie.go\<close>): the locale \<open>prefix_index\<close> states what a client
    of the trie relies on; \<open>Radix_Trie\<close> models \<open>Insert\<close>, \<open>MatchAll\<close> and \<open>ShortestMatch\<close>, shows that the tree
    refines a finite map and interprets the locale.

  \<^item> \<open>Revoker\<close> (\<open>ext/revoker/revoker.go\<close>): buckets, rotation, \<open>Revoke\<close>, \<open>IsRevoked\<close>, \<open>OnAuthZ\<close>.

  \<^item> \<open>Time_Wheel\<close> (\<open>internal/timewheel/timewheel.go\<close>): slots, rounds, ticks, cancel; a task fires at exactly
    one tick. \<open>Rand_Cron\<close> (\<open>internal/randcron\<close>): expansion of random cron fields. \<open>Ema\<close> (\<open>internal/ema\<close>).

  \<^item> \<open>Job_Table\<close> (the schema and triggers in \<open>callSQLStrategy.Init\<close>), \<open>Job_Store\<close> (every method of
    \<open>callSQLStrategy\<close> and \<open>sqlJobStore\<close>), \<open>Job_Store_Props\<close> (reachable stores, their invariant, dequeue,
    reaping, leases), \<open>Job_Lock\<close> (the locale \<open>job_lock\<close>: a named lock with expiry; the SQL store is its
    interpretation) and \<open>Job_Results\<close> (results, waiting, totals).

  \<^item> \<open>Job_Codec\<close> (job ids, versions, options, result encoding, back-off), \<open>Job_Call\<close> (\<open>call_job\<close>,
    \<open>unmarshalfnMake\<close>, \<open>JobResult\<close>) and \<open>Job_Call_Props\<close>; \<open>Job_Set\<close> and \<open>Job_Worker\<close> (the job manager's loop,
    \<open>invokeFunctionJSON\<close>, \<open>WaitForJob\<close>); \<open>Future\<close> (\<open>Go\<close>, \<open>Then\<close>, \<open>Catch\<close>, \<open>Finally\<close>, \<open>Await\<close>).

  \<^item> \<open>Session\<close> (resources, creation, collection and routing of sticky sessions), \<open>Login\<close> (who makes a
    request, write permission, guest sessions, issuing tokens), \<open>Acl\<close> (templates, variables, decision),
    \<open>Redis_Session\<close> (a session as a redis hash that is written back at the end of the request).

  \<^item> \<open>Http_Error\<close> (error values and how they are written to a response), \<open>Routes\<close> (the order of paths and the
    registration of functions), \<open>Request_Binding\<close> (tags, defaults, \<open>getAll\<close>), \<open>Pipeline\<close> (\<open>HandleRequest\<close>, \<open>Call\<close>:
    the layers around a handler and the choice of its answer).

  \<^item> \<open>Redis_Stream\<close> (jobs published on a redis stream, replay and listening), \<open>Kvs\<close> (the key-value stores; the locale
    \<open>kvs_strategy\<close> has the SQL and the redis backend as its interpretations), \<open>Mcp\<close> (the JSON-RPC endpoint, its registry and
    prompts).

  \<^item> \<open>Config_Merge\<close> (\<open>merge.go\<close>; the locale \<open>layering\<close>), \<open>Server_Boot\<close> (\<open>NewServer\<close>, the files of the configuration and their
    secrets, hooks, start and stop), \<open>Server_Cli\<close> (the flags of the command line and when they take effect), \<open>Static_Files\<close>
    (\<open>serve_handle_fs.go\<close>: fallbacks, entity tags, ranges).

  \<^item> \<open>File_Jobs\<close> (\<open>typedhandler_file.go\<close>: jobs over files and archives), \<open>Tag_Plan\<close> (\<open>ext/tag.go\<close>, with a datatype of Go types and values
    that the theories after it use), \<open>Open_Api\<close> (the OpenAPI document and the list of routes), \<open>Function_New\<close> (\<open>NewFunction\<close> and
    functions inside inputs), \<open>Ai_Client\<close> (providers and the tool loops of both clients).

  \<^item> \<open>Config_Values\<close> (\<open>serve_yaml.go\<close>, \<open>env.go\<close>, \<open>serve_id.go\<close>, \<open>serve_sqids.go\<close>, \<open>serve_cli_keygen.go\<close>: durations and sizes, the
    environment, the id of a server, short ids, encrypted files), \<open>Extension_Options\<close> (\<open>serve_extension.go\<close>: the section of an
    extension and the values it keeps in an option), \<open>Job_Hooks\<close> (how the job extension starts strategy, workers and reaping;
    \<open>call_direct\<close>), \<open>Console\<close> (\<open>run\<close>, \<open>mcp\<close> and the list of jobs), \<open>Request_Identity\<close> (request ids, client addresses, deferred
    functions, the address of a node).

  \<^item> \<open>Connections\<close> (the clients of redis, SQL, S3, HTTP and Casbin; the client of each host with concurrent callers; web sockets up to the
    upgrade), \<open>Log_Setup\<close> (\<open>serve_log.go\<close>: cores, writers and rotation; the display of \<open>serve_cli_app.go\<close>), \<open>With_Session\<close> (\<open>GetSession\<close> and
    \<open>WithSession\<close> when requests overlap), \<open>Binding_Plan\<close> (\<open>reflectplan.go\<close>), \<open>Stream_Listen\<close> (the read loop of a stream, with lost
    acknowledgements and restarts), \<open>Job_Pool\<close> (the pool of the job manager: leases, heartbeats and the wait for a free goroutine).

  \<^bold>\<open>What is shown.\<close> Invariants of reachable states (job store C1, session accounting C7, wheel and revoker
  inside their theories); what the fields of an input hold after binding a request (C6); functional descriptions of operations
  on every branch, errors included (C2, C8, C9, C11, C13, C18, C19, C20, C22, C26, C28, C29, C33, C40); equivalence of
  two pieces of code, or of code and a reference definition (C17, C25, C38), and refinement (C21); mutual
  exclusion, lease, permission and confidentiality properties over sequences of operations (C3, C4, C5, C12, C15, C16,
  C24, C31, C32, C36); termination of the replay, of file jobs and of the tool loops (C13, C34, C35), liveness of the wheel
  (C23); round trips (C10, C14, C27, C30); bounds (C39); and behaviours the code has but hardly means (C26, C31, C33, C37
  and parts of C5, C13, C16, C27, C32, C34, C36, C38, C39). The statements spell out conditions and rows in full instead of repeating
  the definitions they are about, and the text before each names every hypothesis. Theorems beside these, in the same theories, settle smaller questions: revocations
  that are lost, jobs that stay stuck, ids, versions and back-off, waiting for jobs, defaults, recursive input
  types, flags without effect, empty ranges, the constructors of the stores.

  \<^bold>\<open>Termination and fuel.\<close> Loops over data are structural or have a measure (such as that of \<open>ParseDuration\<close>); loops that wait (\<open>Wait\<close>, \<open>go_internal\<close>, the worker)
  take the list of observations they make and return \<open>None\<close>, or no outcome, when it runs out, and the theorems say
  which observations make them return. Loops the code does not bound are \<open>partial_function\<close>s on options: the
  replay of a stream (C13 shows when it returns), the tool loop of ChatGPT (C35) and \<open>hasSelfDiscovery\<close> (which does not
  return for recursive types, shown in \<open>Function_New\<close>). Two definitions have a depth: \<open>jobhandler\<close>, the nesting of archives (C34:
  from some bound on the result no longer changes, when no tar archive holds another one; for an archive that contains
  itself no bound is enough), and \<open>fillSelfDiscovery\<close>, the nesting of a value (its size is enough, shown in \<open>Function_New\<close>). The ten
  rounds of the Ollama client are the code's own.

  \<^bold>\<open>Not modelled.\<close> The libraries behind the clients, the loggers and web sockets, and the terminal; the
  signals and goroutines of the server, the reverse proxy's transport, the heartbeat's own scheduling inside
  \<open>call_job\<close> (its effect, \<open>LeaseUpdate\<close>, is modelled), the mutex that \<open>WithSession\<close> holds on a sticky session, and the Go
  memory model.
\<close>

end
